(* ===== verification/Prelude.thy ===== *)
theory Prelude
  imports Main "HOL-Library.Word" "HOL-Library.Monad_Syntax" "HOL-Library.Sublist"
begin

text \<open>
  Shared vocabulary of the development: the outcome of code guarded by \<open>CHECK\<close>,
  the collections of facts that carry the component proofs, the part of the C++
  standard library the sources use on strings, vectors, maps and streams, and generic
  lemmas on lists and options.

  A process that fails a \<open>CHECK\<close> aborts. A function that can abort returns an
  \<open>option\<close>: \<^term>\<open>None\<close> is the abort, \<^term>\<open>Some x\<close> an ordinary return.
\<close>

named_theorems check_simps \<open>unfolding of CHECK and of the option monad\<close>
named_theorems str_simps \<open>facts on the string library\<close>

type_synonym byte = "8 word"

section \<open>CHECK\<close>

definition CHECK :: "bool \<Rightarrow> unit option" where
  "CHECK b = (if b then Some () else None)"

lemma CHECK_True [simp]: "CHECK True = Some ()"
  by (simp add: CHECK_def)

lemma CHECK_False [simp]: "CHECK False = None"
  by (simp add: CHECK_def)

lemma CHECK_eq_Some [simp]: "CHECK b = Some u \<longleftrightarrow> b"
  by (simp add: CHECK_def)

lemma CHECK_bind [simp, check_simps]: "Option.bind (CHECK b) f = (if b then f () else None)"
  by (simp add: CHECK_def)

lemma bind_eq_Some_iff [check_simps]:
  "Option.bind m f = Some y \<longleftrightarrow> (\<exists>x. m = Some x \<and> f x = Some y)"
  by (cases m) auto

lemma bind_neq_None_iff [check_simps]:
  "Option.bind m f \<noteq> None \<longleftrightarrow> (\<exists>x. m = Some x \<and> f x \<noteq> None)"
  by (cases m) auto

section \<open>std::string\<close>

text \<open>
  \<open>std::string::size_type\<close> is a 32-bit unsigned integer on the target, and
  \<open>npos\<close> its largest value. Positions are natural numbers, and an operation whose
  wrap-around the sources depend on writes the modulus out (\<open>size_add\<close>).
\<close>

definition size_bound :: nat where "size_bound = 2 ^ 32"

definition npos :: nat where "npos = size_bound - 1"

definition size_add :: "nat \<Rightarrow> nat \<Rightarrow> nat" where
  "size_add a b = (a + b) mod size_bound"

lemma size_add_small: "a + b < size_bound \<Longrightarrow> size_add a b = a + b"
  by (simp add: size_add_def)

lemma size_add_npos_1: "size_add npos 1 = 0"
  by (simp add: size_add_def npos_def size_bound_def)

lemma npos_nonzero [simp]: "npos \<noteq> 0" "0 \<noteq> npos" "0 < npos"
  by (simp_all add: npos_def size_bound_def)

lemma npos_less_size_bound: "npos < size_bound"
  by (simp add: npos_def size_bound_def)

text \<open>
  \<open>str_search pat s i\<close> is the first position of \<open>pat\<close> in \<open>s\<close>, counted
  from \<open>i\<close>: \<open>std::string::find\<close>, with \<open>npos\<close> for no occurrence.
\<close>

fun str_search :: "'a list \<Rightarrow> 'a list \<Rightarrow> nat \<Rightarrow> nat" where
  "str_search pat [] i = (if pat = [] then i else npos)"
| "str_search pat (c # s) i =
     (if prefix pat (c # s) then i else str_search pat s (Suc i))"

definition str_find :: "'a list \<Rightarrow> 'a list \<Rightarrow> nat" where
  "str_find s pat = str_search pat s 0"

text \<open>\<open>s.find(pat, pos)\<close>\<close>

definition str_find_from :: "'a list \<Rightarrow> 'a list \<Rightarrow> nat \<Rightarrow> nat" where
  "str_find_from s pat pos =
     (if pos \<le> length s then str_search pat (drop pos s) pos else npos)"

text \<open>\<open>s.substr(pos, n)\<close>, which throws out of range when \<open>pos > size()\<close>.\<close>

definition str_substr :: "'a list \<Rightarrow> nat \<Rightarrow> nat \<Rightarrow> 'a list option" where
  "str_substr s pos n = (if pos \<le> length s then Some (take n (drop pos s)) else None)"

text \<open>\<open>s.rfind(c)\<close> for a single character.\<close>

fun str_rfind_aux :: "'a \<Rightarrow> 'a list \<Rightarrow> nat \<Rightarrow> nat \<Rightarrow> nat" where
  "str_rfind_aux c [] i found = found"
| "str_rfind_aux c (x # s) i found = str_rfind_aux c s (Suc i) (if x = c then i else found)"

definition str_rfind :: "'a list \<Rightarrow> 'a \<Rightarrow> nat" where
  "str_rfind s c = str_rfind_aux c s 0 npos"

lemma str_search_cases:
  "str_search pat s i = npos \<and> \<not> sublist pat s
   \<or> (\<exists>pre post. s = pre @ pat @ post \<and> str_search pat s i = i + length pre)"
proof (induction pat s i rule: str_search.induct)
  case (1 pat i)
  show ?case by (cases "pat = []") auto
next
  case (2 pat c s i)
  show ?case
  proof (cases "prefix pat (c # s)")
    case True
    then obtain post where "c # s = pat @ post" by (auto simp: prefix_def)
    moreover from True have "str_search pat (c # s) i = i + length ([] :: 'a list)" by simp
    ultimately show ?thesis by (metis append_Nil)
  next
    case False
    from 2[OF False] show ?thesis
    proof (elim disjE exE conjE)
      assume "str_search pat s (Suc i) = npos" "\<not> sublist pat s"
      with False show ?thesis by (simp add: sublist_Cons_right)
    next
      fix pre post
      assume "s = pre @ pat @ post" "str_search pat s (Suc i) = Suc i + length pre"
      with False have "c # s = (c # pre) @ pat @ post
          \<and> str_search pat (c # s) i = i + length (c # pre)" by simp
      then show ?thesis by blast
    qed
  qed
qed

lemma str_search_not_npos:
  assumes "sublist pat s" and "i + length s < npos"
  shows "\<exists>pre post. s = pre @ pat @ post \<and> str_search pat s i = i + length pre"
  using str_search_cases[of pat s i] assms(1) by blast

lemma str_search_le_occurrence: "str_search pat (p @ pat @ q) i \<le> i + length p"
proof (induction p arbitrary: i)
  case Nil
  have "prefix pat (pat @ q)" by simp
  then show ?case by (cases "pat @ q") simp_all
next
  case (Cons a p)
  show ?case using Cons.IH[of "Suc i"] by simp
qed

lemma str_search_bound:
  assumes "str_search pat s i \<noteq> npos"
  shows "i \<le> str_search pat s i \<and> str_search pat s i + length pat \<le> i + length s"
  using str_search_cases[of pat s i] assms by auto

lemma str_find_npos_iff:
  assumes "length s < npos"
  shows "str_find s pat = npos \<longleftrightarrow> \<not> sublist pat s"
proof -
  from assms str_search_cases[of pat s 0] show ?thesis
    by (auto simp: str_find_def)
qed

lemma str_rfind_aux_notin: "c \<notin> set s \<Longrightarrow> str_rfind_aux c s i f = f"
  by (induction s arbitrary: i f) auto

lemma str_rfind_aux_append:
  "str_rfind_aux c (s @ t) i f = str_rfind_aux c t (i + length s) (str_rfind_aux c s i f)"
  by (induction s arbitrary: i f) auto

lemma str_rfind_notin: "c \<notin> set s \<Longrightarrow> str_rfind s c = npos"
  by (simp add: str_rfind_def str_rfind_aux_notin)

lemma str_rfind_last:
  "c \<notin> set t \<Longrightarrow> str_rfind (s @ c # t) c = length s"
  by (simp add: str_rfind_def str_rfind_aux_append str_rfind_aux_notin)

lemma last_occurrence:
  assumes "c \<in> set s"
  shows "\<exists>a b. s = a @ c # b \<and> c \<notin> set b"
  using split_list_last[OF assms] by blast

section \<open>Lists\<close>

lemma take_min_length: "take (min n (length xs)) xs = take n xs"
  by (simp add: min_def)

lemma map_upt_nth_id [simp]: "map ((!) xs) [0..<length xs] = xs"
  by (rule map_nth)

lemma butlast_last_append: "xs \<noteq> [] \<Longrightarrow> butlast xs @ [last xs] = xs"
  by simp

lemma length_two_last:
  assumes "2 \<le> length xs"
  shows "xs ! (length xs - 2) = last (butlast xs)"
proof -
  from assms have "butlast xs \<noteq> []" by (cases xs rule: rev_cases) auto
  then show ?thesis using assms
    by (simp add: last_conv_nth nth_butlast)
       (metis numeral_2_eq_2)
qed

section \<open>Transition systems\<close>

text \<open>
  The states a component can be in: the ones its constructor makes, closed under its
  steps. Locale \<open>invariant_system\<close> is the contract of an inductive invariant; each
  component interprets it on its own initial states and step relation.
\<close>

inductive reachable :: "('s \<Rightarrow> bool) \<Rightarrow> ('s \<Rightarrow> 's \<Rightarrow> bool) \<Rightarrow> 's \<Rightarrow> bool"
  for init :: "'s \<Rightarrow> bool" and step :: "'s \<Rightarrow> 's \<Rightarrow> bool" where
  reach_init: "init s \<Longrightarrow> reachable init step s"
| reach_step: "reachable init step s \<Longrightarrow> step s t \<Longrightarrow> reachable init step t"

locale invariant_system =
  fixes init :: "'s \<Rightarrow> bool" and step :: "'s \<Rightarrow> 's \<Rightarrow> bool" and inv :: "'s \<Rightarrow> bool"
  assumes init_inv: "init s \<Longrightarrow> inv s"
    and step_inv: "inv s \<Longrightarrow> step s t \<Longrightarrow> inv t"
begin

lemma reachable_inv: "reachable init step s \<Longrightarrow> inv s"
  by (induction rule: reachable.induct) (auto intro: init_inv step_inv)

lemma steps_inv: "step\<^sup>*\<^sup>* s t \<Longrightarrow> inv s \<Longrightarrow> inv t"
  by (induction rule: rtranclp_induct) (auto intro: step_inv)

lemma reachable_steps: "step\<^sup>*\<^sup>* s t \<Longrightarrow> reachable init step s \<Longrightarrow> reachable init step t"
  by (induction rule: rtranclp_induct) (auto intro: reach_step)

end

end
