(* ===== verification/UE_Strings.thy ===== *)
theory UE_Strings
  imports Prelude
begin

text \<open>
  The string helpers of the update engine: \<open>NormalizePath\<close>, \<open>StringHasSuffix\<close>,
  \<open>StringHasPrefix\<close>, \<open>BootDevice\<close>, \<open>TempFilename\<close>, \<open>HexDumpArray\<close> and the
  container predicates of \<open>update_engine/utils.h\<close> and \<open>update_engine/utils.cc\<close>.

  Files the helpers read are arguments: the contents of \<open>/proc/cmdline\<close>, the predicate
  \<open>FileExists\<close>, and the stream of values \<open>rand()\<close> returns.
\<close>

section \<open>Definitions\<close>

definition StringHasSuffix :: "string \<Rightarrow> string \<Rightarrow> bool" where
  "StringHasSuffix str suff =
     (if length suff > length str then False
      else take (length suff) (drop (length str - length suff) str) = suff)"

definition StringHasPrefix :: "string \<Rightarrow> string \<Rightarrow> bool" where
  "StringHasPrefix str pre =
     (if length pre > length str then False else take (length pre) str = pre)"

definition MapContainsKey :: "('k \<rightharpoonup> 'v) \<Rightarrow> 'k \<Rightarrow> bool" where
  "MapContainsKey m k = (case m k of None \<Rightarrow> False | Some _ \<Rightarrow> True)"

definition SetWithValue :: "'a \<Rightarrow> 'a list" where
  "SetWithValue v = [v]"

definition VectorContainsValue :: "'a list \<Rightarrow> 'a \<Rightarrow> bool" where
  "VectorContainsValue vect v = (find (\<lambda>x. x = v) vect \<noteq> None)"

subsection \<open>NormalizePath\<close>

fun normalize_loop :: "string \<Rightarrow> string \<Rightarrow> bool \<Rightarrow> string \<times> bool" where
  "normalize_loop [] ret last_insert_was_slash = (ret, last_insert_was_slash)"
| "normalize_loop (c # cs) ret last_insert_was_slash =
     (if c = CHR ''/'' then
        (if last_insert_was_slash then normalize_loop cs ret last_insert_was_slash
         else normalize_loop cs (ret @ [c]) True)
      else normalize_loop cs (ret @ [c]) False)"

text \<open>\<open>std::string::find_last_not_of(c)\<close>\<close>

fun find_last_not_of_aux :: "char \<Rightarrow> string \<Rightarrow> nat \<Rightarrow> nat \<Rightarrow> nat" where
  "find_last_not_of_aux c [] i found = found"
| "find_last_not_of_aux c (x # s) i found =
     find_last_not_of_aux c s (Suc i) (if x \<noteq> c then i else found)"

definition find_last_not_of :: "string \<Rightarrow> char \<Rightarrow> nat" where
  "find_last_not_of s c = find_last_not_of_aux c s 0 npos"

definition NormalizePath :: "string \<Rightarrow> bool \<Rightarrow> string" where
  "NormalizePath path strip_trailing_slash =
     (let (ret, last_insert_was_slash) = normalize_loop path [] False in
      if strip_trailing_slash \<and> last_insert_was_slash then
        (let last_non_slash = find_last_not_of ret (CHR ''/'') in
         if last_non_slash \<noteq> npos then take (last_non_slash + 1) ret else '''')
      else ret)"

subsection \<open>BootDevice\<close>

fun scan_device :: "string \<Rightarrow> string \<Rightarrow> string" where
  "scan_device [] ret = ret"
| "scan_device (c # cs) ret = (if c = CHR '' '' then ret else scan_device cs (ret @ [c]))"

definition boot_device_pos :: "string \<Rightarrow> nat" where
  "boot_device_pos proc_cmdline =
     (if \<not> StringHasPrefix proc_cmdline ''root=''
      then size_add (str_find proc_cmdline '' root='') 1 else 0)"

text \<open>The argument is what \<open>ReadFileToString("/proc/cmdline")\<close> yields.\<close>

definition BootDevice :: "string option \<Rightarrow> string" where
  "BootDevice cmdline =
     (case cmdline of
        None \<Rightarrow> ''''
      | Some proc_cmdline \<Rightarrow>
          (let pos = boot_device_pos proc_cmdline in
           if pos = npos then ''''
           else scan_device (drop (pos + length ''root='') proc_cmdline) ''''))"

subsection \<open>TempFilename\<close>

definition temp_char :: "nat \<Rightarrow> char" where
  "temp_char rnd =
     (let r = rnd mod (26 * 2 + 10) in
      if r < 26 then char_of (of_char (CHR ''a'') + r)
      else if r < 26 * 2 then char_of (of_char (CHR ''A'') + r - 26)
      else char_of (of_char (CHR ''0'') + r - 26 * 2))"

text \<open>
  \<open>rand k\<close> is the \<open>k\<close>-th value of the \<open>rand()\<close> stream. One round of the
  \<open>do\<close> loop consumes six of them; the loop may run for ever, so it has fuel.
\<close>

fun temp_filename_loop ::
    "nat \<Rightarrow> (nat \<Rightarrow> nat) \<Rightarrow> (string \<Rightarrow> bool) \<Rightarrow> nat \<Rightarrow> string \<Rightarrow> string option" where
  "temp_filename_loop 0 rand exists k path = None"
| "temp_filename_loop (Suc fuel) rand exists k path =
     (let new_suffix = map (\<lambda>i. temp_char (rand (k + i))) [0..<6];
          path' = take (length path - length new_suffix) path @ new_suffix
      in if exists path' then temp_filename_loop fuel rand exists (k + 6) path'
         else Some path')"

definition TempFilename ::
    "nat \<Rightarrow> (nat \<Rightarrow> nat) \<Rightarrow> (string \<Rightarrow> bool) \<Rightarrow> string \<Rightarrow> string option" where
  "TempFilename fuel rand exists path = do {
     CHECK (StringHasSuffix path ''XXXXXX'');
     temp_filename_loop fuel rand exists 0 path }"

subsection \<open>HexDumpArray\<close>

definition hex_digit :: "nat \<Rightarrow> char" where
  "hex_digit n = (if n < 10 then char_of (48 + n) else char_of (87 + n))"

fun hex_fixed :: "nat \<Rightarrow> nat \<Rightarrow> string" where
  "hex_fixed 0 n = ''''"
| "hex_fixed (Suc k) n = hex_fixed k (n div 16) @ [hex_digit (n mod 16)]"

definition hex_dump_line :: "nat \<Rightarrow> byte list \<Rightarrow> string" where
  "hex_dump_line i bs =
     ''0x'' @ hex_fixed 8 i @ '' : '' @ concat (map (\<lambda>b. hex_fixed 2 (unat b) @ '' '') bs)"

text \<open>The lines \<open>HexDumpArray\<close> logs, 16 bytes each.\<close>

function hex_dump_from :: "nat \<Rightarrow> byte list \<Rightarrow> string list" where
  "hex_dump_from i arr =
     (if i < length arr
      then hex_dump_line i (take (min 16 (length arr - i)) (drop i arr)) # hex_dump_from (i + 16) arr
      else [])"
  by pat_completeness auto
termination
  by (relation "measure (\<lambda>(i, arr). length arr - i)") auto

declare hex_dump_from.simps [simp del]

definition HexDumpArray :: "byte list \<Rightarrow> string list" where
  "HexDumpArray arr = hex_dump_from 0 arr"

section \<open>Prefixes and suffixes\<close>

lemma StringHasPrefix_iff [str_simps]: "StringHasPrefix str pre \<longleftrightarrow> prefix pre str"
proof
  assume "StringHasPrefix str pre"
  then have "take (length pre) str = pre"
    by (simp add: StringHasPrefix_def split: if_splits)
  then show "prefix pre str" by (metis take_is_prefix)
next
  assume "prefix pre str"
  then show "StringHasPrefix str pre" by (auto simp: StringHasPrefix_def prefix_def)
qed

lemma StringHasSuffix_iff [str_simps]: "StringHasSuffix str suff \<longleftrightarrow> suffix suff str"
proof
  assume "StringHasSuffix str suff"
  then have "drop (length str - length suff) str = suff" "length suff \<le> length str"
    by (auto simp: StringHasSuffix_def split: if_splits)
  then show "suffix suff str" by (metis suffix_drop)
next
  assume "suffix suff str"
  then show "StringHasSuffix str suff" by (auto simp: StringHasSuffix_def suffix_def)
qed

lemma MapContainsKey_iff [simp]: "MapContainsKey m k \<longleftrightarrow> k \<in> dom m"
  by (auto simp: MapContainsKey_def split: option.splits)

lemma VectorContainsValue_iff [simp]: "VectorContainsValue vect v \<longleftrightarrow> v \<in> set vect"
  by (auto simp: VectorContainsValue_def find_None_iff)

section \<open>NormalizePath\<close>

text \<open>What a path names: its components between slashes, and whether it is absolute.\<close>

fun components :: "string \<Rightarrow> string \<Rightarrow> string list" where
  "components [] cur = (if cur = [] then [] else [cur])"
| "components (c # cs) cur =
     (if c = CHR ''/'' then (if cur = [] then components cs [] else cur # components cs [])
      else components cs (cur @ [c]))"

definition path_components :: "string \<Rightarrow> string list" where
  "path_components p = components p []"

fun no_double_slash :: "string \<Rightarrow> bool" where
  "no_double_slash (a # b # s) = (\<not> (a = CHR ''/'' \<and> b = CHR ''/'') \<and> no_double_slash (b # s))"
| "no_double_slash _ = True"

lemma no_double_slash_snoc:
  "no_double_slash (s @ [c]) \<longleftrightarrow>
     no_double_slash s \<and> \<not> (s \<noteq> [] \<and> last s = CHR ''/'' \<and> c = CHR ''/'')"
  by (induction s rule: no_double_slash.induct) auto

lemma no_double_slash_take: "no_double_slash s \<Longrightarrow> no_double_slash (take n s)"
proof (induction n arbitrary: s)
  case 0
  then show ?case by simp
next
  case (Suc n)
  show ?case
  proof (cases s rule: no_double_slash.cases)
    case (1 a b t)
    with Suc show ?thesis by (cases n) (auto dest: Suc.IH[of "b # t"])
  qed (use Suc.prems in auto)
qed

lemma components_slash_slash:
  "components (s @ CHR ''/'' # CHR ''/'' # t) cur = components (s @ CHR ''/'' # t) cur"
  by (induction s arbitrary: cur) auto

lemma components_snoc_slash: "components (s @ [CHR ''/'']) cur = components s cur"
  by (induction s arbitrary: cur) auto

text \<open>The loop's invariant ties the flag to the last character written.\<close>

definition normalize_inv :: "string \<Rightarrow> bool \<Rightarrow> bool" where
  "normalize_inv ret l \<longleftrightarrow>
     no_double_slash ret \<and> (l \<longleftrightarrow> ret \<noteq> [] \<and> last ret = CHR ''/'')"

lemma normalize_inv_Nil [simp]: "normalize_inv [] False"
  by (simp add: normalize_inv_def)

lemma normalize_inv_snoc_slash:
  "normalize_inv ret False \<Longrightarrow> normalize_inv (ret @ [CHR ''/'']) True"
  by (auto simp: normalize_inv_def no_double_slash_snoc)

lemma normalize_inv_snoc:
  "normalize_inv ret l \<Longrightarrow> c \<noteq> CHR ''/'' \<Longrightarrow> normalize_inv (ret @ [c]) False"
  by (auto simp: normalize_inv_def no_double_slash_snoc)

lemma normalize_loop_inv:
  "normalize_inv ret l \<Longrightarrow> normalize_loop cs ret l = (r, l') \<Longrightarrow> normalize_inv r l'"
  by (induction cs ret l rule: normalize_loop.induct)
     (auto simp: normalize_inv_snoc normalize_inv_snoc_slash split: if_splits)

lemma normalize_loop_length:
  "normalize_loop cs ret l = (r, l') \<Longrightarrow> length r \<le> length ret + length cs"
  by (induction cs ret l rule: normalize_loop.induct) (auto split: if_splits)

lemma normalize_loop_components:
  "normalize_inv ret l \<Longrightarrow>
     components (fst (normalize_loop cs ret l)) cur = components (ret @ cs) cur"
proof (induction cs arbitrary: ret l)
  case Nil
  then show ?case by simp
next
  case (Cons c cs)
  show ?case
  proof (cases "c = CHR ''/''")
    case False
    with Cons.IH[OF normalize_inv_snoc[OF Cons.prems False]] show ?thesis by simp
  next
    case slash: True
    show ?thesis
    proof (cases l)
      case False
      with Cons.prems have "normalize_inv (ret @ [CHR ''/'']) True"
        by (simp add: normalize_inv_snoc_slash)
      from Cons.IH[OF this] slash False show ?thesis by simp
    next
      case True
      then obtain s where s: "ret = s @ [CHR ''/'']"
        using Cons.prems by (metis append_butlast_last_id normalize_inv_def)
      have "components (ret @ c # cs) cur = components (ret @ cs) cur"
        by (simp add: s slash components_slash_slash)
      with Cons.IH[OF Cons.prems] slash True show ?thesis by simp
    qed
  qed
qed

lemma find_last_not_of_aux_all: "set s \<subseteq> {c} \<Longrightarrow> find_last_not_of_aux c s i f = f"
  by (induction s arbitrary: i f) auto

lemma find_last_not_of_aux_append:
  "find_last_not_of_aux c (s @ t) i f =
     find_last_not_of_aux c t (i + length s) (find_last_not_of_aux c s i f)"
  by (induction s arbitrary: i f) auto

lemma find_last_not_of_split:
  assumes "d \<noteq> c" "set t \<subseteq> {c}"
  shows "find_last_not_of (s @ d # t) c = length s"
  using assms by (simp add: find_last_not_of_def find_last_not_of_aux_append find_last_not_of_aux_all)

lemma find_last_not_of_none: "set s \<subseteq> {c} \<Longrightarrow> find_last_not_of s c = npos"
  by (simp add: find_last_not_of_def find_last_not_of_aux_all)

text \<open>A slash-terminated normalised path is \<open>"/"\<close> or ends in exactly one slash.\<close>

lemma trailing_slash_cases:
  assumes "no_double_slash r" "r \<noteq> []" "last r = CHR ''/''"
  obtains "r = ''/''" | s d where "r = s @ [d, CHR ''/'']" "d \<noteq> CHR ''/''"
proof (cases "butlast r" rule: rev_cases)
  case Nil
  with assms have "r = ''/''" by (metis append_Nil append_butlast_last_id)
  then show ?thesis by (rule that(1))
next
  case (snoc s d)
  with assms have r: "r = s @ [d, CHR ''/'']"
    by (metis append.assoc append_Cons append_Nil append_butlast_last_id)
  have "no_double_slash ((s @ [d]) @ [CHR ''/''])" using assms(1) r by simp
  then have "d \<noteq> CHR ''/''" unfolding no_double_slash_snoc by auto
  with r show ?thesis by (rule that(2))
qed

lemma NormalizePath_strip_eq:
  assumes loop: "normalize_loop path [] False = (r, l)" and small: "length path < npos"
  shows "NormalizePath path True = (if l then butlast r else r)"
proof (cases l)
  case False
  with loop show ?thesis by (simp add: NormalizePath_def)
next
  case True
  have inv: "no_double_slash r" "r \<noteq> []" "last r = CHR ''/''"
    using normalize_loop_inv[OF normalize_inv_Nil loop] True by (auto simp: normalize_inv_def)
  have len: "length r < npos" using normalize_loop_length[OF loop] small by simp
  from inv show ?thesis
  proof (cases rule: trailing_slash_cases)
    case 1
    with loop True show ?thesis by (simp add: NormalizePath_def find_last_not_of_none)
  next
    case (2 s d)
    with len have "find_last_not_of r (CHR ''/'') = length s" "length s \<noteq> npos"
      by (auto simp: find_last_not_of_split)
    with loop True 2 show ?thesis by (simp add: NormalizePath_def butlast_append)
  qed
qed

text \<open>
  \<open>NormalizePath\<close> keeps the components a path names, never leaves two slashes
  in a row, and with \<open>strip_trailing_slash\<close> leaves no slash at the end. Paths are
  shorter than \<open>npos\<close>, as every \<open>std::string\<close> is.
\<close>

theorem NormalizePath_correct:
  assumes "length path < npos"
  shows "path_components (NormalizePath path strip) = path_components path
    \<and> no_double_slash (NormalizePath path strip)
    \<and> (strip \<longrightarrow> \<not> suffix ''/'' (NormalizePath path strip))"
proof -
  obtain r l where loop: "normalize_loop path [] False = (r, l)" by fastforce
  have inv: "normalize_inv r l" by (rule normalize_loop_inv[OF normalize_inv_Nil loop])
  have comp: "path_components r = path_components path"
    using normalize_loop_components[OF normalize_inv_Nil, of path "[]"] loop
    by (simp add: path_components_def)
  show ?thesis
  proof (cases strip)
    case False
    with loop inv comp show ?thesis by (simp add: NormalizePath_def normalize_inv_def)
  next
    case True
    note eq = NormalizePath_strip_eq[OF loop assms]
    show ?thesis
    proof (cases l)
      case False
      with eq inv comp True show ?thesis
        by (auto simp: normalize_inv_def suffix_def)
    next
      case l: True
      with inv have r: "no_double_slash r" "r \<noteq> []" "last r = CHR ''/''"
        by (auto simp: normalize_inv_def)
      then obtain s where s: "r = s @ [CHR ''/'']" by (metis append_butlast_last_id)
      have "path_components s = path_components r"
        by (simp add: path_components_def s components_snoc_slash)
      moreover from r have "no_double_slash s \<and> \<not> suffix ''/'' s"
        by (auto simp: s no_double_slash_snoc suffix_def)
      ultimately show ?thesis using eq l comp True by (simp add: s)
    qed
  qed
qed

theorem NormalizePath_correct_witness:
  "length ''//usr///lib//'' < npos
   \<and> NormalizePath ''//usr///lib//'' True = ''/usr/lib''
   \<and> no_double_slash (NormalizePath ''//usr///lib//'' True)"
proof -
  have h: "length ''//usr///lib//'' < npos" by (simp add: npos_def size_bound_def)
  have v: "NormalizePath ''//usr///lib//'' True = ''/usr/lib''"
    by (simp add: NormalizePath_def find_last_not_of_def npos_def size_bound_def)
  show ?thesis using NormalizePath_correct[OF h, of True] h v by blast
qed

section \<open>BootDevice\<close>

lemma scan_device_eq: "scan_device s ret = ret @ takeWhile (\<lambda>c. c \<noteq> CHR '' '') s"
  by (induction s ret rule: scan_device.induct) auto

lemma BootDevice_root_first:
  assumes "CHR '' '' \<notin> set dev" and "rest = [] \<or> hd rest = CHR '' ''"
  shows "BootDevice (Some (''root='' @ dev @ rest)) = dev"
proof -
  have "StringHasPrefix (''root='' @ dev @ rest) ''root=''" by (simp add: StringHasPrefix_def)
  moreover have "takeWhile (\<lambda>c. c \<noteq> CHR '' '') (dev @ rest) = dev"
    using assms by (cases rest) (auto simp: takeWhile_append takeWhile_eq_all_conv)
  ultimately show ?thesis
    by (simp add: BootDevice_def boot_device_pos_def scan_device_eq npos_def size_bound_def)
qed

text \<open>
  when \<open>/proc/cmdline\<close> has a \<open>root=\<close> argument after the first one,
  \<open>BootDevice\<close> returns the text between that argument's \<open>=\<close> and the next space,
  for the first such argument.
\<close>

theorem BootDevice_root_arg:
  assumes no_prefix: "\<not> prefix ''root='' (pre @ '' root='' @ dev @ rest)"
    and first: "\<And>a b. pre @ '' root='' @ dev @ rest = a @ '' root='' @ b \<Longrightarrow> length pre \<le> length a"
    and dev: "CHR '' '' \<notin> set dev" and rest: "rest = [] \<or> hd rest = CHR '' ''"
    and small: "length (pre @ '' root='' @ dev @ rest) + 1 < npos"
  shows "BootDevice (Some (pre @ '' root='' @ dev @ rest)) = dev"
proof -
  let ?s = "pre @ '' root='' @ dev @ rest"
  have "sublist '' root='' ?s" by (metis sublist_appendI)
  with small obtain a b where ab: "?s = a @ '' root='' @ b" "str_find ?s '' root='' = length a"
    using str_search_not_npos[of "'' root=''" ?s 0] unfolding str_find_def by force
  have "length a \<le> length pre"
    using str_search_le_occurrence[of "'' root=''" pre "dev @ rest" 0] ab(2) by (simp add: str_find_def)
  with first[OF ab(1)] have len: "length a = length pre" by simp
  have "boot_device_pos ?s = length pre + 1"
    using no_prefix small ab(2) len npos_less_size_bound
    by (simp add: boot_device_pos_def StringHasPrefix_iff size_add_small)
  moreover have "drop (length pre + 1 + length ''root='') ?s = dev @ rest" by simp
  moreover have "takeWhile (\<lambda>c. c \<noteq> CHR '' '') (dev @ rest) = dev"
    using dev rest by (cases rest) (auto simp: takeWhile_append takeWhile_eq_all_conv)
  ultimately show ?thesis using small by (simp add: BootDevice_def scan_device_eq)
qed

theorem BootDevice_root_arg_witness:
  "BootDevice (Some ''ro root=/dev/sda3 quiet'') = ''/dev/sda3''"
proof -
  have "BootDevice (Some (''ro'' @ '' root='' @ ''/dev/sda3'' @ '' quiet'')) = ''/dev/sda3''"
  proof (rule BootDevice_root_arg)
    fix a b :: string
    assume eq: "''ro'' @ '' root='' @ ''/dev/sda3'' @ '' quiet'' = a @ '' root='' @ b"
    show "length ''ro'' \<le> length a"
    proof (cases a)
      case Nil
      with eq show ?thesis by simp
    next
      case (Cons c a')
      with eq show ?thesis by (cases a') auto
    qed
  qed (auto simp: npos_def size_bound_def)
  then show ?thesis by simp
qed

text \<open>
  without any \<open>root=\<close> argument \<open>BootDevice\<close> does not return the empty string
  its comment promises ("can't find root="): \<open>find\<close> returns \<open>npos\<close>, the addition
  of one wraps to zero before the comparison with \<open>npos\<close>, and the result is the text
  from the sixth character of the command line up to the next space.
\<close>

theorem BootDevice_no_root:
  assumes "\<not> prefix ''root='' s" and "\<not> sublist '' root='' s" and "length s < npos"
  shows "BootDevice (Some s) = takeWhile (\<lambda>c. c \<noteq> CHR '' '') (drop 5 s)"
proof -
  have "str_find s '' root='' = npos" using assms by (simp add: str_find_npos_iff)
  then have "boot_device_pos s = 0"
    using assms by (simp add: boot_device_pos_def StringHasPrefix_iff size_add_npos_1[simplified])
  then show ?thesis
    by (simp add: BootDevice_def scan_device_eq eval_nat_numeral)
qed

theorem BootDevice_no_root_witness:
  "BootDevice (Some ''console=tty1 quiet'') = ''le=tty1''"
proof -
  have p: "\<not> prefix ''root='' ''console=tty1 quiet''" by simp
  have s: "\<not> sublist '' root='' ''console=tty1 quiet''"
    by (simp add: sublist_Cons_right)
  have l: "length ''console=tty1 quiet'' < npos" by (simp add: npos_def size_bound_def)
  show ?thesis using BootDevice_no_root[OF p s l] by simp
qed

section \<open>TempFilename\<close>

definition alnum :: "char \<Rightarrow> bool" where
  "alnum c \<longleftrightarrow> (of_char c :: nat) \<in> {48..57} \<union> {65..90} \<union> {97..122}"

lemma temp_char_alnum: "alnum (temp_char r)"
  by (auto simp: temp_char_def alnum_def Let_def of_char_of)

lemma temp_filename_loop_spec:
  assumes "temp_filename_loop fuel rand exists k path = Some p" and "6 \<le> length path"
  shows "\<not> exists p \<and> length p = length path
    \<and> take (length path - 6) p = take (length path - 6) path
    \<and> (\<forall>c \<in> set (drop (length path - 6) p). alnum c)"
  using assms
proof (induction fuel arbitrary: k path)
  case 0
  then show ?case by simp
next
  case (Suc fuel)
  let ?p = "take (length path - 6) path @ map (\<lambda>i. temp_char (rand (k + i))) [0..<6]"
  have len: "length ?p = length path" using Suc.prems(2) by simp
  show ?case
  proof (cases "exists ?p")
    case True
    with Suc.prems have "temp_filename_loop fuel rand exists (k + 6) ?p = Some p"
      by (simp add: Let_def)
    from Suc.IH[OF this] Suc.prems(2) show ?thesis by (simp add: len)
  next
    case False
    with Suc.prems have "p = ?p" by (simp add: Let_def)
    with False len show ?thesis by (auto simp: temp_char_alnum)
  qed
qed

text \<open>
  \<open>TempFilename\<close> returns a path that does not exist, of the length of its
  argument, that differs from it in the six \<open>X\<close> characters only, each replaced by a
  letter or a digit.
\<close>

theorem TempFilename_fresh:
  assumes "TempFilename fuel rand exists path = Some p"
  shows "\<not> exists p \<and> length p = length path
    \<and> take (length path - 6) p = take (length path - 6) path
    \<and> (\<forall>c \<in> set (drop (length path - 6) p). alnum c)"
proof -
  from assms have suf: "suffix ''XXXXXX'' path"
    and loop: "temp_filename_loop fuel rand exists 0 path = Some p"
    by (auto simp: TempFilename_def StringHasSuffix_iff split: if_splits)
  from suf have "6 \<le> length path" using suffix_length_le by fastforce
  with loop show ?thesis by (rule temp_filename_loop_spec)
qed

theorem TempFilename_fresh_witness:
  "TempFilename 2 (\<lambda>k. k) (\<lambda>p. p = ''/tmp/abcdef'') ''/tmp/XXXXXX'' = Some ''/tmp/ghijkl''
   \<and> \<not> (\<lambda>p. p = ''/tmp/abcdef'') ''/tmp/ghijkl''"
proof -
  have v: "TempFilename 2 (\<lambda>k. k) (\<lambda>p. p = ''/tmp/abcdef'') ''/tmp/XXXXXX'' = Some ''/tmp/ghijkl''"
    by code_simp
  from TempFilename_fresh[OF v] v show ?thesis by blast
qed

text \<open>The loop stops as soon as one of the suffixes it draws is free.\<close>

lemma temp_filename_loop_returns:
  assumes "\<not> exists (take (length path - 6) path @ map (\<lambda>i. temp_char (rand (k + 6 * n + i))) [0..<6])"
    and "6 \<le> length path" and "n < fuel"
  shows "\<exists>p. temp_filename_loop fuel rand exists k path = Some p"
  using assms
proof (induction n arbitrary: k path fuel)
  case 0
  then obtain f where "fuel = Suc f" by (cases fuel) auto
  with 0 show ?case by (simp add: Let_def)
next
  case (Suc n)
  then obtain f where f: "fuel = Suc f" "n < f" by (cases fuel) auto
  let ?p = "take (length path - 6) path @ map (\<lambda>i. temp_char (rand (k + i))) [0..<6]"
  show ?case
  proof (cases "exists ?p")
    case False
    with f show ?thesis by (simp add: Let_def)
  next
    case True
    have "\<exists>p. temp_filename_loop f rand exists (k + 6) ?p = Some p"
    proof (rule Suc.IH)
      show "\<not> exists (take (length ?p - 6) ?p @ map (\<lambda>i. temp_char (rand (k + 6 + 6 * n + i))) [0..<6])"
        using Suc.prems(1,2) by (simp add: algebra_simps)
    qed (use Suc.prems f in auto)
    with True f show ?thesis by (simp add: Let_def)
  qed
qed

section \<open>HexDumpArray\<close>

lemma length_hex_fixed [simp]: "length (hex_fixed k n) = k"
  by (induction k n rule: hex_fixed.induct) auto

lemma hex_dump_line_length: "length (hex_dump_line i bs) = 13 + 3 * length bs"
  by (induction bs) (auto simp: hex_dump_line_def)

lemma hex_dump_from_count:
  "length (hex_dump_from i arr) = (length arr - i + 15) div 16"
proof (induction i arr rule: hex_dump_from.induct)
  case (1 i arr)
  show ?case
  proof (cases "i < length arr")
    case True
    with 1 have "length (hex_dump_from i arr) = Suc ((length arr - (i + 16) + 15) div 16)"
      by (simp add: hex_dump_from.simps[of i arr])
    also have "\<dots> = (length arr - i + 15) div 16"
      using True by (cases "length arr - i \<le> 16") auto
    finally show ?thesis .
  next
    case False
    then show ?thesis by (simp add: hex_dump_from.simps[of i arr])
  qed
qed

end
