(* ===== verification/UE_Writers.thy ===== *)
theory UE_Writers
  imports Prelude
begin

text \<open>
  The writers of the update engine: \<open>DirectFileWriter\<close> (\<open>file_writer.cc\<close>), \<open>WriteAll\<close>
  and \<open>DirectExtentWriter\<close> (\<open>extent_writer.cc\<close>), \<open>ZeroPadExtentWriter\<close>
  (\<open>extent_writer.h\<close>), the extents a file's blocks form (\<open>extent_mapper.cc\<close>,
  \<open>graph_utils.cc\<close>).

  The system calls are a parameter, a record of functions over the state \<open>'w\<close> of the
  operating system. A call that fails returns a negative number, the negated
  \<open>errno\<close>. Loops on \<open>write\<close> may run for ever when it keeps returning zero, so they
  have fuel; a \<^term>\<open>None\<close> is an abort or the end of the fuel.
\<close>

record 'w posix =
  sys_open :: "string \<Rightarrow> nat \<Rightarrow> nat \<Rightarrow> 'w \<Rightarrow> int \<times> 'w"
  sys_write :: "int \<Rightarrow> byte list \<Rightarrow> 'w \<Rightarrow> int \<times> 'w"
  sys_read :: "int \<Rightarrow> nat \<Rightarrow> 'w \<Rightarrow> (int \<times> byte list) \<times> 'w"
  sys_lseek :: "int \<Rightarrow> int \<Rightarrow> 'w \<Rightarrow> int \<times> 'w"
  sys_close :: "int \<Rightarrow> 'w \<Rightarrow> int \<times> 'w"

text \<open>The conversion of a 32-bit \<open>size_t\<close> to \<open>int\<close> or \<open>ssize_t\<close>.\<close>

definition int_of_size :: "nat \<Rightarrow> int" where
  "int_of_size n = sint (of_nat n :: 32 word)"

lemma int_of_size_small: "n < 2 ^ 31 \<Longrightarrow> int_of_size n = int n"
  by (simp add: int_of_size_def signed_of_nat signed_take_bit_int_eq_self)

section \<open>DirectFileWriter\<close>

record file_writer =
  fd :: int

definition new_DirectFileWriter :: file_writer where
  "new_DirectFileWriter = \<lparr>fd = -1\<rparr>"

definition DFW_Open ::
    "'w posix \<Rightarrow> string \<Rightarrow> nat \<Rightarrow> nat \<Rightarrow> file_writer \<Rightarrow> 'w \<Rightarrow> (int \<times> file_writer \<times> 'w) option" where
  "DFW_Open P path flags mode f w = do {
     CHECK (fd f = -1);
     let (r, w) = sys_open P path flags mode w;
     if r < 0 then Some (r, f\<lparr>fd := -1\<rparr>, w) else Some (0, f\<lparr>fd := r\<rparr>, w) }"

fun dfw_write_loop ::
    "nat \<Rightarrow> 'w posix \<Rightarrow> int \<Rightarrow> byte list \<Rightarrow> nat \<Rightarrow> 'w \<Rightarrow> (int \<times> 'w) option" where
  "dfw_write_loop 0 P d bytes bytes_written w = None"
| "dfw_write_loop (Suc n) P d bytes bytes_written w =
     (if bytes_written < length bytes then
        (let (rc, w) = sys_write P d (drop bytes_written bytes) w in
         if rc < 0 then Some (rc, w)
         else dfw_write_loop n P d bytes (bytes_written + nat rc) w)
      else do {
        CHECK (bytes_written = length bytes);
        Some (int_of_size bytes_written, w) })"

definition DFW_Write ::
    "nat \<Rightarrow> 'w posix \<Rightarrow> byte list \<Rightarrow> file_writer \<Rightarrow> 'w \<Rightarrow> (int \<times> 'w) option" where
  "DFW_Write n P bytes f w = do {
     CHECK (fd f \<ge> 0);
     dfw_write_loop n P (fd f) bytes 0 w }"

definition DFW_Close :: "'w posix \<Rightarrow> file_writer \<Rightarrow> 'w \<Rightarrow> (int \<times> file_writer \<times> 'w) option" where
  "DFW_Close P f w = do {
     CHECK (fd f \<ge> 0);
     let (rc, w) = sys_close P (fd f) w;
     Some (rc, f\<lparr>fd := -2\<rparr>, w) }"

section \<open>Extents\<close>

record extent =
  start_block :: "64 word"
  num_blocks :: "64 word"

definition kSparseHole :: "64 word" where
  "kSparseHole = - 1"

subsection \<open>WriteAll and DirectExtentWriter\<close>

fun write_all_loop ::
    "nat \<Rightarrow> 'w posix \<Rightarrow> int \<Rightarrow> byte list \<Rightarrow> nat \<Rightarrow> 'w \<Rightarrow> (bool \<times> 'w) option" where
  "write_all_loop 0 P d buf bytes_written w = None"
| "write_all_loop (Suc n) P d buf bytes_written w =
     (if int bytes_written < int_of_size (length buf) then
        (let (rc, w) = sys_write P d (drop bytes_written buf) w in
         if rc < 0 then Some (False, w)
         else write_all_loop n P d buf (bytes_written + nat rc) w)
      else Some (True, w))"

definition WriteAll :: "nat \<Rightarrow> 'w posix \<Rightarrow> int \<Rightarrow> byte list \<Rightarrow> 'w \<Rightarrow> (bool \<times> 'w) option" where
  "WriteAll n P d buf w = write_all_loop n P d buf 0 w"

record extent_writer =
  efd :: int
  block_size :: nat
  extent_bytes_written :: "64 word"
  extents :: "extent list"
  next_extent_index :: nat
  end_called :: bool

definition new_DirectExtentWriter :: extent_writer where
  "new_DirectExtentWriter =
     \<lparr>efd = -1, block_size = 0, extent_bytes_written = 0, extents = [], next_extent_index = 0,
      end_called = False\<rparr>"

definition DEW_Init :: "int \<Rightarrow> extent list \<Rightarrow> nat \<Rightarrow> extent_writer \<Rightarrow> bool \<times> extent_writer" where
  "DEW_Init d es bs s = (True, s\<lparr>efd := d, block_size := bs, extents := es\<rparr>)"

text \<open>
  One round of the loop of \<open>Write\<close> stores a piece of the buffer in the current extent
  (\<open>dew_put\<close>, the seek and \<open>WriteAll\<close>, skipped for a hole) and moves on
  (\<open>dew_advance\<close>, to the next extent when this one is full).
\<close>

definition dew_put ::
    "nat \<Rightarrow> 'w posix \<Rightarrow> extent_writer \<Rightarrow> extent \<Rightarrow> byte list \<Rightarrow> 'w \<Rightarrow> (bool \<times> 'w) option" where
  "dew_put n P s e piece w =
     (if start_block e \<noteq> kSparseHole then
        (let offset = sint (start_block e * of_nat (block_size s) + extent_bytes_written s);
             (r, w) = sys_lseek P (efd s) offset w
         in if r < 0 then Some (False, w) else WriteAll n P (efd s) piece w)
      else Some (True, w))"

definition dew_advance :: "extent \<Rightarrow> 64 word \<Rightarrow> nat \<Rightarrow> extent_writer \<Rightarrow> extent_writer option" where
  "dew_advance e bytes_remaining_next_extent bytes_to_write s =
     (let s = s\<lparr>extent_bytes_written := extent_bytes_written s + of_nat bytes_to_write\<rparr> in
      if bytes_remaining_next_extent = of_nat bytes_to_write then do {
        CHECK (extent_bytes_written s = num_blocks e * of_nat (block_size s));
        Some (s\<lparr>extent_bytes_written := 0, next_extent_index := next_extent_index s + 1\<rparr>) }
      else Some s)"

function dew_write_loop ::
    "nat \<Rightarrow> 'w posix \<Rightarrow> byte list \<Rightarrow> extent_writer \<times> 'w \<Rightarrow> (bool \<times> extent_writer \<times> 'w) option" where
  "dew_write_loop n P bytes (s, w) =
     (if bytes = [] then Some (True, s, w)
      else if \<not> next_extent_index s < length (extents s) then Some (False, s, w)
      else
        (let e = extents s ! next_extent_index s;
             bytes_remaining_next_extent =
               num_blocks e * of_nat (block_size s) - extent_bytes_written s;
             bytes_to_write = unat (min (of_nat (length bytes)) bytes_remaining_next_extent)
         in do {
           CHECK (bytes_remaining_next_extent \<noteq> 0);
           if \<not> bytes_to_write > 0 then Some (False, s, w)
           else do {
             (ok, w) \<leftarrow> dew_put n P s e (take bytes_to_write bytes) w;
             if \<not> ok then Some (False, s, w)
             else do {
               s \<leftarrow> dew_advance e bytes_remaining_next_extent bytes_to_write s;
               dew_write_loop n P (drop bytes_to_write bytes) (s, w) } } }))"
  by pat_completeness auto
termination
  by (relation "measure (\<lambda>(n, P, bytes, s). length bytes)") auto

declare dew_write_loop.simps [simp del]

definition DEW_Write ::
    "nat \<Rightarrow> 'w posix \<Rightarrow> byte list \<Rightarrow> extent_writer \<times> 'w \<Rightarrow> (bool \<times> extent_writer \<times> 'w) option" where
  "DEW_Write n P bytes sw =
     (if length bytes = 0 then Some (True, sw) else dew_write_loop n P bytes sw)"

definition DEW_End :: "extent_writer \<times> 'w \<Rightarrow> (bool \<times> extent_writer \<times> 'w) option" where
  "DEW_End sw = (case sw of (s, w) \<Rightarrow> Some (True, s\<lparr>end_called := True\<rparr>, w))"

subsection \<open>ZeroPadExtentWriter\<close>

text \<open>
  The writer delegates to an underlying \<open>ExtentWriter\<close>, whose operations are the
  arguments \<open>u_init\<close>, \<open>u_write\<close> and \<open>u_end\<close> over its state \<open>'s\<close>.
\<close>

record zero_pad_writer =
  zp_block_size :: nat
  bytes_written_mod_block_size :: nat

definition new_ZeroPadExtentWriter :: zero_pad_writer where
  "new_ZeroPadExtentWriter = \<lparr>zp_block_size = 0, bytes_written_mod_block_size = 0\<rparr>"

definition ZP_Init ::
    "(int \<Rightarrow> extent list \<Rightarrow> nat \<Rightarrow> 's \<Rightarrow> bool \<times> 's) \<Rightarrow> int \<Rightarrow> extent list \<Rightarrow> nat \<Rightarrow>
     zero_pad_writer \<times> 's \<Rightarrow> bool \<times> zero_pad_writer \<times> 's" where
  "ZP_Init u_init d es bs zs =
     (case zs of (z, s) \<Rightarrow>
       (let z = z\<lparr>zp_block_size := bs\<rparr>; (ok, s) = u_init d es bs s in (ok, z, s)))"

definition ZP_Write ::
    "(byte list \<Rightarrow> 's \<Rightarrow> (bool \<times> 's) option) \<Rightarrow> byte list \<Rightarrow>
     zero_pad_writer \<times> 's \<Rightarrow> (bool \<times> zero_pad_writer \<times> 's) option" where
  "ZP_Write u_write bytes zs =
     (case zs of (z, s) \<Rightarrow> do {
        (ok, s) \<leftarrow> u_write bytes s;
        if ok then
          Some (True,
            z\<lparr>bytes_written_mod_block_size :=
                (bytes_written_mod_block_size z + length bytes) mod zp_block_size z\<rparr>, s)
        else Some (False, z, s) })"

definition ZP_End ::
    "(byte list \<Rightarrow> 's \<Rightarrow> (bool \<times> 's) option) \<Rightarrow> ('s \<Rightarrow> (bool \<times> 's) option) \<Rightarrow>
     zero_pad_writer \<times> 's \<Rightarrow> (bool \<times> zero_pad_writer \<times> 's) option" where
  "ZP_End u_write u_end zs =
     (case zs of (z, s) \<Rightarrow> do {
        (ok, s) \<leftarrow>
          (if bytes_written_mod_block_size z \<noteq> 0 then
             u_write (replicate (zp_block_size z - bytes_written_mod_block_size z) 0) s
           else Some (True, s));
        if \<not> ok then Some (False, z, s)
        else do { (ok, s) \<leftarrow> u_end s; Some (ok, z, s) } })"

subsection \<open>From blocks to extents\<close>

definition AppendBlockToExtents :: "extent list \<Rightarrow> 64 word \<Rightarrow> extent list" where
  "AppendBlockToExtents es block =
     (if es \<noteq> [] \<and> start_block (last es) + num_blocks (last es) = block
      then butlast es @ [(last es)\<lparr>num_blocks := num_blocks (last es) + 1\<rparr>]
      else es @ [\<lparr>start_block = block, num_blocks = 1\<rparr>])"

text \<open>
  \<open>ExtentsForFileFibmap\<close>: \<open>stat_reg\<close> is the result of \<open>stat\<close> (\<^term>\<open>None\<close> when it
  fails, else whether the file is regular), \<open>opened\<close> whether \<open>open\<close> succeeds,
  \<open>fstat_size\<close> the size \<open>fstat\<close> reports, and \<open>fibmap i\<close> the block the
  \<open>FIBMAP\<close> request reports for block \<open>i\<close> of the file, \<^term>\<open>None\<close> when the request
  fails. The block count is an \<open>int\<close>. The result is the success flag and the vector
  \<open>out\<close>.
\<close>

definition kBlockSize :: nat where "kBlockSize = 4096"

fun fibmap_loop ::
    "(nat \<Rightarrow> 32 word option) \<Rightarrow> nat list \<Rightarrow> extent \<Rightarrow> extent list \<Rightarrow> bool \<times> extent list" where
  "fibmap_loop fibmap [] current out =
     (True, if num_blocks current > 0 then out @ [current] else out)"
| "fibmap_loop fibmap (i # is) current out =
     (case fibmap i of
        None \<Rightarrow> (False, out)
      | Some blk \<Rightarrow>
          (let block = ucast blk :: 64 word in
           if num_blocks current = 0 then
             fibmap_loop fibmap is (current\<lparr>start_block := block, num_blocks := 1\<rparr>) out
           else if start_block current + num_blocks current = block then
             fibmap_loop fibmap is (current\<lparr>num_blocks := num_blocks current + 1\<rparr>) out
           else
             fibmap_loop fibmap is (current\<lparr>start_block := block, num_blocks := 1\<rparr>) (out @ [current])))"

definition ExtentsForFileFibmap ::
    "bool option \<Rightarrow> bool \<Rightarrow> nat option \<Rightarrow> (nat \<Rightarrow> 32 word option) \<Rightarrow>
     extent list \<Rightarrow> bool \<times> extent list" where
  "ExtentsForFileFibmap stat_reg opened fstat_size fibmap out =
     (case stat_reg of
        None \<Rightarrow> (False, out)
      | Some is_reg \<Rightarrow>
          if \<not> is_reg then (False, out)
          else if \<not> opened then (False, out)
          else (case fstat_size of
                  None \<Rightarrow> (False, out)
                | Some st_size \<Rightarrow>
                    (let block_count = int_of_size ((st_size + kBlockSize - 1) div kBlockSize) in
                     fibmap_loop fibmap [0 ..< nat block_count]
                       \<lparr>start_block = 0, num_blocks = 0\<rparr> out)))"

section \<open>Documented behaviour of the system calls\<close>

text \<open>
  \<open>stream_ok P d data\<close>: \<open>write\<close> on descriptor \<open>d\<close> takes at most what it is given,
  appends what it took to the file's data, and never takes nothing of a non-empty buffer.
\<close>

definition stream_ok :: "'w posix \<Rightarrow> int \<Rightarrow> ('w \<Rightarrow> byte list) \<Rightarrow> bool" where
  "stream_ok P d data \<longleftrightarrow>
     (\<forall>bs w r w'. sys_write P d bs w = (r, w') \<longrightarrow>
        r \<le> int (length bs) \<and> (bs \<noteq> [] \<longrightarrow> r \<noteq> 0)
        \<and> (r \<ge> 0 \<longrightarrow> data w' = data w @ take (nat r) bs)
        \<and> (r < 0 \<longrightarrow> data w' = data w))"

lemma stream_okD:
  assumes "stream_ok P d data" "sys_write P d bs w = (r, w')"
  shows "r \<le> int (length bs)" "bs \<noteq> [] \<Longrightarrow> r \<noteq> 0"
    "r \<ge> 0 \<Longrightarrow> data w' = data w @ take (nat r) bs" "r < 0 \<Longrightarrow> data w' = data w"
  using assms by (auto simp: stream_ok_def)

lemma dfw_write_loop_spec:
  assumes ok: "stream_ok P d data" and fuel: "length bytes - k < n" and k: "k \<le> length bytes"
    and small: "length bytes < 2 ^ 31"
  shows "\<exists>r w'. dfw_write_loop n P d bytes k w = Some (r, w')
    \<and> (r \<ge> 0 \<longrightarrow> r = int (length bytes) \<and> data w' = data w @ drop k bytes)
    \<and> (r < 0 \<longrightarrow> (\<exists>pre. prefix pre (drop k bytes) \<and> data w' = data w @ pre))"
  using fuel k
proof (induction n arbitrary: k w)
  case 0
  then show ?case by simp
next
  case (Suc n)
  show ?case
  proof (cases "k < length bytes")
    case False
    with Suc.prems small show ?thesis by (simp add: int_of_size_small)
  next
    case True
    obtain rc v where wr: "sys_write P d (drop k bytes) w = (rc, v)" by fastforce
    note sys = stream_okD[OF ok wr]
    show ?thesis
    proof (cases "rc < 0")
      case neg: True
      with True wr sys(4) show ?thesis by auto
    next
      case False
      with sys True have rc: "0 < rc" "nat rc \<le> length bytes - k" by auto
      then obtain r w' where IH: "dfw_write_loop n P d bytes (k + nat rc) v = Some (r, w')"
        "r \<ge> 0 \<longrightarrow> r = int (length bytes) \<and> data w' = data v @ drop (k + nat rc) bytes"
        "r < 0 \<longrightarrow> (\<exists>pre. prefix pre (drop (k + nat rc) bytes) \<and> data w' = data v @ pre)"
        using Suc.IH[of "k + nat rc" v] Suc.prems True by force
      have split: "take (nat rc) (drop k bytes) @ drop (k + nat rc) bytes = drop k bytes"
        by (metis add.commute append_take_drop_id drop_drop)
      have dv: "data v = data w @ take (nat rc) (drop k bytes)" using sys(3) False by simp
      have "r < 0 \<Longrightarrow> \<exists>pre. prefix pre (drop k bytes) \<and> data w' = data w @ pre"
        using IH(3) dv split by (metis append.assoc same_prefix_prefix)
      with IH(1,2) dv split True False wr show ?thesis by (auto simp flip: append.assoc)
    qed
  qed
qed

text \<open>
  \<open>DirectFileWriter::Write\<close> on an open file, with a system that takes at
  least one byte per call or fails, returns after at most one call per byte. It returns
  the number of bytes it was given and has appended exactly these bytes, however the
  system splits them, or it returns a negative error and has appended a prefix of them.
\<close>

theorem DirectFileWriter_Write_all:
  assumes "stream_ok P (fd f) data" and "0 \<le> fd f" and "length bytes < n" and "length bytes < 2 ^ 31"
  shows "\<exists>r w'. DFW_Write n P bytes f w = Some (r, w')
    \<and> (r \<ge> 0 \<longrightarrow> r = int (length bytes) \<and> data w' = data w @ bytes)
    \<and> (r < 0 \<longrightarrow> (\<exists>pre. prefix pre bytes \<and> data w' = data w @ pre))"
  using dfw_write_loop_spec[OF assms(1), of bytes 0 n w] assms(2-4) by (simp add: DFW_Write_def)

text \<open>A concrete system for witnesses: one file, which takes two bytes per call.\<close>

definition two_byte_system :: "byte list posix" where
  "two_byte_system = \<lparr>sys_open = (\<lambda>_ _ _ w. (3, w)),
     sys_write = (\<lambda>d bs w. (int (length (take 2 bs)), w @ take 2 bs)),
     sys_read = (\<lambda>_ _ w. ((0, []), w)), sys_lseek = (\<lambda>_ off w. (off, w)),
     sys_close = (\<lambda>_ w. (0, w))\<rparr>"

lemma two_byte_system_ok: "stream_ok two_byte_system d (\<lambda>w. w)"
  by (auto simp: stream_ok_def two_byte_system_def min_def)

theorem DirectFileWriter_Write_all_witness:
  "DFW_Write 6 two_byte_system [1, 2, 3, 4, 5] \<lparr>fd = 3\<rparr> [9] = Some (5, [9, 1, 2, 3, 4, 5])"
proof -
  have "\<exists>r w'. DFW_Write 6 two_byte_system [1, 2, 3, 4, 5] \<lparr>fd = 3\<rparr> [9] = Some (r, w')
    \<and> (r \<ge> 0 \<longrightarrow> r = int (length [1, 2, 3, 4, 5 :: byte]) \<and> w' = [9] @ [1, 2, 3, 4, 5])
    \<and> (r < 0 \<longrightarrow> (\<exists>pre. prefix pre [1, 2, 3, 4, 5] \<and> w' = [9] @ pre))"
    by (rule DirectFileWriter_Write_all[OF two_byte_system_ok]) auto
  moreover have "map_option fst (DFW_Write 6 two_byte_system [1, 2, 3, 4, 5] \<lparr>fd = 3\<rparr> [9]) = Some 5"
    by code_simp
  ultimately show ?thesis by auto
qed

end
