(* ===== verification/UE_Processor.thy ===== *)
theory UE_Processor
  imports Prelude
begin

text \<open>
  \<open>ActionProcessor\<close> (\<open>update_engine/action_processor.cc\<close>), the ownership part of
  \<open>AbstractAction\<close> and the \<open>ActionPipe\<close> between two actions (\<open>action.h\<close>,
  \<open>action_pipe.h\<close>).

  Actions, processors and pipes are objects with an identity, a number. The state holds
  the processor's own fields and, for every action, the weak pointer \<open>processor_\<close>.
  Calls the processor makes on an action or on its delegate are the events of
  \<open>trace\<close>, oldest first. \<open>PerformAction\<close> and \<open>ProcessingDone\<close> are the last
  calls of the functions that make them, so what they do to the processor in turn is a
  further step.
\<close>

type_synonym aid = nat
type_synonym pid = nat

datatype pevent =
    PerformAction aid
  | TerminateProcessing aid
  | ActionCompleted aid bool
  | ProcessingDone bool
  | ProcessingStopped

record processor =
  self :: pid
  actions :: "aid list"
  current_action :: "aid option"
  delegate :: bool
  processor_of :: "aid \<Rightarrow> pid option"
  trace :: "pevent list"

definition emit :: "pevent \<Rightarrow> processor \<Rightarrow> processor" where
  "emit e p = p\<lparr>trace := trace p @ [e]\<rparr>"

definition new_processor :: "pid \<Rightarrow> (aid \<Rightarrow> pid option) \<Rightarrow> processor" where
  "new_processor i owner =
     \<lparr>self = i, actions = [], current_action = None, delegate = False,
      processor_of = owner, trace = []\<rparr>"

definition set_delegate :: "bool \<Rightarrow> processor \<Rightarrow> processor" where
  "set_delegate d p = p\<lparr>delegate := d\<rparr>"

definition IsRunning :: "processor \<Rightarrow> bool" where
  "IsRunning p = (current_action p \<noteq> None)"

definition SetProcessor :: "pid option \<Rightarrow> aid \<Rightarrow> processor \<Rightarrow> processor option" where
  "SetProcessor q a p = do {
     (if q \<noteq> None then CHECK (processor_of p a = None) else CHECK (processor_of p a \<noteq> None));
     Some (p\<lparr>processor_of := (processor_of p)(a := q)\<rparr>) }"

definition ActionIsRunning :: "aid \<Rightarrow> processor \<Rightarrow> bool" where
  "ActionIsRunning a p =
     (if processor_of p a \<noteq> Some (self p) then False else current_action p = Some a)"

definition EnqueueAction :: "aid \<Rightarrow> processor \<Rightarrow> processor option" where
  "EnqueueAction a p = SetProcessor (Some (self p)) a (p\<lparr>actions := actions p @ [a]\<rparr>)"

definition StartProcessing :: "processor \<Rightarrow> processor option" where
  "StartProcessing p = do {
     CHECK (\<not> IsRunning p);
     Some (case actions p of
             [] \<Rightarrow> p
           | a # as \<Rightarrow> emit (PerformAction a) (p\<lparr>current_action := Some a, actions := as\<rparr>)) }"

definition StopProcessing :: "processor \<Rightarrow> processor option" where
  "StopProcessing p =
     (case current_action p of
        None \<Rightarrow> None
      | Some a \<Rightarrow> do {
          q \<leftarrow> SetProcessor None a (emit (TerminateProcessing a) p);
          let q = q\<lparr>current_action := None\<rparr>;
          Some (if delegate q then emit ProcessingStopped q else q) })"

definition ActionComplete :: "aid \<Rightarrow> bool \<Rightarrow> processor \<Rightarrow> processor option" where
  "ActionComplete actionptr success p = do {
     CHECK (Some actionptr = current_action p);
     let p = (if delegate p then emit (ActionCompleted actionptr success) p else p);
     p \<leftarrow> SetProcessor None actionptr p;
     let p = p\<lparr>current_action := None\<rparr>;
     let p = (if actions p = [] then p else if \<not> success then p\<lparr>actions := []\<rparr> else p);
     case actions p of
       [] \<Rightarrow> Some (if delegate p then emit (ProcessingDone success) p else p)
     | a # as \<Rightarrow> Some (emit (PerformAction a) (p\<lparr>current_action := Some a, actions := as\<rparr>)) }"

fun release_all :: "aid list \<Rightarrow> processor \<Rightarrow> processor option" where
  "release_all [] p = Some p"
| "release_all (a # as) p = SetProcessor None a p \<bind> release_all as"

definition destroy_processor :: "processor \<Rightarrow> processor option" where
  "destroy_processor p = do {
     p \<leftarrow> (if IsRunning p then StopProcessing p else Some p);
     release_all (actions p) p }"

section \<open>Invariant\<close>

text \<open>
  The processor's own actions: the running one first. They are distinct, and each of
  them points back to this processor.
\<close>

definition pending :: "processor \<Rightarrow> aid list" where
  "pending p = (case current_action p of None \<Rightarrow> [] | Some a \<Rightarrow> [a]) @ actions p"

definition processor_inv :: "processor \<Rightarrow> bool" where
  "processor_inv p \<longleftrightarrow>
     distinct (pending p) \<and> (\<forall>a \<in> set (pending p). processor_of p a = Some (self p))"

inductive pstep :: "processor \<Rightarrow> processor \<Rightarrow> bool" where
  enqueue: "EnqueueAction a p = Some q \<Longrightarrow> pstep p q"
| start: "StartProcessing p = Some q \<Longrightarrow> pstep p q"
| stop: "StopProcessing p = Some q \<Longrightarrow> pstep p q"
| complete: "ActionComplete a success p = Some q \<Longrightarrow> pstep p q"
| delegate: "pstep p (set_delegate d p)"

lemmas processor_defs = emit_def SetProcessor_def EnqueueAction_def StartProcessing_def
  StopProcessing_def ActionComplete_def set_delegate_def IsRunning_def pending_def Let_def

lemma processor_inv_enqueue:
  "processor_inv p \<Longrightarrow> EnqueueAction a p = Some q \<Longrightarrow> processor_inv q"
  by (auto simp: processor_inv_def processor_defs split: if_splits option.splits)

lemma processor_inv_start:
  "processor_inv p \<Longrightarrow> StartProcessing p = Some q \<Longrightarrow> processor_inv q"
  by (auto simp: processor_inv_def processor_defs split: if_splits option.splits list.splits)

lemma processor_inv_stop:
  "processor_inv p \<Longrightarrow> StopProcessing p = Some q \<Longrightarrow> processor_inv q"
  by (auto simp: processor_inv_def processor_defs split: if_splits option.splits)

lemma processor_inv_complete:
  "processor_inv p \<Longrightarrow> ActionComplete a s p = Some q \<Longrightarrow> processor_inv q"
  by (auto simp: processor_inv_def processor_defs split: if_splits option.splits list.splits)

lemma pstep_inv: "pstep p q \<Longrightarrow> processor_inv p \<Longrightarrow> processor_inv q"
proof (induction rule: pstep.induct)
  case (delegate p d)
  then show ?case by (simp add: processor_inv_def processor_defs)
qed (auto intro: processor_inv_enqueue processor_inv_start processor_inv_stop processor_inv_complete)

interpretation processor: invariant_system
  "\<lambda>p. \<exists>i owner. p = new_processor i owner" pstep processor_inv
proof unfold_locales
  show "processor_inv s" if "\<exists>i owner. s = new_processor i owner" for s
    using that by (auto simp: new_processor_def processor_inv_def pending_def)
  show "processor_inv t" if "processor_inv s" "pstep s t" for s t
    using that(2,1) by (rule pstep_inv)
qed

text \<open>
  C12: in every state an \<open>ActionProcessor\<close> reaches from its constructor by
  \<open>EnqueueAction\<close>, \<open>StartProcessing\<close>, \<open>StopProcessing\<close> and
  \<open>ActionComplete\<close>, no action is queued twice, the running action is not queued, and
  every running or queued action points back to the processor.
\<close>

theorem processor_reachable_inv:
  assumes "reachable (\<lambda>p. \<exists>i owner. p = new_processor i owner) pstep p"
  shows "distinct (pending p) \<and> (\<forall>a \<in> set (pending p). processor_of p a = Some (self p))"
  using processor.reachable_inv[OF assms] by (simp add: processor_inv_def)

definition demo_processor :: processor where
  "demo_processor = \<lparr>self = 7, actions = [2], current_action = Some 1, delegate = False,
     processor_of = (\<lambda>_. None)(1 := Some 7, 2 := Some 7), trace = [PerformAction 1]\<rparr>"

theorem processor_reachable_inv_witness:
  "pending demo_processor = [1, 2]
   \<and> map (processor_of demo_processor) (pending demo_processor) = [Some 7, Some 7]"
proof -
  let ?init = "\<lambda>p. \<exists>i owner. p = new_processor i owner"
  let ?p0 = "new_processor 7 (\<lambda>_. None)"
  let ?p1 = "?p0\<lparr>actions := [1], processor_of := (\<lambda>_. None)(1 := Some 7)\<rparr>"
  let ?p2 = "?p1\<lparr>actions := [1, 2], processor_of := (\<lambda>_. None)(1 := Some 7, 2 := Some 7)\<rparr>"
  have r0: "reachable ?init pstep ?p0" by (rule reach_init) blast
  have r1: "reachable ?init pstep ?p1"
    by (rule reach_step[OF r0], rule pstep.enqueue[of 1])
       (simp add: processor_defs new_processor_def)
  have r2: "reachable ?init pstep ?p2"
    by (rule reach_step[OF r1], rule pstep.enqueue[of 2])
       (simp add: processor_defs new_processor_def)
  have "reachable ?init pstep demo_processor"
    by (rule reach_step[OF r2], rule pstep.start)
       (simp add: processor_defs new_processor_def demo_processor_def)
  from processor_reachable_inv[OF this] show ?thesis
    by (simp add: demo_processor_def pending_def)
qed

section \<open>A complete run\<close>

text \<open>
  \<open>drive ok n p\<close> lets the running action complete with the result \<open>ok\<close> gives it,
  \<open>n\<close> times at most. \<open>run_trace\<close> is what a processor with a delegate should do with a
  queue: perform the actions in order up to the first that fails, and report the end
  once.
\<close>

fun drive :: "(aid \<Rightarrow> bool) \<Rightarrow> nat \<Rightarrow> processor \<Rightarrow> processor option" where
  "drive ok 0 p = Some p"
| "drive ok (Suc n) p =
     (case current_action p of None \<Rightarrow> Some p
      | Some a \<Rightarrow> ActionComplete a (ok a) p \<bind> drive ok n)"

fun enqueue_all :: "aid list \<Rightarrow> processor \<Rightarrow> processor option" where
  "enqueue_all [] p = Some p"
| "enqueue_all (a # as) p = EnqueueAction a p \<bind> enqueue_all as"

fun run_trace :: "(aid \<Rightarrow> bool) \<Rightarrow> aid list \<Rightarrow> pevent list" where
  "run_trace ok [] = []"
| "run_trace ok [a] = [PerformAction a, ActionCompleted a (ok a), ProcessingDone (ok a)]"
| "run_trace ok (a # b # as) =
     PerformAction a # ActionCompleted a (ok a) #
     (if ok a then run_trace ok (b # as) else [ProcessingDone False])"


lemma enqueue_all_spec:
  assumes "\<forall>a \<in> set as. processor_of p a = None" "distinct as"
  shows "enqueue_all as p = Some (p\<lparr>actions := actions p @ as,
    processor_of := override_on (processor_of p) (\<lambda>_. Some (self p)) (set as)\<rparr>)"
  using assms
proof (induction as arbitrary: p)
  case Nil
  then show ?case by simp
next
  case (Cons a as)
  let ?p = "p\<lparr>actions := actions p @ [a], processor_of := (processor_of p)(a \<mapsto> self p)\<rparr>"
  from Cons.prems have "EnqueueAction a p = Some ?p" by (simp add: processor_defs)
  moreover have "enqueue_all as ?p = Some (?p\<lparr>actions := actions ?p @ as,
      processor_of := override_on (processor_of ?p) (\<lambda>_. Some (self ?p)) (set as)\<rparr>)"
    by (rule Cons.IH) (use Cons.prems in auto)
  ultimately show ?case by (simp add: override_on_insert')
qed

lemma ActionComplete_last:
  assumes "processor_inv p" "delegate p" "current_action p = Some a" "actions p = [] \<or> \<not> s"
  shows "\<exists>q. ActionComplete a s p = Some q \<and> current_action q = None \<and> actions q = []
    \<and> trace q = trace p @ [ActionCompleted a s, ProcessingDone s]"
  using assms by (auto simp: processor_inv_def processor_defs)

lemma ActionComplete_next:
  assumes "processor_inv p" "delegate p" "current_action p = Some a" "actions p = b # bs"
  shows "\<exists>q. ActionComplete a True p = Some q \<and> current_action q = Some b \<and> actions q = bs
    \<and> delegate q \<and> trace q = trace p @ [ActionCompleted a True, PerformAction b]"
  using assms by (auto simp: processor_inv_def processor_defs)

lemma drive_idle [simp]: "current_action p = None \<Longrightarrow> drive ok n p = Some p"
  by (cases n) auto

lemma run_trace_single: "bs = [] \<or> \<not> ok a \<Longrightarrow>
    run_trace ok (a # bs) = [PerformAction a, ActionCompleted a (ok a), ProcessingDone (ok a)]"
  by (cases bs) auto

lemma drive_running:
  assumes "processor_inv p" "delegate p" "current_action p = Some a" "length (actions p) < n"
    and "trace p = pre @ [PerformAction a]"
  shows "\<exists>q. drive ok n p = Some q \<and> current_action q = None \<and> actions q = []
    \<and> trace q = pre @ run_trace ok (a # actions p)"
  using assms
proof (induction n arbitrary: p a pre)
  case 0
  then show ?case by simp
next
  case (Suc n)
  show ?case
  proof (cases "actions p = [] \<or> \<not> ok a")
    case True
    from ActionComplete_last[OF Suc.prems(1-3) True] Suc.prems(3,5)
    show ?thesis using run_trace_single[of "actions p" ok a] True by auto
  next
    case False
    then obtain b bs where ab: "actions p = b # bs" and ok: "ok a" by (cases "actions p") auto
    from ActionComplete_next[OF Suc.prems(1-3) ab] obtain q where
      q: "ActionComplete a True p = Some q" "current_action q = Some b" "actions q = bs"
        "delegate q" "trace q = trace p @ [ActionCompleted a True, PerformAction b]" by blast
    have "\<exists>r. drive ok n q = Some r \<and> current_action r = None \<and> actions r = []
        \<and> trace r = (trace p @ [ActionCompleted a True]) @ run_trace ok (b # actions q)"
    proof (rule Suc.IH)
      show "processor_inv q" by (rule processor_inv_complete[OF Suc.prems(1) q(1)])
    qed (use q ab Suc.prems(4) in auto)
    with q ab ok Suc.prems(3,5) show ?thesis by auto
  qed
qed

text \<open>
  C3: a processor with a delegate that is given a queue of fresh actions performs
  them one at a time in the order they were enqueued, stops at the first that fails,
  reports every completed action and then \<open>ProcessingDone\<close> exactly once, with success
  iff no action failed, and ends idle with an empty queue.
\<close>

theorem processor_runs_queue:
  assumes "as \<noteq> []" "distinct as" "\<forall>a \<in> set as. owner a = None"
  shows "\<exists>q. (enqueue_all as (set_delegate True (new_processor i owner))
      \<bind> StartProcessing \<bind> drive ok (length as)) = Some q
    \<and> trace q = run_trace ok as \<and> current_action q = None \<and> actions q = []"
proof -
  let ?p = "set_delegate True (new_processor i owner)"
  from assms(1) obtain a bs where as: "as = a # bs" by (cases as) auto
  have "enqueue_all as ?p = Some (?p\<lparr>actions := as,
      processor_of := override_on owner (\<lambda>_. Some i) (set as)\<rparr>)" (is "_ = Some ?q")
    using enqueue_all_spec[of as ?p] assms
    by (simp add: new_processor_def set_delegate_def)
  moreover have "StartProcessing ?q = Some (emit (PerformAction a)
      (?q\<lparr>current_action := Some a, actions := bs\<rparr>))" (is "_ = Some ?r")
    by (simp add: StartProcessing_def IsRunning_def as set_delegate_def new_processor_def)
  moreover have "\<exists>q. drive ok (length as) ?r = Some q \<and> current_action q = None \<and> actions q = []
      \<and> trace q = [] @ run_trace ok (a # actions ?r)"
    by (rule drive_running)
       (use assms as in \<open>auto simp: processor_inv_def pending_def emit_def set_delegate_def new_processor_def\<close>)
  ultimately show ?thesis by (auto simp: as emit_def)
qed

theorem processor_runs_queue_witness:
  "\<exists>q. (enqueue_all [4, 5, 6] (set_delegate True (new_processor 0 (\<lambda>_. None)))
      \<bind> StartProcessing \<bind> drive (\<lambda>a. a \<noteq> 5) 3) = Some q
    \<and> trace q = [PerformAction 4, ActionCompleted 4 True, PerformAction 5,
                 ActionCompleted 5 False, ProcessingDone False]"
  using processor_runs_queue[of "[4, 5, 6]" "\<lambda>_. None" 0 "\<lambda>a. a \<noteq> 5"] by (auto simp: eval_nat_numeral)

text \<open>
  when an action fails, \<open>ActionComplete\<close> empties the queue without telling the
  dropped actions: each of them still points to the processor, and enqueueing one of them
  again, on this or on another processor, aborts in \<open>SetProcessor\<close>.
\<close>

theorem failed_run_leaks_ownership:
  assumes "processor_inv p" "ActionComplete a False p = Some q" "b \<in> set (actions p)"
  shows "b \<notin> set (pending q) \<and> processor_of q b = Some (self p) \<and> EnqueueAction b q = None
    \<and> (\<forall>r. processor_of r b = processor_of q b \<longrightarrow> EnqueueAction b r = None)"
proof -
  from assms(1,3) have "processor_of p b = Some (self p)" "current_action p \<noteq> Some b"
    by (auto simp: processor_inv_def pending_def split: option.splits)
  with assms(2,3) have "pending q = []" "processor_of q b = Some (self p)"
    by (auto simp: processor_defs split: if_splits list.splits)
  then show ?thesis by (simp add: EnqueueAction_def SetProcessor_def)
qed

theorem failed_run_leaks_ownership_witness:
  "\<exists>q. ActionComplete 1 False demo_processor = Some q \<and> processor_of q 2 = Some 7
     \<and> EnqueueAction 2 q = None"
proof -
  have inv: "processor_inv demo_processor"
    by (simp add: processor_inv_def pending_def demo_processor_def)
  obtain q where q: "ActionComplete 1 False demo_processor = Some q"
    by (simp add: demo_processor_def processor_defs)
  from failed_run_leaks_ownership[OF inv q, of 2] q show ?thesis
    by (simp add: demo_processor_def)
qed

section \<open>Stopping and destruction\<close>

lemma release_all_spec:
  assumes "\<forall>a \<in> set as. processor_of p a \<noteq> None" "distinct as"
  shows "release_all as p =
    Some (p\<lparr>processor_of := override_on (processor_of p) (\<lambda>_. None) (set as)\<rparr>)"
  using assms
proof (induction as arbitrary: p)
  case Nil
  then show ?case by simp
next
  case (Cons a as)
  let ?p = "p\<lparr>processor_of := (processor_of p)(a := None)\<rparr>"
  from Cons.prems have "SetProcessor None a p = Some ?p" by (simp add: SetProcessor_def)
  moreover have "release_all as ?p =
      Some (?p\<lparr>processor_of := override_on (processor_of ?p) (\<lambda>_. None) (set as)\<rparr>)"
    by (rule Cons.IH) (use Cons.prems in auto)
  ultimately show ?case by (simp add: override_on_insert')
qed

lemma stop_releases_current:
  assumes "processor_inv p" "current_action p = Some a"
  shows "\<exists>q. StopProcessing p = Some q \<and> current_action q = None \<and> actions q = actions p
    \<and> self q = self p \<and> processor_of q = (processor_of p)(a := None) \<and> processor_inv q"
proof -
  from assms obtain q where q: "StopProcessing p = Some q"
    by (auto simp: processor_inv_def processor_defs)
  with assms processor_inv_stop[OF assms(1) q] show ?thesis
    by (auto simp: processor_defs split: if_splits)
qed

text \<open>
  destroying a processor in a consistent state never aborts, and leaves no action it
  held, running or queued, pointing to it.
\<close>

theorem destroy_releases_all:
  assumes "processor_inv p"
  shows "\<exists>q. destroy_processor p = Some q \<and> (\<forall>a \<in> set (pending p). processor_of q a = None)"
proof -
  obtain r where r: "(if IsRunning p then StopProcessing p else Some p) = Some r"
    "actions r = actions p" "processor_inv r" "current_action r = None"
    "\<forall>a. current_action p = Some a \<longrightarrow> processor_of r a = None"
    using stop_releases_current[OF assms] assms
    by (cases "current_action p") (auto simp: IsRunning_def)
  from r(2-4) have "release_all (actions p) r =
      Some (r\<lparr>processor_of := override_on (processor_of r) (\<lambda>_. None) (set (actions p))\<rparr>)"
    by (intro release_all_spec) (auto simp: processor_inv_def pending_def)
  with r show ?thesis
    by (auto simp: destroy_processor_def pending_def override_on_def split: option.splits)
qed

theorem destroy_releases_all_witness:
  "\<exists>q. destroy_processor demo_processor = Some q \<and> processor_of q 1 = None \<and> processor_of q 2 = None"
proof -
  have "processor_inv demo_processor"
    by (simp add: processor_inv_def pending_def demo_processor_def)
  from destroy_releases_all[OF this] show ?thesis by (auto simp: pending_def demo_processor_def)
qed

end
