(* ===== verification/UE_Pipes.thy ===== *)
theory UE_Pipes
  imports UE_Processor
begin

text \<open>
  \<open>ActionPipe\<close> (\<open>update_engine/action_pipe.h\<close>) and the pipe operations of
  \<open>Action\<close> (\<open>update_engine/action.h\<close>), with the object types the update engine
  passes through pipes. Pipes live in a store: a pipe has an address, and two bonded actions
  share it, one as \<open>out_pipe_\<close> and the other as \<open>in_pipe_\<close>.
\<close>

section \<open>Objects passed between actions\<close>

record InstallPlan =
  is_full_update :: bool
  download_url :: string
  download_hash :: string
  install_path :: string

definition empty_InstallPlan :: InstallPlan where
  "empty_InstallPlan =
     \<lparr>is_full_update = False, download_url = '''', download_hash = '''', install_path = ''''\<rparr>"

definition InstallPlan_eq :: "InstallPlan \<Rightarrow> InstallPlan \<Rightarrow> bool" where
  "InstallPlan_eq a b \<longleftrightarrow>
     is_full_update a = is_full_update b \<and> download_url a = download_url b
     \<and> download_hash a = download_hash b \<and> install_path a = install_path b"

lemma InstallPlan_eq_iff: "InstallPlan_eq a b \<longleftrightarrow> a = b"
  by (auto simp: InstallPlan_eq_def intro: InstallPlan.equality)

section \<open>The store of pipes\<close>

record 'o pipes =
  contents :: "nat \<Rightarrow> 'o"
  next_pipe :: nat
  in_pipe :: "aid \<Rightarrow> nat option"
  out_pipe :: "aid \<Rightarrow> nat option"

definition no_pipes :: "'o \<Rightarrow> 'o pipes" where
  "no_pipes d = \<lparr>contents = (\<lambda>_. d), next_pipe = 0, in_pipe = (\<lambda>_. None), out_pipe = (\<lambda>_. None)\<rparr>"

definition set_in_pipe :: "aid \<Rightarrow> nat \<Rightarrow> 'o pipes \<Rightarrow> 'o pipes" where
  "set_in_pipe a q ps = ps\<lparr>in_pipe := (in_pipe ps)(a := Some q)\<rparr>"

definition set_out_pipe :: "aid \<Rightarrow> nat \<Rightarrow> 'o pipes \<Rightarrow> 'o pipes" where
  "set_out_pipe a q ps = ps\<lparr>out_pipe := (out_pipe ps)(a := Some q)\<rparr>"

text \<open>\<open>Bond\<close>: the new pipe holds a default-constructed object \<open>dflt\<close>.\<close>

definition Bond :: "'o \<Rightarrow> aid \<Rightarrow> aid \<Rightarrow> 'o pipes \<Rightarrow> 'o pipes" where
  "Bond dflt from to ps =
     (let q = next_pipe ps;
          ps = ps\<lparr>contents := (contents ps)(q := dflt), next_pipe := Suc q\<rparr>
      in set_in_pipe to q (set_out_pipe from q ps))"

definition HasInputObject :: "aid \<Rightarrow> 'o pipes \<Rightarrow> bool" where
  "HasInputObject a ps = (in_pipe ps a \<noteq> None)"

definition GetInputObject :: "aid \<Rightarrow> 'o pipes \<Rightarrow> 'o option" where
  "GetInputObject a ps = do {
     CHECK (HasInputObject a ps);
     q \<leftarrow> in_pipe ps a;
     Some (contents ps q) }"

definition HasOutputPipe :: "aid \<Rightarrow> 'o pipes \<Rightarrow> bool" where
  "HasOutputPipe a ps = (out_pipe ps a \<noteq> None)"

definition SetOutputObject :: "aid \<Rightarrow> 'o \<Rightarrow> 'o pipes \<Rightarrow> 'o pipes option" where
  "SetOutputObject a x ps = do {
     CHECK (HasOutputPipe a ps);
     q \<leftarrow> out_pipe ps a;
     Some (ps\<lparr>contents := (contents ps)(q := x)\<rparr>) }"

definition GetOutputObject :: "aid \<Rightarrow> 'o pipes \<Rightarrow> 'o option" where
  "GetOutputObject a ps = do {
     CHECK (HasOutputPipe a ps);
     q \<leftarrow> out_pipe ps a;
     Some (contents ps q) }"

lemmas pipe_defs = set_in_pipe_def set_out_pipe_def Bond_def HasInputObject_def GetInputObject_def
  HasOutputPipe_def SetOutputObject_def GetOutputObject_def Let_def

section \<open>Properties\<close>

text \<open>
  Every pipe an action holds was allocated, and no two actions write to, or read from, the
  same pipe.
\<close>

definition pipes_inv :: "'o pipes \<Rightarrow> bool" where
  "pipes_inv ps \<longleftrightarrow>
     (\<forall>a q. in_pipe ps a = Some q \<longrightarrow> q < next_pipe ps) \<and>
     (\<forall>a q. out_pipe ps a = Some q \<longrightarrow> q < next_pipe ps) \<and>
     (\<forall>a b q. in_pipe ps a = Some q \<and> in_pipe ps b = Some q \<longrightarrow> a = b) \<and>
     (\<forall>a b q. out_pipe ps a = Some q \<and> out_pipe ps b = Some q \<longrightarrow> a = b)"

lemma pipes_inv_empty: "pipes_inv (no_pipes d)"
  by (simp add: pipes_inv_def no_pipes_def)

lemma pipes_inv_Bond: "pipes_inv ps \<Longrightarrow> pipes_inv (Bond d a b ps)"
  unfolding pipes_inv_def pipe_defs by (auto simp: less_Suc_eq split: if_splits; blast)

lemma pipes_inv_Set: "pipes_inv ps \<Longrightarrow> SetOutputObject a x ps = Some qs \<Longrightarrow> pipes_inv qs"
  by (auto simp: pipes_inv_def pipe_defs bind_eq_Some_iff split: if_splits)

lemma Bond_default: "GetInputObject b (Bond d a b ps) = Some d"
  by (simp add: pipe_defs)

lemma Bond_has: "HasOutputPipe a (Bond d a b ps) \<and> HasInputObject b (Bond d a b ps)"
  by (simp add: pipe_defs)

lemma Bond_frame:
  "c \<noteq> b \<Longrightarrow> HasInputObject c (Bond d a b ps) = HasInputObject c ps"
  "c \<noteq> a \<Longrightarrow> HasOutputPipe c (Bond d a b ps) = HasOutputPipe c ps"
  by (simp_all add: pipe_defs)

lemma GetInputObject_Bond_other:
  assumes "pipes_inv ps" "c \<noteq> b"
  shows "GetInputObject c (Bond d a b ps) = GetInputObject c ps"
  using assms by (cases "in_pipe ps c") (auto simp: pipe_defs pipes_inv_def)

lemma bonded_Bond:
  "out_pipe (Bond d a b ps) a = Some (next_pipe ps) \<and> in_pipe (Bond d a b ps) b = Some (next_pipe ps)"
  by (simp add: pipe_defs)

text \<open>
  what an action puts into its output pipe is what the action bonded to it gets from
  its input pipe, and no other action's input changes; without an output pipe the call
  aborts.
\<close>

theorem pipe_delivers:
  assumes "pipes_inv ps" and "out_pipe ps a = Some q" and "in_pipe ps b = Some q"
  shows "\<exists>qs. SetOutputObject a x ps = Some qs \<and> GetInputObject b qs = Some x
    \<and> GetOutputObject a qs = Some x
    \<and> (\<forall>c. c \<noteq> b \<longrightarrow> GetInputObject c qs = GetInputObject c ps)
    \<and> (\<forall>c. out_pipe ps c = None \<longrightarrow> SetOutputObject c x ps = None)"
proof -
  let ?qs = "ps\<lparr>contents := (contents ps)(q := x)\<rparr>"
  have "SetOutputObject a x ps = Some ?qs" using assms by (simp add: pipe_defs)
  moreover have "GetInputObject c ?qs = GetInputObject c ps" if "c \<noteq> b" for c
    using assms that by (cases "in_pipe ps c") (auto simp: pipe_defs pipes_inv_def)
  moreover have "GetInputObject b ?qs = Some x" "GetOutputObject a ?qs = Some x"
    using assms by (simp_all add: pipe_defs)
  moreover have "SetOutputObject c x ps = None" if "out_pipe ps c = None" for c
    using that by (simp add: pipe_defs)
  ultimately show ?thesis by blast
qed

theorem pipe_delivers_witness:
  "\<exists>qs. SetOutputObject 1 (42::nat) (Bond 0 1 2 (no_pipes 0)) = Some qs
     \<and> GetInputObject 2 qs = Some 42"
proof -
  have "pipes_inv (Bond 0 1 2 (no_pipes (0::nat)))"
    by (intro pipes_inv_Bond pipes_inv_empty)
  from pipe_delivers[OF this, of 1 0 2 42] bonded_Bond[of 0 1 2 "no_pipes (0::nat)"] show ?thesis
    by (auto simp: no_pipes_def)
qed

end
