(* ===== verification/UE_Files.thy ===== *)
theory UE_Files
  imports UE_Strings UE_Writers UE_Pipes
begin

text \<open>
  The file system side of the update engine: the file helpers of \<open>utils.cc\<close>,
  \<open>FilesystemIterator\<close> (\<open>filesystem_iterator.cc\<close>), \<open>Subprocess\<close>
  (\<open>subprocess.cc\<close>) and \<open>FilesystemCopierAction\<close> (\<open>filesystem_copier_action.cc\<close>).

  The system calls are functions over the state \<open>'w\<close> of the operating system, a record
  that extends \<open>posix\<close>. A call that fails gives a negated \<open>errno\<close>, a negative number,
  or \<^term>\<open>Inl\<close> of one.
\<close>

datatype file_kind = S_REG | S_DIR | S_LNK | S_FIFO | S_CHR | S_BLK | S_SOCK | S_NONE

record stat_buf =
  st_kind :: file_kind
  st_mode :: nat
  st_dev :: nat
  st_ino :: nat
  st_nlink :: nat
  st_size :: int
  st_uid :: nat
  st_gid :: nat
  st_rdev :: nat

definition ENOENT :: int where "ENOENT = 2"

definition ENOTDIR :: int where "ENOTDIR = 20"

record 'w fs = "'w posix" +
  fs_lstat :: "string \<Rightarrow> 'w \<Rightarrow> int + stat_buf"
  fs_opendir :: "string \<Rightarrow> 'w \<Rightarrow> (int + nat) \<times> 'w"
  fs_readdir :: "nat \<Rightarrow> 'w \<Rightarrow> (int + string option) \<times> 'w"
  fs_closedir :: "nat \<Rightarrow> 'w \<Rightarrow> int \<times> 'w"
  fs_unlink :: "string \<Rightarrow> 'w \<Rightarrow> int \<times> 'w"
  fs_rmdir :: "string \<Rightarrow> 'w \<Rightarrow> int \<times> 'w"
  fs_mkdir :: "string \<Rightarrow> nat \<Rightarrow> 'w \<Rightarrow> int \<times> 'w"
  fs_link :: "string \<Rightarrow> string \<Rightarrow> 'w \<Rightarrow> int \<times> 'w"
  fs_readlink :: "string \<Rightarrow> nat \<Rightarrow> 'w \<Rightarrow> int + string"
  fs_symlink :: "string \<Rightarrow> string \<Rightarrow> 'w \<Rightarrow> int \<times> 'w"
  fs_mknod :: "string \<Rightarrow> nat \<Rightarrow> nat \<Rightarrow> 'w \<Rightarrow> int \<times> 'w"
  fs_chmod :: "string \<Rightarrow> nat \<Rightarrow> 'w \<Rightarrow> int \<times> 'w"
  fs_lchown :: "string \<Rightarrow> nat \<Rightarrow> nat \<Rightarrow> 'w \<Rightarrow> int \<times> 'w"
  fs_mount :: "string \<Rightarrow> string \<Rightarrow> 'w \<Rightarrow> int \<times> 'w"
  fs_umount :: "string \<Rightarrow> 'w \<Rightarrow> int \<times> 'w"
  fs_mkdtemp :: "string \<Rightarrow> 'w \<Rightarrow> string option \<times> 'w"
  fs_spawn_sync :: "string list \<Rightarrow> 'w \<Rightarrow> int option \<times> 'w"
  fs_fopen :: "string \<Rightarrow> 'w \<Rightarrow> nat option \<times> 'w"
  fs_fread :: "nat \<Rightarrow> nat \<Rightarrow> 'w \<Rightarrow> byte list \<times> 'w"
  fs_ferror :: "nat \<Rightarrow> 'w \<Rightarrow> bool"
  fs_fclose :: "nat \<Rightarrow> 'w \<Rightarrow> int \<times> 'w"

text \<open>A directory stream and a stdio stream are numbers.\<close>

section \<open>File helpers of utils.cc\<close>

definition posix_of :: "'w fs \<Rightarrow> 'w posix" where
  "posix_of F = posix.truncate F"

text \<open>\<open>O_WRONLY | O_CREAT | O_TRUNC\<close> and the mode 0666.\<close>

definition WriteFile :: "nat \<Rightarrow> 'w fs \<Rightarrow> string \<Rightarrow> byte list \<Rightarrow> 'w \<Rightarrow> (bool \<times> 'w) option" where
  "WriteFile n F path data w = do {
     (rc, f, w) \<leftarrow> DFW_Open (posix_of F) path 577 438 new_DirectFileWriter w;
     if rc \<noteq> 0 then Some (False, w)
     else do {
       (r, w) \<leftarrow> DFW_Write n (posix_of F) data f w;
       (_, f, w) \<leftarrow> DFW_Close (posix_of F) f w;
       Some (int_of_size (length data) = r, w) } }"

fun read_file_loop :: "nat \<Rightarrow> 'w fs \<Rightarrow> nat \<Rightarrow> byte list \<Rightarrow> 'w \<Rightarrow> (byte list \<times> 'w) option" where
  "read_file_loop 0 F fp out w = None"
| "read_file_loop (Suc n) F fp out w =
     (case fs_fread F fp 1024 w of (buf, w) \<Rightarrow>
        if length buf = 0 then Some (out, w)
        else if length buf = 1024 then read_file_loop n F fp (out @ buf) w
        else Some (out @ buf, w))"

definition ReadFile :: "nat \<Rightarrow> 'w fs \<Rightarrow> string \<Rightarrow> byte list \<Rightarrow> 'w \<Rightarrow> (bool \<times> byte list \<times> 'w) option" where
  "ReadFile n F path out w =
     (case fs_fopen F path w of
        (None, w) \<Rightarrow> Some (False, out, w)
      | (Some fp, w) \<Rightarrow> do {
          (out, w) \<leftarrow> read_file_loop n F fp out w;
          let success = \<not> fs_ferror F fp w;
          let (rc, w) = fs_fclose F fp w;
          if rc \<noteq> 0 then Some (False, out, w) else Some (success, out, w) })"

text \<open>A \<open>std::string\<close> of the bytes of a file.\<close>

definition string_of_bytes :: "byte list \<Rightarrow> string" where
  "string_of_bytes bs = map (\<lambda>b. char_of (unat b)) bs"

definition bytes_of_string :: "string \<Rightarrow> byte list" where
  "bytes_of_string s = map (\<lambda>c. of_nat (of_char c)) s"

text \<open>\<^term>\<open>None\<close> of the inner option: the call returns false and leaves \<open>out\<close> alone.\<close>

definition ReadFileToString :: "nat \<Rightarrow> 'w fs \<Rightarrow> string \<Rightarrow> 'w \<Rightarrow> (string option \<times> 'w) option" where
  "ReadFileToString n F path w = do {
     (success, data, w) \<leftarrow> ReadFile n F path [] w;
     Some (if success then Some (string_of_bytes data) else None, w) }"

definition FileExists :: "'w fs \<Rightarrow> string \<Rightarrow> 'w \<Rightarrow> bool" where
  "FileExists F path w = (\<not> isl (fs_lstat F path w))"

definition MountFilesystem :: "'w fs \<Rightarrow> string \<Rightarrow> string \<Rightarrow> 'w \<Rightarrow> bool \<times> 'w" where
  "MountFilesystem F device mountpoint w =
     (case fs_mount F device mountpoint w of (rc, w) \<Rightarrow> (\<not> rc < 0, w))"

definition UnmountFilesystem :: "'w fs \<Rightarrow> string \<Rightarrow> 'w \<Rightarrow> bool \<times> 'w" where
  "UnmountFilesystem F mountpoint w = (case fs_umount F mountpoint w of (rc, w) \<Rightarrow> (rc = 0, w))"

text \<open>
  \<open>RecursiveUnlinkDir\<close>; the fuel bounds the depth of the recursion and the number of
  entries read.
\<close>

fun RecursiveUnlinkDir :: "nat \<Rightarrow> 'w fs \<Rightarrow> string \<Rightarrow> 'w \<Rightarrow> (bool \<times> 'w) option"
  and unlink_children :: "nat \<Rightarrow> 'w fs \<Rightarrow> string \<Rightarrow> nat \<Rightarrow> 'w \<Rightarrow> (bool \<times> 'w) option" where
  "RecursiveUnlinkDir 0 F path w = None"
| "RecursiveUnlinkDir (Suc n) F path w =
     (case fs_lstat F path w of
        Inl e \<Rightarrow> Some (e = - ENOENT, w)
      | Inr st \<Rightarrow>
          if st_kind st \<noteq> S_DIR then
            (case fs_unlink F path w of (r, w) \<Rightarrow> Some (r = 0 \<or> r = - ENOENT, w))
          else
            (case fs_opendir F path w of
               (Inl e, w) \<Rightarrow> Some (False, w)
             | (Inr dir, w) \<Rightarrow> do {
                 (ok, w) \<leftarrow> unlink_children n F path dir w;
                 let (_, w) = fs_closedir F dir w;
                 if \<not> ok then Some (False, w)
                 else (case fs_rmdir F path w of (r, w) \<Rightarrow> Some (r = 0 \<or> r = - ENOENT, w)) }))"
| "unlink_children 0 F path dir w = None"
| "unlink_children (Suc n) F path dir w =
     (case fs_readdir F dir w of
        (Inl e, w) \<Rightarrow> Some (False, w)
      | (Inr None, w) \<Rightarrow> Some (True, w)
      | (Inr (Some name), w) \<Rightarrow>
          if name = ''.'' \<or> name = ''..'' then unlink_children n F path dir w
          else do {
            (ok, w) \<leftarrow> RecursiveUnlinkDir n F (path @ ''/'' @ name) w;
            if \<not> ok then Some (False, w) else unlink_children n F path dir w })"

section \<open>FilesystemIterator\<close>

record fs_iter =
  fi_dirs :: "nat list"
  fi_names :: "string list"
  fi_root_dev :: nat
  fi_root_path :: string
  fi_excl_prefixes :: "string list"
  fi_stbuf :: stat_buf
  fi_is_end :: bool
  fi_is_err :: bool

text \<open>\<open>stbuf\<close> and \<open>root_dev\<close> are not initialised when the first \<open>lstat\<close> fails: \<open>junk\<close>.\<close>

definition new_FilesystemIterator ::
    "'w fs \<Rightarrow> stat_buf \<Rightarrow> string \<Rightarrow> string list \<Rightarrow> 'w \<Rightarrow> fs_iter" where
  "new_FilesystemIterator F junk path excl w =
     (let it = \<lparr>fi_dirs = [], fi_names = [], fi_root_dev = st_dev junk, fi_root_path = NormalizePath path True,
                fi_excl_prefixes = excl, fi_stbuf = junk, fi_is_end = False, fi_is_err = False\<rparr> in
      case fs_lstat F (fi_root_path it) w of
        Inl e \<Rightarrow> it\<lparr>fi_is_end := True, fi_is_err := True\<rparr>
      | Inr st \<Rightarrow> it\<lparr>fi_stbuf := st, fi_root_dev := st_dev st\<rparr>)"

definition GetPartialPath :: "fs_iter \<Rightarrow> string" where
  "GetPartialPath it = concat (map (\<lambda>name. ''/'' @ name) (fi_names it))"

definition GetFullPath :: "fs_iter \<Rightarrow> string" where
  "GetFullPath it = fi_root_path it @ GetPartialPath it"

text \<open>\<open>names_.back()\<close>, undefined on the root.\<close>

definition GetBasename :: "fs_iter \<Rightarrow> string option" where
  "GetBasename it = (if fi_names it = [] then None else Some (last (fi_names it)))"

definition fi_error :: "fs_iter \<Rightarrow> fs_iter" where
  "fi_error it = it\<lparr>fi_is_end := True, fi_is_err := True\<rparr>"

fun increment_loop :: "nat \<Rightarrow> 'w fs \<Rightarrow> fs_iter \<times> 'w \<Rightarrow> (fs_iter \<times> 'w) option" where
  "increment_loop 0 F itw = None"
| "increment_loop (Suc n) F (it, w) =
     (case fs_readdir F (last (fi_dirs it)) w of
        (Inl e, w) \<Rightarrow> Some (fi_error it, w)
      | (Inr (Some name), w) \<Rightarrow>
          (let it = it\<lparr>fi_names := fi_names it @ [name]\<rparr> in
           case fs_lstat F (GetFullPath it) w of
             Inl e \<Rightarrow> Some (fi_error it, w)
           | Inr st \<Rightarrow>
               (let it = it\<lparr>fi_stbuf := st\<rparr> in
                if name \<noteq> ''.'' \<and> name \<noteq> ''..'' then Some (it, w)
                else increment_loop n F (it\<lparr>fi_names := butlast (fi_names it)\<rparr>, w)))
      | (Inr None, w) \<Rightarrow>
          (case fs_closedir F (last (fi_dirs it)) w of (r, w) \<Rightarrow>
             if r \<noteq> 0 then Some (fi_error it, w)
             else
               (let it = it\<lparr>fi_dirs := butlast (fi_dirs it)\<rparr> in
                if fi_dirs it = [] then do {
                  CHECK (fi_names it = []);
                  Some (it\<lparr>fi_is_end := True\<rparr>, w) }
                else do {
                  CHECK (fi_names it \<noteq> []);
                  increment_loop n F (it\<lparr>fi_names := butlast (fi_names it)\<rparr>, w) })))"

definition IncrementInternal :: "nat \<Rightarrow> 'w fs \<Rightarrow> fs_iter \<times> 'w \<Rightarrow> (fs_iter \<times> 'w) option" where
  "IncrementInternal n F itw = do {
     CHECK (length (fi_dirs (fst itw)) = length (fi_names (fst itw)) + 1);
     increment_loop n F itw }"

text \<open>
  The first half of \<open>Increment\<close>: the directory to descend into, if any. \<^term>\<open>Inl\<close> is the
  early return with an error, \<^term>\<open>Inr b\<close> the value of \<open>entering_dir\<close>.
\<close>

definition enter_dir :: "'w fs \<Rightarrow> fs_iter \<times> 'w \<Rightarrow> (unit + bool) \<times> fs_iter \<times> 'w" where
  "enter_dir F itw =
     (case itw of (it, w) \<Rightarrow>
       if st_kind (fi_stbuf it) = S_DIR \<and> st_dev (fi_stbuf it) = fi_root_dev it then
         (case fs_opendir F (GetFullPath it) w of
            (Inr dir, w) \<Rightarrow> (Inr True, it\<lparr>fi_dirs := fi_dirs it @ [dir]\<rparr>, w)
          | (Inl e, w) \<Rightarrow>
              if e = - ENOTDIR \<or> e = - ENOENT then (Inr False, it, w) else (Inl (), fi_error it, w))
       else (Inr False, it, w))"

fun Increment :: "nat \<Rightarrow> 'w fs \<Rightarrow> fs_iter \<times> 'w \<Rightarrow> (fs_iter \<times> 'w) option" where
  "Increment 0 F itw = None"
| "Increment (Suc n) F itw =
     (case enter_dir F itw of
        (Inl _, it, w) \<Rightarrow> Some (it, w)
      | (Inr entering_dir, it, w) \<Rightarrow>
          if \<not> entering_dir \<and> fi_names it = [] then Some (it\<lparr>fi_is_end := True\<rparr>, w)
          else do {
            (it, w) \<leftarrow> IncrementInternal n F
              (if \<not> entering_dir then it\<lparr>fi_names := butlast (fi_names it)\<rparr> else it, w);
            if \<exists>p \<in> set (fi_excl_prefixes it). StringHasPrefix (GetPartialPath it) p
            then Increment n F (it, w)
            else Some (it, w) })"

section \<open>Subprocess\<close>

text \<open>
  \<open>callback_records\<close> is the list of pairs of the \<open>std::map\<close>; a callback is \<open>'cb\<close>, and
  \<^term>\<open>None\<close> the null pointer. \<open>spawn\<close> is \<open>g_spawn_async\<close> followed by
  \<open>g_child_watch_add\<close>: the tag of the watch, or \<^term>\<open>None\<close> when the spawn fails.
\<close>

type_synonym ('cb, 'p) callback_records = "(nat \<times> 'cb option \<times> 'p) list"

definition sp_put :: "nat \<Rightarrow> 'r \<Rightarrow> (nat \<times> 'r) list \<Rightarrow> (nat \<times> 'r) list" where
  "sp_put t r rs = (t, r) # filter (\<lambda>p. fst p \<noteq> t) rs"

definition Exec ::
    "(string list \<Rightarrow> 'w \<Rightarrow> nat option \<times> 'w) \<Rightarrow> string list \<Rightarrow> 'cb option \<Rightarrow> 'p \<Rightarrow>
     ('cb, 'p) callback_records \<times> 'w \<Rightarrow> nat \<times> ('cb, 'p) callback_records \<times> 'w" where
  "Exec spawn cmd callback p rw =
     (case rw of (rs, w) \<Rightarrow>
       (case spawn cmd w of
          (None, w) \<Rightarrow> (0, rs, w)
        | (Some tag, w) \<Rightarrow> (tag, sp_put tag (callback, p) rs, w)))"

text \<open>\<open>callback_records_[tag]\<close> makes an empty record, with data \<open>null\<close>, for a tag it does not have.\<close>

definition CancelExec :: "'p \<Rightarrow> nat \<Rightarrow> ('cb, 'p) callback_records \<Rightarrow> ('cb, 'p) callback_records" where
  "CancelExec null tag rs =
     (case map_of rs tag of
        None \<Rightarrow> sp_put tag (None, null) rs
      | Some (_, p) \<Rightarrow> sp_put tag (None, p) rs)"

text \<open>The callback the exit of a child makes, if any.\<close>

definition GChildExitedCallback ::
    "nat \<Rightarrow> int \<Rightarrow> ('cb, 'p) callback_records \<Rightarrow> ('cb \<times> int \<times> 'p) option \<times> ('cb, 'p) callback_records" where
  "GChildExitedCallback tag status rs =
     (case map_of rs tag of
        Some (Some cb, p) \<Rightarrow> Some (cb, status, p)
      | _ \<Rightarrow> None,
      filter (\<lambda>r. fst r \<noteq> tag) rs)"

definition SubprocessInFlight :: "('cb, 'p) callback_records \<Rightarrow> bool" where
  "SubprocessInFlight rs = list_ex (\<lambda>r. fst (snd r) \<noteq> None) rs"

text \<open>
  The result and the value of \<open>*return_code\<close>, which keeps its old value \<open>rc\<close> when the
  command cannot be run.
\<close>

definition SynchronousExec :: "'w fs \<Rightarrow> string list \<Rightarrow> int \<Rightarrow> 'w \<Rightarrow> bool \<times> int \<times> 'w" where
  "SynchronousExec F cmd rc w =
     (case fs_spawn_sync F cmd w of
        (None, w) \<Rightarrow> (False, rc, w)
      | (Some rc, w) \<Rightarrow> (True, rc, w))"

section \<open>FilesystemCopierAction\<close>

definition kMountpointTemplate :: string where
  "kMountpointTemplate = ''/tmp/au_dest_mnt.XXXXXX''"

definition kCopyFileBufferSize :: int where
  "kCopyFileBufferSize = 4 * 1024 * 1024"

definition kCopyExclusionPrefix :: string where
  "kCopyExclusionPrefix = ''/lost+found''"

definition kCompleteFilesystemMarker :: string where
  "kCompleteFilesystemMarker = ''/update_engine_copy_success''"

text \<open>
  \<open>fc_thread\<close> says whether the helper thread was started; \<open>thread_should_exit\<close> is only
  ever read.
\<close>

record copier =
  fc_should_exit :: bool
  fc_is_mounted :: bool
  fc_dest_path :: string
  fc_copy_source :: string
  fc_install_plan :: InstallPlan
  fc_skipped_copy :: bool
  fc_thread :: bool

definition new_FilesystemCopierAction :: copier where
  "new_FilesystemCopierAction =
     \<lparr>fc_should_exit = False, fc_is_mounted = False, fc_dest_path = [], fc_copy_source = ''/'',
      fc_install_plan = empty_InstallPlan, fc_skipped_copy = False, fc_thread = False\<rparr>"

definition set_copy_source :: "string \<Rightarrow> copier \<Rightarrow> copier" where
  "set_copy_source path c = c\<lparr>fc_copy_source := path\<rparr>"

definition fc_Mount :: "'w fs \<Rightarrow> string \<Rightarrow> string \<Rightarrow> copier \<times> 'w \<Rightarrow> (bool \<times> copier \<times> 'w) option" where
  "fc_Mount F device mountpoint cw =
     (case cw of (c, w) \<Rightarrow> do {
        CHECK (\<not> fc_is_mounted c);
        let (ok, w) = MountFilesystem F device mountpoint w;
        let c = (if ok then c\<lparr>fc_is_mounted := True\<rparr> else c);
        Some (fc_is_mounted c, c, w) })"

definition fc_Unmount :: "'w fs \<Rightarrow> string \<Rightarrow> copier \<times> 'w \<Rightarrow> (bool \<times> copier \<times> 'w) option" where
  "fc_Unmount F mountpoint cw =
     (case cw of (c, w) \<Rightarrow> do {
        CHECK (fc_is_mounted c);
        let (ok, w) = UnmountFilesystem F mountpoint w;
        let c = (if ok then c\<lparr>fc_is_mounted := False\<rparr> else c);
        Some (\<not> fc_is_mounted c, c, w) })"

text \<open>
  A handler of an action gets the object in its input pipe (\<^term>\<open>None\<close>: no input pipe) and
  whether there is an output pipe. It gives the value of the call
  \<open>ActionComplete(this, success)\<close> it makes last, if it makes one, and the object it puts
  into its output pipe, if any.
\<close>

type_synonym 'o action_result = "bool option \<times> 'o option"

definition fc_PerformAction ::
    "'w fs \<Rightarrow> InstallPlan option \<Rightarrow> bool \<Rightarrow> copier \<times> 'w \<Rightarrow> (InstallPlan action_result \<times> copier \<times> 'w) option" where
  "fc_PerformAction F inp has_out cw =
     (case cw of (c, w) \<Rightarrow>
       (case inp of
          None \<Rightarrow> Some ((Some False, None), c, w)
        | Some plan \<Rightarrow>
            (let c = c\<lparr>fc_install_plan := plan\<rparr> in
             if is_full_update plan then Some ((Some True, None), c, w)
             else do {
               let (dest, w) = fs_mkdtemp F kMountpointTemplate w;
               dest_path \<leftarrow> dest;
               CHECK (dest_path \<noteq> []);
               let c = c\<lparr>fc_dest_path := dest_path\<rparr>;
               (mounted, c, w) \<leftarrow> fc_Mount F (install_path plan) dest_path (c, w);
               if mounted then do {
                 let done_early = FileExists F (dest_path @ kCompleteFilesystemMarker) w;
                 let c = (if done_early then c\<lparr>fc_skipped_copy := True\<rparr> else c);
                 let out = (if done_early \<and> has_out then Some plan else None);
                 (unmounted, c, w) \<leftarrow> fc_Unmount F dest_path (c, w);
                 if \<not> unmounted then Some ((Some False, out), c, w)
                 else if done_early then do {
                   CHECK (\<not> fc_is_mounted c);
                   let (_, w) = fs_rmdir F dest_path w;
                   Some ((Some True, out), c, w) }
                 else Some ((None, out), c\<lparr>fc_thread := True\<rparr>, w) }
               else Some ((None, None), c\<lparr>fc_thread := True\<rparr>, w) })))"

subsection \<open>Copying one file\<close>

definition CreateDirSynchronously :: "'w fs \<Rightarrow> string \<Rightarrow> stat_buf \<Rightarrow> 'w \<Rightarrow> bool \<times> 'w" where
  "CreateDirSynchronously F new_path st w = (case fs_mkdir F new_path (st_mode st) w of (r, w) \<Rightarrow> (r = 0, w))"

definition CreateHardLinkSynchronously :: "'w fs \<Rightarrow> string \<Rightarrow> string \<Rightarrow> 'w \<Rightarrow> bool \<times> 'w" where
  "CreateHardLinkSynchronously F old_path new_path w = (case fs_link F old_path new_path w of (r, w) \<Rightarrow> (r = 0, w))"

text \<open>
  \<open>readlink\<close> gives at most as many characters as the buffer holds, \<open>PATH_MAX + 1\<close>.
\<close>

definition CopySymlinkSynchronously :: "'w fs \<Rightarrow> string \<Rightarrow> string \<Rightarrow> 'w \<Rightarrow> bool \<times> 'w" where
  "CopySymlinkSynchronously F old_path new_path w =
     (case fs_readlink F old_path 4097 w of
        Inl e \<Rightarrow> (False, w)
      | Inr target \<Rightarrow>
          if \<not> length target < 4097 then (False, w)
          else (case fs_symlink F target new_path w of (rc, w) \<Rightarrow> (rc = 0, w)))"

definition CreateNodeSynchronously :: "'w fs \<Rightarrow> string \<Rightarrow> stat_buf \<Rightarrow> 'w \<Rightarrow> bool \<times> 'w" where
  "CreateNodeSynchronously F new_path st w =
     (case fs_mknod F new_path (st_mode st) (st_rdev st) w of (r, w) \<Rightarrow> (r = 0, w))"

text \<open>The inner loop of \<open>CopyFileSynchronously\<close>: \<^term>\<open>Some False\<close> is a failed write.\<close>

fun copy_write_loop :: "nat \<Rightarrow> 'w fs \<Rightarrow> int \<Rightarrow> byte list \<Rightarrow> nat \<Rightarrow> 'w \<Rightarrow> (bool \<times> 'w) option" where
  "copy_write_loop 0 F fd_out buf write_size w = None"
| "copy_write_loop (Suc n) F fd_out buf write_size w =
     (if write_size < length buf then
        (case sys_write F fd_out (drop write_size buf) w of (r, w) \<Rightarrow>
           if r < 0 then Some (False, w) else copy_write_loop n F fd_out buf (write_size + nat r) w)
      else do {
        CHECK (write_size = length buf);
        Some (True, w) })"

fun copy_file_loop ::
    "nat \<Rightarrow> 'w fs \<Rightarrow> bool \<Rightarrow> int \<Rightarrow> int \<Rightarrow> nat \<Rightarrow> int \<Rightarrow> int \<Rightarrow> 'w \<Rightarrow> (bool \<times> 'w) option" where
  "copy_file_loop 0 F should_exit fd_in fd_out buf_size len bytes_written w = None"
| "copy_file_loop (Suc n) F should_exit fd_in fd_out buf_size len bytes_written w =
     (if should_exit then Some (False, w)
      else
        (case sys_read F fd_in buf_size w of ((read_size, buf), w) \<Rightarrow>
           if read_size < 0 then Some (False, w)
           else if read_size = 0 then do {
             CHECK (bytes_written = len);
             Some (True, w) }
           else do {
             (ok, w) \<leftarrow> copy_write_loop (Suc n) F fd_out (take (nat read_size) buf) 0 w;
             if \<not> ok then Some (False, w)
             else do {
               let bytes_written = bytes_written + int (length (take (nat read_size) buf));
               CHECK (bytes_written \<le> len);
               if bytes_written = len then Some (True, w)
               else copy_file_loop n F should_exit fd_in fd_out buf_size len bytes_written w } }))"

text \<open>\<open>O_CREAT | O_EXCL | O_WRONLY\<close> is 193. The closers run on every return.\<close>

definition CopyFileSynchronously ::
    "nat \<Rightarrow> 'w fs \<Rightarrow> bool \<Rightarrow> string \<Rightarrow> string \<Rightarrow> stat_buf \<Rightarrow> 'w \<Rightarrow> (bool \<times> 'w) option" where
  "CopyFileSynchronously n F should_exit old_path new_path st w =
     (case sys_open F new_path 193 (st_mode st) w of (fd_out, w) \<Rightarrow>
        if fd_out < 0 then Some (False, w)
        else
          (case sys_open F old_path 0 0 w of (fd_in, w) \<Rightarrow>
             if fd_in < 0 then Some (False, snd (sys_close F fd_out w))
             else do {
               (ok, w) \<leftarrow> copy_file_loop n F should_exit fd_in fd_out
                 (nat (min kCopyFileBufferSize (st_size st))) (st_size st) 0 w;
               let w = snd (sys_close F fd_in w);
               Some (ok, snd (sys_close F fd_out w)) }))"

subsection \<open>Copying the tree\<close>

text \<open>
  The branch of the loop of \<open>CopySynchronously\<close> that creates the copy of one file;
  \<open>hard_links\<close> maps an inode to the path it was copied to.
\<close>

definition copy_node ::
    "nat \<Rightarrow> 'w fs \<Rightarrow> bool \<Rightarrow> string \<Rightarrow> string \<Rightarrow> string \<Rightarrow> stat_buf \<Rightarrow> (nat \<rightharpoonup> string) \<times> 'w \<Rightarrow>
     (bool \<times> (nat \<rightharpoonup> string) \<times> 'w) option" where
  "copy_node n F should_exit partial old_path new_path st hw =
     (case hw of (hard_links, w) \<Rightarrow>
       if partial = [] then Some (True, hard_links, w)
       else if st_kind st = S_DIR then
         (case CreateDirSynchronously F new_path st w of (ok, w) \<Rightarrow> Some (ok, hard_links, w))
       else
         (case (if st_nlink st > 1 then hard_links (st_ino st) else None) of
            Some first_path \<Rightarrow>
              (case CreateHardLinkSynchronously F first_path new_path w of (ok, w) \<Rightarrow> Some (ok, hard_links, w))
          | None \<Rightarrow>
              (let hard_links = (if st_nlink st > 1 then hard_links(st_ino st \<mapsto> new_path) else hard_links) in
               if st_kind st = S_REG then do {
                 (ok, w) \<leftarrow> CopyFileSynchronously n F should_exit old_path new_path st w;
                 Some (ok, hard_links, w) }
               else if st_kind st = S_LNK then
                 (case CopySymlinkSynchronously F old_path new_path w of (ok, w) \<Rightarrow> Some (ok, hard_links, w))
               else if st_kind st \<in> {S_FIFO, S_CHR, S_BLK, S_SOCK} then
                 (case CreateNodeSynchronously F new_path st w of (ok, w) \<Rightarrow> Some (ok, hard_links, w))
               else None)))"

definition copy_attributes :: "'w fs \<Rightarrow> string \<Rightarrow> stat_buf \<Rightarrow> 'w \<Rightarrow> bool \<times> 'w" where
  "copy_attributes F new_path st w =
     (let (r, w) = (if st_kind st \<noteq> S_LNK then fs_chmod F new_path (st_mode st) w else (0, w)) in
      if r \<noteq> 0 then (False, w)
      else (case fs_lchown F new_path (st_uid st) (st_gid st) w of (r, w) \<Rightarrow> (r = 0, w)))"

fun copy_tree_loop ::
    "nat \<Rightarrow> 'w fs \<Rightarrow> copier \<Rightarrow> fs_iter \<times> (nat \<rightharpoonup> string) \<times> 'w \<Rightarrow> (bool \<times> 'w) option" where
  "copy_tree_loop 0 F c s = None"
| "copy_tree_loop (Suc n) F c (it, hard_links, w) =
     (if fc_should_exit c \<or> fi_is_end it then Some (\<not> fi_is_err it, w)
      else do {
        let new_path = fc_dest_path c @ GetPartialPath it;
        CHECK (kCopyExclusionPrefix \<noteq> GetPartialPath it);
        (ok, hard_links, w) \<leftarrow> copy_node (Suc n) F (fc_should_exit c) (GetPartialPath it) (GetFullPath it)
          new_path (fi_stbuf it) (hard_links, w);
        if \<not> ok then Some (False, w)
        else
          (case copy_attributes F new_path (fi_stbuf it) w of (ok, w) \<Rightarrow>
             if \<not> ok then Some (False, w)
             else do {
               (it, w) \<leftarrow> Increment (Suc n) F (it, w);
               copy_tree_loop n F c (it, hard_links, w) }) })"

definition CopySynchronously :: "nat \<Rightarrow> 'w fs \<Rightarrow> stat_buf \<Rightarrow> copier \<Rightarrow> 'w \<Rightarrow> (bool \<times> 'w) option" where
  "CopySynchronously n F junk c w =
     copy_tree_loop n F c
       (new_FilesystemIterator F junk (fc_copy_source c) (SetWithValue kCopyExclusionPrefix) w, Map.empty, w)"

subsection \<open>The helper thread\<close>

text \<open>\<open>O_CREAT | O_WRONLY\<close> is 65 and the mode 0644.\<close>

definition place_marker :: "'w fs \<Rightarrow> string \<Rightarrow> 'w \<Rightarrow> 'w" where
  "place_marker F path w =
     (case sys_open F path 65 420 w of (r, w) \<Rightarrow> if r \<ge> 0 then snd (sys_close F r w) else w)"

text \<open>The value is the success of the thread and what it puts into the output pipe.\<close>

definition HelperThreadMain ::
    "nat \<Rightarrow> 'w fs \<Rightarrow> stat_buf \<Rightarrow> bool \<Rightarrow> copier \<times> 'w \<Rightarrow> ((bool \<times> InstallPlan option) \<times> copier \<times> 'w) option" where
  "HelperThreadMain n F junk has_out cw =
     (case cw of (c, w) \<Rightarrow>
       (let plan = fc_install_plan c;
            (success, return_code, w) = SynchronousExec F [''/sbin/mkfs.ext3'', ''-F'', install_path plan] 1 w;
            success = (if return_code \<noteq> 0 then False else success)
        in do {
          (success, c, w) \<leftarrow> (if success then fc_Mount F (install_path plan) (fc_dest_path c) (c, w) else Some (success, c, w));
          (success, w) \<leftarrow> (if success then CopySynchronously n F junk c w else Some (success, w));
          let w = (if success then place_marker F (fc_dest_path c @ kCompleteFilesystemMarker) w else w);
          (unmounted, c, w) \<leftarrow> fc_Unmount F (fc_dest_path c) (c, w);
          let success = (if \<not> unmounted then False else success);
          Some ((success, if has_out then Some plan else None), c, w) }))"

definition CollectThread :: "'w fs \<Rightarrow> bool \<Rightarrow> copier \<times> 'w \<Rightarrow> (bool \<times> copier \<times> 'w) option" where
  "CollectThread F success cw =
     (case cw of (c, w) \<Rightarrow> do {
        CHECK (\<not> fc_is_mounted c);
        let (_, w) = fs_rmdir F (fc_dest_path c) w;
        Some (success, c\<lparr>fc_thread := False\<rparr>, w) })"

section \<open>Properties\<close>

subsection \<open>Copying a file\<close>

text \<open>
  \<open>source_ok F d src\<close>: \<open>src\<close> is what is still to be read on descriptor \<open>d\<close>. A read
  gives a part of it that fits the buffer, or fails; it gives nothing only at the end of
  the file or for an empty buffer. Writes to \<open>o\<close> take at least a byte or fail, append to
  \<open>dst\<close>, and neither disturbs the other.
\<close>

definition copy_io_ok ::
    "'w fs \<Rightarrow> int \<Rightarrow> int \<Rightarrow> ('w \<Rightarrow> byte list) \<Rightarrow> ('w \<Rightarrow> byte list) \<Rightarrow> bool" where
  "copy_io_ok F d o' src dst \<longleftrightarrow>
     (\<forall>k w r buf w'. sys_read F d k w = ((r, buf), w') \<longrightarrow>
        dst w' = dst w \<and> (0 \<le> r \<longrightarrow> nat r \<le> k \<and> length buf = nat r \<and> src w = buf @ src w')
        \<and> (r = 0 \<longrightarrow> k = 0 \<or> src w = []))
   \<and> (\<forall>bs w r w'. sys_write F o' bs w = (r, w') \<longrightarrow>
        src w' = src w \<and> r \<le> int (length bs) \<and> (bs \<noteq> [] \<longrightarrow> r \<noteq> 0)
        \<and> (0 \<le> r \<longrightarrow> dst w' = dst w @ take (nat r) bs))"

lemma copy_io_read:
  assumes "copy_io_ok F d o' src dst" "sys_read F d k w = ((r, buf), w')"
  shows "dst w' = dst w" "0 \<le> r \<Longrightarrow> nat r \<le> k" "0 \<le> r \<Longrightarrow> length buf = nat r"
    "0 \<le> r \<Longrightarrow> src w = buf @ src w'" "r = 0 \<Longrightarrow> k = 0 \<or> src w = []"
  using assms unfolding copy_io_ok_def by blast+

lemma copy_io_write:
  assumes "copy_io_ok F d o' src dst" "sys_write F o' bs w = (r, w')"
  shows "src w' = src w" "r \<le> int (length bs)" "bs \<noteq> [] \<Longrightarrow> r \<noteq> 0"
    "0 \<le> r \<Longrightarrow> dst w' = dst w @ take (nat r) bs"
  using assms unfolding copy_io_ok_def by blast+

lemma copy_write_loop_spec:
  assumes io: "copy_io_ok F d o' src dst" and fuel: "length buf - k < n" and k: "k \<le> length buf"
  shows "\<exists>ok w'. copy_write_loop n F o' buf k w = Some (ok, w') \<and> src w' = src w
    \<and> (ok \<longrightarrow> dst w' = dst w @ drop k buf)"
  using fuel k
proof (induction n arbitrary: k w)
  case (Suc n)
  show ?case
  proof (cases "k < length buf")
    case False
    with Suc.prems show ?thesis by auto
  next
    case True
    obtain r v where wr: "sys_write F o' (drop k buf) w = (r, v)" by fastforce
    note i = copy_io_write[OF io wr]
    show ?thesis
    proof (cases "r < 0")
      case neg: True
      with True wr i show ?thesis by auto
    next
      case False
      with i(2,3) True have r: "0 < nat r" "nat r \<le> length buf - k" by auto
      then obtain ok w' where IH: "copy_write_loop n F o' buf (k + nat r) v = Some (ok, w')" "src w' = src v"
        "ok \<longrightarrow> dst w' = dst v @ drop (k + nat r) buf"
        using Suc.IH[of "k + nat r" v] Suc.prems True by force
      have "take (nat r) (drop k buf) @ drop (k + nat r) buf = drop k buf"
        by (metis add.commute append_take_drop_id drop_drop)
      with IH i False True wr show ?thesis by auto
    qed
  qed
qed simp

lemma copy_file_loop_spec:
  assumes io: "copy_io_ok F d o' src dst" and fuel: "length (src w) < n" and B: "src w \<noteq> [] \<longrightarrow> 0 < B"
    and len: "len = k + int (length (src w))"
  shows "\<exists>ok w'. copy_file_loop n F should_exit d o' B len k w = Some (ok, w') \<and> (ok \<longrightarrow> dst w' = dst w @ src w)"
  using fuel B len
proof (induction n arbitrary: k w)
  case (Suc n)
  obtain r buf v where rd: "sys_read F d B w = ((r, buf), v)" by (metis prod.collapse)
  note i = copy_io_read[OF io rd]
  show ?case
  proof (cases "should_exit \<or> r < 0")
    case True
    with rd show ?thesis by auto
  next
    case ok: False
    show ?thesis
    proof (cases "r = 0")
      case True
      with i(5) Suc.prems(2) have "src w = []" by auto
      with True ok rd i(1) Suc.prems(3) show ?thesis by auto
    next
      case False
      have buf: "take (nat r) buf = buf" "src w = buf @ src v" "buf \<noteq> []" using ok False i(3,4) by auto
      obtain ok1 w1 where wl: "copy_write_loop (Suc n) F o' buf 0 v = Some (ok1, w1)" "src w1 = src v"
        "ok1 \<longrightarrow> dst w1 = dst v @ buf"
        using copy_write_loop_spec[OF io, of buf 0 "Suc n" v] Suc.prems(1) buf(2) by auto
      have le: "k + int (length buf) \<le> len" "k + int (length buf) = len \<longleftrightarrow> src v = []"
        using Suc.prems(3) buf(2) by auto
      have "\<exists>ok w'. copy_file_loop n F should_exit d o' B len (k + int (length buf)) w1 = Some (ok, w')
          \<and> (ok \<longrightarrow> dst w' = dst w1 @ src w1)"
        by (rule Suc.IH) (use Suc.prems buf wl(2) in \<open>auto simp: Suc_le_eq length_greater_0_conv[symmetric] simp del: length_greater_0_conv\<close>)
      then obtain ok2 w2 where "copy_file_loop n F should_exit d o' B len (k + int (length buf)) w1 = Some (ok2, w2)"
        "ok2 \<longrightarrow> dst w2 = dst w1 @ src w1" by blast
      with ok False rd buf wl le i(1) show ?thesis by (cases ok1) (auto simp del: copy_write_loop.simps)
    qed
  qed
qed simp

text \<open>Reads and writes fail only by a negative result.\<close>

definition no_io_errors :: "'w fs \<Rightarrow> int \<Rightarrow> int \<Rightarrow> bool" where
  "no_io_errors F d o' \<longleftrightarrow>
     (\<forall>k w. 0 \<le> fst (fst (sys_read F d k w))) \<and> (\<forall>bs w. 0 \<le> fst (sys_write F o' bs w))"

lemma copy_write_loop_no_error:
  "no_io_errors F d o' \<Longrightarrow> copy_write_loop n F o' buf k w = Some (ok, w') \<Longrightarrow> ok"
proof (induction n F o' buf k w rule: copy_write_loop.induct)
  case (2 n F o' buf k w)
  obtain r v where "sys_write F o' (drop k buf) w = (r, v)" by fastforce
  moreover from this 2(2) have "\<not> r < 0" by (metis fst_conv no_io_errors_def not_less)
  ultimately show ?case using 2 by (auto split: if_splits)
qed simp

lemma copy_file_loop_no_error:
  "no_io_errors F d o' \<Longrightarrow> copy_file_loop n F False d o' B len k w = Some (ok, w') \<Longrightarrow> ok"
proof (induction n arbitrary: k w)
  case (Suc n)
  obtain r buf v where rd: "sys_read F d B w = ((r, buf), v)" by (metis prod.collapse)
  with Suc.prems(1) have "\<not> r < 0" by (metis fst_conv no_io_errors_def not_less)
  with Suc rd show ?case
    by (auto simp: bind_eq_Some_iff Let_def simp del: copy_write_loop.simps
        dest!: copy_write_loop_no_error[OF Suc.prems(1)] split: if_splits)
qed simp

text \<open>
  \<open>CopyFileSynchronously\<close>, when both files can be opened and the source holds
  as many bytes as \<open>stat\<close> said, returns after a bounded number of rounds without failing
  any of its checks, however the reads and writes are split; when it returns true the new
  file has been given exactly the bytes of the old one, and it does return true unless the
  program is about to exit or a read or a write fails. An empty file is copied too.
\<close>

theorem CopyFileSynchronously_copies:
  assumes io: "copy_io_ok F d o' src dst" and "d \<noteq> o'"
    and out: "sys_open F new_path 193 (st_mode st) w = (o', w1)" "0 \<le> o'"
    and inp: "sys_open F old_path 0 0 w1 = (d, w2)" "0 \<le> d"
    and size: "st_size st = int (length (src w2))" and fuel: "length (src w2) < n"
    and close: "\<forall>e v. dst (snd (sys_close F e v)) = dst v"
  shows "\<exists>ok w'. CopyFileSynchronously n F should_exit old_path new_path st w = Some (ok, w')
    \<and> (ok \<longrightarrow> dst w' = dst w2 @ src w2)
    \<and> (\<not> should_exit \<and> no_io_errors F d o' \<longrightarrow> ok)"
proof -
  have "src w2 \<noteq> [] \<longrightarrow> 0 < nat (min kCopyFileBufferSize (st_size st))"
    using size by (auto simp: kCopyFileBufferSize_def)
  from copy_file_loop_spec[OF io fuel this, of "st_size st" 0 should_exit] size
  obtain ok w3 where "copy_file_loop n F should_exit d o' (nat (min kCopyFileBufferSize (st_size st))) (st_size st) 0 w2
      = Some (ok, w3)" "ok \<longrightarrow> dst w3 = dst w2 @ src w2" by auto
  moreover from this(1) have "\<not> should_exit \<and> no_io_errors F d o' \<longrightarrow> ok"
    by (auto dest: copy_file_loop_no_error)
  ultimately show ?thesis using out inp close by (simp add: CopyFileSynchronously_def)
qed

text \<open>
  A system for witnesses: its state is what is left of the source and what was written.
  It reads two bytes at a time and writes three; there is one file, no directory, every
  command runs and exits with code 0, and mounting and unmounting succeed.
\<close>

definition demo_fs :: "(byte list \<times> byte list) fs" where
  "demo_fs = \<lparr>sys_open = (\<lambda>path flags mode w. (if flags = 0 then 3 else 4, w)),
     sys_write = (\<lambda>d bs w. (int (length (take 3 bs)), (fst w, snd w @ take 3 bs))),
     sys_read = (\<lambda>d k w. ((int (length (take (min k 2) (fst w))), take (min k 2) (fst w)),
                          (drop (min k 2) (fst w), snd w))),
     sys_lseek = (\<lambda>d off w. (off, w)), sys_close = (\<lambda>d w. (0, w)),
     fs_lstat = (\<lambda>path w. Inl (- ENOENT)), fs_opendir = (\<lambda>path w. (Inl (- ENOENT), w)),
     fs_readdir = (\<lambda>d w. (Inr None, w)), fs_closedir = (\<lambda>d w. (0, w)),
     fs_unlink = (\<lambda>path w. (0, w)), fs_rmdir = (\<lambda>path w. (0, w)), fs_mkdir = (\<lambda>path m w. (0, w)),
     fs_link = (\<lambda>a b w. (0, w)), fs_readlink = (\<lambda>path k w. Inr []), fs_symlink = (\<lambda>a b w. (0, w)),
     fs_mknod = (\<lambda>path m r w. (0, w)), fs_chmod = (\<lambda>path m w. (0, w)), fs_lchown = (\<lambda>path u g w. (0, w)),
     fs_mount = (\<lambda>dev mp w. (0, w)), fs_umount = (\<lambda>mp w. (0, w)),
     fs_mkdtemp = (\<lambda>t w. (Some ''/tmp/x'', w)), fs_spawn_sync = (\<lambda>cmd w. (Some 0, w)),
     fs_fopen = (\<lambda>path w. (None, w)), fs_fread = (\<lambda>f k w. ([], w)), fs_ferror = (\<lambda>f w. False),
     fs_fclose = (\<lambda>f w. (0, w))\<rparr>"

lemma demo_fs_io: "copy_io_ok demo_fs d o' fst snd"
  by (auto simp: copy_io_ok_def demo_fs_def min_def)

definition demo_stat :: stat_buf where
  "demo_stat = \<lparr>st_kind = S_REG, st_mode = 420, st_dev = 1, st_ino = 7, st_nlink = 1, st_size = 5,
     st_uid = 0, st_gid = 0, st_rdev = 0\<rparr>"

theorem CopyFileSynchronously_copies_witness:
  "\<exists>w'. CopyFileSynchronously 9 demo_fs False ''/a'' ''/b'' demo_stat ([1, 2, 3, 4, 5], [])
      = Some (True, w') \<and> snd w' = [1, 2, 3, 4, 5]"
  using CopyFileSynchronously_copies[OF demo_fs_io, of 3 4 "''/b''" demo_stat "([1, 2, 3, 4, 5], [])"
      "([1, 2, 3, 4, 5], [])" "''/a''" "([1, 2, 3, 4, 5], [])" 9 False]
  by (auto simp: demo_fs_def demo_stat_def no_io_errors_def)

subsection \<open>Failures of the copier\<close>

lemma fc_Unmount_result: "fc_Unmount F mp cw = Some (b, c, w) \<Longrightarrow> b = (\<not> fc_is_mounted c)"
  by (auto simp: fc_Unmount_def Let_def split: prod.splits if_splits)

text \<open>
  a failure that the helper thread logs and means to report as an unsuccessful
  action ends the process instead. When the format command fails or the freshly made file
  system cannot be mounted, nothing is mounted, and \<open>Unmount\<close> fails its check; when
  unmounting fails, \<open>CollectThread\<close> fails its check.
\<close>

theorem FilesystemCopier_failure_aborts:
  assumes "\<not> fc_is_mounted c"
  shows "(\<forall>r w1. fs_spawn_sync F [''/sbin/mkfs.ext3'', ''-F'', install_path (fc_install_plan c)] w = (r, w1)
            \<and> r \<noteq> Some 0 \<longrightarrow> HelperThreadMain n F junk has_out (c, w) = None)
    \<and> (\<forall>w1 e w2. fs_spawn_sync F [''/sbin/mkfs.ext3'', ''-F'', install_path (fc_install_plan c)] w = (Some 0, w1)
            \<and> fs_mount F (install_path (fc_install_plan c)) (fc_dest_path c) w1 = (e, w2) \<and> e < 0
            \<longrightarrow> HelperThreadMain n F junk has_out (c, w) = None)
    \<and> (\<forall>r c' w'. HelperThreadMain n F junk has_out (c, w) = Some (r, c', w')
            \<and> fc_is_mounted c' \<longrightarrow> fst r = False \<and> CollectThread F (fst r) (c', w') = None)"
proof (intro conjI allI impI)
  fix r w1
  assume "fs_spawn_sync F [''/sbin/mkfs.ext3'', ''-F'', install_path (fc_install_plan c)] w = (r, w1) \<and> r \<noteq> Some 0"
  then show "HelperThreadMain n F junk has_out (c, w) = None"
    using assms by (cases r) (auto simp: HelperThreadMain_def SynchronousExec_def fc_Unmount_def)
next
  fix w1 e w2
  assume "fs_spawn_sync F [''/sbin/mkfs.ext3'', ''-F'', install_path (fc_install_plan c)] w = (Some 0, w1)
    \<and> fs_mount F (install_path (fc_install_plan c)) (fc_dest_path c) w1 = (e, w2) \<and> e < 0"
  then show "HelperThreadMain n F junk has_out (c, w) = None"
    using assms by (auto simp: HelperThreadMain_def SynchronousExec_def fc_Unmount_def fc_Mount_def MountFilesystem_def)
next
  fix r c' w'
  assume h: "HelperThreadMain n F junk has_out (c, w) = Some (r, c', w') \<and> fc_is_mounted c'"
  then obtain x y b success where "fc_Unmount F y x = Some (b, c', w')" "fst r = (if \<not> b then False else success)"
    by (auto simp: HelperThreadMain_def bind_eq_Some_iff Let_def split: prod.splits)
  with h fc_Unmount_result show "fst r = False" by fastforce
  from h show "CollectThread F (fst r) (c', w') = None"
    by (simp add: CollectThread_def)
qed

theorem FilesystemCopier_failure_aborts_witness:
  "HelperThreadMain 9 (demo_fs\<lparr>fs_spawn_sync := (\<lambda>cmd w. (Some 1, w))\<rparr>) demo_stat True
     (new_FilesystemCopierAction, [], []) = None"
  using FilesystemCopier_failure_aborts[of new_FilesystemCopierAction "demo_fs\<lparr>fs_spawn_sync := (\<lambda>cmd w. (Some 1, w))\<rparr>"
      "([], [])" 9 demo_stat True]
  by (simp add: new_FilesystemCopierAction_def)

text \<open>
  with a full update the copier completes with success without putting anything
  into its output pipe, so that the next action finds a default-constructed install plan
  there: no URL, no hash, no device.
\<close>

theorem FilesystemCopier_full_update_drops_plan:
  assumes "is_full_update plan" and "out_pipe ps a = Some q" and "in_pipe ps b = Some q"
    and "contents ps q = empty_InstallPlan"
  shows "fc_PerformAction F (Some plan) (HasOutputPipe a ps) (c, w) =
      Some ((Some True, None), c\<lparr>fc_install_plan := plan\<rparr>, w)
    \<and> GetInputObject b ps = Some empty_InstallPlan"
  using assms by (simp add: fc_PerformAction_def GetInputObject_def HasInputObject_def)

theorem FilesystemCopier_full_update_drops_plan_witness:
  "fc_PerformAction demo_fs (Some (empty_InstallPlan\<lparr>is_full_update := True, download_url := ''u''\<rparr>))
      (HasOutputPipe 1 (Bond empty_InstallPlan 1 2 (no_pipes empty_InstallPlan))) (new_FilesystemCopierAction, [], []) =
      Some ((Some True, None),
        new_FilesystemCopierAction\<lparr>fc_install_plan := empty_InstallPlan\<lparr>is_full_update := True, download_url := ''u''\<rparr>\<rparr>, [], [])
    \<and> GetInputObject 2 (Bond empty_InstallPlan 1 2 (no_pipes empty_InstallPlan)) = Some empty_InstallPlan"
  by (rule FilesystemCopier_full_update_drops_plan[of _ _ 1 0 2])
     (simp_all add: pipe_defs no_pipes_def)

end
