(* ===== verification/UE_Extents.thy ===== *)
theory UE_Extents
  imports UE_Writers
begin

text \<open>
  What the extent writers and the block-to-extent routines of \<open>UE_Writers\<close>
  guarantee. The specification of a list of extents is the list of byte addresses it
  stands for, a hole standing for bytes that are dropped; a write is correct when the
  bytes of the stream end up at the addresses of their positions.
\<close>

section \<open>Devices\<close>

definition put :: "nat \<Rightarrow> byte list \<Rightarrow> (nat \<Rightarrow> byte) \<Rightarrow> nat \<Rightarrow> byte" where
  "put p bs d = (\<lambda>i. if p \<le> i \<and> i < p + length bs then bs ! (i - p) else d i)"

fun store :: "nat option list \<Rightarrow> byte list \<Rightarrow> (nat \<Rightarrow> byte) \<Rightarrow> nat \<Rightarrow> byte" where
  "store (a # as) (b # bs) d = store as bs (case a of None \<Rightarrow> d | Some i \<Rightarrow> d(i := b))"
| "store _ _ d = d"

lemma put_Nil [simp]: "put p [] d = d"
  by (auto simp: put_def fun_eq_iff)

lemma put_append: "put p (xs @ ys) d = put (p + length xs) ys (put p xs d)"
  by (auto simp: put_def fun_eq_iff nth_append)

lemma put_Cons: "put p (b # bs) d = put (Suc p) bs (d(p := b))"
  by (auto simp: put_def fun_eq_iff nth_Cons')

lemma store_Nil_right [simp]: "store as [] d = d"
  by (cases as) auto

lemma store_append:
  "length as = length bs \<Longrightarrow> store (as @ as') (bs @ bs') d = store as' bs' (store as bs d)"
  by (induction as bs arbitrary: d rule: list_induct2) auto

lemma store_holes: "store (replicate n None) bs d = d"
  by (induction n arbitrary: bs) (case_tac bs, auto)+

lemma store_run: "store (map (\<lambda>i. Some (p + i)) [k..<k + length bs]) bs d = put (p + k) bs d"
proof (induction bs arbitrary: k d)
  case Nil
  then show ?case by simp
next
  case (Cons b bs)
  have "[k..<k + length (b # bs)] = k # [Suc k..<Suc k + length bs]"
    using upt_conv_Cons[of k "k + length (b # bs)"] by simp
  with Cons.IH[of "Suc k"] show ?case by (simp add: put_Cons fun_upd_def del: upt_Suc)
qed

text \<open>
  \<open>disk_ok P d pos dev\<close>: on descriptor \<open>d\<close>, \<open>lseek\<close> to a non-negative offset moves
  the file position and keeps the contents; \<open>write\<close> takes at most what it is given and
  at least one byte of a non-empty buffer unless it fails, and stores what it took at the
  position, which advances.
\<close>

definition disk_ok :: "'w posix \<Rightarrow> int \<Rightarrow> ('w \<Rightarrow> nat) \<Rightarrow> ('w \<Rightarrow> nat \<Rightarrow> byte) \<Rightarrow> bool" where
  "disk_ok P d pos dev \<longleftrightarrow>
     (\<forall>off w r w'. sys_lseek P d off w = (r, w') \<longrightarrow> 0 \<le> r \<longrightarrow> 0 \<le> off \<longrightarrow>
        dev w' = dev w \<and> pos w' = nat off) \<and>
     (\<forall>bs w r w'. sys_write P d bs w = (r, w') \<longrightarrow>
        r \<le> int (length bs) \<and> (bs \<noteq> [] \<longrightarrow> r \<noteq> 0)
        \<and> (0 \<le> r \<longrightarrow> dev w' = put (pos w) (take (nat r) bs) (dev w) \<and> pos w' = pos w + nat r))"

lemma disk_ok_seek:
  assumes "disk_ok P d pos dev" "sys_lseek P d off w = (r, w')" "0 \<le> r" "0 \<le> off"
  shows "dev w' = dev w" "pos w' = nat off"
  using assms unfolding disk_ok_def by blast+

lemma disk_ok_write:
  assumes "disk_ok P d pos dev" "sys_write P d bs w = (r, w')"
  shows "r \<le> int (length bs)" "bs \<noteq> [] \<Longrightarrow> r \<noteq> 0"
    "0 \<le> r \<Longrightarrow> dev w' = put (pos w) (take (nat r) bs) (dev w)"
    "0 \<le> r \<Longrightarrow> pos w' = pos w + nat r"
  using assms unfolding disk_ok_def by blast+

lemma write_all_loop_spec:
  assumes ok: "disk_ok P d pos dev" and fuel: "length buf - k < n" and k: "k \<le> length buf"
    and small: "length buf < 2 ^ 31"
  shows "\<exists>b w'. write_all_loop n P d buf k w = Some (b, w')
    \<and> (b \<longrightarrow> dev w' = put (pos w) (drop k buf) (dev w) \<and> pos w' = pos w + (length buf - k))"
  using fuel k
proof (induction n arbitrary: k w)
  case 0
  then show ?case by simp
next
  case (Suc n)
  show ?case
  proof (cases "k < length buf")
    case False
    with Suc.prems small show ?thesis by (auto simp: int_of_size_small)
  next
    case True
    obtain rc v where wr: "sys_write P d (drop k buf) w = (rc, v)" by fastforce
    note sys = disk_ok_write[OF ok wr]
    show ?thesis
    proof (cases "rc < 0")
      case neg: True
      with True wr small show ?thesis by (auto simp: int_of_size_small)
    next
      case False
      with sys True have rc: "0 < nat rc" "nat rc \<le> length buf - k" by auto
      then obtain b w' where IH: "write_all_loop n P d buf (k + nat rc) v = Some (b, w')"
        "b \<longrightarrow> dev w' = put (pos v) (drop (k + nat rc) buf) (dev v)
           \<and> pos w' = pos v + (length buf - (k + nat rc))"
        using Suc.IH[of "k + nat rc" v] Suc.prems True by force
      have "drop k buf = take (nat rc) (drop k buf) @ drop (k + nat rc) buf"
        by (metis add.commute append_take_drop_id drop_drop)
      then have "put (pos w) (drop k buf) (dev w) =
          put (pos w + nat rc) (drop (k + nat rc) buf) (put (pos w) (take (nat rc) (drop k buf)) (dev w))"
        using rc by (metis put_append length_take length_drop min.absorb2)
      with IH sys(3,4) False rc True wr small show ?thesis by (auto simp: int_of_size_small)
    qed
  qed
qed

lemma WriteAll_spec:
  assumes "disk_ok P d pos dev" "length buf < n" "length buf < 2 ^ 31"
  shows "\<exists>b w'. WriteAll n P d buf w = Some (b, w')
    \<and> (b \<longrightarrow> dev w' = put (pos w) buf (dev w) \<and> pos w' = pos w + length buf)"
  using write_all_loop_spec[OF assms(1), of buf 0 n w] assms(2,3) by (simp add: WriteAll_def)

section \<open>Addresses of a list of extents\<close>

definition ext_len :: "nat \<Rightarrow> extent \<Rightarrow> nat" where
  "ext_len B e = unat (num_blocks e) * B"

definition ext_addr :: "nat \<Rightarrow> extent \<Rightarrow> nat \<Rightarrow> nat option" where
  "ext_addr B e i = (if start_block e = kSparseHole then None else Some (unat (start_block e) * B + i))"

definition ext_addrs :: "nat \<Rightarrow> extent \<Rightarrow> nat option list" where
  "ext_addrs B e = map (ext_addr B e) [0..<ext_len B e]"

definition addrs :: "nat \<Rightarrow> extent list \<Rightarrow> nat option list" where
  "addrs B es = concat (map (ext_addrs B) es)"

lemma length_ext_addrs [simp]: "length (ext_addrs B e) = ext_len B e"
  by (simp add: ext_addrs_def)

lemma length_addrs: "length (addrs B es) = sum_list (map (ext_len B) es)"
  by (induction es) (auto simp: addrs_def)

lemma addrs_Cons [simp]: "addrs B (e # es) = ext_addrs B e @ addrs B es"
  by (simp add: addrs_def)

lemma addrs_append: "addrs B (xs @ ys) = addrs B xs @ addrs B ys"
  by (simp add: addrs_def)

lemma addrs_slice:
  assumes "k < length es" "off \<le> ext_len B (es ! k)" "n \<le> ext_len B (es ! k) - off"
  shows "take n (drop (sum_list (map (ext_len B) (take k es)) + off) (addrs B es))
    = map (ext_addr B (es ! k)) [off..<off + n]"
proof -
  have "addrs B es = addrs B (take k es) @ ext_addrs B (es ! k) @ addrs B (drop (Suc k) es)"
    using id_take_nth_drop[OF assms(1)] by (metis addrs_append addrs_Cons)
  then have "drop (sum_list (map (ext_len B) (take k es)) + off) (addrs B es)
      = drop off (ext_addrs B (es ! k)) @ addrs B (drop (Suc k) es)"
    using assms(2) by (simp add: length_addrs)
  then show ?thesis using assms
    by (simp add: ext_addrs_def drop_map take_map drop_upt take_upt)
qed

text \<open>Extents whose bytes are addressable by a 64-bit file offset.\<close>

definition extent_ok :: "nat \<Rightarrow> extent \<Rightarrow> bool" where
  "extent_ok B e \<longleftrightarrow> num_blocks e \<noteq> 0 \<and> ext_len B e < 2 ^ 63
     \<and> (start_block e \<noteq> kSparseHole \<longrightarrow> unat (start_block e) * B + ext_len B e < 2 ^ 63)"

definition writer_inv :: "extent_writer \<Rightarrow> bool" where
  "writer_inv s \<longleftrightarrow> 0 < block_size s \<and> block_size s < 2 ^ 32
     \<and> (\<forall>e \<in> set (extents s). extent_ok (block_size s) e)
     \<and> next_extent_index s \<le> length (extents s)
     \<and> (if next_extent_index s < length (extents s)
        then unat (extent_bytes_written s) < ext_len (block_size s) (extents s ! next_extent_index s)
        else extent_bytes_written s = 0)"

definition stream_pos :: "extent_writer \<Rightarrow> nat" where
  "stream_pos s = sum_list (map (ext_len (block_size s)) (take (next_extent_index s) (extents s)))
     + unat (extent_bytes_written s)"

definition same_target :: "extent_writer \<Rightarrow> extent_writer \<Rightarrow> bool" where
  "same_target s t \<longleftrightarrow> efd t = efd s \<and> block_size t = block_size s \<and> extents t = extents s"

subsection \<open>Words as the numbers they stand for\<close>

lemma unat_mult_small:
  fixes a :: "64 word"
  assumes "unat a * B < 2 ^ 64"
  shows "unat (a * of_nat B) = unat a * B"
  using assms by (simp add: unat_word_ariths unat_of_nat take_bit_eq_mod mod_mult_right_eq)

lemma ext_len_word:
  assumes "extent_ok B e"
  shows "unat (num_blocks e * of_nat B) = ext_len B e"
  using assms by (auto simp: extent_ok_def ext_len_def intro!: unat_mult_small)

lemma remaining_word:
  assumes "extent_ok B e" "unat w < ext_len B e"
  shows "unat (num_blocks e * of_nat B - w) = ext_len B e - unat w"
proof -
  have "w \<le> num_blocks e * of_nat B"
    using assms ext_len_word[OF assms(1)] by (simp add: word_le_nat_alt)
  then show ?thesis using ext_len_word[OF assms(1)] by (simp add: unat_sub)
qed

lemma offset_word:
  assumes "extent_ok B e" "start_block e \<noteq> kSparseHole" "unat w < ext_len B e"
  shows "sint (start_block e * of_nat B + w) = int (unat (start_block e) * B + unat w)"
proof -
  let ?x = "start_block e * of_nat B + w"
  have lt: "unat (start_block e) * B + unat w < 2 ^ 63"
    using assms by (auto simp: extent_ok_def)
  then have m: "unat (start_block e * of_nat B) = unat (start_block e) * B"
    by (intro unat_mult_small) simp
  then have u: "unat ?x = unat (start_block e) * B + unat w"
    using lt by (simp add: unat_word_ariths)
  then have ui: "uint ?x = int (unat (start_block e) * B + unat w)"
    by (metis uint_nat)
  have "int (unat (start_block e) * B + unat w) < int (2 ^ 63)"
    using lt by (simp only: of_nat_less_iff)
  then have "uint ?x < 2 ^ 63" unfolding ui by simp
  moreover have "- (2 ^ 63) \<le> uint ?x" by (rule order_trans[OF _ unsigned_greater_eq]) simp
  moreover have "sint ?x = signed_take_bit 63 (uint ?x)" by (simp add: sint_uint)
  ultimately have "sint ?x = uint ?x" by (simp only: signed_take_bit_int_eq_self)
  then show ?thesis using ui by simp
qed

section \<open>DirectExtentWriter\<close>

text \<open>The 64-bit arithmetic of one round of the loop, in the numbers it stands for.\<close>

lemma round_words:
  fixes b :: "64 word"
  assumes e: "extent_ok B e" "unat b < ext_len B e" and len: "0 < len" "len < 2 ^ 31"
    and n: "n = min len (ext_len B e - unat b)"
  shows "unat (min (of_nat len) (num_blocks e * of_nat B - b)) = n"
    and "num_blocks e * of_nat B - b \<noteq> 0" and "0 < n"
    and "num_blocks e * of_nat B - b = of_nat n \<longleftrightarrow> n = ext_len B e - unat b"
    and "n = ext_len B e - unat b \<Longrightarrow> b + of_nat n = num_blocks e * of_nat B"
    and "unat (b + of_nat n) = unat b + n"
proof -
  let ?r = "num_blocks e * of_nat B - b"
  have rem: "unat ?r = ext_len B e - unat b" by (rule remaining_word[OF e])
  have ulen: "unat (of_nat len :: 64 word) = len"
    using len(2) by (simp add: unat_of_nat take_bit_eq_mod)
  show "unat (min (of_nat len) ?r) = n"
    using rem ulen n by (simp add: min_def word_le_nat_alt)
  show "?r \<noteq> 0" using rem e(2) by (metis unat_0 zero_less_diff less_irrefl)
  show "0 < n" using n len e by simp
  have un: "unat (of_nat n :: 64 word) = n"
    using n len(2) by (simp add: unat_of_nat take_bit_eq_mod)
  show full: "?r = of_nat n \<longleftrightarrow> n = ext_len B e - unat b"
    using rem un by (metis word_unat_eq_iff)
  show "b + of_nat n = num_blocks e * of_nat B" if "n = ext_len B e - unat b"
    using full that by (metis add.commute diff_add_cancel)
  have "unat b + n < 2 ^ 64" using e n by (auto simp: extent_ok_def)
  then show "unat (b + of_nat n) = unat b + n" using un by (simp add: unat_word_ariths)
qed

definition advanced :: "extent_writer \<Rightarrow> nat \<Rightarrow> extent_writer" where
  "advanced s n =
     (if n = ext_len (block_size s) (extents s ! next_extent_index s) - unat (extent_bytes_written s)
      then s\<lparr>extent_bytes_written := 0, next_extent_index := next_extent_index s + 1\<rparr>
      else s\<lparr>extent_bytes_written := extent_bytes_written s + of_nat n\<rparr>)"

lemma writer_inv_current:
  assumes "writer_inv s" "next_extent_index s < length (extents s)"
  shows "extent_ok (block_size s) (extents s ! next_extent_index s)"
    and "unat (extent_bytes_written s) < ext_len (block_size s) (extents s ! next_extent_index s)"
  using assms by (auto simp: writer_inv_def)

lemma advanced_props:
  assumes inv: "writer_inv s" and i: "next_extent_index s < length (extents s)"
    and len: "0 < len" "len < 2 ^ 31"
    and n: "n = min len (ext_len (block_size s) (extents s ! next_extent_index s)
                         - unat (extent_bytes_written s))"
  shows "writer_inv (advanced s n)" and "stream_pos (advanced s n) = stream_pos s + n"
    and "same_target s (advanced s n)"
proof -
  let ?e = "extents s ! next_extent_index s"
  let ?rem = "ext_len (block_size s) ?e - unat (extent_bytes_written s)"
  note e = writer_inv_current[OF inv i]
  note w = round_words[OF e len n]
  show "same_target s (advanced s n)" by (simp add: same_target_def advanced_def)
  show "writer_inv (advanced s n)"
  proof (cases "n = ?rem")
    case True
    have "0 < ext_len (block_size s) f" if "f \<in> set (extents s)" for f
      using inv that by (auto simp: writer_inv_def extent_ok_def ext_len_def unat_gt_0)
    with True inv i show ?thesis by (auto simp: writer_inv_def advanced_def)
  next
    case False
    with n have "n < ?rem" by linarith
    with False inv i w(6) show ?thesis by (auto simp: writer_inv_def advanced_def)
  qed
  show "stream_pos (advanced s n) = stream_pos s + n"
  proof (cases "n = ?rem")
    case True
    with e i show ?thesis by (simp add: stream_pos_def advanced_def take_Suc_conv_app_nth)
  next
    case False
    with w(6) show ?thesis by (simp add: stream_pos_def advanced_def)
  qed
qed

lemma dew_advance_eq:
  assumes inv: "writer_inv s" and i: "next_extent_index s < length (extents s)"
    and len: "0 < len" "len < 2 ^ 31"
    and n: "n = min len (ext_len (block_size s) (extents s ! next_extent_index s)
                         - unat (extent_bytes_written s))"
  shows "dew_advance (extents s ! next_extent_index s)
      (num_blocks (extents s ! next_extent_index s) * of_nat (block_size s) - extent_bytes_written s) n s
    = Some (advanced s n)"
proof -
  note w = round_words[OF writer_inv_current[OF inv i] len n]
  show ?thesis using w(4,5) by (auto simp: dew_advance_def advanced_def Let_def)
qed

lemma dew_put_spec:
  assumes inv: "writer_inv s" and i: "next_extent_index s < length (extents s)"
    and disk: "disk_ok P (efd s) pos dev" and fuel: "length piece < f" "length piece < 2 ^ 31"
    and fits: "length piece \<le> ext_len (block_size s) (extents s ! next_extent_index s)
                              - unat (extent_bytes_written s)"
  shows "\<exists>ok w'. dew_put f P s (extents s ! next_extent_index s) piece w = Some (ok, w')
    \<and> (ok \<longrightarrow> dev w' = store (take (length piece) (drop (stream_pos s) (addrs (block_size s) (extents s))))
                          piece (dev w))"
proof -
  let ?e = "extents s ! next_extent_index s" and ?b = "unat (extent_bytes_written s)"
  note e = writer_inv_current[OF inv i]
  have slice: "take (length piece) (drop (stream_pos s) (addrs (block_size s) (extents s)))
      = map (ext_addr (block_size s) ?e) [?b..<?b + length piece]"
    unfolding stream_pos_def using i e fits by (intro addrs_slice) auto
  show ?thesis
  proof (cases "start_block ?e = kSparseHole")
    case True
    then have "map (ext_addr (block_size s) ?e) [?b..<?b + length piece] = replicate (length piece) None"
      by (intro nth_equalityI) (auto simp: ext_addr_def)
    with True slice show ?thesis by (auto simp: dew_put_def store_holes)
  next
    case False
    let ?off = "unat (start_block ?e) * block_size s + ?b"
    obtain r v where seek: "sys_lseek P (efd s) (int ?off) w = (r, v)" by fastforce
    show ?thesis
    proof (cases "r < 0")
      case True
      with False seek offset_word[OF e(1) False e(2)] show ?thesis by (auto simp: dew_put_def)
    next
      case r: False
      then have v: "dev v = dev w" "pos v = ?off"
        using disk_ok_seek[OF disk seek] by (simp_all only: nat_int not_less of_nat_0_le_iff)
      from WriteAll_spec[OF disk fuel, of v] obtain b w' where
        "WriteAll f P (efd s) piece v = Some (b, w')"
        "b \<longrightarrow> dev w' = put ?off piece (dev w)" using v by auto
      moreover have "store (map (ext_addr (block_size s) ?e) [?b..<?b + length piece]) piece (dev w)
          = put ?off piece (dev w)"
      proof -
        have "ext_addr (block_size s) ?e = (\<lambda>i. Some (unat (start_block ?e) * block_size s + i))"
          using False by (simp add: ext_addr_def fun_eq_iff)
        then show ?thesis
          by (simp only: store_run)
      qed
      ultimately show ?thesis
        using slice False r seek offset_word[OF e(1) False e(2)] by (simp add: dew_put_def)
    qed
  qed
qed

text \<open>What a successful write of \<open>bytes\<close> from state \<open>(s, w)\<close> to \<open>(t, v)\<close> does.\<close>

definition stored ::
    "('w \<Rightarrow> nat \<Rightarrow> byte) \<Rightarrow> byte list \<Rightarrow> extent_writer \<times> 'w \<Rightarrow> extent_writer \<times> 'w \<Rightarrow> bool" where
  "stored dev bytes sw tv \<longleftrightarrow>
     writer_inv (fst tv) \<and> same_target (fst sw) (fst tv)
     \<and> stream_pos (fst tv) = stream_pos (fst sw) + length bytes
     \<and> dev (snd tv) = store (take (length bytes)
          (drop (stream_pos (fst sw)) (addrs (block_size (fst sw)) (extents (fst sw))))) bytes (dev (snd sw))"

lemma stored_Nil: "writer_inv s \<Longrightarrow> stored dev [] (s, w) (s, w)"
  by (simp add: stored_def same_target_def)

lemma stream_pos_le:
  assumes "writer_inv s"
  shows "stream_pos s \<le> length (addrs (block_size s) (extents s))"
proof (cases "next_extent_index s < length (extents s)")
  case True
  note e = writer_inv_current[OF assms True]
  have "map (ext_len (block_size s)) (extents s) =
      map (ext_len (block_size s)) (take (next_extent_index s) (extents s))
      @ ext_len (block_size s) (extents s ! next_extent_index s)
      # map (ext_len (block_size s)) (drop (Suc (next_extent_index s)) (extents s))"
    using id_take_nth_drop[OF True] by (metis list.simps(9) map_append)
  with e(2) show ?thesis unfolding stream_pos_def length_addrs by simp
next
  case False
  with assms have "next_extent_index s = length (extents s)" "extent_bytes_written s = 0"
    by (auto simp: writer_inv_def)
  then show ?thesis by (simp add: stream_pos_def length_addrs)
qed

lemma stored_append:
  assumes "stored dev xs sw tv" "stored dev ys tv uw"
    and room: "stream_pos (fst sw) + length xs \<le> length (addrs (block_size (fst sw)) (extents (fst sw)))"
  shows "stored dev (xs @ ys) sw uw"
proof -
  let ?A = "drop (stream_pos (fst sw)) (addrs (block_size (fst sw)) (extents (fst sw)))"
  have "take (length (xs @ ys)) ?A = take (length xs) ?A @ take (length ys) (drop (length xs) ?A)"
    by (simp add: take_add)
  moreover have "length (take (length xs) ?A) = length xs" using room by simp
  ultimately have "store (take (length (xs @ ys)) ?A) (xs @ ys) (dev (snd sw)) =
      store (take (length ys) (drop (length xs) ?A)) ys (store (take (length xs) ?A) xs (dev (snd sw)))"
    by (simp add: store_append)
  with assms(1,2) show ?thesis by (simp add: stored_def same_target_def add.commute)
qed

lemma stored_room:
  assumes "stored dev bytes (s, w) (t, v)"
  shows "stream_pos s + length bytes \<le> length (addrs (block_size s) (extents s))"
  using assms stream_pos_le[of t] by (simp add: stored_def same_target_def)

lemma dew_write_loop_spec:
  assumes "writer_inv s" "disk_ok P (efd s) pos dev" "length bytes < f" "length bytes < 2 ^ 31"
  shows "\<exists>ok t v. dew_write_loop f P bytes (s, w) = Some (ok, t, v)
    \<and> (ok \<longrightarrow> stored dev bytes (s, w) (t, v))"
  using assms
proof (induction bytes arbitrary: s w rule: length_induct)
  case (1 bytes)
  note inv = "1.prems"(1)
  show ?case
  proof (cases "bytes = [] \<or> \<not> next_extent_index s < length (extents s)")
    case True
    with inv show ?thesis by (auto simp: dew_write_loop.simps[of f P bytes s w] stored_Nil)
  next
    case False
    then have i: "next_extent_index s < length (extents s)" and ne: "0 < length bytes" by auto
    define e where "e = extents s ! next_extent_index s"
    define n where "n = min (length bytes) (ext_len (block_size s) e - unat (extent_bytes_written s))"
    let ?rem = "num_blocks e * of_nat (block_size s) - extent_bytes_written s"
    note n' = n_def[unfolded e_def]
    note w = round_words[OF writer_inv_current[OF inv i] ne "1.prems"(4) n', folded e_def]
    note adv = dew_advance_eq[OF inv i ne "1.prems"(4) n', folded e_def]
    note props = advanced_props[OF inv i ne "1.prems"(4) n']
    have "\<exists>ok w'. dew_put f P s e (take n bytes) w = Some (ok, w')
        \<and> (ok \<longrightarrow> dev w' = store (take (length (take n bytes)) (drop (stream_pos s)
              (addrs (block_size s) (extents s)))) (take n bytes) (dev w))"
      unfolding e_def by (rule dew_put_spec[OF inv i "1.prems"(2)]) (use "1.prems"(3,4) n' in auto)
    then obtain ok v where put: "dew_put f P s e (take n bytes) w = Some (ok, v)"
      "ok \<Longrightarrow> dev v = store (take (length (take n bytes)) (drop (stream_pos s)
              (addrs (block_size s) (extents s)))) (take n bytes) (dev w)" by auto
    have step: "dew_write_loop f P bytes (s, w) =
        (if \<not> ok then Some (False, s, v) else dew_write_loop f P (drop n bytes) (advanced s n, v))"
      using i ne w(1-3) put(1) adv
      by (simp add: dew_write_loop.simps[of f P bytes s w] Let_def flip: e_def)
    show ?thesis
    proof (cases ok)
      case False
      with step show ?thesis by auto
    next
      case ok: True
      have tgt: "efd (advanced s n) = efd s" using props(3) by (simp add: same_target_def)
      from "1.IH"[rule_format, of "drop n bytes" "advanced s n" v] props(1) "1.prems"(2-4) w(3) ne tgt
      obtain ok' t u where IH: "dew_write_loop f P (drop n bytes) (advanced s n, v) = Some (ok', t, u)"
        "ok' \<longrightarrow> stored dev (drop n bytes) (advanced s n, v) (t, u)"
        by (auto simp: less_imp_diff_less)
      have "stored dev (take n bytes) (s, w) (advanced s n, v)"
        using props put(2)[OF ok] n' by (simp add: stored_def)
      then have "stored dev bytes (s, w) (t, u)" if "ok'"
        using IH(2) that stored_append[of dev "take n bytes" "(s, w)" "(advanced s n, v)" "drop n bytes" "(t, u)"]
          stored_room by fastforce
      with step ok IH(1) show ?thesis by auto
    qed
  qed
qed

text \<open>
  C6: \<open>DirectExtentWriter::Write\<close> refines the address list of its extents. From a
  consistent state, on a disk that behaves as documented, a call returns; when it returns
  true, byte \<open>i\<close> of the buffer is at the address that stands at position
  \<open>i\<close> of the extents after what was written before, bytes of sparse holes are
  dropped, nothing else of the disk changes, and the writer's position has advanced by the
  length of the buffer. No \<open>CHECK\<close> fails.
\<close>

theorem DirectExtentWriter_Write_refines:
  assumes "writer_inv s" "disk_ok P (efd s) pos dev" "length bytes < f" "length bytes < 2 ^ 31"
  shows "\<exists>ok t v. DEW_Write f P bytes (s, w) = Some (ok, t, v)
    \<and> (ok \<longrightarrow> writer_inv t \<and> extents t = extents s \<and> stream_pos t = stream_pos s + length bytes
        \<and> dev v = store (take (length bytes) (drop (stream_pos s) (addrs (block_size s) (extents s))))
                    bytes (dev w))"
proof (cases "bytes = []")
  case True
  with assms(1) show ?thesis by (auto simp: DEW_Write_def)
next
  case False
  with dew_write_loop_spec[OF assms, of w] show ?thesis
    by (auto simp: DEW_Write_def stored_def same_target_def)
qed

text \<open>A disk for witnesses: contents and position, three bytes per write.\<close>

definition three_byte_disk :: "(nat \<times> (nat \<Rightarrow> byte)) posix" where
  "three_byte_disk = \<lparr>sys_open = (\<lambda>_ _ _ w. (3, w)),
     sys_write = (\<lambda>d bs w. (int (length (take 3 bs)),
        (fst w + length (take 3 bs), put (fst w) (take 3 bs) (snd w)))),
     sys_read = (\<lambda>_ _ w. ((0, []), w)), sys_lseek = (\<lambda>_ off w. (off, (nat off, snd w))),
     sys_close = (\<lambda>_ w. (0, w))\<rparr>"

lemma three_byte_disk_ok: "disk_ok three_byte_disk d fst snd"
  by (auto simp: disk_ok_def three_byte_disk_def min_def)

definition demo_writer :: extent_writer where
  "demo_writer = \<lparr>efd = 3, block_size = 2, extent_bytes_written = 0,
     extents = [\<lparr>start_block = 5, num_blocks = 2\<rparr>, \<lparr>start_block = kSparseHole, num_blocks = 1\<rparr>,
                \<lparr>start_block = 1, num_blocks = 1\<rparr>],
     next_extent_index = 0, end_called = False\<rparr>"

lemma demo_writer_inv: "writer_inv demo_writer"
  by (simp add: writer_inv_def demo_writer_def extent_ok_def ext_len_def kSparseHole_def)

definition demo_bytes :: "byte list" where
  "demo_bytes = [1, 2, 3, 4, 5, 6, 7]"

theorem DirectExtentWriter_Write_refines_witness:
  "\<exists>t v. DEW_Write 9 three_byte_disk demo_bytes (demo_writer, 0, \<lambda>_. 0) = Some (True, t, v)
     \<and> snd v = (\<lambda>_. 0)(10 := 1, 11 := 2, 12 := 3, 13 := 4, 2 := 7)"
proof -
  have len: "length demo_bytes < 9" "length demo_bytes < 2 ^ 31" by (simp_all add: demo_bytes_def)
  obtain ok t v where r: "DEW_Write 9 three_byte_disk demo_bytes (demo_writer, 0, \<lambda>_. 0) = Some (ok, t, v)"
    "ok \<Longrightarrow> snd v = store (take (length demo_bytes)
       (drop (stream_pos demo_writer) (addrs (block_size demo_writer) (extents demo_writer))))
       demo_bytes (\<lambda>_. 0)"
    using DirectExtentWriter_Write_refines[OF demo_writer_inv three_byte_disk_ok len, of "(0, \<lambda>_. 0)"]
    by auto
  moreover have "map_option fst (DEW_Write 9 three_byte_disk demo_bytes (demo_writer, 0, \<lambda>_. 0))
      = Some True"
    by code_simp
  moreover have "store (take (length demo_bytes)
       (drop (stream_pos demo_writer) (addrs (block_size demo_writer) (extents demo_writer))))
       demo_bytes (\<lambda>_. 0) = (\<lambda>_. 0)(10 := 1, 11 := 2, 12 := 3, 13 := 4, 2 := 7)"
    by (simp add: demo_writer_def stream_pos_def addrs_def ext_addrs_def ext_len_def ext_addr_def
        kSparseHole_def upt_rec demo_bytes_def)
  ultimately show ?thesis by auto
qed

section \<open>The ExtentWriter interface\<close>

text \<open>
  What \<open>ZeroPadExtentWriter\<close> relies on: a call of \<open>Write\<close> that returns true has sent
  exactly its buffer down the stream, and \<open>End\<close> sends nothing. \<open>sent xs s t\<close> says that
  the bytes \<open>xs\<close> went down between two states of the underlying writer.
\<close>

text \<open>Successful writes of the buffers of a list, one after another.\<close>

fun zp_writes ::
    "(byte list \<Rightarrow> 's \<Rightarrow> (bool \<times> 's) option) \<Rightarrow> byte list list \<Rightarrow>
     zero_pad_writer \<times> 's \<Rightarrow> (zero_pad_writer \<times> 's) option" where
  "zp_writes u_write [] zs = Some zs"
| "zp_writes u_write (b # bs) zs =
     (case ZP_Write u_write b zs of Some (True, zs') \<Rightarrow> zp_writes u_write bs zs' | _ \<Rightarrow> None)"

lemma dvd_round_up:
  fixes n B :: nat
  assumes "0 < B"
  shows "B dvd n + (B - n mod B)"
proof -
  have "n + (B - n mod B) = n div B * B + B"
    using mod_less_divisor[OF assms, of n] div_mult_mod_eq[of n B] by linarith
  then show ?thesis by simp
qed

locale extent_sink =
  fixes u_write :: "byte list \<Rightarrow> 's \<Rightarrow> (bool \<times> 's) option"
    and u_end :: "'s \<Rightarrow> (bool \<times> 's) option"
    and sent :: "byte list \<Rightarrow> 's \<Rightarrow> 's \<Rightarrow> bool"
    and good :: "'s \<Rightarrow> bool"
    and fits :: "byte list \<Rightarrow> bool"
  assumes write_sent:
      "good s \<Longrightarrow> fits xs \<Longrightarrow> u_write xs s = Some (True, t) \<Longrightarrow> sent xs s t \<and> good t"
    and end_sent: "good s \<Longrightarrow> u_end s = Some (True, t) \<Longrightarrow> sent [] s t"
    and sent_append: "sent xs s t \<Longrightarrow> sent ys t u \<Longrightarrow> sent (xs @ ys) s u"
    and sent_Nil: "good s \<Longrightarrow> sent [] s s"
begin

lemma ZP_Write_sent:
  assumes "good s" "fits b" "ZP_Write u_write b (z, s) = Some (True, z', s')"
  shows "sent b s s' \<and> good s' \<and> zp_block_size z' = zp_block_size z
    \<and> bytes_written_mod_block_size z' =
        (bytes_written_mod_block_size z + length b) mod zp_block_size z"
  using assms write_sent by (auto simp: ZP_Write_def bind_eq_Some_iff split: if_splits)

lemma zp_writes_sent:
  assumes "good s" "\<forall>b \<in> set bs. fits b" "zp_writes u_write bs (z, s) = Some (z', s')"
    "bytes_written_mod_block_size z = k mod zp_block_size z"
  shows "sent (concat bs) s s' \<and> good s' \<and> zp_block_size z' = zp_block_size z
    \<and> bytes_written_mod_block_size z' = (k + length (concat bs)) mod zp_block_size z"
  using assms
proof (induction bs arbitrary: z s k)
  case Nil
  then show ?case by (simp add: sent_Nil)
next
  case (Cons b bs)
  then obtain z1 s1 where w: "ZP_Write u_write b (z, s) = Some (True, z1, s1)"
    and rest: "zp_writes u_write bs (z1, s1) = Some (z', s')"
    by (auto split: option.splits bool.splits)
  have b: "fits b" using Cons.prems(2) by simp
  note one = ZP_Write_sent[OF Cons.prems(1) b w]
  have "sent (concat bs) s1 s' \<and> good s' \<and> zp_block_size z' = zp_block_size z1
    \<and> bytes_written_mod_block_size z' = (k + length b + length (concat bs)) mod zp_block_size z1"
    by (rule Cons.IH) (use one rest Cons.prems in \<open>auto simp: mod_simps\<close>)
  with one show ?case by (auto simp: add.assoc intro: sent_append)
qed

lemma zp_padded:
  assumes good: "good s" and fit: "\<forall>b \<in> set bs. fits b" "\<And>k. k \<le> B \<Longrightarrow> fits (replicate k 0)"
    and B: "0 < B" and zw: "zp_writes u_write bs (\<lparr>zp_block_size = B, bytes_written_mod_block_size = 0\<rparr>, s) = Some (z, t)"
    and e: "ZP_End u_write u_end (z, t) = Some (True, z', u)"
  shows "\<exists>k. sent (concat bs @ replicate k 0) s u \<and> B dvd (length (concat bs) + k) \<and> k < B"
proof -
  note w = zp_writes_sent[OF good fit(1) zw, of 0]
  let ?m = "length (concat bs) mod B"
  have z: "zp_block_size z = B" "bytes_written_mod_block_size z = ?m" and t: "sent (concat bs) s t" "good t"
    using w by auto
  show ?thesis
  proof (cases "?m = 0")
    case True
    with e z have "u_end t = Some (True, u)" by (auto simp: ZP_End_def bind_eq_Some_iff)
    with t have "sent (concat bs @ []) s u" by (intro sent_append end_sent)
    with True B show ?thesis by (intro exI[of _ 0]) auto
  next
    case False
    with e z obtain v where v: "u_write (replicate (B - ?m) 0) t = Some (True, v)"
      and u: "u_end v = Some (True, u)"
      by (auto simp: ZP_End_def bind_eq_Some_iff split: if_splits)
    from write_sent[OF t(2) fit(2) v] have "sent (replicate (B - ?m) 0) t v" "good v" by auto
    with t u have "sent (concat bs @ replicate (B - ?m) 0 @ []) s u"
      by (intro sent_append end_sent)
    moreover have "B dvd length (concat bs) + (B - ?m)"
      using B by (rule dvd_round_up)
    moreover have "B - ?m < B" using B False by linarith
    ultimately show ?thesis by (intro exI[of _ "B - ?m"]) auto
  qed
qed

end

text \<open>
  \<open>DirectExtentWriter\<close> provides the interface: on a disk that behaves as documented,
  what is sent is what \<open>stored\<close> says.
\<close>

definition dew_sent ::
    "'w posix \<Rightarrow> int \<Rightarrow> ('w \<Rightarrow> nat) \<Rightarrow> ('w \<Rightarrow> nat \<Rightarrow> byte) \<Rightarrow> byte list \<Rightarrow>
     extent_writer \<times> 'w \<Rightarrow> extent_writer \<times> 'w \<Rightarrow> bool" where
  "dew_sent P d pos dev xs sw tv \<longleftrightarrow> (disk_ok P d pos dev \<longrightarrow> stored dev xs sw tv)"

definition dew_good ::
    "'w posix \<Rightarrow> int \<Rightarrow> ('w \<Rightarrow> nat) \<Rightarrow> ('w \<Rightarrow> nat \<Rightarrow> byte) \<Rightarrow> extent_writer \<times> 'w \<Rightarrow> bool" where
  "dew_good P d pos dev sw \<longleftrightarrow>
     (disk_ok P d pos dev \<longrightarrow> writer_inv (fst sw) \<and> efd (fst sw) = d)"

definition dew_fits :: "nat \<Rightarrow> byte list \<Rightarrow> bool" where
  "dew_fits f xs \<longleftrightarrow> length xs < f \<and> length xs < 2 ^ 31"

lemma dew_write_sent:
  assumes good: "dew_good P d pos dev sw" and fits: "dew_fits f xs"
    and wr: "DEW_Write f P xs sw = Some (True, tv)"
  shows "dew_sent P d pos dev xs sw tv \<and> dew_good P d pos dev tv"
proof (cases "disk_ok P d pos dev")
  case False
  then show ?thesis by (simp add: dew_sent_def dew_good_def)
next
  case disk: True
  obtain s w where sw: "sw = (s, w)" by fastforce
  with good disk have inv: "writer_inv s" "efd s = d" by (auto simp: dew_good_def)
  have "stored dev xs sw tv"
  proof (cases "xs = []")
    case True
    with wr inv sw show ?thesis by (auto simp: DEW_Write_def stored_Nil)
  next
    case False
    with dew_write_loop_spec[of s P pos dev xs f w] disk fits wr inv sw show ?thesis
      by (auto simp: DEW_Write_def dew_fits_def)
  qed
  then show ?thesis using inv sw
    by (auto simp: dew_sent_def dew_good_def stored_def same_target_def)
qed

lemma dew_sent_append:
  assumes "dew_sent P d pos dev xs sw tv" "dew_sent P d pos dev ys tv uv"
  shows "dew_sent P d pos dev (xs @ ys) sw uv"
  using assms stored_append[of dev xs sw tv ys uv] stored_room[of dev xs "fst sw" "snd sw" "fst tv" "snd tv"]
  by (auto simp: dew_sent_def)

lemma stored_End: "writer_inv s \<Longrightarrow> stored dev [] (s, w) (s\<lparr>end_called := True\<rparr>, w)"
  by (simp add: stored_def same_target_def writer_inv_def stream_pos_def)

interpretation dew: extent_sink "DEW_Write f P" DEW_End "dew_sent P d pos dev" "dew_good P d pos dev"
    "dew_fits f" for f P d pos dev
proof unfold_locales
  show "dew_sent P d pos dev xs s t \<and> dew_good P d pos dev t"
    if "dew_good P d pos dev s" "dew_fits f xs" "DEW_Write f P xs s = Some (True, t)" for s t xs
    using that by (rule dew_write_sent)
  show "dew_sent P d pos dev [] s t"
    if "dew_good P d pos dev s" "DEW_End s = Some (True, t)" for s t
    using that by (cases s) (auto simp: DEW_End_def dew_sent_def dew_good_def stored_End)
  show "dew_sent P d pos dev (xs @ ys) s u"
    if "dew_sent P d pos dev xs s t" "dew_sent P d pos dev ys t u" for xs ys s t u
    using that by (rule dew_sent_append)
  show "dew_sent P d pos dev [] s s" if "dew_good P d pos dev s" for s
    using that by (cases s) (auto simp: dew_sent_def dew_good_def stored_Nil)
qed

text \<open>
  C16: a \<open>ZeroPadExtentWriter\<close> on top of a \<open>DirectExtentWriter\<close>, once it was
  initialised, given any sequence of buffers and ended with success, has stored the
  concatenation of the buffers followed by zeros, fewer than a block of them, so that the
  number of bytes stored is a multiple of the block size.
\<close>

theorem ZeroPadExtentWriter_pads:
  assumes inv: "writer_inv s" and disk: "disk_ok P (efd s) pos dev"
    and fits: "\<forall>b \<in> set bs. length b < f \<and> length b < 2 ^ 31" and B: "0 < B" "B < f" "B < 2 ^ 31"
    and writes: "zp_writes (DEW_Write f P) bs
        (\<lparr>zp_block_size = B, bytes_written_mod_block_size = 0\<rparr>, s, w) = Some (z, t)"
    and ended: "ZP_End (DEW_Write f P) DEW_End (z, t) = Some (True, z', u)"
  shows "\<exists>k. B dvd length (concat bs) + k \<and> k < B
    \<and> dev (snd u) = store (take (length (concat bs) + k)
          (drop (stream_pos s) (addrs (block_size s) (extents s))))
        (concat bs @ replicate k 0) (dev w)"
proof -
  have "\<exists>k. dew_sent P (efd s) pos dev (concat bs @ replicate k 0) (s, w) u
      \<and> B dvd (length (concat bs) + k) \<and> k < B"
    by (rule dew.zp_padded[OF _ _ _ B(1) writes ended])
       (use inv fits B in \<open>auto simp: dew_good_def dew_fits_def\<close>)
  with disk show ?thesis by (auto simp: dew_sent_def stored_def)
qed

theorem ZeroPadExtentWriter_pads_witness:
  "\<exists>z t z' u.
     zp_writes (DEW_Write 9 three_byte_disk) [[1, 2, 3], [4, 5]]
       (\<lparr>zp_block_size = 4, bytes_written_mod_block_size = 0\<rparr>, demo_writer, 0, \<lambda>_. 0) = Some (z, t)
   \<and> ZP_End (DEW_Write 9 three_byte_disk) DEW_End (z, t) = Some (True, z', u)
   \<and> (\<exists>k. 4 dvd length (concat [[1, 2, 3], [4, 5 :: byte]]) + k \<and> k < 4
       \<and> snd (snd u) = store (take (length (concat [[1, 2, 3], [4, 5 :: byte]]) + k)
            (drop (stream_pos demo_writer) (addrs (block_size demo_writer) (extents demo_writer))))
          (concat [[1, 2, 3], [4, 5]] @ replicate k 0) (\<lambda>_. 0))"
proof -
  let ?zs = "(\<lparr>zp_block_size = 4, bytes_written_mod_block_size = 0\<rparr>, demo_writer, 0 :: nat, \<lambda>_ :: nat. 0 :: byte)"
  let ?run = "zp_writes (DEW_Write 9 three_byte_disk) [[1, 2, 3], [4, 5]] ?zs"
  let ?res = "?run \<bind> (\<lambda>zt. ZP_End (DEW_Write 9 three_byte_disk) DEW_End zt)"
  have "map_option fst ?res = Some True" by code_simp
  then obtain z t z' u where run: "?run = Some (z, t)"
    and e: "ZP_End (DEW_Write 9 three_byte_disk) DEW_End (z, t) = Some (True, z', u)"
    by (auto simp: bind_eq_Some_iff)
  note pads = ZeroPadExtentWriter_pads[OF demo_writer_inv three_byte_disk_ok _ _ _ _ run e]
  show ?thesis
    by (rule exI[of _ z], rule exI[of _ t], rule exI[of _ z'], rule exI[of _ u],
        rule conjI[OF run], rule conjI[OF e], use pads in simp)
qed

section \<open>From blocks to extents\<close>

text \<open>The blocks a list of extents stands for, in order; the arithmetic is that of \<open>uint64\<close>.\<close>

definition blocks_of :: "extent list \<Rightarrow> 64 word list" where
  "blocks_of es =
     concat (map (\<lambda>e. map (\<lambda>i. start_block e + of_nat i) [0..<unat (num_blocks e)]) es)"

text \<open>Two neighbours that one extent would cover.\<close>

fun coalesced :: "extent list \<Rightarrow> bool" where
  "coalesced (e # e' # es) =
     (start_block e + num_blocks e \<noteq> start_block e' \<and> coalesced (e' # es))"
| "coalesced _ = True"

lemma blocks_of_append [simp]: "blocks_of (xs @ ys) = blocks_of xs @ blocks_of ys"
  by (simp add: blocks_of_def)

lemma blocks_of_Nil [simp]: "blocks_of [] = []"
  by (simp add: blocks_of_def)

lemma unat_plus_one: "unat (n :: 64 word) < 2 ^ 64 - 1 \<Longrightarrow> unat (n + 1) = unat n + 1"
  by (simp add: unat_word_ariths)

lemma blocks_of_AppendBlockToExtents:
  assumes "es \<noteq> [] \<longrightarrow> unat (num_blocks (last es)) < 2 ^ 64 - 1"
  shows "blocks_of (AppendBlockToExtents es b) = blocks_of es @ [b]"
proof (cases "es \<noteq> [] \<and> start_block (last es) + num_blocks (last es) = b")
  case True
  then obtain xs e where es: "es = xs @ [e]" by (cases es rule: rev_cases) auto
  with assms have "unat (num_blocks e + 1) = unat (num_blocks e) + 1"
    by (intro unat_plus_one) simp
  with True es show ?thesis
    by (auto simp: AppendBlockToExtents_def blocks_of_def)
next
  case False
  then show ?thesis by (auto simp: AppendBlockToExtents_def blocks_of_def)
qed

lemma AppendBlockToExtents_keeps_prefix:
  "es \<noteq> [] \<Longrightarrow> AppendBlockToExtents (out @ es) b = out @ AppendBlockToExtents es b"
  by (simp add: AppendBlockToExtents_def butlast_append)

lemma AppendBlockToExtents_nonempty [simp]: "AppendBlockToExtents es b \<noteq> []"
  by (simp add: AppendBlockToExtents_def)

lemma coalesced_snoc:
  "coalesced (es @ [e]) \<longleftrightarrow>
     coalesced es \<and> (es \<noteq> [] \<longrightarrow> start_block (last es) + num_blocks (last es) \<noteq> start_block e)"
proof (induction es)
  case (Cons a es)
  then show ?case by (cases es) auto
qed simp

lemma coalesced_AppendBlockToExtents:
  "coalesced es \<Longrightarrow> coalesced (AppendBlockToExtents es b)"
proof (cases es rule: rev_cases)
  case (snoc xs e)
  assume "coalesced es"
  with snoc have "coalesced (xs @ [e\<lparr>num_blocks := num_blocks e + 1\<rparr>])"
    "start_block e + num_blocks e \<noteq> b \<Longrightarrow> coalesced (es @ [\<lparr>start_block = b, num_blocks = 1\<rparr>])"
    by (simp_all only: coalesced_snoc last_snoc) simp_all
  with snoc show ?thesis by (simp add: AppendBlockToExtents_def)
qed (simp add: AppendBlockToExtents_def)

lemma AppendBlockToExtents_small:
  assumes "\<forall>e \<in> set es. 0 < unat (num_blocks e) \<and> unat (num_blocks e) \<le> n" "n < 2 ^ 64 - 1"
  shows "\<forall>e \<in> set (AppendBlockToExtents es b). 0 < unat (num_blocks e) \<and> unat (num_blocks e) \<le> n + 1"
proof (cases "es = []")
  case True
  then show ?thesis by (simp add: AppendBlockToExtents_def)
next
  case False
  then have "last es \<in> set es" by simp
  with assms have n: "unat (num_blocks (last es)) \<le> n" by blast
  with assms(2) have "unat (num_blocks (last es) + 1) = unat (num_blocks (last es)) + 1"
    by (intro unat_plus_one) linarith
  with n assms(1) show ?thesis
    by (auto simp: AppendBlockToExtents_def dest!: in_set_butlastD)
qed

lemma fold_AppendBlockToExtents:
  assumes "n + length bs < 2 ^ 64"
    and "\<forall>e \<in> set es. 0 < unat (num_blocks e) \<and> unat (num_blocks e) \<le> n" and "coalesced es"
  shows "blocks_of (foldl AppendBlockToExtents es bs) = blocks_of es @ bs
    \<and> coalesced (foldl AppendBlockToExtents es bs)"
  using assms
proof (induction bs arbitrary: es n)
  case Nil
  then show ?case by simp
next
  case (Cons b bs)
  from Cons.prems have n: "n < 2 ^ 64 - 1" by simp
  have "blocks_of (AppendBlockToExtents es b) = blocks_of es @ [b]"
    using Cons.prems(2) n by (intro blocks_of_AppendBlockToExtents) (auto dest!: last_in_set)
  moreover have "blocks_of (foldl AppendBlockToExtents (AppendBlockToExtents es b) bs)
        = blocks_of (AppendBlockToExtents es b) @ bs
      \<and> coalesced (foldl AppendBlockToExtents (AppendBlockToExtents es b) bs)"
    by (rule Cons.IH[of "n + 1"])
       (use Cons.prems n AppendBlockToExtents_small[of es n b] in
         \<open>simp_all add: coalesced_AppendBlockToExtents\<close>)
  ultimately show ?case by simp
qed

lemma foldl_Append_prefix:
  "es \<noteq> [] \<Longrightarrow> foldl AppendBlockToExtents (out @ es) bs = out @ foldl AppendBlockToExtents es bs"
  by (induction bs arbitrary: es) (simp_all add: AppendBlockToExtents_keeps_prefix)

lemma fibmap_loop_current:
  assumes "\<forall>i \<in> set is. fibmap i \<noteq> None" "0 < unat (num_blocks cur)"
    "unat (num_blocks cur) + length is < 2 ^ 64"
  shows "fibmap_loop fibmap is cur out =
    (True, foldl AppendBlockToExtents (out @ [cur]) (map (\<lambda>i. ucast (the (fibmap i))) is))"
  using assms
proof (induction "is" arbitrary: cur out)
  case Nil
  then show ?case by (simp add: word_gt_0 unat_gt_0)
next
  case (Cons i "is")
  then obtain blk where blk: "fibmap i = Some blk" by auto
  have n: "num_blocks cur \<noteq> 0" using Cons.prems(2) by auto
  have u: "unat (num_blocks cur + 1) = unat (num_blocks cur) + 1"
    using Cons.prems(3) by (intro unat_plus_one) simp
  show ?case
    using Cons.prems blk n u
      Cons.IH[of "cur\<lparr>num_blocks := num_blocks cur + 1\<rparr>" out]
      Cons.IH[of "cur\<lparr>start_block := ucast blk, num_blocks := 1\<rparr>" "out @ [cur]"]
    by (cases cur) (auto simp: AppendBlockToExtents_def Let_def)
qed

lemma fibmap_loop_start:
  assumes "\<forall>i \<in> set is. fibmap i \<noteq> None" "length is < 2 ^ 64"
  shows "fibmap_loop fibmap is \<lparr>start_block = 0, num_blocks = 0\<rparr> out =
    (True, out @ foldl AppendBlockToExtents [] (map (\<lambda>i. ucast (the (fibmap i))) is))"
proof (cases "is")
  case Nil
  then show ?thesis by simp
next
  case (Cons i "is'")
  with assms obtain blk where blk: "fibmap i = Some blk" by auto
  have "AppendBlockToExtents [] (ucast blk) = [\<lparr>start_block = ucast blk, num_blocks = 1\<rparr>]"
    by (simp add: AppendBlockToExtents_def)
  with assms Cons blk show ?thesis
    using fibmap_loop_current[of is' fibmap "\<lparr>start_block = ucast blk, num_blocks = 1\<rparr>" out]
    by (simp add: foldl_Append_prefix)
qed

text \<open>
  C20: for a regular file of less than 4 terabytes that can be opened and whose blocks can all be queried,
  \<open>ExtentsForFileFibmap\<close> appends to its output extents that stand for exactly the file's
  blocks in the order of the file, that \<open>AppendBlockToExtents\<close> would build block by block,
  and no two neighbours of which could be one extent.
\<close>

theorem ExtentsForFileFibmap_correct:
  assumes ok: "\<forall>i < (st_size + kBlockSize - 1) div kBlockSize. fibmap i \<noteq> None"
    and small: "st_size < 2 ^ 42"
  defines "blocks \<equiv> map (\<lambda>i. ucast (the (fibmap i)) :: 64 word)
    [0..<(st_size + kBlockSize - 1) div kBlockSize]"
  shows "\<exists>es. ExtentsForFileFibmap (Some True) True (Some st_size) fibmap out = (True, out @ es)
    \<and> blocks_of es = blocks \<and> coalesced es \<and> es = foldl AppendBlockToExtents [] blocks"
proof -
  have count: "(st_size + kBlockSize - 1) div kBlockSize < 2 ^ 31"
    using small by (simp add: kBlockSize_def)
  then have len: "(st_size + kBlockSize - 1) div kBlockSize < 2 ^ 64" by simp
  have "fibmap_loop fibmap [0..<(st_size + kBlockSize - 1) div kBlockSize] \<lparr>start_block = 0, num_blocks = 0\<rparr> out
      = (True, out @ foldl AppendBlockToExtents [] blocks)"
    unfolding blocks_def using ok len by (intro fibmap_loop_start) simp_all
  moreover have "blocks_of (foldl AppendBlockToExtents [] blocks) = blocks
      \<and> coalesced (foldl AppendBlockToExtents [] blocks)"
    using fold_AppendBlockToExtents[of 0 blocks "[]"] len by (simp add: blocks_def)
  ultimately show ?thesis
    by (simp only: ExtentsForFileFibmap_def int_of_size_small[OF count] option.case Let_def) simp
qed

theorem ExtentsForFileFibmap_correct_witness:
  "\<exists>es. ExtentsForFileFibmap (Some True) True (Some 9000) (\<lambda>i. Some (if i < 2 then of_nat i + 7 else 3)) []
      = (True, [] @ es)
    \<and> blocks_of es = [7, 8, 3] \<and> coalesced es"
proof -
  have "(9000 + kBlockSize - 1) div kBlockSize = 3" "[0..<3::nat] = [0, 1, 2]"
    by (simp_all add: kBlockSize_def upt_rec)
  then show ?thesis
    using ExtentsForFileFibmap_correct[of 9000 "\<lambda>i. Some (if i < 2 then of_nat i + 7 else 3)" "[]"]
    by auto
qed

end
