(* ===== verification/UE_Fetch.thy ===== *)
theory UE_Fetch
  imports Prelude
begin

text \<open>
  The HTTP fetchers: the interface \<open>HttpFetcher\<close> (\<open>http_fetcher.h\<close>), the fetcher that
  serves data from memory (\<open>mock_http_fetcher.cc\<close>) and the one on libcurl
  (\<open>libcurl_http_fetcher.cc\<close>).

  A delegate is a pair of functions over the state of the fetcher, which it may pause or
  terminate, and its own state.
\<close>

record http_fetcher =
  hf_url :: string
  hf_post_data_set :: bool
  hf_post_data :: "byte list"
  hf_delegate :: bool

definition SetPostData :: "byte list \<Rightarrow> 'x http_fetcher_scheme \<Rightarrow> 'x http_fetcher_scheme" where
  "SetPostData data f = f\<lparr>hf_post_data_set := True, hf_post_data := data\<rparr>"

definition hf_set_delegate :: "bool \<Rightarrow> 'x http_fetcher_scheme \<Rightarrow> 'x http_fetcher_scheme" where
  "hf_set_delegate b f = f\<lparr>hf_delegate := b\<rparr>"

record ('f, 'd) fetch_delegate =
  ReceivedBytes :: "byte list \<Rightarrow> 'f \<times> 'd \<Rightarrow> ('f \<times> 'd) option"
  TransferComplete :: "bool \<Rightarrow> 'f \<times> 'd \<Rightarrow> ('f \<times> 'd) option"

section \<open>MockHttpFetcher\<close>

definition kMockHttpFetcherChunkSize :: nat where
  "kMockHttpFetcherChunkSize = 65536"

record mock_fetcher = http_fetcher +
  mk_data :: "byte list"
  mk_sent_size :: nat
  mk_timeout_source :: bool
  mk_paused :: bool

definition new_MockHttpFetcher :: "byte list \<Rightarrow> mock_fetcher" where
  "new_MockHttpFetcher data =
     \<lparr>hf_url = [], hf_post_data_set = False, hf_post_data = [], hf_delegate = False,
      mk_data = data, mk_sent_size = 0, mk_timeout_source = False, mk_paused = False\<rparr>"

definition mock_deliver ::
    "(mock_fetcher, 'd) fetch_delegate \<Rightarrow> mock_fetcher \<times> 'd \<Rightarrow> (mock_fetcher \<times> 'd) option" where
  "mock_deliver D fd =
     (case fd of (f, d) \<Rightarrow>
       (let chunk_size = min kMockHttpFetcherChunkSize (length (mk_data f) - mk_sent_size f) in do {
          CHECK (hf_delegate f);
          (f, d) \<leftarrow> ReceivedBytes D (take chunk_size (drop (mk_sent_size f) (mk_data f))) (f, d);
          let f = f\<lparr>mk_sent_size := mk_sent_size f + chunk_size\<rparr>;
          CHECK (mk_sent_size f \<le> length (mk_data f));
          if mk_sent_size f = length (mk_data f) then TransferComplete D True (f, d)
          else Some (f, d) }))"

definition SendData ::
    "(mock_fetcher, 'd) fetch_delegate \<Rightarrow> bool \<Rightarrow> mock_fetcher \<times> 'd \<Rightarrow> (bool \<times> mock_fetcher \<times> 'd) option" where
  "SendData D skip_delivery fd = do {
     CHECK (mk_sent_size (fst fd) < length (mk_data (fst fd)));
     (f, d) \<leftarrow> (if \<not> skip_delivery then mock_deliver D fd else Some fd);
     if mk_paused f then Some (mk_timeout_source f, f, d)
     else if mk_timeout_source f then Some (mk_sent_size f < length (mk_data f), f, d)
     else if mk_sent_size f < length (mk_data f) then Some (True, f\<lparr>mk_timeout_source := True\<rparr>, d)
     else Some (True, f, d) }"

definition mock_BeginTransfer ::
    "(mock_fetcher, 'd) fetch_delegate \<Rightarrow> string \<Rightarrow> mock_fetcher \<times> 'd \<Rightarrow> (mock_fetcher \<times> 'd) option" where
  "mock_BeginTransfer D u fd =
     (if mk_sent_size (fst fd) < length (mk_data (fst fd)) then do {
        (_, fd) \<leftarrow> SendData D True fd;
        Some fd }
      else Some fd)"

definition mock_TimeoutCallback ::
    "(mock_fetcher, 'd) fetch_delegate \<Rightarrow> mock_fetcher \<times> 'd \<Rightarrow> (bool \<times> mock_fetcher \<times> 'd) option" where
  "mock_TimeoutCallback D fd = do {
     CHECK (\<not> mk_paused (fst fd));
     (ret, f, d) \<leftarrow> SendData D False fd;
     Some (ret, if \<not> ret then f\<lparr>mk_timeout_source := False\<rparr> else f, d) }"

definition mock_TerminateTransfer :: "mock_fetcher \<Rightarrow> mock_fetcher" where
  "mock_TerminateTransfer f = f\<lparr>mk_sent_size := length (mk_data f), mk_timeout_source := False\<rparr>"

definition mock_Pause :: "mock_fetcher \<Rightarrow> mock_fetcher option" where
  "mock_Pause f = do {
     CHECK (\<not> mk_paused f);
     Some (f\<lparr>mk_paused := True, mk_timeout_source := False\<rparr>) }"

definition mock_Unpause ::
    "(mock_fetcher, 'd) fetch_delegate \<Rightarrow> mock_fetcher \<times> 'd \<Rightarrow> (mock_fetcher \<times> 'd) option" where
  "mock_Unpause D fd =
     (case fd of (f, d) \<Rightarrow> do {
        CHECK (mk_paused f);
        let f = f\<lparr>mk_paused := False\<rparr>;
        if mk_sent_size f < length (mk_data f) then do {
          (_, fd) \<leftarrow> SendData D False (f, d);
          Some fd }
        else Some (f, d) })"

definition destroy_MockHttpFetcher :: "mock_fetcher \<Rightarrow> unit option" where
  "destroy_MockHttpFetcher f = CHECK (\<not> mk_timeout_source f)"

text \<open>
  The glib main loop calls \<open>TimeoutCallback\<close> as long as its source is attached. The loop
  drops a source whose callback returns false.
\<close>

fun mock_mainloop ::
    "nat \<Rightarrow> (mock_fetcher, 'd) fetch_delegate \<Rightarrow> mock_fetcher \<times> 'd \<Rightarrow> (mock_fetcher \<times> 'd) option" where
  "mock_mainloop 0 D fd = None"
| "mock_mainloop (Suc n) D fd =
     (if mk_timeout_source (fst fd) then do {
        (ret, fd) \<leftarrow> mock_TimeoutCallback D fd;
        mock_mainloop n D fd }
      else Some fd)"

subsection \<open>What a transfer delivers\<close>

text \<open>
  The contract of a delegate that takes the bytes as they come: in a state that is
  \<open>ready\<close>, \<open>ReceivedBytes\<close> appends them to its \<open>log\<close>, and \<open>TransferComplete\<close>
  records in \<open>outcomes\<close> whether the transfer succeeded and the delegate accepts what it
  got; neither touches the fetcher.
\<close>

locale byte_client =
  fixes D :: "('f, 'd) fetch_delegate" and ready :: "'d \<Rightarrow> bool" and log :: "'d \<Rightarrow> byte list"
    and outcomes :: "'d \<Rightarrow> bool list" and accepts :: "'d \<Rightarrow> byte list \<Rightarrow> bool"
  assumes received: "ready d \<Longrightarrow> length xs < 2 ^ 31 \<Longrightarrow>
      \<exists>d'. ReceivedBytes D xs (f, d) = Some (f, d') \<and> ready d' \<and> log d' = log d @ xs
        \<and> outcomes d' = outcomes d \<and> accepts d' = accepts d"
    and completed: "ready d \<Longrightarrow>
      \<exists>d'. TransferComplete D ok (f, d) = Some (f, d') \<and> log d' = log d
        \<and> outcomes d' = outcomes d @ [ok \<and> accepts d (log d)]"

locale mock_client = byte_client D ready log outcomes accepts
  for D :: "(mock_fetcher, 'd) fetch_delegate" and ready log outcomes accepts
begin

lemma deliver_more:
  assumes "ready d" "hf_delegate f" "mk_sent_size f + kMockHttpFetcherChunkSize < length (mk_data f)"
  shows "\<exists>d'. mock_deliver D (f, d) =
      Some (f\<lparr>mk_sent_size := mk_sent_size f + kMockHttpFetcherChunkSize\<rparr>, d')
    \<and> ready d' \<and> log d' = log d @ take kMockHttpFetcherChunkSize (drop (mk_sent_size f) (mk_data f))
    \<and> outcomes d' = outcomes d \<and> accepts d' = accepts d"
proof -
  let ?xs = "take kMockHttpFetcherChunkSize (drop (mk_sent_size f) (mk_data f))"
  have "min kMockHttpFetcherChunkSize (length (mk_data f) - mk_sent_size f) = kMockHttpFetcherChunkSize"
    using assms(3) by simp
  moreover have "length ?xs < 2 ^ 31" by (simp add: kMockHttpFetcherChunkSize_def)
  from received[OF assms(1) this, of f] obtain d' where
    "ReceivedBytes D ?xs (f, d) = Some (f, d')" "ready d'" "log d' = log d @ ?xs" "outcomes d' = outcomes d"
    "accepts d' = accepts d" by blast
  ultimately show ?thesis using assms(2,3) by (simp add: mock_deliver_def)
qed

lemma deliver_last:
  assumes "ready d" "hf_delegate f" "mk_sent_size f \<le> length (mk_data f)"
    "length (mk_data f) \<le> mk_sent_size f + kMockHttpFetcherChunkSize"
  shows "\<exists>d'. mock_deliver D (f, d) = Some (f\<lparr>mk_sent_size := length (mk_data f)\<rparr>, d')
    \<and> log d' = log d @ drop (mk_sent_size f) (mk_data f) \<and> outcomes d' = outcomes d @ [accepts d (log d')]"
proof -
  have len: "min kMockHttpFetcherChunkSize (length (mk_data f) - mk_sent_size f) = length (mk_data f) - mk_sent_size f"
    using assms(4) by simp
  have "length (drop (mk_sent_size f) (mk_data f)) < 2 ^ 31"
    using assms(4) by (simp add: kMockHttpFetcherChunkSize_def)
  from received[OF assms(1) this, of f] obtain d1 where
    d1: "ReceivedBytes D (drop (mk_sent_size f) (mk_data f)) (f, d) = Some (f, d1)" "ready d1"
      "log d1 = log d @ drop (mk_sent_size f) (mk_data f)" "outcomes d1 = outcomes d" "accepts d1 = accepts d" by blast
  from completed[OF d1(2), of True "f\<lparr>mk_sent_size := length (mk_data f)\<rparr>"] obtain d' where
    "TransferComplete D True (f\<lparr>mk_sent_size := length (mk_data f)\<rparr>, d1)
        = Some (f\<lparr>mk_sent_size := length (mk_data f)\<rparr>, d')"
    "log d' = log d1" "outcomes d' = outcomes d1 @ [True \<and> accepts d1 (log d1)]" by blast
  with d1 assms(2,3) len show ?thesis by (auto simp: mock_deliver_def Let_def)
qed

lemma mainloop_delivers:
  assumes "ready d" "hf_delegate f" "\<not> mk_paused f" "mk_timeout_source f" "mk_sent_size f < length (mk_data f)"
    "length (mk_data f) - mk_sent_size f < n"
  shows "\<exists>f' d'. mock_mainloop (Suc n) D (f, d) = Some (f', d') \<and> \<not> mk_timeout_source f'
    \<and> log d' = log d @ drop (mk_sent_size f) (mk_data f) \<and> outcomes d' = outcomes d @ [accepts d (log d')]"
  using assms
proof (induction n arbitrary: f d)
  case (Suc n)
  show ?case
  proof (cases "mk_sent_size f + kMockHttpFetcherChunkSize < length (mk_data f)")
    case True
    let ?f = "f\<lparr>mk_sent_size := mk_sent_size f + kMockHttpFetcherChunkSize\<rparr>"
    from deliver_more[OF Suc.prems(1,2) True] obtain d1 where
      d1: "mock_deliver D (f, d) = Some (?f, d1)" "ready d1" "outcomes d1 = outcomes d" "accepts d1 = accepts d"
        "log d1 = log d @ take kMockHttpFetcherChunkSize (drop (mk_sent_size f) (mk_data f))" by blast
    have step: "mock_mainloop (Suc (Suc n)) D (f, d) = mock_mainloop (Suc n) D (?f, d1)"
      using Suc.prems True d1 by (simp add: mock_TimeoutCallback_def SendData_def)
    from True Suc.prems(6) have fuel: "length (mk_data ?f) - mk_sent_size ?f < n"
      by (simp add: kMockHttpFetcherChunkSize_def)
    have drop: "take kMockHttpFetcherChunkSize (drop (mk_sent_size f) (mk_data f))
        @ drop (mk_sent_size ?f) (mk_data ?f) = drop (mk_sent_size f) (mk_data f)"
      by (simp, metis add.commute append_take_drop_id drop_drop)
    have "\<exists>f' d'. mock_mainloop (Suc n) D (?f, d1) = Some (f', d') \<and> \<not> mk_timeout_source f'
      \<and> log d' = log d1 @ drop (mk_sent_size ?f) (mk_data ?f) \<and> outcomes d' = outcomes d1 @ [accepts d1 (log d')]"
      by (rule Suc.IH) (use Suc.prems True d1 fuel in simp_all)
    then show ?thesis unfolding step d1(3,4,5) append.assoc drop .
  next
    case False
    with deliver_last[OF Suc.prems(1,2)] Suc.prems(5) obtain d1 where
      "mock_deliver D (f, d) = Some (f\<lparr>mk_sent_size := length (mk_data f)\<rparr>, d1)"
      "log d1 = log d @ drop (mk_sent_size f) (mk_data f)" "outcomes d1 = outcomes d @ [accepts d (log d1)]" by auto
    with Suc.prems show ?thesis by (simp add: mock_TimeoutCallback_def SendData_def)
  qed
qed simp

lemma transfer_delivers:
  assumes "ready d" "data \<noteq> []" "length data < n"
  shows "\<exists>f' d'. do { fd \<leftarrow> mock_BeginTransfer D u (hf_set_delegate True (new_MockHttpFetcher data), d);
      mock_mainloop (Suc n) D fd } = Some (f', d')
    \<and> \<not> mk_timeout_source f' \<and> log d' = log d @ data \<and> outcomes d' = outcomes d @ [accepts d (log d')]"
proof -
  let ?f = "(hf_set_delegate True (new_MockHttpFetcher data))\<lparr>mk_timeout_source := True\<rparr>"
  have "mock_BeginTransfer D u (hf_set_delegate True (new_MockHttpFetcher data), d) = Some (?f, d)"
    using assms(2) by (simp add: mock_BeginTransfer_def SendData_def new_MockHttpFetcher_def hf_set_delegate_def)
  moreover have "\<exists>f' d'. mock_mainloop (Suc n) D (?f, d) = Some (f', d') \<and> \<not> mk_timeout_source f'
    \<and> log d' = log d @ drop (mk_sent_size ?f) (mk_data ?f) \<and> outcomes d' = outcomes d @ [accepts d (log d')]"
    by (rule mainloop_delivers) (use assms in \<open>simp_all add: new_MockHttpFetcher_def hf_set_delegate_def\<close>)
  ultimately show ?thesis by (simp add: new_MockHttpFetcher_def hf_set_delegate_def)
qed

end

section \<open>LibcurlHttpFetcher\<close>

text \<open>
  libcurl and glib are parameters, a record of functions over one state \<open>'w\<close>, which
  also holds the delegate's. \<open>curl_perform\<close> is one call of \<open>curl_multi_perform\<close>: whether
  it asks to be called again, the number of running handles, and the calls of the write
  callback it makes, each with the content length that \<open>curl_easy_getinfo\<close> reports
  there (\<^term>\<open>None\<close> when that fails) and the bytes.
\<close>

datatype curl_opt =
    CURLOPT_POST
  | CURLOPT_POSTFIELDS "byte list"
  | CURLOPT_POSTFIELDSIZE nat
  | CURLOPT_RESUME_FROM_LARGE int
  | CURLOPT_WRITEDATA
  | CURLOPT_WRITEFUNCTION
  | CURLOPT_URL string

record 'w net =
  curl_multi_init :: "'w \<Rightarrow> bool \<times> 'w"
  curl_easy_init :: "'w \<Rightarrow> bool \<times> 'w"
  curl_easy_setopt :: "curl_opt \<Rightarrow> 'w \<Rightarrow> bool \<times> 'w"
  curl_multi_add_handle :: "'w \<Rightarrow> bool \<times> 'w"
  curl_perform :: "'w \<Rightarrow> (bool \<times> nat \<times> (int option \<times> byte list) list) \<times> 'w"
  curl_easy_pause :: "bool \<Rightarrow> 'w \<Rightarrow> bool \<times> 'w"
  curl_multi_fdset :: "'w \<Rightarrow> (bool \<times> int list \<times> int list \<times> int list \<times> int) \<times> 'w"
  curl_multi_timeout :: "'w \<Rightarrow> (bool \<times> int) \<times> 'w"
  curl_multi_remove_handle :: "'w \<Rightarrow> bool \<times> 'w"
  curl_easy_cleanup :: "'w \<Rightarrow> 'w"
  curl_multi_cleanup :: "'w \<Rightarrow> bool \<times> 'w"
  g_io_watch :: "int \<Rightarrow> 'w \<Rightarrow> (nat \<times> nat) \<times> 'w"
  g_io_unwatch :: "nat \<times> nat \<Rightarrow> 'w \<Rightarrow> 'w"
  g_timeout_new :: "int \<Rightarrow> 'w \<Rightarrow> nat option \<times> 'w"
  g_timeout_destroy :: "nat \<Rightarrow> 'w \<Rightarrow> 'w"
  client_received :: "byte list \<Rightarrow> 'w \<Rightarrow> 'w"
  client_complete :: "bool \<Rightarrow> 'w \<Rightarrow> 'w"

text \<open>
  \<open>io_channels\<close>, a \<open>std::map\<close>, is the list of its pairs in the order of their keys.
\<close>

record curl_fetcher = http_fetcher +
  lc_multi_handle :: bool
  lc_handle :: bool
  lc_io_channels :: "(int \<times> nat \<times> nat) list"
  lc_timeout_source :: "nat option"
  lc_transfer_in_progress :: bool
  lc_transfer_size :: int
  lc_bytes_downloaded :: int
  lc_resume_offset :: int
  lc_idle_ms :: int

text \<open>The constructor leaves the three sizes uninitialised: they are its arguments.\<close>

definition new_LibcurlHttpFetcher :: "int \<Rightarrow> int \<Rightarrow> int \<Rightarrow> curl_fetcher" where
  "new_LibcurlHttpFetcher t b r =
     \<lparr>hf_url = [], hf_post_data_set = False, hf_post_data = [], hf_delegate = False,
      lc_multi_handle = False, lc_handle = False, lc_io_channels = [], lc_timeout_source = None,
      lc_transfer_in_progress = False, lc_transfer_size = t, lc_bytes_downloaded = b,
      lc_resume_offset = r, lc_idle_ms = 1000\<rparr>"

definition set_idle_ms :: "int \<Rightarrow> curl_fetcher \<Rightarrow> curl_fetcher" where
  "set_idle_ms ms f = f\<lparr>lc_idle_ms := ms\<rparr>"

text \<open>A call that must succeed: \<open>CHECK_EQ(call, OK)\<close>.\<close>

definition must :: "('w \<Rightarrow> bool \<times> 'w) \<Rightarrow> 'w \<Rightarrow> 'w option" where
  "must call w = (case call w of (ok, w) \<Rightarrow> do { CHECK ok; Some w })"

fun unwatch_all :: "'w net \<Rightarrow> (int \<times> nat \<times> nat) list \<Rightarrow> 'w \<Rightarrow> 'w" where
  "unwatch_all N [] w = w"
| "unwatch_all N ((i, c) # cs) w = unwatch_all N cs (g_io_unwatch N c w)"

definition CleanUp :: "'w net \<Rightarrow> curl_fetcher \<times> 'w \<Rightarrow> (curl_fetcher \<times> 'w) option" where
  "CleanUp N fw =
     (case fw of (f, w) \<Rightarrow>
       (let w = (case lc_timeout_source f of Some t \<Rightarrow> g_timeout_destroy N t w | None \<Rightarrow> w);
            w = unwatch_all N (lc_io_channels f) w in do {
          w \<leftarrow> (if lc_handle f then do {
                  w \<leftarrow> (if lc_multi_handle f then must (curl_multi_remove_handle N) w else Some w);
                  Some (curl_easy_cleanup N w) }
                else Some w);
          w \<leftarrow> (if lc_multi_handle f then must (curl_multi_cleanup N) w else Some w);
          Some (f\<lparr>lc_timeout_source := None, lc_io_channels := [], lc_handle := False,
                  lc_multi_handle := False, lc_transfer_in_progress := False\<rparr>, w) }))"

text \<open>\<open>ResumeTransfer\<close> up to its call of \<open>CurlPerformOnce\<close>.\<close>

definition resume_setup :: "'w net \<Rightarrow> string \<Rightarrow> curl_fetcher \<times> 'w \<Rightarrow> (curl_fetcher \<times> 'w) option" where
  "resume_setup N u fw =
     (case fw of (f, w) \<Rightarrow> do {
        CHECK (\<not> lc_transfer_in_progress f);
        let f = f\<lparr>hf_url := u\<rparr>;
        w \<leftarrow> must (curl_multi_init N) w;
        w \<leftarrow> must (curl_easy_init N) w;
        let f = f\<lparr>lc_multi_handle := True, lc_handle := True\<rparr>;
        w \<leftarrow> (if hf_post_data_set f then do {
                w \<leftarrow> must (curl_easy_setopt N CURLOPT_POST) w;
                w \<leftarrow> must (curl_easy_setopt N (CURLOPT_POSTFIELDS (hf_post_data f))) w;
                must (curl_easy_setopt N (CURLOPT_POSTFIELDSIZE (length (hf_post_data f)))) w }
              else Some w);
        (f, w) \<leftarrow> (if lc_bytes_downloaded f > 0 then do {
                let f = f\<lparr>lc_resume_offset := lc_bytes_downloaded f\<rparr>;
                w \<leftarrow> must (curl_easy_setopt N (CURLOPT_RESUME_FROM_LARGE (lc_bytes_downloaded f))) w;
                Some (f, w) }
              else Some (f, w));
        w \<leftarrow> must (curl_easy_setopt N CURLOPT_WRITEDATA) w;
        w \<leftarrow> must (curl_easy_setopt N CURLOPT_WRITEFUNCTION) w;
        w \<leftarrow> must (curl_easy_setopt N (CURLOPT_URL (hf_url f))) w;
        w \<leftarrow> must (curl_multi_add_handle N) w;
        Some (f\<lparr>lc_transfer_in_progress := True\<rparr>, w) })"

definition LibcurlWrite ::
    "'w net \<Rightarrow> int option \<Rightarrow> byte list \<Rightarrow> curl_fetcher \<times> 'w \<Rightarrow> (curl_fetcher \<times> 'w) option" where
  "LibcurlWrite N content_length bytes fw =
     (case fw of (f, w) \<Rightarrow> do {
        new_transfer_size \<leftarrow> content_length;
        let f = (if new_transfer_size > 0
                 then f\<lparr>lc_transfer_size := lc_resume_offset f + new_transfer_size\<rparr> else f);
        let f = f\<lparr>lc_bytes_downloaded := lc_bytes_downloaded f + int (length bytes)\<rparr>;
        Some (f, if hf_delegate f then client_received N bytes w else w) })"

fun curl_writes ::
    "'w net \<Rightarrow> (int option \<times> byte list) list \<Rightarrow> curl_fetcher \<times> 'w \<Rightarrow> (curl_fetcher \<times> 'w) option" where
  "curl_writes N [] fw = Some fw"
| "curl_writes N ((cl, bytes) # ws) fw = do {
     fw \<leftarrow> LibcurlWrite N cl bytes fw;
     curl_writes N ws fw }"

fun multi_perform_loop ::
    "nat \<Rightarrow> 'w net \<Rightarrow> curl_fetcher \<times> 'w \<Rightarrow> (nat \<times> curl_fetcher \<times> 'w) option" where
  "multi_perform_loop 0 N fw = None"
| "multi_perform_loop (Suc n) N (f, w) =
     (case curl_perform N w of ((again, running, ws), w) \<Rightarrow> do {
        fw \<leftarrow> curl_writes N ws (f, w);
        if again then multi_perform_loop n N fw else Some (running, fw) })"

text \<open>
  The loop of \<open>SetupMainloopSources\<close> over the file descriptors from \<open>0\<close> to
  \<open>fd_max\<close>; \<open>wanted\<close> is membership in one of the three sets.
\<close>

definition io_erase :: "int \<Rightarrow> (int \<times> 'c) list \<Rightarrow> (int \<times> 'c) list" where
  "io_erase i cs = filter (\<lambda>p. fst p \<noteq> i) cs"

definition io_put :: "int \<Rightarrow> 'c \<Rightarrow> (int \<times> 'c) list \<Rightarrow> (int \<times> 'c) list" where
  "io_put i c cs = filter (\<lambda>p. fst p < i) cs @ (i, c) # filter (\<lambda>p. i < fst p) cs"

fun track_fds ::
    "'w net \<Rightarrow> (int \<Rightarrow> bool) \<Rightarrow> int list \<Rightarrow> (int \<times> nat \<times> nat) list \<times> 'w \<Rightarrow> (int \<times> nat \<times> nat) list \<times> 'w" where
  "track_fds N wanted [] cw = cw"
| "track_fds N wanted (i # is) (cs, w) =
     (if \<not> wanted i then
        (case map_of cs i of
           Some c \<Rightarrow> track_fds N wanted is (io_erase i cs, g_io_unwatch N c w)
         | None \<Rightarrow> track_fds N wanted is (cs, w))
      else if map_of cs i \<noteq> None then track_fds N wanted is (cs, w)
      else (case g_io_watch N i w of (c, w) \<Rightarrow> track_fds N wanted is (io_put i c cs, w)))"

definition SetupMainloopSources :: "'w net \<Rightarrow> curl_fetcher \<times> 'w \<Rightarrow> (curl_fetcher \<times> 'w) option" where
  "SetupMainloopSources N fw =
     (case fw of (f, w) \<Rightarrow>
       (case curl_multi_fdset N w of ((ok, rd, wr, ex, fd_max), w) \<Rightarrow> do {
          CHECK ok;
          let cs = lc_io_channels f;
          let fd_max = (if cs \<noteq> [] then max fd_max (fst (last cs)) else fd_max);
          let (cs, w) = track_fds N (\<lambda>i. i \<in> set rd \<or> i \<in> set wr \<or> i \<in> set ex) [0..fd_max] (cs, w);
          let f = f\<lparr>lc_io_channels := cs\<rparr>;
          let ((ok, ms), w) = curl_multi_timeout N w;
          CHECK ok;
          let ms = (if ms < 0 then lc_idle_ms f else ms);
          let w = (case lc_timeout_source f of Some t \<Rightarrow> g_timeout_destroy N t w | None \<Rightarrow> w);
          let (t, w) = g_timeout_new N ms w;
          CHECK (t \<noteq> None);
          Some (f\<lparr>lc_timeout_source := t\<rparr>, w) }))"

fun CurlPerformOnce :: "nat \<Rightarrow> 'w net \<Rightarrow> curl_fetcher \<times> 'w \<Rightarrow> (curl_fetcher \<times> 'w) option" where
  "CurlPerformOnce 0 N fw = None"
| "CurlPerformOnce (Suc n) N fw = do {
     CHECK (lc_transfer_in_progress (fst fw));
     (running_handles, fw) \<leftarrow> multi_perform_loop (Suc n) N fw;
     if running_handles = 0 then do {
       (f, w) \<leftarrow> CleanUp N fw;
       if lc_transfer_size f \<ge> 0 \<and> lc_bytes_downloaded f < lc_transfer_size f then do {
         fw \<leftarrow> resume_setup N (hf_url f) (f, w);
         CurlPerformOnce n N fw }
       else Some (f, if hf_delegate f then client_complete N True w else w) }
     else SetupMainloopSources N fw }"

definition ResumeTransfer :: "nat \<Rightarrow> 'w net \<Rightarrow> string \<Rightarrow> curl_fetcher \<times> 'w \<Rightarrow> (curl_fetcher \<times> 'w) option" where
  "ResumeTransfer n N u fw = do {
     fw \<leftarrow> resume_setup N u fw;
     CurlPerformOnce n N fw }"

definition curl_BeginTransfer :: "nat \<Rightarrow> 'w net \<Rightarrow> string \<Rightarrow> curl_fetcher \<times> 'w \<Rightarrow> (curl_fetcher \<times> 'w) option" where
  "curl_BeginTransfer n N u fw =
     (case fw of (f, w) \<Rightarrow>
       ResumeTransfer n N u (f\<lparr>lc_transfer_size := -1, lc_bytes_downloaded := 0, lc_resume_offset := 0\<rparr>, w))"

definition curl_TerminateTransfer :: "'w net \<Rightarrow> curl_fetcher \<times> 'w \<Rightarrow> (curl_fetcher \<times> 'w) option" where
  "curl_TerminateTransfer N fw = CleanUp N fw"

definition curl_Pause :: "'w net \<Rightarrow> curl_fetcher \<times> 'w \<Rightarrow> (curl_fetcher \<times> 'w) option" where
  "curl_Pause N fw = (case fw of (f, w) \<Rightarrow> do {
     CHECK (lc_handle f);
     CHECK (lc_transfer_in_progress f);
     w \<leftarrow> must (curl_easy_pause N True) w;
     Some (f, w) })"

definition curl_Unpause :: "'w net \<Rightarrow> curl_fetcher \<times> 'w \<Rightarrow> (curl_fetcher \<times> 'w) option" where
  "curl_Unpause N fw = (case fw of (f, w) \<Rightarrow> do {
     CHECK (lc_handle f);
     CHECK (lc_transfer_in_progress f);
     w \<leftarrow> must (curl_easy_pause N False) w;
     Some (f, w) })"

definition FDCallback :: "nat \<Rightarrow> 'w net \<Rightarrow> nat \<Rightarrow> curl_fetcher \<times> 'w \<Rightarrow> (bool \<times> curl_fetcher \<times> 'w) option" where
  "FDCallback n N source fw =
     (case fw of (f, w) \<Rightarrow> do {
        (i, c) \<leftarrow> find (\<lambda>(i, c). fst c = source) (lc_io_channels f);
        let w = g_io_unwatch N c w;
        let f = f\<lparr>lc_io_channels := io_erase i (lc_io_channels f)\<rparr>;
        fw \<leftarrow> CurlPerformOnce n N (f, w);
        Some (False, fw) })"

definition curl_TimeoutCallback :: "nat \<Rightarrow> 'w net \<Rightarrow> curl_fetcher \<times> 'w \<Rightarrow> (bool \<times> curl_fetcher \<times> 'w) option" where
  "curl_TimeoutCallback n N fw =
     (case fw of (f, w) \<Rightarrow> do {
        fw \<leftarrow> CurlPerformOnce n N (f\<lparr>lc_timeout_source := None\<rparr>, w);
        Some (False, fw) })"

subsection \<open>The watched descriptors\<close>

definition io_sorted :: "(int \<times> 'c) list \<Rightarrow> bool" where
  "io_sorted cs \<longleftrightarrow> sorted_wrt (<) (map fst cs)"

lemma io_sorted_filter: "io_sorted cs \<Longrightarrow> io_sorted (filter P cs)"
  by (induction cs) (auto simp: io_sorted_def)

lemma io_sorted_put: "io_sorted cs \<Longrightarrow> io_sorted (io_put i c cs)"
  by (auto simp: io_put_def io_sorted_def sorted_wrt_append sorted_wrt_map intro: sorted_wrt_filter)

lemma keys_put: "map_of cs i = None \<Longrightarrow> fst ` set (io_put i c cs) = insert i (fst ` set cs)"
  by (auto simp: io_put_def map_of_eq_None_iff image_iff)

lemma keys_erase: "fst ` set (io_erase i cs) = fst ` set cs - {i}"
  by (auto simp: io_erase_def)

lemma track_fds_spec:
  assumes "io_sorted cs" "track_fds N wanted is (cs, w) = (cs', w')"
  shows "io_sorted cs' \<and> fst ` set cs' = (fst ` set cs - set is) \<union> {i \<in> set is. wanted i}"
  using assms
proof (induction N wanted "is" "(cs, w)" arbitrary: cs w rule: track_fds.induct)
  case (2 N wanted i "is" cs w)
  show ?case
  proof (cases "wanted i")
    case True
    show ?thesis
    proof (cases "map_of cs i")
      case None
      obtain c w1 where c: "g_io_watch N i w = (c, w1)" by fastforce
      from True None c 2(4)[of c w1] 2(5,6) io_sorted_put[of cs i c] keys_put[OF None, of c] show ?thesis by auto
    next
      case (Some c)
      then have "i \<in> fst ` set cs" by (metis map_of_eq_None_iff option.distinct(1))
      with True Some 2(3,5,6) show ?thesis by auto
    qed
  next
    case False
    then show ?thesis
    proof (cases "map_of cs i")
      case None
      then have "i \<notin> fst ` set cs" by (simp add: map_of_eq_None_iff)
      with False None 2(1,5,6) show ?thesis by auto
    next
      case (Some c)
      with False 2(2)[of c] 2(5,6) keys_erase[of i cs] show ?thesis
        by (auto simp: io_erase_def io_sorted_filter)
    qed
  qed
qed simp

lemma io_sorted_last: "io_sorted cs \<Longrightarrow> i \<in> fst ` set cs \<Longrightarrow> cs \<noteq> [] \<and> i \<le> fst (last cs)"
  by (cases cs rule: rev_cases) (auto simp: io_sorted_def sorted_wrt_append intro: less_imp_le)

text \<open>
  when \<open>SetupMainloopSources\<close> returns, the fetcher watches exactly the
  descriptors libcurl asked for, each once: every channel that libcurl no longer wants is
  dropped and every new one is added, and a timeout is set.
\<close>

theorem SetupMainloopSources_tracks_fds:
  assumes ret: "SetupMainloopSources N (f, w) = Some (f', w')"
    and fds: "curl_multi_fdset N w = ((ok, rd, wr, ex, fd_max), w1)"
    and bound: "\<forall>i \<in> set rd \<union> set wr \<union> set ex. 0 \<le> i \<and> i \<le> fd_max"
    and inv: "io_sorted (lc_io_channels f)" "\<forall>p \<in> set (lc_io_channels f). 0 \<le> fst p"
  shows "io_sorted (lc_io_channels f') \<and> fst ` set (lc_io_channels f') = set rd \<union> set wr \<union> set ex
    \<and> lc_timeout_source f' \<noteq> None"
proof -
  let ?cs = "lc_io_channels f" and ?W = "set rd \<union> set wr \<union> set ex"
  let ?max = "if ?cs \<noteq> [] then max fd_max (fst (last ?cs)) else fd_max"
  let ?wanted = "\<lambda>i. i \<in> set rd \<or> i \<in> set wr \<or> i \<in> set ex"
  obtain cs w2 where t: "track_fds N ?wanted [0..?max] (?cs, w1) = (cs, w2)" by fastforce
  have "lc_io_channels f' = cs \<and> lc_timeout_source f' \<noteq> None"
    using ret fds t by (auto simp: SetupMainloopSources_def Let_def split: prod.splits if_splits)
  moreover have "{i \<in> set [0..?max]. ?wanted i} = ?W" using bound by (auto simp: le_max_iff_disj)
  moreover have "fst ` set ?cs - set [0..?max] = {}"
    using inv io_sorted_last[OF inv(1)] by fastforce
  ultimately show ?thesis using track_fds_spec[OF inv(1) t] by (simp only: Un_empty_left) blast
qed

subsection \<open>Reassembly over several connections\<close>

text \<open>
  What a run can observe of the outside: the bytes the client got, the outcomes it was
  told, the position in the document where the current connection is and where it began.
\<close>

record net_view =
  nv_log :: "byte list"
  nv_outcomes :: "bool list"
  nv_pos :: nat
  nv_base :: nat

text \<open>
  \<open>serves N data view\<close>: every connection serves the document \<open>data\<close> from where it was
  told to resume. \<open>curl_multi_perform\<close> hands on some next part of the document, possibly
  nothing, and may end the connection at any point; the content length is that of the
  connection. The remaining calls do not touch any of this.
\<close>

definition keeps :: "('w \<Rightarrow> net_view) \<Rightarrow> ('w \<Rightarrow> 'a \<times> 'w) \<Rightarrow> bool" where
  "keeps view call \<longleftrightarrow> (\<forall>w. view (snd (call w)) = view w)"

definition serves :: "'w net \<Rightarrow> byte list \<Rightarrow> ('w \<Rightarrow> net_view) \<Rightarrow> bool" where
  "serves N data view \<longleftrightarrow>
     keeps view (curl_multi_init N) \<and> keeps view (curl_multi_add_handle N)
   \<and> (\<forall>b. keeps view (curl_easy_pause N b)) \<and> keeps view (curl_multi_fdset N)
   \<and> keeps view (curl_multi_timeout N) \<and> keeps view (curl_multi_remove_handle N)
   \<and> (\<forall>w. view (curl_easy_cleanup N w) = view w) \<and> keeps view (curl_multi_cleanup N)
   \<and> (\<forall>i. keeps view (g_io_watch N i)) \<and> (\<forall>c w. view (g_io_unwatch N c w) = view w)
   \<and> (\<forall>ms. keeps view (g_timeout_new N ms)) \<and> (\<forall>t w. view (g_timeout_destroy N t w) = view w)
   \<and> (\<forall>w. view (snd (curl_easy_init N w)) = (view w)\<lparr>nv_pos := 0, nv_base := 0\<rparr>)
   \<and> (\<forall>opt w. view (snd (curl_easy_setopt N opt w)) =
        (case opt of CURLOPT_RESUME_FROM_LARGE k \<Rightarrow> (view w)\<lparr>nv_pos := nat k, nv_base := nat k\<rparr> | _ \<Rightarrow> view w))
   \<and> (\<forall>w again running ws w'. curl_perform N w = ((again, running, ws), w') \<longrightarrow>
        view w' = (view w)\<lparr>nv_pos := nv_pos (view w) + length (concat (map snd ws))\<rparr>
        \<and> prefix (concat (map snd ws)) (drop (nv_pos (view w)) data)
        \<and> (\<forall>p \<in> set ws. fst p = None \<or> fst p = Some (int (length data) - int (nv_base (view w)))))
   \<and> (\<forall>xs w. view (client_received N xs w) = (view w)\<lparr>nv_log := nv_log (view w) @ xs\<rparr>)
   \<and> (\<forall>b w. view (client_complete N b w) = (view w)\<lparr>nv_outcomes := nv_outcomes (view w) @ [b]\<rparr>)"

lemma keeps_must: "keeps view call \<Longrightarrow> must call w = Some w' \<Longrightarrow> view w' = view w"
  by (auto simp: keeps_def must_def split: prod.splits if_splits) (metis snd_conv)

lemma must_snd: "must call w = Some w' \<Longrightarrow> w' = snd (call w)"
  by (auto simp: must_def split: prod.splits if_splits)

lemma servesD:
  assumes "serves N data view"
  shows "keeps view (curl_multi_init N)" "keeps view (curl_multi_add_handle N)"
    "keeps view (curl_easy_pause N b)" "keeps view (curl_multi_fdset N)"
    "keeps view (curl_multi_timeout N)" "keeps view (curl_multi_remove_handle N)"
    "view (curl_easy_cleanup N w) = view w" "keeps view (curl_multi_cleanup N)"
    "keeps view (g_io_watch N i)" "view (g_io_unwatch N c w) = view w"
    "keeps view (g_timeout_new N ms)" "view (g_timeout_destroy N t w) = view w"
    "view (snd (curl_easy_init N w)) = (view w)\<lparr>nv_pos := 0, nv_base := 0\<rparr>"
    "view (snd (curl_easy_setopt N opt w)) =
        (case opt of CURLOPT_RESUME_FROM_LARGE k \<Rightarrow> (view w)\<lparr>nv_pos := nat k, nv_base := nat k\<rparr> | _ \<Rightarrow> view w)"
    "view (client_received N xs w) = (view w)\<lparr>nv_log := nv_log (view w) @ xs\<rparr>"
    "view (client_complete N b w) = (view w)\<lparr>nv_outcomes := nv_outcomes (view w) @ [b]\<rparr>"
  using assms unfolding serves_def
  by - (elim conjE, (assumption | (erule allE, assumption) | (erule allE, erule allE, assumption)))+

lemma serves_perform:
  assumes "serves N data view" "curl_perform N w = ((again, running, ws), w')"
  shows "view w' = (view w)\<lparr>nv_pos := nv_pos (view w) + length (concat (map snd ws))\<rparr>"
    "prefix (concat (map snd ws)) (drop (nv_pos (view w)) data)"
    "\<forall>p \<in> set ws. fst p = None \<or> fst p = Some (int (length data) - int (nv_base (view w)))"
  using assms unfolding serves_def by blast+

lemma serves_unwatch_all: "serves N data view \<Longrightarrow> view (unwatch_all N cs w) = view w"
  by (induction N cs w rule: unwatch_all.induct) (auto simp: servesD(10))

lemma serves_track_fds:
  assumes "serves N data view" "track_fds N wanted is (cs, w) = (cs', w')"
  shows "view w' = view w"
  using assms
proof (induction N wanted "is" "(cs, w)" arbitrary: cs w rule: track_fds.induct)
  case (2 N wanted i "is" cs w)
  have "view (snd (g_io_watch N i w)) = view w" "\<And>c. view (g_io_unwatch N c w) = view w"
    using servesD(9)[OF 2(5), of i] servesD(10)[OF 2(5)] by (simp_all add: keeps_def)
  with 2 show ?case by (auto split: if_splits option.splits prod.splits)
qed simp

text \<open>
  The two parts of the invariant of a download: what holds of the counters all along
  (\<open>fetch_core\<close>), and what relates them to an open connection (\<open>fetch_live\<close>).
\<close>

definition fetch_core :: "byte list \<Rightarrow> curl_fetcher \<Rightarrow> net_view \<Rightarrow> bool" where
  "fetch_core data f v \<longleftrightarrow>
     prefix (nv_log v) data \<and> lc_bytes_downloaded f = int (length (nv_log v)) \<and> hf_delegate f
   \<and> (lc_transfer_size f = -1 \<and> nv_log v = [] \<or> lc_transfer_size f = int (length data))
   \<and> 0 \<le> lc_resume_offset f \<and> lc_resume_offset f \<le> lc_bytes_downloaded f"

definition fetch_live :: "byte list \<Rightarrow> curl_fetcher \<Rightarrow> net_view \<Rightarrow> bool" where
  "fetch_live data f v \<longleftrightarrow>
     fetch_core data f v \<and> nv_outcomes v = [] \<and> lc_transfer_in_progress f
   \<and> nv_pos v = length (nv_log v) \<and> int (nv_base v) = lc_resume_offset f"

definition fetch_inv :: "byte list \<Rightarrow> curl_fetcher \<Rightarrow> net_view \<Rightarrow> bool" where
  "fetch_inv data f v \<longleftrightarrow>
     fetch_live data f v
   \<or> fetch_core data f v \<and> \<not> lc_transfer_in_progress f
     \<and> (nv_outcomes v = [] \<or> nv_outcomes v = [True] \<and> (nv_log v = data \<or> nv_log v = []))"

lemma LibcurlWrite_spec:
  assumes srv: "serves N data view" and core: "fetch_core data f (view w)"
    and cl: "cl = None \<or> cl = Some (int (length data) - int (nv_base (view w)))"
    and base: "int (nv_base (view w)) = lc_resume_offset f" and pre: "prefix (nv_log (view w) @ xs) data"
    and run: "LibcurlWrite N cl xs (f, w) = Some (f', w')"
  shows "fetch_core data f' (view w') \<and> view w' = (view w)\<lparr>nv_log := nv_log (view w) @ xs\<rparr>
    \<and> lc_resume_offset f' = lc_resume_offset f \<and> lc_transfer_in_progress f' = lc_transfer_in_progress f"
proof -
  let ?v = "view w"
  from run cl have cl: "cl = Some (int (length data) - int (nv_base ?v))" by (auto simp: LibcurlWrite_def)
  from core have del: "hf_delegate f" by (simp add: fetch_core_def)
  have view: "view (client_received N xs w) = ?v\<lparr>nv_log := nv_log ?v @ xs\<rparr>" using servesD(15)[OF srv] .
  from pre have len: "length (nv_log ?v) + length xs \<le> length data" by (auto dest: prefix_length_le)
  have "xs \<noteq> [] \<Longrightarrow> nv_base ?v < length data"
    using core base len by (cases xs) (auto simp: fetch_core_def)
  then show ?thesis
    using run cl del view core base pre len
    by (auto simp: LibcurlWrite_def Let_def fetch_core_def split: if_splits)
qed

lemma curl_writes_spec:
  assumes srv: "serves N data view"
  shows "fetch_core data f (view w) \<Longrightarrow> \<forall>p \<in> set ws. fst p = None \<or> fst p = Some (int (length data) - int (nv_base (view w)))
    \<Longrightarrow> int (nv_base (view w)) = lc_resume_offset f \<Longrightarrow> prefix (nv_log (view w) @ concat (map snd ws)) data
    \<Longrightarrow> curl_writes N ws (f, w) = Some (f', w')
    \<Longrightarrow> fetch_core data f' (view w') \<and> view w' = (view w)\<lparr>nv_log := nv_log (view w) @ concat (map snd ws)\<rparr>
      \<and> lc_resume_offset f' = lc_resume_offset f \<and> lc_transfer_in_progress f' = lc_transfer_in_progress f"
proof (induction ws arbitrary: f w)
  case (Cons p ws)
  obtain cl xs where p: "p = (cl, xs)" by fastforce
  from Cons.prems(5) p obtain f1 w1 where 1: "LibcurlWrite N cl xs (f, w) = Some (f1, w1)"
    and rest: "curl_writes N ws (f1, w1) = Some (f', w')" by (auto simp: bind_eq_Some_iff)
  have "prefix (nv_log (view w) @ xs) data"
    using Cons.prems(4) p by (auto intro: append_prefixD)
  from LibcurlWrite_spec[OF srv Cons.prems(1) _ Cons.prems(3) this 1] Cons.prems(2) p
  have s: "fetch_core data f1 (view w1)" "view w1 = (view w)\<lparr>nv_log := nv_log (view w) @ xs\<rparr>"
    "lc_resume_offset f1 = lc_resume_offset f" "lc_transfer_in_progress f1 = lc_transfer_in_progress f" by auto
  have "fetch_core data f' (view w') \<and> view w' = (view w1)\<lparr>nv_log := nv_log (view w1) @ concat (map snd ws)\<rparr>
      \<and> lc_resume_offset f' = lc_resume_offset f1 \<and> lc_transfer_in_progress f' = lc_transfer_in_progress f1"
    by (rule Cons.IH[OF s(1) _ _ _ rest]) (use s Cons.prems p in auto)
  with s p show ?case by auto
qed simp

lemma multi_perform_loop_spec:
  assumes srv: "serves N data view"
  shows "fetch_live data f (view w) \<Longrightarrow> multi_perform_loop n N (f, w) = Some (running, f', w')
    \<Longrightarrow> fetch_live data f' (view w')"
proof (induction n arbitrary: f w)
  case (Suc n)
  obtain again r ws w1 where p: "curl_perform N w = ((again, r, ws), w1)" by (metis prod_cases4 prod.collapse)
  note sp = serves_perform[OF srv p]
  from Suc.prems(2) p obtain f2 w2 where wr: "curl_writes N ws (f, w1) = Some (f2, w2)"
    and rest: "(if again then multi_perform_loop n N (f2, w2) else Some (r, f2, w2)) = Some (running, f', w')"
    by (auto simp: bind_eq_Some_iff)
  from Suc.prems(1) have live: "fetch_core data f (view w)" "nv_pos (view w) = length (nv_log (view w))"
    "int (nv_base (view w)) = lc_resume_offset f" "nv_outcomes (view w) = []" "lc_transfer_in_progress f"
    by (simp_all add: fetch_live_def)
  have core: "fetch_core data f (view w1)" using live(1) sp(1) by (simp add: fetch_core_def)
  have "prefix (nv_log (view w)) data" using live(1) by (simp add: fetch_core_def)
  then obtain ds where "data = nv_log (view w) @ ds" by (auto simp: prefix_def)
  then have pre: "prefix (nv_log (view w1) @ concat (map snd ws)) data" using sp(1,2) live(2) by simp
  have "fetch_core data f2 (view w2) \<and> view w2 = (view w1)\<lparr>nv_log := nv_log (view w1) @ concat (map snd ws)\<rparr>
      \<and> lc_resume_offset f2 = lc_resume_offset f \<and> lc_transfer_in_progress f2 = lc_transfer_in_progress f"
    by (rule curl_writes_spec[OF srv core _ _ pre wr]) (use sp live in auto)
  then have "fetch_live data f2 (view w2)" using sp(1) live by (auto simp: fetch_live_def)
  with rest Suc.IH show ?case by (auto split: if_splits)
qed simp

lemma CleanUp_spec:
  assumes srv: "serves N data view" and run: "CleanUp N (f, w) = Some (f', w')"
  shows "view w' = view w" and "f' = f\<lparr>lc_timeout_source := None, lc_io_channels := [], lc_handle := False,
      lc_multi_handle := False, lc_transfer_in_progress := False\<rparr>"
proof -
  note k = servesD[OF srv]
  have t: "view (case lc_timeout_source f of Some t \<Rightarrow> g_timeout_destroy N t w | None \<Rightarrow> w) = view w"
    by (simp add: k(12) split: option.split)
  show "view w' = view w"
    using run t keeps_must[OF k(6)] keeps_must[OF k(8)] k(7) serves_unwatch_all[OF srv]
    by (auto simp: CleanUp_def Let_def bind_eq_Some_iff split: if_splits)
  show "f' = f\<lparr>lc_timeout_source := None, lc_io_channels := [], lc_handle := False,
      lc_multi_handle := False, lc_transfer_in_progress := False\<rparr>"
    using run by (auto simp: CleanUp_def Let_def bind_eq_Some_iff)
qed

lemma setopt_view:
  assumes "serves N data view" "must (curl_easy_setopt N opt) w = Some w'"
  shows "view w' = (case opt of CURLOPT_RESUME_FROM_LARGE k \<Rightarrow> (view w)\<lparr>nv_pos := nat k, nv_base := nat k\<rparr> | _ \<Rightarrow> view w)"
  using servesD(14)[OF assms(1)] must_snd[OF assms(2)] by simp

lemma easy_init_view:
  assumes "serves N data view" "must (curl_easy_init N) w = Some w'"
  shows "view w' = (view w)\<lparr>nv_pos := 0, nv_base := 0\<rparr>"
  using servesD(13)[OF assms(1)] must_snd[OF assms(2)] by simp

lemma resume_setup_spec:
  assumes srv: "serves N data view" and core: "fetch_core data f (view w)" and out: "nv_outcomes (view w) = []"
    and run: "resume_setup N u (f, w) = Some (f', w')"
  shows "fetch_live data f' (view w')"
proof -
  note k = servesD[OF srv]
  have off: "lc_bytes_downloaded f \<le> 0 \<Longrightarrow> lc_resume_offset f = 0 \<and> nv_log (view w) = []"
    using core by (auto simp: fetch_core_def)
  show ?thesis
  proof (cases "lc_bytes_downloaded f > 0")
    case True
    with run core out show ?thesis
      by (auto simp: resume_setup_def Let_def bind_eq_Some_iff fetch_live_def fetch_core_def split: if_splits
          dest!: setopt_view[OF srv] easy_init_view[OF srv] keeps_must[OF k(1)] keeps_must[OF k(2)])
  next
    case False
    with run core out off show ?thesis
      by (auto simp: resume_setup_def Let_def bind_eq_Some_iff fetch_live_def fetch_core_def split: if_splits
          dest!: setopt_view[OF srv] easy_init_view[OF srv] keeps_must[OF k(1)] keeps_must[OF k(2)])
  qed
qed

lemma SetupMainloopSources_spec:
  assumes srv: "serves N data view" and run: "SetupMainloopSources N (f, w) = Some (f', w')"
  shows "view w' = view w" and "\<exists>cs t. f' = f\<lparr>lc_io_channels := cs, lc_timeout_source := t\<rparr>"
proof -
  note k = servesD[OF srv]
  obtain ok rd wr ex fd_max w1 where a: "curl_multi_fdset N w = ((ok, rd, wr, ex, fd_max), w1)"
    by (metis prod.collapse)
  let ?max = "if lc_io_channels f \<noteq> [] then max fd_max (fst (last (lc_io_channels f))) else fd_max"
  obtain cs w2 where b: "track_fds N (\<lambda>i. i \<in> set rd \<or> i \<in> set wr \<or> i \<in> set ex) [0..?max] (lc_io_channels f, w1) = (cs, w2)"
    by fastforce
  obtain ok2 ms w3 where c: "curl_multi_timeout N w2 = ((ok2, ms), w3)" by (metis prod.collapse)
  let ?ms = "if ms < 0 then lc_idle_ms f else ms"
  let ?w4 = "case lc_timeout_source f of Some t \<Rightarrow> g_timeout_destroy N t w3 | None \<Rightarrow> w3"
  obtain t w5 where d: "g_timeout_new N ?ms ?w4 = (t, w5)" by fastforce
  have r: "w' = w5 \<and> f' = f\<lparr>lc_io_channels := cs, lc_timeout_source := t\<rparr>"
    using run a b c d by (auto simp: SetupMainloopSources_def Let_def split: if_splits)
  have "view w1 = view w" using k(4) a by (metis keeps_def snd_conv)
  moreover have "view w2 = view w1" using serves_track_fds[OF srv b] .
  moreover have "view w3 = view w2" using k(5) c by (metis keeps_def snd_conv)
  moreover have "view ?w4 = view w3" by (simp add: k(12) split: option.split)
  moreover have "view w5 = view ?w4" using k(11) d by (metis keeps_def snd_conv)
  ultimately show "view w' = view w" using r by simp
  from r show "\<exists>cs t. f' = f\<lparr>lc_io_channels := cs, lc_timeout_source := t\<rparr>" by blast
qed

lemma CurlPerformOnce_spec:
  assumes srv: "serves N data view"
  shows "fetch_live data f (view w) \<Longrightarrow> CurlPerformOnce n N (f, w) = Some (f', w') \<Longrightarrow> fetch_inv data f' (view w')"
proof (induction n arbitrary: f w)
  case (Suc n)
  from Suc.prems(2) obtain running f1 w1 where m: "multi_perform_loop (Suc n) N (f, w) = Some (running, f1, w1)"
    by (auto simp: bind_eq_Some_iff simp del: multi_perform_loop.simps split: if_splits)
  note live = multi_perform_loop_spec[OF srv Suc.prems(1) m]
  show ?case
  proof (cases "running = 0")
    case False
    with Suc.prems(2) m have "SetupMainloopSources N (f1, w1) = Some (f', w')"
      by (auto simp del: multi_perform_loop.simps split: if_splits)
    from SetupMainloopSources_spec[OF srv this] live show ?thesis
      by (auto simp: fetch_inv_def fetch_live_def fetch_core_def)
  next
    case True
    with Suc.prems(2) m obtain f2 w2 where c: "CleanUp N (f1, w1) = Some (f2, w2)"
      by (auto simp: bind_eq_Some_iff simp del: multi_perform_loop.simps split: if_splits)
    note cu = CleanUp_spec[OF srv c]
    have core: "fetch_core data f2 (view w2)" "nv_outcomes (view w2) = []" "\<not> lc_transfer_in_progress f2"
      using live cu by (auto simp: fetch_live_def fetch_core_def)
    show ?thesis
    proof (cases "lc_transfer_size f2 \<ge> 0 \<and> lc_bytes_downloaded f2 < lc_transfer_size f2")
      case more: True
      with True Suc.prems(2) m c obtain f3 w3 where "resume_setup N (hf_url f2) (f2, w2) = Some (f3, w3)"
        "CurlPerformOnce n N (f3, w3) = Some (f', w')"
        by (auto simp: bind_eq_Some_iff simp del: multi_perform_loop.simps split: if_splits)
      with Suc.IH resume_setup_spec[OF srv core(1,2)] show ?thesis by blast
    next
      case over: False
      have del: "hf_delegate f2" using core by (simp add: fetch_core_def)
      with True over Suc.prems(2) m c have r: "f' = f2" "w' = client_complete N True w2"
        by (auto simp del: multi_perform_loop.simps split: if_splits)
      have "nv_log (view w2) = data \<or> nv_log (view w2) = []"
        using over core(1) by (auto simp: fetch_core_def prefix_def)
      with r core servesD(16)[OF srv] show ?thesis
        by (auto simp: fetch_inv_def fetch_core_def)
    qed
  qed
qed simp

text \<open>
  The life of a transfer: it is begun on a fetcher that has a delegate and is not
  transferring, and from then on the main loop calls back and the owner pauses, resumes
  and terminates it.
\<close>

definition fetch_begun :: "'w net \<Rightarrow> ('w \<Rightarrow> net_view) \<Rightarrow> curl_fetcher \<times> 'w \<Rightarrow> bool" where
  "fetch_begun N view fw \<longleftrightarrow>
     (\<exists>n u f w. curl_BeginTransfer n N u (f, w) = Some fw \<and> hf_delegate f
        \<and> nv_log (view w) = [] \<and> nv_outcomes (view w) = [])"

inductive fetch_step :: "'w net \<Rightarrow> curl_fetcher \<times> 'w \<Rightarrow> curl_fetcher \<times> 'w \<Rightarrow> bool" for N where
  fs_fd: "FDCallback n N source fw = Some (b, fw') \<Longrightarrow> fetch_step N fw fw'"
| fs_timeout: "curl_TimeoutCallback n N fw = Some (b, fw') \<Longrightarrow> fetch_step N fw fw'"
| fs_pause: "curl_Pause N fw = Some fw' \<Longrightarrow> fetch_step N fw fw'"
| fs_unpause: "curl_Unpause N fw = Some fw' \<Longrightarrow> fetch_step N fw fw'"
| fs_terminate: "curl_TerminateTransfer N fw = Some fw' \<Longrightarrow> fetch_step N fw fw'"

definition fetch_ok :: "'w net \<Rightarrow> byte list \<Rightarrow> ('w \<Rightarrow> net_view) \<Rightarrow> curl_fetcher \<times> 'w \<Rightarrow> bool" where
  "fetch_ok N data view fw \<longleftrightarrow> (serves N data view \<longrightarrow> fetch_inv data (fst fw) (view (snd fw)))"

lemma CurlPerformOnce_in_progress:
  "CurlPerformOnce n N fw = Some fw' \<Longrightarrow> lc_transfer_in_progress (fst fw)"
  by (cases n) (auto split: if_splits)

lemma fetch_begun_ok: "fetch_begun N view fw \<Longrightarrow> fetch_ok N data view fw"
  unfolding fetch_ok_def
proof
  assume "fetch_begun N view fw" and srv: "serves N data view"
  then obtain n u f w where run: "curl_BeginTransfer n N u (f, w) = Some fw" and f: "hf_delegate f"
    and w: "nv_log (view w) = []" "nv_outcomes (view w) = []" by (auto simp: fetch_begun_def)
  let ?f = "f\<lparr>lc_transfer_size := -1, lc_bytes_downloaded := 0, lc_resume_offset := 0\<rparr>"
  from run obtain f1 w1 where s: "resume_setup N u (?f, w) = Some (f1, w1)" and p: "CurlPerformOnce n N (f1, w1) = Some fw"
    by (auto simp: curl_BeginTransfer_def ResumeTransfer_def bind_eq_Some_iff)
  have "fetch_core data ?f (view w)" using f w by (simp add: fetch_core_def)
  from resume_setup_spec[OF srv this w(2) s] CurlPerformOnce_spec[OF srv, of f1 w1 n "fst fw" "snd fw"] p
  show "fetch_inv data (fst fw) (view (snd fw))" by simp
qed

lemma fetch_step_ok:
  assumes ok: "fetch_ok N data view fw" and step: "fetch_step N fw fw'"
  shows "fetch_ok N data view fw'"
  unfolding fetch_ok_def
proof
  assume srv: "serves N data view"
  obtain f w f' w' where fw: "fw = (f, w)" "fw' = (f', w')" by fastforce
  have inv: "fetch_inv data f (view w)" using ok srv fw by (simp add: fetch_ok_def)
  have live: "fetch_live data f (view w)" if "lc_transfer_in_progress f" using inv that by (simp add: fetch_inv_def)
  have perform: "fetch_inv data f' (view w')"
    if p: "CurlPerformOnce n N (g, v) = Some (f', w')" and g: "view v = view w"
      and gf: "\<exists>cs t. g = f\<lparr>lc_io_channels := cs, lc_timeout_source := t\<rparr>" for n g v
  proof -
    from CurlPerformOnce_in_progress[OF p] gf have "lc_transfer_in_progress f" by auto
    from live[OF this] gf g have "fetch_live data g (view v)" by (auto simp: fetch_live_def fetch_core_def)
    from CurlPerformOnce_spec[OF srv this p] show ?thesis .
  qed
  have "fetch_inv data f' (view w')"
    using step
  proof cases
    case (fs_fd n source b)
    then obtain i c where "CurlPerformOnce n N (f\<lparr>lc_io_channels := io_erase i (lc_io_channels f)\<rparr>, g_io_unwatch N c w) = Some (f', w')"
      using fw by (auto simp: FDCallback_def Let_def bind_eq_Some_iff)
    then show ?thesis
      by (rule perform) (auto simp: servesD(10)[OF srv] intro!: exI[of _ "io_erase i (lc_io_channels f)"] exI[of _ "lc_timeout_source f"])
  next
    case (fs_timeout n b)
    then have "CurlPerformOnce n N (f\<lparr>lc_timeout_source := None\<rparr>, w) = Some (f', w')"
      using fw by (auto simp: curl_TimeoutCallback_def bind_eq_Some_iff)
    then show ?thesis by (rule perform) (auto intro!: exI[of _ "lc_io_channels f"] exI[of _ None])
  next
    case fs_pause
    with fw inv keeps_must[OF servesD(3)[OF srv]] show ?thesis by (auto simp: curl_Pause_def bind_eq_Some_iff split: if_splits)
  next
    case fs_unpause
    with fw inv keeps_must[OF servesD(3)[OF srv]] show ?thesis by (auto simp: curl_Unpause_def bind_eq_Some_iff split: if_splits)
  next
    case fs_terminate
    with fw have "CleanUp N (f, w) = Some (f', w')" by (simp add: curl_TerminateTransfer_def)
    from CleanUp_spec[OF srv this] inv show ?thesis
      by (auto simp: fetch_inv_def fetch_live_def fetch_core_def)
  qed
  then show "fetch_inv data (fst fw') (view (snd fw'))" using fw by simp
qed

interpretation fetch: invariant_system "fetch_begun N view" "fetch_step N" "fetch_ok N data view" for N data view
  by unfold_locales (auto intro: fetch_begun_ok fetch_step_ok)

text \<open>
  C8: with a server that serves one document, however its connections break off and
  at whatever points, a \<open>LibcurlHttpFetcher\<close> hands its delegate a prefix of the
  document at every moment, counts it right, and when it has reported the end of the
  transfer the delegate has got the whole document, each byte once and in order, or
  nothing at all.
\<close>

theorem LibcurlHttpFetcher_reassembles:
  assumes "serves N data view" and "reachable (fetch_begun N view) (fetch_step N) (f, w)"
  shows "prefix (nv_log (view w)) data
    \<and> lc_bytes_downloaded f = int (length (nv_log (view w)))
    \<and> (nv_outcomes (view w) = []
       \<or> nv_outcomes (view w) = [True] \<and> (nv_log (view w) = data \<or> nv_log (view w) = []))"
  using fetch.reachable_inv[OF assms(2), of data] assms(1)
  by (auto simp: fetch_ok_def fetch_inv_def fetch_live_def fetch_core_def)

text \<open>
  A server for witnesses. Its state is the view. It serves a given document, at most two
  bytes per connection.
\<close>

definition short_server :: "byte list \<Rightarrow> net_view net" where
  "short_server data =
     \<lparr>curl_multi_init = Pair True,
      curl_easy_init = (\<lambda>w. (True, w\<lparr>nv_pos := 0, nv_base := 0\<rparr>)),
      curl_easy_setopt = (\<lambda>opt w. (True,
        case opt of CURLOPT_RESUME_FROM_LARGE k \<Rightarrow> w\<lparr>nv_pos := nat k, nv_base := nat k\<rparr> | _ \<Rightarrow> w)),
      curl_multi_add_handle = Pair True,
      curl_perform = (\<lambda>w.
        (let xs = take 2 (drop (nv_pos w) data) in
         ((False, 0, if xs = [] then [] else [(Some (int (length data) - int (nv_base w)), xs)]),
          w\<lparr>nv_pos := nv_pos w + length xs\<rparr>))),
      curl_easy_pause = (\<lambda>_. Pair True), curl_multi_fdset = Pair (True, [], [], [], -1),
      curl_multi_timeout = Pair (True, -1), curl_multi_remove_handle = Pair True,
      curl_easy_cleanup = (\<lambda>w. w), curl_multi_cleanup = Pair True,
      g_io_watch = (\<lambda>i. Pair (0, 0)), g_io_unwatch = (\<lambda>c w. w),
      g_timeout_new = (\<lambda>ms. Pair (Some 0)), g_timeout_destroy = (\<lambda>t w. w),
      client_received = (\<lambda>xs w. w\<lparr>nv_log := nv_log w @ xs\<rparr>),
      client_complete = (\<lambda>b w. w\<lparr>nv_outcomes := nv_outcomes w @ [b]\<rparr>)\<rparr>"

lemma short_server_serves: "serves (short_server data) data (\<lambda>w. w)"
  by (auto simp: serves_def keeps_def short_server_def Let_def take_is_prefix split: curl_opt.split)

definition idle_view :: net_view where
  "idle_view = \<lparr>nv_log = [], nv_outcomes = [], nv_pos = 0, nv_base = 0\<rparr>"

definition busy_fetcher :: curl_fetcher where
  "busy_fetcher = (new_LibcurlHttpFetcher 0 0 0)\<lparr>lc_io_channels := [(2, 0, 0), (3, 0, 0), (8, 0, 0)]\<rparr>"

definition two_fd_net :: "net_view net" where
  "two_fd_net = (short_server [])\<lparr>curl_multi_fdset := Pair (True, [3], [5], [], 5)\<rparr>"

theorem SetupMainloopSources_tracks_fds_witness:
  "\<exists>f' w'. SetupMainloopSources two_fd_net (busy_fetcher, idle_view) = Some (f', w')
    \<and> io_sorted (lc_io_channels f') \<and> fst ` set (lc_io_channels f') = {3, 5}"
proof -
  have "SetupMainloopSources two_fd_net (busy_fetcher, idle_view) \<noteq> None" by code_simp
  then obtain f' w' where r: "SetupMainloopSources two_fd_net (busy_fetcher, idle_view) = Some (f', w')" by auto
  have "curl_multi_fdset two_fd_net idle_view = ((True, [3], [5], [], 5), idle_view)" by (simp add: two_fd_net_def)
  from SetupMainloopSources_tracks_fds[OF r this] r show ?thesis
    by (auto simp: busy_fetcher_def io_sorted_def)
qed

definition short_run :: "nat \<Rightarrow> byte list \<Rightarrow> (curl_fetcher \<times> net_view) option" where
  "short_run n data =
     curl_BeginTransfer n (short_server data) ''u'' (hf_set_delegate True (new_LibcurlHttpFetcher 0 0 0), idle_view)"

theorem LibcurlHttpFetcher_reassembles_witness:
  "\<exists>f w. short_run 9 [1, 2, 3, 4, 5] = Some (f, w) \<and> nv_outcomes w = [True]
    \<and> nv_log w = [1, 2, 3, 4, 5]"
proof -
  let ?d = "[1, 2, 3, 4, 5] :: byte list"
  have e: "map_option (\<lambda>(f, w). (nv_outcomes w, length (nv_log w))) (short_run 9 ?d) = Some ([True], 5)"
    by code_simp
  then obtain f w where r: "short_run 9 ?d = Some (f, w)" and o: "nv_outcomes w = [True]" "length (nv_log w) = 5" by auto
  have "fetch_begun (short_server ?d) (\<lambda>w. w) (f, w)"
    unfolding fetch_begun_def
    by (rule exI[of _ 9], rule exI[of _ "''u''"], rule exI[of _ "hf_set_delegate True (new_LibcurlHttpFetcher 0 0 0)"],
        rule exI[of _ idle_view]) (use r in \<open>simp add: short_run_def idle_view_def hf_set_delegate_def\<close>)
  then have "reachable (fetch_begun (short_server ?d) (\<lambda>w. w)) (fetch_step (short_server ?d)) (f, w)"
    by (rule reach_init)
  from LibcurlHttpFetcher_reassembles[OF short_server_serves this] o have "nv_log w = ?d" by auto
  with r o show ?thesis by blast
qed

text \<open>
  C39: the other outcome does happen. A connection that cannot be made, or breaks off
  before its first byte, is reported to the delegate as a transfer that completed with
  success.
\<close>

theorem LibcurlHttpFetcher_failed_connection_succeeds:
  assumes "serves N data view" and "nv_log (view w) = []" and "nv_outcomes (view w) = []" and "hf_delegate f"
    and begin_ok: "resume_setup N u (f\<lparr>lc_transfer_size := -1, lc_bytes_downloaded := 0, lc_resume_offset := 0\<rparr>, w) = Some (g, v)"
    and broken: "curl_perform N v = ((False, 0, []), v')" and clean: "CleanUp N (g, v') = Some (h, v'')"
  shows "\<exists>w'. curl_BeginTransfer (Suc n) N u (f, w) = Some (h, w')
    \<and> nv_outcomes (view w') = [True] \<and> nv_log (view w') = []"
proof -
  let ?f = "f\<lparr>lc_transfer_size := -1, lc_bytes_downloaded := 0, lc_resume_offset := 0\<rparr>"
  have "fetch_core data ?f (view w)" using assms by (simp add: fetch_core_def)
  from resume_setup_spec[OF assms(1) this assms(3) begin_ok] have live: "fetch_live data g (view v)" .
  have gf: "lc_transfer_size g = -1" "nv_log (view v) = []"
    using begin_ok assms(2) servesD[OF assms(1)] keeps_must[OF servesD(1)[OF assms(1)]] keeps_must[OF servesD(2)[OF assms(1)]]
    by (auto simp: resume_setup_def Let_def bind_eq_Some_iff split: if_splits
        dest!: setopt_view[OF assms(1)] easy_init_view[OF assms(1)])
  note v = serves_perform(1)[OF assms(1) broken] CleanUp_spec[OF assms(1) clean]
  have "curl_BeginTransfer (Suc n) N u (f, w) = Some (h, client_complete N True v'')"
    using begin_ok broken clean live gf v by (simp add: curl_BeginTransfer_def ResumeTransfer_def fetch_live_def fetch_core_def)
  with servesD(16)[OF assms(1)] v gf live show ?thesis by (simp add: fetch_live_def)
qed

text \<open>A server that cannot be reached, for the witness.\<close>

definition dead_server :: "net_view net" where
  "dead_server = (short_server [7])\<lparr>curl_perform := Pair (False, 0, [])\<rparr>"

lemma dead_server_serves: "serves dead_server [7] (\<lambda>w. w)"
  by (auto simp: serves_def keeps_def dead_server_def short_server_def split: curl_opt.split)

theorem LibcurlHttpFetcher_failed_connection_succeeds_witness:
  "\<exists>h w'. curl_BeginTransfer 1 dead_server ''u'' (hf_set_delegate True (new_LibcurlHttpFetcher 0 0 0), idle_view) = Some (h, w')
    \<and> nv_outcomes w' = [True] \<and> nv_log w' = []"
proof -
  let ?f = "hf_set_delegate True (new_LibcurlHttpFetcher 0 0 0)"
  let ?f0 = "?f\<lparr>lc_transfer_size := -1, lc_bytes_downloaded := 0, lc_resume_offset := 0\<rparr>"
  have "resume_setup dead_server ''u'' (?f0, idle_view) \<noteq> None" by code_simp
  then obtain g v where g: "resume_setup dead_server ''u'' (?f0, idle_view) = Some (g, v)" by auto
  have p: "curl_perform dead_server v = ((False, 0, []), v)" by (simp add: dead_server_def)
  obtain h v'' where h: "CleanUp dead_server (g, v) = Some (h, v'')"
    by (auto simp: CleanUp_def must_def dead_server_def short_server_def Let_def)
  show ?thesis
    using LibcurlHttpFetcher_failed_connection_succeeds[OF dead_server_serves _ _ _ g p h, of 0]
    by (auto simp: idle_view_def hf_set_delegate_def)
qed

end
