(* ===== verification/UE_Omaha.thy ===== *)
theory UE_Omaha
  imports UE_Files UE_Fetch
begin

text \<open>
  The conversation with the Omaha server: \<open>OmahaRequestPrepAction\<close>
  (\<open>omaha_request_prep_action.cc\<close>), \<open>UpdateCheckAction\<close> (\<open>update_check_action.cc\<close>)
  and \<open>OmahaResponseHandlerAction\<close> (\<open>omaha_response_handler_action.cc\<close>). libxml2 is a
  parameter.
\<close>

section \<open>Objects\<close>

record UpdateCheckParams =
  up_machine_id :: string
  up_user_id :: string
  up_os_platform :: string
  up_os_version :: string
  up_os_sp :: string
  up_app_id :: string
  up_app_version :: string
  up_app_lang :: string
  up_app_track :: string

definition kAppId :: string where
  "kAppId = ''{87efface-864d-49a5-9bb3-4b050a7c227a}''"

definition kOsPlatform :: string where
  "kOsPlatform = ''Chrome OS''"

definition kOsVersion :: string where
  "kOsVersion = ''Indy''"

definition default_UpdateCheckParams :: UpdateCheckParams where
  "default_UpdateCheckParams =
     \<lparr>up_machine_id = [], up_user_id = [], up_os_platform = kOsPlatform, up_os_version = kOsVersion,
      up_os_sp = [], up_app_id = kAppId, up_app_version = [], up_app_lang = [], up_app_track = []\<rparr>"

record UpdateCheckResponse =
  ur_update_exists :: bool
  ur_display_version :: string
  ur_codebase :: string
  ur_more_info_url :: string
  ur_hash :: string
  ur_size :: int
  ur_needs_admin :: bool
  ur_prompt :: bool

definition empty_UpdateCheckResponse :: UpdateCheckResponse where
  "empty_UpdateCheckResponse =
     \<lparr>ur_update_exists = False, ur_display_version = [], ur_codebase = [], ur_more_info_url = [],
      ur_hash = [], ur_size = 0, ur_needs_admin = False, ur_prompt = False\<rparr>"

section \<open>UpdateCheckAction\<close>

definition kGupdateVersion :: string where
  "kGupdateVersion = ''ChromeOSUpdateEngine-0.1.0.0''"

text \<open>\<open>enc\<close> is \<open>XmlEncode\<close>, which libxml2 does.\<close>

definition FormatRequest :: "(string \<Rightarrow> string) \<Rightarrow> UpdateCheckParams \<Rightarrow> string" where
  \<open>FormatRequest enc params =
     ''<?xml version="1.0" encoding="UTF-8"?>'' @ ''\<newline>'' @
     ''<o:gupdate xmlns:o="http://www.google.com/update2/request" version="'' @ enc kGupdateVersion @
     ''" protocol="2.0" machineid="'' @ enc (up_machine_id params) @ ''" ismachine="1" userid="'' @
     enc (up_user_id params) @ ''">'' @ ''\<newline>'' @
     ''    <o:os version="'' @ enc (up_os_version params) @ ''" platform="'' @ enc (up_os_platform params) @
     ''" sp="'' @ enc (up_os_sp params) @ ''"></o:os>'' @ ''\<newline>'' @
     ''    <o:app appid="'' @ enc (up_app_id params) @ ''" version="'' @ enc (up_app_version params) @
     ''" lang="'' @ enc (up_app_lang params) @ ''" track="'' @ enc (up_app_track params) @ ''">'' @ ''\<newline>'' @
     ''        <o:ping active="0"></o:ping>'' @ ''\<newline>'' @
     ''        <o:updatecheck></o:updatecheck>'' @ ''\<newline>'' @
     ''    </o:app>'' @ ''\<newline>'' @
     ''</o:gupdate>'' @ ''\<newline>''\<close>

record update_check =
  uc_params :: UpdateCheckParams
  uc_response_buffer :: "byte list"

definition new_UpdateCheckAction :: update_check where
  "new_UpdateCheckAction = \<lparr>uc_params = default_UpdateCheckParams, uc_response_buffer = []\<rparr>"

text \<open>The value is the URL \<open>PerformAction\<close> begins a transfer from.\<close>

definition UC_PerformAction ::
    "(string \<Rightarrow> string) \<Rightarrow> UpdateCheckParams option \<Rightarrow> 'x http_fetcher_scheme \<Rightarrow> update_check \<Rightarrow>
     (string \<times> 'x http_fetcher_scheme \<times> update_check) option" where
  "UC_PerformAction enc inp fetcher u = do {
     params \<leftarrow> inp;
     let u = u\<lparr>uc_params := params\<rparr>;
     let fetcher = hf_set_delegate True fetcher;
     let fetcher = SetPostData (bytes_of_string (FormatRequest enc params)) fetcher;
     Some (''https://tools.google.com/service/update2'', fetcher, u) }"

definition UC_ReceivedBytes :: "byte list \<Rightarrow> update_check \<Rightarrow> update_check" where
  "UC_ReceivedBytes bytes u = u\<lparr>uc_response_buffer := uc_response_buffer u @ bytes\<rparr>"

text \<open>
  libxml2: a document is \<open>'doc\<close>, a node the map from its attributes to their values. The
  evaluation of an XPath gives a node set, \<^term>\<open>None\<close> for an error.
\<close>

record 'doc libxml =
  xmlParseMemory :: "byte list \<Rightarrow> 'doc option"
  xmlXPathNewContext :: "'doc \<Rightarrow> bool"
  xmlXPathRegisterNs :: "'doc \<Rightarrow> string \<Rightarrow> string \<Rightarrow> int"
  xmlXPathEvalExpression :: "string \<Rightarrow> 'doc \<Rightarrow> (string \<rightharpoonup> string) list option"

definition GetNodeSet ::
    "'doc libxml \<Rightarrow> 'doc \<Rightarrow> string \<Rightarrow> string \<Rightarrow> string \<Rightarrow> (string \<rightharpoonup> string) list option" where
  "GetNodeSet X doc xpath ns ns_url =
     (if \<not> xmlXPathNewContext X doc then None
      else if xmlXPathRegisterNs X doc ns ns_url < 0 then None
      else (case xmlXPathEvalExpression X xpath doc of
              None \<Rightarrow> None
            | Some nodes \<Rightarrow> if nodes = [] then None else Some nodes))"

definition XmlGetProperty :: "(string \<rightharpoonup> string) \<Rightarrow> string \<Rightarrow> string" where
  "XmlGetProperty node name = (case node name of None \<Rightarrow> [] | Some v \<Rightarrow> v)"

text \<open>
  \<open>sscanf\<close> with \<open>%lld\<close>: leading space, an optional sign, digits; a value out of range is
  clamped. No digits is an error, which \<open>ParseInt\<close> reports as 0.
\<close>

definition c_isspace :: "char \<Rightarrow> bool" where
  "c_isspace c = (of_char c = (32::nat) \<or> 9 \<le> (of_char c :: nat) \<and> of_char c \<le> (13::nat))"

definition c_isdigit :: "char \<Rightarrow> bool" where
  "c_isdigit c = (48 \<le> (of_char c :: nat) \<and> of_char c \<le> (57::nat))"

definition digits_value :: "string \<Rightarrow> int" where
  "digits_value ds = foldl (\<lambda>v c. 10 * v + (of_char c - 48)) 0 ds"

definition clamp64 :: "int \<Rightarrow> int" where
  "clamp64 v = max (- (2 ^ 63)) (min (2 ^ 63 - 1) v)"

definition ParseInt :: "string \<Rightarrow> int" where
  "ParseInt str =
     (let s = dropWhile c_isspace str;
          neg = (s \<noteq> [] \<and> hd s = CHR ''-'');
          s = (if s \<noteq> [] \<and> (hd s = CHR ''-'' \<or> hd s = CHR ''+'') then tl s else s);
          ds = takeWhile c_isdigit s
      in if ds = [] then 0 else clamp64 (if neg then - digits_value ds else digits_value ds))"

definition response_of_node :: "(string \<rightharpoonup> string) \<Rightarrow> UpdateCheckResponse" where
  "response_of_node node =
     \<lparr>ur_update_exists = True,
      ur_display_version = XmlGetProperty node ''DisplayVersion'',
      ur_codebase = XmlGetProperty node ''codebase'',
      ur_more_info_url = XmlGetProperty node ''MoreInfo'',
      ur_hash = XmlGetProperty node ''hash'',
      ur_size = ParseInt (XmlGetProperty node ''size''),
      ur_needs_admin = (XmlGetProperty node ''needsadmin'' = ''true''),
      ur_prompt = (XmlGetProperty node ''Prompt'' = ''true'')\<rparr>"

text \<open>
  The flag the action completes with, and its output. \<open>GetNodeSet\<close> never gives an empty
  set, so the check of its length holds.
\<close>

definition UC_TransferComplete ::
    "'doc libxml \<Rightarrow> bool \<Rightarrow> bool \<Rightarrow> update_check \<Rightarrow> UpdateCheckResponse action_result option" where
  "UC_TransferComplete X has_out successful u =
     (if \<not> successful then Some (Some False, None)
      else if \<not> has_out then Some (Some True, None)
      else (case xmlParseMemory X (uc_response_buffer u) of
        None \<Rightarrow> Some (Some False, None)
      | Some doc \<Rightarrow>
          (case GetNodeSet X doc ''/x:gupdate/x:app/x:updatecheck'' ''x''
                  ''http://www.google.com/update2/response'' of
             None \<Rightarrow> Some (Some False, None)
           | Some nodes \<Rightarrow> do {
               CHECK (length nodes \<ge> 1);
               let node = hd nodes;
               if node ''status'' = None then Some (Some False, None)
               else
                 (let status = XmlGetProperty node ''status'' in
                  if status = ''noupdate'' then
                    Some (Some True, Some (empty_UpdateCheckResponse\<lparr>ur_update_exists := False\<rparr>))
                  else if status \<noteq> ''ok'' then Some (Some False, None)
                  else Some (Some True, Some (response_of_node node))) })))"

section \<open>OmahaRequestPrepAction\<close>

definition kStatefulPartition :: string where
  "kStatefulPartition = ''/mnt/stateful_partition''"

definition OmahaIdPath :: string where
  "OmahaIdPath = kStatefulPartition @ ''/etc/omaha_id''"

definition kGuidDataByteLength :: nat where "kGuidDataByteLength = 16"

definition kGuidStringLength :: nat where "kGuidStringLength = 38"

definition hex_upper :: "nat \<Rightarrow> char" where
  "hex_upper d = char_of (if d < 10 then 48 + d else 55 + d)"

text \<open>\<open>%02X\<close> of a byte.\<close>

definition hex2 :: "byte \<Rightarrow> string" where
  "hex2 b = [hex_upper (unat b div 16), hex_upper (unat b mod 16)]"

definition GuidFromData :: "byte list \<Rightarrow> string" where
  "GuidFromData data =
     (let h = (\<lambda>i. hex2 (data ! i)) in
      ''{'' @ h 0 @ h 1 @ h 2 @ h 3 @ ''-'' @ h 4 @ h 5 @ ''-'' @ h 6 @ h 7 @ ''-'' @ h 8 @ h 9 @ ''-''
      @ h 10 @ h 11 @ h 12 @ h 13 @ h 14 @ h 15 @ ''}'')"

fun read_random :: "nat \<Rightarrow> 'w fs \<Rightarrow> int \<Rightarrow> byte list \<Rightarrow> 'w \<Rightarrow> (byte list option \<times> 'w) option" where
  "read_random 0 F d buf w = None"
| "read_random (Suc n) F d buf w =
     (if length buf < kGuidDataByteLength then
        (case sys_read F d (kGuidDataByteLength - length buf) w of ((rc, bytes), w) \<Rightarrow>
           if \<not> rc > 0 then Some (None, w)
           else read_random n F d (buf @ take (nat rc) bytes) w)
      else Some (Some buf, w))"

text \<open>\<open>GetMachineId\<close>; \<^term>\<open>None\<close> of the inner option is the return value false.\<close>

definition GetMachineId :: "nat \<Rightarrow> 'w fs \<Rightarrow> string \<Rightarrow> 'w \<Rightarrow> (string option \<times> 'w) option" where
  "GetMachineId n F root w =
     (let omaha_id_path = root @ OmahaIdPath in do {
        (old, w) \<leftarrow> ReadFileToString n F omaha_id_path w;
        case (case old of Some s \<Rightarrow> if length s = kGuidStringLength then Some s else None | None \<Rightarrow> None) of
          Some s \<Rightarrow> Some (Some s, w)
        | None \<Rightarrow>
            (case sys_open F ''/dev/urandom'' 0 0 w of (rand_fd, w) \<Rightarrow>
               if \<not> rand_fd \<ge> 0 then Some (None, w)
               else do {
                 (buf, w) \<leftarrow> read_random n F rand_fd [] w;
                 case buf of
                   None \<Rightarrow> Some (None, snd (sys_close F rand_fd w))
                 | Some data \<Rightarrow> do {
                     let guid = GuidFromData data;
                     (ok, w) \<leftarrow> WriteFile n F omaha_id_path (bytes_of_string guid) w;
                     Some (if ok then Some guid else None, snd (sys_close F rand_fd w)) } }) })"

text \<open>
  The value of \<open>key\<close> in the text of one \<open>lsb-release\<close> file: \<^term>\<open>None\<close> goes on with the
  next file. \<open>length\<close> is \<open>npos\<close> when there is no newline, and \<open>substr\<close> then goes to the
  end of the text.
\<close>

definition lsb_value :: "string \<Rightarrow> string \<Rightarrow> string option" where
  "lsb_value key file_data =
     (let pos = (if \<not> StringHasPrefix file_data (key @ ''='') then
                   (let p = str_find file_data (''\<newline>'' @ key @ ''='') in if p \<noteq> npos then size_add p 1 else p)
                 else 0)
      in if pos = npos then None
         else
           (let pos = size_add pos (length key + 1);
                endpos = str_find_from file_data ''\<newline>'' pos;
                len = (if endpos = npos then npos else endpos - pos)
            in str_substr file_data pos len))"

fun lsb_files_loop :: "nat \<Rightarrow> 'w fs \<Rightarrow> string \<Rightarrow> string \<Rightarrow> string list \<Rightarrow> 'w \<Rightarrow> (string \<times> 'w) option" where
  "lsb_files_loop n F root key [] w = Some ([], w)"
| "lsb_files_loop n F root key (f # fs) w = do {
     (file_data, w) \<leftarrow> ReadFileToString n F (root @ f) w;
     case file_data of
       None \<Rightarrow> lsb_files_loop n F root key fs w
     | Some s \<Rightarrow>
         (case lsb_value key s of
            None \<Rightarrow> lsb_files_loop n F root key fs w
          | Some v \<Rightarrow> Some (v, w)) }"

definition GetLsbValue :: "nat \<Rightarrow> 'w fs \<Rightarrow> string \<Rightarrow> string \<Rightarrow> 'w \<Rightarrow> (string \<times> 'w) option" where
  "GetLsbValue n F root key w =
     lsb_files_loop n F root key [kStatefulPartition @ ''/etc/lsb-release'', ''/etc/lsb-release''] w"

text \<open>\<open>machine\<close> is what \<open>uname\<close> reports, \<^term>\<open>None\<close> when it fails.\<close>

definition GetMachineType :: "string option \<Rightarrow> string" where
  "GetMachineType machine = (case machine of Some m \<Rightarrow> m | None \<Rightarrow> [])"

definition OP_PerformAction ::
    "nat \<Rightarrow> 'w fs \<Rightarrow> string option \<Rightarrow> string \<Rightarrow> bool \<Rightarrow> 'w \<Rightarrow> (UpdateCheckParams action_result \<times> 'w) option" where
  "OP_PerformAction n F machine root has_out w = do {
     (id, w) \<leftarrow> GetMachineId n F root w;
     case id of
       None \<Rightarrow> Some ((Some False, None), w)
     | Some machine_id \<Rightarrow> do {
         (version, w) \<leftarrow> GetLsbValue n F root ''GOOGLE_RELEASE'' w;
         let sp = version @ ''_'' @ GetMachineType machine;
         (track, w) \<leftarrow> GetLsbValue n F root ''GOOGLE_TRACK'' w;
         let out = \<lparr>up_machine_id = machine_id, up_user_id = machine_id, up_os_platform = kOsPlatform,
                    up_os_version = kOsVersion, up_os_sp = sp, up_app_id = kAppId, up_app_version = version,
                    up_app_lang = ''en-US'', up_app_track = track\<rparr>;
         CHECK has_out;
         Some ((Some True, Some out), w) } }"

section \<open>OmahaResponseHandlerAction\<close>

definition kFullUpdateTag :: string where
  "kFullUpdateTag = ''_FULL_''"

definition GetInstallDev :: "string \<Rightarrow> string option" where
  "GetInstallDev boot_dev =
     (if boot_dev = [] then None
      else
        (let last_char = last boot_dev in
         if \<not> ((of_char last_char :: nat) \<ge> 48 \<and> (of_char last_char :: nat) \<le> 57) then None
         else
           (let ret = butlast boot_dev;
                new_char = (if (of_char last_char :: nat) mod 2 \<noteq> 0 then char_of ((of_char last_char :: nat) + 1)
                            else char_of ((of_char last_char :: nat) - 1))
            in Some (ret @ [new_char]))))"

record response_handler =
  rh_boot_device :: string
  rh_got_no_update_response :: bool

definition new_OmahaResponseHandlerAction :: response_handler where
  "new_OmahaResponseHandlerAction = \<lparr>rh_boot_device = [], rh_got_no_update_response = False\<rparr>"

definition set_boot_device :: "string \<Rightarrow> response_handler \<Rightarrow> response_handler" where
  "set_boot_device dev r = r\<lparr>rh_boot_device := dev\<rparr>"

definition GotNoUpdateResponse :: "response_handler \<Rightarrow> bool" where
  "GotNoUpdateResponse r = rh_got_no_update_response r"

definition url_filename :: "string \<Rightarrow> string option" where
  "url_filename codebase =
     (let last_slash = str_rfind codebase CHR ''/'' in
      if last_slash = npos then Some codebase else str_substr codebase (size_add last_slash 1) npos)"

text \<open>\<open>boot\<close> is the result of \<open>utils::BootDevice()\<close>.\<close>

definition RH_PerformAction ::
    "string \<Rightarrow> UpdateCheckResponse option \<Rightarrow> bool \<Rightarrow> response_handler \<Rightarrow>
     (InstallPlan action_result \<times> response_handler) option" where
  "RH_PerformAction boot inp has_out r = do {
     response \<leftarrow> inp;
     if \<not> ur_update_exists response then Some ((Some False, None), r\<lparr>rh_got_no_update_response := True\<rparr>)
     else
       (case GetInstallDev (if rh_boot_device r \<noteq> [] then rh_boot_device r else boot) of
          None \<Rightarrow> Some ((Some False, None), r)
        | Some dev \<Rightarrow> do {
            filename \<leftarrow> url_filename (ur_codebase response);
            let install_plan = \<lparr>is_full_update = (str_find filename kFullUpdateTag \<noteq> npos),
                                download_url = ur_codebase response, download_hash = ur_hash response,
                                install_path = dev\<rparr>;
            Some ((Some True, if has_out then Some install_plan else None), r) }) }"

section \<open>Properties\<close>

subsection \<open>The other partition\<close>

lemma of_char_char_of_nat: "n < 256 \<Longrightarrow> (of_char (char_of n) :: nat) = n"
  by simp

text \<open>
  on a boot device whose name ends in a digit from 1 to 8, \<open>GetInstallDev\<close> gives
  another device of the same disk: the name with its last digit replaced by its partner,
  1 by 2, 2 by 1, 3 by 4 and so on. The partner of the partner is the boot device.
\<close>

theorem GetInstallDev_swaps:
  assumes "49 \<le> (of_char c :: nat)" and "(of_char c :: nat) \<le> 56"
  shows "\<exists>d. GetInstallDev (base @ [c]) = Some (base @ [d]) \<and> d \<noteq> c
    \<and> 49 \<le> (of_char d :: nat) \<and> (of_char d :: nat) \<le> 56
    \<and> GetInstallDev (base @ [d]) = Some (base @ [c])"
proof -
  let ?n = "of_char c :: nat"
  let ?m = "if ?n mod 2 \<noteq> 0 then ?n + 1 else ?n - 1"
  have m: "?m < 256" "49 \<le> ?m" "?m \<le> 56" "?m \<noteq> ?n" using assms by presburger+
  have swap: "(if ?m mod 2 \<noteq> 0 then ?m + 1 else ?m - 1) = ?n" using assms by presburger
  have d: "of_char (char_of ?m :: char) = ?m" using m(1) by (rule of_char_char_of_nat)
  have "GetInstallDev (base @ [c]) = Some (base @ [char_of ?m])"
    using assms by (simp add: GetInstallDev_def Let_def)
  moreover have "GetInstallDev (base @ [char_of ?m]) = Some (base @ [char_of (if ?m mod 2 \<noteq> 0 then ?m + 1 else ?m - 1)])"
    using m d by (simp only: GetInstallDev_def Let_def last_snoc butlast_snoc) simp
  then have "GetInstallDev (base @ [char_of ?m]) = Some (base @ [c])" unfolding swap by simp
  moreover have "char_of ?m \<noteq> c" using d m(4) by metis
  ultimately show ?thesis using d m by (intro exI[of _ "char_of ?m"]) simp
qed

theorem GetInstallDev_swaps_witness:
  "\<exists>d. GetInstallDev (''/dev/sda'' @ [CHR ''3'']) = Some (''/dev/sda'' @ [d]) \<and> d \<noteq> CHR ''3''
    \<and> 49 \<le> (of_char d :: nat) \<and> (of_char d :: nat) \<le> 56
    \<and> GetInstallDev (''/dev/sda'' @ [d]) = Some (''/dev/sda'' @ [CHR ''3''])"
  by (rule GetInstallDev_swaps) simp_all

text \<open>
  for a device name that ends in 9 or 0 \<open>GetInstallDev\<close> succeeds with a name that
  does not end in a digit: the character after 9 is a colon, the one before 0 a slash.
\<close>

theorem GetInstallDev_out_of_digits:
  "GetInstallDev (base @ ''9'') = Some (base @ '':'') \<and> GetInstallDev (base @ ''0'') = Some (base @ ''/'')"
proof -
  have "char_of (58 :: nat) = CHR '':''" "char_of (47 :: nat) = CHR ''/''" by code_simp+
  then show ?thesis by (simp add: GetInstallDev_def Let_def)
qed

subsection \<open>The install plan\<close>



subsection \<open>Values of lsb-release\<close>

text \<open>The lines of a text, and the value of a key by lines: the reference for \<open>lsb_value\<close>.\<close>

fun text_lines :: "string \<Rightarrow> string list" where
  "text_lines [] = [[]]"
| "text_lines (c # s) =
     (if c = CHR 0x0A then [] # text_lines s
      else (case text_lines s of [] \<Rightarrow> [[c]] | l # ls \<Rightarrow> (c # l) # ls))"

definition line_value :: "string \<Rightarrow> string \<Rightarrow> string option" where
  "line_value key l = (if prefix (key @ ''='') l then Some (drop (length key + 1) l) else None)"

fun lines_value :: "string \<Rightarrow> string list \<Rightarrow> string option" where
  "lines_value key [] = None"
| "lines_value key (l # ls) = (case line_value key l of Some v \<Rightarrow> Some v | None \<Rightarrow> lines_value key ls)"

lemma str_search_char:
  "str_search [c] s i = (if c \<in> set s then i + length (takeWhile (\<lambda>x. x \<noteq> c) s) else npos)"
  by (induction s arbitrary: i) auto

lemma take_length_takeWhile: "take (length (takeWhile P s)) s = takeWhile P s"
  by (induction s) auto

lemma text_lines_ne [simp]: "text_lines s \<noteq> []"
  by (cases s) (auto split: list.split)

lemma hd_text_lines: "hd (text_lines s) = takeWhile (\<lambda>x. x \<noteq> CHR 0x0A) s"
  by (induction s) (auto split: list.split)

lemma tl_text_lines_Cons: "c \<noteq> CHR 0x0A \<Longrightarrow> tl (text_lines (c # s)) = tl (text_lines s)"
  by (cases "text_lines s") auto

lemma prefix_takeWhile: "(\<forall>x \<in> set p. Q x) \<Longrightarrow> prefix p (takeWhile Q s) \<longleftrightarrow> prefix p s"
proof (induction p arbitrary: s)
  case (Cons a p)
  then show ?case by (cases s) auto
qed simp

lemma drop_takeWhile: "prefix p s \<Longrightarrow> \<forall>x \<in> set p. Q x \<Longrightarrow> drop (length p) (takeWhile Q s) = takeWhile Q (drop (length p) s)"
  by (auto simp: prefix_def takeWhile_append2)

lemma line_value_hd:
  assumes "CHR 0x0A \<notin> set key"
  shows "line_value key (hd (text_lines s)) =
    (if prefix (key @ ''='') s then Some (takeWhile (\<lambda>x. x \<noteq> CHR 0x0A) (drop (length key + 1) s)) else None)"
proof -
  have nl: "\<forall>x \<in> set (key @ ''=''). x \<noteq> CHR 0x0A" using assms by auto
  show ?thesis
    using prefix_takeWhile[OF nl, of s] drop_takeWhile[of "key @ ''=''" s, OF _ nl]
    by (auto simp: line_value_def hd_text_lines)
qed

lemma lines_value_text_lines:
  "lines_value key (text_lines s) =
    (case line_value key (hd (text_lines s)) of Some v \<Rightarrow> Some v | None \<Rightarrow> lines_value key (tl (text_lines s)))"
  by (cases "text_lines s") (auto split: option.split)

lemma lines_value_tl:
  assumes "CHR 0x0A \<notin> set key"
  shows "str_search (CHR 0x0A # key @ ''='') s i = npos \<and> lines_value key (tl (text_lines s)) = None
    \<or> (\<exists>pre post. s = pre @ (CHR 0x0A # key @ ''='') @ post
        \<and> str_search (CHR 0x0A # key @ ''='') s i = i + length pre
        \<and> lines_value key (tl (text_lines s)) = Some (takeWhile (\<lambda>x. x \<noteq> CHR 0x0A) post))"
proof (induction s arbitrary: i)
  case (Cons c s)
  let ?P = "key @ ''=''"
  show ?case
  proof (cases "c = CHR 0x0A \<and> prefix ?P s")
    case True
    then obtain post where s: "s = ?P @ post" by (auto simp: prefix_def)
    have "lines_value key (text_lines s) = Some (takeWhile (\<lambda>x. x \<noteq> CHR 0x0A) post)"
      using line_value_hd[OF assms, of s] s by (simp add: lines_value_text_lines)
    then show ?thesis using True s by (intro disjI2 exI[of _ "[]"] exI[of _ post]) simp
  next
    case False
    then have search: "str_search (CHR 0x0A # ?P) (c # s) i = str_search (CHR 0x0A # ?P) s (Suc i)" by auto
    have "lines_value key (tl (text_lines (c # s))) = lines_value key (tl (text_lines s))"
      using False line_value_hd[OF assms, of s] tl_text_lines_Cons[of c s]
      by (cases "c = CHR 0x0A") (auto simp: lines_value_text_lines[of key s])
    note eqs = search this
    from Cons.IH[of "Suc i"] show ?thesis
    proof (elim disjE exE conjE)
      fix pre post
      assume a: "s = pre @ (CHR 0x0A # ?P) @ post" "str_search (CHR 0x0A # ?P) s (Suc i) = Suc i + length pre"
        "lines_value key (tl (text_lines s)) = Some (takeWhile (\<lambda>x. x \<noteq> CHR 0x0A) post)"
      have "c # s = (c # pre) @ (CHR 0x0A # ?P) @ post" using a(1) by simp
      moreover have "str_search (CHR 0x0A # ?P) (c # s) i = i + length (c # pre)"
        unfolding eqs(1) a(2) by simp
      moreover have "lines_value key (tl (text_lines (c # s))) = Some (takeWhile (\<lambda>x. x \<noteq> CHR 0x0A) post)"
        unfolding eqs(2) a(3) ..
      ultimately show ?thesis by blast
    qed (simp add: eqs del: str_search.simps text_lines.simps)
  qed
qed simp

lemma value_at:
  assumes "pos \<le> length s" "length s < npos"
  shows "str_substr s pos (if str_find_from s ''\<newline>'' pos = npos then npos else str_find_from s ''\<newline>'' pos - pos)
    = Some (takeWhile (\<lambda>x. x \<noteq> CHR 0x0A) (drop pos s))"
proof (cases "CHR 0x0A \<in> set (drop pos s)")
  case True
  have "length (takeWhile (\<lambda>x. x \<noteq> CHR 0x0A) (drop pos s)) \<le> length (drop pos s)" by (rule length_takeWhile_le)
  then have "pos + length (takeWhile (\<lambda>x. x \<noteq> CHR 0x0A) (drop pos s)) < npos"
    using assms by (simp del: length_takeWhile_le)
  with True assms show ?thesis
    by (simp add: str_substr_def str_find_from_def str_search_char take_length_takeWhile)
next
  case False
  then have all: "takeWhile (\<lambda>x. x \<noteq> CHR 0x0A) (drop pos s) = drop pos s"
    by (auto simp: takeWhile_eq_all_conv)
  from False assms show ?thesis
    by (simp add: str_substr_def str_find_from_def str_search_char all)
qed

text \<open>
  the value \<open>GetLsbValue\<close> takes from the text of a file is the rest of the first
  line that begins with the key and an equals sign, and there is none exactly when no line
  does. A key in the middle of a line does not count.
\<close>

theorem lsb_value_is_first_line:
  assumes key: "CHR 0x0A \<notin> set key" and small: "length file_data + length key + 2 < npos"
  shows "lsb_value key file_data = lines_value key (text_lines file_data)"
proof (cases "prefix (key @ ''='') file_data")
  case True
  have "size_add 0 (length key + 1) = length key + 1"
    using small by (simp add: size_add_def npos_def size_bound_def)
  moreover have "length key + 1 \<le> length file_data" using True prefix_length_le by fastforce
  ultimately show ?thesis
    using True line_value_hd[OF key, of file_data] small value_at[of "length key + 1" file_data]
    by (auto simp: lsb_value_def StringHasPrefix_iff lines_value_text_lines Let_def split: if_splits)
next
  case False
  from lines_value_tl[OF key, of file_data 0] show ?thesis
  proof (elim disjE exE conjE)
    assume "str_search (CHR 0x0A # key @ ''='') file_data 0 = npos" "lines_value key (tl (text_lines file_data)) = None"
    with False line_value_hd[OF key, of file_data] show ?thesis
      by (simp add: lsb_value_def StringHasPrefix_iff lines_value_text_lines str_find_def)
  next
    fix pre post
    assume s: "file_data = pre @ (CHR 0x0A # key @ ''='') @ post"
      and f: "str_search (CHR 0x0A # key @ ''='') file_data 0 = 0 + length pre"
      and v: "lines_value key (tl (text_lines file_data)) = Some (takeWhile (\<lambda>x. x \<noteq> CHR 0x0A) post)"
    let ?pos = "length pre + 1 + (length key + 1)"
    have le: "?pos \<le> length file_data" using s by simp
    have "length pre \<noteq> npos" "size_add (length pre) 1 = length pre + 1" "length pre + 1 \<noteq> npos"
      "size_add (length pre + 1) (length key + 1) = ?pos"
      using le small by (simp_all add: size_add_def npos_def size_bound_def)
    moreover have "drop ?pos file_data = post" using s by simp
    ultimately show ?thesis
      using False f v value_at[OF le] small line_value_hd[OF key, of file_data]
      by (auto simp: lsb_value_def StringHasPrefix_iff lines_value_text_lines str_find_def Let_def split: if_splits)
  qed
qed

theorem lsb_value_is_first_line_witness:
  "lsb_value ''K'' (''XK=1'' @ ''\<newline>'' @ ''K=2'' @ ''\<newline>'' @ ''K=3'')
    = lines_value ''K'' (text_lines (''XK=1'' @ ''\<newline>'' @ ''K=2'' @ ''\<newline>'' @ ''K=3''))"
  by (rule lsb_value_is_first_line) (simp_all add: npos_def size_bound_def)

subsection \<open>The machine id\<close>

lemma length_GuidFromData: "length (GuidFromData data) = kGuidStringLength"
  by (simp add: GuidFromData_def hex2_def kGuidStringLength_def Let_def)

lemma string_of_bytes_of_string [simp]: "string_of_bytes (bytes_of_string s) = s"
proof -
  have "(of_char c :: nat) < 256" for c using of_char_mod_256[of c] by (metis mod_less_divisor zero_less_numeral)
  then have "unat (of_nat (of_char c) :: byte) = of_char c" for c
    by (simp add: unat_of_nat)
  then show ?thesis by (simp add: string_of_bytes_def bytes_of_string_def comp_def)
qed

lemma length_bytes_of_string [simp]: "length (bytes_of_string s) = length s"
  by (simp add: bytes_of_string_def)

lemma length_string_of_bytes [simp]: "length (string_of_bytes s) = length s"
  by (simp add: string_of_bytes_def)

text \<open>
  The documented behaviour of stdio and of the file calls on the file \<open>p\<close>:
  \<open>content\<close> is what it holds, if it exists, and \<open>rem h\<close> what a stream has still to give.
  A file opened for writing with truncation is empty, and what \<open>write\<close> took is appended
  to it.
\<close>

definition id_file_ok ::
    "'w fs \<Rightarrow> string \<Rightarrow> ('w \<Rightarrow> byte list option) \<Rightarrow> (nat \<Rightarrow> 'w \<Rightarrow> byte list) \<Rightarrow> bool" where
  "id_file_ok F p content rem \<longleftrightarrow>
     (\<forall>w h w'. fs_fopen F p w = (h, w') \<longrightarrow> content w' = content w
        \<and> (case content w of None \<Rightarrow> h = None | Some c \<Rightarrow> \<exists>k. h = Some k \<and> rem k w' = c))
   \<and> (\<forall>h k w buf w'. fs_fread F h k w = (buf, w') \<longrightarrow> content w' = content w
        \<and> buf = take k (rem h w) \<and> rem h w' = drop k (rem h w))
   \<and> (\<forall>h w. \<not> fs_ferror F h w)
   \<and> (\<forall>h w. fst (fs_fclose F h w) = 0 \<and> content (snd (fs_fclose F h w)) = content w)
   \<and> (\<forall>d w. content (snd (sys_close F d w)) = content w)
   \<and> (\<forall>w d w'. sys_open F p 577 438 w = (d, w') \<longrightarrow> 0 \<le> d \<longrightarrow> content w' = Some []
        \<and> (\<forall>bs v r v'. sys_write F d bs v = (r, v') \<longrightarrow> 0 \<le> r \<longrightarrow> nat r \<le> length bs
              \<and> content v' = map_option (\<lambda>c. c @ take (nat r) bs) (content v)))"

lemma read_file_loop_rem:
  assumes "id_file_ok F p content rem" "length (rem fp w) < n"
  shows "\<exists>w'. read_file_loop n F fp out w = Some (out @ rem fp w, w') \<and> content w' = content w"
  using assms(2)
proof (induction n arbitrary: out w)
  case (Suc n)
  obtain buf w1 where r: "fs_fread F fp 1024 w = (buf, w1)" by fastforce
  have b: "content w1 = content w" "buf = take 1024 (rem fp w)" "rem fp w1 = drop 1024 (rem fp w)"
    using assms(1) r unfolding id_file_ok_def by blast+
  show ?case
  proof (cases "length buf = 1024")
    case True
    with b have "length (rem fp w1) < n" using Suc.prems by (simp add: min_def split: if_splits)
    from Suc.IH[OF this, of "out @ buf"] True r b show ?thesis by auto
  next
    case False
    with b have "buf = rem fp w" by (simp add: min_def split: if_splits)
    with False r b show ?thesis by auto
  qed
qed simp

lemma read_file_loop_all:
  assumes "id_file_ok F p content rem"
  shows "read_file_loop n F fp out w = Some (out', w') \<Longrightarrow> out' = out @ rem fp w \<and> content w' = content w"
proof (induction n arbitrary: out w)
  case (Suc n)
  obtain buf w1 where r: "fs_fread F fp 1024 w = (buf, w1)" by fastforce
  have b: "content w1 = content w" "buf = take 1024 (rem fp w)" "rem fp w1 = drop 1024 (rem fp w)"
    using assms(1) r unfolding id_file_ok_def by blast+
  show ?case
  proof (cases "length buf = 1024")
    case True
    with Suc.IH[of "out @ buf" w1] Suc.prems r b show ?thesis by (auto split: if_splits)
  next
    case False
    with b have "buf = rem fp w" by (simp add: min_def split: if_splits)
    with False Suc.prems r b show ?thesis by (auto split: if_splits)
  qed
qed simp

lemma ReadFileToString_Some:
  assumes ok: "id_file_ok F p content rem" and run: "ReadFileToString n F p w = Some (Some s, w')"
  shows "\<exists>c. content w = Some c \<and> s = string_of_bytes c \<and> content w' = content w"
proof -
  obtain h w1 where o: "fs_fopen F p w = (h, w1)" by fastforce
  note op = ok[unfolded id_file_ok_def, THEN conjunct1, rule_format, OF o]
  from run o obtain k out w2 where h: "h = Some k" and rd: "read_file_loop n F k [] w1 = Some (out, w2)"
    and s: "s = string_of_bytes out" and w': "w' = snd (fs_fclose F k w2)"
    by (auto simp: ReadFileToString_def ReadFile_def bind_eq_Some_iff case_prod_beta Let_def
        split: option.splits if_splits)
  have "content w' = content w2" using ok w' unfolding id_file_ok_def by blast
  with read_file_loop_all[OF ok rd] op h s show ?thesis by (cases "content w") auto
qed

lemma ReadFileToString_content:
  assumes ok: "id_file_ok F p content rem" and c: "content w = Some c" "length c < n"
  shows "\<exists>w'. ReadFileToString n F p w = Some (Some (string_of_bytes c), w') \<and> content w' = content w"
proof -
  obtain h w1 where o: "fs_fopen F p w = (h, w1)" by fastforce
  note ok[unfolded id_file_ok_def, THEN conjunct1, rule_format, OF o]
  then have "content w1 = content w \<and> (\<exists>k. h = Some k \<and> rem k w1 = c)" by (simp add: c(1))
  then obtain k where k: "h = Some k" "rem k w1 = c" "content w1 = content w" by auto
  obtain w2 where "read_file_loop n F k [] w1 = Some ([] @ c, w2)" "content w2 = content w1"
    using read_file_loop_rem[OF ok, of k w1 n "[]"] k c by auto
  moreover have "\<not> fs_ferror F k w2" "fst (fs_fclose F k w2) = 0" "content (snd (fs_fclose F k w2)) = content w2"
    using ok unfolding id_file_ok_def by blast+
  ultimately show ?thesis using o k
    by (auto simp: ReadFileToString_def ReadFile_def Let_def split: prod.split)
qed

lemma id_file_open:
  assumes "id_file_ok F p content rem" "sys_open F p 577 438 w = (d, w')" "0 \<le> d"
  shows "content w' = Some []"
    "sys_write F d bs v = (r, v') \<Longrightarrow> 0 \<le> r \<Longrightarrow> nat r \<le> length bs"
    "sys_write F d bs v = (r, v') \<Longrightarrow> 0 \<le> r \<Longrightarrow> content v' = map_option (\<lambda>c. c @ take (nat r) bs) (content v)"
  using assms unfolding id_file_ok_def by blast+

lemma dfw_write_loop_content:
  assumes ok: "id_file_ok F p content rem" and o: "sys_open F p 577 438 w0 = (d, w1)" "0 \<le> d"
    and small: "length bytes < 2 ^ 31"
  shows "content w = Some c \<Longrightarrow> dfw_write_loop n (posix_of F) d bytes k w = Some (r, w') \<Longrightarrow> 0 \<le> r
    \<Longrightarrow> content w' = Some (c @ drop k bytes) \<or> k > length bytes"
proof (induction n arbitrary: k w c)
  case (Suc n)
  show ?case
  proof (cases "k < length bytes")
    case True
    obtain rc v where wr: "sys_write F d (drop k bytes) w = (rc, v)" by fastforce
    then have wr': "sys_write (posix_of F) d (drop k bytes) w = (rc, v)" by (simp add: posix_of_def posix.defs)
    have "0 \<le> rc" using Suc.prems(2,3) True wr' by (auto split: if_splits)
    then have v: "nat rc \<le> length bytes - k" "content v = Some (c @ take (nat rc) (drop k bytes))"
      using id_file_open(2,3)[OF ok o wr] Suc.prems(1) by auto
    from Suc.prems(2,3) True wr' \<open>0 \<le> rc\<close> have "dfw_write_loop n (posix_of F) d bytes (k + nat rc) v = Some (r, w')"
      by (auto split: if_splits)
    from Suc.IH[OF v(2) this Suc.prems(3)] v(1) True
    have "content w' = Some ((c @ take (nat rc) (drop k bytes)) @ drop (k + nat rc) bytes)" by auto
    moreover have "take (nat rc) (drop k bytes) @ drop (k + nat rc) bytes = drop k bytes"
      by (metis add.commute append_take_drop_id drop_drop)
    ultimately show ?thesis by simp
  next
    case False
    with Suc.prems show ?thesis by (auto split: if_splits)
  qed
qed simp

lemma WriteFile_content:
  assumes ok: "id_file_ok F p content rem" and run: "WriteFile n F p bytes w = Some (True, w')"
    and small: "length bytes < 2 ^ 31"
  shows "content w' = Some bytes"
proof -
  have op: "sys_open (posix_of F) = sys_open F" "sys_close (posix_of F) = sys_close F"
    by (simp_all add: posix_of_def posix.defs)
  obtain d w1 where o: "sys_open F p 577 438 w = (d, w1)" by fastforce
  have d: "0 \<le> d" using run o by (auto simp: WriteFile_def DFW_Open_def new_DirectFileWriter_def op split: if_splits)
  from run o d obtain r w2 where wr: "dfw_write_loop n (posix_of F) d bytes 0 w1 = Some (r, w2)"
    and r: "r = int_of_size (length bytes)" and w': "w' = snd (sys_close F d w2)"
    by (auto simp: WriteFile_def DFW_Open_def DFW_Write_def DFW_Close_def new_DirectFileWriter_def op bind_eq_Some_iff
        case_prod_beta Let_def split: if_splits)
  have "content w2 = Some ([] @ drop 0 bytes)"
    using dfw_write_loop_content[OF ok o d small id_file_open(1)[OF ok o d] wr] r small by (simp add: int_of_size_small)
  moreover have "content w' = content w2" using ok w' unfolding id_file_ok_def by blast
  ultimately show ?thesis by simp
qed

text \<open>
  the machine id is stable. When \<open>GetMachineId\<close> succeeds it gives an id of 38
  characters, and the next call gives the same id, whether the first one found it in the
  file or made it and wrote it there.
\<close>

theorem GetMachineId_stable:
  assumes ok: "id_file_ok F (root @ OmahaIdPath) content rem" and n: "38 < n"
    and first: "GetMachineId n F root w = Some (Some id', w')"
  shows "length id' = kGuidStringLength \<and> (\<exists>w''. GetMachineId n F root w' = Some (Some id', w''))"
proof -
  let ?p = "root @ OmahaIdPath"
  have again: "\<exists>w''. GetMachineId n F root v = Some (Some id', w'')"
    if "content v = Some c" "string_of_bytes c = id'" "length c = kGuidStringLength" for v c
    using ReadFileToString_content[OF ok that(1), of n] that n
    by (auto simp: GetMachineId_def kGuidStringLength_def)
  obtain old w1 where rd: "ReadFileToString n F ?p w = Some (old, w1)"
    using first by (auto simp: GetMachineId_def bind_eq_Some_iff Let_def)
  show ?thesis
  proof (cases "\<exists>s. old = Some s \<and> length s = kGuidStringLength")
    case True
    then obtain s where s: "old = Some s" "length s = kGuidStringLength" by auto
    with first rd have "id' = s" "w' = w1" by (auto simp: GetMachineId_def)
    with s ReadFileToString_Some[OF ok, of n w s w1] rd again[of w1] show ?thesis by auto
  next
    case False
    then have old: "(case old of Some s \<Rightarrow> if length s = kGuidStringLength then Some s else None | None \<Rightarrow> None) = None"
      by (auto split: option.split)
    obtain rand_fd w2 where u: "sys_open F ''/dev/urandom'' 0 0 w1 = (rand_fd, w2)" by fastforce
    from first rd old u obtain data w3 w4 where g: "id' = GuidFromData data"
      and wf: "WriteFile n F ?p (bytes_of_string (GuidFromData data)) w3 = Some (True, w4)"
      and w': "w' = snd (sys_close F rand_fd w4)"
      by (auto simp: GetMachineId_def bind_eq_Some_iff Let_def split: if_splits option.splits)
    have len: "length id' = kGuidStringLength" using g length_GuidFromData by simp
    have "content w4 = Some (bytes_of_string id')"
      using WriteFile_content[OF ok wf] g by (simp add: length_GuidFromData kGuidStringLength_def)
    moreover have "content w' = content w4" using ok w' unfolding id_file_ok_def by blast
    ultimately show ?thesis using len again[of w' "bytes_of_string id'"] by simp
  qed
qed

text \<open>
  A system for the witness. Its state is the content of the id file and what the open
  stream has still to give; random bytes are all 5, and every other call fails.
\<close>

definition null_fs :: "'w fs" where
  "null_fs = \<lparr>sys_open = (\<lambda>path flags mode w. (-1, w)), sys_write = (\<lambda>d bs w. (-1, w)),
     sys_read = (\<lambda>d k w. ((-1, []), w)), sys_lseek = (\<lambda>d off w. (-1, w)), sys_close = (\<lambda>d w. (0, w)),
     fs_lstat = (\<lambda>path w. Inl (-1)), fs_opendir = (\<lambda>path w. (Inl (-1), w)),
     fs_readdir = (\<lambda>d w. (Inl (-1), w)), fs_closedir = (\<lambda>d w. (-1, w)),
     fs_unlink = (\<lambda>path w. (-1, w)), fs_rmdir = (\<lambda>path w. (-1, w)), fs_mkdir = (\<lambda>path m w. (-1, w)),
     fs_link = (\<lambda>a b w. (-1, w)), fs_readlink = (\<lambda>path k w. Inl (-1)), fs_symlink = (\<lambda>a b w. (-1, w)),
     fs_mknod = (\<lambda>path m r w. (-1, w)), fs_chmod = (\<lambda>path m w. (-1, w)), fs_lchown = (\<lambda>path u g w. (-1, w)),
     fs_mount = (\<lambda>dev mp w. (-1, w)), fs_umount = (\<lambda>mp w. (-1, w)),
     fs_mkdtemp = (\<lambda>t w. (None, w)), fs_spawn_sync = (\<lambda>cmd w. (None, w)),
     fs_fopen = (\<lambda>path w. (None, w)), fs_fread = (\<lambda>f k w. ([], w)), fs_ferror = (\<lambda>f w. False),
     fs_fclose = (\<lambda>f w. (0, w))\<rparr>"

definition id_fs :: "(byte list option \<times> byte list) fs" where
  "id_fs = null_fs
     \<lparr>sys_open := (\<lambda>path flags mode w. if flags = 577 then (3, (Some [], snd w)) else (4, w)),
      sys_write := (\<lambda>d bs w. (int (length (take 7 bs)), (map_option (\<lambda>c. c @ take 7 bs) (fst w), snd w))),
      sys_read := (\<lambda>d k w. ((int (min k 9), replicate (min k 9) 5), w)),
      fs_fopen := (\<lambda>path w. case fst w of None \<Rightarrow> (None, w) | Some c \<Rightarrow> (Some 0, (fst w, c))),
      fs_fread := (\<lambda>f k w. (take k (snd w), (fst w, drop k (snd w))))\<rparr>"

lemma id_fs_ok: "id_file_ok id_fs p fst (\<lambda>_. snd)"
  by (auto simp: id_file_ok_def id_fs_def null_fs_def min_def split: option.splits if_splits)

theorem GetMachineId_stable_witness:
  "\<exists>id' w' w''. GetMachineId 40 id_fs ''/r'' (None, []) = Some (Some id', w') \<and> length id' = kGuidStringLength
    \<and> GetMachineId 40 id_fs ''/r'' w' = Some (Some id', w'')"
proof -
  have "\<exists>id' w'. GetMachineId 40 id_fs ''/r'' (None, []) = Some (Some id', w')"
  proof -
    have "map_option (\<lambda>r. fst r \<noteq> None) (GetMachineId 40 id_fs ''/r'' (None, [])) = Some True" by code_simp
    then show ?thesis by auto
  qed
  then obtain id' w' where g: "GetMachineId 40 id_fs ''/r'' (None, []) = Some (Some id', w')" by blast
  from GetMachineId_stable[OF id_fs_ok _ g] g show ?thesis by auto
qed

end
