(* ===== verification/UE_Boot.thy ===== *)
theory UE_Boot
  imports UE_Files UE_Extents UE_Omaha
begin

text \<open>
  The last two actions of an update: \<open>PostinstallRunnerAction\<close>
  (\<open>postinstall_runner_action.cc\<close>) and \<open>SetBootableFlagAction\<close>
  (\<open>set_bootable_flag_action.cc\<close>), which marks the new partition bootable in the master
  boot record.
\<close>

section \<open>PostinstallRunnerAction\<close>

definition kMountPath :: string where
  "kMountPath = kStatefulPartition @ ''/au_destination''"

definition kPostinstallScript :: string where
  "kPostinstallScript = ''/postinst''"

text \<open>\<open>system\<close> is the C library's; an action result is that of \<open>UE_Files\<close>.\<close>

definition PI_PerformAction ::
    "'w fs \<Rightarrow> (string \<Rightarrow> 'w \<Rightarrow> int \<times> 'w) \<Rightarrow> string option \<Rightarrow> bool \<Rightarrow> 'w \<Rightarrow> (string action_result \<times> 'w) option" where
  "PI_PerformAction F system inp has_out w = do {
     install_device \<leftarrow> inp;
     let (rc, w) = fs_mount F install_device kMountPath w;
     if rc < 0 then Some ((Some False, None), w)
     else do {
       let (rc, w) = system (kMountPath @ kPostinstallScript @ '' '' @ install_device) w;
       let success = (rc = 0);
       let (rc, w) = fs_umount F kMountPath w;
       Some ((Some success, if success \<and> has_out then Some install_device else None), w) } }"

section \<open>SetBootableFlagAction\<close>

text \<open>The flags are \<open>O_RDONLY\<close> and \<open>O_WRONLY\<close>, the mode of the second is 0666.\<close>

definition ReadMbr :: "'w fs \<Rightarrow> nat \<Rightarrow> string \<Rightarrow> 'w \<Rightarrow> byte list option \<times> 'w" where
  "ReadMbr F buffer_len device w =
     (case sys_open F device 0 0 w of (d, w) \<Rightarrow>
        if \<not> d \<ge> 0 then (None, w)
        else
          (case sys_read F d buffer_len w of ((r, buf), w) \<Rightarrow>
             (let w = snd (sys_close F d w) in
              if r \<noteq> int buffer_len then (None, w) else (Some (take buffer_len buf), w))))"

fun write_mbr_loop :: "nat \<Rightarrow> 'w fs \<Rightarrow> int \<Rightarrow> byte list \<Rightarrow> nat \<Rightarrow> 'w \<Rightarrow> (bool \<times> 'w) option" where
  "write_mbr_loop 0 F d buffer bytes_written w = None"
| "write_mbr_loop (Suc n) F d buffer bytes_written w =
     (if bytes_written < length buffer then
        (case sys_write F d (drop bytes_written buffer) w of (r, w) \<Rightarrow>
           if \<not> r \<ge> 0 then Some (False, w)
           else write_mbr_loop n F d buffer (bytes_written + nat r) w)
      else Some (bytes_written = length buffer, w))"

definition WriteMbr :: "nat \<Rightarrow> 'w fs \<Rightarrow> byte list \<Rightarrow> string \<Rightarrow> 'w \<Rightarrow> (bool \<times> 'w) option" where
  "WriteMbr n F buffer device w =
     (case sys_open F device 1 438 w of (d, w) \<Rightarrow>
        if \<not> d \<ge> 0 then Some (False, w)
        else do {
          (ok, w) \<leftarrow> write_mbr_loop n F d buffer 0 w;
          Some (ok, snd (sys_close F d w)) })"

text \<open>The loop over the four entries of the partition table.\<close>

definition set_flags :: "nat \<Rightarrow> byte list \<Rightarrow> byte list" where
  "set_flags partition_number mbr =
     foldl (\<lambda>mbr i. mbr[446 + 16 * i := (if i + 1 = partition_number then 0x80 else 0)]) mbr [0, 1, 2, 3]"

text \<open>
  The tests on the device name: the device of the disk and the number of the partition,
  \<^term>\<open>None\<close> for an early return.
\<close>

definition bootable_device :: "string option \<Rightarrow> (string \<times> nat) option" where
  "bootable_device inp =
     (case inp of
        None \<Rightarrow> None
      | Some device \<Rightarrow>
          if device = [] then None
          else if length device < 2 then None
          else
            (let last_char = of_char (device ! (length device - 1)) :: nat;
                 second_to_last_char = of_char (device ! (length device - 2)) :: nat
             in if last_char < 49 \<or> last_char > 52 then None
                else if second_to_last_char \<ge> 48 \<and> second_to_last_char \<le> 57 then None
                else Some (take (length device - 1) device, last_char - 48)))"

definition SB_PerformAction ::
    "nat \<Rightarrow> 'w fs \<Rightarrow> string option \<Rightarrow> bool \<Rightarrow> 'w \<Rightarrow> (string action_result \<times> 'w) option" where
  "SB_PerformAction n F inp has_out w =
     (case bootable_device inp of
        None \<Rightarrow> Some ((Some False, None), w)
      | Some (device, partition_number) \<Rightarrow>
          (case ReadMbr F 512 device w of
             (None, w) \<Rightarrow> Some ((Some False, None), w)
           | (Some mbr, w) \<Rightarrow>
               if mbr ! 510 \<noteq> 0x55 \<or> mbr ! 511 \<noteq> 0xaa then Some ((Some False, None), w)
               else do {
                 (success, w) \<leftarrow> WriteMbr n F (set_flags partition_number mbr) device w;
                 Some (if success then (Some True, if has_out then inp else None) else (Some False, None), w) }))"

section \<open>Properties\<close>

lemma length_set_flags [simp]: "length (set_flags k mbr) = length mbr"
  by (simp add: set_flags_def)

lemma set_flags_flag:
  assumes "length mbr = 512" "i < 4"
  shows "set_flags k mbr ! (446 + 16 * i) = (if i + 1 = k then 0x80 else 0)"
proof -
  from assms(2) have "i = 0 \<or> i = 1 \<or> i = 2 \<or> i = 3" by auto
  then show ?thesis using assms(1) by (elim disjE) (simp_all add: set_flags_def nth_list_update)
qed

lemma set_flags_other:
  assumes "\<forall>i < 4. j \<noteq> 446 + 16 * i"
  shows "set_flags k mbr ! j = mbr ! j"
proof -
  have "j \<noteq> 446" "j \<noteq> 462" "j \<noteq> 478" "j \<noteq> 494"
    using assms[rule_format, of 0] assms[rule_format, of 1] assms[rule_format, of 2] assms[rule_format, of 3] by auto
  then show ?thesis by (simp add: set_flags_def)
qed

text \<open>
  The disk: on the device named \<open>dev\<close>, a descriptor reads from the start of \<open>disk\<close>;
  writes through a descriptor opened for writing replace its bytes from the start on,
  \<open>off\<close> counting them.
\<close>

definition disk_file_ok ::
    "'w fs \<Rightarrow> string \<Rightarrow> ('w \<Rightarrow> byte list) \<Rightarrow> ('w \<Rightarrow> nat) \<Rightarrow> bool" where
  "disk_file_ok F dev disk off \<longleftrightarrow>
     (\<forall>w d w'. sys_open F dev 0 0 w = (d, w') \<longrightarrow> disk w' = disk w
        \<and> (\<forall>k r buf w''. sys_read F d k w' = ((r, buf), w'') \<longrightarrow> disk w'' = disk w'
             \<and> (0 \<le> r \<longrightarrow> buf = take (nat r) (disk w'))))
   \<and> (\<forall>d w. disk (snd (sys_close F d w)) = disk w)
   \<and> (\<forall>w d w'. sys_open F dev 1 438 w = (d, w') \<longrightarrow> 0 \<le> d \<longrightarrow> disk w' = disk w \<and> off w' = 0
        \<and> (\<forall>bs v r v'. sys_write F d bs v = (r, v') \<longrightarrow> 0 \<le> r \<longrightarrow>
             r \<le> int (length bs) \<and> off v' = off v + nat r
             \<and> (off v + nat r \<le> length (disk v) \<longrightarrow>
                 disk v' = take (off v) (disk v) @ take (nat r) bs @ drop (off v + nat r) (disk v))))"

lemma disk_file_write:
  assumes "disk_file_ok F dev disk off" "sys_open F dev 1 438 w = (d, w')" "0 \<le> d"
  shows "disk w' = disk w" "off w' = 0"
    "sys_write F d bs v = (r, v') \<Longrightarrow> 0 \<le> r \<Longrightarrow> r \<le> int (length bs)"
    "sys_write F d bs v = (r, v') \<Longrightarrow> 0 \<le> r \<Longrightarrow> off v' = off v + nat r"
    "sys_write F d bs v = (r, v') \<Longrightarrow> 0 \<le> r \<Longrightarrow> off v + nat r \<le> length (disk v) \<Longrightarrow>
      disk v' = take (off v) (disk v) @ take (nat r) bs @ drop (off v + nat r) (disk v)"
  using assms unfolding disk_file_ok_def by blast+

lemma write_mbr_loop_disk:
  assumes ok: "disk_file_ok F dev disk off" and o: "sys_open F dev 1 438 w0 = (d, w1)" "0 \<le> d"
    and run: "write_mbr_loop n F d buf k w = Some (True, w')"
    and k: "k \<le> length buf" "off w = k" and len: "length buf \<le> length (disk w)"
    and pre: "take k (disk w) = take k buf"
  shows "disk w' = buf @ drop (length buf) (disk w)"
  using run k len pre
proof (induction n arbitrary: k w)
  case (Suc n)
  show ?case
  proof (cases "k < length buf")
    case False
    with Suc.prems have "k = length buf" "w' = w" by auto
    with Suc.prems(5) show ?thesis by (metis append_take_drop_id order_refl take_all)
  next
    case True
    obtain r v where wr: "sys_write F d (drop k buf) w = (r, v)" by fastforce
    with True Suc.prems(1) have r: "0 \<le> r" and rest: "write_mbr_loop n F d buf (k + nat r) v = Some (True, w')"
      by (auto split: if_splits)
    note wd = disk_file_write(3-5)[OF ok o wr r]
    have le: "k + nat r \<le> length buf" using wd(1) True by simp
    then have disk: "disk v = take k (disk w) @ take (nat r) (drop k buf) @ drop (k + nat r) (disk w)"
      using wd(3) Suc.prems(3,4) by simp
    have tk: "take k (disk w) @ take (nat r) (drop k buf) = take (k + nat r) buf"
      using Suc.prems(5) by (simp add: take_add)
    have tkl: "length (take (k + nat r) buf) = k + nat r" using le by simp
    have split: "disk v = take (k + nat r) buf @ drop (k + nat r) (disk w)" using disk tk by simp
    have "disk w' = buf @ drop (length buf) (disk v)"
    proof (rule Suc.IH[OF rest])
      show "k + nat r \<le> length buf" by (rule le)
      show "off v = k + nat r" using wd(2) Suc.prems(3) by simp
      show "length buf \<le> length (disk v)" using split tkl Suc.prems(4) le by simp
      show "take (k + nat r) (disk v) = take (k + nat r) buf" using split tkl by simp
    qed
    moreover have "drop (length buf) (disk v) = drop (length buf) (disk w)"
      using split tkl le by simp
    ultimately show ?thesis by simp
  qed
qed simp

text \<open>
  C21: when \<open>SetBootableFlagAction\<close> completes with success on a device that names
  partition \<open>k\<close> of a disk, the disk has the flag of partition \<open>k\<close> set and those of the
  other three cleared, and not another byte of the disk has changed.
\<close>

theorem SetBootableFlag_sets_one:
  assumes ok: "disk_file_ok F dev disk off" and dev: "inp = Some (dev @ [c])"
    and c: "49 \<le> (of_char c :: nat)" "(of_char c :: nat) \<le> 52"
    and len: "512 \<le> length (disk w)"
    and run: "SB_PerformAction n F inp has_out w = Some ((Some True, out), w')"
  shows "length (disk w') = length (disk w)
    \<and> (\<forall>i < 4. disk w' ! (446 + 16 * i) = (if i + 1 = (of_char c :: nat) - 48 then 0x80 else 0))
    \<and> (\<forall>j. (\<forall>i < 4. j \<noteq> 446 + 16 * i) \<longrightarrow> disk w' ! j = disk w ! j)"
proof -
  let ?k = "(of_char c :: nat) - 48"
  have bd: "bootable_device inp = Some (dev, ?k)"
    using run dev by (auto simp: SB_PerformAction_def bootable_device_def Let_def split: if_splits)
  obtain m w1 where rd: "ReadMbr F 512 dev w = (m, w1)" by fastforce
  from run bd rd obtain mbr w2 where m: "m = Some mbr"
    and wr: "WriteMbr n F (set_flags ?k mbr) dev w1 = Some (True, w')"
    by (auto simp: SB_PerformAction_def bind_eq_Some_iff split: option.splits if_splits)
  obtain d v where o: "sys_open F dev 0 0 w = (d, v)" by fastforce
  obtain r buf v' where rb: "sys_read F d 512 v = ((r, buf), v')" by (metis prod.collapse)
  have od: "disk v = disk w" "disk v' = disk v" "0 \<le> r \<Longrightarrow> buf = take (nat r) (disk v)"
    using ok o rb unfolding disk_file_ok_def by blast+
  have w1: "disk w1 = disk w" and mbr: "mbr = take 512 (disk w)"
    using rd m o rb od ok[unfolded disk_file_ok_def, THEN conjunct2, THEN conjunct1]
    by (auto simp: ReadMbr_def Let_def split: if_splits)
  have lm: "length mbr = 512" using mbr len by simp
  obtain e u where oe: "sys_open F dev 1 438 w1 = (e, u)" by fastforce
  from wr oe obtain u' where e: "0 \<le> e" and loop: "write_mbr_loop n F e (set_flags ?k mbr) 0 u = Some (True, u')"
    and w': "w' = snd (sys_close F e u')"
    by (auto simp: WriteMbr_def bind_eq_Some_iff split: if_splits)
  note wf = disk_file_write(1,2)[OF ok oe e]
  have "disk u' = set_flags ?k mbr @ drop (length (set_flags ?k mbr)) (disk u)"
    by (rule write_mbr_loop_disk[OF ok oe e loop]) (use wf w1 lm len in auto)
  moreover have "disk w' = disk u'" using ok w' unfolding disk_file_ok_def by blast
  ultimately have d': "disk w' = set_flags ?k mbr @ drop 512 (disk w)" using wf w1 lm by simp
  have low: "disk w' ! j = set_flags ?k mbr ! j" if "j < 512" for j using d' lm that by (simp add: nth_append)
  have "disk w' ! j = disk w ! j" if "\<forall>i < 4. j \<noteq> 446 + 16 * i" for j
  proof (cases "j < 512")
    case True
    then show ?thesis using low set_flags_other[OF that] mbr by simp
  next
    case False
    then show ?thesis using d' lm len by (simp add: nth_append)
  qed
  moreover have "disk w' ! (446 + 16 * i) = (if i + 1 = ?k then 0x80 else 0)" if "i < 4" for i
    using low[of "446 + 16 * i"] set_flags_flag[OF lm that, of ?k] that by simp
  ultimately show ?thesis using d' lm len by simp
qed

text \<open>A disk for the witness: its bytes and the position; a write takes at most 300 bytes.\<close>

definition disk_fs :: "(byte list \<times> nat) fs" where
  "disk_fs = null_fs
     \<lparr>sys_open := (\<lambda>path flags mode w. (3, (fst w, 0))),
      sys_read := (\<lambda>d k w. ((int (length (take k (fst w))), take k (fst w)), w)),
      sys_write := (\<lambda>d bs w. (int (length (take 300 bs)),
        (take (snd w) (fst w) @ take 300 bs @ drop (snd w + length (take 300 bs)) (fst w),
         snd w + length (take 300 bs))))\<rparr>"

lemma disk_fs_ok: "disk_file_ok disk_fs dev fst snd"
  by (auto simp: disk_file_ok_def disk_fs_def null_fs_def min_def)

definition demo_disk :: "byte list" where
  "demo_disk = replicate 446 7 @ replicate 64 9 @ [0x55, 0xaa, 1]"

theorem SetBootableFlag_sets_one_witness:
  "\<exists>out w'. SB_PerformAction (Suc (Suc (Suc 0))) disk_fs (Some (''/dev/sda'' @ ''3'')) True (demo_disk, 0) = Some ((Some True, out), w')
    \<and> fst w' ! (446 + 16 * 2) = 0x80 \<and> fst w' ! 446 = 0 \<and> fst w' ! 512 = demo_disk ! 512"
proof -
  have "map_option (\<lambda>r. fst (fst r)) (SB_PerformAction (Suc (Suc (Suc 0))) disk_fs (Some (''/dev/sda'' @ ''3'')) True (demo_disk, 0))
      = Some (Some True)"
  proof -
    have b: "bootable_device (Some ''/dev/sda3'') = Some (''/dev/sda'', 3)" by code_simp
    have m: "ReadMbr disk_fs 512 ''/dev/sda'' (demo_disk, 0) = (Some (take 512 demo_disk), (demo_disk, 0))"
      by (simp add: ReadMbr_def disk_fs_def null_fs_def demo_disk_def)
    have sig: "take 512 demo_disk ! 510 = 0x55" "take 512 demo_disk ! 511 = 0xaa"
      by (simp_all add: demo_disk_def nth_append)
    have len: "length (set_flags 3 (take 512 demo_disk)) = 512" by (simp add: demo_disk_def)
    have "map_option fst (WriteMbr (Suc (Suc (Suc 0))) disk_fs (set_flags 3 (take 512 demo_disk)) ''/dev/sda'' (demo_disk, 0))
        = Some True"
      using len by (simp add: WriteMbr_def disk_fs_def null_fs_def)
    with b m sig show ?thesis by (auto simp: SB_PerformAction_def)
  qed
  then obtain out w' where r: "SB_PerformAction (Suc (Suc (Suc 0))) disk_fs (Some (''/dev/sda'' @ ''3'')) True (demo_disk, 0)
      = Some ((Some True, out), w')" by auto
  have len: "512 \<le> length (fst (demo_disk, 0 :: nat))" by (simp add: demo_disk_def)
  from SetBootableFlag_sets_one[OF disk_fs_ok _ _ _ len r, of "''/dev/sda''" "CHR ''3''"]
  have "\<forall>i < 4. fst w' ! (446 + 16 * i) = (if i + 1 = (of_char CHR ''3'' :: nat) - 48 then 0x80 else 0)"
    and o: "\<forall>j. (\<forall>i < 4. j \<noteq> 446 + 16 * i) \<longrightarrow> fst w' ! j = demo_disk ! j" by simp_all
  from this(1)[rule_format, of 2] this(1)[rule_format, of 0] o[rule_format, of 512] r show ?thesis by auto
qed

end
