(* ===== verification/UE_Codecs.thy ===== *)
theory UE_Codecs
  imports UE_Extents
begin

text \<open>
  The code around the compression and hash libraries: \<open>gzip.cc\<close>,
  \<open>decompressing_file_writer.cc\<close>, \<open>bzip_extent_writer.cc\<close> and
  \<open>omaha_hash_calculator.cc\<close>.

  zlib, libbz2 and OpenSSL are parameters. One call of \<open>inflate\<close>, \<open>deflate\<close> or
  \<open>BZ2_bzDecompress\<close> takes the library's state, the input that is left and the room for
  output, and gives a return code, the input it left, the output it made and its new
  state.
\<close>

datatype zrc = Z_OK | Z_STREAM_END | Z_BUF_ERROR | Z_OTHER

type_synonym 'z codec = "'z \<Rightarrow> byte list \<Rightarrow> nat \<Rightarrow> zrc \<times> byte list \<times> byte list \<times> 'z"

section \<open>gzip.cc\<close>

text \<open>
  The loop that both \<open>GzipDecompressData\<close> and \<open>GzipCompressData\<close> have: the library is
  called with \<open>Z_FINISH\<close> until the stream ends, and the output buffer is doubled
  whenever it is full. \<open>out\<close> is what \<open>next_out\<close> has passed, \<open>out_size\<close> the size of
  the buffer, a 32-bit \<open>size_t\<close>. \<open>realloc_ok\<close> says which sizes can be allocated and
  \<open>end_ok\<close> whether \<open>inflateEnd\<close> or \<open>deflateEnd\<close> succeeds.
\<close>

fun grow_loop ::
    "nat \<Rightarrow> 'z codec \<Rightarrow> ('z \<Rightarrow> bool) \<Rightarrow> (nat \<Rightarrow> bool) \<Rightarrow> 'z \<Rightarrow> byte list \<Rightarrow> nat \<Rightarrow> nat \<Rightarrow> byte list \<Rightarrow>
     (bool \<times> byte list) option" where
  "grow_loop 0 step end_ok realloc_ok z inp avail_out out_size out = None"
| "grow_loop (Suc n) step end_ok realloc_ok z inp avail_out out_size out =
     (let (rc, inp, new, z) = step z inp avail_out; out = out @ new in
      case rc of
        Z_STREAM_END \<Rightarrow> Some (end_ok z, out)
      | Z_OTHER \<Rightarrow> Some (False, [])
      | _ \<Rightarrow>
          (let out_length = length out; out_size = (out_size * 2) mod size_bound in
           if \<not> realloc_ok out_size then Some (False, [])
           else grow_loop n step end_ok realloc_ok z inp
                  ((out_size + size_bound - out_length) mod size_bound) out_size out))"

definition GzipDecompressData ::
    "nat \<Rightarrow> 'z codec \<Rightarrow> ('z \<Rightarrow> bool) \<Rightarrow> (nat \<Rightarrow> bool) \<Rightarrow> 'z option \<Rightarrow> byte list \<Rightarrow>
     (bool \<times> byte list) option" where
  "GzipDecompressData n inflate end_ok malloc_ok init inp =
     (if length inp = 0 then Some (True, [])
      else case init of
        None \<Rightarrow> Some (False, [])
      | Some z \<Rightarrow>
          (let out_size = (length inp * 2) mod size_bound in
           if \<not> malloc_ok out_size then Some (False, [])
           else grow_loop n inflate end_ok malloc_ok z inp out_size out_size []))"

definition GzipCompressData ::
    "nat \<Rightarrow> 'z codec \<Rightarrow> ('z \<Rightarrow> bool) \<Rightarrow> (nat \<Rightarrow> bool) \<Rightarrow> 'z option \<Rightarrow> byte list \<Rightarrow>
     (bool \<times> byte list) option" where
  "GzipCompressData n deflate end_ok malloc_ok init inp =
     (if length inp = 0 then Some (True, [])
      else case init of
        None \<Rightarrow> Some (False, [])
      | Some z \<Rightarrow>
          (let out_size = max 1 (length inp div 2) in
           if \<not> malloc_ok out_size then Some (False, [])
           else grow_loop n deflate end_ok malloc_ok z inp out_size out_size []))"

text \<open>
  \<open>GzipCompress\<close>, \<open>GzipCompressString\<close>, \<open>GzipDecompress\<close> and \<open>GzipDecompressString\<close>
  append the result to \<open>out\<close>; \<open>data\<close> is the call of \<open>GzipCompressData\<close> or
  \<open>GzipDecompressData\<close> they make.
\<close>

definition gzip_append ::
    "(bool \<times> byte list) option \<Rightarrow> byte list \<Rightarrow> (bool \<times> byte list) option" where
  "gzip_append data out = do {
     (ok, buf) \<leftarrow> data;
     if ok then Some (True, out @ buf) else Some (False, out) }"

definition GzipCompress where
  "GzipCompress n deflate end_ok malloc_ok init inp out =
     gzip_append (GzipCompressData n deflate end_ok malloc_ok init inp) out"

definition GzipDecompress where
  "GzipDecompress n inflate end_ok malloc_ok init inp out =
     gzip_append (GzipDecompressData n inflate end_ok malloc_ok init inp) out"

section \<open>GzipDecompressingFileWriter\<close>

record 'z gz_writer =
  gz_stream :: 'z
  avail_in :: "byte list"

text \<open>
  \<open>next_write\<close> is \<open>Write\<close> of the underlying \<open>FileWriter\<close>, whose result the loop
  does not look at. The variable \<open>retcode\<close> the loop tests is never assigned: the
  assignment in the body declares another variable of that name, so the loop ends only by
  the \<open>return\<close> and the \<open>break\<close> in its body.
\<close>

fun gz_write_loop ::
    "nat \<Rightarrow> 'z codec \<Rightarrow> (byte list \<Rightarrow> 's \<Rightarrow> (int \<times> 's) option) \<Rightarrow> 'z gz_writer \<times> 's \<Rightarrow>
     (bool \<times> 'z gz_writer \<times> 's) option" where
  "gz_write_loop 0 inflate next_write gs = None"
| "gz_write_loop (Suc n) inflate next_write (g, s) =
     (let (retcode, rest, buf, z) = inflate (gz_stream g) (avail_in g) 1024;
          g = g\<lparr>gz_stream := z, avail_in := rest\<rparr> in
      if retcode = Z_OTHER then Some (False, g, s)
      else if length buf > 0 then do {
        (rc, s) \<leftarrow> next_write buf s;
        gz_write_loop n inflate next_write (g, s) }
      else do {
        CHECK (rest = []);
        Some (True, g, s) })"

definition GZW_Write ::
    "nat \<Rightarrow> 'z codec \<Rightarrow> (byte list \<Rightarrow> 's \<Rightarrow> (int \<times> 's) option) \<Rightarrow> byte list \<Rightarrow> 'z gz_writer \<times> 's \<Rightarrow>
     (int \<times> 'z gz_writer \<times> 's) option" where
  "GZW_Write n inflate next_write bytes gs =
     (case gs of (g, s) \<Rightarrow>
       if avail_in g \<noteq> [] then Some (-1, g, s)
       else do {
         (ok, g, s) \<leftarrow> gz_write_loop n inflate next_write (g\<lparr>avail_in := bytes\<rparr>, s);
         Some (if ok then int_of_size (length bytes) else 0, g, s) })"

definition new_GZW :: "'z option \<Rightarrow> 'z gz_writer option" where
  "new_GZW init = do { z \<leftarrow> init; Some \<lparr>gz_stream = z, avail_in = []\<rparr> }"

section \<open>BzipExtentWriter\<close>

record 'z bz_writer =
  bz_stream :: 'z
  input_buffer :: "byte list"

definition kOutputBufferLength :: nat where
  "kOutputBufferLength = 1024 * 1024"

text \<open>
  \<open>BZ_OK\<close> and \<open>BZ_STREAM_END\<close> are \<^term>\<open>Z_OK\<close> and \<^term>\<open>Z_STREAM_END\<close>; every other code
  of \<open>BZ2_bzDecompress\<close> is an error.
\<close>

definition BZW_Init ::
    "('z \<Rightarrow> bool \<times> 'z) \<Rightarrow> (int \<Rightarrow> extent list \<Rightarrow> nat \<Rightarrow> 's \<Rightarrow> bool \<times> 's) \<Rightarrow>
     int \<Rightarrow> extent list \<Rightarrow> nat \<Rightarrow> 'z bz_writer \<times> 's \<Rightarrow> bool \<times> 'z bz_writer \<times> 's" where
  "BZW_Init bz_init u_init d es bs bs_state =
     (case bs_state of (b, s) \<Rightarrow>
       (let (ok, z) = bz_init (bz_stream b); b = b\<lparr>bz_stream := z\<rparr> in
        if \<not> ok then (False, b, s)
        else (let (ok, s) = u_init d es bs s in (ok, b, s))))"

fun bz_write_loop ::
    "nat \<Rightarrow> 'z codec \<Rightarrow> (byte list \<Rightarrow> 's \<Rightarrow> (bool \<times> 's) option) \<Rightarrow> 'z \<Rightarrow> byte list \<Rightarrow> 's \<Rightarrow>
     (bool \<times> 'z \<times> byte list \<times> 's) option" where
  "bz_write_loop 0 bz u_write z inp s = None"
| "bz_write_loop (Suc n) bz u_write z inp s =
     (let (rc, inp, new, z) = bz z inp kOutputBufferLength in
      if \<not> (rc = Z_OK \<or> rc = Z_STREAM_END) then Some (False, z, inp, s)
      else if new = [] then Some (True, z, inp, s)
      else do {
        (ok, s) \<leftarrow> u_write new s;
        if \<not> ok then Some (False, z, inp, s)
        else do {
          CHECK (rc = Z_STREAM_END \<longrightarrow> inp = []);
          if inp = [] then Some (True, z, inp, s)
          else bz_write_loop n bz u_write z inp s } })"

definition BZW_Write ::
    "nat \<Rightarrow> 'z codec \<Rightarrow> (byte list \<Rightarrow> 's \<Rightarrow> (bool \<times> 's) option) \<Rightarrow> byte list \<Rightarrow> 'z bz_writer \<times> 's \<Rightarrow>
     (bool \<times> 'z bz_writer \<times> 's) option" where
  "BZW_Write n bz u_write bytes bs =
     (case bs of (b, s) \<Rightarrow>
       (let buf = input_buffer b @ bytes in do {
          (ok, z, rest, s) \<leftarrow> bz_write_loop n bz u_write (bz_stream b) buf s;
          if ok then Some (True, b\<lparr>bz_stream := z, input_buffer := drop (length buf - length rest) buf\<rparr>, s)
          else Some (False, b\<lparr>bz_stream := z, input_buffer := buf\<rparr>, s) }))"

definition BZW_End ::
    "('z \<Rightarrow> bool) \<Rightarrow> ('s \<Rightarrow> (bool \<times> 's) option) \<Rightarrow> 'z bz_writer \<times> 's \<Rightarrow>
     (bool \<times> 'z bz_writer \<times> 's) option" where
  "BZW_End bz_end_ok u_end bs =
     (case bs of (b, s) \<Rightarrow>
       if input_buffer b \<noteq> [] then Some (False, b, s)
       else if \<not> bz_end_ok (bz_stream b) then Some (False, b, s)
       else do { (ok, s) \<leftarrow> u_end s; Some (ok, b, s) })"

section \<open>OmahaHashCalculator\<close>

text \<open>
  \<open>'c sha1\<close> holds the calls into OpenSSL: the three of SHA1 on a context and the base64
  filter, whose output ends in a newline. A call that does not return 1 is
  \<^term>\<open>None\<close>.
\<close>

record 'c sha1 =
  SHA1_Init :: "'c option"
  SHA1_Update :: "'c \<Rightarrow> byte list \<Rightarrow> 'c option"
  SHA1_Final :: "'c \<Rightarrow> (byte list \<times> 'c) option"
  base64_lines :: "byte list \<Rightarrow> string option"

record 'c hash_calculator =
  hc_ctx :: 'c
  hc_hash :: string

definition new_OmahaHashCalculator :: "'c sha1 \<Rightarrow> 'c hash_calculator option" where
  "new_OmahaHashCalculator H = do {
     c \<leftarrow> SHA1_Init H;
     Some \<lparr>hc_ctx = c, hc_hash = []\<rparr> }"

definition HC_Update :: "'c sha1 \<Rightarrow> byte list \<Rightarrow> 'c hash_calculator \<Rightarrow> 'c hash_calculator option" where
  "HC_Update H bytes h = do {
     CHECK (hc_hash h = []);
     c \<leftarrow> SHA1_Update H (hc_ctx h) bytes;
     Some (h\<lparr>hc_ctx := c\<rparr>) }"

definition HC_Finalize :: "'c sha1 \<Rightarrow> 'c hash_calculator \<Rightarrow> 'c hash_calculator option" where
  "HC_Finalize H h = do {
     CHECK (hc_hash h = []);
     (md, c) \<leftarrow> SHA1_Final H (hc_ctx h);
     s \<leftarrow> base64_lines H md;
     Some (h\<lparr>hc_ctx := c, hc_hash := take (length s - 1) s\<rparr>) }"

definition HC_hash :: "'c hash_calculator \<Rightarrow> string option" where
  "HC_hash h = do { CHECK (hc_hash h \<noteq> []); Some (hc_hash h) }"

definition OmahaHashOfBytes :: "'c sha1 \<Rightarrow> byte list \<Rightarrow> string option" where
  "OmahaHashOfBytes H bytes = do {
     h \<leftarrow> new_OmahaHashCalculator H;
     h \<leftarrow> HC_Update H bytes h;
     h \<leftarrow> HC_Finalize H h;
     HC_hash h }"

section \<open>What the compression code guarantees\<close>

subsection \<open>The doubling buffer\<close>

text \<open>
  The documented behaviour of \<open>deflate\<close> and \<open>inflate\<close> with \<open>Z_FINISH\<close>:
  \<open>rest z inp\<close> is the output still to come. A call makes the next part of it, at most
  as much as there is room for; when all of it fits, the call makes it and reports the
  end of the stream, and it reports the end only then.
\<close>

definition finish_ok :: "'z codec \<Rightarrow> ('z \<Rightarrow> byte list \<Rightarrow> byte list) \<Rightarrow> bool" where
  "finish_ok step rest \<longleftrightarrow>
     (\<forall>z inp n rc inp' new z'. step z inp n = (rc, inp', new, z') \<longrightarrow>
        new @ rest z' inp' = rest z inp \<and> length new \<le> n \<and> rc \<noteq> Z_OTHER
        \<and> (length (rest z inp) \<le> n \<longrightarrow> rc = Z_STREAM_END)
        \<and> (rc = Z_STREAM_END \<longrightarrow> rest z' inp' = []))"

lemma finish_okD:
  assumes "finish_ok step rest" "step z inp n = (rc, inp', new, z')"
  shows "new @ rest z' inp' = rest z inp" "length new \<le> n" "rc \<noteq> Z_OTHER"
    "length (rest z inp) \<le> n \<Longrightarrow> rc = Z_STREAM_END" "rc = Z_STREAM_END \<Longrightarrow> rest z' inp' = []"
  using assms unfolding finish_ok_def by blast+

lemma mod_diff_below:
  fixes a k m :: nat
  assumes "k \<le> a" "a < m"
  shows "(a + m - k) mod m = a - k"
proof -
  have "a + m - k = (a - k) + m" using assms(1) by simp
  then show ?thesis using assms(2) by (simp only: mod_add_self2) simp
qed

lemma grow_loop_spec:
  assumes step: "finish_ok step rest" and mem: "\<And>k. k < size_bound \<Longrightarrow> realloc_ok k" and fin: "\<And>z. end_ok z"
    and small: "length out + length (rest z inp) \<le> 2 ^ 31" and room: "avail = out_size - length out"
    and fits: "length out \<le> out_size" "0 < out_size" and fuel: "length out + length (rest z inp) \<le> out_size * 2 ^ n"
  shows "grow_loop (Suc n) step end_ok realloc_ok z inp avail out_size out = Some (True, out @ rest z inp)"
  using small room fits fuel
proof (induction n arbitrary: z inp avail out_size out)
  case 0
  obtain rc inp' new z' where s: "step z inp avail = (rc, inp', new, z')" by (metis prod_cases4)
  with finish_okD[OF step s] 0 fin show ?case by auto
next
  case (Suc n)
  let ?L = "length out + length (rest z inp)"
  obtain rc inp' new z' where s: "step z inp avail = (rc, inp', new, z')" by (metis prod_cases4)
  note d = finish_okD[OF step s]
  show ?case
  proof (cases "rc = Z_STREAM_END")
    case True
    with d s fin show ?thesis by auto
  next
    case False
    with d(4) Suc.prems(2,3) have small: "out_size < ?L" by force
    let ?out = "out @ new"
    have L: "length ?out + length (rest z' inp') = ?L" using d(1) by (metis add.assoc length_append)
    have dbl: "out_size * 2 < size_bound"
      using small Suc.prems(1) by (simp add: size_bound_def)
    have le: "length ?out \<le> out_size" using d(2) Suc.prems(2,3) by simp
    then have av: "(out_size * 2 + size_bound - length ?out) mod size_bound = out_size * 2 - length ?out"
      using dbl by (intro mod_diff_below) linarith+
    have "grow_loop (Suc n) step end_ok realloc_ok z' inp' (out_size * 2 - length ?out) (out_size * 2) ?out
        = Some (True, ?out @ rest z' inp')"
      by (rule Suc.IH) (use L le Suc.prems in \<open>simp_all add: algebra_simps\<close>)
    moreover have "?out @ rest z' inp' = out @ rest z inp" using d(1) by simp
    ultimately show ?thesis
      using False d(3) s av dbl mem[OF dbl] by (cases rc) (simp_all del: grow_loop.simps(2) add: grow_loop.simps(2)[of "Suc n"])
  qed
qed

lemma GzipDecompressData_spec:
  assumes "finish_ok inflate rest" "\<And>k. k < size_bound \<Longrightarrow> malloc_ok k" "\<And>z. end_ok z"
    and "length inp < 2 ^ 31" "length (rest z inp) \<le> 2 ^ 31" "32 \<le> n" "inp \<noteq> []"
  shows "GzipDecompressData n inflate end_ok malloc_ok (Some z) inp = Some (True, rest z inp)"
proof -
  obtain m where n: "n = Suc m" "31 \<le> m" using assms(6) by (cases n) auto
  have two: "(2::nat) ^ 31 \<le> 2 ^ m" using n(2) by (intro power_increasing) auto
  have "1 * 2 ^ 31 \<le> length inp * 2 * 2 ^ m"
    by (rule mult_le_mono[OF _ two]) (use assms(7) in \<open>cases inp; simp\<close>)
  then have le: "length (rest z inp) \<le> length inp * 2 * 2 ^ m" using assms(5) by linarith
  have "length inp * 2 < size_bound" using assms(4) by (simp add: size_bound_def)
  moreover have "grow_loop (Suc m) inflate end_ok malloc_ok z inp (length inp * 2) (length inp * 2) []
      = Some (True, [] @ rest z inp)"
    by (rule grow_loop_spec[OF assms(1,2,3)]) (use assms(5,7) le in auto)
  ultimately show ?thesis
    using n assms(7) assms(2) by (simp add: GzipDecompressData_def)
qed

lemma GzipCompressData_spec:
  assumes "finish_ok deflate rest" "\<And>k. k < size_bound \<Longrightarrow> malloc_ok k" "\<And>z. end_ok z"
    and "length inp < 2 ^ 31" "length (rest z inp) \<le> 2 ^ 31" "32 \<le> n" "inp \<noteq> []"
  shows "GzipCompressData n deflate end_ok malloc_ok (Some z) inp = Some (True, rest z inp)"
proof -
  obtain m where n: "n = Suc m" "31 \<le> m" using assms(6) by (cases n) auto
  have two: "(2::nat) ^ 31 \<le> 2 ^ m" using n(2) by (intro power_increasing) auto
  let ?k = "max 1 (length inp div 2)"
  have "1 * 2 ^ 31 \<le> ?k * 2 ^ m"
    by (rule mult_le_mono[OF _ two]) simp
  then have le: "length (rest z inp) \<le> ?k * 2 ^ m" using assms(5) by linarith
  have "?k < size_bound" using assms(4) by (simp add: size_bound_def)
  moreover have "grow_loop (Suc m) deflate end_ok malloc_ok z inp ?k ?k []
      = Some (True, [] @ rest z inp)"
    by (rule grow_loop_spec[OF assms(1,2,3)]) (use assms(5,7) le in auto)
  ultimately show ?thesis
    using n assms(7) assms(2) by (simp add: GzipCompressData_def)
qed


text \<open>A library for witnesses, which copies its input.\<close>

definition copy_codec :: "unit codec" where
  "copy_codec z inp n =
     (if drop n inp = [] then Z_STREAM_END else Z_OK, drop n inp, take n inp, z)"

lemma copy_codec_finish_ok: "finish_ok copy_codec (\<lambda>_ inp. inp)"
  by (auto simp: finish_ok_def copy_codec_def)


subsection \<open>Decompressing while writing\<close>

text \<open>
  The documented behaviour of a streaming decompressor: it consumes a prefix of its
  input (\<open>eaten\<close> is all it ever consumed) and makes output (\<open>emitted\<close> is all it ever
  made), no more than there is room for, and from a given input it can make only so much
  (\<open>pending\<close>). When it is given room and makes nothing, and does not fail, it has
  consumed all of its input.
\<close>

definition decoder_ok ::
    "'z codec \<Rightarrow> ('z \<Rightarrow> byte list) \<Rightarrow> ('z \<Rightarrow> byte list) \<Rightarrow> ('z \<Rightarrow> byte list \<Rightarrow> nat) \<Rightarrow> bool" where
  "decoder_ok dec eaten emitted pending \<longleftrightarrow>
     (\<forall>z inp n rc inp' new z'. dec z inp n = (rc, inp', new, z') \<longrightarrow>
        (\<exists>c. inp = c @ inp' \<and> eaten z' = eaten z @ c)
        \<and> emitted z' = emitted z @ new \<and> length new \<le> n
        \<and> length new + pending z' inp' \<le> pending z inp
        \<and> (0 < n \<longrightarrow> new = [] \<longrightarrow> rc \<noteq> Z_OTHER \<longrightarrow> inp' = []))"

lemma decoder_okD:
  assumes "decoder_ok dec eaten emitted pending" "dec z inp n = (rc, inp', new, z')"
  shows "\<exists>c. inp = c @ inp' \<and> eaten z' = eaten z @ c" "emitted z' = emitted z @ new" "length new \<le> n"
    "length new + pending z' inp' \<le> pending z inp"
    "0 < n \<Longrightarrow> new = [] \<Longrightarrow> rc \<noteq> Z_OTHER \<Longrightarrow> inp' = []"
  using assms unfolding decoder_ok_def by blast+

context extent_sink
begin

lemma bz_write_loop_sent:
  assumes dec: "decoder_ok bz eaten emitted pending" and fit: "\<And>xs. length xs \<le> kOutputBufferLength \<Longrightarrow> fits xs"
    and good: "good s" and run: "bz_write_loop n bz u_write z inp s = Some (True, z', rest, s')"
  shows "\<exists>out c. sent out s s' \<and> good s' \<and> emitted z' = emitted z @ out
    \<and> inp = c @ rest \<and> eaten z' = eaten z @ c"
  using good run
proof (induction n arbitrary: z inp s)
  case 0
  then show ?case by simp
next
  case (Suc n)
  obtain rc inp' new z1 where st: "bz z inp kOutputBufferLength = (rc, inp', new, z1)" by (metis prod_cases4)
  note d = decoder_okD[OF dec st]
  then obtain c where c: "inp = c @ inp'" "eaten z1 = eaten z @ c" by auto
  show ?case
  proof (cases "new = []")
    case True
    with Suc.prems st d(2) c sent_Nil show ?thesis by (auto split: if_splits)
  next
    case False
    with Suc.prems st obtain s1 where w: "u_write new s = Some (True, s1)"
      by (auto simp: bind_eq_Some_iff split: if_splits)
    from write_sent[OF Suc.prems(1) fit[OF d(3)] w] have s1: "sent new s s1" "good s1" by auto
    show ?thesis
    proof (cases "inp' = []")
      case True
      with False Suc.prems st w d(2) c s1 show ?thesis by (auto split: if_splits)
    next
      case more: False
      with False Suc.prems(2) st w have "bz_write_loop n bz u_write z1 inp' s1 = Some (True, z', rest, s')"
        by (auto split: if_splits)
      from Suc.IH[OF s1(2) this] obtain out c' where
        IH: "sent out s1 s'" "good s'" "emitted z' = emitted z1 @ out" "inp' = c' @ rest" "eaten z' = eaten z1 @ c'"
        by auto
      with s1(1) d(2) c show ?thesis
        by (intro exI[of _ "new @ out"] exI[of _ "c @ c'"]) (auto intro: sent_append)
    qed
  qed
qed

lemma BZW_Write_sent:
  assumes "decoder_ok bz eaten emitted pending" "\<And>xs. length xs \<le> kOutputBufferLength \<Longrightarrow> fits xs"
    and "good s" and "BZW_Write n bz u_write bytes (b, s) = Some (True, b', s')"
  shows "\<exists>out. sent out s s' \<and> good s' \<and> emitted (bz_stream b') = emitted (bz_stream b) @ out
    \<and> eaten (bz_stream b') @ input_buffer b' = eaten (bz_stream b) @ input_buffer b @ bytes"
proof -
  from assms(4) obtain z rest where
    run: "bz_write_loop n bz u_write (bz_stream b) (input_buffer b @ bytes) s = Some (True, z, rest, s')"
    and b': "b' = b\<lparr>bz_stream := z, input_buffer :=
      drop (length (input_buffer b @ bytes) - length rest) (input_buffer b @ bytes)\<rparr>"
    by (auto simp: BZW_Write_def Let_def bind_eq_Some_iff split: if_splits)
  from bz_write_loop_sent[OF assms(1,2,3) run] obtain out c where
    o: "sent out s s'" "good s'" "emitted z = emitted (bz_stream b) @ out"
      "input_buffer b @ bytes = c @ rest" "eaten z = eaten (bz_stream b) @ c" by auto
  have "input_buffer b' = rest" by (simp only: b' o(4)) simp
  with o b' show ?thesis by auto
qed

end

text \<open>Consecutive calls of \<open>Write\<close>, given up at the first that fails.\<close>

fun bz_writes ::
    "(byte list \<Rightarrow> 'b \<times> 's \<Rightarrow> (bool \<times> 'b \<times> 's) option) \<Rightarrow> byte list list \<Rightarrow> 'b \<times> 's \<Rightarrow> ('b \<times> 's) option" where
  "bz_writes wr [] bs = Some bs"
| "bz_writes wr (x # xs) bs =
     (case wr x bs of Some (True, bs') \<Rightarrow> bz_writes wr xs bs' | _ \<Rightarrow> None)"

context extent_sink
begin

lemma bz_writes_sent:
  assumes dec: "decoder_ok bz eaten emitted pending" and fit: "\<And>xs. length xs \<le> kOutputBufferLength \<Longrightarrow> fits xs"
    and good: "good s" and run: "bz_writes (BZW_Write n bz u_write) xs (b, s) = Some (b', s')"
  shows "\<exists>out. sent out s s' \<and> good s' \<and> emitted (bz_stream b') = emitted (bz_stream b) @ out
    \<and> eaten (bz_stream b') @ input_buffer b' = eaten (bz_stream b) @ input_buffer b @ concat xs"
  using good run
proof (induction xs arbitrary: b s)
  case Nil
  then show ?case by (auto intro: sent_Nil)
next
  case (Cons x xs)
  from Cons.prems(2) obtain b1 s1 where w: "BZW_Write n bz u_write x (b, s) = Some (True, b1, s1)"
    and rest: "bz_writes (BZW_Write n bz u_write) xs (b1, s1) = Some (b', s')"
    by (auto split: option.splits bool.splits)
  from BZW_Write_sent[OF dec fit Cons.prems(1) w] obtain o1 where
    1: "sent o1 s s1" "good s1" "emitted (bz_stream b1) = emitted (bz_stream b) @ o1"
      "eaten (bz_stream b1) @ input_buffer b1 = eaten (bz_stream b) @ input_buffer b @ x" by auto
  from Cons.IH[OF 1(2) rest] obtain o2 where
    2: "sent o2 s1 s'" "good s'" "emitted (bz_stream b') = emitted (bz_stream b1) @ o2"
      "eaten (bz_stream b') @ input_buffer b' = eaten (bz_stream b1) @ input_buffer b1 @ concat xs" by auto
  have "eaten (bz_stream b') @ input_buffer b' = (eaten (bz_stream b1) @ input_buffer b1) @ concat xs"
    using 2(4) by simp
  also have "\<dots> = eaten (bz_stream b) @ input_buffer b @ concat (x # xs)" by (simp only: 1(4)) simp
  finally show ?case using 1 2
    by (intro exI[of _ "o1 @ o2"]) (auto intro: sent_append)
qed

lemma bz_stream_sent:
  assumes dec: "decoder_ok bz eaten emitted pending" and fit: "\<And>xs. length xs \<le> kOutputBufferLength \<Longrightarrow> fits xs"
    and good: "good s" and run: "bz_writes (BZW_Write n bz u_write) xs (\<lparr>bz_stream = z, input_buffer = []\<rparr>, s) = Some (b, t)"
    and e: "BZW_End end_ok u_end (b, t) = Some (True, b', u)"
  shows "\<exists>out. sent out s u \<and> emitted (bz_stream b) = emitted z @ out \<and> eaten (bz_stream b) = eaten z @ concat xs"
proof -
  from bz_writes_sent[OF dec fit good run] obtain out where
    o: "sent out s t" "good t" "emitted (bz_stream b) = emitted z @ out"
      "eaten (bz_stream b) @ input_buffer b = eaten z @ concat xs" by auto
  from e have "input_buffer b = []" "u_end t = Some (True, u)"
    by (auto simp: BZW_End_def bind_eq_Some_iff split: if_splits)
  with o end_sent[of t u] sent_append[of out s t "[]" u] show ?thesis by auto
qed

end


text \<open>More fuel does not change what the extent writer does.\<close>

lemma write_all_loop_mono:
  "write_all_loop n P d buf k w = Some r \<Longrightarrow> n \<le> m \<Longrightarrow> write_all_loop m P d buf k w = Some r"
proof (induction n arbitrary: k w m)
  case (Suc n)
  then obtain m' where "m = Suc m'" "n \<le> m'" by (cases m) auto
  with Suc show ?case by (auto split: if_splits prod.splits)
qed simp

lemma dew_put_mono:
  "dew_put n P s e piece w = Some r \<Longrightarrow> n \<le> m \<Longrightarrow> dew_put m P s e piece w = Some r"
  by (auto simp: dew_put_def WriteAll_def Let_def split: if_splits prod.splits intro: write_all_loop_mono)

lemma dew_write_loop_mono:
  "dew_write_loop n P bytes (s, w) = Some r \<Longrightarrow> n \<le> m \<Longrightarrow> dew_write_loop m P bytes (s, w) = Some r"
proof (induction "length bytes" arbitrary: bytes s w r rule: less_induct)
  case less
  show ?case
  proof (cases "bytes \<noteq> [] \<and> next_extent_index s < length (extents s)")
    case False
    with less.prems show ?thesis by (auto simp: dew_write_loop.simps[of n] dew_write_loop.simps[of m])
  next
    case True
    let ?e = "extents s ! next_extent_index s"
    let ?r = "num_blocks ?e * of_nat (block_size s) - extent_bytes_written s"
    let ?k = "unat (min (of_nat (length bytes)) ?r)"
    show ?thesis
    proof (cases "?r \<noteq> 0 \<and> ?k > 0")
      case False
      with True less.prems show ?thesis
        by (subst (asm) dew_write_loop.simps, subst dew_write_loop.simps) (auto simp: Let_def split: if_splits)
    next
      case pos: True
      with True less.prems(1) obtain ok w1 where p: "dew_put n P s ?e (take ?k bytes) w = Some (ok, w1)"
        by (subst (asm) dew_write_loop.simps) (auto simp: Let_def bind_eq_Some_iff)
      note q = dew_put_mono[OF p less.prems(2)]
      obtain ok' s' w' where r: "r = (ok', s', w')" by (cases r)
      show ?thesis
        using True pos p q r less.prems less.hyps[of "drop ?k bytes"]
        by (subst (asm) dew_write_loop.simps, subst dew_write_loop.simps)
           (auto simp: Let_def bind_eq_Some_iff split: if_splits)
    qed
  qed
qed

lemma DEW_Write_mono:
  "DEW_Write n P bytes sw = Some r \<Longrightarrow> n \<le> m \<Longrightarrow> DEW_Write m P bytes sw = Some r"
  by (cases sw) (auto simp: DEW_Write_def split: if_splits intro: dew_write_loop_mono)

text \<open>
  A decompressor for witnesses: it adds one to every byte and remembers what it read and
  made.
\<close>

definition add_one_codec :: "(byte list \<times> byte list) codec" where
  "add_one_codec z inp n =
     (Z_OK, drop n inp, map ((+) 1) (take n inp), (fst z @ take n inp, snd z @ map ((+) 1) (take n inp)))"

lemma add_one_codec_ok: "decoder_ok add_one_codec fst snd (\<lambda>_. length)"
  by (auto simp: decoder_ok_def add_one_codec_def intro!: exI[of _ "take _ _"])


subsection \<open>GzipDecompressingFileWriter\<close>

lemma gz_write_loop_spec:
  assumes dec: "decoder_ok inflate eaten emitted pending" and no_err: "\<forall>z inp n. fst (inflate z inp n) \<noteq> Z_OTHER"
    and nw: "\<And>buf s. good s \<Longrightarrow> length buf \<le> 1024 \<Longrightarrow>
      \<exists>r s'. next_write buf s = Some (r, s') \<and> good s' \<and> log s' = log s @ buf"
    and fuel: "pending (gz_stream g) (avail_in g) < n" and s: "good s"
  shows "\<exists>g' s' out. gz_write_loop n inflate next_write (g, s) = Some (True, g', s') \<and> avail_in g' = [] \<and> good s'
    \<and> eaten (gz_stream g') = eaten (gz_stream g) @ avail_in g
    \<and> emitted (gz_stream g') = emitted (gz_stream g) @ out \<and> log s' = log s @ out"
  using fuel s
proof (induction n arbitrary: g s)
  case (Suc n)
  obtain rc rest buf z where st: "inflate (gz_stream g) (avail_in g) 1024 = (rc, rest, buf, z)" by (metis prod_cases4)
  note d = decoder_okD[OF dec st]
  have rc: "rc \<noteq> Z_OTHER" using no_err st by (metis fst_conv)
  obtain c where c: "avail_in g = c @ rest" "eaten z = eaten (gz_stream g) @ c" using d(1) by blast
  show ?case
  proof (cases "buf = []")
    case True
    with d(5) rc have "rest = []" by simp
    with True rc st c d(2) Suc.prems show ?thesis by auto
  next
    case False
    obtain r s1 where w: "next_write buf s = Some (r, s1)" "good s1" "log s1 = log s @ buf"
      using nw[OF Suc.prems(2) d(3)] by blast
    let ?g = "g\<lparr>gz_stream := z, avail_in := rest\<rparr>"
    have "0 < length buf" using False by simp
    then have "pending z rest < n" using d(4) Suc.prems(1) by linarith
    then have "pending (gz_stream ?g) (avail_in ?g) < n" by simp
    from Suc.IH[OF this w(2)] obtain g' s' out where
      IH: "gz_write_loop n inflate next_write (?g, s1) = Some (True, g', s')" "avail_in g' = []" "good s'"
        "eaten (gz_stream g') = eaten z @ rest" "emitted (gz_stream g') = emitted z @ out" "log s' = log s1 @ out"
      by auto
    with False rc st w c d(2) show ?thesis
      by (intro exI[of _ g'] exI[of _ s'] exI[of _ "buf @ out"]) auto
  qed
qed simp

text \<open>
  The underlying writer only has to return: \<open>good\<close> is what it needs and keeps.
\<close>

definition returns :: "(byte list \<Rightarrow> 's \<Rightarrow> (int \<times> 's) option) \<Rightarrow> ('s \<Rightarrow> bool) \<Rightarrow> bool" where
  "returns nw good \<longleftrightarrow>
     (\<forall>buf s. good s \<longrightarrow> length buf \<le> 1024 \<longrightarrow> (\<exists>r s'. nw buf s = Some (r, s') \<and> good s'))"

lemma gz_write_loop_any_writer:
  assumes "returns next1 good1" "returns next2 good2" "good1 s" "good2 t"
    and len: "\<forall>z inp n. length (fst (snd (snd (inflate z inp n)))) \<le> n"
  shows "map_option (\<lambda>(ok, g, s). (ok, g)) (gz_write_loop n inflate next1 (g, s)) =
    map_option (\<lambda>(ok, g, s). (ok, g)) (gz_write_loop n inflate next2 (g, t))"
  using assms(3,4)
proof (induction n arbitrary: g s t)
  case (Suc n)
  obtain rc rest buf z where st: "inflate (gz_stream g) (avail_in g) 1024 = (rc, rest, buf, z)" by (metis prod_cases4)
  with len have "length buf \<le> 1024" by (metis fst_conv snd_conv)
  with assms(1,2) Suc.prems obtain r1 s1 r2 t2 where "next1 buf s = Some (r1, s1)" "good1 s1"
    "next2 buf t = Some (r2, t2)" "good2 t2" unfolding returns_def by metis
  with st Suc.IH[of s1 t2 "g\<lparr>gz_stream := z, avail_in := rest\<rparr>"] show ?case by (auto simp: Let_def)
qed simp

lemma gz_write_loop_good:
  assumes "returns nw good" "\<forall>z inp n. length (fst (snd (snd (inflate z inp n)))) \<le> n"
  shows "good s \<Longrightarrow> gz_write_loop n inflate nw (g, s) = Some (ok, g', s') \<Longrightarrow> good s'"
proof (induction n arbitrary: g s)
  case (Suc n)
  obtain rc rest buf z where st: "inflate (gz_stream g) (avail_in g) 1024 = (rc, rest, buf, z)" by (metis prod_cases4)
  with assms(2) have "length buf \<le> 1024" by (metis fst_conv snd_conv)
  with assms(1) Suc.prems(1) obtain r1 s1 where "nw buf s = Some (r1, s1)" "good s1"
    unfolding returns_def by metis
  with st Suc.IH[OF \<open>good s1\<close>] Suc.prems show ?case by (auto simp: Let_def split: if_splits)
qed simp

lemma GZW_Write_good:
  assumes "returns nw good" "\<forall>z inp n. length (fst (snd (snd (inflate z inp n)))) \<le> n"
    "good s" "GZW_Write n inflate nw bytes (g, s) = Some (r, g', s')"
  shows "good s'"
  using gz_write_loop_good[OF assms(1,2,3)] assms(3,4)
  by (auto simp: GZW_Write_def bind_eq_Some_iff split: if_splits)

lemma GZW_Write_any_writer:
  assumes "returns next1 good1" "returns next2 good2" "good1 s" "good2 t"
    and "\<forall>z inp n. length (fst (snd (snd (inflate z inp n)))) \<le> n"
  shows "map_option (\<lambda>(r, g, s). (r, g)) (GZW_Write n inflate next1 bytes (g, s))
    = map_option (\<lambda>(r, g, s). (r, g)) (GZW_Write n inflate next2 bytes (g, t))"
proof -
  let ?g = "g\<lparr>avail_in := bytes\<rparr>"
  have "map_option (\<lambda>(ok, g, s). (ok, g)) (gz_write_loop n inflate next1 (?g, s)) =
    map_option (\<lambda>(ok, g, s). (ok, g)) (gz_write_loop n inflate next2 (?g, t))"
    using gz_write_loop_any_writer[OF assms] .
  then show ?thesis
    by (cases "gz_write_loop n inflate next1 (?g, s)"; cases "gz_write_loop n inflate next2 (?g, t)")
       (auto simp: GZW_Write_def)
qed

text \<open>\<open>Write\<close> of a \<open>DirectFileWriter\<close> as the underlying writer.\<close>

definition dfw_next :: "nat \<Rightarrow> 'w posix \<Rightarrow> byte list \<Rightarrow> file_writer \<times> 'w \<Rightarrow> (int \<times> file_writer \<times> 'w) option" where
  "dfw_next n P bytes fw = (case fw of (f, w) \<Rightarrow> do { (r, w) \<leftarrow> DFW_Write n P bytes f w; Some (r, f, w) })"

lemma dfw_write_loop_nonneg:
  assumes "\<forall>bs w. 0 \<le> fst (sys_write P d bs w)" "length buf < 2 ^ 31"
    and "dfw_write_loop k P d buf i v = Some (r, v')"
  shows "0 \<le> r"
  using assms(3)
proof (induction k arbitrary: i v)
  case (Suc k)
  obtain rc w where w: "sys_write P d (drop i buf) v = (rc, w)" by fastforce
  with assms(1) have "0 \<le> rc" by (metis fst_conv)
  with Suc w show ?case by (auto simp: int_of_size_small[OF assms(2)] split: if_splits)
qed simp

lemma DFW_Write_never_fails:
  assumes str: "stream_ok P d data" "\<forall>bs w. 0 \<le> fst (sys_write P d bs w)" and d: "0 \<le> d"
    and small: "length buf < 2 ^ 31" "length buf < m"
  shows "\<exists>r w'. DFW_Write m P buf \<lparr>fd = d\<rparr> w = Some (r, w') \<and> data w' = data w @ buf"
proof -
  from dfw_write_loop_spec[OF str(1), of buf 0 m w] small obtain r w' where
    r: "dfw_write_loop m P d buf 0 w = Some (r, w')" "0 \<le> r \<longrightarrow> data w' = data w @ buf" by auto
  with dfw_write_loop_nonneg[OF str(2) small(1) r(1)] d show ?thesis by (auto simp: DFW_Write_def)
qed

lemma dfw_next_returns:
  assumes "stream_ok P d data" "0 \<le> d" "1024 < m"
  shows "returns (dfw_next m P) (\<lambda>fw. fst fw = \<lparr>fd = d\<rparr>)"
proof -
  have "\<exists>r s'. dfw_next m P buf s = Some (r, s') \<and> fst s' = \<lparr>fd = d\<rparr>"
    if s: "fst s = \<lparr>fd = d\<rparr>" and b: "length buf \<le> 1024" for buf and s :: "file_writer \<times> _"
  proof -
    obtain r w' where "dfw_write_loop m P d buf 0 (snd s) = Some (r, w')"
      using dfw_write_loop_spec[OF assms(1), of buf 0 m "snd s"] b assms(3) by auto
    with s assms(2) show ?thesis by (cases s) (auto simp: dfw_next_def DFW_Write_def)
  qed
  then show ?thesis by (auto simp: returns_def)
qed



text \<open>
  the value \<open>GzipDecompressingFileWriter::Write\<close> returns does not depend on whether
  the underlying writer writes anything: with a system whose every write fails it
  reports the success it reports with one whose every write succeeds, so that a full
  disk or a broken device goes unnoticed.
\<close>

theorem GzipDecompressingFileWriter_ignores_write_errors:
  assumes "stream_ok P d data" and "stream_ok Q d data'" and "0 \<le> d" and "1024 < m"
    and "\<forall>z inp n. length (fst (snd (snd (inflate z inp n)))) \<le> n"
  shows "map_option fst (GZW_Write n inflate (dfw_next m P) bytes (g, \<lparr>fd = d\<rparr>, w)) =
         map_option fst (GZW_Write n inflate (dfw_next m Q) bytes (g, \<lparr>fd = d\<rparr>, v))"
proof -
  have "map_option (\<lambda>(r, g, s). (r, g)) (GZW_Write n inflate (dfw_next m P) bytes (g, \<lparr>fd = d\<rparr>, w)) =
      map_option (\<lambda>(r, g, s). (r, g)) (GZW_Write n inflate (dfw_next m Q) bytes (g, \<lparr>fd = d\<rparr>, v))"
    by (rule GZW_Write_any_writer[OF dfw_next_returns[OF assms(1,3,4)] dfw_next_returns[OF assms(2,3,4)] _ _ assms(5)])
       simp_all
  from arg_cong[OF this, of "map_option fst"] show ?thesis
    by (simp add: option.map_comp comp_def case_prod_unfold)
qed

text \<open>A system whose every write fails, for the witness.\<close>

definition broken_system :: "byte list posix" where
  "broken_system = two_byte_system\<lparr>sys_write := (\<lambda>d bs w. (-5, w))\<rparr>"

lemma broken_system_ok: "stream_ok broken_system d (\<lambda>w. w)"
  by (simp add: stream_ok_def broken_system_def)

theorem GzipDecompressingFileWriter_ignores_write_errors_witness:
  "map_option fst (GZW_Write 9 add_one_codec (dfw_next 1025 broken_system) [1, 2, 3]
       (\<lparr>gz_stream = ([], []), avail_in = []\<rparr>, \<lparr>fd = 3\<rparr>, [])) =
   map_option fst (GZW_Write 9 add_one_codec (dfw_next 1025 two_byte_system) [1, 2, 3]
       (\<lparr>gz_stream = ([], []), avail_in = []\<rparr>, \<lparr>fd = 3\<rparr>, []))"
  by (rule GzipDecompressingFileWriter_ignores_write_errors[OF broken_system_ok two_byte_system_ok])
     (auto simp: add_one_codec_def)

section \<open>Hashing in pieces\<close>

text \<open>
  The documented behaviour of OpenSSL's SHA1: the digest depends on the concatenation of
  the bytes given to \<open>SHA1_Update\<close>, and no call fails; the base64 filter writes a line
  that ends in a newline and is not empty.
\<close>

definition sha1_ok :: "'c sha1 \<Rightarrow> (byte list \<Rightarrow> 'c) \<Rightarrow> (byte list \<Rightarrow> byte list) \<Rightarrow> (byte list \<Rightarrow> string) \<Rightarrow> bool" where
  "sha1_ok H ctx digest b64 \<longleftrightarrow>
     SHA1_Init H = Some (ctx []) \<and>
     (\<forall>xs ys. SHA1_Update H (ctx xs) ys = Some (ctx (xs @ ys))) \<and>
     (\<forall>xs. \<exists>c. SHA1_Final H (ctx xs) = Some (digest xs, c)) \<and>
     (\<forall>md. base64_lines H md = Some (b64 md @ ''\<newline>'') \<and> b64 md \<noteq> [])"

lemma OmahaHashOfBytes_ok:
  "sha1_ok H ctx digest b64 \<Longrightarrow> OmahaHashOfBytes H xs = Some (b64 (digest xs))"
  unfolding sha1_ok_def
  by (auto simp: OmahaHashOfBytes_def new_OmahaHashCalculator_def HC_Update_def HC_Finalize_def HC_hash_def bind_eq_Some_iff)
     (metis append_Nil)

end
