(* ===== verification/UE_Download.thy ===== *)
theory UE_Download
  imports UE_Codecs UE_Fetch UE_Pipes UE_Files
begin

text \<open>
  \<open>DownloadAction\<close> (\<open>download_action.cc\<close>): it reads the install plan, opens the
  output through a direct or a decompressing writer, writes and hashes what the fetcher
  delivers, and at the end compares the hash.

  The environment of the action, a record, holds the system, zlib and OpenSSL, and the
  fuel for the write loops.
\<close>

record ('w, 'z, 'c) dl_env =
  env_posix :: "'w posix"
  env_inflate :: "'z codec"
  env_inflate_init :: "'z option"
  env_sha1 :: "'c sha1"
  env_fuel :: nat

datatype which_writer = DirectWriter | DecompressingWriter

record ('z, 'c) download_action =
  da_url :: string
  da_output_path :: string
  da_hash :: string
  da_should_decompress :: bool
  da_writer :: "which_writer option"
  da_direct :: file_writer
  da_gz :: "'z gz_writer option"
  da_calculator :: "'c hash_calculator"

definition new_DownloadAction :: "('w, 'z, 'c) dl_env \<Rightarrow> ('z, 'c) download_action option" where
  "new_DownloadAction E = do {
     h \<leftarrow> new_OmahaHashCalculator (env_sha1 E);
     Some \<lparr>da_url = [], da_output_path = [], da_hash = [], da_should_decompress = False, da_writer = None,
           da_direct = new_DirectFileWriter, da_gz = None, da_calculator = h\<rparr> }"

text \<open>The calls through \<open>writer_\<close>; a call through a null pointer crashes.\<close>

definition dl_write ::
    "('w, 'z, 'c) dl_env \<Rightarrow> byte list \<Rightarrow> ('z, 'c) download_action \<times> 'w \<Rightarrow>
     (int \<times> ('z, 'c) download_action \<times> 'w) option" where
  "dl_write E bytes aw =
     (case aw of (a, w) \<Rightarrow> do {
        wr \<leftarrow> da_writer a;
        case wr of
          DirectWriter \<Rightarrow> do {
            (r, w) \<leftarrow> DFW_Write (env_fuel E) (env_posix E) bytes (da_direct a) w;
            Some (r, a, w) }
        | DecompressingWriter \<Rightarrow> do {
            g \<leftarrow> da_gz a;
            (r, g, f, w) \<leftarrow> GZW_Write (env_fuel E) (env_inflate E) (dfw_next (env_fuel E) (env_posix E)) bytes
              (g, da_direct a, w);
            Some (r, a\<lparr>da_gz := Some g, da_direct := f\<rparr>, w) } })"

text \<open>Both writers close the direct writer.\<close>

definition dl_close ::
    "('w, 'z, 'c) dl_env \<Rightarrow> ('z, 'c) download_action \<times> 'w \<Rightarrow> (int \<times> ('z, 'c) download_action \<times> 'w) option" where
  "dl_close E aw =
     (case aw of (a, w) \<Rightarrow> do {
        (rc, f, w) \<leftarrow> DFW_Close (env_posix E) (da_direct a) w;
        Some (rc, a\<lparr>da_direct := f\<rparr>, w) })"

text \<open>
  What \<open>PerformAction\<close> does last: it completes the action or begins a transfer. The
  flags are \<open>O_TRUNC | O_WRONLY | O_CREAT | O_LARGEFILE\<close>, the mode is 0644.
\<close>

datatype dl_next = DL_Complete bool | DL_BeginTransfer string

definition DA_PerformAction ::
    "('w, 'z, 'c) dl_env \<Rightarrow> InstallPlan option \<Rightarrow> 'x http_fetcher_scheme \<Rightarrow> ('z, 'c) download_action \<times> 'w \<Rightarrow>
     (dl_next \<times> 'x http_fetcher_scheme \<times> ('z, 'c) download_action \<times> 'w) option" where
  "DA_PerformAction E inp fetcher aw =
     (case aw of (a, w) \<Rightarrow>
       (let fetcher = hf_set_delegate True fetcher in do {
          CHECK (da_writer a = None);
          let a = a\<lparr>da_direct := new_DirectFileWriter\<rparr>;
          plan \<leftarrow> inp;
          let a = a\<lparr>da_should_decompress := is_full_update plan, da_url := download_url plan,
                    da_output_path := install_path plan, da_hash := download_hash plan\<rparr>;
          a \<leftarrow> (if da_should_decompress a then do {
                   g \<leftarrow> new_GZW (env_inflate_init E);
                   Some (a\<lparr>da_gz := Some g, da_writer := Some DecompressingWriter\<rparr>) }
                 else Some (a\<lparr>da_writer := Some DirectWriter\<rparr>));
          (rc, f, w) \<leftarrow> DFW_Open (env_posix E) (da_output_path a) 33345 420 (da_direct a) w;
          let a = a\<lparr>da_direct := f\<rparr>;
          if rc < 0 then Some (DL_Complete False, fetcher, a, w)
          else Some (DL_BeginTransfer (da_url a), fetcher, a, w) }))"

definition DA_TerminateProcessing ::
    "('w, 'z, 'c) dl_env \<Rightarrow> ('f \<Rightarrow> 'f option) \<Rightarrow> 'f \<Rightarrow> ('z, 'c) download_action \<times> 'w \<Rightarrow>
     ('f \<times> ('z, 'c) download_action \<times> 'w) option" where
  "DA_TerminateProcessing E terminate fetcher aw = do {
     CHECK (da_writer (fst aw) \<noteq> None);
     (rc, a, w) \<leftarrow> dl_close E aw;
     CHECK (rc = 0);
     fetcher \<leftarrow> terminate fetcher;
     Some (fetcher, a\<lparr>da_writer := None\<rparr>, w) }"

definition DA_ReceivedBytes ::
    "('w, 'z, 'c) dl_env \<Rightarrow> byte list \<Rightarrow> ('z, 'c) download_action \<times> 'w \<Rightarrow> (('z, 'c) download_action \<times> 'w) option" where
  "DA_ReceivedBytes E bytes aw = do {
     (rc, a, w) \<leftarrow> dl_write E bytes aw;
     if \<not> rc \<ge> 0 then Some (a, w)
     else do {
       h \<leftarrow> HC_Update (env_sha1 E) bytes (da_calculator a);
       Some (a\<lparr>da_calculator := h\<rparr>, w) } }"

text \<open>
  \<open>TransferComplete\<close> gives the flag it completes the action with and whether it puts its
  input object into the output pipe.
\<close>

definition DA_TransferComplete ::
    "('w, 'z, 'c) dl_env \<Rightarrow> bool \<Rightarrow> bool \<Rightarrow> bool \<Rightarrow> ('z, 'c) download_action \<times> 'w \<Rightarrow>
     ((bool \<times> bool) \<times> ('z, 'c) download_action \<times> 'w) option" where
  "DA_TransferComplete E has_inp has_out successful aw = do {
     (a, w) \<leftarrow> (if da_writer (fst aw) \<noteq> None then do {
                  (rc, a, w) \<leftarrow> dl_close E aw;
                  CHECK (rc = 0);
                  Some (a\<lparr>da_writer := None\<rparr>, w) }
                else Some aw);
     (successful, a) \<leftarrow> (if successful then do {
                  h \<leftarrow> HC_Finalize (env_sha1 E) (da_calculator a);
                  s \<leftarrow> HC_hash h;
                  Some (s = da_hash a, a\<lparr>da_calculator := h\<rparr>) }
                else Some (False, a));
     CHECK (successful \<and> has_out \<longrightarrow> has_inp);
     Some ((successful, successful \<and> has_out), a, w) }"

section \<open>DownloadAction as a delegate\<close>

text \<open>
  The action with the world around it, as the fetcher's delegate; \<open>dw_completed\<close> holds the
  flags it completed with.
\<close>

record ('w, 'z, 'c) download_world =
  dw_action :: "('z, 'c) download_action"
  dw_world :: 'w
  dw_has_in :: bool
  dw_has_out :: bool
  dw_completed :: "bool list"

definition download_delegate ::
    "('w, 'z, 'c) dl_env \<Rightarrow> ('f, ('w, 'z, 'c) download_world) fetch_delegate" where
  "download_delegate E =
     \<lparr>ReceivedBytes = (\<lambda>bytes (f, d). do {
        (a, w) \<leftarrow> DA_ReceivedBytes E bytes (dw_action d, dw_world d);
        Some (f, d\<lparr>dw_action := a, dw_world := w\<rparr>) }),
      TransferComplete = (\<lambda>ok (f, d). do {
        ((success, out), a, w) \<leftarrow> DA_TransferComplete E (dw_has_in d) (dw_has_out d) ok (dw_action d, dw_world d);
        Some (f, d\<lparr>dw_action := a, dw_world := w, dw_completed := dw_completed d @ [success]\<rparr>) })\<rparr>"

text \<open>
  The environment of a download that goes well: the system takes every byte and closes
  files, the library hashes as documented, and there is fuel for every buffer the fetcher
  may hand over.
\<close>

definition dl_env_ok ::
    "('w, 'z, 'c) dl_env \<Rightarrow> int \<Rightarrow> ('w \<Rightarrow> byte list) \<Rightarrow> (byte list \<Rightarrow> 'c) \<Rightarrow> (byte list \<Rightarrow> byte list) \<Rightarrow>
     (byte list \<Rightarrow> string) \<Rightarrow> bool" where
  "dl_env_ok E d data ctx digest b64 \<longleftrightarrow>
     stream_ok (env_posix E) d data \<and> (\<forall>bs w. 0 \<le> fst (sys_write (env_posix E) d bs w)) \<and> 0 \<le> d
   \<and> (\<forall>w. fst (sys_close (env_posix E) d w) = 0 \<and> data (snd (sys_close (env_posix E) d w)) = data w)
   \<and> sha1_ok (env_sha1 E) ctx digest b64 \<and> 2 ^ 31 \<le> env_fuel E"

text \<open>A delta download under way: the bytes written are the bytes hashed.\<close>

definition dl_ready ::
    "('w, 'z, 'c) dl_env \<Rightarrow> int \<Rightarrow> ('w \<Rightarrow> byte list) \<Rightarrow> (byte list \<Rightarrow> 'c) \<Rightarrow> (byte list \<Rightarrow> byte list) \<Rightarrow>
     (byte list \<Rightarrow> string) \<Rightarrow> ('w, 'z, 'c) download_world \<Rightarrow> bool" where
  "dl_ready E d data ctx digest b64 x \<longleftrightarrow>
     dl_env_ok E d data ctx digest b64
   \<and> da_writer (dw_action x) = Some DirectWriter \<and> da_direct (dw_action x) = \<lparr>fd = d\<rparr>
   \<and> hc_hash (da_calculator (dw_action x)) = [] \<and> hc_ctx (da_calculator (dw_action x)) = ctx (data (dw_world x))
   \<and> (dw_has_out x \<longrightarrow> dw_has_in x)"

lemma dl_ready_received:
  assumes "dl_ready E d data ctx digest b64 x" "length xs < 2 ^ 31"
  shows "\<exists>x'. ReceivedBytes (download_delegate E) xs (f, x) = Some (f, x') \<and> dl_ready E d data ctx digest b64 x'
    \<and> data (dw_world x') = data (dw_world x) @ xs \<and> dw_completed x' = dw_completed x
    \<and> da_hash (dw_action x') = da_hash (dw_action x)"
proof -
  from assms(1) have env: "dl_env_ok E d data ctx digest b64" and a: "da_writer (dw_action x) = Some DirectWriter"
    "da_direct (dw_action x) = \<lparr>fd = d\<rparr>" "hc_hash (da_calculator (dw_action x)) = []"
    "hc_ctx (da_calculator (dw_action x)) = ctx (data (dw_world x))" by (auto simp: dl_ready_def)
  then have str: "stream_ok (env_posix E) d data" "\<forall>bs w. 0 \<le> fst (sys_write (env_posix E) d bs w)" "0 \<le> d"
    and fuel: "length xs < env_fuel E" and sha: "sha1_ok (env_sha1 E) ctx digest b64"
    using assms(2) by (auto simp: dl_env_ok_def)
  from dfw_write_loop_spec[OF str(1), of xs 0 "env_fuel E" "dw_world x"] fuel assms(2) obtain r w' where
    r: "dfw_write_loop (env_fuel E) (env_posix E) d xs 0 (dw_world x) = Some (r, w')"
      "0 \<le> r \<longrightarrow> data w' = data (dw_world x) @ xs" by auto
  have "0 \<le> r" using dfw_write_loop_nonneg[OF str(2) assms(2) r(1)] .
  moreover have "DFW_Write (env_fuel E) (env_posix E) xs \<lparr>fd = d\<rparr> (dw_world x) = Some (r, w')"
    using r(1) str(3) by (simp add: DFW_Write_def)
  moreover have "SHA1_Update (env_sha1 E) (ctx (data (dw_world x))) xs = Some (ctx (data (dw_world x) @ xs))"
    using sha by (simp add: sha1_ok_def)
  ultimately show ?thesis using assms(1) a r(2)
    by (simp add: download_delegate_def DA_ReceivedBytes_def dl_write_def HC_Update_def dl_ready_def)
qed

lemma dl_ready_completed:
  assumes "dl_ready E d data ctx digest b64 x"
  shows "\<exists>x'. TransferComplete (download_delegate E) ok (f, x) = Some (f, x')
    \<and> data (dw_world x') = data (dw_world x)
    \<and> dw_completed x' = dw_completed x @ [ok \<and> b64 (digest (data (dw_world x))) = da_hash (dw_action x)]"
proof -
  let ?a = "dw_action x" and ?w = "dw_world x"
  from assms have env: "dl_env_ok E d data ctx digest b64" and a: "da_writer ?a = Some DirectWriter"
    "da_direct ?a = \<lparr>fd = d\<rparr>" "hc_hash (da_calculator ?a) = []" "hc_ctx (da_calculator ?a) = ctx (data ?w)"
    "dw_has_out x \<longrightarrow> dw_has_in x" by (auto simp: dl_ready_def)
  obtain w' where close: "sys_close (env_posix E) d ?w = (0, w')" "data w' = data ?w"
    using env unfolding dl_env_ok_def by (metis prod.collapse)
  obtain c where fin: "SHA1_Final (env_sha1 E) (ctx (data ?w)) = Some (digest (data ?w), c)"
    and b: "base64_lines (env_sha1 E) (digest (data ?w)) = Some (b64 (digest (data ?w)) @ ''\<newline>'')"
      "b64 (digest (data ?w)) \<noteq> []"
    using env unfolding dl_env_ok_def sha1_ok_def by blast
  have d: "0 \<le> d" using env by (simp add: dl_env_ok_def)
  show ?thesis
    using a close fin b d
    by (auto simp: download_delegate_def DA_TransferComplete_def dl_close_def DFW_Close_def HC_Finalize_def HC_hash_def)
qed

interpretation download: mock_client "download_delegate E" "dl_ready E d data ctx digest b64"
    "\<lambda>x. data (dw_world x)" dw_completed "\<lambda>x bs. b64 (digest bs) = da_hash (dw_action x)"
    for E :: "('w, 'z, 'c) dl_env" and d data ctx digest b64
proof unfold_locales
  fix x :: "('w, 'z, 'c) download_world" and xs :: "byte list" and f :: mock_fetcher
  assume "dl_ready E d data ctx digest b64 x" "length xs < 2 ^ 31"
  from dl_ready_received[OF this, of f]
  show "\<exists>d'. ReceivedBytes (download_delegate E) xs (f, x) = Some (f, d') \<and> dl_ready E d data ctx digest b64 d'
    \<and> data (dw_world d') = data (dw_world x) @ xs \<and> dw_completed d' = dw_completed x
    \<and> (\<lambda>bs. b64 (digest bs) = da_hash (dw_action d')) = (\<lambda>bs. b64 (digest bs) = da_hash (dw_action x))" by auto
next
  fix x :: "('w, 'z, 'c) download_world" and ok :: bool and f :: mock_fetcher
  assume "dl_ready E d data ctx digest b64 x"
  from dl_ready_completed[OF this, of ok f]
  show "\<exists>d'. TransferComplete (download_delegate E) ok (f, x) = Some (f, d') \<and> data (dw_world d') = data (dw_world x)
    \<and> dw_completed d' = dw_completed x @ [ok \<and> b64 (digest (data (dw_world x))) = da_hash (dw_action x)]" by auto
qed

section \<open>Properties\<close>

text \<open>
  A download from a \<open>MockHttpFetcher\<close>: the action is performed, and when it begins the
  transfer the main loop runs until the fetcher has no more timeouts.
\<close>

definition mock_download ::
    "nat \<Rightarrow> ('w, 'z, 'c) dl_env \<Rightarrow> InstallPlan \<Rightarrow> byte list \<Rightarrow> bool \<Rightarrow> ('z, 'c) download_action \<times> 'w \<Rightarrow>
     (mock_fetcher \<times> ('w, 'z, 'c) download_world) option" where
  "mock_download n E plan doc has_out aw = do {
     (next, f, a, w) \<leftarrow> DA_PerformAction E (Some plan) (new_MockHttpFetcher doc) aw;
     let x = \<lparr>dw_action = a, dw_world = w, dw_has_in = True, dw_has_out = has_out, dw_completed = []\<rparr>;
     case next of
       DL_Complete b \<Rightarrow> Some (f, x\<lparr>dw_completed := [b]\<rparr>)
     | DL_BeginTransfer u \<Rightarrow> do {
         fx \<leftarrow> mock_BeginTransfer (download_delegate E) u (f, x);
         mock_mainloop n (download_delegate E) fx } }"


text \<open>
  A full download: the buffers the fetcher delivers, one after the other, and then the
  end of the transfer. The result is the flag the action completes with.
\<close>

fun dl_receive_all ::
    "('w, 'z, 'c) dl_env \<Rightarrow> byte list list \<Rightarrow> ('z, 'c) download_action \<times> 'w \<Rightarrow> (('z, 'c) download_action \<times> 'w) option" where
  "dl_receive_all E [] aw = Some aw"
| "dl_receive_all E (b # bs) aw = do {
     aw \<leftarrow> DA_ReceivedBytes E b aw;
     dl_receive_all E bs aw }"

definition dl_run ::
    "('w, 'z, 'c) dl_env \<Rightarrow> byte list list \<Rightarrow> ('z, 'c) download_action \<times> 'w \<Rightarrow> bool option" where
  "dl_run E bs aw = do {
     aw \<leftarrow> dl_receive_all E bs aw;
     ((success, _), _) \<leftarrow> DA_TransferComplete E True False True aw;
     Some success }"

definition gz_running :: "int \<Rightarrow> ('z, 'c) download_action \<Rightarrow> bool" where
  "gz_running d a \<longleftrightarrow> da_writer a = Some DecompressingWriter \<and> da_direct a = \<lparr>fd = d\<rparr> \<and> da_gz a \<noteq> None"

lemma gz_received_any_system:
  assumes P: "stream_ok (env_posix E) d data" and Q: "stream_ok (env_posix E') d data'"
    and E': "E' = E\<lparr>env_posix := env_posix E'\<rparr>" and d: "0 \<le> d" "1024 < env_fuel E"
    and len: "\<forall>z inp n. length (fst (snd (snd (env_inflate E z inp n)))) \<le> n" and a: "gz_running d a"
  shows "rel_option (\<lambda>x y. fst x = fst y \<and> gz_running d (fst x)) (DA_ReceivedBytes E bytes (a, w)) (DA_ReceivedBytes E' bytes (a, v))"
proof -
  have same: "env_inflate E' = env_inflate E" "env_sha1 E' = env_sha1 E" "env_fuel E' = env_fuel E"
    by (subst E', simp)+
  obtain g where g: "da_gz a = Some g" using a by (auto simp: gz_running_def)
  have rP: "returns (dfw_next (env_fuel E) (env_posix E)) (\<lambda>fw. fst fw = \<lparr>fd = d\<rparr>)"
    and rQ: "returns (dfw_next (env_fuel E) (env_posix E')) (\<lambda>fw. fst fw = \<lparr>fd = d\<rparr>)"
    using dfw_next_returns[OF P d] dfw_next_returns[OF Q d] by auto
  let ?A = "GZW_Write (env_fuel E) (env_inflate E) (dfw_next (env_fuel E) (env_posix E)) bytes (g, \<lparr>fd = d\<rparr>, w)"
  let ?B = "GZW_Write (env_fuel E) (env_inflate E) (dfw_next (env_fuel E) (env_posix E')) bytes (g, \<lparr>fd = d\<rparr>, v)"
  have eq: "map_option (\<lambda>(r, g, s). (r, g)) ?A = map_option (\<lambda>(r, g, s). (r, g)) ?B"
    by (rule GZW_Write_any_writer[OF rP rQ _ _ len]) simp_all
  show ?thesis
  proof (cases ?A)
    case None
    with eq have "?B = None" by simp
    with None a g show ?thesis by (simp add: DA_ReceivedBytes_def dl_write_def gz_running_def same)
  next
    case (Some x)
    obtain r g1 f1 w1 where A: "?A = Some (r, g1, f1, w1)" using Some by (metis prod_cases4)
    with eq obtain f2 v2 where B: "?B = Some (r, g1, f2, v2)" by (cases ?B) auto
    have "f1 = \<lparr>fd = d\<rparr>" "f2 = \<lparr>fd = d\<rparr>"
      using GZW_Write_good[OF rP len _ A] GZW_Write_good[OF rQ len _ B] by simp_all
    with A B a g show ?thesis
      by (cases "HC_Update (env_sha1 E) bytes (da_calculator a)")
         (auto simp: DA_ReceivedBytes_def dl_write_def gz_running_def same)
  qed
qed

text \<open>
  whether a full download succeeds does not depend on the output device. With a
  device on which every write fails the action still completes with the flag it would
  complete with on a good one: the hash is that of the compressed bytes, and the errors of
  the underlying writer are dropped.
\<close>

theorem DownloadAction_full_download_ignores_device:
  assumes P: "stream_ok (env_posix E) d data" and Q: "stream_ok (env_posix E') d data'"
    and E': "E' = E\<lparr>env_posix := env_posix E'\<rparr>" and d: "0 \<le> d" "1024 < env_fuel E"
    and len: "\<forall>z inp n. length (fst (snd (snd (env_inflate E z inp n)))) \<le> n" and a: "gz_running d a"
    and closes: "\<forall>w. fst (sys_close (env_posix E) d w) = 0" "\<forall>w. fst (sys_close (env_posix E') d w) = 0"
  shows "dl_run E bs (a, w) = dl_run E' bs (a, v)"
  using a
proof (induction bs arbitrary: a w v)
  case Nil
  have "env_sha1 E' = env_sha1 E" by (subst E', simp)
  moreover obtain w' v' where "sys_close (env_posix E) d w = (0, w')" "sys_close (env_posix E') d v = (0, v')"
    using closes by (metis prod.collapse)
  ultimately show ?case
    using Nil d(1)
    by (simp add: dl_run_def DA_TransferComplete_def dl_close_def DFW_Close_def gz_running_def bind_eq_Some_iff
        split: option.split Option.bind_split)
next
  case (Cons b bs)
  from gz_received_any_system[OF P Q E' d len Cons.prems, of b w v] show ?case
  proof (cases rule: option.rel_cases)
    case None
    then show ?thesis by (simp add: dl_run_def)
  next
    case (Some x y)
    then show ?thesis
      using Cons.IH[of "fst x" "snd x" "snd y"] by (cases x; cases y) (simp add: dl_run_def)
  qed
qed

section \<open>Witnesses\<close>

text \<open>
  A toy hash for the witnesses: the context is the list of bytes, the digest all of it,
  and its text begins with an H.
\<close>

definition demo_sha1 :: "byte list sha1" where
  "demo_sha1 = \<lparr>SHA1_Init = Some [], SHA1_Update = (\<lambda>c xs. Some (c @ xs)), SHA1_Final = (\<lambda>c. Some (c, c)),
     base64_lines = (\<lambda>md. Some (CHR ''H'' # string_of_bytes md @ ''\<newline>''))\<rparr>"

lemma demo_sha1_ok: "sha1_ok demo_sha1 (\<lambda>xs. xs) (\<lambda>xs. xs) (\<lambda>md. CHR ''H'' # string_of_bytes md)"
  by (simp add: sha1_ok_def demo_sha1_def)

definition demo_env :: "(byte list, byte list \<times> byte list, byte list) dl_env" where
  "demo_env = \<lparr>env_posix = two_byte_system\<lparr>sys_open := (\<lambda>path flags mode w. (3, []))\<rparr>,
     env_inflate = add_one_codec, env_inflate_init = Some ([], []), env_sha1 = demo_sha1, env_fuel = 2 ^ 31\<rparr>"

lemma demo_env_stream: "stream_ok (env_posix demo_env) 3 (\<lambda>w. w)"
  using two_byte_system_ok[of 3] by (simp add: demo_env_def stream_ok_def)

lemma demo_env_ok: "dl_env_ok demo_env 3 (\<lambda>w. w) (\<lambda>xs. xs) (\<lambda>xs. xs) (\<lambda>md. CHR ''H'' # string_of_bytes md)"
  using demo_env_stream demo_sha1_ok by (simp add: dl_env_ok_def) (simp add: demo_env_def two_byte_system_def)

definition demo_plan :: InstallPlan where
  "demo_plan = \<lparr>is_full_update = False, download_url = ''http://x/y'', download_hash = ''Habc'',
     install_path = ''/dev/sda2''\<rparr>"


definition demo_gz_action :: "(byte list \<times> byte list, byte list) download_action" where
  "demo_gz_action = \<lparr>da_url = [], da_output_path = [], da_hash = ''Hab'', da_should_decompress = True,
     da_writer = Some DecompressingWriter, da_direct = \<lparr>fd = 3\<rparr>,
     da_gz = Some \<lparr>gz_stream = ([], []), avail_in = []\<rparr>, da_calculator = \<lparr>hc_ctx = [], hc_hash = []\<rparr>\<rparr>"

theorem DownloadAction_full_download_ignores_device_witness:
  "dl_run demo_env [[97], [98]] (demo_gz_action, []) =
   dl_run (demo_env\<lparr>env_posix := broken_system\<rparr>) [[97], [98]] (demo_gz_action, [])"
proof -
  have "stream_ok (env_posix (demo_env\<lparr>env_posix := broken_system\<rparr>)) 3 (\<lambda>w. w)"
    using broken_system_ok by simp
  from DownloadAction_full_download_ignores_device[OF demo_env_stream this, of demo_gz_action "[[97], [98]]" "[]" "[]"]
  show ?thesis
    by (simp add: gz_running_def demo_gz_action_def) (simp add: demo_env_def two_byte_system_def broken_system_def add_one_codec_def)
qed

end
