(* ===== verification/UE_Attempter.thy ===== *)
theory UE_Attempter
  imports UE_Boot UE_Download
begin

text \<open>
  \<open>UpdateAttempter\<close> (\<open>update_engine/main.cc\<close>): the program's top level. It creates
  the seven actions of an update, bonds them with pipes, runs them on its
  \<open>ActionProcessor\<close> and, as the processor's delegate, decides what follows when the
  processor is done.

  The attempter's state holds the processor, the store of pipes, the response handler
  actions by identity, and the number of \<open>g_main_loop_quit\<close> calls. Objects are allocated
  from a counter. \<open>at_updates\<close> counts the calls of \<open>Update\<close>.
\<close>

datatype pipe_object =
    O_none
  | O_params UpdateCheckParams
  | O_response UpdateCheckResponse
  | O_plan InstallPlan
  | O_string string

record attempter =
  at_full_update :: bool
  at_actions :: "aid list"
  at_processor :: processor
  at_response_handler :: "aid option"
  at_handlers :: "aid \<Rightarrow> response_handler"
  at_pipes :: "pipe_object pipes"
  at_next :: aid
  at_quits :: nat
  at_updates :: nat

definition empty_UpdateCheckParams :: UpdateCheckParams where
  "empty_UpdateCheckParams =
     \<lparr>up_machine_id = [], up_user_id = [], up_os_platform = [], up_os_version = [], up_os_sp = [],
      up_app_id = [], up_app_version = [], up_app_lang = [], up_app_track = []\<rparr>"

definition new_UpdateAttempter :: attempter where
  "new_UpdateAttempter =
     \<lparr>at_full_update = False, at_actions = [], at_processor = new_processor 0 (\<lambda>_. None),
      at_response_handler = None, at_handlers = (\<lambda>_. new_OmahaResponseHandlerAction),
      at_pipes = no_pipes O_none, at_next = 0, at_quits = 0, at_updates = 0\<rparr>"

text \<open>\<open>n\<close> is the first of the seven new objects.\<close>

definition bond_all :: "aid \<Rightarrow> pipe_object pipes \<Rightarrow> pipe_object pipes" where
  "bond_all n ps =
     (let request_prep_action = n; update_check_action = n + 1; response_handler_action = n + 2;
          filesystem_copier_action = n + 3; download_action = n + 4;
          postinstall_runner_action = n + 5; set_bootable_flag_action = n + 6;
          ps = Bond (O_params empty_UpdateCheckParams) request_prep_action update_check_action ps;
          ps = Bond (O_response empty_UpdateCheckResponse) update_check_action response_handler_action ps;
          ps = Bond (O_plan empty_InstallPlan) response_handler_action filesystem_copier_action ps;
          ps = Bond (O_plan empty_InstallPlan) filesystem_copier_action download_action ps
      in Bond (O_string []) postinstall_runner_action set_bootable_flag_action ps)"

definition new_actions :: "aid \<Rightarrow> aid list" where
  "new_actions n = [n, n + 1, n + 2, n + 3, n + 4, n + 5, n + 6]"

definition AttempterUpdate :: "bool \<Rightarrow> attempter \<Rightarrow> attempter option" where
  "AttempterUpdate force_full_update t = do {
     let t = t\<lparr>at_updates := Suc (at_updates t), at_full_update := force_full_update\<rparr>;
     CHECK (\<not> IsRunning (at_processor t));
     let t = t\<lparr>at_processor := set_delegate True (at_processor t)\<rparr>;
     let n = at_next t;
     let t = t\<lparr>at_next := n + 7,
               at_handlers := (at_handlers t)(n + 2 := new_OmahaResponseHandlerAction),
               at_response_handler := Some (n + 2),
               at_actions := at_actions t @ new_actions n\<rparr>;
     p \<leftarrow> enqueue_all (at_actions t) (at_processor t);
     let t = t\<lparr>at_processor := p, at_pipes := bond_all n (at_pipes t)\<rparr>;
     p \<leftarrow> StartProcessing (at_processor t);
     Some (t\<lparr>at_processor := p\<rparr>) }"

definition g_main_loop_quit :: "attempter \<Rightarrow> attempter" where
  "g_main_loop_quit t = t\<lparr>at_quits := Suc (at_quits t)\<rparr>"

definition AttempterProcessingDone :: "bool \<Rightarrow> attempter \<Rightarrow> attempter option" where
  "AttempterProcessingDone success t = do {
     h \<leftarrow> at_response_handler t;
     if GotNoUpdateResponse (at_handlers t h) then Some (g_main_loop_quit t)
     else if \<not> success \<and> \<not> at_full_update t
     then AttempterUpdate True (t\<lparr>at_actions := [], at_response_handler := None\<rparr>)
     else Some (g_main_loop_quit t) }"

definition UpdateInMainLoop :: "attempter \<Rightarrow> (bool \<times> attempter) option" where
  "UpdateInMainLoop t = do { t \<leftarrow> AttempterUpdate False t; Some (False, t) }"

text \<open>
  The running action completes: the processor's \<open>ActionComplete\<close>, and the delegate's
  \<open>ProcessingDone\<close> when the processor ends with that call. \<open>at_perform\<close> is
  what the running action does before it completes, seen from the attempter: the response
  handler may note that there is no update.
\<close>

definition at_complete :: "aid \<Rightarrow> bool \<Rightarrow> attempter \<Rightarrow> attempter option" where
  "at_complete a success t = do {
     p \<leftarrow> ActionComplete a success (at_processor t);
     let t = t\<lparr>at_processor := p\<rparr>;
     case last (trace p) of
       ProcessingDone s \<Rightarrow> AttempterProcessingDone s t
     | _ \<Rightarrow> Some t }"

definition at_perform :: "bool \<Rightarrow> attempter \<Rightarrow> attempter" where
  "at_perform no_update t =
     (if no_update \<and> current_action (at_processor t) = at_response_handler t
      then t\<lparr>at_handlers := (at_handlers t)(the (at_response_handler t) :=
             (at_handlers t (the (at_response_handler t)))\<lparr>rh_got_no_update_response := True\<rparr>)\<rparr>
      else t)"

text \<open>
  The main loop: as long as an action runs, it performs and completes with the next outcome
  of \<open>outcome\<close>, a pair of \<open>success\<close> and "the response says no update".
\<close>

fun main_loop :: "(nat \<Rightarrow> bool \<times> bool) \<Rightarrow> nat \<Rightarrow> attempter \<Rightarrow> attempter option" where
  "main_loop outcome 0 t = Some t"
| "main_loop outcome (Suc n) t =
     (case current_action (at_processor t) of
        None \<Rightarrow> Some t
      | Some a \<Rightarrow> at_complete a (fst (outcome 0)) (at_perform (snd (outcome 0)) t)
          \<bind> main_loop (\<lambda>i. outcome (Suc i)) n)"

section \<open>Running, retrying, quitting\<close>

text \<open>
  The invariant of a running attempter: the processor's own invariant, the attempter is its
  delegate, objects yet to be allocated belong to no processor, and this is the first call of
  \<open>Update\<close> or the second with \<open>full_update_\<close> set.
\<close>

definition at_inv :: "attempter \<Rightarrow> bool" where
  "at_inv t \<longleftrightarrow>
     processor_inv (at_processor t) \<and> delegate (at_processor t) \<and>
     (\<forall>a \<ge> at_next t. processor_of (at_processor t) a = None) \<and>
     at_response_handler t \<noteq> None \<and> at_quits t = 0 \<and>
     at_updates t = (if at_full_update t then 2 else 1)"

definition at_running :: "attempter \<Rightarrow> bool" where
  "at_running t \<longleftrightarrow> at_inv t \<and> current_action (at_processor t) \<noteq> None"

text \<open>What is left to complete, a full update included when one may still follow.\<close>

definition at_left :: "attempter \<Rightarrow> nat" where
  "at_left t = length (pending (at_processor t)) + (if at_full_update t then 0 else 7)"

definition at_finished :: "attempter \<Rightarrow> bool" where
  "at_finished t \<longleftrightarrow>
     current_action (at_processor t) = None \<and> actions (at_processor t) = [] \<and>
     at_quits t = 1 \<and> at_updates t = (if at_full_update t then 2 else 1)"

lemma at_running_perform:
  "at_running t \<Longrightarrow> at_running (at_perform b t)" "at_left (at_perform b t) = at_left t"
  "at_processor (at_perform b t) = at_processor t"
  by (auto simp: at_running_def at_inv_def at_perform_def at_left_def)

lemma AttempterUpdate_starts:
  assumes "processor_inv (at_processor t)" "current_action (at_processor t) = None"
    "actions (at_processor t) = []" "at_actions t = []"
    "\<forall>a \<ge> at_next t. processor_of (at_processor t) a = None"
  shows "\<exists>u. AttempterUpdate full t = Some u \<and> delegate (at_processor u)
    \<and> processor_inv (at_processor u)
    \<and> current_action (at_processor u) = Some (at_next t)
    \<and> actions (at_processor u) =
        [at_next t + 1, at_next t + 2, at_next t + 3, at_next t + 4, at_next t + 5, at_next t + 6]
    \<and> trace (at_processor u) = trace (at_processor t) @ [PerformAction (at_next t)]
    \<and> at_response_handler u = Some (at_next t + 2) \<and> at_next u = at_next t + 7
    \<and> (\<forall>a \<ge> at_next u. processor_of (at_processor u) a = None)
    \<and> at_quits u = at_quits t \<and> at_updates u = Suc (at_updates t) \<and> at_full_update u = full
    \<and> at_pipes u = bond_all (at_next t) (at_pipes t)"
proof -
  let ?n = "at_next t"
  let ?p = "set_delegate True (at_processor t)"
  let ?q = "?p\<lparr>actions := actions ?p @ new_actions ?n,
      processor_of := override_on (processor_of ?p) (\<lambda>_. Some (self ?p)) (set (new_actions ?n))\<rparr>"
  let ?r = "emit (PerformAction ?n) (?q\<lparr>current_action := Some ?n,
      actions := [?n + 1, ?n + 2, ?n + 3, ?n + 4, ?n + 5, ?n + 6]\<rparr>)"
  have "enqueue_all (new_actions ?n) ?p = Some ?q"
    by (rule enqueue_all_spec) (use assms in \<open>auto simp: set_delegate_def new_actions_def\<close>)
  moreover have "StartProcessing ?q = Some ?r"
    using assms by (simp add: StartProcessing_def IsRunning_def set_delegate_def new_actions_def)
  moreover have "processor_inv ?r"
    using assms by (auto simp: processor_inv_def pending_def emit_def new_actions_def set_delegate_def
        override_on_def)
  moreover have "\<forall>a \<ge> ?n + 7. processor_of ?r a = None"
    using assms by (auto simp: emit_def new_actions_def set_delegate_def override_on_def)
  moreover have "\<not> IsRunning (at_processor t)" using assms by (simp add: IsRunning_def)
  ultimately show ?thesis
    using assms(3,4) by (simp add: AttempterUpdate_def Let_def emit_def) (simp add: set_delegate_def)
qed

lemma ActionComplete_frame:
  "ActionComplete a s p = Some q \<Longrightarrow> delegate q = delegate p
    \<and> (\<forall>b. processor_of p b = None \<longrightarrow> processor_of q b = None)"
  by (auto simp: processor_defs split: if_splits list.splits)

lemma at_ProcessingDone_step:
  assumes "at_inv t" "current_action (at_processor t) = None" "actions (at_processor t) = []"
  shows "\<exists>u. AttempterProcessingDone s t = Some u \<and>
    (at_finished u \<or> at_running u \<and> \<not> at_full_update t \<and> at_full_update u \<and> at_left u = 7)"
proof -
  obtain h where h: "at_response_handler t = Some h" using assms(1) by (auto simp: at_inv_def)
  show ?thesis
  proof (cases "GotNoUpdateResponse (at_handlers t h) \<or> s \<or> at_full_update t")
    case True
    then have "AttempterProcessingDone s t = Some (g_main_loop_quit t)"
      by (auto simp: AttempterProcessingDone_def h)
    then show ?thesis using assms by (simp add: at_finished_def g_main_loop_quit_def at_inv_def)
  next
    case False
    let ?t = "t\<lparr>at_actions := [], at_response_handler := None\<rparr>"
    have "AttempterProcessingDone s t = AttempterUpdate True ?t"
      using False by (simp add: AttempterProcessingDone_def h)
    moreover have "\<exists>u. AttempterUpdate True ?t = Some u \<and> at_running u \<and> at_full_update u \<and> at_left u = 7"
      using AttempterUpdate_starts[of ?t True] assms False
      by (auto simp: at_running_def at_inv_def at_left_def pending_def)
    ultimately show ?thesis using False by auto
  qed
qed

lemma at_complete_step:
  assumes "at_running t" "current_action (at_processor t) = Some a"
  shows "\<exists>u. at_complete a s t = Some u \<and>
    (at_finished u \<or> at_running u \<and> at_left u < at_left t)"
proof -
  from assms have inv: "at_inv t" and pinv: "processor_inv (at_processor t)"
    and d: "delegate (at_processor t)"
    by (auto simp: at_running_def at_inv_def)
  show ?thesis
  proof (cases "actions (at_processor t) = [] \<or> \<not> s")
    case True
    from ActionComplete_last[OF pinv d assms(2) True] obtain q where
      q: "ActionComplete a s (at_processor t) = Some q" "current_action q = None" "actions q = []"
        "trace q = trace (at_processor t) @ [ActionCompleted a s, ProcessingDone s]" by blast
    have "at_inv (t\<lparr>at_processor := q\<rparr>)"
      using inv processor_inv_complete[OF pinv q(1)] ActionComplete_frame[OF q(1)]
      by (auto simp: at_inv_def)
    from at_ProcessingDone_step[OF this, of s] q obtain u where
      "AttempterProcessingDone s (t\<lparr>at_processor := q\<rparr>) = Some u"
      "at_finished u \<or> at_running u \<and> \<not> at_full_update t \<and> at_full_update u \<and> at_left u = 7"
      by auto
    then show ?thesis using q assms(2) by (auto simp: at_complete_def at_left_def pending_def)
  next
    case False
    then obtain b bs where ab: "actions (at_processor t) = b # bs" and s: "s"
      by (cases "actions (at_processor t)") auto
    from ActionComplete_next[OF pinv d assms(2) ab] obtain q where
      q: "ActionComplete a True (at_processor t) = Some q" "current_action q = Some b"
        "actions q = bs" "delegate q"
        "trace q = trace (at_processor t) @ [ActionCompleted a True, PerformAction b]" by blast
    have "at_running (t\<lparr>at_processor := q\<rparr>)"
      using inv processor_inv_complete[OF pinv q(1)] ActionComplete_frame[OF q(1)] q(2)
      by (auto simp: at_running_def at_inv_def)
    then show ?thesis
      using q s assms(2) ab by (simp add: at_complete_def at_left_def pending_def)
  qed
qed

lemma main_loop_idle: "current_action (at_processor t) = None \<Longrightarrow> main_loop f n t = Some t"
  by (cases n) auto

lemma main_loop_finishes:
  assumes "at_running t" "at_left t \<le> n"
  shows "\<exists>u. main_loop outcome n t = Some u \<and> at_finished u"
  using assms
proof (induction n arbitrary: t outcome)
  case 0
  then show ?case by (auto simp: at_running_def at_left_def pending_def)
next
  case (Suc n)
  from Suc.prems(1) obtain a where a: "current_action (at_processor t) = Some a"
    by (auto simp: at_running_def)
  from at_complete_step[OF at_running_perform(1)[OF Suc.prems(1)], of "snd (outcome 0)" a "fst (outcome 0)"] a
  obtain u where u: "at_complete a (fst (outcome 0)) (at_perform (snd (outcome 0)) t) = Some u"
    and c: "at_finished u \<or> at_running u \<and> at_left u < at_left t"
    by (auto simp: at_running_perform(2,3))
  have "\<exists>v. main_loop (\<lambda>i. outcome (Suc i)) n u = Some v \<and> at_finished v"
  proof (cases "at_finished u")
    case True
    then show ?thesis by (simp add: main_loop_idle at_finished_def)
  next
    case False
    with c Suc.prems(2) have "at_running u" "at_left u \<le> n" by auto
    then show ?thesis by (rule Suc.IH)
  qed
  with u a show ?case by simp
qed



definition demo_attempter :: attempter where
  "demo_attempter = new_UpdateAttempter\<lparr>
     at_processor := set_delegate True (new_processor 0 (\<lambda>_. None)), at_next := 7,
     at_response_handler := Some 2, at_updates := 1\<rparr>"


section \<open>The pipes of an attempt\<close>

text \<open>The runner and \<open>SetBootableFlagAction\<close> take strings.\<close>

fun as_string :: "pipe_object \<Rightarrow> string option" where
  "as_string (O_string s) = Some s"
| "as_string _ = None"

lemma bond_all_inv: "pipes_inv ps \<Longrightarrow> pipes_inv (bond_all n ps)"
  by (simp add: bond_all_def Let_def pipes_inv_Bond)

text \<open>
  C37: \<open>Update\<close> gives the postinstall runner no input pipe, since the action between the
  download and the postinstall run is commented out. When the download succeeds and the runner
  is performed, its \<open>CHECK(HasInputObject())\<close> aborts the program, for every file system
  and before anything is mounted: no update is ever made bootable.
\<close>

theorem Update_leaves_postinstall_unbonded:
  assumes "AttempterUpdate full t = Some u"
    and "\<forall>a \<ge> at_next t. in_pipe (at_pipes t) a = None"
  shows "\<not> HasInputObject (at_next t + 5) (at_pipes u)
    \<and> HasInputObject (at_next t + 6) (at_pipes u)
    \<and> PI_PerformAction F system (GetInputObject (at_next t + 5) (at_pipes u) \<bind> as_string)
        (HasOutputPipe (at_next t + 5) (at_pipes u)) w = None"
proof -
  from assms(1) have "at_pipes u = bond_all (at_next t) (at_pipes t)"
    by (auto simp: AttempterUpdate_def Let_def bind_eq_Some_iff split: if_splits)
  with assms(2) have "in_pipe (at_pipes u) (at_next t + 5) = None"
    by (simp add: bond_all_def pipe_defs)
  moreover have "HasInputObject (at_next t + 6) (at_pipes u)"
    using \<open>at_pipes u = _\<close> by (simp add: bond_all_def pipe_defs)
  ultimately show ?thesis by (simp add: HasInputObject_def GetInputObject_def PI_PerformAction_def)
qed

theorem Update_leaves_postinstall_unbonded_witness:
  "\<exists>u. AttempterUpdate False new_UpdateAttempter = Some u \<and> \<not> HasInputObject 5 (at_pipes u)
    \<and> PI_PerformAction demo_fs (\<lambda>_ w. (0, w)) (GetInputObject 5 (at_pipes u) \<bind> as_string)
        (HasOutputPipe 5 (at_pipes u)) ([], []) = None"
proof -
  from AttempterUpdate_starts[of new_UpdateAttempter False]
  obtain u where u: "AttempterUpdate False new_UpdateAttempter = Some u"
    by (auto simp: new_UpdateAttempter_def new_processor_def processor_inv_def pending_def)
  have "\<forall>a \<ge> at_next new_UpdateAttempter. in_pipe (at_pipes new_UpdateAttempter) a = None"
    by (simp add: new_UpdateAttempter_def no_pipes_def)
  from Update_leaves_postinstall_unbonded[OF u this, of demo_fs "\<lambda>_ w. (0, w)" "([], [])"] u show ?thesis
    by (auto simp: new_UpdateAttempter_def)
qed

end
