(* ===== verification/WM_Util.thy ===== *)
theory WM_Util
  imports Prelude
begin

text \<open>
  The window manager's utilities (\<open>window_manager/util.h\<close>, \<open>util.cc\<close>): the template
  \<open>Stacker\<close>, the class \<open>ByteMap\<close>, \<open>FindWithDefault\<close> and \<open>NextPowerOfTwo\<close>.

  A \<open>std::list\<close> is a list of nodes, each with the identity an iterator refers to; the
  iterator \<open>end()\<close> is \<^term>\<open>None\<close>. \<open>Stacker\<close> keeps such a list and a map from items to
  iterators. The locale \<open>stack_adt\<close> states what its operations mean for the plain list of
  items, and \<open>Stacker\<close> is shown to implement it. Pixel coordinates are integers: the sums
  of \<open>SetRectangle\<close> are taken not to overflow, which is undefined in C++.
\<close>

section \<open>Lists of nodes\<close>

type_synonym 'a nodes = "(nat \<times> 'a) list"

fun insert_before :: "nat option \<Rightarrow> nat \<times> 'a \<Rightarrow> 'a nodes \<Rightarrow> 'a nodes" where
  "insert_before pos n [] = [n]"
| "insert_before pos n (m # ms) =
     (if pos = Some (fst m) then n # m # ms else m # insert_before pos n ms)"

fun iter_next :: "nat \<Rightarrow> 'a nodes \<Rightarrow> nat option" where
  "iter_next i [] = None"
| "iter_next i (m # ms) =
     (if fst m = i then (case ms of [] \<Rightarrow> None | k # _ \<Rightarrow> Some (fst k)) else iter_next i ms)"

fun erase_node :: "nat \<Rightarrow> 'a nodes \<Rightarrow> 'a nodes" where
  "erase_node i [] = []"
| "erase_node i (m # ms) = (if fst m = i then ms else m # erase_node i ms)"

section \<open>Stacker\<close>

record 'a stacker =
  st_items :: "'a nodes"
  st_index :: "'a \<Rightarrow> nat option"
  st_next :: nat

definition new_Stacker :: "'a stacker" where
  "new_Stacker = \<lparr>st_items = [], st_index = (\<lambda>_. None), st_next = 0\<rparr>"

definition items :: "'a stacker \<Rightarrow> 'a list" where
  "items s = map snd (st_items s)"

definition Contains :: "'a \<Rightarrow> 'a stacker \<Rightarrow> bool" where
  "Contains item s = (st_index s item \<noteq> None)"

fun index_loop :: "'a \<Rightarrow> int \<Rightarrow> 'a list \<Rightarrow> int" where
  "index_loop item i [] = -1"
| "index_loop item i (x # xs) = (if x = item then i else index_loop item (i + 1) xs)"

definition GetIndex :: "'a \<Rightarrow> 'a stacker \<Rightarrow> int" where
  "GetIndex item s = index_loop item 0 (items s)"

definition GetUnder :: "'a \<Rightarrow> 'a stacker \<Rightarrow> 'a option" where
  "GetUnder item s = do {
     it \<leftarrow> st_index s item;
     next_it \<leftarrow> iter_next it (st_items s);
     map_of (st_items s) next_it }"

text \<open>The new node goes before \<open>pos\<close>, and the index gets its iterator.\<close>

definition insert_item :: "nat option \<Rightarrow> 'a \<Rightarrow> 'a stacker \<Rightarrow> 'a stacker" where
  "insert_item pos item s =
     s\<lparr>st_items := insert_before pos (st_next s, item) (st_items s),
       st_index := (st_index s)(item \<mapsto> st_next s), st_next := Suc (st_next s)\<rparr>"

definition list_begin :: "'a nodes \<Rightarrow> nat option" where
  "list_begin xs = (case xs of [] \<Rightarrow> None | m # _ \<Rightarrow> Some (fst m))"

definition AddOnTop :: "'a \<Rightarrow> 'a stacker \<Rightarrow> 'a stacker" where
  "AddOnTop item s =
     (if Contains item s then s else insert_item (list_begin (st_items s)) item s)"

definition AddOnBottom :: "'a \<Rightarrow> 'a stacker \<Rightarrow> 'a stacker" where
  "AddOnBottom item s = (if Contains item s then s else insert_item None item s)"

definition AddAbove :: "'a \<Rightarrow> 'a \<Rightarrow> 'a stacker \<Rightarrow> 'a stacker" where
  "AddAbove item other_item s =
     (if Contains item s then s
      else (case st_index s other_item of
              None \<Rightarrow> s
            | Some other_it \<Rightarrow> insert_item (Some other_it) item s))"

definition AddBelow :: "'a \<Rightarrow> 'a \<Rightarrow> 'a stacker \<Rightarrow> 'a stacker" where
  "AddBelow item other_item s =
     (if Contains item s then s
      else (case st_index s other_item of
              None \<Rightarrow> s
            | Some other_it \<Rightarrow> insert_item (iter_next other_it (st_items s)) item s))"

definition Remove :: "'a \<Rightarrow> 'a stacker \<Rightarrow> 'a stacker" where
  "Remove item s =
     (case st_index s item of
        None \<Rightarrow> s
      | Some it \<Rightarrow> s\<lparr>st_items := erase_node it (st_items s), st_index := (st_index s)(item := None)\<rparr>)"

section \<open>ByteMap\<close>

record byte_map =
  bm_width :: int
  bm_height :: int
  bm_bytes :: "byte list"

text \<open>A write outside the array is undefined: \<^term>\<open>None\<close>.\<close>

definition memset :: "int \<Rightarrow> byte \<Rightarrow> int \<Rightarrow> byte list \<Rightarrow> byte list option" where
  "memset off v n bs =
     (if 0 \<le> off \<and> 0 \<le> n \<and> off + n \<le> int (length bs)
      then Some (take (nat off) bs @ replicate (nat n) v @ drop (nat (off + n)) bs) else None)"

definition ByteMap_Clear :: "byte \<Rightarrow> byte_map \<Rightarrow> byte_map option" where
  "ByteMap_Clear v m = do {
     bs \<leftarrow> memset 0 v (bm_width m * bm_height m) (bm_bytes m);
     Some (m\<lparr>bm_bytes := bs\<rparr>) }"

text \<open>\<open>junk\<close> is what the fresh array holds.\<close>

definition new_ByteMap :: "(int \<Rightarrow> byte list) \<Rightarrow> int \<Rightarrow> int \<Rightarrow> byte_map option" where
  "new_ByteMap junk w h = do {
     CHECK (w > 0);
     CHECK (h > 0);
     ByteMap_Clear 0 \<lparr>bm_width = w, bm_height = h, bm_bytes = junk (w * h)\<rparr> }"

definition ByteMap_Copy :: "byte_map \<Rightarrow> byte_map \<Rightarrow> byte_map option" where
  "ByteMap_Copy other m = do {
     CHECK (bm_width m = bm_width other);
     CHECK (bm_height m = bm_height other);
     CHECK (bm_width m * bm_height m \<le> int (length (bm_bytes other))
          \<and> bm_width m * bm_height m \<le> int (length (bm_bytes m)));
     let n = nat (bm_width m * bm_height m);
     Some (m\<lparr>bm_bytes := take n (bm_bytes other) @ drop n (bm_bytes m)\<rparr>) }"

function rect_rows :: "int \<Rightarrow> int \<Rightarrow> int \<Rightarrow> int \<Rightarrow> int \<Rightarrow> byte \<Rightarrow> byte list \<Rightarrow> byte list option" where
  "rect_rows w rect_x limit_x y limit_y v bs =
     (if y < limit_y then do {
        bs \<leftarrow> memset (y * w + rect_x) v (limit_x - rect_x) bs;
        rect_rows w rect_x limit_x (y + 1) limit_y v bs }
      else Some bs)"
  by pat_completeness auto
termination
  by (relation "measure (\<lambda>(w, rect_x, limit_x, y, limit_y, v, bs). nat (limit_y - y))") auto

declare rect_rows.simps [simp del]

definition SetRectangle :: "int \<Rightarrow> int \<Rightarrow> int \<Rightarrow> int \<Rightarrow> byte \<Rightarrow> byte_map \<Rightarrow> byte_map option" where
  "SetRectangle rect_x rect_y rect_width rect_height v m =
     (let limit_x = min (rect_x + rect_width) (bm_width m);
          limit_y = min (rect_y + rect_height) (bm_height m);
          rect_x = max rect_x 0;
          rect_y = max rect_y 0
      in if rect_x \<ge> limit_x then Some m
         else do {
           bs \<leftarrow> rect_rows (bm_width m) rect_x limit_x rect_y limit_y v (bm_bytes m);
           Some (m\<lparr>bm_bytes := bs\<rparr>) })"

section \<open>FindWithDefault, NextPowerOfTwo\<close>

definition FindWithDefault :: "('k \<Rightarrow> 'v option) \<Rightarrow> 'k \<Rightarrow> 'v \<Rightarrow> 'v" where
  "FindWithDefault the_map key def = (case the_map key of None \<Rightarrow> def | Some v \<Rightarrow> v)"

unbundle bit_operations_syntax

definition smear :: "nat \<Rightarrow> 32 word \<Rightarrow> 32 word" where
  "smear n x = x OR drop_bit n x"

definition NextPowerOfTwo :: "32 word \<Rightarrow> 32 word" where
  "NextPowerOfTwo x =
     (let x = x - 1;
          x = smear 1 x; x = smear 2 x; x = smear 4 x; x = smear 8 x; x = smear 16 x
      in x + 1)"

section \<open>The meaning of the stack operations\<close>

definition put_above :: "'a \<Rightarrow> 'a \<Rightarrow> 'a list \<Rightarrow> 'a list" where
  "put_above x y xs = takeWhile (\<lambda>z. z \<noteq> y) xs @ x # dropWhile (\<lambda>z. z \<noteq> y) xs"

definition put_below :: "'a \<Rightarrow> 'a \<Rightarrow> 'a list \<Rightarrow> 'a list" where
  "put_below x y xs = takeWhile (\<lambda>z. z \<noteq> y) xs @ y # x # tl (dropWhile (\<lambda>z. z \<noteq> y) xs)"

fun item_under :: "'a \<Rightarrow> 'a list \<Rightarrow> 'a option" where
  "item_under x (y # z # zs) = (if x = y then Some z else item_under x (z # zs))"
| "item_under x _ = None"

lemma put_above_split: "y \<notin> set pre \<Longrightarrow> put_above x y (pre @ y # post) = pre @ x # y # post"
  unfolding put_above_def by (induction pre) auto

lemma put_below_split: "y \<notin> set pre \<Longrightarrow> put_below x y (pre @ y # post) = pre @ y # x # post"
  unfolding put_below_def by (induction pre) auto

text \<open>
  The contract of a stack of distinct items: each operation in terms of the list of items from
  top to bottom. A request that names a wrong item leaves the stack as it is.
\<close>

locale stack_adt =
  fixes invar :: "'s \<Rightarrow> bool" and abs :: "'s \<Rightarrow> 'a list"
    and empty :: 's and contains :: "'a \<Rightarrow> 's \<Rightarrow> bool" and under :: "'a \<Rightarrow> 's \<Rightarrow> 'a option"
    and on_top :: "'a \<Rightarrow> 's \<Rightarrow> 's" and on_bottom :: "'a \<Rightarrow> 's \<Rightarrow> 's"
    and above :: "'a \<Rightarrow> 'a \<Rightarrow> 's \<Rightarrow> 's" and below :: "'a \<Rightarrow> 'a \<Rightarrow> 's \<Rightarrow> 's"
    and remove :: "'a \<Rightarrow> 's \<Rightarrow> 's"
  assumes empty_ok: "invar empty" "abs empty = []"
    and abs_distinct: "invar s \<Longrightarrow> distinct (abs s)"
    and contains_iff: "invar s \<Longrightarrow> contains x s \<longleftrightarrow> x \<in> set (abs s)"
    and under_eq: "invar s \<Longrightarrow> under x s = item_under x (abs s)"
    and on_top_ok: "invar s \<Longrightarrow> invar (on_top x s)"
      "invar s \<Longrightarrow> abs (on_top x s) = (if x \<in> set (abs s) then abs s else x # abs s)"
    and on_bottom_ok: "invar s \<Longrightarrow> invar (on_bottom x s)"
      "invar s \<Longrightarrow> abs (on_bottom x s) = (if x \<in> set (abs s) then abs s else abs s @ [x])"
    and above_ok: "invar s \<Longrightarrow> invar (above x y s)"
      "invar s \<Longrightarrow> abs (above x y s) =
        (if x \<in> set (abs s) \<or> y \<notin> set (abs s) then abs s else put_above x y (abs s))"
    and below_ok: "invar s \<Longrightarrow> invar (below x y s)"
      "invar s \<Longrightarrow> abs (below x y s) =
        (if x \<in> set (abs s) \<or> y \<notin> set (abs s) then abs s else put_below x y (abs s))"
    and remove_ok: "invar s \<Longrightarrow> invar (remove x s)"
      "invar s \<Longrightarrow> abs (remove x s) = filter (\<lambda>z. z \<noteq> x) (abs s)"
begin

text \<open>Moving an item, as the callers do it: remove it, then add it relative to another.\<close>

lemma restack_above:
  assumes "invar s" "x \<noteq> y" "y \<in> set (abs s)"
  shows "\<exists>pre post. abs (above x y (remove x s)) = pre @ x # y # post
    \<and> filter (\<lambda>z. z \<noteq> x) (abs s) = pre @ y # post"
proof -
  from assms(2,3) have "y \<in> set (filter (\<lambda>z. z \<noteq> x) (abs s))" by simp
  then obtain pre post where sp: "filter (\<lambda>z. z \<noteq> x) (abs s) = pre @ y # post" "y \<notin> set pre"
    by (meson split_list_first)
  have "x \<notin> set (abs (remove x s))" "y \<in> set (abs (remove x s))"
    using remove_ok(2)[OF assms(1), of x] assms(2,3) by simp_all
  then have "abs (above x y (remove x s)) = put_above x y (pre @ y # post)"
    using above_ok(2)[OF remove_ok(1)[OF assms(1), of x], of x y] remove_ok(2)[OF assms(1), of x] sp(1)
    by simp
  then show ?thesis using sp put_above_split by metis
qed

lemma restack_below:
  assumes "invar s" "x \<noteq> y" "y \<in> set (abs s)"
  shows "\<exists>pre post. abs (below x y (remove x s)) = pre @ y # x # post
    \<and> filter (\<lambda>z. z \<noteq> x) (abs s) = pre @ y # post"
proof -
  from assms(2,3) have "y \<in> set (filter (\<lambda>z. z \<noteq> x) (abs s))" by simp
  then obtain pre post where sp: "filter (\<lambda>z. z \<noteq> x) (abs s) = pre @ y # post" "y \<notin> set pre"
    by (meson split_list_first)
  have "x \<notin> set (abs (remove x s))" "y \<in> set (abs (remove x s))"
    using remove_ok(2)[OF assms(1), of x] assms(2,3) by simp_all
  then have "abs (below x y (remove x s)) = put_below x y (pre @ y # post)"
    using below_ok(2)[OF remove_ok(1)[OF assms(1), of x], of x y] remove_ok(2)[OF assms(1), of x] sp(1)
    by simp
  then show ?thesis using sp put_below_split by metis
qed

end

section \<open>Stacker implements the contract\<close>

definition stacker_inv :: "'a stacker \<Rightarrow> bool" where
  "stacker_inv s \<longleftrightarrow>
     distinct (map fst (st_items s)) \<and> distinct (map snd (st_items s)) \<and>
     (\<forall>x i. st_index s x = Some i \<longleftrightarrow> (i, x) \<in> set (st_items s)) \<and>
     (\<forall>i \<in> fst ` set (st_items s). i < st_next s)"

lemma node_ops_split:
  assumes "i \<notin> fst ` set pre"
  shows "insert_before (Some i) n (pre @ (i, y) # post) = pre @ n # (i, y) # post"
    and "iter_next i (pre @ (i, y) # post) = list_begin post"
    and "erase_node i (pre @ (i, y) # post) = pre @ post"
  using assms by (induction pre) (auto simp: list_begin_def split: list.splits)

lemma insert_before_end: "insert_before None n ms = ms @ [n]"
  by (induction ms) auto

lemma insert_before_begin: "insert_before (list_begin ms) n ms = n # ms"
  by (cases ms) (auto simp: list_begin_def)

lemma insert_before_after:
  assumes "distinct (map fst (pre @ (i, y) # post))"
  shows "insert_before (list_begin post) n (pre @ (i, y) # post) = pre @ (i, y) # n # post"
proof (cases post)
  case Nil
  then show ?thesis by (simp add: list_begin_def insert_before_end)
next
  case (Cons k post')
  obtain j z where k: "k = (j, z)" by fastforce
  have "j \<notin> fst ` set (pre @ [(i, y)])" using assms Cons k by auto
  from node_ops_split(1)[OF this, of n z post'] Cons k show ?thesis by (simp add: list_begin_def)
qed

lemma stacker_split:
  assumes "stacker_inv s" "st_index s y = Some i"
  obtains pre post where "st_items s = pre @ (i, y) # post" "i \<notin> fst ` set pre"
    "y \<notin> snd ` set pre" "distinct (map fst (pre @ (i, y) # post))"
proof -
  from assms have "(i, y) \<in> set (st_items s)" by (simp add: stacker_inv_def)
  then obtain pre post where "st_items s = pre @ (i, y) # post" by (meson split_list)
  moreover from this assms(1) have "distinct (map fst (pre @ (i, y) # post))"
    "distinct (map snd (pre @ (i, y) # post))" by (simp_all add: stacker_inv_def)
  ultimately show ?thesis using that[of pre post] by auto
qed

lemma Contains_iff: "stacker_inv s \<Longrightarrow> Contains x s \<longleftrightarrow> x \<in> set (items s)"
  by (force simp: Contains_def stacker_inv_def items_def)

lemma st_index_None: "stacker_inv s \<Longrightarrow> st_index s x = None \<longleftrightarrow> x \<notin> set (items s)"
  using Contains_iff[of s x] by (auto simp: Contains_def)

lemma st_items_insert_item [simp]:
  "st_items (insert_item pos x s) = insert_before pos (st_next s, x) (st_items s)"
  by (simp add: insert_item_def)

lemma insert_item_inv:
  assumes "stacker_inv s" "\<not> Contains x s"
    and "\<exists>pre post. st_items s = pre @ post \<and>
      insert_before pos (st_next s, x) (st_items s) = pre @ (st_next s, x) # post"
  shows "stacker_inv (insert_item pos x s)"
proof -
  from assms(3) obtain pre post where sp: "st_items s = pre @ post"
    "insert_before pos (st_next s, x) (st_items s) = pre @ (st_next s, x) # post" by blast
  from assms(1,2) have x: "x \<notin> snd ` set (pre @ post)"
    using Contains_iff[of s x] sp(1) by (auto simp: items_def)
  from assms(1) have n: "\<forall>i \<in> fst ` set (pre @ post). i < st_next s"
    and idx: "st_index s y = Some i \<longleftrightarrow> (i, y) \<in> set (pre @ post)"
    and d: "distinct (map fst (pre @ post))" "distinct (map snd (pre @ post))" for y i
    using sp(1) by (simp_all add: stacker_inv_def)
  let ?s = "insert_item pos x s"
  have it: "st_items ?s = pre @ (st_next s, x) # post" using sp(2) by simp
  have "st_index ?s y = Some i \<longleftrightarrow> (i, y) \<in> set (st_items ?s)" for y i
    using idx[of y i] x it by (cases "y = x") (force simp: insert_item_def)+
  moreover have "distinct (map fst (st_items ?s))" "distinct (map snd (st_items ?s))"
    using d n x unfolding it by force+
  moreover have "\<forall>i \<in> fst ` set (st_items ?s). i < st_next ?s"
    using n unfolding it by (auto simp: insert_item_def less_SucI)
  ultimately show ?thesis by (simp add: stacker_inv_def)
qed

lemma item_under_split: "y \<notin> set pre \<Longrightarrow>
    item_under y (pre @ y # post) = (case post of [] \<Rightarrow> None | z # _ \<Rightarrow> Some z)"
proof (induction pre)
  case Nil
  then show ?case by (cases post) auto
next
  case (Cons a pre)
  then show ?case by (cases pre) auto
qed

lemma item_under_notin: "y \<notin> set xs \<Longrightarrow> item_under y xs = None"
  by (induction y xs rule: item_under.induct) auto

lemma GetUnder_eq:
  assumes "stacker_inv s"
  shows "GetUnder x s = item_under x (items s)"
proof (cases "st_index s x")
  case None
  with st_index_None[OF assms, of x] show ?thesis by (simp add: GetUnder_def item_under_notin)
next
  case (Some i)
  from stacker_split[OF assms Some] obtain pre post where sp: "st_items s = pre @ (i, x) # post"
    "i \<notin> fst ` set pre" "x \<notin> snd ` set pre" "distinct (map fst (pre @ (i, x) # post))" .
  have "map_of (st_items s) j = Some z" if "post = (j, z) # ps" for j z ps
    using map_of_is_SomeI[of "st_items s" j z] sp(1,4) that by simp
  then show ?thesis using Some sp node_ops_split(2)[OF sp(2), of x post]
    by (cases post) (auto simp: GetUnder_def items_def item_under_split list_begin_def)
qed

lemma AddAbove_ok:
  assumes "stacker_inv s"
  shows "stacker_inv (AddAbove x y s)"
    "items (AddAbove x y s) =
      (if x \<in> set (items s) \<or> y \<notin> set (items s) then items s else put_above x y (items s))"
proof -
  have "stacker_inv (AddAbove x y s) \<and> items (AddAbove x y s) =
      (if x \<in> set (items s) \<or> y \<notin> set (items s) then items s else put_above x y (items s))"
  proof (cases "\<exists>i. \<not> Contains x s \<and> st_index s y = Some i")
    case False
    then have "AddAbove x y s = s" by (auto simp: AddAbove_def split: option.splits)
    then show ?thesis using False assms Contains_iff[OF assms] st_index_None[OF assms, of y] by auto
  next
    case True
    then obtain i where c: "\<not> Contains x s" "st_index s y = Some i" by blast
    from stacker_split[OF assms c(2)] obtain pre post where sp: "st_items s = pre @ (i, y) # post"
      "i \<notin> fst ` set pre" "y \<notin> snd ` set pre" .
    note ib = node_ops_split(1)[OF sp(2), of "(st_next s, x)" y post]
    have "AddAbove x y s = insert_item (Some i) x s" using c by (simp add: AddAbove_def)
    moreover have "stacker_inv (insert_item (Some i) x s)"
      by (rule insert_item_inv[OF assms c(1)]) (use sp ib in auto)
    moreover have "x \<notin> set (items s)" "y \<in> set (items s)"
      using c assms Contains_iff[OF assms] st_index_None[OF assms, of y] by auto
    ultimately show ?thesis
      using sp(1,3) ib put_above_split[of y "map snd pre" x "map snd post"] by (simp add: items_def)
  qed
  then show "stacker_inv (AddAbove x y s)" "items (AddAbove x y s) =
      (if x \<in> set (items s) \<or> y \<notin> set (items s) then items s else put_above x y (items s))" by auto
qed

lemma AddBelow_ok:
  assumes "stacker_inv s"
  shows "stacker_inv (AddBelow x y s)"
    "items (AddBelow x y s) =
      (if x \<in> set (items s) \<or> y \<notin> set (items s) then items s else put_below x y (items s))"
proof -
  have "stacker_inv (AddBelow x y s) \<and> items (AddBelow x y s) =
      (if x \<in> set (items s) \<or> y \<notin> set (items s) then items s else put_below x y (items s))"
  proof (cases "\<exists>i. \<not> Contains x s \<and> st_index s y = Some i")
    case False
    then have "AddBelow x y s = s" by (auto simp: AddBelow_def split: option.splits)
    then show ?thesis using False assms Contains_iff[OF assms] st_index_None[OF assms, of y] by auto
  next
    case True
    then obtain i where c: "\<not> Contains x s" "st_index s y = Some i" by blast
    from stacker_split[OF assms c(2)] obtain pre post where sp: "st_items s = pre @ (i, y) # post"
      "i \<notin> fst ` set pre" "y \<notin> snd ` set pre" "distinct (map fst (pre @ (i, y) # post))" .
    note ib = insert_before_after[OF sp(4), of "(st_next s, x)"]
    have "AddBelow x y s = insert_item (list_begin post) x s"
      using c sp(1) node_ops_split(2)[OF sp(2), of y post] by (simp add: AddBelow_def)
    moreover have "stacker_inv (insert_item (list_begin post) x s)"
      by (rule insert_item_inv[OF assms c(1)], rule exI[of _ "pre @ [(i, y)]"], rule exI[of _ post])
         (use sp ib in auto)
    moreover have "x \<notin> set (items s)" "y \<in> set (items s)"
      using c assms Contains_iff[OF assms] st_index_None[OF assms, of y] by auto
    ultimately show ?thesis
      using sp(1,3) ib put_below_split[of y "map snd pre" x "map snd post"] by (simp add: items_def)
  qed
  then show "stacker_inv (AddBelow x y s)" "items (AddBelow x y s) =
      (if x \<in> set (items s) \<or> y \<notin> set (items s) then items s else put_below x y (items s))" by auto
qed

lemma AddOnTop_ok:
  assumes "stacker_inv s"
  shows "stacker_inv (AddOnTop x s)"
    "items (AddOnTop x s) = (if x \<in> set (items s) then items s else x # items s)"
proof -
  have "stacker_inv (insert_item (list_begin (st_items s)) x s)" if "\<not> Contains x s"
    by (rule insert_item_inv[OF assms that]) (auto simp: insert_before_begin)
  then show "stacker_inv (AddOnTop x s)" using assms by (simp add: AddOnTop_def)
  show "items (AddOnTop x s) = (if x \<in> set (items s) then items s else x # items s)"
    using Contains_iff[OF assms, of x]
    by (simp add: AddOnTop_def insert_before_begin items_def)
qed

lemma AddOnBottom_ok:
  assumes "stacker_inv s"
  shows "stacker_inv (AddOnBottom x s)"
    "items (AddOnBottom x s) = (if x \<in> set (items s) then items s else items s @ [x])"
proof -
  have "stacker_inv (insert_item None x s)" if "\<not> Contains x s"
    by (rule insert_item_inv[OF assms that]) (auto simp: insert_before_end)
  then show "stacker_inv (AddOnBottom x s)" using assms by (simp add: AddOnBottom_def)
  show "items (AddOnBottom x s) = (if x \<in> set (items s) then items s else items s @ [x])"
    using Contains_iff[OF assms, of x]
    by (simp add: AddOnBottom_def insert_before_end items_def)
qed

lemma filter_notin: "x \<notin> set xs \<Longrightarrow> filter (\<lambda>z. z \<noteq> x) xs = xs"
  by (induction xs) auto

lemma Remove_ok:
  assumes "stacker_inv s"
  shows "stacker_inv (Remove x s)" "items (Remove x s) = filter (\<lambda>z. z \<noteq> x) (items s)"
proof -
  have "stacker_inv (Remove x s) \<and> items (Remove x s) = filter (\<lambda>z. z \<noteq> x) (items s)"
  proof (cases "st_index s x")
    case None
    with assms st_index_None[OF assms, of x] show ?thesis
      by (simp add: Remove_def filter_notin)
  next
    case (Some i)
    from stacker_split[OF assms Some] obtain pre post where sp: "st_items s = pre @ (i, x) # post"
      "i \<notin> fst ` set pre" "x \<notin> snd ` set pre" .
    have d: "distinct (map fst (pre @ (i, x) # post))" "distinct (map snd (pre @ (i, x) # post))"
      using assms sp by (simp_all add: stacker_inv_def)
    have items: "st_items (Remove x s) = pre @ post"
      using Some sp node_ops_split(3)[OF sp(2), of x post] by (simp add: Remove_def)
    have notx: "(j, x) \<notin> set (pre @ post)" for j using d(2) by force
    have "st_index s y = Some j \<longleftrightarrow> (j, y) \<in> set (pre @ (i, x) # post)" for y j
      using assms sp(1) by (simp add: stacker_inv_def)
    moreover have "st_index (Remove x s) = (st_index s)(x := None)" using Some by (simp add: Remove_def)
    ultimately have "\<forall>y j. st_index (Remove x s) y = Some j \<longleftrightarrow> (j, y) \<in> set (pre @ post)"
      using notx by auto
    moreover have "st_next (Remove x s) = st_next s" using Some by (simp add: Remove_def)
    ultimately have "stacker_inv (Remove x s)"
      using assms sp(1) d items unfolding stacker_inv_def by simp
    moreover have "x \<notin> set (map snd pre)" "x \<notin> set (map snd post)" using d(2) by auto
    then have "items (Remove x s) = filter (\<lambda>z. z \<noteq> x) (items s)"
      using sp(1) items by (simp add: items_def filter_notin)
    ultimately show ?thesis by simp
  qed
  then show "stacker_inv (Remove x s)" "items (Remove x s) = filter (\<lambda>z. z \<noteq> x) (items s)" by auto
qed

interpretation stacker: stack_adt stacker_inv items new_Stacker Contains GetUnder
  AddOnTop AddOnBottom AddAbove AddBelow Remove
proof unfold_locales
  show "stacker_inv (new_Stacker :: 'a stacker)" "items (new_Stacker :: 'a stacker) = []"
    by (simp_all add: stacker_inv_def new_Stacker_def items_def)
  show "distinct (items s)" if "stacker_inv s" for s :: "'a stacker"
    using that by (simp add: stacker_inv_def items_def)
qed (simp_all add: Contains_iff GetUnder_eq AddOnTop_ok AddOnBottom_ok AddAbove_ok AddBelow_ok Remove_ok)

lemma index_loop_eq:
  "index_loop x i xs = (if x \<in> set xs then i + int (length (takeWhile (\<lambda>z. z \<noteq> x) xs)) else -1)"
  by (induction x i xs rule: index_loop.induct) auto

text \<open>
  C27: \<open>Stacker\<close>, with its list of nodes and its index of iterators, behaves as the plain
  list of its items from top to bottom. Every operation keeps the index and the list
  consistent, acts on the list as its name says, and leaves the stack unchanged when the item is
  there already or the reference item is not; moving an item keeps the order of the others.
\<close>

theorem Stacker_refines_list:
  assumes "stacker_inv s"
  shows "stacker_inv (AddOnTop x s) \<and> stacker_inv (AddOnBottom x s) \<and> stacker_inv (AddAbove x y s)
      \<and> stacker_inv (AddBelow x y s) \<and> stacker_inv (Remove x s)
    \<and> (Contains x s \<longleftrightarrow> x \<in> set (items s))
    \<and> (GetIndex x s = (if x \<in> set (items s) then int (length (takeWhile (\<lambda>z. z \<noteq> x) (items s))) else -1))
    \<and> (GetUnder x s = item_under x (items s))
    \<and> (items (AddOnTop x s) = (if x \<in> set (items s) then items s else x # items s))
    \<and> (items (AddOnBottom x s) = (if x \<in> set (items s) then items s else items s @ [x]))
    \<and> (items (AddAbove x y s) =
      (if x \<in> set (items s) \<or> y \<notin> set (items s) then items s else put_above x y (items s)))
    \<and> (items (AddBelow x y s) =
      (if x \<in> set (items s) \<or> y \<notin> set (items s) then items s else put_below x y (items s)))
    \<and> (items (Remove x s) = filter (\<lambda>z. z \<noteq> x) (items s))
    \<and> (x \<noteq> y \<and> y \<in> set (items s) \<longrightarrow>
      (\<exists>pre post. items (AddAbove x y (Remove x s)) = pre @ x # y # post
        \<and> filter (\<lambda>z. z \<noteq> x) (items s) = pre @ y # post))"
  using assms stacker.restack_above[OF assms, of x y]
  by (simp add: GetIndex_def index_loop_eq stacker.on_top_ok stacker.on_bottom_ok stacker.above_ok
      stacker.below_ok stacker.remove_ok stacker.contains_iff stacker.under_eq)

theorem Stacker_refines_list_witness:
  "items (AddBelow 3 1 (AddAbove 2 1 (AddOnTop 1 (new_Stacker :: nat stacker)))) = [2, 1, 3]"
proof -
  let ?s0 = "new_Stacker :: nat stacker"
  let ?s1 = "AddOnTop 1 ?s0"
  let ?s2 = "AddAbove 2 1 ?s1"
  have i0: "stacker_inv ?s0" "items ?s0 = []" by (rule stacker.empty_ok)+
  have i1: "stacker_inv ?s1" "items ?s1 = [1]"
    using Stacker_refines_list[OF i0(1), of 1] i0(2) by simp_all
  have i2: "stacker_inv ?s2" "items ?s2 = [2, 1]"
    using Stacker_refines_list[OF i1(1), of 2 1] i1(2) by (simp_all add: put_above_def)
  show ?thesis using Stacker_refines_list[OF i2(1), of 3 1] i2(2) by (simp add: put_below_def)
qed

section \<open>Rectangles of a ByteMap\<close>

definition byte_map_inv :: "byte_map \<Rightarrow> bool" where
  "byte_map_inv m \<longleftrightarrow> 0 < bm_width m \<and> 0 < bm_height m
     \<and> int (length (bm_bytes m)) = bm_width m * bm_height m"

definition pixel :: "byte_map \<Rightarrow> int \<Rightarrow> int \<Rightarrow> byte" where
  "pixel m x y = bm_bytes m ! nat (y * bm_width m + x)"

lemma memset_nth:
  assumes "memset off v n bs = Some bs'"
  shows "length bs' = length bs"
    "0 \<le> k \<Longrightarrow> k < int (length bs) \<Longrightarrow>
      bs' ! nat k = (if off \<le> k \<and> k < off + n then v else bs ! nat k)"
  using assms
  by (auto simp: memset_def nth_append nat_diff_distrib nat_add_distrib le_nat_iff nat_less_iff
      of_nat_diff less_diff_conv2 nat_le_iff split: if_splits)

lemma row_index:
  assumes "0 \<le> x" "x < w" "0 \<le> a" "b \<le> w" "(0::int) < w"
  shows "y * w + a \<le> Y * w + x \<and> Y * w + x < y * w + b \<longleftrightarrow> Y = y \<and> a \<le> x \<and> x < b"
proof -
  have "(Y + 1) * w \<le> y * w" if "Y < y" using that assms(5) by (intro mult_right_mono) auto
  moreover have "(y + 1) * w \<le> Y * w" if "y < Y" using that assms(5) by (intro mult_right_mono) auto
  ultimately show ?thesis
    using assms by (cases Y y rule: linorder_cases) (auto simp: distrib_right)
qed

lemma index_in_map: "0 \<le> x \<Longrightarrow> x < w \<Longrightarrow> 0 \<le> y \<Longrightarrow> y < h \<Longrightarrow> 0 \<le> y * w + x \<and> y * w + x < w * (h :: int)"
  using mult_right_mono[of "y + 1" h w] by (auto simp: algebra_simps)

lemma rect_rows_ok:
  assumes "int (length bs) = w * h" "0 < w" "0 \<le> rx" "rx < lx" "lx \<le> w" "0 \<le> y" "ly \<le> h"
  shows "\<exists>bs'. rect_rows w rx lx y ly v bs = Some bs' \<and> length bs' = length bs \<and>
    (\<forall>X Y. 0 \<le> X \<and> X < w \<and> 0 \<le> Y \<and> Y < h \<longrightarrow> bs' ! nat (Y * w + X) =
      (if rx \<le> X \<and> X < lx \<and> y \<le> Y \<and> Y < ly then v else bs ! nat (Y * w + X)))"
  using assms
proof (induction w rx lx y ly v bs rule: rect_rows.induct)
  case (1 w rx lx y ly v bs)
  show ?case
  proof (cases "y < ly")
    case False
    then show ?thesis by (subst rect_rows.simps) auto
  next
    case True
    have "y * w + lx \<le> int (length bs)"
      using mult_right_mono[of "y + 1" h w] True 1(2-8) by (simp add: algebra_simps)
    then obtain bs1 where ms: "memset (y * w + rx) v (lx - rx) bs = Some bs1"
      using 1(3-7) by (auto simp: memset_def)
    note n = memset_nth[OF ms]
    have "int (length bs1) = w * h" using n(1) 1(2) by simp
    from 1(1)[OF True ms this 1(3-6)] 1(7,8) obtain bs' where
      r: "rect_rows w rx lx (y + 1) ly v bs1 = Some bs'" "length bs' = length bs1"
        "\<forall>X Y. 0 \<le> X \<and> X < w \<and> 0 \<le> Y \<and> Y < h \<longrightarrow> bs' ! nat (Y * w + X) =
          (if rx \<le> X \<and> X < lx \<and> y + 1 \<le> Y \<and> Y < ly then v else bs1 ! nat (Y * w + X))" by auto
    have "bs1 ! nat (Y * w + X) = (if Y = y \<and> rx \<le> X \<and> X < lx then v else bs ! nat (Y * w + X))"
      if "0 \<le> X" "X < w" "0 \<le> Y" "Y < h" for X Y
      using n(2)[of "Y * w + X"] index_in_map[OF that] 1(2) row_index[OF that(1,2) 1(4,6,3), of y Y] by simp
    with r True ms n(1) show ?thesis by (subst rect_rows.simps) auto
  qed
qed

text \<open>
  \<open>ByteMap::SetRectangle\<close> never writes outside its array, for rectangles that lie partly
  or wholly outside the map or have a negative size too, and sets exactly the pixels of the map
  that the rectangle covers.
\<close>

theorem SetRectangle_sets:
  assumes "byte_map_inv m"
  shows "\<exists>m'. SetRectangle rx ry rw rh v m = Some m' \<and> byte_map_inv m'
    \<and> bm_width m' = bm_width m \<and> bm_height m' = bm_height m
    \<and> (\<forall>x y. 0 \<le> x \<and> x < bm_width m \<and> 0 \<le> y \<and> y < bm_height m \<longrightarrow>
        pixel m' x y = (if rx \<le> x \<and> x < rx + rw \<and> ry \<le> y \<and> y < ry + rh then v else pixel m x y))"
proof (cases "max rx 0 \<ge> min (rx + rw) (bm_width m)")
  case True
  then show ?thesis using assms by (auto simp: SetRectangle_def Let_def)
next
  case False
  let ?w = "bm_width m" and ?h = "bm_height m"
  from assms have inv: "int (length (bm_bytes m)) = ?w * ?h" "0 < ?w" by (simp_all add: byte_map_inv_def)
  have "0 \<le> max rx 0" "max rx 0 < min (rx + rw) ?w" "min (rx + rw) ?w \<le> ?w" "0 \<le> max ry 0"
    "min (ry + rh) ?h \<le> ?h" using False by linarith+
  from rect_rows_ok[OF inv this, of v] obtain bs where r: "rect_rows ?w (max rx 0) (min (rx + rw) ?w) (max ry 0) (min (ry + rh) ?h) v (bm_bytes m) = Some bs"
    "length bs = length (bm_bytes m)"
    "\<forall>X Y. 0 \<le> X \<and> X < ?w \<and> 0 \<le> Y \<and> Y < ?h \<longrightarrow> bs ! nat (Y * ?w + X) =
      (if max rx 0 \<le> X \<and> X < min (rx + rw) ?w \<and> max ry 0 \<le> Y \<and> Y < min (ry + rh) ?h then v
       else bm_bytes m ! nat (Y * ?w + X))" by auto
  have "SetRectangle rx ry rw rh v m = Some (m\<lparr>bm_bytes := bs\<rparr>)"
    using False r(1) by (simp add: SetRectangle_def Let_def)
  moreover have "byte_map_inv (m\<lparr>bm_bytes := bs\<rparr>)" using assms r(2) by (simp add: byte_map_inv_def)
  ultimately show ?thesis using r(3) by (auto simp: pixel_def)
qed

theorem SetRectangle_sets_witness:
  "\<exists>m'. SetRectangle (-1) 1 2 5 7 \<lparr>bm_width = 2, bm_height = 2, bm_bytes = [0, 0, 0, 0]\<rparr> = Some m'
    \<and> pixel m' 0 1 = 7 \<and> pixel m' 1 1 = 0 \<and> pixel m' 0 0 = 0"
proof -
  have "byte_map_inv \<lparr>bm_width = 2, bm_height = 2, bm_bytes = [0, 0, 0, 0]\<rparr>"
    by (simp add: byte_map_inv_def)
  from SetRectangle_sets[OF this, of "-1" 1 2 5 7] obtain m' where
    m: "SetRectangle (-1) 1 2 5 7 \<lparr>bm_width = 2, bm_height = 2, bm_bytes = [0, 0, 0, 0]\<rparr> = Some m'"
    and p: "0 \<le> x \<Longrightarrow> x < 2 \<Longrightarrow> 0 \<le> y \<Longrightarrow> y < 2 \<Longrightarrow> pixel m' x y =
      (if -1 \<le> x \<and> x < 1 \<and> 1 \<le> y \<and> y < 6 then 7 else [0, 0, 0, 0] ! nat (y * 2 + x))" for x y
    by (auto simp: pixel_def)
  show ?thesis using m p[of 0 1] p[of 1 1] p[of 0 0] by simp
qed

section \<open>The next power of two\<close>

lemma bit_smear: "bit (smear n x) i \<longleftrightarrow> bit x i \<or> bit x (i + n)"
  by (auto simp: smear_def bit_or_iff bit_drop_bit_eq add.commute)

lemma smear_range:
  assumes "\<forall>i. bit y i \<longleftrightarrow> (\<exists>j < n. bit x (i + j))"
  shows "\<forall>i. bit (smear n y) i \<longleftrightarrow> (\<exists>j < 2 * n. bit x (i + j))"
proof
  fix i
  have "(\<exists>j < 2 * n. bit x (i + j)) \<longleftrightarrow> (\<exists>j < n. bit x (i + j)) \<or> (\<exists>j < n. bit x (i + n + j))"
  proof
    assume "\<exists>j < 2 * n. bit x (i + j)"
    then obtain j where j: "j < 2 * n" "bit x (i + j)" by blast
    then show "(\<exists>j < n. bit x (i + j)) \<or> (\<exists>j < n. bit x (i + n + j))"
    proof (cases "j < n")
      case False
      with j have "j - n < n" "bit x (i + n + (j - n))" by auto
      then show ?thesis by blast
    qed (use j in blast)
  next
    assume "(\<exists>j < n. bit x (i + j)) \<or> (\<exists>j < n. bit x (i + n + j))"
    then obtain j where "j < n" "bit x (i + j) \<or> bit x (i + (n + j))" by (auto simp: add.assoc)
    moreover from this(1) have "j < 2 * n" "n + j < 2 * n" by auto
    ultimately show "\<exists>j < 2 * n. bit x (i + j)" by blast
  qed
  then show "bit (smear n y) i \<longleftrightarrow> (\<exists>j < 2 * n. bit x (i + j))"
    using assms by (simp add: bit_smear)
qed

lemma bit_smear_all:
  "bit (smear 16 (smear 8 (smear 4 (smear 2 (smear 1 x))))) i \<longleftrightarrow> (\<exists>j < 32. bit x (i + j))"
proof -
  have "\<forall>i. bit x i \<longleftrightarrow> (\<exists>j < 1. bit x (i + j))" by simp
  from smear_range[OF smear_range[OF smear_range[OF smear_range[OF smear_range[OF this]]]]]
  show ?thesis by simp
qed

text \<open>The smeared word has all bits up to the highest bit of the argument.\<close>

lemma smear_mask:
  fixes x :: "32 word"
  assumes "bit x k" "\<forall>j > k. \<not> bit x j"
  shows "smear 16 (smear 8 (smear 4 (smear 2 (smear 1 x)))) = mask (Suc k)"
proof (rule bit_word_eqI)
  fix i assume "i < LENGTH(32)"
  from assms(1) have "k < 32" using bit_imp_le_length[of x k] by simp
  have "(\<exists>j < 32. bit x (i + j)) \<longleftrightarrow> i \<le> k"
  proof
    assume "\<exists>j < 32. bit x (i + j)"
    then show "i \<le> k" using assms(2) by (metis le_add1 le_trans not_le)
  next
    assume "i \<le> k"
    then show "\<exists>j < 32. bit x (i + j)" using assms(1) \<open>k < 32\<close> by (intro exI[of _ "k - i"]) auto
  qed
  then show "bit (smear 16 (smear 8 (smear 4 (smear 2 (smear 1 x))))) i \<longleftrightarrow> bit (mask (Suc k) :: 32 word) i"
    using \<open>i < LENGTH(32)\<close> by (simp only: bit_smear_all) (auto simp: bit_mask_iff less_Suc_eq_le)
qed

lemma highest_bit:
  fixes x :: "32 word"
  assumes "x \<noteq> 0"
  obtains k where "bit x k" "\<forall>j > k. \<not> bit x j" "k < 32" "2 ^ k \<le> unat x" "unat x < 2 ^ Suc k"
proof -
  have fin: "{j. bit x j} \<subseteq> {..<32}" using bit_imp_le_length[of x] by auto
  have ne: "{j. bit x j} \<noteq> {}" using assms by (auto simp: bit_eq_iff)
  let ?k = "Max {j. bit x j}"
  have f: "finite {j. bit x j}" using fin finite_subset by blast
  have b: "bit x ?k" using Max_in[OF f ne] by simp
  have h: "\<forall>j > ?k. \<not> bit x j" using Max_ge[OF f] by (auto simp: not_less[symmetric])
  have bu: "bit (unat x) j \<longleftrightarrow> bit x j" for j by (simp add: bit_unsigned_iff)
  have "take_bit (Suc ?k) (unat x) = unat x"
  proof (rule bit_eqI)
    fix n show "bit (take_bit (Suc ?k) (unat x)) n \<longleftrightarrow> bit (unat x) n"
      using h bu[of n] by (simp only: bit_take_bit_iff) (metis less_Suc_eq_le not_le)
  qed
  then have "unat x < 2 ^ Suc ?k" by (simp only: take_bit_nat_eq_self_iff)
  moreover have "2 ^ ?k \<le> unat x"
  proof (rule ccontr)
    assume "\<not> 2 ^ ?k \<le> unat x"
    then have "unat x div 2 ^ ?k = 0" by simp
    with b show False using bu[of ?k] by (simp add: bit_iff_odd)
  qed
  ultimately show ?thesis using that b h fin by blast
qed

text \<open>
  \<open>NextPowerOfTwo(x)\<close> is the least power of two that is not less than \<open>x\<close>, for every
  \<open>x\<close> from 1 to 2 to the 31; for 0 and for larger values, which have no such power of two
  in 32 bits, the addition wraps and the result is 0.
\<close>

theorem NextPowerOfTwo_correct:
  "if 0 < x \<and> unat x \<le> 2 ^ 31
   then \<exists>k. unat (NextPowerOfTwo x) = 2 ^ k \<and> unat x \<le> 2 ^ k \<and> (\<forall>j. unat x \<le> 2 ^ j \<longrightarrow> k \<le> j)
   else NextPowerOfTwo x = 0"
proof (cases "x - 1 = 0")
  case True
  then have "x = 1" by simp
  moreover have "NextPowerOfTwo 1 = 1" by (simp add: NextPowerOfTwo_def smear_def Let_def)
  ultimately show ?thesis by (auto intro!: exI[of _ 0])
next
  case False
  then obtain k where k: "bit (x - 1) k" "\<forall>j > k. \<not> bit (x - 1) j" "k < 32"
    "2 ^ k \<le> unat (x - 1)" "unat (x - 1) < 2 ^ Suc k" by (rule highest_bit)
  have np: "NextPowerOfTwo x = 2 ^ Suc k"
    using smear_mask[OF k(1,2)] by (simp add: NextPowerOfTwo_def Let_def mask_eq_exp_minus_1)
  show ?thesis
  proof (cases "x = 0")
    case True
    then have "bit (x - 1) 31" by (simp add: bit_1_iff)
    with k(2) have "\<not> k < 31" by blast
    with k(3) have "k = 31" by linarith
    with np True show ?thesis by (simp add: exp_eq_zero_iff)
  next
    case nz: False
    then have u: "unat (x - 1) = unat x - 1" "0 < unat x"
      by (simp_all add: unat_minus_one unat_gt_0)
    show ?thesis
    proof (cases "k = 31")
      case True
      with k(4) u have "\<not> unat x \<le> 2 ^ 31" by simp
      with np True show ?thesis by (simp add: exp_eq_zero_iff)
    next
      case False
      with k(3) have k31: "Suc k < 32" by simp
      have "(2::nat) ^ Suc k < 2 ^ 32" using k31 by (intro power_strict_increasing) auto
      then have un: "unat (2 ^ Suc k :: 32 word) = 2 ^ Suc k"
        using unat_of_nat[where 'a = 32, of "2 ^ Suc k"] by (simp del: power_Suc)
      have "(2::nat) ^ Suc k \<le> 2 ^ 31" using k31 by (intro power_increasing) auto
      with k(5) u have le: "unat x \<le> 2 ^ 31" "unat x \<le> 2 ^ Suc k" by linarith+
      have "Suc k \<le> j" if "unat x \<le> 2 ^ j" for j
      proof (rule ccontr)
        assume "\<not> Suc k \<le> j"
        then have "(2::nat) ^ j \<le> 2 ^ k" by (intro power_increasing) auto
        with that k(4) u show False by linarith
      qed
      with np un le nz show ?thesis by (auto simp: word_gt_0 intro!: exI[of _ "Suc k"])
    qed
  qed
qed

theorem NextPowerOfTwo_correct_witness: "unat (NextPowerOfTwo 5) = 8"
proof -
  from NextPowerOfTwo_correct[of 5] obtain k where k: "unat (NextPowerOfTwo 5) = 2 ^ k" "5 \<le> (2::nat) ^ k"
    and least: "\<forall>j. 5 \<le> (2::nat) ^ j \<longrightarrow> k \<le> j" by auto
  from least[rule_format, of 3] have "k \<le> 3" by simp
  moreover have "\<not> k \<le> 2"
  proof
    assume "k \<le> 2"
    then have "(2::nat) ^ k \<le> 2 ^ 2" by (intro power_increasing) auto
    with k(2) show False by simp
  qed
  ultimately have "k = 3" by linarith
  with k(1) show ?thesis by simp
qed

end
