(* ===== verification/Containers.thy ===== *)
theory Containers
  imports Prelude "HOL-Library.List_Lexorder" "HOL-Library.Char_ord"
begin

text \<open>
  \<open>std::map\<close> and \<open>std::set\<close> as strictly sorted lists, so that iteration from \<open>begin()\<close>
  to \<open>end()\<close> is a walk along the list. \<open>om_\<close> operations are those of maps, \<open>os_\<close>
  operations those of sets. Strings are ordered as \<open>std::string\<close> is, character by
  character.
\<close>

type_synonym ('k, 'v) omap = "('k \<times> 'v) list"

definition om_ok :: "('k :: linorder, 'v) omap \<Rightarrow> bool" where
  "om_ok m \<longleftrightarrow> sorted_wrt (<) (map fst m)"

definition om_put :: "'k :: linorder \<Rightarrow> 'v \<Rightarrow> ('k, 'v) omap \<Rightarrow> ('k, 'v) omap" where
  "om_put k v m = filter (\<lambda>p. fst p < k) m @ (k, v) # filter (\<lambda>p. k < fst p) m"

definition om_del :: "'k :: linorder \<Rightarrow> ('k, 'v) omap \<Rightarrow> ('k, 'v) omap" where
  "om_del k m = filter (\<lambda>p. fst p \<noteq> k) m"

definition os_ok :: "'k :: linorder list \<Rightarrow> bool" where
  "os_ok s \<longleftrightarrow> sorted_wrt (<) s"

definition os_put :: "'k :: linorder \<Rightarrow> 'k list \<Rightarrow> 'k list" where
  "os_put k s = filter (\<lambda>x. x < k) s @ k # filter (\<lambda>x. k < x) s"

definition os_del :: "'k :: linorder \<Rightarrow> 'k list \<Rightarrow> 'k list" where
  "os_del k s = filter (\<lambda>x. x \<noteq> k) s"

named_theorems container_simps \<open>lookup, membership and well-formedness of sorted containers\<close>

lemma map_of_filter_keys: "map_of (filter (\<lambda>p. P (fst p)) m) k = (if P k then map_of m k else None)"
  by (induction m) auto

lemma om_get_put [container_simps]:
  "map_of (om_put k v m) x = (if x = k then Some v else map_of m x)"
  using map_of_filter_keys[of "\<lambda>y. y < k" m x] map_of_filter_keys[of "\<lambda>y. k < y" m x]
  by (auto simp: om_put_def map_add_def split: option.splits)

lemma om_get_del [container_simps]: "map_of (om_del k m) x = (if x = k then None else map_of m x)"
  using map_of_filter_keys[of "\<lambda>y. y \<noteq> k" m x] by (simp add: om_del_def)

lemma om_ok_put [container_simps]: "om_ok m \<Longrightarrow> om_ok (om_put k v m)"
  by (auto simp: om_ok_def om_put_def sorted_wrt_append sorted_wrt_map intro: sorted_wrt_filter)

lemma om_ok_del [container_simps]: "om_ok m \<Longrightarrow> om_ok (om_del k m)"
  by (auto simp: om_ok_def om_del_def sorted_wrt_map intro: sorted_wrt_filter)

lemma om_ok_Nil [container_simps]: "om_ok []"
  by (simp add: om_ok_def)

lemma om_ok_distinct: "om_ok m \<Longrightarrow> distinct (map fst m)"
  by (auto simp: om_ok_def strict_sorted_iff)

lemma om_in_iff: "om_ok m \<Longrightarrow> (k, v) \<in> set m \<longleftrightarrow> map_of m k = Some v"
  by (simp add: om_ok_distinct)

lemma om_empty_iff: "m = [] \<longleftrightarrow> (\<forall>k. map_of m k = None)"
  by (cases m) force+

lemma om_del_length: "map_of m k = Some v \<Longrightarrow> length (om_del k m) < length m"
  unfolding om_del_def by (rule length_filter_less[of "(k, v)"]) (auto dest: map_of_SomeD)

lemma os_set_put [container_simps]: "set (os_put k s) = insert k (set s)"
  by (auto simp: os_put_def)

lemma os_set_del [container_simps]: "set (os_del k s) = set s - {k}"
  by (auto simp: os_del_def)

lemma os_ok_put [container_simps]: "os_ok s \<Longrightarrow> os_ok (os_put k s)"
  by (auto simp: os_ok_def os_put_def sorted_wrt_append intro: sorted_wrt_filter)

lemma os_ok_del [container_simps]: "os_ok s \<Longrightarrow> os_ok (os_del k s)"
  by (auto simp: os_ok_def os_del_def intro: sorted_wrt_filter)

lemma os_ok_Nil [container_simps]: "os_ok []"
  by (simp add: os_ok_def)

lemma os_ok_distinct: "os_ok s \<Longrightarrow> distinct s"
  by (simp add: os_ok_def strict_sorted_iff)

lemma os_del_length: "k \<in> set s \<Longrightarrow> length (os_del k s) < length s"
  unfolding os_del_def by (rule length_filter_less[of k]) auto

end
