(* ===== verification/WM_Keys.thy ===== *)
theory WM_Keys
  imports Containers
begin

text \<open>
  \<open>KeyBindings\<close> (\<open>window_manager/key_bindings.h\<close>, \<open>key_bindings.cc\<close>).

  The X library's \<open>XConvertCase\<close> (its lower case result) and the server's table of key
  codes are the parameters \<open>lower\<close> and \<open>keycode\<close>. Grabs, and the closures an action runs,
  are events of a log, oldest first; a closure is run as the last call of
  \<open>HandleKeyPress\<close>, and closures run by \<open>HandleKeyRelease\<close> are taken not to change the
  bindings. \<open>RemoveBinding\<close> is given the combination by value here; the code passes a
  reference, and \<open>RemoveAction\<close> one into the set that \<open>RemoveBinding\<close> erases from.
\<close>

unbundle bit_operations_syntax

datatype key_combo = KeyCombo (combo_key: "32 word") (combo_modifiers: "32 word")

definition LockMask :: "32 word" where "LockMask = 2"

definition kShiftMask :: "32 word" where "kShiftMask = 1"
definition kControlMask :: "32 word" where "kControlMask = 4"
definition kAltMask :: "32 word" where "kAltMask = 8"
definition kMetaMask :: "32 word" where "kMetaMask = 16"
definition kNumLockMask :: "32 word" where "kNumLockMask = 32"
definition kSuperMask :: "32 word" where "kSuperMask = 64"
definition kHyperMask :: "32 word" where "kHyperMask = 128"

definition new_KeyCombo :: "(32 word \<Rightarrow> 32 word) \<Rightarrow> 32 word \<Rightarrow> 32 word \<Rightarrow> key_combo" where
  "new_KeyCombo lower key modifiers = KeyCombo (lower key) (modifiers AND NOT LockMask)"

text \<open>The order of combinations is \<open>KeyComboComparator\<close>.\<close>

definition combo_less :: "key_combo \<Rightarrow> key_combo \<Rightarrow> bool" where
  "combo_less a b \<longleftrightarrow>
     combo_key a < combo_key b
     \<or> combo_key a = combo_key b \<and> combo_modifiers a < combo_modifiers b"

instantiation key_combo :: linorder
begin

definition less_key_combo :: "key_combo \<Rightarrow> key_combo \<Rightarrow> bool" where
  "less_key_combo a b = combo_less a b"

definition less_eq_key_combo :: "key_combo \<Rightarrow> key_combo \<Rightarrow> bool" where
  "less_eq_key_combo a b \<longleftrightarrow> a = b \<or> combo_less a b"

instance
proof
  fix x y z :: key_combo
  show "x \<le> y \<or> y \<le> x"
    by (cases x; cases y) (auto simp: less_eq_key_combo_def combo_less_def)
qed (auto simp: less_key_combo_def less_eq_key_combo_def combo_less_def)

end

datatype closure_kind = BeginClosure | RepeatClosure | EndClosure

datatype kb_event =
    GrabKey nat "32 word"
  | UngrabKey nat "32 word"
  | RunClosure string closure_kind

record kb_action =
  ac_running :: bool
  ac_begin :: bool
  ac_repeat :: bool
  ac_end :: bool
  ac_bindings :: "key_combo list"

record key_bindings =
  kb_actions :: "(string, kb_action) omap"
  kb_bindings :: "(key_combo, string) omap"
  kb_names :: "(32 word, string list) omap"
  kb_log :: "kb_event list"

definition new_KeyBindings :: key_bindings where
  "new_KeyBindings = \<lparr>kb_actions = [], kb_bindings = [], kb_names = [], kb_log = []\<rparr>"

definition kb_emit :: "kb_event \<Rightarrow> key_bindings \<Rightarrow> key_bindings" where
  "kb_emit e k = k\<lparr>kb_log := kb_log k @ [e]\<rparr>"

definition AddAction :: "string \<Rightarrow> bool \<Rightarrow> bool \<Rightarrow> bool \<Rightarrow> key_bindings \<Rightarrow> (bool \<times> key_bindings) option" where
  "AddAction action_name begin_closure repeat_closure end_closure k = do {
     CHECK (action_name \<noteq> []);
     if map_of (kb_actions k) action_name \<noteq> None then Some (False, k)
     else
       (let action = \<lparr>ac_running = False, ac_begin = begin_closure, ac_repeat = repeat_closure,
                      ac_end = end_closure, ac_bindings = []\<rparr>
        in Some (True, k\<lparr>kb_actions := om_put action_name action (kb_actions k)\<rparr>)) }"

definition names_at :: "32 word \<Rightarrow> key_bindings \<Rightarrow> string list" where
  "names_at key k = (case map_of (kb_names k) key of None \<Rightarrow> [] | Some s \<Rightarrow> s)"

definition AddBinding ::
    "(32 word \<Rightarrow> nat) \<Rightarrow> key_combo \<Rightarrow> string \<Rightarrow> key_bindings \<Rightarrow> (bool \<times> key_bindings) option" where
  "AddBinding keycode combo action_name k =
     (if map_of (kb_bindings k) combo \<noteq> None then Some (False, k)
      else
        (case map_of (kb_actions k) action_name of
           None \<Rightarrow> Some (False, k)
         | Some action \<Rightarrow> do {
             CHECK (combo \<notin> set (ac_bindings action));
             let action = action\<lparr>ac_bindings := os_put combo (ac_bindings action)\<rparr>;
             let k = k\<lparr>kb_actions := om_put action_name action (kb_actions k),
                       kb_bindings := om_put combo action_name (kb_bindings k)\<rparr>;
             CHECK (action_name \<notin> set (names_at (combo_key combo) k));
             let k = k\<lparr>kb_names :=
               om_put (combo_key combo) (os_put action_name (names_at (combo_key combo) k)) (kb_names k)\<rparr>;
             let code = keycode (combo_key combo);
             let k = kb_emit (GrabKey code (combo_modifiers combo)) k;
             let k = kb_emit (GrabKey code (combo_modifiers combo OR LockMask)) k;
             Some (True, k) }))"

definition RemoveBinding ::
    "(32 word \<Rightarrow> nat) \<Rightarrow> key_combo \<Rightarrow> key_bindings \<Rightarrow> (bool \<times> key_bindings) option" where
  "RemoveBinding keycode combo k =
     (case map_of (kb_bindings k) combo of
        None \<Rightarrow> Some (False, k)
      | Some action_name \<Rightarrow> do {
          action \<leftarrow> map_of (kb_actions k) action_name;
          CHECK (combo \<in> set (ac_bindings action));
          let action = action\<lparr>ac_bindings := os_del combo (ac_bindings action)\<rparr>;
          names \<leftarrow> map_of (kb_names k) (combo_key combo);
          CHECK (action_name \<in> set names);
          let names = os_del action_name names;
          let k = k\<lparr>kb_names := (if names = [] then om_del (combo_key combo) (kb_names k)
                                else om_put (combo_key combo) names (kb_names k))\<rparr>;
          let k = k\<lparr>kb_bindings := om_del combo (kb_bindings k)\<rparr>;
          let action = action\<lparr>ac_running := False\<rparr>;
          let k = k\<lparr>kb_actions := om_put action_name action (kb_actions k)\<rparr>;
          let code = keycode (combo_key combo);
          let k = kb_emit (UngrabKey code (combo_modifiers combo)) k;
          let k = kb_emit (UngrabKey code (combo_modifiers combo OR LockMask)) k;
          Some (True, k) })"

text \<open>
  The loop of \<open>RemoveAction\<close>; the destructor of \<open>Action\<close> checks that no binding is left.
  Its bound is the number of bindings the action has.
\<close>

fun remove_bindings :: "nat \<Rightarrow> (32 word \<Rightarrow> nat) \<Rightarrow> string \<Rightarrow> key_bindings \<Rightarrow> key_bindings option" where
  "remove_bindings n keycode action_name k = do {
     action \<leftarrow> map_of (kb_actions k) action_name;
     case ac_bindings action of
       [] \<Rightarrow> Some k
     | combo # _ \<Rightarrow>
         (case n of
            0 \<Rightarrow> None
          | Suc n \<Rightarrow> do {
              (ok, k) \<leftarrow> RemoveBinding keycode combo k;
              CHECK ok;
              remove_bindings n keycode action_name k }) }"

declare remove_bindings.simps [simp del]

definition RemoveAction ::
    "(32 word \<Rightarrow> nat) \<Rightarrow> string \<Rightarrow> key_bindings \<Rightarrow> (bool \<times> key_bindings) option" where
  "RemoveAction keycode action_name k =
     (case map_of (kb_actions k) action_name of
        None \<Rightarrow> Some (False, k)
      | Some action \<Rightarrow> do {
          k \<leftarrow> remove_bindings (length (ac_bindings action)) keycode action_name k;
          Some (True, k\<lparr>kb_actions := om_del action_name (kb_actions k)\<rparr>) })"

fun remove_actions :: "nat \<Rightarrow> (32 word \<Rightarrow> nat) \<Rightarrow> key_bindings \<Rightarrow> key_bindings option" where
  "remove_actions n keycode k =
     (case kb_actions k of
        [] \<Rightarrow> Some k
      | (action_name, _) # _ \<Rightarrow>
          (case n of
             0 \<Rightarrow> None
           | Suc n \<Rightarrow> do {
               (_, k) \<leftarrow> RemoveAction keycode action_name k;
               remove_actions n keycode k }))"

declare remove_actions.simps [simp del]

definition destroy_KeyBindings :: "(32 word \<Rightarrow> nat) \<Rightarrow> key_bindings \<Rightarrow> key_bindings option" where
  "destroy_KeyBindings keycode k = do {
     k \<leftarrow> remove_actions (length (kb_actions k)) keycode k;
     CHECK (length (kb_bindings k) = 0);
     Some k }"

definition HandleKeyPress ::
    "(32 word \<Rightarrow> 32 word) \<Rightarrow> 32 word \<Rightarrow> 32 word \<Rightarrow> key_bindings \<Rightarrow> (bool \<times> key_bindings) option" where
  "HandleKeyPress lower keysym modifiers k =
     (case map_of (kb_bindings k) (new_KeyCombo lower keysym modifiers) of
        None \<Rightarrow> Some (False, k)
      | Some action_name \<Rightarrow> do {
          action \<leftarrow> map_of (kb_actions k) action_name;
          Some (if ac_running action then
                  (if ac_repeat action then (True, kb_emit (RunClosure action_name RepeatClosure) k)
                   else (False, k))
                else
                  (let k = k\<lparr>kb_actions := om_put action_name (action\<lparr>ac_running := True\<rparr>) (kb_actions k)\<rparr>
                   in if ac_begin action then (True, kb_emit (RunClosure action_name BeginClosure) k)
                      else (False, k))) })"

fun release_loop :: "string list \<Rightarrow> bool \<times> key_bindings \<Rightarrow> (bool \<times> key_bindings) option" where
  "release_loop [] (ran_end_closure, k) = Some (ran_end_closure, k)"
| "release_loop (action_name # names) (ran_end_closure, k) = do {
     action \<leftarrow> map_of (kb_actions k) action_name;
     release_loop names
       (if ac_running action then
          (let k = k\<lparr>kb_actions := om_put action_name (action\<lparr>ac_running := False\<rparr>) (kb_actions k)\<rparr>
           in if ac_end action then (True, kb_emit (RunClosure action_name EndClosure) k) else (ran_end_closure, k))
        else (ran_end_closure, k)) }"

definition HandleKeyRelease ::
    "(32 word \<Rightarrow> 32 word) \<Rightarrow> 32 word \<Rightarrow> 32 word \<Rightarrow> key_bindings \<Rightarrow> (bool \<times> key_bindings) option" where
  "HandleKeyRelease lower keysym modifiers k =
     (case map_of (kb_names k) (combo_key (new_KeyCombo lower keysym modifiers)) of
        None \<Rightarrow> Some (False, k)
      | Some names \<Rightarrow> release_loop names (False, k))"

text \<open>The keysym constants are those of \<open>X11/keysymdef.h\<close>.\<close>

definition KeySymToModifier :: "32 word \<Rightarrow> 32 word" where
  "KeySymToModifier keysym =
     (if keysym = 0xffe1 \<or> keysym = 0xffe2 then kShiftMask
      else if keysym = 0xffe3 \<or> keysym = 0xffe4 then kControlMask
      else if keysym = 0xffe9 \<or> keysym = 0xffea then kAltMask
      else if keysym = 0xffe7 \<or> keysym = 0xffe8 then kMetaMask
      else if keysym = 0xff7f then kNumLockMask
      else if keysym = 0xffeb \<or> keysym = 0xffec then kSuperMask
      else if keysym = 0xffed \<or> keysym = 0xffee then kHyperMask
      else 0)"

section \<open>Consistency of the tables\<close>

text \<open>
  The three tables agree: a combination is bound to an action exactly when the action lists it, an
  action is listed under a key symbol exactly when one of its combinations has that key, and no
  action has two combinations with the same key.
\<close>

definition kb_inv :: "key_bindings \<Rightarrow> bool" where
  "kb_inv k \<longleftrightarrow>
     om_ok (kb_actions k) \<and> om_ok (kb_bindings k) \<and> om_ok (kb_names k) \<and>
     (\<forall>c a. map_of (kb_bindings k) c = Some a \<longleftrightarrow>
        (\<exists>act. map_of (kb_actions k) a = Some act \<and> c \<in> set (ac_bindings act))) \<and>
     (\<forall>s a. a \<in> set (names_at s k) \<longleftrightarrow>
        (\<exists>c. map_of (kb_bindings k) c = Some a \<and> combo_key c = s)) \<and>
     (\<forall>s. map_of (kb_names k) s \<noteq> Some []) \<and>
     (\<forall>c d a. map_of (kb_bindings k) c = Some a \<and> map_of (kb_bindings k) d = Some a
        \<and> combo_key c = combo_key d \<longrightarrow> c = d) \<and>
     (\<forall>s. os_ok (names_at s k))"

lemma kb_invD:
  assumes "kb_inv k"
  shows "om_ok (kb_actions k)" "om_ok (kb_bindings k)" "om_ok (kb_names k)"
    and "map_of (kb_bindings k) c = Some a \<longleftrightarrow>
        (\<exists>act. map_of (kb_actions k) a = Some act \<and> c \<in> set (ac_bindings act))"
    and "a \<in> set (names_at s k) \<longleftrightarrow> (\<exists>c. map_of (kb_bindings k) c = Some a \<and> combo_key c = s)"
    and "map_of (kb_names k) s \<noteq> Some []"
    and "map_of (kb_bindings k) c = Some a \<Longrightarrow> map_of (kb_bindings k) d = Some a \<Longrightarrow>
      combo_key c = combo_key d \<Longrightarrow> c = d"
    and "os_ok (names_at s k)"
  using assms unfolding kb_inv_def by blast+


text \<open>What the two operations on bindings do to the tables when they succeed.\<close>

lemma AddBinding_eq:
  assumes "kb_inv k" "map_of (kb_bindings k) combo = None" "map_of (kb_actions k) a = Some act"
  shows "AddBinding keycode combo a k =
    (if a \<in> set (names_at (combo_key combo) k) then None
     else Some (True, k
       \<lparr>kb_actions := om_put a (act\<lparr>ac_bindings := os_put combo (ac_bindings act)\<rparr>) (kb_actions k),
        kb_bindings := om_put combo a (kb_bindings k),
        kb_names := om_put (combo_key combo) (os_put a (names_at (combo_key combo) k)) (kb_names k),
        kb_log := kb_log k @ [GrabKey (keycode (combo_key combo)) (combo_modifiers combo),
          GrabKey (keycode (combo_key combo)) (combo_modifiers combo OR LockMask)]\<rparr>))"
proof -
  have "combo \<notin> set (ac_bindings act)" using kb_invD(4)[OF assms(1)] assms(2,3) by force
  then show ?thesis using assms(2,3)
    by (simp add: AddBinding_def Let_def names_at_def kb_emit_def)
qed

definition unbound ::
    "(32 word \<Rightarrow> nat) \<Rightarrow> key_combo \<Rightarrow> string \<Rightarrow> kb_action \<Rightarrow> string list \<Rightarrow> key_bindings \<Rightarrow> key_bindings" where
  "unbound keycode combo a act names k = k
       \<lparr>kb_actions := om_put a (act\<lparr>ac_bindings := os_del combo (ac_bindings act), ac_running := False\<rparr>) (kb_actions k),
        kb_bindings := om_del combo (kb_bindings k),
        kb_names := (if os_del a names = [] then om_del (combo_key combo) (kb_names k)
                     else om_put (combo_key combo) (os_del a names) (kb_names k)),
        kb_log := kb_log k @ [UngrabKey (keycode (combo_key combo)) (combo_modifiers combo),
          UngrabKey (keycode (combo_key combo)) (combo_modifiers combo OR LockMask)]\<rparr>"

lemma RemoveBinding_eq:
  assumes "kb_inv k" "map_of (kb_bindings k) combo = Some a"
  obtains act names where "map_of (kb_actions k) a = Some act" "combo \<in> set (ac_bindings act)"
    "map_of (kb_names k) (combo_key combo) = Some names" "a \<in> set names"
    "RemoveBinding keycode combo k = Some (True, unbound keycode combo a act names k)"
proof -
  from kb_invD(4)[OF assms(1), of combo a] assms(2) obtain act where
    act: "map_of (kb_actions k) a = Some act" "combo \<in> set (ac_bindings act)" by auto
  from kb_invD(5)[OF assms(1), of a "combo_key combo"] assms(2)
  have "a \<in> set (names_at (combo_key combo) k)" by blast
  then obtain names where n: "map_of (kb_names k) (combo_key combo) = Some names" "a \<in> set names"
    by (cases "map_of (kb_names k) (combo_key combo)") (auto simp: names_at_def)
  show ?thesis
    by (rule that[OF act n]) (use act n assms(2) in \<open>simp add: RemoveBinding_def Let_def kb_emit_def unbound_def\<close>)
qed

lemma kb_inv_AddAction:
  assumes "kb_inv k" "AddAction a b r e k = Some (ok, k')"
  shows "kb_inv k'"
proof (cases "map_of (kb_actions k) a")
  case None
  with assms(2) have k': "kb_bindings k' = kb_bindings k" "names_at s k' = names_at s k"
    "kb_names k' = kb_names k"
    "kb_actions k' = om_put a \<lparr>ac_running = False, ac_begin = b, ac_repeat = r, ac_end = e, ac_bindings = []\<rparr> (kb_actions k)"
    for s by (auto simp: AddAction_def names_at_def split: if_splits)
  note D = kb_invD[OF assms(1)]
  have nb: "map_of (kb_bindings k) c \<noteq> Some a" for c using D(4)[of c a] None by auto
  show ?thesis unfolding kb_inv_def k'(1-3)
  proof (intro conjI allI)
    show "om_ok (kb_actions k')" unfolding k' using D(1) by (rule om_ok_put)
    show "map_of (kb_bindings k) c = Some x \<longleftrightarrow>
        (\<exists>act. map_of (kb_actions k') x = Some act \<and> c \<in> set (ac_bindings act))" for c x
      using D(4)[of c x] nb[of c] by (auto simp: k'(4) container_simps)
    show "map_of (kb_bindings k) c = Some x \<and> map_of (kb_bindings k) d = Some x
        \<and> combo_key c = combo_key d \<longrightarrow> c = d" for c d x using D(7) by blast
  qed (rule D)+
next
  case (Some act)
  with assms show ?thesis by (auto simp: AddAction_def split: if_splits)
qed

lemma kb_inv_AddBinding:
  assumes "kb_inv k" "AddBinding keycode combo a k = Some (ok, k')"
  shows "kb_inv k'"
proof (cases "map_of (kb_bindings k) combo = None \<and> map_of (kb_actions k) a \<noteq> None")
  case False
  with assms show ?thesis by (auto simp: AddBinding_def split: if_splits option.splits)
next
  case True
  then obtain act where act: "map_of (kb_actions k) a = Some act" by auto
  note eq = AddBinding_eq[OF assms(1) conjunct1[OF True] act, of keycode]
  with assms(2) have fresh: "a \<notin> set (names_at (combo_key combo) k)" by (auto split: if_splits)
  with eq assms(2) have k': "k' = k
       \<lparr>kb_actions := om_put a (act\<lparr>ac_bindings := os_put combo (ac_bindings act)\<rparr>) (kb_actions k),
        kb_bindings := om_put combo a (kb_bindings k),
        kb_names := om_put (combo_key combo) (os_put a (names_at (combo_key combo) k)) (kb_names k),
        kb_log := kb_log k @ [GrabKey (keycode (combo_key combo)) (combo_modifiers combo),
          GrabKey (keycode (combo_key combo)) (combo_modifiers combo OR LockMask)]\<rparr>" by simp
  note D = kb_invD[OF assms(1)]
  have nokey: "combo_key c \<noteq> combo_key combo" if "map_of (kb_bindings k) c = Some a" for c
    using D(5)[of a "combo_key combo"] fresh that by blast
  have "names_at s k' = (if s = combo_key combo then os_put a (names_at s k) else names_at s k)" for s
    by (simp add: k' names_at_def om_get_put)
  then have nao: "os_ok (names_at s k')" for s using D(8)[of s] by (auto simp: os_ok_put)
  have "names_at s k' = (if s = combo_key combo then os_put a (names_at s k) else names_at s k)" for s
    by (simp add: k' names_at_def om_get_put)
  then have na: "set (names_at s k') = (if s = combo_key combo then insert a (set (names_at s k)) else set (names_at s k))" for s
    by (simp add: os_set_put)
  show ?thesis unfolding kb_inv_def
  proof (intro conjI allI)
    show "om_ok (kb_actions k')" "om_ok (kb_bindings k')" "om_ok (kb_names k')"
      using D(1-3) by (simp_all add: k' container_simps)
    show "map_of (kb_bindings k') c = Some b \<longleftrightarrow>
        (\<exists>act. map_of (kb_actions k') b = Some act \<and> c \<in> set (ac_bindings act))" for c b
      using D(4)[of c b] D(4)[of combo b] D(4)[of c a] act True by (auto simp: k' container_simps)
    show "b \<in> set (names_at s k') \<longleftrightarrow> (\<exists>c. map_of (kb_bindings k') c = Some b \<and> combo_key c = s)" for s b
    proof (cases "b = a \<and> s = combo_key combo")
      case ab: True
      have "map_of (kb_bindings k') combo = Some a" by (simp add: k' container_simps)
      then show ?thesis using ab na[of s] by auto
    next
      case False
      then have "b \<in> set (names_at s k') \<longleftrightarrow> b \<in> set (names_at s k)" using na[of s] by auto
      moreover have "map_of (kb_bindings k') c = Some b \<and> combo_key c = s \<longleftrightarrow>
          map_of (kb_bindings k) c = Some b \<and> combo_key c = s" for c
        using False True by (auto simp: k' container_simps)
      ultimately show ?thesis using D(5)[of b s] by simp
    qed
    show "map_of (kb_names k') s \<noteq> Some []" for s
      using D(6)[of s] by (auto simp: k' container_simps os_put_def)
    show "map_of (kb_bindings k') c = Some b \<and> map_of (kb_bindings k') d = Some b
        \<and> combo_key c = combo_key d \<longrightarrow> c = d" for c d b
      using D(7)[of c b d] nokey[of c] nokey[of d] by (auto simp: k' container_simps split: if_splits)
    show "os_ok (names_at s k')" for s by (rule nao)
  qed
qed

lemma kb_inv_RemoveBinding:
  assumes "kb_inv k" "RemoveBinding keycode combo k = Some (ok, k')"
  shows "kb_inv k'"
proof (cases "map_of (kb_bindings k) combo")
  case None
  with assms show ?thesis by (auto simp: RemoveBinding_def)
next
  case (Some a)
  note D = kb_invD[OF assms(1)]
  obtain act names where act: "map_of (kb_actions k) a = Some act" "combo \<in> set (ac_bindings act)"
    and n: "map_of (kb_names k) (combo_key combo) = Some names" "a \<in> set names"
    and eq: "RemoveBinding keycode combo k = Some (True, unbound keycode combo a act names k)"
    by (rule RemoveBinding_eq[OF assms(1) Some])
  from eq assms(2) have "k' = unbound keycode combo a act names k" by simp
  note k' = this[unfolded unbound_def]
  have na: "set (names_at s k') = (if s = combo_key combo then set (names_at s k) - {a} else set (names_at s k))" for s
  proof (cases "s = combo_key combo")
    case True
    then have "names_at s k' = os_del a names" by (simp add: k' names_at_def container_simps)
    moreover have "names_at s k = names" using n True by (simp add: names_at_def)
    ultimately show ?thesis using True by (simp add: os_set_del)
  next
    case False
    then show ?thesis by (simp add: k' names_at_def container_simps)
  qed
  show ?thesis unfolding kb_inv_def
  proof (intro conjI allI)
    show "om_ok (kb_actions k')" "om_ok (kb_bindings k')" "om_ok (kb_names k')"
      using D(1-3) by (simp_all add: k' container_simps)
    show "map_of (kb_bindings k') c = Some b \<longleftrightarrow>
        (\<exists>act. map_of (kb_actions k') b = Some act \<and> c \<in> set (ac_bindings act))" for c b
      using D(4)[of c b] D(4)[of combo b] D(4)[of c a] act Some by (auto simp: k' container_simps)
    show "b \<in> set (names_at s k') \<longleftrightarrow> (\<exists>c. map_of (kb_bindings k') c = Some b \<and> combo_key c = s)" for s b
    proof -
      have "map_of (kb_bindings k') c = Some b \<longleftrightarrow> c \<noteq> combo \<and> map_of (kb_bindings k) c = Some b" for c
        by (auto simp: k' container_simps)
      then show ?thesis
        using D(5)[of b s] D(7)[OF Some] Some na[of s] by (metis Diff_iff empty_iff insert_iff option.inject)
    qed
    show "map_of (kb_names k') s \<noteq> Some []" for s
      using D(6)[of s] by (auto simp: k' container_simps)
    show "map_of (kb_bindings k') c = Some b \<and> map_of (kb_bindings k') d = Some b
        \<and> combo_key c = combo_key d \<longrightarrow> c = d" for c d b
      using D(7)[of c b d] by (auto simp: k' container_simps split: if_splits)
    show "os_ok (names_at s k')" for s
      using D(8)[of s] n by (cases "s = combo_key combo") (auto simp: k' names_at_def container_simps)
  qed
qed

section \<open>Removing actions\<close>

lemma om_length: "om_ok m \<Longrightarrow> length m = card (dom (map_of m))"
  using om_ok_distinct[of m] by (metis distinct_card dom_map_of_conv_image_fst length_map list.set_map)

lemma RemoveBinding_effect:
  assumes "kb_inv k" "map_of (kb_bindings k) combo = Some a" "map_of (kb_actions k) a = Some act"
  obtains k' where "RemoveBinding keycode combo k = Some (True, k')" "kb_inv k'"
    "map_of (kb_actions k') a = Some (act\<lparr>ac_bindings := os_del combo (ac_bindings act), ac_running := False\<rparr>)"
    "\<And>b. b \<noteq> a \<Longrightarrow> map_of (kb_actions k') b = map_of (kb_actions k) b"
proof -
  obtain act' names where r: "map_of (kb_actions k) a = Some act'"
    and eq: "RemoveBinding keycode combo k = Some (True, unbound keycode combo a act' names k)"
    by (rule RemoveBinding_eq[OF assms(1,2)])
  from r assms(3) have "act' = act" by simp
  then show ?thesis
    by (intro that[OF eq kb_inv_RemoveBinding[OF assms(1) eq]]) (simp_all add: unbound_def om_get_put)
qed

lemma remove_bindings_ok:
  assumes "kb_inv k" "map_of (kb_actions k) a = Some act" "length (ac_bindings act) \<le> n"
  shows "\<exists>k' act'. remove_bindings n keycode a k = Some k' \<and> kb_inv k'
    \<and> map_of (kb_actions k') a = Some act' \<and> ac_bindings act' = []
    \<and> (\<forall>b. b \<noteq> a \<longrightarrow> map_of (kb_actions k') b = map_of (kb_actions k) b)"
  using assms
proof (induction n arbitrary: k act)
  case 0
  then show ?case by (subst remove_bindings.simps) simp
next
  case (Suc n)
  show ?case
  proof (cases "ac_bindings act")
    case Nil
    with Suc.prems show ?thesis by (subst remove_bindings.simps) auto
  next
    case (Cons combo cs)
    then have "map_of (kb_bindings k) combo = Some a"
      using kb_invD(4)[OF Suc.prems(1), of combo a] Suc.prems(2) by simp
    from RemoveBinding_effect[OF Suc.prems(1) this Suc.prems(2), of keycode] obtain k' where
      k': "RemoveBinding keycode combo k = Some (True, k')" "kb_inv k'"
      "map_of (kb_actions k') a = Some (act\<lparr>ac_bindings := os_del combo (ac_bindings act), ac_running := False\<rparr>)"
      "\<And>b. b \<noteq> a \<Longrightarrow> map_of (kb_actions k') b = map_of (kb_actions k) b" by blast
    have "length (os_del combo (ac_bindings act)) \<le> n"
      using os_del_length[of combo "ac_bindings act"] Cons Suc.prems(3) by simp
    with Suc.IH[OF k'(2,3)] obtain k'' act' where
      "remove_bindings n keycode a k' = Some k''" "kb_inv k''" "map_of (kb_actions k'') a = Some act'"
      "ac_bindings act' = []" "\<forall>b. b \<noteq> a \<longrightarrow> map_of (kb_actions k'') b = map_of (kb_actions k') b" by auto
    with Cons Suc.prems(2) k' show ?thesis by (subst remove_bindings.simps) auto
  qed
qed

lemma RemoveAction_ok:
  assumes "kb_inv k"
  shows "\<exists>k'. RemoveAction keycode a k = Some (map_of (kb_actions k) a \<noteq> None, k') \<and> kb_inv k'
    \<and> map_of (kb_actions k') a = None
    \<and> (\<forall>b. b \<noteq> a \<longrightarrow> map_of (kb_actions k') b = map_of (kb_actions k) b)"
proof (cases "map_of (kb_actions k) a")
  case None
  with assms show ?thesis by (auto simp: RemoveAction_def)
next
  case (Some act)
  from remove_bindings_ok[OF assms Some, of "length (ac_bindings act)" keycode] obtain k1 act' where
    k1: "remove_bindings (length (ac_bindings act)) keycode a k = Some k1" "kb_inv k1"
      "map_of (kb_actions k1) a = Some act'" "ac_bindings act' = []"
      "\<forall>b. b \<noteq> a \<longrightarrow> map_of (kb_actions k1) b = map_of (kb_actions k) b" by blast
  let ?k = "k1\<lparr>kb_actions := om_del a (kb_actions k1)\<rparr>"
  note D = kb_invD[OF k1(2)]
  have nb: "map_of (kb_bindings k1) c \<noteq> Some a" for c using D(4)[of c a] k1(3,4) by auto
  have "kb_inv ?k" unfolding kb_inv_def
  proof (intro conjI allI)
    show "om_ok (kb_actions ?k)" using D(1) by (simp add: om_ok_del)
    show "map_of (kb_bindings ?k) c = Some x \<longleftrightarrow>
        (\<exists>act. map_of (kb_actions ?k) x = Some act \<and> c \<in> set (ac_bindings act))" for c x
      using D(4)[of c x] nb[of c] by (auto simp: om_get_del)
    show "x \<in> set (names_at s ?k) \<longleftrightarrow> (\<exists>c. map_of (kb_bindings ?k) c = Some x \<and> combo_key c = s)" for s x
      using D(5)[of x s] by (simp add: names_at_def)
    show "map_of (kb_bindings ?k) c = Some x \<and> map_of (kb_bindings ?k) d = Some x
        \<and> combo_key c = combo_key d \<longrightarrow> c = d" for c d x using D(7) by auto
    show "os_ok (names_at s ?k)" for s using D(8)[of s] by (simp add: names_at_def)
  qed (use D in simp_all)
  with Some k1 show ?thesis by (auto simp: RemoveAction_def om_get_del)
qed

lemma remove_actions_ok:
  assumes "kb_inv k" "length (kb_actions k) \<le> n"
  shows "\<exists>k'. remove_actions n keycode k = Some k' \<and> kb_inv k' \<and> kb_actions k' = []"
  using assms
proof (induction n arbitrary: k)
  case 0
  then show ?case by (subst remove_actions.simps) simp
next
  case (Suc n)
  show ?case
  proof (cases "kb_actions k")
    case Nil
    with Suc.prems show ?thesis by (subst remove_actions.simps) simp
  next
    case (Cons p ps)
    obtain a act where p: "p = (a, act)" by fastforce
    from RemoveAction_ok[OF Suc.prems(1), of keycode a] obtain ok k' where
      k': "RemoveAction keycode a k = Some (ok, k')" "kb_inv k'" "map_of (kb_actions k') a = None"
      "\<forall>b. b \<noteq> a \<longrightarrow> map_of (kb_actions k') b = map_of (kb_actions k) b" by blast
    have "a \<in> dom (map_of (kb_actions k))" using Cons p by simp
    moreover have "a \<notin> dom (map_of (kb_actions k'))" using k'(3) by auto
    moreover have "dom (map_of (kb_actions k')) \<subseteq> dom (map_of (kb_actions k))"
    proof
      fix b assume "b \<in> dom (map_of (kb_actions k'))"
      with k'(3,4) show "b \<in> dom (map_of (kb_actions k))" by (cases "b = a") auto
    qed
    ultimately have "dom (map_of (kb_actions k')) \<subset> dom (map_of (kb_actions k))" by blast
    then have "card (dom (map_of (kb_actions k'))) < card (dom (map_of (kb_actions k)))"
      by (intro psubset_card_mono finite_dom_map_of)
    then have "length (kb_actions k') \<le> n"
      using om_length[OF kb_invD(1)[OF k'(2)]] om_length[OF kb_invD(1)[OF Suc.prems(1)]] Suc.prems(2) by simp
    from Suc.IH[OF k'(2) this] Cons p k'(1) show ?thesis by (subst remove_actions.simps) auto
  qed
qed

lemma destroy_KeyBindings_ok:
  assumes "kb_inv k"
  shows "\<exists>k'. destroy_KeyBindings keycode k = Some k' \<and> kb_actions k' = [] \<and> kb_bindings k' = []"
proof -
  from remove_actions_ok[OF assms order_refl, of keycode] obtain k' where
    k': "remove_actions (length (kb_actions k)) keycode k = Some k'" "kb_inv k'" "kb_actions k' = []" by blast
  have "kb_bindings k' = []"
    using kb_invD(4)[OF k'(2)] k'(3) by (simp add: om_empty_iff) (metis option.exhaust)
  with k' show ?thesis by (simp add: destroy_KeyBindings_def)
qed

section \<open>Key events\<close>

lemma kb_inv_emit [simp]: "kb_inv (kb_emit e k) = kb_inv k"
  by (simp add: kb_inv_def kb_emit_def names_at_def)

lemma kb_inv_running:
  assumes "kb_inv k" "map_of (kb_actions k) a = Some act"
  shows "kb_inv (k\<lparr>kb_actions := om_put a (act\<lparr>ac_running := b\<rparr>) (kb_actions k)\<rparr>)" (is "kb_inv ?k")
  unfolding kb_inv_def
proof (intro conjI allI)
  note D = kb_invD[OF assms(1)]
  show "om_ok (kb_actions ?k)" "om_ok (kb_bindings ?k)" "om_ok (kb_names ?k)"
    using D(1-3) by (simp_all add: om_ok_put)
  show "map_of (kb_bindings ?k) c = Some x \<longleftrightarrow>
      (\<exists>act. map_of (kb_actions ?k) x = Some act \<and> c \<in> set (ac_bindings act))" for c x
    using D(4)[of c x] assms(2) by (auto simp: om_get_put)
  show "x \<in> set (names_at s ?k) \<longleftrightarrow> (\<exists>c. map_of (kb_bindings ?k) c = Some x \<and> combo_key c = s)" for s x
    using D(5)[of x s] by (simp add: names_at_def)
  show "map_of (kb_names ?k) s \<noteq> Some []" "os_ok (names_at s ?k)" for s
    using D(6)[of s] D(8)[of s] by (simp_all add: names_at_def)
  show "map_of (kb_bindings ?k) c = Some x \<and> map_of (kb_bindings ?k) d = Some x
      \<and> combo_key c = combo_key d \<longrightarrow> c = d" for c d x using D(7) by auto
qed

lemma count_list_distinct: "distinct xs \<Longrightarrow> count_list xs x = (if x \<in> set xs then 1 else 0)"
  by (induction xs) auto

lemma HandleKeyPress_ok:
  assumes "kb_inv k"
  shows "\<exists>r k'. HandleKeyPress lower keysym modifiers k = Some (r, k') \<and> kb_inv k'"
proof (cases "map_of (kb_bindings k) (new_KeyCombo lower keysym modifiers)")
  case None
  with assms show ?thesis by (auto simp: HandleKeyPress_def)
next
  case (Some a)
  then obtain act where "map_of (kb_actions k) a = Some act" using kb_invD(4)[OF assms] by blast
  with Some assms kb_inv_running[OF assms this, of True] show ?thesis
    by (auto simp: HandleKeyPress_def Let_def)
qed

definition ends :: "key_bindings \<Rightarrow> string \<Rightarrow> bool" where
  "ends k n = (case map_of (kb_actions k) n of None \<Rightarrow> False | Some act \<Rightarrow> ac_running act \<and> ac_end act)"

definition stopped :: "string list \<Rightarrow> key_bindings \<Rightarrow> string \<Rightarrow> kb_action option" where
  "stopped names k n =
     (if n \<in> set names then map_option (\<lambda>act. act\<lparr>ac_running := False\<rparr>) (map_of (kb_actions k) n)
      else map_of (kb_actions k) n)"

lemma release_loop_ok:
  assumes "kb_inv k" "\<forall>n \<in> set names. map_of (kb_actions k) n \<noteq> None" "distinct names"
  shows "\<exists>k'. release_loop names (r, k) = Some (r \<or> (\<exists>n \<in> set names. ends k n), k') \<and> kb_inv k'
    \<and> kb_log k' = kb_log k @ map (\<lambda>n. RunClosure n EndClosure) (filter (ends k) names)
    \<and> map_of (kb_actions k') = stopped names k"
  using assms
proof (induction names arbitrary: r k)
  case Nil
  then show ?case by (simp add: stopped_def fun_eq_iff)
next
  case (Cons a names)
  from Cons.prems(2) obtain act where act: "map_of (kb_actions k) a = Some act" by auto
  let ?k0 = "k\<lparr>kb_actions := om_put a (act\<lparr>ac_running := False\<rparr>) (kb_actions k)\<rparr>"
  define k1 where
    "k1 = (if ac_running act then if ac_end act then kb_emit (RunClosure a EndClosure) ?k0 else ?k0 else k)"
  let ?r = "r \<or> ends k a"
  have step: "release_loop (a # names) (r, k) = release_loop names (?r, k1)"
    using act by (simp add: ends_def Let_def k1_def)
  have inv: "kb_inv k1" using kb_inv_running[OF Cons.prems(1) act] Cons.prems(1) by (simp add: k1_def)
  have acts: "map_of (kb_actions k1) n = stopped [a] k n" for n
    using act by (cases act) (auto simp: stopped_def kb_emit_def om_get_put k1_def)
  have others: "ends k1 n = ends k n" if "n \<in> set names" for n
    using that Cons.prems(3) acts[of n] by (auto simp: ends_def stopped_def)
  have "\<forall>n \<in> set names. map_of (kb_actions k1) n \<noteq> None"
    using Cons.prems(2) acts by (auto simp: stopped_def)
  from Cons.IH[OF inv this, of ?r] Cons.prems(3) obtain k' where
    k': "release_loop names (?r, k1) = Some (?r \<or> (\<exists>n \<in> set names. ends k1 n), k')" "kb_inv k'"
      "kb_log k' = kb_log k1 @ map (\<lambda>n. RunClosure n EndClosure) (filter (ends k1) names)"
      "map_of (kb_actions k') = stopped names k1" by auto
  have "kb_log k1 = kb_log k @ (if ends k a then [RunClosure a EndClosure] else [])"
    using act by (simp add: ends_def kb_emit_def k1_def)
  moreover have "filter (ends k1) names = filter (ends k) names"
    using others by (intro filter_cong) auto
  moreover have "stopped names k1 = stopped (a # names) k"
    using acts Cons.prems(3) by (auto simp: stopped_def fun_eq_iff)
  ultimately show ?case using step k' others by (auto simp del: release_loop.simps)
qed

lemma HandleKeyRelease_ok:
  assumes "kb_inv k"
  shows "\<exists>k'. HandleKeyRelease lower keysym modifiers k = Some (\<exists>n \<in> set (names_at (lower keysym) k). ends k n, k')
    \<and> kb_inv k' \<and> map_of (kb_actions k') = stopped (names_at (lower keysym) k) k
    \<and> kb_log k' = kb_log k @ map (\<lambda>n. RunClosure n EndClosure) (filter (ends k) (names_at (lower keysym) k))"
proof (cases "map_of (kb_names k) (lower keysym)")
  case None
  with assms show ?thesis
    by (simp add: HandleKeyRelease_def new_KeyCombo_def names_at_def stopped_def fun_eq_iff)
next
  case (Some names)
  then have na: "names_at (lower keysym) k = names" by (simp add: names_at_def)
  have "\<forall>n \<in> set names. map_of (kb_actions k) n \<noteq> None"
    using kb_invD(4,5)[OF assms] na by (metis option.distinct(1))
  moreover have "distinct names" using kb_invD(8)[OF assms, of "lower keysym"] na os_ok_distinct by auto
  ultimately show ?thesis using release_loop_ok[OF assms, of names False] Some na
    by (auto simp: HandleKeyRelease_def new_KeyCombo_def)
qed

section \<open>Properties\<close>

inductive kb_step :: "(32 word \<Rightarrow> 32 word) \<Rightarrow> (32 word \<Rightarrow> nat) \<Rightarrow> key_bindings \<Rightarrow> key_bindings \<Rightarrow> bool"
  for lower :: "32 word \<Rightarrow> 32 word" and keycode :: "32 word \<Rightarrow> nat" where
  add_action: "AddAction a b r e k = Some (ok, k') \<Longrightarrow> kb_step lower keycode k k'"
| remove_action: "RemoveAction keycode a k = Some (ok, k') \<Longrightarrow> kb_step lower keycode k k'"
| add_binding: "AddBinding keycode c a k = Some (ok, k') \<Longrightarrow> kb_step lower keycode k k'"
| remove_binding: "RemoveBinding keycode c k = Some (ok, k') \<Longrightarrow> kb_step lower keycode k k'"
| press: "HandleKeyPress lower s m k = Some (ok, k') \<Longrightarrow> kb_step lower keycode k k'"
| release: "HandleKeyRelease lower s m k = Some (ok, k') \<Longrightarrow> kb_step lower keycode k k'"

lemma kb_step_inv: "kb_step lower keycode k k' \<Longrightarrow> kb_inv k \<Longrightarrow> kb_inv k'"
proof (induction rule: kb_step.induct)
  case (remove_action a k ok k')
  then show ?case using RemoveAction_ok[of k keycode a] by auto
next
  case (press s m k ok k')
  then show ?case using HandleKeyPress_ok[of k lower s m] by auto
next
  case (release s m k ok k')
  then show ?case using HandleKeyRelease_ok[of k lower s m] by auto
qed (auto intro: kb_inv_AddAction kb_inv_AddBinding kb_inv_RemoveBinding)

interpretation keys: invariant_system "\<lambda>k. k = new_KeyBindings" "kb_step lower keycode" kb_inv
  for lower keycode
proof unfold_locales
  show "kb_inv k" if "k = new_KeyBindings" for k
    using that by (auto simp: kb_inv_def new_KeyBindings_def names_at_def container_simps)
  show "kb_inv k'" if "kb_inv k" "kb_step lower keycode k k'" for k k'
    using that(2,1) by (rule kb_step_inv)
qed


definition demo_keys :: key_bindings where
  "demo_keys = \<lparr>kb_actions = [(''switch'', \<lparr>ac_running = False, ac_begin = True, ac_repeat = True, ac_end = True,
        ac_bindings = [KeyCombo 97 8]\<rparr>)],
     kb_bindings = [(KeyCombo 97 8, ''switch'')], kb_names = [(97, [''switch''])],
     kb_log = [GrabKey 97 8, GrabKey 97 10]\<rparr>"

lemma demo_keys_reachable: "reachable (\<lambda>k. k = new_KeyBindings) (kb_step (\<lambda>s. s) unat) demo_keys"
proof -
  have "AddAction ''switch'' True True True new_KeyBindings = Some (True, new_KeyBindings
      \<lparr>kb_actions := [(''switch'', \<lparr>ac_running = False, ac_begin = True, ac_repeat = True, ac_end = True, ac_bindings = []\<rparr>)]\<rparr>)"
    (is "_ = Some (True, ?k)")
    by (simp add: AddAction_def new_KeyBindings_def om_put_def)
  then have "reachable (\<lambda>k. k = new_KeyBindings) (kb_step (\<lambda>s. s) unat) ?k"
    by (intro reach_step[OF reach_init] kb_step.add_action) auto
  moreover have "AddBinding unat (KeyCombo 97 8) ''switch'' ?k = Some (True, demo_keys)"
    by (simp add: AddBinding_def new_KeyBindings_def om_put_def os_put_def names_at_def kb_emit_def demo_keys_def
        LockMask_def Let_def)
  ultimately show ?thesis by (blast intro: reach_step kb_step.add_binding)
qed


text \<open>
  C29: the life of an action. Pressing a bound combination whose action does not run begins the
  action, every further press repeats it, and the release of the key ends it exactly once
  whatever modifiers the release carries; after that the action does not run.
\<close>

theorem KeyBindings_press_repeat_release:
  assumes "kb_inv k" "map_of (kb_bindings k) (new_KeyCombo lower keysym modifiers) = Some a"
    and "map_of (kb_actions k) a = Some act" "\<not> ac_running act" "ac_begin act" "ac_repeat act" "ac_end act"
  shows "\<exists>k1 k2 k3 ended. HandleKeyPress lower keysym modifiers k = Some (True, k1)
    \<and> HandleKeyPress lower keysym modifiers k1 = Some (True, k2)
    \<and> HandleKeyRelease lower keysym other_modifiers k2 = Some (True, k3)
    \<and> kb_log k3 = kb_log k @ [RunClosure a BeginClosure, RunClosure a RepeatClosure]
        @ map (\<lambda>n. RunClosure n EndClosure) ended
    \<and> count_list ended a = 1 \<and> map_of (kb_actions k3) a = Some act"
proof -
  let ?run = "om_put a (act\<lparr>ac_running := True\<rparr>) (kb_actions k)"
  let ?k1 = "kb_emit (RunClosure a BeginClosure) (k\<lparr>kb_actions := ?run\<rparr>)"
  let ?k2 = "kb_emit (RunClosure a RepeatClosure) ?k1"
  have p1: "HandleKeyPress lower keysym modifiers k = Some (True, ?k1)"
    using assms by (simp add: HandleKeyPress_def Let_def)
  have p2: "HandleKeyPress lower keysym modifiers ?k1 = Some (True, ?k2)"
    using assms by (simp add: HandleKeyPress_def Let_def kb_emit_def om_get_put)
  have inv: "kb_inv ?k2" using kb_inv_running[OF assms(1,3)] by simp
  have "a \<in> set (names_at (lower keysym) k)"
    using kb_invD(5)[OF assms(1), of a "lower keysym"] assms(2) by (auto simp: new_KeyCombo_def)
  then have a: "a \<in> set (names_at (lower keysym) ?k2)" by (simp add: names_at_def kb_emit_def)
  have e: "ends ?k2 a" using assms by (simp add: ends_def kb_emit_def om_get_put)
  from HandleKeyRelease_ok[OF inv, of lower keysym other_modifiers] obtain k3 where
    k3: "HandleKeyRelease lower keysym other_modifiers ?k2 = Some (\<exists>n \<in> set (names_at (lower keysym) ?k2). ends ?k2 n, k3)"
      "map_of (kb_actions k3) = stopped (names_at (lower keysym) ?k2) ?k2"
      "kb_log k3 = kb_log ?k2 @ map (\<lambda>n. RunClosure n EndClosure) (filter (ends ?k2) (names_at (lower keysym) ?k2))"
    by blast
  have "count_list (filter (ends ?k2) (names_at (lower keysym) ?k2)) a = 1"
    using a e count_list_distinct[OF distinct_filter[OF os_ok_distinct[OF kb_invD(8)[OF inv]]]] by auto
  moreover have "map_of (kb_actions k3) a = Some act"
    using k3(2) a assms(3,4) by (cases act) (simp add: stopped_def kb_emit_def om_get_put)
  ultimately show ?thesis using p1 p2 k3 a e by (auto simp: kb_emit_def)
qed

theorem KeyBindings_press_repeat_release_witness:
  "\<exists>k1 k2 k3 ended. HandleKeyPress (\<lambda>s. s) 97 8 demo_keys = Some (True, k1)
    \<and> HandleKeyPress (\<lambda>s. s) 97 8 k1 = Some (True, k2)
    \<and> HandleKeyRelease (\<lambda>s. s) 97 0 k2 = Some (True, k3)
    \<and> kb_log k3 = kb_log demo_keys @ [RunClosure ''switch'' BeginClosure, RunClosure ''switch'' RepeatClosure]
        @ map (\<lambda>n. RunClosure n EndClosure) ended \<and> count_list ended ''switch'' = 1"
proof -
  have "kb_inv demo_keys" using keys.reachable_inv[OF demo_keys_reachable] .
  moreover have "map_of (kb_bindings demo_keys) (new_KeyCombo (\<lambda>s. s) 97 8) = Some ''switch''"
    by (simp add: demo_keys_def new_KeyCombo_def LockMask_def)
  ultimately show ?thesis
    using KeyBindings_press_repeat_release[of demo_keys "\<lambda>s. s" 97 8 "''switch''"
        "\<lparr>ac_running = False, ac_begin = True, ac_repeat = True, ac_end = True, ac_bindings = [KeyCombo 97 8]\<rparr>" 0]
    by (fastforce simp: demo_keys_def)
qed

text \<open>
  an action cannot be bound to two combinations with the same key. \<open>AddBinding\<close> with an
  unbound combination and an existing action aborts exactly when the action already has a
  combination with that key, for example Alt-A when it has Control-A.
\<close>

theorem AddBinding_same_key_aborts:
  assumes "kb_inv k" "map_of (kb_bindings k) combo = None" "map_of (kb_actions k) a \<noteq> None"
  shows "AddBinding keycode combo a k = None \<longleftrightarrow>
    (\<exists>c. map_of (kb_bindings k) c = Some a \<and> combo_key c = combo_key combo)"
proof -
  from assms(3) obtain act where "map_of (kb_actions k) a = Some act" by auto
  from AddBinding_eq[OF assms(1,2) this, of keycode] kb_invD(5)[OF assms(1), of a "combo_key combo"]
  show ?thesis by (auto split: if_splits)
qed

theorem AddBinding_same_key_aborts_witness:
  "AddBinding unat (KeyCombo 97 4) ''switch'' demo_keys = None"
proof -
  have "kb_inv demo_keys" using keys.reachable_inv[OF demo_keys_reachable] .
  moreover have "map_of (kb_bindings demo_keys) (KeyCombo 97 4) = None"
    "map_of (kb_actions demo_keys) ''switch'' \<noteq> None"
    "map_of (kb_bindings demo_keys) (KeyCombo 97 8) = Some ''switch''" by (simp_all add: demo_keys_def)
  ultimately show ?thesis
    using AddBinding_same_key_aborts[of demo_keys "KeyCombo 97 4" "''switch''" unat] by (metis key_combo.sel(1))
qed

end
