(* ===== verification/WM_Ipc.thy ===== *)
theory WM_Ipc
  imports Containers
begin

text \<open>
  \<open>AtomCache\<close> (\<open>window_manager/atom_cache.h\<close>, \<open>atom_cache.cc\<close>) and \<open>WmIpc\<close>
  (\<open>wm_ipc.h\<close>, \<open>wm_ipc.cc\<close>), which passes messages and window types between the window
  manager and Chrome.

  The X server is the parameter \<open>xserver\<close>: a record of the requests these classes make, over a
  state of its own. Enumerations whose values come from other processes are integers, as the
  code casts them; \<open>Atom\<close> never does and is a datatype.
\<close>

type_synonym xid = nat
type_synonym xatom = nat

section \<open>AtomCache\<close>

datatype Atom =
    ATOM_ATOM | ATOM_CHROME_GET_SERVER_TIME | ATOM_CHROME_STATE
  | ATOM_CHROME_STATE_COLLAPSED_PANEL | ATOM_CHROME_WINDOW_TYPE | ATOM_CHROME_WM_MESSAGE
  | ATOM_MANAGER | ATOM_NET_ACTIVE_WINDOW | ATOM_NET_CLIENT_LIST
  | ATOM_NET_CLIENT_LIST_STACKING | ATOM_NET_CURRENT_DESKTOP | ATOM_NET_DESKTOP_GEOMETRY
  | ATOM_NET_DESKTOP_VIEWPORT | ATOM_NET_NUMBER_OF_DESKTOPS | ATOM_NET_SUPPORTED
  | ATOM_NET_SUPPORTING_WM_CHECK | ATOM_NET_WM_CM_S0 | ATOM_NET_WM_NAME
  | ATOM_NET_WM_STATE | ATOM_NET_WM_STATE_FULLSCREEN | ATOM_NET_WM_STATE_MAXIMIZED_HORZ
  | ATOM_NET_WM_STATE_MAXIMIZED_VERT | ATOM_NET_WM_STATE_MODAL | ATOM_NET_WM_WINDOW_OPACITY
  | ATOM_NET_WORKAREA | ATOM_PRIMARY | ATOM_WM_DELETE_WINDOW
  | ATOM_WM_HINTS | ATOM_WM_NORMAL_HINTS | ATOM_WM_PROTOCOLS
  | ATOM_WM_S0 | ATOM_WM_STATE | ATOM_WM_SYSTEM_METRICS
  | ATOM_WM_TAKE_FOCUS | ATOM_WM_TRANSIENT_FOR

definition kAtomInfos :: "(Atom \<times> string) list" where
  "kAtomInfos =
     [(ATOM_ATOM, ''ATOM''),
      (ATOM_CHROME_GET_SERVER_TIME, ''_CHROME_GET_SERVER_TIME''),
      (ATOM_CHROME_STATE, ''_CHROME_STATE''),
      (ATOM_CHROME_STATE_COLLAPSED_PANEL, ''_CHROME_STATE_COLLAPSED_PANEL''),
      (ATOM_CHROME_WINDOW_TYPE, ''_CHROME_WINDOW_TYPE''),
      (ATOM_CHROME_WM_MESSAGE, ''_CHROME_WM_MESSAGE''),
      (ATOM_MANAGER, ''MANAGER''),
      (ATOM_NET_ACTIVE_WINDOW, ''_NET_ACTIVE_WINDOW''),
      (ATOM_NET_CLIENT_LIST, ''_NET_CLIENT_LIST''),
      (ATOM_NET_CLIENT_LIST_STACKING, ''_NET_CLIENT_LIST_STACKING''),
      (ATOM_NET_CURRENT_DESKTOP, ''_NET_CURRENT_DESKTOP''),
      (ATOM_NET_DESKTOP_GEOMETRY, ''_NET_DESKTOP_GEOMETRY''),
      (ATOM_NET_DESKTOP_VIEWPORT, ''_NET_DESKTOP_VIEWPORT''),
      (ATOM_NET_NUMBER_OF_DESKTOPS, ''_NET_NUMBER_OF_DESKTOPS''),
      (ATOM_NET_SUPPORTED, ''_NET_SUPPORTED''),
      (ATOM_NET_SUPPORTING_WM_CHECK, ''_NET_SUPPORTING_WM_CHECK''),
      (ATOM_NET_WM_CM_S0, ''_NET_WM_CM_S0''),
      (ATOM_NET_WM_NAME, ''_NET_WM_NAME''),
      (ATOM_NET_WM_STATE, ''_NET_WM_STATE''),
      (ATOM_NET_WM_STATE_FULLSCREEN, ''_NET_WM_STATE_FULLSCREEN''),
      (ATOM_NET_WM_STATE_MAXIMIZED_HORZ, ''_NET_WM_STATE_MAXIMIZED_HORZ''),
      (ATOM_NET_WM_STATE_MAXIMIZED_VERT, ''_NET_WM_STATE_MAXIMIZED_VERT''),
      (ATOM_NET_WM_STATE_MODAL, ''_NET_WM_STATE_MODAL''),
      (ATOM_NET_WM_WINDOW_OPACITY, ''_NET_WM_WINDOW_OPACITY''),
      (ATOM_NET_WORKAREA, ''_NET_WORKAREA''),
      (ATOM_PRIMARY, ''PRIMARY''),
      (ATOM_WM_DELETE_WINDOW, ''WM_DELETE_WINDOW''),
      (ATOM_WM_HINTS, ''WM_HINTS''),
      (ATOM_WM_NORMAL_HINTS, ''WM_NORMAL_HINTS''),
      (ATOM_WM_PROTOCOLS, ''WM_PROTOCOLS''),
      (ATOM_WM_S0, ''WM_S0''),
      (ATOM_WM_STATE, ''WM_STATE''),
      (ATOM_WM_SYSTEM_METRICS, ''WM_SYSTEM_METRICS''),
      (ATOM_WM_TAKE_FOCUS, ''WM_TAKE_FOCUS''),
      (ATOM_WM_TRANSIENT_FOR, ''WM_TRANSIENT_FOR'')]"

record 'x xserver =
  GetAtoms :: "string list \<Rightarrow> 'x \<Rightarrow> xatom list option \<times> 'x"
  GetAtomName :: "xatom \<Rightarrow> 'x \<Rightarrow> string option"
  GetSelectionOwner :: "xatom \<Rightarrow> 'x \<Rightarrow> xid"
  GetIntArrayProperty :: "xid \<Rightarrow> xatom \<Rightarrow> 'x \<Rightarrow> int list option"
  SetIntArrayProperty :: "xid \<Rightarrow> xatom \<Rightarrow> xatom \<Rightarrow> int list \<Rightarrow> 'x \<Rightarrow> bool \<times> 'x"
  SetStringProperty :: "xid \<Rightarrow> xatom \<Rightarrow> string \<Rightarrow> 'x \<Rightarrow> bool \<times> 'x"
  SendClientMessageEvent :: "xid \<Rightarrow> xid \<Rightarrow> xatom \<Rightarrow> int list \<Rightarrow> int \<Rightarrow> 'x \<Rightarrow> bool \<times> 'x"

record atom_cache =
  atom_to_xatom :: "Atom \<Rightarrow> xatom option"
  xatom_to_string :: "(xatom, string) omap"

fun register_atoms :: "(Atom \<times> string) list \<Rightarrow> xatom list \<Rightarrow> atom_cache \<Rightarrow> atom_cache" where
  "register_atoms ((atom, name) # infos) (x # xs) c =
     register_atoms infos xs
       (c\<lparr>atom_to_xatom := (atom_to_xatom c)(atom \<mapsto> x),
          xatom_to_string := om_put x name (xatom_to_string c)\<rparr>)"
| "register_atoms _ _ c = c"

definition new_AtomCache :: "('x, 'm) xserver_scheme \<Rightarrow> 'x \<Rightarrow> (atom_cache \<times> 'x) option" where
  "new_AtomCache X w = do {
     CHECK (length kAtomInfos = 35);
     let (xatoms, w) = GetAtoms X (map snd kAtomInfos) w;
     xatoms \<leftarrow> xatoms;
     CHECK (length xatoms = 35);
     Some (register_atoms kAtomInfos xatoms \<lparr>atom_to_xatom = (\<lambda>_. None), xatom_to_string = []\<rparr>, w) }"

definition GetXAtom :: "Atom \<Rightarrow> atom_cache \<Rightarrow> xatom option" where
  "GetXAtom atom c = atom_to_xatom c atom"

definition GetName :: "('x, 'm) xserver_scheme \<Rightarrow> 'x \<Rightarrow> xatom \<Rightarrow> atom_cache \<Rightarrow> string \<times> atom_cache" where
  "GetName X w xatom c =
     (case map_of (xatom_to_string c) xatom of
        Some name \<Rightarrow> (name, c)
      | None \<Rightarrow>
          (case GetAtomName X xatom w of
             None \<Rightarrow> ([], c)
           | Some name \<Rightarrow> (name, c\<lparr>xatom_to_string := om_put xatom name (xatom_to_string c)\<rparr>)))"

section \<open>WmIpc\<close>

text \<open>\<open>WmIpc::WindowType\<close> and \<open>WmIpc::Message::Type\<close>.\<close>

abbreviation (input) WINDOW_TYPE_UNKNOWN :: int where "WINDOW_TYPE_UNKNOWN \<equiv> 0"
abbreviation (input) WINDOW_TYPE_CHROME_TOPLEVEL :: int where "WINDOW_TYPE_CHROME_TOPLEVEL \<equiv> 1"
abbreviation (input) WINDOW_TYPE_CHROME_TAB_SUMMARY :: int where "WINDOW_TYPE_CHROME_TAB_SUMMARY \<equiv> 2"
abbreviation (input) WINDOW_TYPE_CHROME_FLOATING_TAB :: int where "WINDOW_TYPE_CHROME_FLOATING_TAB \<equiv> 3"
abbreviation (input) WINDOW_TYPE_CHROME_PANEL_CONTENT :: int where "WINDOW_TYPE_CHROME_PANEL_CONTENT \<equiv> 4"
abbreviation (input) WINDOW_TYPE_CHROME_PANEL_TITLEBAR :: int where "WINDOW_TYPE_CHROME_PANEL_TITLEBAR \<equiv> 5"
abbreviation (input) WINDOW_TYPE_CREATE_BROWSER_WINDOW :: int where "WINDOW_TYPE_CREATE_BROWSER_WINDOW \<equiv> 6"
abbreviation (input) WINDOW_TYPE_CHROME_INFO_BUBBLE :: int where "WINDOW_TYPE_CHROME_INFO_BUBBLE \<equiv> 7"

definition kNumWindowTypes :: int where "kNumWindowTypes = 8"

abbreviation (input) UNKNOWN :: int where "UNKNOWN \<equiv> 0"
abbreviation (input) CHROME_NOTIFY_FLOATING_TAB_OVER_TAB_SUMMARY :: int where "CHROME_NOTIFY_FLOATING_TAB_OVER_TAB_SUMMARY \<equiv> 1"
abbreviation (input) CHROME_NOTIFY_FLOATING_TAB_OVER_TOPLEVEL :: int where "CHROME_NOTIFY_FLOATING_TAB_OVER_TOPLEVEL \<equiv> 2"
abbreviation (input) CHROME_SET_TAB_SUMMARY_VISIBILITY :: int where "CHROME_SET_TAB_SUMMARY_VISIBILITY \<equiv> 3"
abbreviation (input) WM_SET_PANEL_STATE :: int where "WM_SET_PANEL_STATE \<equiv> 4"
abbreviation (input) CHROME_NOTIFY_PANEL_STATE :: int where "CHROME_NOTIFY_PANEL_STATE \<equiv> 5"
abbreviation (input) WM_MOVE_FLOATING_TAB :: int where "WM_MOVE_FLOATING_TAB \<equiv> 6"
abbreviation (input) WM_NOTIFY_PANEL_DRAGGED :: int where "WM_NOTIFY_PANEL_DRAGGED \<equiv> 7"
abbreviation (input) WM_NOTIFY_PANEL_DRAG_COMPLETE :: int where "WM_NOTIFY_PANEL_DRAG_COMPLETE \<equiv> 8"
abbreviation (input) DEPRECATED_WM_FOCUS_WINDOW :: int where "DEPRECATED_WM_FOCUS_WINDOW \<equiv> 9"
abbreviation (input) CHROME_NOTIFY_LAYOUT_MODE :: int where "CHROME_NOTIFY_LAYOUT_MODE \<equiv> 10"
abbreviation (input) WM_SWITCH_TO_OVERVIEW_MODE :: int where "WM_SWITCH_TO_OVERVIEW_MODE \<equiv> 11"
abbreviation (input) WM_NOTIFY_IPC_VERSION :: int where "WM_NOTIFY_IPC_VERSION \<equiv> 12"

definition kNumTypes :: int where "kNumTypes = 13"

record message =
  msg_type :: int
  msg_params :: "int list"

definition max_params :: "message \<Rightarrow> int" where
  "max_params m = int (length (msg_params m))"

definition new_Message :: "int \<Rightarrow> message" where
  "new_Message type = \<lparr>msg_type = type, msg_params = [0, 0, 0, 0]\<rparr>"

definition set_type :: "int \<Rightarrow> message \<Rightarrow> message" where
  "set_type type m = m\<lparr>msg_type := type\<rparr>"

definition param :: "int \<Rightarrow> message \<Rightarrow> int option" where
  "param index m = do {
     CHECK (index \<ge> 0);
     CHECK (index < max_params m);
     Some (msg_params m ! nat index) }"

definition set_param :: "int \<Rightarrow> int \<Rightarrow> message \<Rightarrow> message option" where
  "set_param index value m = do {
     CHECK (index \<ge> 0);
     CHECK (index < max_params m);
     Some (m\<lparr>msg_params := (msg_params m)[nat index := value]\<rparr>) }"

record wm_ipc =
  ipc_cache :: atom_cache
  ipc_wm_window :: xid

definition new_WmIpc :: "('x, 'm) xserver_scheme \<Rightarrow> atom_cache \<Rightarrow> 'x \<Rightarrow> wm_ipc option" where
  "new_WmIpc X c w = do {
     atom \<leftarrow> GetXAtom ATOM_WM_S0 c;
     Some \<lparr>ipc_cache = c, ipc_wm_window = GetSelectionOwner X atom w\<rparr> }"

text \<open>The inner \<^term>\<open>None\<close> is the return value false.\<close>

definition GetWindowType :: "('x, 'm) xserver_scheme \<Rightarrow> wm_ipc \<Rightarrow> xid \<Rightarrow> 'x \<Rightarrow> (int \<times> int list) option option" where
  "GetWindowType X ipc xid w = do {
     atom \<leftarrow> GetXAtom ATOM_CHROME_WINDOW_TYPE (ipc_cache ipc);
     case GetIntArrayProperty X xid atom w of
       None \<Rightarrow> Some None
     | Some values \<Rightarrow> do {
         CHECK (values \<noteq> []);
         Some (Some (values ! 0, map (\<lambda>i. values ! i) [1..<length values])) } }"

definition XA_CARDINAL :: xatom where "XA_CARDINAL = 6"

definition SetWindowType ::
    "('x, 'm) xserver_scheme \<Rightarrow> wm_ipc \<Rightarrow> xid \<Rightarrow> int \<Rightarrow> int list option \<Rightarrow> 'x \<Rightarrow> (bool \<times> 'x) option" where
  "SetWindowType X ipc xid type params w = do {
     CHECK (type \<ge> 0);
     CHECK (type < kNumWindowTypes);
     let values = type # (case params of None \<Rightarrow> [] | Some ps \<Rightarrow> ps);
     atom \<leftarrow> GetXAtom ATOM_CHROME_WINDOW_TYPE (ipc_cache ipc);
     Some (SetIntArrayProperty X xid atom XA_CARDINAL values w) }"

definition SetSystemMetricsProperty :: "('x, 'm) xserver_scheme \<Rightarrow> wm_ipc \<Rightarrow> xid \<Rightarrow> string \<Rightarrow> 'x \<Rightarrow> (bool \<times> 'x) option" where
  "SetSystemMetricsProperty X ipc xid metrics w = do {
     atom \<leftarrow> GetXAtom ATOM_WM_SYSTEM_METRICS (ipc_cache ipc);
     Some (SetStringProperty X xid atom metrics w) }"

definition kLongFormat :: int where "kLongFormat = 32"

text \<open>The loops over the four parameters; \<open>data\<close> has five elements.\<close>

fun read_params :: "nat \<Rightarrow> nat \<Rightarrow> int list \<Rightarrow> message \<Rightarrow> message option" where
  "read_params 0 i data m = Some m"
| "read_params (Suc n) i data m = do {
     m \<leftarrow> set_param (int i) (data ! (i + 1)) m;
     read_params n (Suc i) data m }"

fun write_params :: "nat \<Rightarrow> nat \<Rightarrow> message \<Rightarrow> int list \<Rightarrow> int list option" where
  "write_params 0 i m data = Some data"
| "write_params (Suc n) i m data = do {
     p \<leftarrow> param (int i) m;
     write_params n (Suc i) m (data[i + 1 := p]) }"

text \<open>The return value and the message, which the caller supplies.\<close>

definition GetMessage :: "wm_ipc \<Rightarrow> xatom \<Rightarrow> int \<Rightarrow> int list \<Rightarrow> message \<Rightarrow> (bool \<times> message) option" where
  "GetMessage ipc message_type format data m = do {
     atom \<leftarrow> GetXAtom ATOM_CHROME_WM_MESSAGE (ipc_cache ipc);
     if message_type \<noteq> atom then Some (False, m)
     else if format \<noteq> kLongFormat then Some (False, m)
     else do {
       let m = set_type (data ! 0) m;
       if msg_type m < 0 \<or> msg_type m \<ge> kNumTypes then Some (False, m)
       else do {
         CHECK (max_params m \<le> 4);
         m \<leftarrow> read_params (nat (max_params m)) 0 data m;
         Some (True, m) } } }"

definition SendMessage :: "('x, 'm) xserver_scheme \<Rightarrow> wm_ipc \<Rightarrow> xid \<Rightarrow> message \<Rightarrow> 'x \<Rightarrow> (bool \<times> 'x) option" where
  "SendMessage X ipc xid msg w = do {
     let data = [0, 0, 0, 0, 0];
     let data = data[0 := msg_type msg];
     CHECK (max_params msg \<le> 4);
     data \<leftarrow> write_params (nat (max_params msg)) 0 msg data;
     atom \<leftarrow> GetXAtom ATOM_CHROME_WM_MESSAGE (ipc_cache ipc);
     Some (SendClientMessageEvent X xid xid atom data 0 w) }"

section \<open>Properties\<close>

lemma register_atoms_lookup:
  assumes "length infos = length xs" "distinct (map fst infos)" "distinct xs"
  shows "atom_to_xatom (register_atoms infos xs c) a =
      (case map_of (zip (map fst infos) xs) a of None \<Rightarrow> atom_to_xatom c a | Some x \<Rightarrow> Some x)"
    "map_of (xatom_to_string (register_atoms infos xs c)) x =
      (case map_of (zip xs (map snd infos)) x of None \<Rightarrow> map_of (xatom_to_string c) x | Some n \<Rightarrow> Some n)"
  using assms
proof (induction infos xs c rule: register_atoms.induct)
  case (1 atom name infos x' xs c)
  {
    case 1
    then have "map_of (zip (map fst infos) xs) atom = None" by (auto simp: map_of_zip_is_None)
    with 1 "1.IH"(1) show ?case 
      by (cases "a = atom"; cases "map_of (zip (map fst infos) xs) a")
         (simp_all del: map_of_eq_Some_iff map_of_zip_is_None)
  next
    case 2
    then have "map_of (zip xs (map snd infos)) x' = None" by (auto simp: map_of_zip_is_None)
    with 2 "1.IH"(2) show ?case 
      by (cases "x = x'"; cases "map_of (zip xs (map snd infos)) x")
         (simp_all add: om_get_put del: map_of_eq_Some_iff map_of_zip_is_None)
  }
qed auto

lemma kAtomInfos_facts: "distinct (map fst kAtomInfos)" "distinct (map snd kAtomInfos)"
  "length kAtomInfos = 35" "a \<in> set (map fst kAtomInfos)"
  by (simp_all add: kAtomInfos_def) (cases a; simp)

text \<open>
  The server interns names: it answers with as many atoms as it was asked names, different
  for different names.
\<close>

definition interns :: "('x, 'm) xserver_scheme \<Rightarrow> 'x \<Rightarrow> bool" where
  "interns X w \<longleftrightarrow>
     (\<forall>names. distinct names \<longrightarrow> (\<exists>xs. fst (GetAtoms X names w) = Some xs \<and> length xs = length names \<and> distinct xs))"

text \<open>
  with a server that interns names, the constructor of \<open>AtomCache\<close> succeeds and the cache is
  complete: every value of the enumeration has an X atom, different values have different atoms, and
  the name of its atom is the one in the table, found without a request to the server.
\<close>

theorem AtomCache_complete:
  assumes "interns X w"
  shows "\<exists>c w'. new_AtomCache X w = Some (c, w') \<and> (\<forall>a. \<exists>x name. GetXAtom a c = Some x
    \<and> (a, name) \<in> set kAtomInfos \<and> GetName X v x c = (name, c)
    \<and> (\<forall>b. GetXAtom b c = Some x \<longrightarrow> b = a))"
proof -
  from assms kAtomInfos_facts(2,3) obtain xs where xs: "fst (GetAtoms X (map snd kAtomInfos) w) = Some xs"
    "length xs = 35" "distinct xs" unfolding interns_def by (metis length_map)
  let ?start = "\<lparr>atom_to_xatom = (\<lambda>_. None), xatom_to_string = []\<rparr>"
  let ?c = "register_atoms kAtomInfos xs ?start"
  have new: "new_AtomCache X w = Some (?c, snd (GetAtoms X (map snd kAtomInfos) w))"
    using xs kAtomInfos_facts(3) by (simp add: new_AtomCache_def case_prod_beta)
  have len: "length kAtomInfos = length xs" using xs(2) kAtomInfos_facts(3) by simp
  note look = register_atoms_lookup[OF len kAtomInfos_facts(1) xs(3), where c = ?start]
  have at: "\<exists>i < 35. fst (kAtomInfos ! i) = a \<and> GetXAtom a ?c = Some (xs ! i)
      \<and> map_of (xatom_to_string ?c) (xs ! i) = Some (snd (kAtomInfos ! i))" for a
  proof -
    obtain i where i: "i < 35" "fst (kAtomInfos ! i) = a"
      using kAtomInfos_facts(3) kAtomInfos_facts(4)[of a] by (auto simp: in_set_conv_nth)
    have "map_of (zip (map fst kAtomInfos) xs) a = Some (xs ! i)"
      using map_of_zip_nth[of "map fst kAtomInfos" xs i] len kAtomInfos_facts(1,3) i by simp
    moreover have "map_of (zip xs (map snd kAtomInfos)) (xs ! i) = Some (snd (kAtomInfos ! i))"
      using map_of_zip_nth[of xs "map snd kAtomInfos" i] len xs(2,3) i by simp
    ultimately show ?thesis using i look by (auto simp: GetXAtom_def prod_eq_iff)
  qed
  have "\<exists>x name. GetXAtom a ?c = Some x \<and> (a, name) \<in> set kAtomInfos \<and> GetName X v x ?c = (name, ?c)
      \<and> (\<forall>b. GetXAtom b ?c = Some x \<longrightarrow> b = a)" for a
  proof -
    obtain i where i: "i < 35" "fst (kAtomInfos ! i) = a" "GetXAtom a ?c = Some (xs ! i)"
      "map_of (xatom_to_string ?c) (xs ! i) = Some (snd (kAtomInfos ! i))" using at[of a] by blast
    have "b = a" if b: "GetXAtom b ?c = Some (xs ! i)" for b
    proof -
      obtain j where j: "j < 35" "fst (kAtomInfos ! j) = b" "GetXAtom b ?c = Some (xs ! j)"
        using at[of b] by blast
      with b xs(2,3) i(1) have "j = i" by (auto simp: nth_eq_iff_index_eq)
      with i(2) j(2) show ?thesis by simp
    qed
    moreover have "(a, snd (kAtomInfos ! i)) \<in> set kAtomInfos"
      using i(1,2) kAtomInfos_facts(3) nth_mem[of i kAtomInfos] by auto
    moreover have "GetName X v (xs ! i) ?c = (snd (kAtomInfos ! i), ?c)" using i(4) by (simp add: GetName_def)
    ultimately show ?thesis using i(3) by blast
  qed
  with new show ?thesis by blast
qed

text \<open>A server for witnesses: it numbers the names, and keeps the last property and message.\<close>

definition demo_server :: "(int list \<times> int list) xserver" where
  "demo_server = \<lparr>GetAtoms = (\<lambda>names w. (Some [100..<100 + length names], w)), GetAtomName = (\<lambda>a w. None),
     GetSelectionOwner = (\<lambda>a w. 0), GetIntArrayProperty = (\<lambda>x a w. Some (fst w)),
     SetIntArrayProperty = (\<lambda>x a t vs w. (True, (vs, snd w))), SetStringProperty = (\<lambda>x a s w. (True, w)),
     SendClientMessageEvent = (\<lambda>d x a data m w. (True, (fst w, data)))\<rparr>"

theorem AtomCache_complete_witness:
  "\<exists>c w'. new_AtomCache demo_server ([], []) = Some (c, w') \<and> GetXAtom ATOM_WM_S0 c \<noteq> None
    \<and> GetXAtom ATOM_WM_S0 c \<noteq> GetXAtom ATOM_MANAGER c"
proof -
  have "interns demo_server ([], [])" by (auto simp: interns_def demo_server_def)
  from AtomCache_complete[OF this, of "([], [])"] show ?thesis
    by (metis Atom.distinct option.distinct(1))
qed

lemma write_params_eq:
  assumes "length (msg_params m) = 4" "length data = 5" "i + n = 4"
  shows "write_params n i m data = Some (take (Suc i) data @ drop i (msg_params m))"
  using assms(2,3)
proof (induction n arbitrary: i data)
  case 0
  then show ?case using assms(1) by simp
next
  case (Suc n)
  then have p: "param (int i) m = Some (msg_params m ! i)" using assms(1) by (simp add: param_def max_params_def)
  have "write_params n (Suc i) m (data[i + 1 := msg_params m ! i]) =
      Some (take (Suc (Suc i)) (data[i + 1 := msg_params m ! i]) @ drop (Suc i) (msg_params m))"
    by (rule Suc.IH) (use Suc.prems in auto)
  moreover have "take (Suc (Suc i)) (data[i + 1 := msg_params m ! i]) = take (Suc i) data @ [msg_params m ! i]"
    using Suc.prems by (simp add: take_Suc_conv_app_nth)
  moreover have "drop i (msg_params m) = msg_params m ! i # drop (Suc i) (msg_params m)"
    using Suc.prems assms(1) by (simp add: Cons_nth_drop_Suc)
  ultimately show ?case using p by simp
qed

lemma read_params_eq:
  assumes "length ps = 4" "length (msg_params m) = 4" "i + n = 4" "take i (msg_params m) = take i ps"
  shows "read_params n i (t # ps) m = Some (m\<lparr>msg_params := ps\<rparr>)"
  using assms(2-)
proof (induction n arbitrary: i m)
  case 0
  then show ?case using assms(1) by simp
next
  case (Suc n)
  let ?m = "m\<lparr>msg_params := (msg_params m)[i := ps ! i]\<rparr>"
  have "set_param (int i) (ps ! i) m = Some ?m" using Suc.prems by (simp add: set_param_def max_params_def)
  moreover have "read_params n (Suc i) (t # ps) ?m = Some (?m\<lparr>msg_params := ps\<rparr>)"
    by (rule Suc.IH) (use Suc.prems assms(1) in \<open>auto simp: take_Suc_conv_app_nth\<close>)
  ultimately show ?case by simp
qed

text \<open>
  C30: a message survives the trip. What \<open>SendMessage\<close> hands to the X server for a message of a known
  type is read back by \<open>GetMessage\<close> as the same message, whatever the receiver's message
  held before; events of another atom, format or with an unknown type are refused.
\<close>

theorem WmIpc_message_roundtrip:
  assumes "GetXAtom ATOM_CHROME_WM_MESSAGE (ipc_cache ipc) = Some atom"
    and "length (msg_params msg) = 4" "length (msg_params m) = 4"
    and "0 \<le> msg_type msg" "msg_type msg < kNumTypes"
  shows "\<exists>data. SendMessage X ipc xid msg w = Some (SendClientMessageEvent X xid xid atom data 0 w)
    \<and> GetMessage ipc atom kLongFormat data m = Some (True, msg)
    \<and> (\<forall>other fmt d. other \<noteq> atom \<or> fmt \<noteq> kLongFormat \<or> d ! 0 < 0 \<or> d ! 0 \<ge> kNumTypes \<longrightarrow>
        (\<exists>m'. GetMessage ipc other fmt d m = Some (False, m') \<and> msg_params m' = msg_params m))"
proof -
  let ?data = "msg_type msg # msg_params msg"
  have "write_params 4 0 msg [msg_type msg, 0, 0, 0, 0] = Some ?data"
    using write_params_eq[of msg "[msg_type msg, 0, 0, 0, 0]" 0 4] assms(2) by simp
  then have s: "SendMessage X ipc xid msg w = Some (SendClientMessageEvent X xid xid atom ?data 0 w)"
    using assms(1,2) by (simp add: SendMessage_def max_params_def)
  have "read_params 4 0 ?data (m\<lparr>msg_type := msg_type msg\<rparr>) = Some (m\<lparr>msg_type := msg_type msg, msg_params := msg_params msg\<rparr>)"
    by (subst read_params_eq) (use assms(2,3) in auto)
  then have g: "GetMessage ipc atom kLongFormat ?data m = Some (True, msg)"
    using assms by (simp add: GetMessage_def set_type_def max_params_def)
  show ?thesis
    by (rule exI[of _ ?data]) (use s g assms(1) in \<open>auto simp: GetMessage_def set_type_def\<close>)
qed

definition demo_ipc :: wm_ipc where
  "demo_ipc = \<lparr>ipc_cache = \<lparr>atom_to_xatom = (\<lambda>a. if a = ATOM_CHROME_WM_MESSAGE then Some 7 else None),
     xatom_to_string = []\<rparr>, ipc_wm_window = 1\<rparr>"

theorem WmIpc_message_roundtrip_witness:
  "\<exists>data. GetMessage demo_ipc 7 kLongFormat data (new_Message UNKNOWN) =
    Some (True, \<lparr>msg_type = WM_SET_PANEL_STATE, msg_params = [5, 1, 0, 0]\<rparr>)"
  using WmIpc_message_roundtrip[of demo_ipc 7 "\<lparr>msg_type = WM_SET_PANEL_STATE, msg_params = [5, 1, 0, 0]\<rparr>"
      "new_Message UNKNOWN" demo_server 5 "([], [])"]
  by (auto simp: demo_ipc_def GetXAtom_def new_Message_def kNumTypes_def)

lemma map_nth_tail: "map (\<lambda>i. (x # xs) ! i) [1..<Suc (length xs)] = xs"
  by (rule nth_equalityI) (auto simp del: upt_Suc)

text \<open>A window type that was set is read back, with its parameters.\<close>

lemma WindowType_roundtrip:
  assumes "\<And>vs w w'. SetIntArrayProperty X xid a XA_CARDINAL vs w = (True, w') \<Longrightarrow> GetIntArrayProperty X xid a w' = Some vs"
    and "GetXAtom ATOM_CHROME_WINDOW_TYPE (ipc_cache ipc) = Some a"
    and "SetWindowType X ipc xid type params w = Some (True, w')"
  shows "GetWindowType X ipc xid w' = Some (Some (type, case params of None \<Rightarrow> [] | Some ps \<Rightarrow> ps))"
proof -
  let ?ps = "case params of None \<Rightarrow> [] | Some ps \<Rightarrow> ps"
  have "SetIntArrayProperty X xid a XA_CARDINAL (type # ?ps) w = (True, w')"
    using assms(2,3) by (auto simp: SetWindowType_def Let_def split: if_splits)
  moreover have "map (\<lambda>i. (type # ?ps) ! i) [1..<length (type # ?ps)] = ?ps"
    using map_nth_tail[of type ?ps] by (simp del: upt_Suc)
  ultimately show ?thesis using assms(1)[of "type # ?ps" w w'] assms(2)
    by (simp add: GetWindowType_def)
qed

end
