(* ===== verification/Doubles.thy ===== *)
theory Doubles
  imports Prelude Complex_Main "HOL-Library.Log_Nat"
begin

text \<open>
  The arithmetic on \<open>double\<close> the window manager uses for scales, opacities and midpoints. A value is
  the rational number it stands for; a product, sum or quotient is rounded to a significand of 53 bits,
  to nearest and ties to even, as IEEE 754 says. Values that occur are screen coordinates, scales and
  opacities, far from the ends of the exponent's range, which is not bounded here. The conversion to
  \<open>int\<close> truncates.
\<close>

type_synonym double = rat

definition dbl_exp :: "rat \<Rightarrow> int" where
  "dbl_exp x =
     (let (p, q) = quotient_of \<bar>x\<bar>; e = bitlen p - bitlen q
      in if 2 powi e \<le> \<bar>x\<bar> then e else e - 1)"

definition round_half_even :: "rat \<Rightarrow> int" where
  "round_half_even x =
     (let f = \<lfloor>x\<rfloor>; r = x - of_int f
      in if r < 1 / 2 \<or> r = 1 / 2 \<and> even f then f else f + 1)"

definition rnd :: "rat \<Rightarrow> double" where
  "rnd x =
     (if x = 0 then 0
      else (let u = 2 powi (dbl_exp x - 52) in of_int (round_half_even (x / u)) * u))"

definition dbl_mult :: "double \<Rightarrow> double \<Rightarrow> double" where
  "dbl_mult x y = rnd (x * y)"

definition dbl_add :: "double \<Rightarrow> double \<Rightarrow> double" where
  "dbl_add x y = rnd (x + y)"

definition dbl_sub :: "double \<Rightarrow> double \<Rightarrow> double" where
  "dbl_sub x y = rnd (x - y)"

definition dbl_div :: "double \<Rightarrow> double \<Rightarrow> double" where
  "dbl_div x y = rnd (x / y)"

definition dbl_to_int :: "double \<Rightarrow> int" where
  "dbl_to_int x = (if 0 \<le> x then \<lfloor>x\<rfloor> else \<lceil>x\<rceil>)"

lemma dbl_exp_le:
  assumes "x \<noteq> 0"
  shows "2 powi dbl_exp x \<le> \<bar>x\<bar>"
proof -
  obtain p q where pq: "quotient_of \<bar>x\<bar> = (p, q)" by force
  then have q: "q > 0" and x: "\<bar>x\<bar> = of_int p / of_int q"
    by (auto simp: quotient_of_denom_pos quotient_of_div)
  have "0 < (of_int p / of_int q :: rat)" using assms x by (simp flip: x)
  with q have p: "p > 0" by (simp add: zero_less_divide_iff)
  define a b where "a = nat (bitlen p - 1)" and "b = nat (bitlen q)"
  have "bitlen p \<noteq> 0" using p bitlen_eq_zero_iff[of p] by simp
  then have a: "bitlen p = int a + 1" using bitlen_nonneg[of p] by (simp add: a_def)
  have b: "bitlen q = int b" using bitlen_nonneg[of q] by (simp add: b_def)
  have "2 ^ a \<le> p" using bitlen_bounds[OF p] a by simp
  moreover have "q < 2 ^ b" using bitlen_bounds[OF q] b by simp
  ultimately have "of_int (2 ^ a) \<le> (of_int p :: rat)" "of_int q \<le> (of_int (2 ^ b) :: rat)"
    unfolding of_int_le_iff by simp_all
  then have "(2 :: rat) ^ a \<le> of_int p" "of_int q \<le> (2 :: rat) ^ b" by simp_all
  with p q have "(2 :: rat) ^ a / 2 ^ b \<le> \<bar>x\<bar>" unfolding x by (intro frac_le) auto
  moreover have "(2 :: rat) powi (bitlen p - bitlen q - 1) = 2 ^ a / 2 ^ b"
    unfolding a b by (simp add: power_int_diff)
  ultimately show ?thesis using pq by (simp add: dbl_exp_def Let_def)
qed

lemma round_half_even_int [simp]: "round_half_even (of_int n) = n"
  by (simp add: round_half_even_def)

text \<open>A value with at most 53 significant bits is not changed by rounding.\<close>

lemma rnd_exact:
  assumes "x = of_int m * 2 powi k" "\<bar>m\<bar> < 2 ^ 53"
  shows "rnd x = x"
proof (cases "x = 0")
  case False
  let ?e = "dbl_exp x"
  have "?e < k + 53"
  proof (rule ccontr)
    assume "\<not> ?thesis"
    then have "(2 :: rat) powi (k + 53) \<le> 2 powi ?e" by (intro power_int_increasing) auto
    also have "\<dots> \<le> \<bar>x\<bar>" by (rule dbl_exp_le[OF False])
    also have "\<dots> = of_int \<bar>m\<bar> * 2 powi k" by (simp add: assms(1) abs_mult power_int_abs)
    finally have "(2 :: rat) ^ 53 * 2 powi k \<le> of_int \<bar>m\<bar> * 2 powi k" by (simp add: power_int_add mult.commute)
    then have "of_int (2 ^ 53) \<le> (of_int \<bar>m\<bar> :: rat)" by (simp add: mult_le_cancel_right)
    with assms(2) show False unfolding of_int_le_iff by simp
  qed
  define j where "j = nat (k - (?e - 52))"
  have j: "k - (?e - 52) = int j" using \<open>?e < k + 53\<close> by (simp add: j_def)
  have "x / 2 powi (?e - 52) = of_int m * 2 powi (k - (?e - 52))"
    by (simp add: assms(1) power_int_diff)
  also have "\<dots> = of_int (m * 2 ^ j)" by (simp add: j)
  finally have q: "x / 2 powi (?e - 52) = of_int (m * 2 ^ j)" .
  have "rnd x = x / 2 powi (?e - 52) * 2 powi (?e - 52)"
    using False by (simp add: rnd_def Let_def q del: of_int_mult)
  then show ?thesis by simp
qed (simp add: rnd_def)

lemma rnd_int [simp]: "\<bar>n\<bar> < 2 ^ 53 \<Longrightarrow> rnd (of_int n) = of_int n"
  using rnd_exact[of "of_int n" n 0] by simp

lemma rnd_half: "\<bar>n\<bar> < 2 ^ 53 \<Longrightarrow> rnd (of_int n / 2) = of_int n / 2"
  using rnd_exact[of "of_int n / 2" n "-1"] by (simp add: power_int_minus field_simps)

lemma dbl_to_int_int [simp]: "dbl_to_int (of_int n) = n"
  by (simp add: dbl_to_int_def)

text \<open>Midpoints: \<open>x + 0.5 * w\<close> and \<open>x - 0.5 * w\<close> on coordinates are exact before truncation.\<close>

lemma dbl_half: "\<bar>n\<bar> < 2 ^ 52 \<Longrightarrow> dbl_mult (1 / 2) (of_int n) = of_int n / 2"
  using rnd_half[of n] by (simp add: dbl_mult_def)

lemma dbl_add_half:
  assumes "\<bar>x\<bar> < 2 ^ 31" "\<bar>n\<bar> < 2 ^ 31"
  shows "dbl_add (of_int x) (of_int n / 2) = of_int (2 * x + n) / 2"
proof -
  have e: "of_int x + of_int n / 2 = (of_int (2 * x + n) / 2 :: rat)" by simp
  have "\<bar>2 * x + n\<bar> < 2 ^ 53" using assms by auto
  from rnd_half[OF this] show ?thesis unfolding dbl_add_def e .
qed

lemma dbl_sub_half:
  assumes "\<bar>x\<bar> < 2 ^ 31" "\<bar>n\<bar> < 2 ^ 31"
  shows "dbl_sub (of_int x) (of_int n / 2) = of_int (2 * x - n) / 2"
  using dbl_add_half[of x "- n"] assms by (simp add: dbl_add_def dbl_sub_def)

lemma dbl_to_int_half: "dbl_to_int (of_int n / 2) = (if 0 \<le> n then n div 2 else - (- n div 2))"
proof -
  have "\<lfloor>of_int n / (2 :: rat)\<rfloor> = n div 2" using floor_divide_of_int_eq[of n 2] by simp
  moreover have "\<lceil>of_int n / (2 :: rat)\<rceil> = - (- n div 2)"
    using floor_divide_of_int_eq[of "- n" 2] by (simp add: ceiling_def)
  ultimately show ?thesis by (simp add: dbl_to_int_def)
qed

text \<open>\<open>round\<close> of \<open>math.h\<close>: to the nearest integer, halves away from zero.\<close>

definition dbl_round :: "double \<Rightarrow> int" where
  "dbl_round x = (if 0 \<le> x then \<lfloor>x + 1 / 2\<rfloor> else - \<lfloor>1 / 2 - x\<rfloor>)"

text \<open>
  \<open>sqrt\<close> of a number of 32 bits, correctly rounded: from the integral root of \<open>4 ^ 60 * n\<close>, which has more bits than the result, and
  half a unit more where it is not exact.
\<close>

fun isqrt_bits :: "nat \<Rightarrow> nat \<Rightarrow> nat \<Rightarrow> nat" where
  "isqrt_bits 0 n r = r"
| "isqrt_bits (Suc k) n r = (let r' = r + 2 ^ k in isqrt_bits k n (if r' * r' \<le> n then r' else r))"

definition dbl_sqrt :: "nat \<Rightarrow> double" where
  "dbl_sqrt n =
     (let m = n * 4 ^ 60; s = isqrt_bits 77 m 0
      in rnd (if s * s = m then of_nat s / 2 ^ 60 else of_nat (2 * s + 1) / 2 ^ 61))"

lemma isqrt_bits_correct:
  assumes "r * r \<le> n" "n < (r + 2 ^ k) * (r + 2 ^ k)"
  shows "isqrt_bits k n r * isqrt_bits k n r \<le> n" "n < Suc (isqrt_bits k n r) * Suc (isqrt_bits k n r)"
  using assms
proof (induction k arbitrary: r)
  case (Suc k)
  {
    case 1
    then show ?case using Suc.IH[of r] Suc.IH[of "r + 2 ^ k"] by (simp add: Let_def mult_2 add.assoc)
  next
    case 2
    then show ?case using Suc.IH[of r] Suc.IH[of "r + 2 ^ k"] by (simp add: Let_def mult_2 add.assoc)
  }
qed simp_all

end
