(* ===== verification/WM_Actors.thy ===== *)
theory WM_Actors
  imports WM_Ipc WM_Util Doubles
begin

text \<open>
  The surroundings the window classes of the window manager work in: the requests they make to the X
  server through \<open>XConnection\<close> (\<open>x_connection.h\<close>, \<open>x_connection.cc\<close>, the decoding parts of
  \<open>real_x_connection.cc\<close>), the calls to Clutter actors (\<open>clutter_interface.h\<close>), and \<open>Shadow\<close>
  (\<open>shadow.cc\<close>), the nine actors of a drop shadow.

  The X server is the parameter \<open>xconn\<close>: a record of queries and one function for all requests that
  succeed or fail, over a state of its own. Clutter returns nothing the code depends on, so that a
  call of an actor is an entry of a log.
\<close>

type_synonym xtime = nat

abbreviation (input) XNone :: xid where "XNone \<equiv> 0"
abbreviation (input) CurrentTime :: xtime where "CurrentTime \<equiv> 0"

section \<open>XConnection\<close>

record window_geometry =
  geom_x :: int
  geom_y :: int
  geom_width :: int
  geom_height :: int
  geom_border_width :: int

record size_hints =
  sh_width :: int
  sh_height :: int
  sh_min_width :: int
  sh_min_height :: int
  sh_max_width :: int
  sh_max_height :: int
  sh_width_increment :: int
  sh_height_increment :: int
  sh_min_aspect_x :: int
  sh_min_aspect_y :: int
  sh_max_aspect_x :: int
  sh_max_aspect_y :: int
  sh_base_width :: int
  sh_base_height :: int
  sh_win_gravity :: int

definition SizeHints_Reset :: size_hints where
  "SizeHints_Reset = \<lparr>sh_width = -1, sh_height = -1, sh_min_width = -1, sh_min_height = -1, sh_max_width = -1,
     sh_max_height = -1, sh_width_increment = -1, sh_height_increment = -1, sh_min_aspect_x = -1,
     sh_min_aspect_y = -1, sh_max_aspect_x = -1, sh_max_aspect_y = -1, sh_base_width = -1, sh_base_height = -1,
     sh_win_gravity = -1\<rparr>"

datatype map_state = MAP_STATE_UNMAPPED | MAP_STATE_UNVIEWABLE | MAP_STATE_VIEWABLE

datatype xreq =
    MapWindow xid
  | UnmapWindow xid
  | MoveWindow xid int int
  | ResizeWindow xid int int
  | ConfigureWindow xid int int int int
  | RaiseWindow xid
  | StackWindow xid xid bool
  | FocusWindow xid xtime
  | SetWindowBorderWidth xid int
  | SelectInputOnWindow xid int bool
  | DeselectInputOnWindow xid int
  | AddButtonGrabOnWindow xid int int bool
  | RemoveButtonGrabOnWindow xid int
  | RemovePointerGrab bool xtime
  | DestroyWindow xid
  | SelectShapeEventsOnWindow xid
  | DeletePropertyIfExists xid xatom
  | SetWindowCursor xid int
  | UnredirectWindowForCompositing xid
  | ReparentWindow xid xid int int
  | RemoveInputRegionFromWindow xid
  | SelectRandREventsOnWindow xid
  | SetSelectionOwner xatom xid xtime
  | WaitForWindowToBeDestroyed xid

text \<open>The masks and button numbers of X.h.\<close>

definition ButtonPressMask :: int where "ButtonPressMask = 2 ^ 2"
definition ButtonReleaseMask :: int where "ButtonReleaseMask = 2 ^ 3"
definition EnterWindowMask :: int where "EnterWindowMask = 2 ^ 4"
definition LeaveWindowMask :: int where "LeaveWindowMask = 2 ^ 5"
definition PointerMotionMask :: int where "PointerMotionMask = 2 ^ 6"
definition FocusChangeMask :: int where "FocusChangeMask = 2 ^ 21"
definition PropertyChangeMask :: int where "PropertyChangeMask = 2 ^ 22"
definition AnyButton :: int where "AnyButton = 0"
definition XA_ATOM :: xatom where "XA_ATOM = 4"
definition XA_WINDOW :: xatom where "XA_WINDOW = 33"
definition XA_WM_NORMAL_HINTS :: xatom where "XA_WM_NORMAL_HINTS = 40"
definition XA_WM_TRANSIENT_FOR :: xatom where "XA_WM_TRANSIENT_FOR = 68"

record 'x xconn = "'x xserver" +
  x_request :: "xreq \<Rightarrow> 'x \<Rightarrow> bool \<times> 'x"
  GetWindowGeometry :: "xid \<Rightarrow> 'x \<Rightarrow> window_geometry option"
  GetMapState :: "xid \<Rightarrow> 'x \<Rightarrow> map_state option"
  IsWindowShaped :: "xid \<Rightarrow> 'x \<Rightarrow> bool"
  GetWindowBoundingRegion :: "xid \<Rightarrow> byte_map \<Rightarrow> 'x \<Rightarrow> byte_map option"
  CreateWindow :: "xid \<Rightarrow> int \<Rightarrow> int \<Rightarrow> int \<Rightarrow> int \<Rightarrow> bool \<Rightarrow> bool \<Rightarrow> int \<Rightarrow> 'x \<Rightarrow> xid \<times> 'x"
  WaitForPropertyChange :: "xid \<Rightarrow> 'x \<Rightarrow> xtime option \<times> 'x"
  QueryPointerPosition :: "'x \<Rightarrow> (int \<times> int) option"

text \<open>\<open>XConnection::ConfigureWindowOffscreen\<close>\<close>

definition ConfigureWindowOffscreen :: "xid \<Rightarrow> xreq" where
  "ConfigureWindowOffscreen xid = ConfigureWindow xid (-1) (-1) 1 1"

text \<open>
  \<open>RealXConnection::GetIntArrayProperty\<close> decodes the bytes of a property. \<open>reply\<close> is what
  \<open>GetPropertyInternal\<close> gives: the format and the value, or nothing when there is no such
  property. The machine is little-endian.
\<close>

definition int_of_bytes :: "byte list \<Rightarrow> int" where
  "int_of_bytes bs = signed_take_bit 31 (foldr (\<lambda>b a. uint b + 256 * a) bs 0)"

fun int_values :: "byte list \<Rightarrow> int list" where
  "int_values (a # b # c # d # bs) = int_of_bytes [a, b, c, d] # int_values bs"
| "int_values _ = []"

definition DecodeIntArrayProperty :: "(int \<times> byte list) option \<Rightarrow> int list option" where
  "DecodeIntArrayProperty reply =
     (case reply of
        None \<Rightarrow> None
      | Some (format, str_value) \<Rightarrow>
          if format \<noteq> kLongFormat then None
          else if length str_value mod 4 \<noteq> 0 then None
          else Some (int_values str_value))"

text \<open>\<open>XConnection::GetIntProperty\<close>: the inner \<^term>\<open>None\<close> is the return value false.\<close>

definition GetIntProperty :: "('x, 'm) xconn_scheme \<Rightarrow> xid \<Rightarrow> xatom \<Rightarrow> 'x \<Rightarrow> int option option" where
  "GetIntProperty X xid xatom x =
     (case GetIntArrayProperty X xid xatom x of
        None \<Rightarrow> Some None
      | Some values \<Rightarrow> do {
          CHECK (values \<noteq> []);
          Some (Some (values ! 0)) })"

definition SetIntProperty :: "('x, 'm) xconn_scheme \<Rightarrow> xid \<Rightarrow> xatom \<Rightarrow> xatom \<Rightarrow> int \<Rightarrow> 'x \<Rightarrow> bool \<times> 'x" where
  "SetIntProperty X xid xatom type value x = SetIntArrayProperty X xid xatom type [value] x"

text \<open>\<open>RealXConnection::GetSizeHintsForWindow\<close> on the values of the property.\<close>

definition GetSizeHintsForWindow :: "('x, 'm) xconn_scheme \<Rightarrow> xid \<Rightarrow> 'x \<Rightarrow> bool \<times> size_hints" where
  "GetSizeHintsForWindow X xid x =
     (case GetIntArrayProperty X xid XA_WM_NORMAL_HINTS x of
        None \<Rightarrow> (False, SizeHints_Reset)
      | Some values \<Rightarrow>
          if length values < 15 then (False, SizeHints_Reset)
          else
            (let flags = values ! 0;
                 h = SizeHints_Reset;
                 h = (if bit flags 1 \<or> bit flags 3
                      then h\<lparr>sh_width := values ! 3, sh_height := values ! 4\<rparr> else h);
                 h = (if bit flags 4 then h\<lparr>sh_min_width := values ! 5, sh_min_height := values ! 6\<rparr> else h);
                 h = (if bit flags 5 then h\<lparr>sh_max_width := values ! 7, sh_max_height := values ! 8\<rparr> else h);
                 h = (if bit flags 6
                      then h\<lparr>sh_width_increment := values ! 9, sh_height_increment := values ! 10\<rparr> else h);
                 h = (if bit flags 7
                      then h\<lparr>sh_min_aspect_x := values ! 11, sh_min_aspect_y := values ! 12,
                             sh_max_aspect_x := values ! 13, sh_max_aspect_y := values ! 14\<rparr> else h);
                 h = (if bit flags 8 \<and> length values \<ge> 17
                      then h\<lparr>sh_base_width := values ! 15, sh_base_height := values ! 16\<rparr> else h);
                 h = (if bit flags 9 \<and> length values \<ge> 18 then h\<lparr>sh_win_gravity := values ! 17\<rparr> else h)
             in (True, h)))"

text \<open>\<open>RealXConnection::GetTransientHintForWindow\<close>: the cast to the unsigned 32-bit \<open>XWindow\<close>.\<close>

definition GetTransientHintForWindow :: "('x, 'm) xconn_scheme \<Rightarrow> xid \<Rightarrow> 'x \<Rightarrow> xid option option" where
  "GetTransientHintForWindow X xid x =
     map_option (map_option (\<lambda>owner. nat (owner mod 2 ^ 32))) (GetIntProperty X xid XA_WM_TRANSIENT_FOR x)"

section \<open>Actors\<close>

datatype shadow_owner = WindowShadow xid | DockShadow bool

datatype shadow_part = Sh_group | Sh_top | Sh_bottom | Sh_left | Sh_right | Sh_tl | Sh_tr | Sh_bl | Sh_br

datatype actor =
    Stage
  | WindowActor xid
  | ShadowActor shadow_owner shadow_part
  | LayerActor int
  | AnchorActor
  | ResizeActor xid
  | DockBackground bool
  | StaticGradientActor
  | GradientActor nat
  | BackgroundActor
  | HotkeyGroup
  | HotkeyImage string
  | DebugGroup xid
  | DebugRect xid
  | DebugText xid
  | Compositor

datatype actor_call =
    SetName string
  | SetVisibility bool
  | SetSize int int
  | Move int int int
  | MoveX int int
  | MoveY int int
  | Scale double double int
  | SetOpacity double int
  | Raise actor
  | Lower actor
  | RaiseToTop
  | AddActor actor
  | SetTexturePixmapWindow xid
  | SetAlphaMask byte_map
  | ClearAlphaMask
  | SetClip int int int int
  | SetStageColor double double double
  | WindowConfigured xid
  | WindowDamaged xid
  | WindowDestroyed xid

record 'x env =
  es_x :: 'x
  es_clutter :: "(actor \<times> actor_call) list"

definition call :: "actor \<Rightarrow> actor_call \<Rightarrow> 'x env \<Rightarrow> 'x env" where
  "call a c e = e\<lparr>es_clutter := es_clutter e @ [(a, c)]\<rparr>"

definition calls :: "(actor \<times> actor_call) list \<Rightarrow> 'x env \<Rightarrow> 'x env" where
  "calls cs e = e\<lparr>es_clutter := es_clutter e @ cs\<rparr>"

definition request :: "('x, 'm) xconn_scheme \<Rightarrow> xreq \<Rightarrow> 'x env \<Rightarrow> bool \<times> 'x env" where
  "request X r e = (case x_request X r (es_x e) of (b, x) \<Rightarrow> (b, e\<lparr>es_x := x\<rparr>))"

section \<open>Shadow\<close>

text \<open>The static members, which \<open>Init\<close> computes once from the sizes of the images.\<close>

record shadow_dims =
  kInset :: int
  kTopHeight :: int
  kBottomHeight :: int
  kLeftWidth :: int
  kRightWidth :: int

text \<open>\<open>image_size f\<close> is the width and height of the image \<open>f\<close>.\<close>

definition Shadow_Init :: "(string \<Rightarrow> int \<times> int) \<Rightarrow> shadow_dims option" where
  "Shadow_Init image_size = do {
     let top_height = snd (image_size ''shadow_top.png'');
     let bottom_height = snd (image_size ''shadow_bottom.png'');
     let left_width = fst (image_size ''shadow_left.png'');
     let right_width = fst (image_size ''shadow_right.png'');
     let inset = snd (image_size ''shadow_tl.png'') - top_height;
     CHECK (snd (image_size ''shadow_br.png'') - bottom_height = inset);
     CHECK (fst (image_size ''shadow_tl.png'') - left_width = inset);
     CHECK (fst (image_size ''shadow_tr.png'') - right_width = inset);
     Some \<lparr>kInset = inset, kTopHeight = top_height, kBottomHeight = bottom_height, kLeftWidth = left_width,
           kRightWidth = right_width\<rparr> }"

record shadow =
  sw_is_shown :: bool
  sw_opacity :: double

definition Shadow_Show :: "shadow_owner \<Rightarrow> shadow \<times> 'x env \<Rightarrow> shadow \<times> 'x env" where
  "Shadow_Show own se = (case se of (s, e) \<Rightarrow>
     (s\<lparr>sw_is_shown := True\<rparr>, call (ShadowActor own Sh_group) (SetVisibility True) e))"

definition Shadow_Hide :: "shadow_owner \<Rightarrow> shadow \<times> 'x env \<Rightarrow> shadow \<times> 'x env" where
  "Shadow_Hide own se = (case se of (s, e) \<Rightarrow>
     (s\<lparr>sw_is_shown := False\<rparr>, call (ShadowActor own Sh_group) (SetVisibility False) e))"

definition Shadow_Move :: "shadow_owner \<Rightarrow> int \<Rightarrow> int \<Rightarrow> int \<Rightarrow> 'x env \<Rightarrow> 'x env" where
  "Shadow_Move own x y anim_ms = call (ShadowActor own Sh_group) (Move x y anim_ms)"

definition Shadow_MoveX :: "shadow_owner \<Rightarrow> int \<Rightarrow> int \<Rightarrow> 'x env \<Rightarrow> 'x env" where
  "Shadow_MoveX own x anim_ms = call (ShadowActor own Sh_group) (MoveX x anim_ms)"

definition Shadow_MoveY :: "shadow_owner \<Rightarrow> int \<Rightarrow> int \<Rightarrow> 'x env \<Rightarrow> 'x env" where
  "Shadow_MoveY own y anim_ms = call (ShadowActor own Sh_group) (MoveY y anim_ms)"

definition Shadow_Resize :: "shadow_dims \<Rightarrow> shadow_owner \<Rightarrow> int \<Rightarrow> int \<Rightarrow> int \<Rightarrow> 'x env \<Rightarrow> 'x env" where
  "Shadow_Resize D own width height anim_ms =
     calls (map (\<lambda>(p, c). (ShadowActor own p, c))
       [(Sh_top, Move (kInset D) (- kTopHeight D) anim_ms),
        (Sh_bottom, Move (kInset D) height anim_ms),
        (Sh_left, Move (- kLeftWidth D) (kInset D) anim_ms),
        (Sh_right, Move width (kInset D) anim_ms),
        (Sh_tl, Move (- kLeftWidth D) (- kTopHeight D) anim_ms),
        (Sh_tr, Move (width - kInset D) (- kTopHeight D) anim_ms),
        (Sh_bl, Move (- kLeftWidth D) (height - kInset D) anim_ms),
        (Sh_br, Move (width - kInset D) (height - kInset D) anim_ms),
        (Sh_top, Scale (of_int (width - 2 * kInset D)) 1 anim_ms),
        (Sh_bottom, Scale (of_int (width - 2 * kInset D)) 1 anim_ms),
        (Sh_left, Scale 1 (of_int (height - 2 * kInset D)) anim_ms),
        (Sh_right, Scale 1 (of_int (height - 2 * kInset D)) anim_ms)])"

definition Shadow_SetOpacity :: "shadow_owner \<Rightarrow> double \<Rightarrow> int \<Rightarrow> shadow \<times> 'x env \<Rightarrow> shadow \<times> 'x env" where
  "Shadow_SetOpacity own opacity anim_ms se = (case se of (s, e) \<Rightarrow>
     (s\<lparr>sw_opacity := opacity\<rparr>, call (ShadowActor own Sh_group) (SetOpacity opacity anim_ms) e))"

definition new_Shadow :: "shadow_dims \<Rightarrow> shadow_owner \<Rightarrow> 'x env \<Rightarrow> shadow \<times> 'x env" where
  "new_Shadow D own e =
     (let s = \<lparr>sw_is_shown = False, sw_opacity = 1\<rparr>;
          parts = [(Sh_top, ''shadow top''), (Sh_bottom, ''shadow bottom''), (Sh_left, ''shadow left''),
                   (Sh_right, ''shadow right''), (Sh_tl, ''shadow tl''), (Sh_tr, ''shadow tr''),
                   (Sh_bl, ''shadow bl''), (Sh_br, ''shadow br'')];
          e = call (ShadowActor own Sh_group) (SetName ''shadow group'') e;
          e = calls (map (\<lambda>(p, n). (ShadowActor own p, SetName n)) parts) e;
          e = calls (map (\<lambda>(p, n). (ShadowActor own p, SetVisibility True)) parts) e;
          e = Shadow_Resize D own 10 10 0 e;
          (s, e) = Shadow_SetOpacity own 1 0 (s, e);
          e = calls (map (\<lambda>(p, n). (ShadowActor own Sh_group, AddActor (ShadowActor own p))) parts) e
      in Shadow_Hide own (s, e))"

end
