(* ===== verification/WM_Window.thy ===== *)
theory WM_Window
  imports WM_Actors "HOL-Library.Signed_Division"
begin

text \<open>
  \<open>Window\<close> (\<open>window_manager/window.h\<close>, \<open>window.cc\<close>), the window manager's picture of one
  client window: where the client is on the X server, where and how it is drawn, its properties and its
  drop shadow.

  An operation works on the window and on its surroundings, \<open>env\<close>: the state of the X server and the
  log of the calls of Clutter actors. Coordinates are unbounded integers; the X protocol carries them in 16
  bits, far from the limits of \<open>int\<close>. Where a size can come from a client as a full 32-bit value
  (\<open>GetMaxSize\<close>) the bounds are part of the theorem. \<open>DCHECK\<close> and logging do nothing in a release build.
\<close>

section \<open>State\<close>

datatype Gravity = GRAVITY_NORTHWEST | GRAVITY_NORTHEAST | GRAVITY_SOUTHWEST | GRAVITY_SOUTHEAST

record window =
  w_xid :: xid
  w_xid_str :: string
  w_shadow :: "shadow option"
  w_transient_for_xid :: xid
  w_override_redirect :: bool
  w_mapped :: bool
  w_focused :: bool
  w_shaped :: bool
  w_redirected :: bool
  w_type :: int
  w_type_params :: "int list"
  client_x :: int
  client_y :: int
  client_width :: int
  client_height :: int
  client_opacity :: double
  composited_shown :: bool
  composited_x :: int
  composited_y :: int
  composited_scale_x :: double
  composited_scale_y :: double
  composited_opacity :: double
  using_shadow :: bool
  shadow_opacity :: double
  w_title :: string
  w_size_hints :: size_hints
  supports_wm_take_focus :: bool
  supports_wm_delete_window :: bool
  wm_state_fullscreen :: bool
  wm_state_maximized_horz :: bool
  wm_state_maximized_vert :: bool
  wm_state_modal :: bool
  wm_hint_urgent :: bool
  chrome_state_xatoms :: "xatom list"

text \<open>
  What does not change while windows live: the connection, the atoms of the complete cache (the
  constructor of \<open>AtomCache\<close> checks that every one is there), the shadow's dimensions and the flag
  \<open>window_drop_shadows\<close>.
\<close>

record 'x wmctx =
  wm_xconn :: "'x xconn"
  wm_atom :: "Atom \<Rightarrow> xatom"
  wm_ipc_ctx :: wm_ipc
  wm_shadow_dims :: shadow_dims
  FLAGS_window_drop_shadows :: bool

text \<open>\<open>XidStr\<close> of \<open>util.cc\<close>: hexadecimal digits after 0x.\<close>

definition hex_digit :: "nat \<Rightarrow> char" where
  "hex_digit d = ''0123456789abcdef'' ! d"

fun hex_digits :: "nat \<Rightarrow> string" where
  "hex_digits n = (if n < 16 then [hex_digit n] else hex_digits (n div 16) @ [hex_digit (n mod 16)])"

declare hex_digits.simps [simp del]

definition XidStr :: "xid \<Rightarrow> string" where
  "XidStr xid = ''0x'' @ hex_digits xid"

section \<open>Client and composited geometry\<close>

abbreviation win_shadow :: "window \<Rightarrow> shadow_owner" where
  "win_shadow win \<equiv> WindowShadow (w_xid win)"

definition with_shadow :: "('x env \<Rightarrow> 'x env) \<Rightarrow> window \<Rightarrow> 'x env \<Rightarrow> 'x env" where
  "with_shadow f win e = (if w_shadow win \<noteq> None then f e else e)"

definition Window_SetTitle :: "string \<Rightarrow> window \<times> 'x env \<Rightarrow> window \<times> 'x env" where
  "Window_SetTitle title we = (case we of (win, e) \<Rightarrow>
     (win\<lparr>w_title := title\<rparr>,
      call (WindowActor (w_xid win))
        (SetName (if title = [] then ''window '' @ w_xid_str win
                  else ''window '' @ [CHR 0x27] @ title @ [CHR 0x27] @ '' ('' @ w_xid_str win @ '')'')) e))"

definition Window_Redirect :: "window \<times> 'x env \<Rightarrow> window \<times> 'x env" where
  "Window_Redirect we = (case we of (win, e) \<Rightarrow>
     (win\<lparr>w_redirected := True\<rparr>, call (WindowActor (w_xid win)) (SetTexturePixmapWindow (w_xid win)) e))"

definition SaveClientPosition :: "int \<Rightarrow> int \<Rightarrow> window \<Rightarrow> window" where
  "SaveClientPosition x y win = win\<lparr>client_x := x, client_y := y\<rparr>"

text \<open>The size of the shadow: the scaled size of the client, converted to \<open>int\<close> in the call.\<close>

definition resize_shadow :: "('x, 'c) wmctx_scheme \<Rightarrow> int \<Rightarrow> window \<Rightarrow> 'x env \<Rightarrow> 'x env" where
  "resize_shadow C anim_ms win =
     with_shadow (Shadow_Resize (wm_shadow_dims C) (win_shadow win)
       (dbl_to_int (dbl_mult (composited_scale_x win) (of_int (client_width win))))
       (dbl_to_int (dbl_mult (composited_scale_y win) (of_int (client_height win)))) anim_ms) win"

definition SaveClientAndCompositedSize :: "('x, 'c) wmctx_scheme \<Rightarrow> int \<Rightarrow> int \<Rightarrow> window \<times> 'x env \<Rightarrow> window \<times> 'x env" where
  "SaveClientAndCompositedSize C width height we = (case we of (win, e) \<Rightarrow>
     (let win = win\<lparr>client_width := width, client_height := height\<rparr>;
          e = call (WindowActor (w_xid win)) (SetSize width height) e
      in (win, resize_shadow C 0 win e)))"

definition MoveClient :: "('x, 'c) wmctx_scheme \<Rightarrow> int \<Rightarrow> int \<Rightarrow> window \<times> 'x env \<Rightarrow> bool \<times> window \<times> 'x env" where
  "MoveClient C x y we = (case we of (win, e) \<Rightarrow>
     (case request (wm_xconn C) (MoveWindow (w_xid win) x y) e of (ok, e) \<Rightarrow>
        if \<not> ok then (False, win, e) else (True, SaveClientPosition x y win, e)))"

text \<open>The screen's size is an argument.\<close>

definition MoveClientOffscreen :: "('x, 'c) wmctx_scheme \<Rightarrow> int \<times> int \<Rightarrow> window \<times> 'x env \<Rightarrow> bool \<times> window \<times> 'x env" where
  "MoveClientOffscreen C screen we = MoveClient C (fst screen) (snd screen) we"

definition MoveClientToComposited :: "('x, 'c) wmctx_scheme \<Rightarrow> window \<times> 'x env \<Rightarrow> bool \<times> window \<times> 'x env" where
  "MoveClientToComposited C we = MoveClient C (composited_x (fst we)) (composited_y (fst we)) we"

definition CenterClientOverWindow :: "('x, 'c) wmctx_scheme \<Rightarrow> window \<Rightarrow> window \<times> 'x env \<Rightarrow> bool \<times> window \<times> 'x env" where
  "CenterClientOverWindow C owner we =
     (let center_x = dbl_to_int (dbl_add (of_int (client_x owner)) (dbl_mult (1/2) (of_int (client_width owner))));
          center_y = dbl_to_int (dbl_add (of_int (client_y owner)) (dbl_mult (1/2) (of_int (client_height owner))))
      in MoveClient C
           (dbl_to_int (dbl_sub (of_int center_x) (dbl_mult (1/2) (of_int (client_width (fst we))))))
           (dbl_to_int (dbl_sub (of_int center_y) (dbl_mult (1/2) (of_int (client_height (fst we)))))) we)"

definition MoveComposited :: "int \<Rightarrow> int \<Rightarrow> int \<Rightarrow> window \<times> 'x env \<Rightarrow> window \<times> 'x env" where
  "MoveComposited x y anim_ms we = (case we of (win, e) \<Rightarrow>
     (let win = win\<lparr>composited_x := x, composited_y := y\<rparr>;
          e = call (WindowActor (w_xid win)) (Move x y anim_ms) e
      in (win, with_shadow (Shadow_Move (win_shadow win) x y anim_ms) win e)))"

definition MoveCompositedX :: "int \<Rightarrow> int \<Rightarrow> window \<times> 'x env \<Rightarrow> window \<times> 'x env" where
  "MoveCompositedX x anim_ms we = (case we of (win, e) \<Rightarrow>
     (let win = win\<lparr>composited_x := x\<rparr>;
          e = call (WindowActor (w_xid win)) (MoveX x anim_ms) e
      in (win, with_shadow (Shadow_MoveX (win_shadow win) x anim_ms) win e)))"

definition MoveCompositedY :: "int \<Rightarrow> int \<Rightarrow> window \<times> 'x env \<Rightarrow> window \<times> 'x env" where
  "MoveCompositedY y anim_ms we = (case we of (win, e) \<Rightarrow>
     (let win = win\<lparr>composited_y := y\<rparr>;
          e = call (WindowActor (w_xid win)) (MoveY y anim_ms) e
      in (win, with_shadow (Shadow_MoveY (win_shadow win) y anim_ms) win e)))"

definition ResizeClient :: "('x, 'c) wmctx_scheme \<Rightarrow> int \<Rightarrow> int \<Rightarrow> Gravity \<Rightarrow> window \<times> 'x env \<Rightarrow> bool \<times> window \<times> 'x env" where
  "ResizeClient C width height gravity we = (case we of (win, e) \<Rightarrow>
     (let dx = (if gravity = GRAVITY_NORTHEAST \<or> gravity = GRAVITY_SOUTHEAST then width - client_width win else 0);
          dy = (if gravity = GRAVITY_SOUTHWEST \<or> gravity = GRAVITY_SOUTHEAST then height - client_height win else 0)
      in if dx \<noteq> 0 \<or> dy \<noteq> 0 then
           (case request (wm_xconn C)
                   (ConfigureWindow (w_xid win) (client_x win - dx) (client_y win - dy) width height) e of
              (ok, e) \<Rightarrow>
                if \<not> ok then (False, win, e)
                else
                  (let win = SaveClientPosition (client_x win - dx) (client_y win - dy) win;
                       we = MoveComposited
                         (dbl_to_int (dbl_sub (of_int (composited_x win)) (dbl_mult (composited_scale_x win) (of_int dx))))
                         (dbl_to_int (dbl_sub (of_int (composited_y win)) (dbl_mult (composited_scale_y win) (of_int dy))))
                         0 (win, e)
                   in (True, SaveClientAndCompositedSize C width height we)))
         else
           (case request (wm_xconn C) (ResizeWindow (w_xid win) width height) e of
              (ok, e) \<Rightarrow>
                if \<not> ok then (False, win, e)
                else (True, SaveClientAndCompositedSize C width height (win, e)))))"

text \<open>\<open>*width_out\<close> or \<open>*height_out\<close>, from the hints for one dimension.\<close>

definition max_extent :: "int \<Rightarrow> int \<Rightarrow> int \<Rightarrow> int \<Rightarrow> int \<Rightarrow> int" where
  "max_extent desired min_size max_size increment base =
     (let desired = (if max_size > 0 then min max_size desired else desired);
          desired = (if min_size > 0 then max min_size desired else desired)
      in if increment > 0 then
           (let base = (if base > 0 then base else if min_size > 0 then min_size else 0)
            in base + ((desired - base) sdiv increment) * increment)
         else desired)"

definition GetMaxSize :: "int \<Rightarrow> int \<Rightarrow> window \<Rightarrow> (int \<times> int) option" where
  "GetMaxSize desired_width desired_height win = do {
     CHECK (desired_width > 0);
     CHECK (desired_height > 0);
     let h = w_size_hints win;
     Some (max_extent desired_width (sh_min_width h) (sh_max_width h) (sh_width_increment h) (sh_base_width h),
           max_extent desired_height (sh_min_height h) (sh_max_height h) (sh_height_increment h) (sh_base_height h)) }"

definition MapClient :: "('x, 'c) wmctx_scheme \<Rightarrow> window \<times> 'x env \<Rightarrow> bool \<times> window \<times> 'x env" where
  "MapClient C we = (case we of (win, e) \<Rightarrow>
     (case request (wm_xconn C) (MapWindow (w_xid win)) e of (ok, e) \<Rightarrow> (ok, win, e)))"

definition UnmapClient :: "('x, 'c) wmctx_scheme \<Rightarrow> window \<times> 'x env \<Rightarrow> bool \<times> window \<times> 'x env" where
  "UnmapClient C we = (case we of (win, e) \<Rightarrow>
     (case request (wm_xconn C) (UnmapWindow (w_xid win)) e of (ok, e) \<Rightarrow> (ok, win, e)))"

definition RaiseClient :: "('x, 'c) wmctx_scheme \<Rightarrow> window \<times> 'x env \<Rightarrow> bool \<times> window \<times> 'x env" where
  "RaiseClient C we = (case we of (win, e) \<Rightarrow>
     (case request (wm_xconn C) (RaiseWindow (w_xid win)) e of (ok, e) \<Rightarrow> (ok, win, e)))"

definition StackClientAbove :: "('x, 'c) wmctx_scheme \<Rightarrow> xid \<Rightarrow> window \<times> 'x env \<Rightarrow> (bool \<times> window \<times> 'x env) option" where
  "StackClientAbove C sibling we = (case we of (win, e) \<Rightarrow> do {
     CHECK (sibling \<noteq> XNone);
     let (ok, e) = request (wm_xconn C) (StackWindow (w_xid win) sibling True) e;
     Some (ok, win, e) })"

definition StackClientBelow :: "('x, 'c) wmctx_scheme \<Rightarrow> xid \<Rightarrow> window \<times> 'x env \<Rightarrow> (bool \<times> window \<times> 'x env) option" where
  "StackClientBelow C sibling we = (case we of (win, e) \<Rightarrow> do {
     CHECK (sibling \<noteq> XNone);
     let (ok, e) = request (wm_xconn C) (StackWindow (w_xid win) sibling False) e;
     Some (ok, win, e) })"

section \<open>Appearance\<close>

definition ShowComposited :: "window \<times> 'x env \<Rightarrow> window \<times> 'x env" where
  "ShowComposited we = (case we of (win, e) \<Rightarrow>
     (let e = call (WindowActor (w_xid win)) (SetVisibility True) e;
          win = win\<lparr>composited_shown := True\<rparr>
      in case w_shadow win of
           None \<Rightarrow> (win, e)
         | Some s \<Rightarrow>
             if using_shadow win
             then (case Shadow_Show (win_shadow win) (s, e) of (s, e) \<Rightarrow> (win\<lparr>w_shadow := Some s\<rparr>, e))
             else (win, e)))"

definition HideComposited :: "window \<times> 'x env \<Rightarrow> window \<times> 'x env" where
  "HideComposited we = (case we of (win, e) \<Rightarrow>
     (let e = call (WindowActor (w_xid win)) (SetVisibility False) e;
          win = win\<lparr>composited_shown := False\<rparr>
      in case w_shadow win of
           None \<Rightarrow> (win, e)
         | Some s \<Rightarrow>
             if using_shadow win
             then (case Shadow_Hide (win_shadow win) (s, e) of (s, e) \<Rightarrow> (win\<lparr>w_shadow := Some s\<rparr>, e))
             else (win, e)))"

definition set_shadow_opacity :: "double \<Rightarrow> int \<Rightarrow> window \<times> 'x env \<Rightarrow> window \<times> 'x env" where
  "set_shadow_opacity opacity anim_ms we = (case we of (win, e) \<Rightarrow>
     (case w_shadow win of
        None \<Rightarrow> (win, e)
      | Some s \<Rightarrow>
          (case Shadow_SetOpacity (win_shadow win) opacity anim_ms (s, e) of
             (s, e) \<Rightarrow> (win\<lparr>w_shadow := Some s\<rparr>, e))))"

definition SetCompositedOpacity :: "double \<Rightarrow> int \<Rightarrow> window \<times> 'x env \<Rightarrow> window \<times> 'x env" where
  "SetCompositedOpacity opacity anim_ms we = (case we of (win, e) \<Rightarrow>
     (let win = win\<lparr>composited_opacity := opacity\<rparr>;
          combined_opacity = dbl_mult (composited_opacity win) (client_opacity win);
          win = win\<lparr>shadow_opacity := combined_opacity\<rparr>;
          e = call (WindowActor (w_xid win)) (SetOpacity combined_opacity anim_ms) e
      in set_shadow_opacity (shadow_opacity win) anim_ms (win, e)))"

definition ScaleComposited :: "('x, 'c) wmctx_scheme \<Rightarrow> double \<Rightarrow> double \<Rightarrow> int \<Rightarrow> window \<times> 'x env \<Rightarrow> window \<times> 'x env" where
  "ScaleComposited C scale_x scale_y anim_ms we = (case we of (win, e) \<Rightarrow>
     (let win = win\<lparr>composited_scale_x := scale_x, composited_scale_y := scale_y\<rparr>;
          e = call (WindowActor (w_xid win)) (Scale scale_x scale_y anim_ms) e
      in (win, resize_shadow C anim_ms win e)))"

definition Window_SetShadowOpacity :: "double \<Rightarrow> int \<Rightarrow> window \<times> 'x env \<Rightarrow> window \<times> 'x env" where
  "Window_SetShadowOpacity opacity anim_ms we = (case we of (win, e) \<Rightarrow>
     set_shadow_opacity opacity anim_ms (win\<lparr>shadow_opacity := opacity\<rparr>, e))"

text \<open>The null pointer for an actor is \<^term>\<open>None\<close>.\<close>

definition stack_shadow :: "actor option \<Rightarrow> bool \<Rightarrow> window \<Rightarrow> 'x env \<Rightarrow> 'x env" where
  "stack_shadow shadow_actor stack_above_shadow_actor win =
     with_shadow
       (case shadow_actor of
          None \<Rightarrow> call (ShadowActor (win_shadow win) Sh_group) (Lower (WindowActor (w_xid win)))
        | Some a \<Rightarrow>
            call (ShadowActor (win_shadow win) Sh_group) (if stack_above_shadow_actor then Raise a else Lower a)) win"

definition StackCompositedAbove :: "actor option \<Rightarrow> actor option \<Rightarrow> bool \<Rightarrow> window \<times> 'x env \<Rightarrow> window \<times> 'x env" where
  "StackCompositedAbove actor shadow_actor stack_above_shadow_actor we = (case we of (win, e) \<Rightarrow>
     (let e = (case actor of None \<Rightarrow> e | Some a \<Rightarrow> call (WindowActor (w_xid win)) (Raise a) e)
      in (win, stack_shadow shadow_actor stack_above_shadow_actor win e)))"

definition StackCompositedBelow :: "actor option \<Rightarrow> actor option \<Rightarrow> bool \<Rightarrow> window \<times> 'x env \<Rightarrow> window \<times> 'x env" where
  "StackCompositedBelow actor shadow_actor stack_above_shadow_actor we = (case we of (win, e) \<Rightarrow>
     (let e = (case actor of None \<Rightarrow> e | Some a \<Rightarrow> call (WindowActor (w_xid win)) (Lower a) e)
      in (win, stack_shadow shadow_actor stack_above_shadow_actor win e)))"

definition GetBottomActor :: "window \<Rightarrow> actor" where
  "GetBottomActor win =
     (if w_shadow win \<noteq> None then ShadowActor (win_shadow win) Sh_group else WindowActor (w_xid win))"

definition should_use_shadow :: "window \<Rightarrow> bool" where
  "should_use_shadow win \<longleftrightarrow>
     \<not> w_override_redirect win \<and> w_type win \<noteq> WINDOW_TYPE_CHROME_FLOATING_TAB \<and>
     w_type win \<noteq> WINDOW_TYPE_CHROME_INFO_BUBBLE \<and> w_type win \<noteq> WINDOW_TYPE_CHROME_TAB_SUMMARY \<and>
     w_type win \<noteq> WINDOW_TYPE_CREATE_BROWSER_WINDOW \<and> \<not> w_shaped win"

definition UpdateShadowIfNecessary :: "window \<times> 'x env \<Rightarrow> window \<times> 'x env" where
  "UpdateShadowIfNecessary we = (case we of (win, e) \<Rightarrow>
     (case w_shadow win of
        None \<Rightarrow> (win, e)
      | Some s \<Rightarrow>
          if \<not> should_use_shadow win \<and> using_shadow win then
            (case Shadow_Hide (win_shadow win) (s, e) of
               (s, e) \<Rightarrow> (win\<lparr>w_shadow := Some s, using_shadow := False\<rparr>, e))
          else if should_use_shadow win \<and> \<not> using_shadow win then
            (case (if composited_shown win then Shadow_Show (win_shadow win) (s, e) else (s, e)) of
               (s, e) \<Rightarrow> (win\<lparr>w_shadow := Some s, using_shadow := True\<rparr>, e))
          else (win, e)))"

section \<open>Properties of the client\<close>

definition FetchAndApplySizeHints :: "('x, 'c) wmctx_scheme \<Rightarrow> window \<times> 'x env \<Rightarrow> bool \<times> window \<times> 'x env" where
  "FetchAndApplySizeHints C we = (case we of (win, e) \<Rightarrow>
     (case GetSizeHintsForWindow (wm_xconn C) (w_xid win) (es_x e) of (ok, hints) \<Rightarrow>
        (let win = win\<lparr>w_size_hints := hints\<rparr>
         in if \<not> ok then (False, win, e)
            else if \<not> w_mapped win \<and> \<not> w_override_redirect win \<and> sh_width hints > 0 \<and> sh_height hints > 0
            then (True, snd (ResizeClient C (sh_width hints) (sh_height hints) GRAVITY_NORTHWEST (win, e)))
            else (True, win, e))))"

definition FetchAndApplyTransientHint :: "('x, 'c) wmctx_scheme \<Rightarrow> window \<times> 'x env \<Rightarrow> (bool \<times> window \<times> 'x env) option" where
  "FetchAndApplyTransientHint C we = (case we of (win, e) \<Rightarrow> do {
     hint \<leftarrow> GetTransientHintForWindow (wm_xconn C) (w_xid win) (es_x e);
     case hint of
       None \<Rightarrow> Some (False, win, e)
     | Some owner \<Rightarrow> Some (True, win\<lparr>w_transient_for_xid := owner\<rparr>, e) })"

text \<open>\<open>WmIpc::GetWindowType\<close> leaves the type as it is when the property is missing.\<close>

definition FetchAndApplyWindowType ::
    "('x, 'c) wmctx_scheme \<Rightarrow> bool \<Rightarrow> window \<times> 'x env \<Rightarrow> (bool \<times> window \<times> 'x env) option" where
  "FetchAndApplyWindowType C update_shadow we = (case we of (win, e) \<Rightarrow> do {
     t \<leftarrow> GetWindowType (wm_xconn C) (wm_ipc_ctx C) (w_xid win) (es_x e);
     let (result, win) =
       (case t of None \<Rightarrow> (False, win) | Some (type, params) \<Rightarrow> (True, win\<lparr>w_type := type, w_type_params := params\<rparr>));
     Some (result, if update_shadow then UpdateShadowIfNecessary (win, e) else (win, e)) })"

definition kMaxOpacity :: int where "kMaxOpacity = 2 ^ 32 - 1"

definition FetchAndApplyWindowOpacity :: "('x, 'c) wmctx_scheme \<Rightarrow> window \<times> 'x env \<Rightarrow> (window \<times> 'x env) option" where
  "FetchAndApplyWindowOpacity C we = (case we of (win, e) \<Rightarrow> do {
     v \<leftarrow> GetIntProperty (wm_xconn C) (w_xid win) (wm_atom C ATOM_NET_WM_WINDOW_OPACITY) (es_x e);
     let opacity = (case v of None \<Rightarrow> kMaxOpacity | Some i \<Rightarrow> i mod 2 ^ 32);
     let win = win\<lparr>client_opacity :=
       (if opacity = kMaxOpacity then 1 else dbl_div (of_int opacity) (of_int kMaxOpacity))\<rparr>;
     Some (SetCompositedOpacity (composited_opacity win) 0 (win, e)) })"

text \<open>\<open>wm_hints[0]\<close> is undefined for an empty vector.\<close>

definition FetchAndApplyWmHints :: "('x, 'c) wmctx_scheme \<Rightarrow> window \<times> 'x env \<Rightarrow> (window \<times> 'x env) option" where
  "FetchAndApplyWmHints C we = (case we of (win, e) \<Rightarrow>
     (case GetIntArrayProperty (wm_xconn C) (w_xid win) (wm_atom C ATOM_WM_HINTS) (es_x e) of
        None \<Rightarrow> Some (win, e)
      | Some [] \<Rightarrow> None
      | Some (flags # _) \<Rightarrow> Some (win\<lparr>wm_hint_urgent := bit flags 8\<rparr>, e)))"

text \<open>
  The casts between \<open>int\<close> and the unsigned \<open>XAtom\<close> when atoms are read from and written to a
  property.
\<close>

definition atom_of_int :: "int \<Rightarrow> xatom" where
  "atom_of_int i = nat (i mod 2 ^ 32)"

definition int_of_atom :: "xatom \<Rightarrow> int" where
  "int_of_atom a = signed_take_bit 31 (int a)"

fun apply_protocols :: "('x, 'c) wmctx_scheme \<Rightarrow> int list \<Rightarrow> window \<Rightarrow> window" where
  "apply_protocols C [] win = win"
| "apply_protocols C (i # is) win =
     apply_protocols C is
       (if atom_of_int i = wm_atom C ATOM_WM_TAKE_FOCUS then win\<lparr>supports_wm_take_focus := True\<rparr>
        else if atom_of_int i = wm_atom C ATOM_WM_DELETE_WINDOW then win\<lparr>supports_wm_delete_window := True\<rparr>
        else win)"

definition FetchAndApplyWmProtocols :: "('x, 'c) wmctx_scheme \<Rightarrow> window \<times> 'x env \<Rightarrow> window \<times> 'x env" where
  "FetchAndApplyWmProtocols C we = (case we of (win, e) \<Rightarrow>
     (let win = win\<lparr>supports_wm_take_focus := False, supports_wm_delete_window := False\<rparr>
      in case GetIntArrayProperty (wm_xconn C) (w_xid win) (wm_atom C ATOM_WM_PROTOCOLS) (es_x e) of
           None \<Rightarrow> (win, e)
         | Some wm_protocols \<Rightarrow> (apply_protocols C wm_protocols win, e)))"

fun apply_wm_state :: "('x, 'c) wmctx_scheme \<Rightarrow> int list \<Rightarrow> window \<Rightarrow> window" where
  "apply_wm_state C [] win = win"
| "apply_wm_state C (i # is) win =
     (let atom = atom_of_int i;
          win = (if atom = wm_atom C ATOM_NET_WM_STATE_FULLSCREEN then win\<lparr>wm_state_fullscreen := True\<rparr> else win);
          win = (if atom = wm_atom C ATOM_NET_WM_STATE_MAXIMIZED_HORZ
                 then win\<lparr>wm_state_maximized_horz := True\<rparr> else win);
          win = (if atom = wm_atom C ATOM_NET_WM_STATE_MAXIMIZED_VERT then win\<lparr>wm_state_maximized_vert := True\<rparr>
                 else if atom = wm_atom C ATOM_NET_WM_STATE_MODAL then win\<lparr>wm_state_modal := True\<rparr> else win)
      in apply_wm_state C is win)"

definition FetchAndApplyWmState :: "('x, 'c) wmctx_scheme \<Rightarrow> window \<times> 'x env \<Rightarrow> window \<times> 'x env" where
  "FetchAndApplyWmState C we = (case we of (win, e) \<Rightarrow>
     (let win = win\<lparr>wm_state_fullscreen := False, wm_state_maximized_horz := False,
                    wm_state_maximized_vert := False, wm_state_modal := False\<rparr>
      in case GetIntArrayProperty (wm_xconn C) (w_xid win) (wm_atom C ATOM_NET_WM_STATE) (es_x e) of
           None \<Rightarrow> (win, e)
         | Some state_atoms \<Rightarrow> (apply_wm_state C state_atoms win, e)))"

definition FetchAndApplyChromeState :: "('x, 'c) wmctx_scheme \<Rightarrow> window \<times> 'x env \<Rightarrow> window \<times> 'x env" where
  "FetchAndApplyChromeState C we = (case we of (win, e) \<Rightarrow>
     (let win = win\<lparr>chrome_state_xatoms := []\<rparr>
      in case GetIntArrayProperty (wm_xconn C) (w_xid win) (wm_atom C ATOM_CHROME_STATE) (es_x e) of
           None \<Rightarrow> (win, e)
         | Some state_xatoms \<Rightarrow>
             (win\<lparr>chrome_state_xatoms := fold (\<lambda>i s. os_put (atom_of_int i) s) state_xatoms (chrome_state_xatoms win)\<rparr>,
              e)))"

text \<open>The constructor of \<open>ByteMap\<close> clears whatever its memory held.\<close>

definition FetchAndApplyShape :: "('x, 'c) wmctx_scheme \<Rightarrow> bool \<Rightarrow> window \<times> 'x env \<Rightarrow> (window \<times> 'x env) option" where
  "FetchAndApplyShape C update_shadow we = (case we of (win, e) \<Rightarrow> do {
     bytemap \<leftarrow> new_ByteMap (\<lambda>n. replicate (nat n) 0) (client_width win) (client_height win);
     let region = (if IsWindowShaped (wm_xconn C) (w_xid win) (es_x e)
                   then GetWindowBoundingRegion (wm_xconn C) (w_xid win) bytemap (es_x e) else None);
     let win = win\<lparr>w_shaped := region \<noteq> None\<rparr>;
     let e = call (WindowActor (w_xid win)) (case region of None \<Rightarrow> ClearAlphaMask | Some b \<Rightarrow> SetAlphaMask b) e;
     Some (if update_shadow then UpdateShadowIfNecessary (win, e) else (win, e)) })"

definition FetchMapState :: "('x, 'c) wmctx_scheme \<Rightarrow> window \<times> 'x env \<Rightarrow> bool" where
  "FetchMapState C we =
     (case GetMapState (wm_xconn C) (w_xid (fst we)) (es_x (snd we)) of
        None \<Rightarrow> False
      | Some m \<Rightarrow> m \<noteq> MAP_STATE_UNMAPPED)"

definition SetWmStateInternal :: "int \<Rightarrow> bool \<Rightarrow> bool" where
  "SetWmStateInternal action value =
     (if action = 0 then False else if action = 1 then True else if action = 2 then \<not> value else value)"

definition set_prop :: "('x, 'c) wmctx_scheme \<Rightarrow> xatom \<Rightarrow> int list \<Rightarrow> window \<times> 'x env \<Rightarrow> bool \<times> window \<times> 'x env" where
  "set_prop C atom values we = (case we of (win, e) \<Rightarrow>
     if values \<noteq> [] then
       (case SetIntArrayProperty (wm_xconn C) (w_xid win) atom (wm_atom C ATOM_ATOM) values (es_x e) of
          (ok, x) \<Rightarrow> (ok, win, e\<lparr>es_x := x\<rparr>))
     else
       (case request (wm_xconn C) (DeletePropertyIfExists (w_xid win) atom) e of (ok, e) \<Rightarrow> (ok, win, e)))"

definition wm_state_values :: "('x, 'c) wmctx_scheme \<Rightarrow> window \<Rightarrow> int list" where
  "wm_state_values C win =
     (if wm_state_fullscreen win then [int_of_atom (wm_atom C ATOM_NET_WM_STATE_FULLSCREEN)] else []) @
     (if wm_state_maximized_horz win then [int_of_atom (wm_atom C ATOM_NET_WM_STATE_MAXIMIZED_HORZ)] else []) @
     (if wm_state_maximized_vert win then [int_of_atom (wm_atom C ATOM_NET_WM_STATE_MAXIMIZED_VERT)] else []) @
     (if wm_state_modal win then [int_of_atom (wm_atom C ATOM_NET_WM_STATE_MODAL)] else [])"

definition UpdateWmStateProperty :: "('x, 'c) wmctx_scheme \<Rightarrow> window \<times> 'x env \<Rightarrow> bool \<times> window \<times> 'x env" where
  "UpdateWmStateProperty C we = set_prop C (wm_atom C ATOM_NET_WM_STATE) (wm_state_values C (fst we)) we"

definition UpdateChromeStateProperty :: "('x, 'c) wmctx_scheme \<Rightarrow> window \<times> 'x env \<Rightarrow> bool \<times> window \<times> 'x env" where
  "UpdateChromeStateProperty C we =
     set_prop C (wm_atom C ATOM_CHROME_STATE) (map int_of_atom (chrome_state_xatoms (fst we))) we"

text \<open>\<open>data\<close> has five elements of type \<open>long\<close>, 32 bits on the target.\<close>

definition HandleWmStateMessage :: "('x, 'c) wmctx_scheme \<Rightarrow> int list \<Rightarrow> window \<times> 'x env \<Rightarrow> bool \<times> window \<times> 'x env" where
  "HandleWmStateMessage C data we = (case we of (win, e) \<Rightarrow>
     (let fullscreen_atom = wm_atom C ATOM_NET_WM_STATE_FULLSCREEN;
          win = (if atom_of_int (data ! 1) = fullscreen_atom \<or> atom_of_int (data ! 2) = fullscreen_atom
                 then win\<lparr>wm_state_fullscreen := SetWmStateInternal (data ! 0) (wm_state_fullscreen win)\<rparr> else win);
          modal_atom = wm_atom C ATOM_NET_WM_STATE_MODAL;
          win = (if atom_of_int (data ! 1) = modal_atom \<or> atom_of_int (data ! 2) = modal_atom
                 then win\<lparr>wm_state_modal := SetWmStateInternal (data ! 0) (wm_state_modal win)\<rparr> else win)
      in UpdateWmStateProperty C (win, e)))"

fun change_wm_states :: "('x, 'c) wmctx_scheme \<Rightarrow> (xatom \<times> bool) list \<Rightarrow> window \<Rightarrow> window" where
  "change_wm_states C [] win = win"
| "change_wm_states C ((xatom, b) # states) win =
     (let action = (if b then 1 else 0)
      in change_wm_states C states
           (if xatom = wm_atom C ATOM_NET_WM_STATE_FULLSCREEN
            then win\<lparr>wm_state_fullscreen := SetWmStateInternal action (wm_state_fullscreen win)\<rparr>
            else if xatom = wm_atom C ATOM_NET_WM_STATE_MAXIMIZED_HORZ
            then win\<lparr>wm_state_maximized_horz := SetWmStateInternal action (wm_state_maximized_horz win)\<rparr>
            else if xatom = wm_atom C ATOM_NET_WM_STATE_MAXIMIZED_VERT
            then win\<lparr>wm_state_maximized_vert := SetWmStateInternal action (wm_state_maximized_vert win)\<rparr>
            else if xatom = wm_atom C ATOM_NET_WM_STATE_MODAL
            then win\<lparr>wm_state_modal := SetWmStateInternal action (wm_state_modal win)\<rparr>
            else win))"

definition ChangeWmState :: "('x, 'c) wmctx_scheme \<Rightarrow> (xatom \<times> bool) list \<Rightarrow> window \<times> 'x env \<Rightarrow> bool \<times> window \<times> 'x env" where
  "ChangeWmState C states we = (case we of (win, e) \<Rightarrow>
     UpdateWmStateProperty C (change_wm_states C states win, e))"

fun change_chrome_states :: "(xatom \<times> bool) list \<Rightarrow> xatom list \<Rightarrow> xatom list" where
  "change_chrome_states [] s = s"
| "change_chrome_states ((xatom, b) # states) s =
     change_chrome_states states (if b then os_put xatom s else os_del xatom s)"

definition ChangeChromeState :: "('x, 'c) wmctx_scheme \<Rightarrow> (xatom \<times> bool) list \<Rightarrow> window \<times> 'x env \<Rightarrow> bool \<times> window \<times> 'x env" where
  "ChangeChromeState C states we = (case we of (win, e) \<Rightarrow>
     UpdateChromeStateProperty C (win\<lparr>chrome_state_xatoms := change_chrome_states states (chrome_state_xatoms win)\<rparr>, e))"

definition send_protocol :: "('x, 'c) wmctx_scheme \<Rightarrow> Atom \<Rightarrow> xtime \<Rightarrow> window \<times> 'x env \<Rightarrow> bool \<times> 'x env" where
  "send_protocol C atom timestamp we = (case we of (win, e) \<Rightarrow>
     (case SendClientMessageEvent (wm_xconn C) (w_xid win) (w_xid win) (wm_atom C ATOM_WM_PROTOCOLS)
             [int (wm_atom C atom), int timestamp, 0, 0, 0] 0 (es_x e) of
        (ok, x) \<Rightarrow> (ok, e\<lparr>es_x := x\<rparr>)))"

definition Window_TakeFocus :: "('x, 'c) wmctx_scheme \<Rightarrow> xtime \<Rightarrow> window \<times> 'x env \<Rightarrow> bool \<times> window \<times> 'x env" where
  "Window_TakeFocus C timestamp we = (case we of (win, e) \<Rightarrow>
     (case (if supports_wm_take_focus win then send_protocol C ATOM_WM_TAKE_FOCUS timestamp (win, e)
            else request (wm_xconn C) (FocusWindow (w_xid win) timestamp) e) of
        (ok, e) \<Rightarrow> if \<not> ok then (False, win, e) else (True, win\<lparr>w_focused := True\<rparr>, e)))"

definition SendDeleteRequest :: "('x, 'c) wmctx_scheme \<Rightarrow> xtime \<Rightarrow> window \<times> 'x env \<Rightarrow> bool \<times> window \<times> 'x env" where
  "SendDeleteRequest C timestamp we = (case we of (win, e) \<Rightarrow>
     if \<not> supports_wm_delete_window win then (False, win, e)
     else (case send_protocol C ATOM_WM_DELETE_WINDOW timestamp (win, e) of (ok, e) \<Rightarrow> (ok, win, e)))"

definition Window_AddButtonGrab :: "('x, 'c) wmctx_scheme \<Rightarrow> window \<times> 'x env \<Rightarrow> bool \<times> window \<times> 'x env" where
  "Window_AddButtonGrab C we = (case we of (win, e) \<Rightarrow>
     (case request (wm_xconn C) (AddButtonGrabOnWindow (w_xid win) AnyButton ButtonPressMask True) e of
        (ok, e) \<Rightarrow> (ok, win, e)))"

definition Window_RemoveButtonGrab :: "('x, 'c) wmctx_scheme \<Rightarrow> window \<times> 'x env \<Rightarrow> bool \<times> window \<times> 'x env" where
  "Window_RemoveButtonGrab C we = (case we of (win, e) \<Rightarrow>
     (case request (wm_xconn C) (RemoveButtonGrabOnWindow (w_xid win) AnyButton) e of (ok, e) \<Rightarrow> (ok, win, e)))"

section \<open>Constructor\<close>

text \<open>
  The constructor does not initialise \<open>focused_\<close>: \<open>junk\<close> is what the memory held. A window with no
  geometry keeps the default size, one by one.
\<close>

definition blank_window :: "('x, 'c) wmctx_scheme \<Rightarrow> bool \<Rightarrow> xid \<Rightarrow> bool \<Rightarrow> 'x env \<Rightarrow> window \<times> 'x env" where
  "blank_window C junk xid override_redirect e =
     (let (s, e) = (if FLAGS_window_drop_shadows C
                    then (case new_Shadow (wm_shadow_dims C) (WindowShadow xid) e of (s, e) \<Rightarrow> (Some s, e))
                    else (None, e))
      in (\<lparr>w_xid = xid, w_xid_str = XidStr xid, w_shadow = s, w_transient_for_xid = XNone,
           w_override_redirect = override_redirect, w_mapped = False, w_focused = junk, w_shaped = False,
           w_redirected = False, w_type = WINDOW_TYPE_UNKNOWN, w_type_params = [], client_x = -1, client_y = -1,
           client_width = 1, client_height = 1, client_opacity = 1, composited_shown = False,
           composited_x = -1, composited_y = -1, composited_scale_x = 1, composited_scale_y = 1,
           composited_opacity = 1, using_shadow = False, shadow_opacity = 1, w_title = [],
           w_size_hints = SizeHints_Reset, supports_wm_take_focus = False, supports_wm_delete_window = False,
           wm_state_fullscreen = False, wm_state_maximized_horz = False, wm_state_maximized_vert = False,
           wm_state_modal = False, wm_hint_urgent = False, chrome_state_xatoms = []\<rparr>, e))"

definition place_window :: "('x, 'c) wmctx_scheme \<Rightarrow> window \<times> 'x env \<Rightarrow> window \<times> 'x env" where
  "place_window C we = (case we of (win, e) \<Rightarrow>
     (let e = snd (request (wm_xconn C)
                (SelectInputOnWindow (w_xid win) (FocusChangeMask + PropertyChangeMask) True) e);
          e = snd (request (wm_xconn C) (SelectShapeEventsOnWindow (w_xid win)) e)
      in case GetWindowGeometry (wm_xconn C) (w_xid win) (es_x e) of
           None \<Rightarrow> (win, e)
         | Some g \<Rightarrow>
             (win\<lparr>client_x := geom_x g, composited_x := geom_x g, client_y := geom_y g, composited_y := geom_y g,
                  client_width := geom_width g, client_height := geom_height g\<rparr>,
              if geom_border_width g > 0
              then snd (request (wm_xconn C) (SetWindowBorderWidth (w_xid win) 0) e) else e)))"

definition draw_window :: "('x, 'c) wmctx_scheme \<Rightarrow> window \<times> 'x env \<Rightarrow> window \<times> 'x env" where
  "draw_window C we = (case we of (win, e) \<Rightarrow>
     (let a = WindowActor (w_xid win);
          e = calls [(a, Move (composited_x win) (composited_y win) 0),
                     (a, SetSize (client_width win) (client_height win)), (a, SetVisibility False)] e;
          (win, e) = Window_SetTitle (w_title win) (win, e);
          e = call Stage (AddActor a) e
      in case w_shadow win of
           None \<Rightarrow> (win, e)
         | Some s \<Rightarrow>
             (let g = ShadowActor (win_shadow win) Sh_group;
                  e = call g (SetName (''shadow group for window '' @ w_xid_str win)) e;
                  e = call Stage (AddActor g) e;
                  e = Shadow_Move (win_shadow win) (composited_x win) (composited_y win) 0 e;
                  (win, e) = set_shadow_opacity (shadow_opacity win) 0 (win, e)
              in (win, resize_shadow C 0 win e))))"

definition new_Window :: "('x, 'c) wmctx_scheme \<Rightarrow> bool \<Rightarrow> xid \<Rightarrow> bool \<Rightarrow> 'x env \<Rightarrow> (window \<times> 'x env) option" where
  "new_Window C junk xid override_redirect e = do {
     let we = draw_window C (place_window C (blank_window C junk xid override_redirect e));
     (_, we) \<leftarrow> FetchAndApplyWindowType C False we;
     we \<leftarrow> FetchAndApplyShape C True we;
     we \<leftarrow> FetchAndApplyWindowOpacity C we;
     let (_, we) = FetchAndApplySizeHints C we;
     let we = FetchAndApplyWmProtocols C we;
     let we = FetchAndApplyWmState C we;
     let we = FetchAndApplyChromeState C we;
     (_, we) \<leftarrow> FetchAndApplyTransientHint C we;
     FetchAndApplyWmHints C we }"

end
