(* ===== verification/WM_Window_Props.thy ===== *)
theory WM_Window_Props
  imports WM_Window
begin

text \<open>
  What \<open>WM_Window\<close> guarantees: resizing keeps the corner that the gravity names, \<open>GetMaxSize\<close>
  respects the hints where they are consistent, the state a window stores in its properties is the state
  read back, a window's shadow is drawn exactly when it should be, and how a client's empty property ends
  the program.
\<close>

section \<open>Resizing\<close>

text \<open>The coordinate that stays: the far edge when the gravity names it, the near one otherwise.\<close>

definition anchor_h :: "Gravity \<Rightarrow> int \<Rightarrow> int \<Rightarrow> int" where
  "anchor_h g x w = (if g = GRAVITY_NORTHEAST \<or> g = GRAVITY_SOUTHEAST then x + w else x)"

definition anchor_v :: "Gravity \<Rightarrow> int \<Rightarrow> int \<Rightarrow> int" where
  "anchor_v g y h = (if g = GRAVITY_SOUTHWEST \<or> g = GRAVITY_SOUTHEAST then y + h else y)"

definition small :: "int \<Rightarrow> bool" where
  "small i \<longleftrightarrow> \<bar>i\<bar> < 2 ^ 31"

lemma unscaled_shift:
  assumes "small x" "small a" "small b"
  shows "dbl_to_int (dbl_sub (of_int x) (dbl_mult 1 (of_int (a - b)))) = x - (a - b)"
proof -
  have "\<bar>a - b\<bar> < 2 ^ 53" "\<bar>x - (a - b)\<bar> < 2 ^ 53" using assms by (auto simp: small_def)
  then have m: "dbl_mult 1 (of_int (a - b)) = of_int (a - b)" and r: "rnd (of_int (x - (a - b))) = of_int (x - (a - b))"
    unfolding dbl_mult_def mult_1 using rnd_int by blast+
  have "dbl_sub (of_int x) (of_int (a - b)) = rnd (of_int (x - (a - b)))" by (simp add: dbl_sub_def)
  then show ?thesis by (simp only: m r dbl_to_int_int)
qed

lemmas client_ops = SaveClientAndCompositedSize_def MoveComposited_def SaveClientPosition_def Let_def

text \<open>
  C31: \<open>ResizeClient\<close> with a gravity keeps the corner that the gravity names where it is, of the
  client window and, unless the window is drawn scaled, of the composited one, and the window has the
  new size. When the X server refuses, the window is not changed.
\<close>

theorem ResizeClient_keeps_corner:
  assumes "ResizeClient C width height g (win, e) = (ok, win', e')"
    "composited_scale_x win = 1" "composited_scale_y win = 1"
    "small (composited_x win)" "small (composited_y win)" "small (client_width win)" "small (client_height win)"
    "small width" "small height"
  shows "(\<not> ok \<longrightarrow> win' = win) \<and>
    (ok \<longrightarrow> client_width win' = width \<and> client_height win' = height
      \<and> anchor_h g (client_x win') width = anchor_h g (client_x win) (client_width win)
      \<and> anchor_v g (client_y win') height = anchor_v g (client_y win) (client_height win)
      \<and> anchor_h g (composited_x win') width = anchor_h g (composited_x win) (client_width win)
      \<and> anchor_v g (composited_y win') height = anchor_v g (composited_y win) (client_height win))"
proof -
  have z: "small 0" by (simp add: small_def)
  note shift = unscaled_shift[OF assms(4) assms(8) assms(6)] unscaled_shift[OF assms(5) assms(9) assms(7)]
    unscaled_shift[OF assms(4) z z, simplified] unscaled_shift[OF assms(5) z z, simplified]
  from assms(1-3) show ?thesis
    by (cases g) (auto simp: ResizeClient_def client_ops anchor_h_def anchor_v_def shift
      simp del: of_int_diff split: prod.splits if_splits)
qed

definition demo_conn :: "nat xconn" where
  "demo_conn = \<lparr>GetAtoms = (\<lambda>_ x. (None, x)), GetAtomName = (\<lambda>_ _. None), GetSelectionOwner = (\<lambda>_ _. 0),
     GetIntArrayProperty = (\<lambda>_ _ _. None), SetIntArrayProperty = (\<lambda>_ _ _ _ x. (True, x)),
     SetStringProperty = (\<lambda>_ _ _ x. (True, x)), SendClientMessageEvent = (\<lambda>_ _ _ _ _ x. (True, x)),
     x_request = (\<lambda>_ x. (True, Suc x)), GetWindowGeometry = (\<lambda>_ _. None), GetMapState = (\<lambda>_ _. None),
     IsWindowShaped = (\<lambda>_ _. False), GetWindowBoundingRegion = (\<lambda>_ _ _. None),
     CreateWindow = (\<lambda>_ _ _ _ _ _ _ _ x. (x, Suc x)), WaitForPropertyChange = (\<lambda>_ x. (None, x)),
     QueryPointerPosition = (\<lambda>_. None)\<rparr>"

definition demo_ctx :: "nat wmctx" where
  "demo_ctx = \<lparr>wm_xconn = demo_conn, wm_atom = (\<lambda>_. 1),
     wm_ipc_ctx = \<lparr>ipc_cache = \<lparr>atom_to_xatom = (\<lambda>_. Some 1), xatom_to_string = []\<rparr>, ipc_wm_window = 0\<rparr>,
     wm_shadow_dims = \<lparr>kInset = 1, kTopHeight = 2, kBottomHeight = 2, kLeftWidth = 2, kRightWidth = 2\<rparr>,
     FLAGS_window_drop_shadows = False\<rparr>"

definition demo_window :: window where
  "demo_window = (fst (blank_window demo_ctx False 7 False \<lparr>es_x = 0, es_clutter = []\<rparr>))
     \<lparr>client_x := 100, client_y := 200, client_width := 30, client_height := 40, composited_x := 50\<rparr>"

lemma demo_window_fields:
  "composited_scale_x demo_window = 1" "composited_scale_y demo_window = 1" "composited_x demo_window = 50"
  "composited_y demo_window = -1" "client_x demo_window = 100" "client_y demo_window = 200"
  "client_width demo_window = 30" "client_height demo_window = 40" "w_xid demo_window = 7"
  "w_shadow demo_window = None" "w_size_hints demo_window = SizeHints_Reset"
  by (simp_all add: demo_window_def blank_window_def demo_ctx_def)

theorem ResizeClient_keeps_corner_witness:
  "\<exists>win' e'. ResizeClient demo_ctx 20 25 GRAVITY_SOUTHEAST (demo_window, \<lparr>es_x = 0, es_clutter = []\<rparr>) = (True, win', e')
     \<and> client_x win' = 110 \<and> composited_x win' = 60 \<and> client_y win' = 215"
proof -
  let ?e = "\<lparr>es_x = 0, es_clutter = []\<rparr> :: nat env"
  obtain ok win' e' where r: "ResizeClient demo_ctx 20 25 GRAVITY_SOUTHEAST (demo_window, ?e) = (ok, win', e')"
    by (metis prod_cases3)
  moreover from r have "ok"
    by (auto simp: ResizeClient_def demo_window_fields request_def demo_ctx_def demo_conn_def Let_def split: prod.splits)
  ultimately show ?thesis
    using ResizeClient_keeps_corner[OF r] by (auto simp: demo_window_fields small_def anchor_h_def anchor_v_def)
qed

section \<open>GetMaxSize\<close>

text \<open>The desired size within the limits of the hints, and the base from which increments count.\<close>

definition clamped :: "int \<Rightarrow> int \<Rightarrow> int \<Rightarrow> int" where
  "clamped desired lo hi =
     (let d = (if hi > 0 then min hi desired else desired) in if lo > 0 then max lo d else d)"

definition base_size :: "int \<Rightarrow> int \<Rightarrow> int" where
  "base_size base lo = (if base > 0 then base else if lo > 0 then lo else 0)"

text \<open>\<open>r\<close> is the largest size a window with these hints can have within \<open>desired\<close>.\<close>

definition best_size :: "int \<Rightarrow> int \<Rightarrow> int \<Rightarrow> int \<Rightarrow> int \<Rightarrow> int \<Rightarrow> bool" where
  "best_size desired lo hi inc base r \<longleftrightarrow>
     (let c = clamped desired lo hi; b = base_size base lo
      in if inc > 0 then b \<le> r \<and> r \<le> c \<and> c < r + inc \<and> inc dvd r - b else r = c)"

text \<open>Every value the computation goes through fits into 32 bits.\<close>

definition no_overflow :: "int \<Rightarrow> int \<Rightarrow> int \<Rightarrow> int \<Rightarrow> int \<Rightarrow> bool" where
  "no_overflow desired lo hi inc base \<longleftrightarrow>
     (let c = clamped desired lo hi; b = base_size base lo; q = (c - b) sdiv inc
      in small c \<and> small (c - b) \<and> (inc > 0 \<longrightarrow> small q \<and> small (q * inc) \<and> small (b + q * inc)))"

lemma max_extent_eq:
  "max_extent desired lo hi inc base =
     (if inc > 0 then base_size base lo + ((clamped desired lo hi - base_size base lo) sdiv inc) * inc
      else clamped desired lo hi)"
  by (simp add: max_extent_def clamped_def base_size_def Let_def)

lemma sdiv_pos: "(0 :: int) \<le> a \<Longrightarrow> 0 < b \<Longrightarrow> a sdiv b = a div b"
  by (simp add: signed_divide_int_def sgn_if)

lemma sdiv_neg: "(a :: int) < 0 \<Longrightarrow> 0 < b \<Longrightarrow> a sdiv b = - (- a div b)"
  by (simp add: signed_divide_int_def sgn_if)

lemma div_mult_bounds:
  fixes m :: int
  assumes "0 < b"
  shows "m div b * b \<le> m" "m < m div b * b + b"
  using assms pos_mod_bound[of b m] pos_mod_sign[of b m] by (simp_all flip: minus_mod_eq_div_mult)

lemma max_extent_best:
  assumes "desired > 0" "base_size base lo \<le> clamped desired lo hi"
  shows "best_size desired lo hi inc base (max_extent desired lo hi inc base)"
proof (cases "inc > 0")
  case True
  let ?d = "clamped desired lo hi - base_size base lo"
  have "?d div inc * inc \<le> ?d \<and> ?d < ?d div inc * inc + inc \<and> 0 \<le> ?d div inc"
    using True assms(2) div_mult_bounds[OF True, of ?d] by (simp add: pos_imp_zdiv_nonneg_iff)
  with True assms(2) show ?thesis
    by (auto simp: best_size_def max_extent_eq sdiv_pos Let_def)
qed (simp add: best_size_def max_extent_eq Let_def)

lemma sdiv_mult_bounds:
  fixes a :: int
  assumes "0 < b"
  shows "\<bar>a sdiv b\<bar> \<le> \<bar>a\<bar>" "\<bar>(a sdiv b) * b\<bar> \<le> \<bar>a\<bar>" "a < 0 \<Longrightarrow> a \<le> (a sdiv b) * b" "a < 0 \<Longrightarrow> (a sdiv b) * b \<le> 0"
    "0 \<le> a \<Longrightarrow> (a sdiv b) * b \<le> a" "0 \<le> a \<Longrightarrow> 0 \<le> (a sdiv b) * b"
proof -
  have d: "0 \<le> m div b * b" "m div b * b \<le> m" "0 \<le> m div b" "m div b \<le> m" if "0 \<le> m" for m :: int
    using that assms zdiv_mono2[of m 1 b] by (auto simp: div_mult_bounds pos_imp_zdiv_nonneg_iff)
  show "\<bar>a sdiv b\<bar> \<le> \<bar>a\<bar>" "\<bar>(a sdiv b) * b\<bar> \<le> \<bar>a\<bar>" "a < 0 \<Longrightarrow> a \<le> (a sdiv b) * b" "a < 0 \<Longrightarrow> (a sdiv b) * b \<le> 0"
    "0 \<le> a \<Longrightarrow> (a sdiv b) * b \<le> a" "0 \<le> a \<Longrightarrow> 0 \<le> (a sdiv b) * b"
    using d[of a] d[of "- a"] assms by (cases "0 \<le> a"; auto simp: sdiv_pos sdiv_neg abs_mult)+
qed

lemma max_extent_no_overflow:
  assumes "0 < desired" "desired < 2 ^ 31" "lo < 2 ^ 31" "base < 2 ^ 31"
  shows "no_overflow desired lo hi inc base"
proof -
  let ?c = "clamped desired lo hi" and ?b = "base_size base lo"
  have c: "0 < ?c" "?c < 2 ^ 31" using assms by (auto simp: clamped_def Let_def)
  have b: "0 \<le> ?b" "?b < 2 ^ 31" using assms by (auto simp: base_size_def)
  show ?thesis using c b sdiv_mult_bounds[of inc "?c - ?b"]
    unfolding no_overflow_def Let_def small_def
    by (cases "?c - ?b < 0") (auto simp del: One_nat_def)
qed

text \<open>
  C35: for sizes and hints of 32 bits \<open>GetMaxSize\<close> never overflows. Where the base size is not above
  the desired size (within the limits of the hints), each result is the largest size that the hints
  allow: between the base and the desired size, a whole number of increments from the base and less than
  one increment short.
\<close>

theorem GetMaxSize_best:
  assumes "0 < dw" "dw < 2 ^ 31" "0 < dh" "dh < 2 ^ 31"
    "sh_min_width h < 2 ^ 31" "sh_base_width h < 2 ^ 31" "sh_min_height h < 2 ^ 31" "sh_base_height h < 2 ^ 31"
    "h = w_size_hints win"
  shows "\<exists>w ht. GetMaxSize dw dh win = Some (w, ht)
    \<and> no_overflow dw (sh_min_width h) (sh_max_width h) (sh_width_increment h) (sh_base_width h)
    \<and> no_overflow dh (sh_min_height h) (sh_max_height h) (sh_height_increment h) (sh_base_height h)
    \<and> (base_size (sh_base_width h) (sh_min_width h) \<le> clamped dw (sh_min_width h) (sh_max_width h) \<longrightarrow>
         best_size dw (sh_min_width h) (sh_max_width h) (sh_width_increment h) (sh_base_width h) w)
    \<and> (base_size (sh_base_height h) (sh_min_height h) \<le> clamped dh (sh_min_height h) (sh_max_height h) \<longrightarrow>
         best_size dh (sh_min_height h) (sh_max_height h) (sh_height_increment h) (sh_base_height h) ht)"
  using assms max_extent_no_overflow[of dw] max_extent_no_overflow[of dh] max_extent_best[of dw] max_extent_best[of dh]
  by (simp add: GetMaxSize_def Let_def)

definition hinted_window :: "int \<Rightarrow> int \<Rightarrow> int \<Rightarrow> window" where
  "hinted_window lo inc base = demo_window
     \<lparr>w_size_hints := SizeHints_Reset\<lparr>sh_min_width := lo, sh_width_increment := inc, sh_base_width := base\<rparr>\<rparr>"

theorem GetMaxSize_best_witness:
  "GetMaxSize 100 100 (hinted_window 0 7 10) = Some (94, 100) \<and> best_size 100 0 (-1) 7 10 94"
  using GetMaxSize_best[of 100 100 "w_size_hints (hinted_window 0 7 10)" "hinted_window 0 7 10"]
  by (auto simp: hinted_window_def SizeHints_Reset_def base_size_def clamped_def GetMaxSize_def max_extent_eq sdiv_pos)

text \<open>
  with a base size above the desired one the division truncates upwards and the result is above the
  desired size, unless the difference is a whole number of increments. The comment of \<open>GetMaxSize\<close>
  promises a size smaller than or equal to the desired dimensions.
\<close>

theorem GetMaxSize_above_desired:
  assumes "h = w_size_hints win" "0 < dw" "0 < dh" "sh_min_width h \<le> 0" "dw < sh_base_width h"
    "0 < sh_width_increment h" "\<not> sh_width_increment h dvd sh_base_width h - dw" "sh_max_width h \<le> 0"
  shows "\<exists>w ht. GetMaxSize dw dh win = Some (w, ht) \<and> dw < w"
proof -
  let ?i = "sh_width_increment h" and ?r = "sh_base_width h - dw"
  have "?r div ?i * ?i < ?r" using div_mult_bounds(1)[OF assms(6), of ?r] assms(7) by (metis dvd_triv_right order_le_less)
  moreover have "(dw - sh_base_width h) sdiv ?i = - (?r div ?i)" using sdiv_neg[of "dw - sh_base_width h" ?i] assms by simp
  ultimately have "dw < max_extent dw (sh_min_width h) (sh_max_width h) ?i (sh_base_width h)"
    using assms by (simp add: max_extent_eq base_size_def clamped_def)
  with assms show ?thesis by (simp add: GetMaxSize_def Let_def)
qed

theorem GetMaxSize_above_desired_witness:
  "\<exists>w ht. GetMaxSize 50 50 (hinted_window 0 30 100) = Some (w, ht) \<and> 50 < w"
  by (rule GetMaxSize_above_desired[of "w_size_hints (hinted_window 0 30 100)"])
     (simp_all add: hinted_window_def SizeHints_Reset_def)

section \<open>State properties\<close>

text \<open>
  The X server keeps properties: a value that was set is read back, and a deleted property is gone.
\<close>

definition keeps_properties :: "('x, 'm) xconn_scheme \<Rightarrow> bool" where
  "keeps_properties X \<longleftrightarrow>
     (\<forall>xid a t vs x x'. vs \<noteq> [] \<longrightarrow> SetIntArrayProperty X xid a t vs x = (True, x') \<longrightarrow>
        GetIntArrayProperty X xid a x' = Some vs) \<and>
     (\<forall>xid a x x'. x_request X (DeletePropertyIfExists xid a) x = (True, x') \<longrightarrow> GetIntArrayProperty X xid a x' = None)"

definition atoms_ok :: "('x, 'c) wmctx_scheme \<Rightarrow> bool" where
  "atoms_ok C \<longleftrightarrow> inj (wm_atom C) \<and> (\<forall>a. wm_atom C a < 2 ^ 32)"

lemma atom_int_roundtrip: "a < 2 ^ 32 \<Longrightarrow> atom_of_int (int_of_atom a) = a"
proof -
  assume a: "a < 2 ^ 32"
  have "int_of_atom a mod 2 ^ 32 = take_bit 32 (int a)"
    unfolding int_of_atom_def take_bit_eq_mod[symmetric] by (rule take_bit_signed_take_bit) simp
  also have "\<dots> = int a" using a by (simp add: take_bit_eq_mod)
  finally show ?thesis by (simp add: atom_of_int_def)
qed

lemma set_prop_read:
  assumes "keeps_properties (wm_xconn C)" "set_prop C atom vs (win, e) = (True, win', e')"
  shows "win' = win" "GetIntArrayProperty (wm_xconn C) (w_xid win) atom (es_x e') = (if vs = [] then None else Some vs)"
  using assms by (auto simp: set_prop_def request_def keeps_properties_def split: if_splits prod.splits)

text \<open>Two windows with the same four state flags.\<close>

definition with_wm_state :: "window \<Rightarrow> window \<Rightarrow> window" where
  "with_wm_state win other = other\<lparr>wm_state_fullscreen := wm_state_fullscreen win,
     wm_state_maximized_horz := wm_state_maximized_horz win, wm_state_maximized_vert := wm_state_maximized_vert win,
     wm_state_modal := wm_state_modal win\<rparr>"

lemma apply_wm_state_values:
  assumes "atoms_ok C"
  shows "apply_wm_state C (wm_state_values C win)
      (other\<lparr>wm_state_fullscreen := False, wm_state_maximized_horz := False, wm_state_maximized_vert := False,
             wm_state_modal := False\<rparr>) = with_wm_state win other"
proof -
  have i: "wm_atom C a = wm_atom C b \<longleftrightarrow> a = b" for a b using assms by (simp add: atoms_ok_def inj_eq)
  have r: "atom_of_int (int_of_atom (wm_atom C a)) = wm_atom C a" for a
    using assms by (simp add: atoms_ok_def atom_int_roundtrip)
  show ?thesis
    by (cases "wm_state_fullscreen win"; cases "wm_state_maximized_horz win"; cases "wm_state_maximized_vert win";
        cases "wm_state_modal win") (simp_all add: wm_state_values_def with_wm_state_def i r)
qed

lemma UpdateWmStateProperty_read:
  assumes "keeps_properties (wm_xconn C)" "atoms_ok C" "w_xid other = w_xid win"
    "UpdateWmStateProperty C (win, e) = (True, win', e')"
  shows "win' = win" "FetchAndApplyWmState C (other, e') = (with_wm_state win other, e')"
  using set_prop_read[OF assms(1), of _ "wm_state_values C win" win e win' e'] assms(3,4)
    apply_wm_state_values[OF assms(2), of win other]
  by (auto simp: UpdateWmStateProperty_def FetchAndApplyWmState_def Let_def split: if_splits)

lemma change_wm_states_xid: "w_xid (change_wm_states C states win) = w_xid win"
  by (induction C states win rule: change_wm_states.induct) (simp_all add: Let_def)

lemma HandleWmStateMessage_update:
  assumes "HandleWmStateMessage C data (win, e) = (ok, win', e')"
  obtains win2 where "UpdateWmStateProperty C (win2, e) = (ok, win', e')" "w_xid win2 = w_xid win"
proof -
  let ?w = "if atom_of_int (data ! 1) = wm_atom C ATOM_NET_WM_STATE_FULLSCREEN \<or>
                atom_of_int (data ! 2) = wm_atom C ATOM_NET_WM_STATE_FULLSCREEN
            then win\<lparr>wm_state_fullscreen := SetWmStateInternal (data ! 0) (wm_state_fullscreen win)\<rparr> else win"
  let ?v = "if atom_of_int (data ! 1) = wm_atom C ATOM_NET_WM_STATE_MODAL \<or>
                atom_of_int (data ! 2) = wm_atom C ATOM_NET_WM_STATE_MODAL
            then ?w\<lparr>wm_state_modal := SetWmStateInternal (data ! 0) (wm_state_modal ?w)\<rparr> else ?w"
  have "UpdateWmStateProperty C (?v, e) = (ok, win', e')"
    using assms unfolding HandleWmStateMessage_def Let_def prod.case .
  moreover have "w_xid ?v = w_xid win" by simp
  ultimately show thesis by (rule that)
qed

lemma os_put_last: "\<forall>x\<in>set s. x < k \<Longrightarrow> os_put k s = s @ [k]"
  by (auto simp: os_put_def filter_id_conv filter_empty_conv)

lemma fold_os_put_atoms:
  assumes "os_ok (acc @ s)" "\<forall>a\<in>set s. a < 2 ^ 32"
  shows "fold (\<lambda>i. os_put (atom_of_int i)) (map int_of_atom s) acc = acc @ s"
  using assms
proof (induction s arbitrary: acc)
  case (Cons a s)
  then have "os_put a acc = acc @ [a]" by (intro os_put_last) (auto simp: os_ok_def sorted_wrt_append)
  with Cons.IH[of "acc @ [a]"] Cons.prems show ?case by (simp add: atom_int_roundtrip)
qed simp

lemma UpdateChromeStateProperty_read:
  assumes "keeps_properties (wm_xconn C)" "w_xid other = w_xid win" "os_ok (chrome_state_xatoms win)"
    "\<forall>a\<in>set (chrome_state_xatoms win). a < 2 ^ 32" "UpdateChromeStateProperty C (win, e) = (True, win', e')"
  shows "win' = win"
    "FetchAndApplyChromeState C (other, e') = (other\<lparr>chrome_state_xatoms := chrome_state_xatoms win\<rparr>, e')"
  using set_prop_read[OF assms(1), of _ "map int_of_atom (chrome_state_xatoms win)" win e win' e'] assms(2,5)
    fold_os_put_atoms[of "[]" "chrome_state_xatoms win"] assms(3,4)
  by (auto simp: UpdateChromeStateProperty_def FetchAndApplyChromeState_def split: if_splits)

lemma change_chrome_states_ok:
  assumes "os_ok s" "\<forall>a\<in>set s. a < n" "\<forall>p\<in>set states. fst p < n"
  shows "os_ok (change_chrome_states states s) \<and> (\<forall>a\<in>set (change_chrome_states states s). a < n)"
  using assms
proof (induction states arbitrary: s)
  case (Cons p states)
  obtain a b where p: "p = (a, b)" by force
  let ?s = "if b then os_put a s else os_del a s"
  have "os_ok ?s" using Cons.prems(1) by (simp add: container_simps)
  moreover have "\<forall>a\<in>set ?s. a < n" using Cons.prems by (simp add: container_simps p)
  ultimately show ?case using Cons.IH[of ?s] Cons.prems(3) by (simp add: p)
qed simp

text \<open>
  C34: the state a window keeps in its properties is the state read back from them. After a successful
  \<open>HandleWmStateMessage\<close>, \<open>ChangeWmState\<close> or \<open>ChangeChromeState\<close> on an X server that keeps
  properties, \<open>FetchAndApplyWmState\<close> or \<open>FetchAndApplyChromeState\<close>, by whatever object stands
  for the window, gives exactly the states the window has now.
\<close>

theorem window_state_roundtrip:
  assumes "keeps_properties (wm_xconn C)" "atoms_ok C" "w_xid other = w_xid win"
    "os_ok (chrome_state_xatoms win)" "\<forall>a\<in>set (chrome_state_xatoms win). a < 2 ^ 32" "\<forall>p\<in>set states. fst p < 2 ^ 32"
  shows "(HandleWmStateMessage C data (win, e) = (True, win', e') \<or> ChangeWmState C states (win, e) = (True, win', e') \<longrightarrow>
      FetchAndApplyWmState C (other, e') = (with_wm_state win' other, e')) \<and>
    (ChangeChromeState C states (win, e) = (True, win', e') \<longrightarrow>
      FetchAndApplyChromeState C (other, e') = (other\<lparr>chrome_state_xatoms := chrome_state_xatoms win'\<rparr>, e'))"
proof (intro conjI impI)
  have wm: "FetchAndApplyWmState C (other, e') = (with_wm_state win' other, e')"
    if "UpdateWmStateProperty C (win2, e) = (True, win', e')" "w_xid win2 = w_xid win" for win2
  proof -
    have x: "w_xid other = w_xid win2" using that(2) assms(3) by simp
    show ?thesis
      unfolding UpdateWmStateProperty_read(1)[OF assms(1,2) x that(1)]
      by (rule UpdateWmStateProperty_read(2)[OF assms(1,2) x that(1)])
  qed
  show "FetchAndApplyWmState C (other, e') = (with_wm_state win' other, e')"
    if "HandleWmStateMessage C data (win, e) = (True, win', e') \<or> ChangeWmState C states (win, e) = (True, win', e')"
    using that
  proof
    assume "HandleWmStateMessage C data (win, e) = (True, win', e')"
    then obtain win2 where "UpdateWmStateProperty C (win2, e) = (True, win', e')" "w_xid win2 = w_xid win"
      by (rule HandleWmStateMessage_update)
    then show ?thesis by (rule wm)
  next
    assume "ChangeWmState C states (win, e) = (True, win', e')"
    then have "UpdateWmStateProperty C (change_wm_states C states win, e) = (True, win', e')"
      by (simp add: ChangeWmState_def)
    then show ?thesis by (rule wm) (rule change_wm_states_xid)
  qed
  assume c: "ChangeChromeState C states (win, e) = (True, win', e')"
  let ?w = "win\<lparr>chrome_state_xatoms := change_chrome_states states (chrome_state_xatoms win)\<rparr>"
  have upd: "UpdateChromeStateProperty C (?w, e) = (True, win', e')" using c by (simp add: ChangeChromeState_def)
  have "w_xid other = w_xid ?w" "os_ok (chrome_state_xatoms ?w)" "\<forall>a\<in>set (chrome_state_xatoms ?w). a < 2 ^ 32"
    using assms(3) change_chrome_states_ok[OF assms(4,5,6)] by simp_all
  note read = UpdateChromeStateProperty_read[OF assms(1) this upd]
  show "FetchAndApplyChromeState C (other, e') = (other\<lparr>chrome_state_xatoms := chrome_state_xatoms win'\<rparr>, e')"
    unfolding read(1) by (rule read(2))
qed

text \<open>A server that keeps its properties in a map.\<close>

definition prop_conn :: "(xid \<times> xatom \<Rightarrow> int list option) xconn" where
  "prop_conn = \<lparr>GetAtoms = (\<lambda>_ x. (None, x)), GetAtomName = (\<lambda>_ _. None), GetSelectionOwner = (\<lambda>_ _. 0),
     GetIntArrayProperty = (\<lambda>xid a x. x (xid, a)),
     SetIntArrayProperty = (\<lambda>xid a t vs x. (True, x((xid, a) \<mapsto> vs))),
     SetStringProperty = (\<lambda>_ _ _ x. (True, x)), SendClientMessageEvent = (\<lambda>_ _ _ _ _ x. (True, x)),
     x_request = (\<lambda>r x. (True, case r of DeletePropertyIfExists xid a \<Rightarrow> x((xid, a) := None) | _ \<Rightarrow> x)),
     GetWindowGeometry = (\<lambda>_ _. None), GetMapState = (\<lambda>_ _. None),
     IsWindowShaped = (\<lambda>_ _. False), GetWindowBoundingRegion = (\<lambda>_ _ _. None),
     CreateWindow = (\<lambda>_ _ _ _ _ _ _ _ x. (1, x)), WaitForPropertyChange = (\<lambda>_ x. (None, x)),
     QueryPointerPosition = (\<lambda>_. None)\<rparr>"

definition prop_ctx :: "(xid \<times> xatom \<Rightarrow> int list option) wmctx" where
  "prop_ctx = \<lparr>wm_xconn = prop_conn, wm_atom = (\<lambda>a. length (takeWhile (\<lambda>i. fst i \<noteq> a) kAtomInfos)),
     wm_ipc_ctx = \<lparr>ipc_cache = \<lparr>atom_to_xatom = (\<lambda>_. Some 1), xatom_to_string = []\<rparr>, ipc_wm_window = 0\<rparr>,
     wm_shadow_dims = \<lparr>kInset = 1, kTopHeight = 2, kBottomHeight = 2, kLeftWidth = 2, kRightWidth = 2\<rparr>,
     FLAGS_window_drop_shadows = False\<rparr>"

lemma prop_ctx_ok: "keeps_properties (wm_xconn prop_ctx)" "atoms_ok prop_ctx"
proof -
  show "keeps_properties (wm_xconn prop_ctx)" by (simp add: keeps_properties_def prop_ctx_def prop_conn_def)
  have at: "fst (kAtomInfos ! wm_atom prop_ctx a) = a" "wm_atom prop_ctx a < 35" for a
  proof -
    obtain i where i: "i \<in> set kAtomInfos" "fst i = a" using kAtomInfos_facts(4)[of a] by auto
    then have l: "length (takeWhile (\<lambda>i. fst i \<noteq> a) kAtomInfos) < length kAtomInfos"
      by (metis (mono_tags, lifting) length_takeWhile_le le_neq_implies_less set_takeWhileD takeWhile_eq_take take_all_iff order_refl)
    from nth_length_takeWhile[OF l] l show "fst (kAtomInfos ! wm_atom prop_ctx a) = a" "wm_atom prop_ctx a < 35"
      using kAtomInfos_facts(3) by (simp_all add: prop_ctx_def)
  qed
  have "inj (wm_atom prop_ctx)" by (rule injI) (metis at(1))
  moreover have "wm_atom prop_ctx a < 2 ^ 32" for a using at(2)[of a] by simp
  ultimately show "atoms_ok prop_ctx" by (simp add: atoms_ok_def)
qed

lemma demo_window_chrome:
  "chrome_state_xatoms demo_window = []" "\<not> wm_state_fullscreen demo_window" "\<not> wm_state_maximized_horz demo_window"
  "\<not> wm_state_maximized_vert demo_window"
  by (simp_all add: demo_window_def blank_window_def demo_ctx_def)

theorem window_state_roundtrip_witness:
  "fst (FetchAndApplyWmState prop_ctx (demo_window, snd (snd (ChangeWmState prop_ctx
      [(wm_atom prop_ctx ATOM_NET_WM_STATE_MODAL, True)] (demo_window, \<lparr>es_x = (\<lambda>_. None), es_clutter = []\<rparr>)))))
    = demo_window\<lparr>wm_state_modal := True\<rparr>"
proof -
  let ?s = "[(wm_atom prop_ctx ATOM_NET_WM_STATE_MODAL, True)]"
  let ?e = "\<lparr>es_x = (\<lambda>_. None), es_clutter = []\<rparr> :: (xid \<times> xatom \<Rightarrow> int list option) env"
  obtain ok win' e' where r: "ChangeWmState prop_ctx ?s (demo_window, ?e) = (ok, win', e')" by (metis prod_cases3)
  have upd: "UpdateWmStateProperty prop_ctx (demo_window\<lparr>wm_state_modal := True\<rparr>, ?e) = (ok, win', e')"
    using r prop_ctx_ok(2) by (simp add: ChangeWmState_def atoms_ok_def inj_eq SetWmStateInternal_def)
  then have ok: "ok" "win' = demo_window\<lparr>wm_state_modal := True\<rparr>"
    by (simp_all add: UpdateWmStateProperty_def set_prop_def wm_state_values_def request_def prop_ctx_def prop_conn_def
        split: if_splits)
  have "FetchAndApplyWmState prop_ctx (demo_window, e') = (with_wm_state win' demo_window, e')"
    using window_state_roundtrip[OF prop_ctx_ok, of demo_window demo_window ?s "[]" ?e win' e'] r ok(1) prop_ctx_ok(2)
    by (simp add: demo_window_chrome os_ok_Nil atoms_ok_def)
  then show ?thesis using r ok(2) demo_window_chrome by (simp add: with_wm_state_def)
qed

section \<open>The shadow\<close>

text \<open>Whether an actor is visible after a sequence of calls: what its last \<open>SetVisibility\<close> said.\<close>

definition visible :: "actor \<Rightarrow> (actor \<times> actor_call) list \<Rightarrow> bool" where
  "visible a cs = fold (\<lambda>(b, c) v. if b = a then (case c of SetVisibility x \<Rightarrow> x | _ \<Rightarrow> v) else v) cs True"

lemma visible_call [simp]:
  "visible a (es_clutter (call b c e)) =
     (if b = a then (case c of SetVisibility x \<Rightarrow> x | _ \<Rightarrow> visible a (es_clutter e)) else visible a (es_clutter e))"
  unfolding visible_def call_def by simp

lemma calls_Cons: "calls (c # cs) e = calls cs (call (fst c) (snd c) e)"
  by (simp add: calls_def call_def)

lemma calls_Nil: "calls [] e = e"
  by (simp add: calls_def)

lemma visible_calls:
  assumes "\<forall>c\<in>set cs. fst c \<noteq> a \<or> \<not> (\<exists>x. snd c = SetVisibility x)"
  shows "visible a (es_clutter (calls cs e)) = visible a (es_clutter e)"
  using assms by (induction cs arbitrary: e) (auto simp: calls_Cons calls_Nil split: actor_call.split)

lemma clutter_request [simp]: "es_clutter (snd (request X r e)) = es_clutter e"
  by (simp add: request_def split: prod.splits)

lemma clutter_request': "request X r e = (ok, e') \<Longrightarrow> es_clutter e' = es_clutter e"
  by (auto simp: request_def split: prod.splits)

text \<open>The part of a window and its surroundings that the drawing of the shadow depends on.\<close>

definition shadow_view ::
    "window \<times> 'x env \<Rightarrow> xid \<times> shadow option \<times> bool \<times> bool \<times> bool \<times> double \<times> bool \<times> bool" where
  "shadow_view we = (case we of (win, e) \<Rightarrow>
     (w_xid win, w_shadow win, should_use_shadow win, composited_shown win, using_shadow win, shadow_opacity win,
      visible (WindowActor (w_xid win)) (es_clutter e),
      visible (ShadowActor (win_shadow win) Sh_group) (es_clutter e)))"

text \<open>
  The actors show what the window's members say, and the window has a visible shadow exactly when it is
  shown itself and of a kind that casts one.
\<close>

definition shadow_inv :: "window \<times> 'x env \<Rightarrow> bool" where
  "shadow_inv we \<longleftrightarrow> (case shadow_view we of (xid, s, should, shown, using_sh, op, win_vis, sh_vis) \<Rightarrow>
     win_vis = shown \<and>
     (case s of
        None \<Rightarrow> True
      | Some s \<Rightarrow> using_sh = should \<and> sw_is_shown s = (should \<and> shown) \<and> sh_vis = sw_is_shown s \<and> sw_opacity s = op))"

text \<open>Operations that leave all of this alone.\<close>

lemma view_shadow_moves [simp]:
  "visible a (es_clutter (Shadow_Move own x y ms e)) = visible a (es_clutter e)"
  "visible a (es_clutter (Shadow_MoveX own x ms e)) = visible a (es_clutter e)"
  "visible a (es_clutter (Shadow_MoveY own y ms e)) = visible a (es_clutter e)"
  "visible a (es_clutter (Shadow_Resize D own w h ms e)) = visible a (es_clutter e)"
  by (simp_all add: Shadow_Move_def Shadow_MoveX_def Shadow_MoveY_def Shadow_Resize_def visible_calls)

lemma visible_resize_shadow [simp]: "visible a (es_clutter (resize_shadow C ms win e)) = visible a (es_clutter e)"
  by (simp add: resize_shadow_def with_shadow_def)

lemma view_geometry:
  "shadow_view (Window_SetTitle t we) = shadow_view we"
  "shadow_view (Window_Redirect we) = shadow_view we"
  "shadow_view (SaveClientAndCompositedSize C w h we) = shadow_view we"
  "shadow_view (MoveComposited x y ms we) = shadow_view we"
  "shadow_view (MoveCompositedX x ms we) = shadow_view we"
  "shadow_view (MoveCompositedY y ms we) = shadow_view we"
  "shadow_view (ScaleComposited C sx sy ms we) = shadow_view we"
  "shadow_view (SaveClientPosition x y win, e) = shadow_view (win, e)"
  by (cases we; simp add: shadow_view_def should_use_shadow_def with_shadow_def Let_def SaveClientPosition_def
      Window_SetTitle_def Window_Redirect_def SaveClientAndCompositedSize_def MoveComposited_def MoveCompositedX_def
      MoveCompositedY_def ScaleComposited_def)+

lemma view_env:
  "es_clutter e' = es_clutter e \<Longrightarrow> shadow_view (win, e') = shadow_view (win, e)"
  by (simp add: shadow_view_def)

lemma view_client:
  "shadow_view (snd (MoveClient C x y we)) = shadow_view we"
  "shadow_view (snd (MapClient C we)) = shadow_view we"
  "shadow_view (snd (UnmapClient C we)) = shadow_view we"
  "shadow_view (snd (RaiseClient C we)) = shadow_view we"
  "shadow_view (snd (Window_AddButtonGrab C we)) = shadow_view we"
  "shadow_view (snd (Window_RemoveButtonGrab C we)) = shadow_view we"
  by (cases we; auto simp: MoveClient_def MapClient_def UnmapClient_def RaiseClient_def Window_AddButtonGrab_def
      Window_RemoveButtonGrab_def view_geometry intro!: view_env dest!: clutter_request' split: prod.splits)+

lemma view_stack_client:
  "StackClientAbove C sib we = Some (ok, we') \<Longrightarrow> shadow_view we' = shadow_view we"
  "StackClientBelow C sib we = Some (ok, we') \<Longrightarrow> shadow_view we' = shadow_view we"
  by (cases we; auto simp: StackClientAbove_def StackClientBelow_def split: prod.splits if_splits
      intro!: view_env dest!: clutter_request')+

lemma view_ResizeClient: "shadow_view (snd (ResizeClient C w h g we)) = shadow_view we"
  by (cases we) (auto simp: ResizeClient_def Let_def view_geometry split: prod.splits if_splits
      intro!: view_env dest!: clutter_request')

lemma view_stack_composited:
  "shadow_view (StackCompositedAbove a sa abv we) = shadow_view we"
  "shadow_view (StackCompositedBelow a sa abv we) = shadow_view we"
  by (cases we; auto simp: StackCompositedAbove_def StackCompositedBelow_def stack_shadow_def shadow_view_def
      should_use_shadow_def with_shadow_def Let_def split: option.splits)+

lemma view_flags [simp]:
  "shadow_view (win\<lparr>w_mapped := b\<rparr>, e) = shadow_view (win, e)"
  "shadow_view (win\<lparr>w_focused := b\<rparr>, e) = shadow_view (win, e)"
  "shadow_view (win\<lparr>w_size_hints := h\<rparr>, e) = shadow_view (win, e)"
  "shadow_view (win\<lparr>w_transient_for_xid := t\<rparr>, e) = shadow_view (win, e)"
  "shadow_view (win\<lparr>wm_hint_urgent := b\<rparr>, e) = shadow_view (win, e)"
  "shadow_view (win\<lparr>chrome_state_xatoms := s\<rparr>, e) = shadow_view (win, e)"
  "shadow_view (win\<lparr>supports_wm_take_focus := b\<rparr>, e) = shadow_view (win, e)"
  "shadow_view (win\<lparr>supports_wm_delete_window := b\<rparr>, e) = shadow_view (win, e)"
  "shadow_view (win\<lparr>wm_state_fullscreen := b\<rparr>, e) = shadow_view (win, e)"
  "shadow_view (win\<lparr>wm_state_maximized_horz := b\<rparr>, e) = shadow_view (win, e)"
  "shadow_view (win\<lparr>wm_state_maximized_vert := b\<rparr>, e) = shadow_view (win, e)"
  "shadow_view (win\<lparr>wm_state_modal := b\<rparr>, e) = shadow_view (win, e)"
  "shadow_view (win\<lparr>client_opacity := d\<rparr>, e) = shadow_view (win, e)"
  by (simp_all add: shadow_view_def should_use_shadow_def)

lemma view_apply_wm_state: "shadow_view (apply_wm_state C is win, e) = shadow_view (win, e)"
  by (induction C "is" win rule: apply_wm_state.induct) (simp_all add: Let_def)

lemma view_apply_protocols: "shadow_view (apply_protocols C is win, e) = shadow_view (win, e)"
  by (induction C "is" win rule: apply_protocols.induct) simp_all

lemma view_change_wm_states: "shadow_view (change_wm_states C states win, e) = shadow_view (win, e)"
  by (induction C states win rule: change_wm_states.induct) (simp_all add: Let_def)

lemma view_set_prop: "shadow_view (snd (set_prop C a vs we)) = shadow_view we"
  by (cases we) (auto simp: set_prop_def split: prod.splits intro!: view_env dest!: clutter_request')

lemma view_properties:
  "shadow_view (snd (FetchAndApplySizeHints C we)) = shadow_view we"
  "shadow_view (FetchAndApplyWmProtocols C we) = shadow_view we"
  "shadow_view (FetchAndApplyWmState C we) = shadow_view we"
  "shadow_view (FetchAndApplyChromeState C we) = shadow_view we"
  "shadow_view (snd (ChangeWmState C states we)) = shadow_view we"
  "shadow_view (snd (ChangeChromeState C states we)) = shadow_view we"
  "shadow_view (snd (HandleWmStateMessage C data we)) = shadow_view we"
  by (cases we; auto simp: FetchAndApplySizeHints_def FetchAndApplyWmProtocols_def FetchAndApplyWmState_def
      FetchAndApplyChromeState_def ChangeWmState_def ChangeChromeState_def HandleWmStateMessage_def
      UpdateWmStateProperty_def UpdateChromeStateProperty_def view_set_prop view_apply_wm_state view_apply_protocols
      view_change_wm_states view_ResizeClient Let_def split: prod.splits option.splits)+

lemma view_properties_option:
  "FetchAndApplyTransientHint C we = Some (ok, we') \<Longrightarrow> shadow_view we' = shadow_view we"
  "FetchAndApplyWmHints C we = Some we' \<Longrightarrow> shadow_view we' = shadow_view we"
  by (cases we; auto simp: FetchAndApplyTransientHint_def FetchAndApplyWmHints_def bind_eq_Some_iff
      split: option.splits list.splits)+

lemma view_focus:
  "shadow_view (snd (Window_TakeFocus C t we)) = shadow_view we"
  "shadow_view (snd (SendDeleteRequest C t we)) = shadow_view we"
  by (cases we; auto simp: Window_TakeFocus_def SendDeleteRequest_def send_protocol_def split: prod.splits if_splits
      intro!: view_env dest!: clutter_request')+

lemma shadow_inv_cong: "shadow_view we' = shadow_view we \<Longrightarrow> shadow_inv we' = shadow_inv we"
  by (simp add: shadow_inv_def)

text \<open>Without the clause that \<open>UpdateShadowIfNecessary\<close> establishes.\<close>

definition weak_shadow_inv :: "window \<times> 'x env \<Rightarrow> bool" where
  "weak_shadow_inv we \<longleftrightarrow> (case shadow_view we of (xid, s, should, shown, using_sh, op, win_vis, sh_vis) \<Rightarrow>
     win_vis = shown \<and>
     (case s of
        None \<Rightarrow> True
      | Some s \<Rightarrow> sw_is_shown s = (using_sh \<and> shown) \<and> sh_vis = sw_is_shown s \<and> sw_opacity s = op))"

lemmas shadow_inv_defs = shadow_inv_def weak_shadow_inv_def shadow_view_def

lemma weak_shadow_inv_cong: "shadow_view we' = shadow_view we \<Longrightarrow> weak_shadow_inv we' = weak_shadow_inv we"
  by (simp add: weak_shadow_inv_def)

lemma inv_UpdateShadowIfNecessary: "weak_shadow_inv we \<Longrightarrow> shadow_inv (UpdateShadowIfNecessary we)"
  by (cases we) (auto simp: UpdateShadowIfNecessary_def shadow_inv_defs Shadow_Show_def Shadow_Hide_def
      should_use_shadow_def split: option.splits if_splits)

lemma weak_set_type:
  "shadow_inv (win, e) \<Longrightarrow> weak_shadow_inv (win\<lparr>w_type := t, w_type_params := ps\<rparr>, e)"
  "weak_shadow_inv (win, e) \<Longrightarrow> weak_shadow_inv (win\<lparr>w_type := t, w_type_params := ps\<rparr>, e)"
  "shadow_inv (win, e) \<Longrightarrow> weak_shadow_inv (win, e)"
  by (auto simp: shadow_inv_defs split: option.splits)

lemma weak_set_shaped:
  "weak_shadow_inv (win, e) \<Longrightarrow>
   weak_shadow_inv (win\<lparr>w_shaped := b\<rparr>, call (WindowActor (w_xid win)) (case r of None \<Rightarrow> ClearAlphaMask | Some m \<Rightarrow> SetAlphaMask m) e)"
  by (auto simp: shadow_inv_defs split: option.splits)

lemma inv_FetchAndApplyWindowType:
  assumes "FetchAndApplyWindowType C b we = Some (ok, we')" "weak_shadow_inv we"
  shows "if b then shadow_inv we' else weak_shadow_inv we'"
  using assms weak_set_type(2)
  by (cases we) (auto simp: FetchAndApplyWindowType_def bind_eq_Some_iff split: option.splits
      intro!: inv_UpdateShadowIfNecessary)

lemma inv_FetchAndApplyShape:
  assumes "FetchAndApplyShape C True we = Some we'" "weak_shadow_inv we"
  shows "shadow_inv we'"
  using assms
  by (cases we) (auto simp: FetchAndApplyShape_def bind_eq_Some_iff Let_def
      intro!: inv_UpdateShadowIfNecessary weak_set_shaped)

lemma inv_opacity:
  "shadow_inv we \<Longrightarrow> shadow_inv (SetCompositedOpacity d ms we)"
  "shadow_inv we \<Longrightarrow> shadow_inv (Window_SetShadowOpacity d ms we)"
  by (cases we; auto simp: SetCompositedOpacity_def Window_SetShadowOpacity_def set_shadow_opacity_def
      Shadow_SetOpacity_def shadow_inv_defs should_use_shadow_def Let_def split: option.splits)+

lemma inv_show_hide:
  "shadow_inv we \<Longrightarrow> shadow_inv (ShowComposited we)"
  "shadow_inv we \<Longrightarrow> shadow_inv (HideComposited we)"
  by (cases we; auto simp: ShowComposited_def HideComposited_def Shadow_Show_def Shadow_Hide_def shadow_inv_defs
      should_use_shadow_def Let_def split: option.splits if_splits)+

lemma inv_FetchAndApplyWindowOpacity:
  assumes "FetchAndApplyWindowOpacity C we = Some we'" "shadow_inv we"
  shows "shadow_inv we'"
  using assms
  by (cases we) (auto simp: FetchAndApplyWindowOpacity_def bind_eq_Some_iff Let_def shadow_inv_cong[OF view_flags(13)]
      intro!: inv_opacity)

lemma new_Shadow_state:
  "new_Shadow D own e = (s, e') \<Longrightarrow> \<not> sw_is_shown s \<and> sw_opacity s = 1 \<and> \<not> visible (ShadowActor own Sh_group) (es_clutter e')"
  by (auto simp: new_Shadow_def Shadow_Hide_def Shadow_SetOpacity_def Let_def)

text \<open>The constructor before the first \<open>FetchAndApply\<close>: the window's actor is hidden.\<close>

lemma place_window_view:
  "place_window C we = (win', e') \<Longrightarrow>
     w_xid win' = w_xid (fst we) \<and> w_shadow win' = w_shadow (fst we) \<and> composited_shown win' = composited_shown (fst we)
     \<and> using_shadow win' = using_shadow (fst we) \<and> shadow_opacity win' = shadow_opacity (fst we)
     \<and> es_clutter e' = es_clutter (snd we)"
  by (cases we) (auto simp: place_window_def Let_def split: option.splits)

lemma draw_window_weak:
  assumes "\<not> composited_shown win" "\<not> using_shadow win"
    "\<And>s. w_shadow win = Some s \<Longrightarrow> \<not> sw_is_shown s \<and> \<not> visible (ShadowActor (win_shadow win) Sh_group) (es_clutter e)"
  shows "weak_shadow_inv (draw_window C (win, e))"
  using assms
  by (auto simp: draw_window_def Let_def Window_SetTitle_def set_shadow_opacity_def Shadow_SetOpacity_def
      Shadow_Move_def shadow_inv_defs calls_Cons calls_Nil split: option.splits)

lemma constructor_weak: "weak_shadow_inv (draw_window C (place_window C (blank_window C junk xid ovr e)))"
proof -
  obtain win2 e2 where b: "blank_window C junk xid ovr e = (win2, e2)" by force
  obtain win3 e3 where p: "place_window C (win2, e2) = (win3, e3)" by force
  have "\<not> composited_shown win2 \<and> \<not> using_shadow win2 \<and> w_xid win2 = xid
    \<and> (\<forall>s. w_shadow win2 = Some s \<longrightarrow> \<not> sw_is_shown s \<and> \<not> visible (ShadowActor (WindowShadow xid) Sh_group) (es_clutter e2))"
    using b by (auto simp: blank_window_def Let_def split: prod.splits if_splits dest!: new_Shadow_state)
  with place_window_view[OF p] show ?thesis unfolding b p by (intro draw_window_weak) auto
qed

text \<open>The calls of the constructor, in order.\<close>

lemma new_Window_steps:
  assumes "new_Window C junk xid ovr e = Some we"
  obtains x1 w2 w3 x4 where
    "FetchAndApplyWindowType C False (draw_window C (place_window C (blank_window C junk xid ovr e))) = Some (fst x1, snd x1)"
    "FetchAndApplyShape C True (snd x1) = Some w2"
    "FetchAndApplyWindowOpacity C w2 = Some w3"
    "FetchAndApplyTransientHint C (FetchAndApplyChromeState C (FetchAndApplyWmState C
      (FetchAndApplyWmProtocols C (snd (FetchAndApplySizeHints C w3))))) = Some (fst x4, snd x4)"
    "FetchAndApplyWmHints C (snd x4) = Some we"
  using assms unfolding new_Window_def Let_def case_prod_beta bind_eq_Some_iff prod.collapse by blast

lemma inv_new_Window:
  assumes "new_Window C junk xid ovr e = Some we"
  shows "shadow_inv we"
proof -
  let ?w0 = "draw_window C (place_window C (blank_window C junk xid ovr e))"
  obtain x1 w2 w3 x4 where
    s1: "FetchAndApplyWindowType C False ?w0 = Some (fst x1, snd x1)" and s2: "FetchAndApplyShape C True (snd x1) = Some w2"
    and s3: "FetchAndApplyWindowOpacity C w2 = Some w3"
    and s4: "FetchAndApplyTransientHint C (FetchAndApplyChromeState C (FetchAndApplyWmState C
      (FetchAndApplyWmProtocols C (snd (FetchAndApplySizeHints C w3))))) = Some (fst x4, snd x4)"
    and s5: "FetchAndApplyWmHints C (snd x4) = Some we"
    by (rule new_Window_steps[OF assms])
  have "shadow_view we = shadow_view w3"
    using view_properties_option(1)[OF s4] view_properties_option(2)[OF s5] by (simp add: view_properties)
  moreover have "shadow_inv w3"
    using inv_FetchAndApplyWindowOpacity[OF s3] inv_FetchAndApplyShape[OF s2]
      inv_FetchAndApplyWindowType[OF s1 constructor_weak] by simp
  ultimately show ?thesis using shadow_inv_cong by blast
qed

text \<open>Everything that can happen to a window after its construction.\<close>

inductive window_step :: "('x, 'c) wmctx_scheme \<Rightarrow> window \<times> 'x env \<Rightarrow> window \<times> 'x env \<Rightarrow> bool" for C where
  step_title: "window_step C we (Window_SetTitle t we)"
| step_redirect: "window_step C we (Window_Redirect we)"
| step_size: "window_step C we (SaveClientAndCompositedSize C w h we)"
| step_position: "window_step C (win, e) (SaveClientPosition x y win, e)"
| step_move: "window_step C we (MoveComposited x y ms we)"
| step_move_x: "window_step C we (MoveCompositedX x ms we)"
| step_move_y: "window_step C we (MoveCompositedY y ms we)"
| step_scale: "window_step C we (ScaleComposited C sx sy ms we)"
| step_client: "window_step C we (snd (MoveClient C x y we))"
| step_map: "window_step C we (snd (MapClient C we))"
| step_unmap: "window_step C we (snd (UnmapClient C we))"
| step_raise: "window_step C we (snd (RaiseClient C we))"
| step_grab: "window_step C we (snd (Window_AddButtonGrab C we))"
| step_ungrab: "window_step C we (snd (Window_RemoveButtonGrab C we))"
| step_above: "StackClientAbove C sib we = Some (ok, we') \<Longrightarrow> window_step C we we'"
| step_below: "StackClientBelow C sib we = Some (ok, we') \<Longrightarrow> window_step C we we'"
| step_resize: "window_step C we (snd (ResizeClient C w h g we))"
| step_comp_above: "window_step C we (StackCompositedAbove a sa abv we)"
| step_comp_below: "window_step C we (StackCompositedBelow a sa abv we)"
| step_mapped: "window_step C (win, e) (win\<lparr>w_mapped := b\<rparr>, e)"
| step_focused: "window_step C (win, e) (win\<lparr>w_focused := b\<rparr>, e)"
| step_hints: "window_step C we (snd (FetchAndApplySizeHints C we))"
| step_protocols: "window_step C we (FetchAndApplyWmProtocols C we)"
| step_wm_state: "window_step C we (FetchAndApplyWmState C we)"
| step_chrome_state: "window_step C we (FetchAndApplyChromeState C we)"
| step_change_wm: "window_step C we (snd (ChangeWmState C states we))"
| step_change_chrome: "window_step C we (snd (ChangeChromeState C states we))"
| step_wm_message: "window_step C we (snd (HandleWmStateMessage C data we))"
| step_transient: "FetchAndApplyTransientHint C we = Some (ok, we') \<Longrightarrow> window_step C we we'"
| step_wm_hints: "FetchAndApplyWmHints C we = Some we' \<Longrightarrow> window_step C we we'"
| step_take_focus: "window_step C we (snd (Window_TakeFocus C t we))"
| step_delete: "window_step C we (snd (SendDeleteRequest C t we))"
| step_show: "window_step C we (ShowComposited we)"
| step_hide: "window_step C we (HideComposited we)"
| step_opacity: "window_step C we (SetCompositedOpacity d ms we)"
| step_shadow_opacity: "window_step C we (Window_SetShadowOpacity d ms we)"
| step_window_opacity: "FetchAndApplyWindowOpacity C we = Some we' \<Longrightarrow> window_step C we we'"
| step_type: "FetchAndApplyWindowType C True we = Some (ok, we') \<Longrightarrow> window_step C we we'"
| step_shape: "FetchAndApplyShape C True we = Some we' \<Longrightarrow> window_step C we we'"

lemmas view_ops = view_geometry view_client view_ResizeClient view_stack_composited view_flags view_properties view_focus

lemma shadow_inv_weak: "shadow_inv we \<Longrightarrow> weak_shadow_inv we"
  using weak_set_type(3) by (cases we) auto

lemma window_step_inv:
  assumes "window_step C we we'" "shadow_inv we"
  shows "shadow_inv we'"
  using assms
proof (induction rule: window_step.induct)
  case (step_type we ok we')
  then show ?case using inv_FetchAndApplyWindowType[OF step_type(1) shadow_inv_weak[OF step_type(2)]] by simp
next
  case (step_shape we we')
  then show ?case by (rule inv_FetchAndApplyShape[OF _ shadow_inv_weak])
next
  case (step_window_opacity we we')
  then show ?case by (rule inv_FetchAndApplyWindowOpacity)
qed (auto simp: view_ops[THEN shadow_inv_cong] intro: inv_opacity inv_show_hide
  dest: view_stack_client[THEN shadow_inv_cong] view_properties_option[THEN shadow_inv_cong])

definition new_window_state :: "('x, 'c) wmctx_scheme \<Rightarrow> window \<times> 'x env \<Rightarrow> bool" where
  "new_window_state C we \<longleftrightarrow> (\<exists>junk xid ovr e. new_Window C junk xid ovr e = Some we)"

interpretation windows: invariant_system "new_window_state C" "window_step C" shadow_inv for C
  by unfold_locales (auto simp: new_window_state_def inv_new_Window window_step_inv)

text \<open>
  C32: in every state a window reaches, the actors show what its members say: the window's actor is visible
  exactly when it was shown, and its shadow exactly when the window is shown and of a kind that casts one,
  that is, neither override-redirect nor shaped nor of one of the four types without a shadow. The
  shadow's opacity is the one recorded.
\<close>

theorem window_shadow_consistent:
  assumes "reachable (new_window_state C) (window_step C) (win, e)"
  shows "visible (WindowActor (w_xid win)) (es_clutter e) = composited_shown win
    \<and> (w_shadow win = None \<or> (\<exists>s. w_shadow win = Some s \<and> sw_opacity s = shadow_opacity win
         \<and> using_shadow win = should_use_shadow win
         \<and> visible (ShadowActor (win_shadow win) Sh_group) (es_clutter e) = (should_use_shadow win \<and> composited_shown win)))"
  using windows.reachable_inv[OF assms] by (auto simp: shadow_inv_defs split: option.splits)

text \<open>A context with shadows on a server without properties.\<close>

definition shadow_ctx :: "(xid \<times> xatom \<Rightarrow> int list option) wmctx" where
  "shadow_ctx = prop_ctx\<lparr>FLAGS_window_drop_shadows := True\<rparr>"

lemma shadow_ctx_window:
  "\<exists>w. new_Window shadow_ctx False 7 False \<lparr>es_x = (\<lambda>_. None), es_clutter = []\<rparr> = Some w
     \<and> w_shadow (fst w) \<noteq> None \<and> should_use_shadow (fst w)"
  by (simp add: new_Window_def blank_window_def place_window_def draw_window_def shadow_ctx_def prop_ctx_def prop_conn_def
      new_Shadow_def Shadow_SetOpacity_def Shadow_Hide_def Shadow_Show_def Shadow_Resize_def Shadow_Move_def call_def calls_def
      Window_SetTitle_def set_shadow_opacity_def resize_shadow_def with_shadow_def request_def
      FetchAndApplyWindowType_def FetchAndApplyShape_def FetchAndApplyWindowOpacity_def FetchAndApplySizeHints_def
      FetchAndApplyWmProtocols_def FetchAndApplyWmState_def FetchAndApplyChromeState_def FetchAndApplyTransientHint_def
      FetchAndApplyWmHints_def GetWindowType_def GetXAtom_def GetIntProperty_def GetTransientHintForWindow_def
      GetSizeHintsForWindow_def new_ByteMap_def ByteMap_Clear_def memset_def UpdateShadowIfNecessary_def should_use_shadow_def
      SetCompositedOpacity_def Let_def)

theorem window_shadow_consistent_witness:
  "\<exists>win e. reachable (new_window_state shadow_ctx) (window_step shadow_ctx) (win, e)
     \<and> visible (ShadowActor (win_shadow win) Sh_group) (es_clutter e)"
proof -
  obtain win e where w: "new_Window shadow_ctx False 7 False \<lparr>es_x = (\<lambda>_. None), es_clutter = []\<rparr> = Some (win, e)"
    "w_shadow win \<noteq> None" "should_use_shadow win" using shadow_ctx_window by auto
  obtain win' e' where s: "ShowComposited (win, e) = (win', e')" by force
  have "reachable (new_window_state shadow_ctx) (window_step shadow_ctx) (win, e)"
    using w(1) by (intro reach_init) (auto simp: new_window_state_def)
  then have r: "reachable (new_window_state shadow_ctx) (window_step shadow_ctx) (win', e')"
    using step_show[of shadow_ctx "(win, e)"] s by (auto intro: reach_step)
  have "should_use_shadow win'" "composited_shown win'" "w_shadow win' \<noteq> None"
    using s w(2,3) by (auto simp: ShowComposited_def Shadow_Show_def should_use_shadow_def Let_def split: if_splits)
  with window_shadow_consistent[OF r] r show ?thesis by auto
qed

section \<open>Empty properties\<close>

lemma view_xid: "shadow_view we' = shadow_view we \<Longrightarrow> w_xid (fst we') = w_xid (fst we)"
  by (simp add: shadow_view_def split: prod.splits)

lemma xid_UpdateShadow: "w_xid (fst (UpdateShadowIfNecessary we)) = w_xid (fst we)"
  by (cases we) (auto simp: UpdateShadowIfNecessary_def Shadow_Hide_def Shadow_Show_def split: option.splits)

lemma xid_constructor: "w_xid (fst (draw_window C (place_window C (blank_window C junk xid ovr e)))) = xid"
  by (auto simp: draw_window_def place_window_def blank_window_def Window_SetTitle_def set_shadow_opacity_def
      Shadow_SetOpacity_def Let_def split: option.splits prod.splits)

lemma xid_fetch:
  "FetchAndApplyWindowType C b we = Some (ok, we') \<Longrightarrow> w_xid (fst we') = w_xid (fst we)"
  "FetchAndApplyShape C b we = Some we' \<Longrightarrow> w_xid (fst we') = w_xid (fst we)"
  "FetchAndApplyWindowOpacity C we = Some we' \<Longrightarrow> w_xid (fst we') = w_xid (fst we)"
  by (cases we; auto simp: FetchAndApplyWindowType_def FetchAndApplyShape_def FetchAndApplyWindowOpacity_def
      SetCompositedOpacity_def set_shadow_opacity_def Shadow_SetOpacity_def bind_eq_Some_iff xid_UpdateShadow Let_def
      split: option.splits if_splits)+

lemma fetch_empty:
  assumes "\<And>x. GetIntArrayProperty (wm_xconn C) (w_xid (fst we)) a x = Some []"
  shows "GetXAtom ATOM_CHROME_WINDOW_TYPE (ipc_cache (wm_ipc_ctx C)) = Some a \<Longrightarrow> FetchAndApplyWindowType C b we = None"
    "a = wm_atom C ATOM_NET_WM_WINDOW_OPACITY \<Longrightarrow> FetchAndApplyWindowOpacity C we = None"
    "a = XA_WM_TRANSIENT_FOR \<Longrightarrow> FetchAndApplyTransientHint C we = None"
    "a = wm_atom C ATOM_WM_HINTS \<Longrightarrow> FetchAndApplyWmHints C we = None"
  using assms by (cases we; simp add: FetchAndApplyWindowType_def FetchAndApplyWindowOpacity_def
      FetchAndApplyTransientHint_def FetchAndApplyWmHints_def GetWindowType_def GetTransientHintForWindow_def GetIntProperty_def)+

text \<open>
  C40: a property of format 32 without a value is decoded to an empty list, although \<open>GetIntProperty\<close>
  relies on the contrary. A client whose window has such a property for its type, opacity, owner or hints
  therefore aborts the window manager as soon as it makes an object for the window.
\<close>

theorem empty_property_aborts:
  assumes "a \<in> {wm_atom C ATOM_NET_WM_WINDOW_OPACITY, XA_WM_TRANSIENT_FOR, wm_atom C ATOM_WM_HINTS}
      \<or> GetXAtom ATOM_CHROME_WINDOW_TYPE (ipc_cache (wm_ipc_ctx C)) = Some a"
    "\<And>x. GetIntArrayProperty (wm_xconn C) xid a x = DecodeIntArrayProperty (Some (32, []))"
  shows "new_Window C junk xid ovr e = None"
proof (rule ccontr)
  have empty: "GetIntArrayProperty (wm_xconn C) xid a x = Some []" for x
    by (simp add: assms(2) DecodeIntArrayProperty_def kLongFormat_def)
  assume "new_Window C junk xid ovr e \<noteq> None"
  then obtain we where n: "new_Window C junk xid ovr e = Some we" by blast
  obtain x1 w2 w3 x4 where
    s: "FetchAndApplyWindowType C False (draw_window C (place_window C (blank_window C junk xid ovr e))) = Some (fst x1, snd x1)"
    "FetchAndApplyShape C True (snd x1) = Some w2" "FetchAndApplyWindowOpacity C w2 = Some w3"
    "FetchAndApplyTransientHint C (FetchAndApplyChromeState C (FetchAndApplyWmState C
      (FetchAndApplyWmProtocols C (snd (FetchAndApplySizeHints C w3))))) = Some (fst x4, snd x4)"
    "FetchAndApplyWmHints C (snd x4) = Some we"
    by (rule new_Window_steps[OF n])
  let ?w4 = "FetchAndApplyChromeState C (FetchAndApplyWmState C
      (FetchAndApplyWmProtocols C (snd (FetchAndApplySizeHints C w3))))"
  have x: "w_xid (fst w2) = xid" "w_xid (fst ?w4) = xid" "w_xid (fst (snd x4)) = xid"
    using xid_fetch(1)[OF s(1)] xid_fetch(2)[OF s(2)] xid_fetch(3)[OF s(3)] xid_constructor
      view_xid[of ?w4 w3] view_xid[OF view_properties_option(1)[OF s(4)]] by (simp_all add: view_properties)
  have "GetXAtom ATOM_CHROME_WINDOW_TYPE (ipc_cache (wm_ipc_ctx C)) \<noteq> Some a"
    using fetch_empty(1)[of C "draw_window C (place_window C (blank_window C junk xid ovr e))" a False] s(1)
      empty xid_constructor[of C junk xid ovr e] by auto
  moreover have "a \<noteq> wm_atom C ATOM_NET_WM_WINDOW_OPACITY" using fetch_empty(2)[of C w2 a] s(3) empty x(1) by auto
  moreover have "a \<noteq> XA_WM_TRANSIENT_FOR" using fetch_empty(3)[of C ?w4 a] s(4) empty x(2) by auto
  moreover have "a \<noteq> wm_atom C ATOM_WM_HINTS" using fetch_empty(4)[of C "snd x4" a] s(5) empty x(3) by auto
  ultimately show False using assms(1) by blast
qed

text \<open>A server on which every property is an empty list of 32-bit values.\<close>

definition empty_ctx :: "nat wmctx" where
  "empty_ctx = demo_ctx\<lparr>wm_xconn := demo_conn\<lparr>GetIntArrayProperty := (\<lambda>_ _ _. DecodeIntArrayProperty (Some (32, [])))\<rparr>\<rparr>"

theorem empty_property_aborts_witness:
  "new_Window empty_ctx False 7 False \<lparr>es_x = 0, es_clutter = []\<rparr> = None"
  by (rule empty_property_aborts[where a = 1]) (simp_all add: empty_ctx_def demo_ctx_def)

end
