(* ===== verification/WM_Events.thy ===== *)
theory WM_Events
  imports WM_Ipc "HOL-Library.Product_Lexorder"
begin

text \<open>
  The small event helpers of the window manager: \<open>MotionEventCoalescer\<close>
  (\<open>motion_event_coalescer.cc\<close>), \<open>PointerPositionWatcher\<close>
  (\<open>pointer_position_watcher.cc\<close>), and the registration of event consumers, by
  \<open>WindowManager\<close> (\<open>window_manager.cc\<close>) and its helper \<open>EventConsumerRegistrar\<close>
  (\<open>event_consumer_registrar.cc\<close>).

  Timers are identified by GLib's source ids, positive numbers that the caller supplies; a
  callback that runs is an entry of a log.
\<close>

section \<open>MotionEventCoalescer\<close>

record coalescer =
  mc_timer_id :: nat
  mc_timeout_ms :: int
  mc_have_queued_position :: bool
  mc_x :: int
  mc_y :: int
  mc_synchronous :: bool
  mc_log :: "(int \<times> int) list"

definition new_MotionEventCoalescer :: "int \<Rightarrow> coalescer option" where
  "new_MotionEventCoalescer timeout_ms = do {
     CHECK (timeout_ms > 0);
     Some \<lparr>mc_timer_id = 0, mc_timeout_ms = timeout_ms, mc_have_queued_position = False, mc_x = -1, mc_y = -1,
           mc_synchronous = False, mc_log = []\<rparr> }"

definition set_synchronous :: "bool \<Rightarrow> coalescer \<Rightarrow> coalescer" where
  "set_synchronous b c = c\<lparr>mc_synchronous := b\<rparr>"

definition mc_IsRunning :: "coalescer \<Rightarrow> bool" where
  "mc_IsRunning c = (mc_timer_id c \<noteq> 0)"

text \<open>The callback reads the stored position. The return value keeps the timer.\<close>

definition mc_HandleTimer :: "coalescer \<Rightarrow> bool \<times> coalescer" where
  "mc_HandleTimer c =
     (True, if mc_have_queued_position c
            then c\<lparr>mc_log := mc_log c @ [(mc_x c, mc_y c)], mc_have_queued_position := False\<rparr>
            else c)"

text \<open>\<open>source_id\<close> is what \<open>g_timeout_add\<close> returns.\<close>

definition mc_Start :: "nat \<Rightarrow> coalescer \<Rightarrow> coalescer" where
  "mc_Start source_id c =
     (if mc_timer_id c \<noteq> 0 then c
      else
        (let c = (if mc_synchronous c then c else c\<lparr>mc_timer_id := source_id\<rparr>)
         in c\<lparr>mc_have_queued_position := False, mc_x := -1, mc_y := -1\<rparr>))"

definition StopInternal :: "bool \<Rightarrow> coalescer \<Rightarrow> coalescer" where
  "StopInternal maybe_run_callback c =
     (if mc_timer_id c = 0 then c
      else
        (let c = c\<lparr>mc_timer_id := 0\<rparr>
         in if maybe_run_callback then snd (mc_HandleTimer c) else c))"

definition mc_Stop :: "coalescer \<Rightarrow> coalescer" where
  "mc_Stop c = (if mc_synchronous c then c else StopInternal True c)"

definition StorePosition :: "int \<Rightarrow> int \<Rightarrow> coalescer \<Rightarrow> coalescer" where
  "StorePosition x y c =
     (if x = mc_x c \<and> y = mc_y c then c
      else
        (let c = c\<lparr>mc_x := x, mc_y := y, mc_have_queued_position := True\<rparr>
         in if mc_synchronous c then snd (mc_HandleTimer c) else c))"

definition destroy_MotionEventCoalescer :: "coalescer \<Rightarrow> coalescer" where
  "destroy_MotionEventCoalescer c = (if mc_IsRunning c then StopInternal False c else c)"

text \<open>What happens between \<open>Start\<close> and \<open>Stop\<close>.\<close>

datatype mc_event = Motion int int | Timer

fun mc_run :: "mc_event list \<Rightarrow> coalescer \<Rightarrow> coalescer" where
  "mc_run [] c = c"
| "mc_run (Motion x y # es) c = mc_run es (StorePosition x y c)"
| "mc_run (Timer # es) c = mc_run es (snd (mc_HandleTimer c))"

fun positions :: "mc_event list \<Rightarrow> (int \<times> int) list" where
  "positions [] = []"
| "positions (Motion x y # es) = (x, y) # positions es"
| "positions (Timer # es) = positions es"

section \<open>PointerPositionWatcher\<close>

record watcher =
  pw_watch_for_entering :: bool
  pw_x :: int
  pw_y :: int
  pw_width :: int
  pw_height :: int
  pw_timer_id :: nat
  pw_runs :: nat

definition new_PointerPositionWatcher ::
    "nat \<Rightarrow> bool \<Rightarrow> int \<Rightarrow> int \<Rightarrow> int \<Rightarrow> int \<Rightarrow> watcher" where
  "new_PointerPositionWatcher source_id entering x y w h =
     \<lparr>pw_watch_for_entering = entering, pw_x = x, pw_y = y, pw_width = w, pw_height = h,
      pw_timer_id = source_id, pw_runs = 0\<rparr>"

text \<open>\<open>pointer\<close> is the answer to \<open>QueryPointerPosition\<close>.\<close>

definition pw_HandleTimer :: "(int \<times> int) option \<Rightarrow> watcher \<Rightarrow> bool \<times> watcher" where
  "pw_HandleTimer pointer p =
     (case pointer of
        None \<Rightarrow> (True, p)
      | Some (pointer_x, pointer_y) \<Rightarrow>
          (let in_target = (pointer_x \<ge> pw_x p \<and> pointer_x < pw_x p + pw_width p
                          \<and> pointer_y \<ge> pw_y p \<and> pointer_y < pw_y p + pw_height p)
           in if pw_watch_for_entering p \<and> \<not> in_target \<or> \<not> pw_watch_for_entering p \<and> in_target
              then (True, p)
              else (False, p\<lparr>pw_timer_id := 0, pw_runs := Suc (pw_runs p)\<rparr>)))"

text \<open>The source that is removed, if any, and the new state.\<close>

definition TriggerTimeout :: "(int \<times> int) option \<Rightarrow> watcher \<Rightarrow> nat option \<times> watcher" where
  "TriggerTimeout pointer p =
     (let timer_id = pw_timer_id p; (r, p) = pw_HandleTimer pointer p
      in (if \<not> r then Some timer_id else None, p))"

definition destroy_PointerPositionWatcher :: "watcher \<Rightarrow> nat option \<times> watcher" where
  "destroy_PointerPositionWatcher p =
     (if pw_timer_id p \<noteq> 0 then (Some (pw_timer_id p), p\<lparr>pw_timer_id := 0\<rparr>) else (None, p))"

text \<open>The main loop: the timer fires as long as its handler returns true.\<close>

fun pw_ticks :: "(int \<times> int) option list \<Rightarrow> watcher \<Rightarrow> watcher" where
  "pw_ticks [] p = p"
| "pw_ticks (q # qs) p = (case pw_HandleTimer q p of (again, p) \<Rightarrow> if again then pw_ticks qs p else p)"

section \<open>Registration of event consumers\<close>

type_synonym consumer = nat

record event_consumers =
  window_event_consumers :: "(xid, consumer list) omap"
  property_change_event_consumers :: "(xid \<times> xatom, consumer list) omap"
  chrome_message_event_consumers :: "(int, consumer list) omap"

definition consumers_at :: "('k :: linorder, consumer list) omap \<Rightarrow> 'k \<Rightarrow> consumer list" where
  "consumers_at m k = (case map_of m k of None \<Rightarrow> [] | Some s \<Rightarrow> s)"

text \<open>\<open>m[k].insert(e)\<close>, and the erasure that drops an entry with its last consumer.\<close>

definition add_consumer :: "'k :: linorder \<Rightarrow> consumer \<Rightarrow> ('k, consumer list) omap \<Rightarrow> ('k, consumer list) omap" where
  "add_consumer k e m = om_put k (os_put e (consumers_at m k)) m"

definition del_consumer :: "'k :: linorder \<Rightarrow> consumer \<Rightarrow> ('k, consumer list) omap \<Rightarrow> ('k, consumer list) omap" where
  "del_consumer k e m =
     (case map_of m k of
        None \<Rightarrow> m
      | Some s \<Rightarrow>
          if e \<notin> set s then m
          else (let s = os_del e s in if s = [] then om_del k m else om_put k s m))"

definition RegisterEventConsumerForWindowEvents :: "xid \<Rightarrow> consumer \<Rightarrow> event_consumers \<Rightarrow> event_consumers" where
  "RegisterEventConsumerForWindowEvents xid e m =
     m\<lparr>window_event_consumers := add_consumer xid e (window_event_consumers m)\<rparr>"

definition UnregisterEventConsumerForWindowEvents :: "xid \<Rightarrow> consumer \<Rightarrow> event_consumers \<Rightarrow> event_consumers" where
  "UnregisterEventConsumerForWindowEvents xid e m =
     m\<lparr>window_event_consumers := del_consumer xid e (window_event_consumers m)\<rparr>"

definition RegisterEventConsumerForPropertyChanges ::
    "xid \<Rightarrow> xatom \<Rightarrow> consumer \<Rightarrow> event_consumers \<Rightarrow> event_consumers" where
  "RegisterEventConsumerForPropertyChanges xid xatom e m =
     m\<lparr>property_change_event_consumers := add_consumer (xid, xatom) e (property_change_event_consumers m)\<rparr>"

definition UnregisterEventConsumerForPropertyChanges ::
    "xid \<Rightarrow> xatom \<Rightarrow> consumer \<Rightarrow> event_consumers \<Rightarrow> event_consumers" where
  "UnregisterEventConsumerForPropertyChanges xid xatom e m =
     m\<lparr>property_change_event_consumers := del_consumer (xid, xatom) e (property_change_event_consumers m)\<rparr>"

definition RegisterEventConsumerForChromeMessages :: "int \<Rightarrow> consumer \<Rightarrow> event_consumers \<Rightarrow> event_consumers" where
  "RegisterEventConsumerForChromeMessages message_type e m =
     m\<lparr>chrome_message_event_consumers := add_consumer message_type e (chrome_message_event_consumers m)\<rparr>"

definition UnregisterEventConsumerForChromeMessages :: "int \<Rightarrow> consumer \<Rightarrow> event_consumers \<Rightarrow> event_consumers" where
  "UnregisterEventConsumerForChromeMessages message_type e m =
     m\<lparr>chrome_message_event_consumers := del_consumer message_type e (chrome_message_event_consumers m)\<rparr>"

record registrar =
  rg_consumer :: consumer
  rg_window_event_xids :: "xid list"
  rg_property_change_pairs :: "(xid \<times> xatom) list"
  rg_chrome_message_types :: "int list"

definition new_EventConsumerRegistrar :: "consumer \<Rightarrow> registrar" where
  "new_EventConsumerRegistrar e =
     \<lparr>rg_consumer = e, rg_window_event_xids = [], rg_property_change_pairs = [], rg_chrome_message_types = []\<rparr>"

definition RegisterForWindowEvents :: "xid \<Rightarrow> registrar \<times> event_consumers \<Rightarrow> registrar \<times> event_consumers" where
  "RegisterForWindowEvents xid rm = (case rm of (r, m) \<Rightarrow>
     (let m = RegisterEventConsumerForWindowEvents xid (rg_consumer r) m
      in (r\<lparr>rg_window_event_xids := rg_window_event_xids r @ [xid]\<rparr>, m)))"

definition RegisterForPropertyChanges ::
    "xid \<Rightarrow> xatom \<Rightarrow> registrar \<times> event_consumers \<Rightarrow> registrar \<times> event_consumers" where
  "RegisterForPropertyChanges xid xatom rm = (case rm of (r, m) \<Rightarrow>
     (let m = RegisterEventConsumerForPropertyChanges xid xatom (rg_consumer r) m
      in (r\<lparr>rg_property_change_pairs := rg_property_change_pairs r @ [(xid, xatom)]\<rparr>, m)))"

definition RegisterForChromeMessages :: "int \<Rightarrow> registrar \<times> event_consumers \<Rightarrow> registrar \<times> event_consumers" where
  "RegisterForChromeMessages message_type rm = (case rm of (r, m) \<Rightarrow>
     (let m = RegisterEventConsumerForChromeMessages message_type (rg_consumer r) m
      in (r\<lparr>rg_chrome_message_types := rg_chrome_message_types r @ [message_type]\<rparr>, m)))"

definition destroy_EventConsumerRegistrar :: "registrar \<times> event_consumers \<Rightarrow> event_consumers" where
  "destroy_EventConsumerRegistrar rm = (case rm of (r, m) \<Rightarrow>
     (let e = rg_consumer r;
          m = foldl (\<lambda>m xid. UnregisterEventConsumerForWindowEvents xid e m) m (rg_window_event_xids r);
          m = foldl (\<lambda>m p. UnregisterEventConsumerForPropertyChanges (fst p) (snd p) e m) m (rg_property_change_pairs r)
      in foldl (\<lambda>m t. UnregisterEventConsumerForChromeMessages t e m) m (rg_chrome_message_types r)))"

section \<open>Properties of the coalescer and the watcher\<close>

lemma positions_append: "positions (es @ fs) = positions es @ positions fs"
  by (induction es rule: positions.induct) auto

lemma mc_run_snoc: "mc_run (es @ [e]) c = mc_run [e] (mc_run es c)"
  by (induction es c rule: mc_run.induct) auto

text \<open>
  After \<open>Start\<close> and the stored positions \<open>ps\<close>, with \<open>ds\<close> the ones the callback saw: the position
  held is the last one, those seen are some of those stored, in order, and unless one is waiting the
  last one seen is the last one stored.
\<close>

definition mc_inv :: "(int \<times> int) list \<Rightarrow> (int \<times> int) list \<Rightarrow> coalescer \<Rightarrow> bool" where
  "mc_inv ds ps c \<longleftrightarrow>
     (mc_x c, mc_y c) = (if ps = [] then (-1, -1) else last ps) \<and>
     (if mc_have_queued_position c then ps \<noteq> [] \<and> subseq ds (butlast ps)
      else subseq ds ps \<and> (if ds = [] then set ps \<subseteq> {(-1, -1)} else last ds = last ps))"

lemma subseq_snoc: "subseq ds ps \<Longrightarrow> subseq ds (ps @ [p])" "subseq ds ps \<Longrightarrow> subseq (ds @ [p]) (ps @ [p])"
  by (auto intro: subseq_rev_drop_many)

lemma butlast_subseq: "ps \<noteq> [] \<Longrightarrow> subseq ds (butlast ps) \<Longrightarrow> subseq ds ps \<and> subseq (ds @ [last ps]) ps"
  using subseq_snoc[of ds "butlast ps" "last ps"] by simp

lemma mc_inv_timer:
  assumes "mc_inv ds ps c"
  shows "\<exists>ds'. mc_inv (ds @ ds') ps (snd (mc_HandleTimer c)) \<and> mc_log (snd (mc_HandleTimer c)) = mc_log c @ ds'
    \<and> \<not> mc_have_queued_position (snd (mc_HandleTimer c))"
proof (cases "mc_have_queued_position c")
  case True
  then show ?thesis using assms butlast_subseq[of ps ds]
    by (intro exI[of _ "[(mc_x c, mc_y c)]"]) (auto simp: mc_inv_def mc_HandleTimer_def)
next
  case False
  then show ?thesis using assms by (intro exI[of _ "[]"]) (auto simp: mc_HandleTimer_def)
qed

lemma mc_inv_store:
  assumes "mc_inv ds ps c" "\<not> mc_synchronous c"
  shows "mc_inv ds (ps @ [(x, y)]) (StorePosition x y c) \<and> mc_log (StorePosition x y c) = mc_log c"
proof (cases "x = mc_x c \<and> y = mc_y c")
  case True
  then have xy: "(x, y) = (if ps = [] then (-1, -1) else last ps)" using assms(1) by (simp add: mc_inv_def)
  have "set (ps @ [(x, y)]) \<subseteq> {(-1, -1)}" if "set ps \<subseteq> {(-1, -1)}"
  proof (cases "ps = []")
    case False
    with xy that last_in_set[of ps] have "(x, y) = (-1, -1)" by (metis singletonD subsetD)
    with that show ?thesis by simp
  qed (use xy in simp)
  then show ?thesis using True assms(1) xy butlast_subseq[of ps ds] subseq_snoc(1)[of ds ps "(x, y)"]
    by (auto simp: mc_inv_def StorePosition_def split: if_splits)
next
  case False
  then show ?thesis using assms butlast_subseq[of ps ds]
    by (auto simp: mc_inv_def StorePosition_def Let_def split: if_splits)
qed

lemma mc_sync_const [simp]: "mc_synchronous (snd (mc_HandleTimer c)) = mc_synchronous c"
  "mc_synchronous (StorePosition x y c) = mc_synchronous c"
  "mc_timer_id (snd (mc_HandleTimer c)) = mc_timer_id c"
  "mc_timer_id (StorePosition x y c) = mc_timer_id c"
  by (simp_all add: mc_HandleTimer_def StorePosition_def Let_def)

lemma mc_run_inv:
  assumes "mc_inv ds ps c" "\<not> mc_synchronous c"
  shows "\<exists>ds'. mc_inv (ds @ ds') (ps @ positions es) (mc_run es c) \<and> mc_log (mc_run es c) = mc_log c @ ds'
    \<and> \<not> mc_synchronous (mc_run es c) \<and> mc_timer_id (mc_run es c) = mc_timer_id c"
  using assms
proof (induction es c arbitrary: ds ps rule: mc_run.induct)
  case (2 x y es c)
  from mc_inv_store[OF 2(2,3), of x y] 2(1)[of ds "ps @ [(x, y)]"] 2(3) show ?case by auto
next
  case (3 es c)
  from mc_inv_timer[OF 3(2)] obtain ds1 where
    d1: "mc_inv (ds @ ds1) ps (snd (mc_HandleTimer c))" "mc_log (snd (mc_HandleTimer c)) = mc_log c @ ds1" by blast
  from 3(1)[OF d1(1)] 3(3) obtain ds2 where "mc_inv ((ds @ ds1) @ ds2) (ps @ positions es) (mc_run es (snd (mc_HandleTimer c)))"
    "mc_log (mc_run es (snd (mc_HandleTimer c))) = mc_log (snd (mc_HandleTimer c)) @ ds2"
    "\<not> mc_synchronous (mc_run es (snd (mc_HandleTimer c)))" "mc_timer_id (mc_run es (snd (mc_HandleTimer c))) = mc_timer_id c"
    by auto
  with d1 show ?case by (intro exI[of _ "ds1 @ ds2"]) simp
qed auto

text \<open>
  between \<open>Start\<close> and \<open>Stop\<close> a coalescer calls its callback with some of the positions it
  was given, in their order, and no position is lost at the end: when \<open>Stop\<close> returns the last
  position the callback saw is the last one that was stored, however motion events and timer runs
  interleave, provided that the pointer ever was anywhere but at (-1, -1).
\<close>

theorem MotionEventCoalescer_delivers_last:
  assumes "mc_timer_id c = 0" "\<not> mc_synchronous c" "0 < source_id"
  shows "\<exists>ds. mc_log (mc_Stop (mc_run es (mc_Start source_id c))) = mc_log c @ ds
    \<and> subseq ds (positions es) \<and> \<not> mc_IsRunning (mc_Stop (mc_run es (mc_Start source_id c)))
    \<and> (\<not> set (positions es) \<subseteq> {(-1, -1)} \<longrightarrow> ds \<noteq> [] \<and> last ds = last (positions es))"
proof -
  let ?c = "mc_Start source_id c"
  have "mc_inv [] [] ?c" "\<not> mc_synchronous ?c" "mc_log ?c = mc_log c" "mc_timer_id ?c = source_id"
    using assms by (simp_all add: mc_Start_def mc_inv_def)
  from mc_run_inv[OF this(1,2), of es] this(3,4) obtain ds where
    d: "mc_inv ds (positions es) (mc_run es ?c)" "mc_log (mc_run es ?c) = mc_log c @ ds"
      "\<not> mc_synchronous (mc_run es ?c)" "mc_timer_id (mc_run es ?c) = source_id" by auto
  let ?d = "mc_run es ?c\<lparr>mc_timer_id := 0\<rparr>"
  have stop: "mc_Stop (mc_run es ?c) = snd (mc_HandleTimer ?d)"
    using d(3,4) assms(3) by (simp add: mc_Stop_def StopInternal_def)
  have "mc_inv ds (positions es) ?d" using d(1) by (simp add: mc_inv_def)
  from mc_inv_timer[OF this] d(2) obtain ds' where
    e: "mc_inv (ds @ ds') (positions es) (snd (mc_HandleTimer ?d))" "mc_log (snd (mc_HandleTimer ?d)) = mc_log c @ ds @ ds'"
      "\<not> mc_have_queued_position (snd (mc_HandleTimer ?d))" by auto
  show ?thesis unfolding stop
    by (rule exI[of _ "ds @ ds'"])
       (use e in \<open>auto simp: mc_inv_def mc_IsRunning_def split: if_splits\<close>)
qed

definition demo_coalescer :: coalescer where
  "demo_coalescer = \<lparr>mc_timer_id = 0, mc_timeout_ms = 50, mc_have_queued_position = False, mc_x = -1, mc_y = -1,
     mc_synchronous = False, mc_log = []\<rparr>"

theorem MotionEventCoalescer_delivers_last_witness:
  "\<exists>ds. mc_log (mc_Stop (mc_run [Motion 1 1, Motion 2 2, Timer, Motion 3 3] (mc_Start 9 demo_coalescer))) = ds
    \<and> ds \<noteq> [] \<and> last ds = (3, 3)"
  using MotionEventCoalescer_delivers_last[of demo_coalescer 9 "[Motion 1 1, Motion 2 2, Timer, Motion 3 3]"]
  by (auto simp: demo_coalescer_def)

lemma pw_ticks_once:
  "pw_runs (pw_ticks qs p) = pw_runs p + (if \<exists>q \<in> set qs. \<not> fst (pw_HandleTimer q p) then 1 else 0)
   \<and> ((\<exists>q \<in> set qs. \<not> fst (pw_HandleTimer q p)) \<longrightarrow> pw_timer_id (pw_ticks qs p) = 0)"
proof (induction qs)
  case (Cons q qs)
  show ?case
  proof (cases "fst (pw_HandleTimer q p)")
    case True
    then have "snd (pw_HandleTimer q p) = p"
      by (auto simp: pw_HandleTimer_def Let_def split: option.splits if_splits)
    with True Cons show ?thesis by (cases "pw_HandleTimer q p") auto
  next
    case False
    then show ?thesis
      by (auto simp: pw_HandleTimer_def Let_def case_prod_beta split: option.splits if_splits)
  qed
qed simp

section \<open>Properties of the registration\<close>

text \<open>
  The contract of a table of consumers: a look-up of the consumers of a key, and what registering and
  unregistering do to it. A table is determined by its look-ups.
\<close>

locale consumer_registry =
  fixes ok :: "'m \<Rightarrow> bool" and look :: "'m \<Rightarrow> 'k \<Rightarrow> consumer set"
    and add :: "'k \<Rightarrow> consumer \<Rightarrow> 'm \<Rightarrow> 'm" and del :: "'k \<Rightarrow> consumer \<Rightarrow> 'm \<Rightarrow> 'm"
  assumes ok_add: "ok m \<Longrightarrow> ok (add k e m)" and ok_del: "ok m \<Longrightarrow> ok (del k e m)"
    and look_add: "ok m \<Longrightarrow> look (add k e m) j = (if j = k then insert e (look m j) else look m j)"
    and look_del: "ok m \<Longrightarrow> look (del k e m) j = (if j = k then look m j - {e} else look m j)"
    and look_ext: "ok m \<Longrightarrow> ok n \<Longrightarrow> (\<And>j. look m j = look n j) \<Longrightarrow> m = n"
begin

lemma fold_add: "ok m \<Longrightarrow> ok (foldl (\<lambda>m k. add k e m) m ks)
    \<and> look (foldl (\<lambda>m k. add k e m) m ks) j = (if j \<in> set ks then insert e (look m j) else look m j)"
  by (induction ks arbitrary: m) (auto simp: ok_add look_add)

lemma fold_del: "ok m \<Longrightarrow> ok (foldl (\<lambda>m k. del k e m) m ks)
    \<and> look (foldl (\<lambda>m k. del k e m) m ks) j = (if j \<in> set ks then look m j - {e} else look m j)"
  by (induction ks arbitrary: m) (auto simp: ok_del look_del)

lemma del_all_restores:
  assumes "ok m" "\<And>j. e \<notin> look m j"
  shows "foldl (\<lambda>m k. del k e m) (foldl (\<lambda>m k. add k e m) m ks) ks = m"
proof (rule look_ext)
  note a = fold_add[OF assms(1), of e ks]
  show "ok (foldl (\<lambda>m k. del k e m) (foldl (\<lambda>m k. add k e m) m ks) ks)" using fold_del a by blast
  show "look (foldl (\<lambda>m k. del k e m) (foldl (\<lambda>m k. add k e m) m ks) ks) j = look m j" for j
    using fold_del[of "foldl (\<lambda>m k. add k e m) m ks" e ks j] a[of j] assms(2)[of j] by auto
qed (rule assms(1))

end

definition consumers_ok :: "('k :: linorder, consumer list) omap \<Rightarrow> bool" where
  "consumers_ok m \<longleftrightarrow> om_ok m \<and> (\<forall>k s. map_of m k = Some s \<longrightarrow> s \<noteq> [] \<and> os_ok s)"

lemma om_ext:
  assumes "om_ok m" "om_ok n" "\<And>k. map_of m k = map_of n k"
  shows "m = n"
proof -
  have "set m = set n" using om_in_iff[OF assms(1)] om_in_iff[OF assms(2)] assms(3) by auto
  moreover have "inj_on fst (set m \<union> set n)"
    using calculation om_ok_distinct[OF assms(1)] by (simp add: distinct_map)
  ultimately show ?thesis
    using assms(1,2) by (intro map_sorted_distinct_set_unique[of fst])
      (auto simp: om_ok_def strict_sorted_iff)
qed

lemma os_ext: "os_ok s \<Longrightarrow> os_ok t \<Longrightarrow> set s = set t \<Longrightarrow> s = t"
  by (simp add: os_ok_def strict_sorted_equal)

lemma consumers_ext:
  assumes "consumers_ok m" "consumers_ok n" "\<And>k. set (consumers_at m k) = set (consumers_at n k)"
  shows "m = n"
proof (rule om_ext)
  fix k
  show "map_of m k = map_of n k"
    using assms(1,2) assms(3)[of k]
    by (cases "map_of m k"; cases "map_of n k") (auto simp: consumers_ok_def consumers_at_def intro: os_ext)
qed (use assms in \<open>auto simp: consumers_ok_def\<close>)

lemma consumers_at_ok: "consumers_ok m \<Longrightarrow> os_ok (consumers_at m k)"
  by (auto simp: consumers_ok_def consumers_at_def os_ok_Nil split: option.split)

lemma os_put_not_Nil: "os_put e s \<noteq> []"
  by (simp add: os_put_def)

lemma os_del_notin: "e \<notin> set s \<Longrightarrow> os_del e s = s"
  by (auto simp: os_del_def intro: filter_True)

interpretation registry: consumer_registry consumers_ok "\<lambda>m k. set (consumers_at m k)" add_consumer del_consumer
proof unfold_locales
  fix m n :: "('k :: linorder, consumer list) omap" and k j e
  assume ok: "consumers_ok m"
  show "consumers_ok (add_consumer k e m)"
    using ok consumers_at_ok[OF ok, of k]
    by (auto simp: consumers_ok_def add_consumer_def container_simps os_put_not_Nil split: if_splits)
  show "consumers_ok (del_consumer k e m)"
    using ok by (auto simp: consumers_ok_def del_consumer_def container_simps Let_def split: option.split if_splits)
  show "set (consumers_at (add_consumer k e m) j) = (if j = k then insert e (set (consumers_at m j)) else set (consumers_at m j))"
  proof -
    have "consumers_at (add_consumer k e m) j = (if j = k then os_put e (consumers_at m j) else consumers_at m j)"
      by (simp add: add_consumer_def consumers_at_def[of "om_put _ _ _"] om_get_put) (simp add: consumers_at_def)
    then show ?thesis by (simp add: os_set_put)
  qed
  show "set (consumers_at (del_consumer k e m) j) = (if j = k then set (consumers_at m j) - {e} else set (consumers_at m j))"
  proof (cases "map_of m k")
    case None
    then show ?thesis by (auto simp: del_consumer_def consumers_at_def)
  next
    case (Some s)
    then have s: "consumers_at m k = s" by (simp add: consumers_at_def)
    have "consumers_at (del_consumer k e m) j = (if j = k then os_del e s else consumers_at m j)"
      using Some os_del_notin[of e s] by (simp add: del_consumer_def consumers_at_def container_simps Let_def)
    then show ?thesis using s by (simp add: os_set_del)
  qed
  show "m = n" if "consumers_ok n" "\<And>j. set (consumers_at m j) = set (consumers_at n j)"
    using ok that by (rule consumers_ext)
qed

text \<open>The interests one registrar registers, in order.\<close>

datatype interest = InWindow xid | InProperty xid xatom | InMessage int

fun register_interest :: "registrar \<times> event_consumers \<Rightarrow> interest \<Rightarrow> registrar \<times> event_consumers" where
  "register_interest rm (InWindow x) = RegisterForWindowEvents x rm"
| "register_interest rm (InProperty x a) = RegisterForPropertyChanges x a rm"
| "register_interest rm (InMessage t) = RegisterForChromeMessages t rm"

fun notified :: "event_consumers \<Rightarrow> interest \<Rightarrow> consumer set" where
  "notified m (InWindow x) = set (consumers_at (window_event_consumers m) x)"
| "notified m (InProperty x a) = set (consumers_at (property_change_event_consumers m) (x, a))"
| "notified m (InMessage t) = set (consumers_at (chrome_message_event_consumers m) t)"

definition all_consumers_ok :: "event_consumers \<Rightarrow> bool" where
  "all_consumers_ok m \<longleftrightarrow> consumers_ok (window_event_consumers m)
     \<and> consumers_ok (property_change_event_consumers m) \<and> consumers_ok (chrome_message_event_consumers m)"

fun window_of :: "interest \<Rightarrow> xid list" where
  "window_of (InWindow x) = [x]" | "window_of _ = []"

fun property_of :: "interest \<Rightarrow> (xid \<times> xatom) list" where
  "property_of (InProperty x a) = [(x, a)]" | "property_of _ = []"

fun message_of :: "interest \<Rightarrow> int list" where
  "message_of (InMessage t) = [t]" | "message_of _ = []"

lemma register_all_eq:
  "foldl register_interest (r, m) is =
    (r\<lparr>rg_window_event_xids := rg_window_event_xids r @ concat (map window_of is),
       rg_property_change_pairs := rg_property_change_pairs r @ concat (map property_of is),
       rg_chrome_message_types := rg_chrome_message_types r @ concat (map message_of is)\<rparr>,
     m\<lparr>window_event_consumers :=
         foldl (\<lambda>m k. add_consumer k (rg_consumer r) m) (window_event_consumers m) (concat (map window_of is)),
       property_change_event_consumers :=
         foldl (\<lambda>m k. add_consumer k (rg_consumer r) m) (property_change_event_consumers m) (concat (map property_of is)),
       chrome_message_event_consumers :=
         foldl (\<lambda>m k. add_consumer k (rg_consumer r) m) (chrome_message_event_consumers m) (concat (map message_of is))\<rparr>)"
proof (induction "is" arbitrary: r m)
  case (Cons i "is")
  then show ?case
    by (cases i) (simp_all add: RegisterForWindowEvents_def RegisterForPropertyChanges_def RegisterForChromeMessages_def
        RegisterEventConsumerForWindowEvents_def RegisterEventConsumerForPropertyChanges_def
        RegisterEventConsumerForChromeMessages_def)
qed simp

lemma destroy_eq:
  "destroy_EventConsumerRegistrar (r, m) =
    m\<lparr>window_event_consumers :=
        foldl (\<lambda>m k. del_consumer k (rg_consumer r) m) (window_event_consumers m) (rg_window_event_xids r),
      property_change_event_consumers :=
        foldl (\<lambda>m k. del_consumer k (rg_consumer r) m) (property_change_event_consumers m) (rg_property_change_pairs r),
      chrome_message_event_consumers :=
        foldl (\<lambda>m k. del_consumer k (rg_consumer r) m) (chrome_message_event_consumers m) (rg_chrome_message_types r)\<rparr>"
proof -
  have w: "foldl (\<lambda>m xid. UnregisterEventConsumerForWindowEvents xid e m) m xs =
      m\<lparr>window_event_consumers := foldl (\<lambda>m k. del_consumer k e m) (window_event_consumers m) xs\<rparr>" for e m xs
    by (induction xs arbitrary: m) (simp_all add: UnregisterEventConsumerForWindowEvents_def)
  have p: "foldl (\<lambda>m p. UnregisterEventConsumerForPropertyChanges (fst p) (snd p) e m) m xs =
      m\<lparr>property_change_event_consumers := foldl (\<lambda>m k. del_consumer k e m) (property_change_event_consumers m) xs\<rparr>" for e m xs
    by (induction xs arbitrary: m) (simp_all add: UnregisterEventConsumerForPropertyChanges_def)
  have c: "foldl (\<lambda>m t. UnregisterEventConsumerForChromeMessages t e m) m xs =
      m\<lparr>chrome_message_event_consumers := foldl (\<lambda>m k. del_consumer k e m) (chrome_message_event_consumers m) xs\<rparr>" for e m xs
    by (induction xs arbitrary: m) (simp_all add: UnregisterEventConsumerForChromeMessages_def)
  show ?thesis by (simp add: destroy_EventConsumerRegistrar_def w p c Let_def)
qed

lemma interests_of:
  "x \<in> set (concat (map window_of is)) \<longleftrightarrow> InWindow x \<in> set is"
  "(x, a) \<in> set (concat (map property_of is)) \<longleftrightarrow> InProperty x a \<in> set is"
  "t \<in> set (concat (map message_of is)) \<longleftrightarrow> InMessage t \<in> set is"
proof -
  have "x \<in> set (window_of i) \<longleftrightarrow> i = InWindow x" "p \<in> set (property_of i) \<longleftrightarrow> i = InProperty (fst p) (snd p)"
    "t \<in> set (message_of i) \<longleftrightarrow> i = InMessage t" for i p by (cases i; auto)+
  then show "x \<in> set (concat (map window_of is)) \<longleftrightarrow> InWindow x \<in> set is"
    "(x, a) \<in> set (concat (map property_of is)) \<longleftrightarrow> InProperty x a \<in> set is"
    "t \<in> set (concat (map message_of is)) \<longleftrightarrow> InMessage t \<in> set is" by auto
qed

text \<open>
  an \<open>EventConsumerRegistrar\<close> registers its consumer for exactly the interests it is asked for,
  leaves every other consumer alone, and when it is destroyed the window manager's three tables are
  what they were before, even if an interest was registered more than once.
\<close>

theorem EventConsumerRegistrar_restores:
  assumes "all_consumers_ok m" "\<forall>i. e \<notin> notified m i"
    and "foldl register_interest (new_EventConsumerRegistrar e, m) is = (r, m')"
  shows "(\<forall>i. notified m' i = (if i \<in> set is then insert e (notified m i) else notified m i))
    \<and> destroy_EventConsumerRegistrar (r, m') = m"
proof -
  have e: "e \<notin> set (consumers_at (window_event_consumers m) x)"
    "e \<notin> set (consumers_at (property_change_event_consumers m) p)"
    "e \<notin> set (consumers_at (chrome_message_event_consumers m) t)" for x p t
    using assms(2)[rule_format, of "InWindow x"] assms(2)[rule_format, of "InMessage t"]
      assms(2)[rule_format, of "InProperty (fst p) (snd p)"] by simp_all
  have ok: "consumers_ok (window_event_consumers m)" "consumers_ok (property_change_event_consumers m)"
    "consumers_ok (chrome_message_event_consumers m)" using assms(1) by (simp_all add: all_consumers_ok_def)
  have r: "rg_consumer r = e" "rg_window_event_xids r = concat (map window_of is)"
    "rg_property_change_pairs r = concat (map property_of is)" "rg_chrome_message_types r = concat (map message_of is)"
    and m': "m' = m\<lparr>window_event_consumers :=
         foldl (\<lambda>m k. add_consumer k e m) (window_event_consumers m) (concat (map window_of is)),
       property_change_event_consumers :=
         foldl (\<lambda>m k. add_consumer k e m) (property_change_event_consumers m) (concat (map property_of is)),
       chrome_message_event_consumers :=
         foldl (\<lambda>m k. add_consumer k e m) (chrome_message_event_consumers m) (concat (map message_of is))\<rparr>"
    using assms(3) by (auto simp: register_all_eq new_EventConsumerRegistrar_def)
  have "notified m' i = (if i \<in> set is then insert e (notified m i) else notified m i)" for i
    by (cases i) (simp_all add: m' registry.fold_add[OF ok(1)] registry.fold_add[OF ok(2)] registry.fold_add[OF ok(3)] interests_of
        del: set_concat set_map)
  moreover have "destroy_EventConsumerRegistrar (r, m') = m"
    using registry.del_all_restores[OF ok(1) e(1)] registry.del_all_restores[OF ok(2) e(2)]
      registry.del_all_restores[OF ok(3) e(3)]
    by (simp add: destroy_eq r m')
  ultimately show ?thesis by blast
qed

theorem EventConsumerRegistrar_restores_witness:
  "\<exists>r m'. foldl register_interest (new_EventConsumerRegistrar 4,
      \<lparr>window_event_consumers = [(7, [2])], property_change_event_consumers = [], chrome_message_event_consumers = []\<rparr>)
      [InWindow 7, InWindow 7, InMessage 3] = (r, m') \<and> notified m' (InWindow 7) = {2, 4}
    \<and> window_event_consumers (destroy_EventConsumerRegistrar (r, m')) = [(7, [2])]"
proof -
  let ?m = "\<lparr>window_event_consumers = [(7, [2])], property_change_event_consumers = [], chrome_message_event_consumers = []\<rparr>
    :: event_consumers"
  obtain r m' where rm: "foldl register_interest (new_EventConsumerRegistrar 4, ?m) [InWindow 7, InWindow 7, InMessage 3] = (r, m')"
    by fastforce
  have "all_consumers_ok ?m"
    by (auto simp: all_consumers_ok_def consumers_ok_def om_ok_def os_ok_def split: if_splits)
  moreover have "4 \<notin> notified ?m i" for i by (cases i) (auto simp: consumers_at_def)
  ultimately have "notified m' (InWindow 7) = insert 4 (notified ?m (InWindow 7))"
    and "destroy_EventConsumerRegistrar (r, m') = ?m"
    using EventConsumerRegistrar_restores[OF _ _ rm] by (simp_all del: notified.simps)
  moreover have "notified ?m (InWindow 7) = {2}" by (simp add: consumers_at_def)
  ultimately show ?thesis using rm by (auto simp del: foldl_Cons notified.simps)
qed

end
