(* ===== verification/WM_Stacking.thy ===== *)
theory WM_Stacking
  imports WM_Window_Props WM_Events
begin

text \<open>
  The desk: what the parts of the window manager share. It holds the surroundings of the windows, the
  windows by their ids, the size of the screen and the active window, with the services of
  \<open>WindowManager\<close> (\<open>window_manager.cc\<close>) that the other parts call. On it works \<open>StackingManager\<close>
  (\<open>stacking_manager.h\<close>, \<open>stacking_manager.cc\<close>), which keeps windows and actors in layers.

  A pointer to a \<open>Window\<close> is the id of the window. To follow a pointer to a window that does not exist is
  undefined: \<^term>\<open>None\<close>, as for a failed \<open>CHECK\<close>.
\<close>

section \<open>Desk\<close>

record 'x desk =
  dk_env :: "'x env"
  dk_windows :: "xid \<Rightarrow> window option"
  dk_width :: int
  dk_height :: int
  dk_active_window_xid :: xid
  dk_consumers :: event_consumers

text \<open>
  The context of the windows, and what \<open>WindowManager\<close> sets up once: its own window, the root window
  and the window under which input windows are stacked. \<open>g_timeout_add\<close> is GLib's.
\<close>

record 'x deskctx = "'x wmctx" +
  wm_root :: xid
  wm_xid :: xid
  wm_top_win :: xid
  FLAGS_wm_use_compositing :: bool
  g_timeout_add :: "'x \<Rightarrow> nat \<times> 'x"

text \<open>A method of a window that returns nothing, a result, or may fail a \<open>CHECK\<close>.\<close>

definition on_win :: "xid \<Rightarrow> (window \<times> 'x env \<Rightarrow> window \<times> 'x env) \<Rightarrow> ('x, 'd) desk_scheme \<Rightarrow> ('x, 'd) desk_scheme option" where
  "on_win xid f d =
     (case dk_windows d xid of
        None \<Rightarrow> None
      | Some win \<Rightarrow>
          (case f (win, dk_env d) of
             (win, e) \<Rightarrow> Some (d\<lparr>dk_windows := (dk_windows d)(xid \<mapsto> win), dk_env := e\<rparr>)))"

definition ask_win ::
    "xid \<Rightarrow> (window \<times> 'x env \<Rightarrow> 'r \<times> window \<times> 'x env) \<Rightarrow> ('x, 'd) desk_scheme \<Rightarrow> ('r \<times> ('x, 'd) desk_scheme) option" where
  "ask_win xid f d =
     (case dk_windows d xid of
        None \<Rightarrow> None
      | Some win \<Rightarrow>
          (case f (win, dk_env d) of
             (r, win, e) \<Rightarrow> Some (r, d\<lparr>dk_windows := (dk_windows d)(xid \<mapsto> win), dk_env := e\<rparr>)))"

definition try_win ::
    "xid \<Rightarrow> (window \<times> 'x env \<Rightarrow> ('r \<times> window \<times> 'x env) option) \<Rightarrow> ('x, 'd) desk_scheme \<Rightarrow> ('r \<times> ('x, 'd) desk_scheme) option" where
  "try_win xid f d =
     (case dk_windows d xid of
        None \<Rightarrow> None
      | Some win \<Rightarrow>
          (case f (win, dk_env d) of
             None \<Rightarrow> None
           | Some (r, win, e) \<Rightarrow> Some (r, d\<lparr>dk_windows := (dk_windows d)(xid \<mapsto> win), dk_env := e\<rparr>)))"

definition on_env :: "('x env \<Rightarrow> 'x env) \<Rightarrow> ('x, 'd) desk_scheme \<Rightarrow> ('x, 'd) desk_scheme" where
  "on_env f d = d\<lparr>dk_env := f (dk_env d)\<rparr>"

definition desk_request :: "('x, 'c) wmctx_scheme \<Rightarrow> xreq \<Rightarrow> ('x, 'd) desk_scheme \<Rightarrow> bool \<times> ('x, 'd) desk_scheme" where
  "desk_request C r d = (case request (wm_xconn C) r (dk_env d) of (ok, e) \<Rightarrow> (ok, d\<lparr>dk_env := e\<rparr>))"

text \<open>A request whose result is ignored.\<close>

definition do_request :: "('x, 'c) wmctx_scheme \<Rightarrow> xreq \<Rightarrow> ('x, 'd) desk_scheme \<Rightarrow> ('x, 'd) desk_scheme" where
  "do_request C r d = snd (desk_request C r d)"

section \<open>Services of WindowManager\<close>

definition CreateInputWindow ::
    "('x, 'c) deskctx_scheme \<Rightarrow> int \<Rightarrow> int \<Rightarrow> int \<Rightarrow> int \<Rightarrow> int \<Rightarrow> ('x, 'd) desk_scheme \<Rightarrow> (xid \<times> ('x, 'd) desk_scheme) option" where
  "CreateInputWindow C x y width height event_mask d = do {
     let (xid, xs) = CreateWindow (wm_xconn C) (wm_root C) x y width height True True event_mask (es_x (dk_env d));
     let d = on_env (\<lambda>e. e\<lparr>es_x := xs\<rparr>) d;
     CHECK (xid \<noteq> XNone);
     d \<leftarrow> (if FLAGS_wm_use_compositing C then do {
            let (ok, d) = desk_request C (StackWindow xid (wm_top_win C) False) d;
            CHECK ok;
            Some d }
          else Some d);
     let (ok, d) = desk_request C (MapWindow xid) d;
     CHECK ok;
     Some (xid, d) }"

definition ConfigureInputWindow ::
    "('x, 'c) wmctx_scheme \<Rightarrow> xid \<Rightarrow> int \<Rightarrow> int \<Rightarrow> int \<Rightarrow> int \<Rightarrow> ('x, 'd) desk_scheme \<Rightarrow> bool \<times> ('x, 'd) desk_scheme" where
  "ConfigureInputWindow C xid x y width height d = desk_request C (ConfigureWindow xid x y width height) d"

definition GetCurrentTimeFromServer ::
    "('x, 'c) deskctx_scheme \<Rightarrow> ('x, 'd) desk_scheme \<Rightarrow> (xtime \<times> ('x, 'd) desk_scheme) option" where
  "GetCurrentTimeFromServer C d = do {
     let atom = wm_atom C ATOM_CHROME_GET_SERVER_TIME;
     let (ok, xs) = SetIntProperty (wm_xconn C) (wm_xid C) atom XA_ATOM (int atom) (es_x (dk_env d));
     CHECK ok;
     let (timestamp, xs) = WaitForPropertyChange (wm_xconn C) (wm_xid C) xs;
     Some (case timestamp of None \<Rightarrow> 0 | Some t \<Rightarrow> t, on_env (\<lambda>e. e\<lparr>es_x := xs\<rparr>) d) }"

definition SetActiveWindowProperty ::
    "('x, 'c) deskctx_scheme \<Rightarrow> xid \<Rightarrow> ('x, 'd) desk_scheme \<Rightarrow> bool \<times> ('x, 'd) desk_scheme" where
  "SetActiveWindowProperty C xid d =
     (if dk_active_window_xid d = xid then (True, d)
      else
        (case SetIntProperty (wm_xconn C) (wm_root C) (wm_atom C ATOM_NET_ACTIVE_WINDOW) XA_WINDOW (int xid)
                (es_x (dk_env d)) of
           (ok, xs) \<Rightarrow>
             (let d = on_env (\<lambda>e. e\<lparr>es_x := xs\<rparr>) d
              in if \<not> ok then (False, d) else (True, d\<lparr>dk_active_window_xid := xid\<rparr>))))"

section \<open>StackingManager\<close>

abbreviation (input) LAYER_DEBUGGING :: int where "LAYER_DEBUGGING \<equiv> 0"
abbreviation (input) LAYER_HOTKEY_OVERLAY :: int where "LAYER_HOTKEY_OVERLAY \<equiv> 1"
abbreviation (input) LAYER_DRAGGED_PANEL :: int where "LAYER_DRAGGED_PANEL \<equiv> 2"
abbreviation (input) LAYER_ACTIVE_TRANSIENT_WINDOW :: int where "LAYER_ACTIVE_TRANSIENT_WINDOW \<equiv> 3"
abbreviation (input) LAYER_PANEL_BAR_INPUT_WINDOW :: int where "LAYER_PANEL_BAR_INPUT_WINDOW \<equiv> 4"
abbreviation (input) LAYER_STATIONARY_PANEL_IN_BAR :: int where "LAYER_STATIONARY_PANEL_IN_BAR \<equiv> 5"
abbreviation (input) LAYER_STATIONARY_PANEL_IN_DOCK :: int where "LAYER_STATIONARY_PANEL_IN_DOCK \<equiv> 6"
abbreviation (input) LAYER_PANEL_DOCK :: int where "LAYER_PANEL_DOCK \<equiv> 7"
abbreviation (input) LAYER_FLOATING_TAB :: int where "LAYER_FLOATING_TAB \<equiv> 8"
abbreviation (input) LAYER_TAB_SUMMARY :: int where "LAYER_TAB_SUMMARY \<equiv> 9"
abbreviation (input) LAYER_TOPLEVEL_WINDOW :: int where "LAYER_TOPLEVEL_WINDOW \<equiv> 10"
abbreviation (input) LAYER_BACKGROUND :: int where "LAYER_BACKGROUND \<equiv> 11"

definition kNumLayers :: int where "kNumLayers = 12"

record stacking =
  layer_to_xid :: "(int, xid) omap"
  layer_to_actor :: "(int, actor) omap"
  sm_xids :: "xid list"

definition LayerToName :: "int \<Rightarrow> string" where
  "LayerToName layer =
     (if layer = LAYER_DEBUGGING then ''debugging''
      else if layer = LAYER_HOTKEY_OVERLAY then ''hotkey overlay''
      else if layer = LAYER_DRAGGED_PANEL then ''dragged panel''
      else if layer = LAYER_ACTIVE_TRANSIENT_WINDOW then ''active transient window''
      else if layer = LAYER_PANEL_BAR_INPUT_WINDOW then ''panel bar input window''
      else if layer = LAYER_STATIONARY_PANEL_IN_BAR then ''static panel in bar''
      else if layer = LAYER_STATIONARY_PANEL_IN_DOCK then ''stationary panel in dock''
      else if layer = LAYER_FLOATING_TAB then ''floating tab''
      else if layer = LAYER_TAB_SUMMARY then ''tab summary''
      else if layer = LAYER_TOPLEVEL_WINDOW then ''toplevel window''
      else if layer = LAYER_BACKGROUND then ''background''
      else ''unknown'')"

text \<open>The loop of the constructor, from the bottom layer to the top one: \<open>n\<close> layers are left.\<close>

fun make_layers :: "('x, 'm) xconn_scheme \<Rightarrow> xid \<Rightarrow> nat \<Rightarrow> stacking \<times> 'x env \<Rightarrow> stacking \<times> 'x env" where
  "make_layers X root_xid 0 se = se"
| "make_layers X root_xid (Suc n) (s, e) =
     (let layer = int n;
          (xid, xs) = CreateWindow X root_xid (-1) (-1) 1 1 True True 0 (es_x e);
          e = e\<lparr>es_x := xs\<rparr>;
          s = s\<lparr>layer_to_xid := om_put layer xid (layer_to_xid s), sm_xids := os_put xid (sm_xids s)\<rparr>;
          a = LayerActor layer;
          e = calls [(a, SetName (LayerToName layer @ '' layer'')), (a, SetVisibility False),
                     (Stage, AddActor a), (a, RaiseToTop)] e
      in make_layers X root_xid n (s\<lparr>layer_to_actor := om_put layer a (layer_to_actor s)\<rparr>, e))"

definition new_StackingManager :: "('x, 'm) xconn_scheme \<Rightarrow> xid \<Rightarrow> 'x env \<Rightarrow> stacking \<times> 'x env" where
  "new_StackingManager X root_xid e =
     make_layers X root_xid (nat kNumLayers) (\<lparr>layer_to_xid = [], layer_to_actor = [], sm_xids = []\<rparr>, e)"

definition destroy_StackingManager :: "('x, 'm) xconn_scheme \<Rightarrow> stacking \<Rightarrow> 'x env \<Rightarrow> 'x env" where
  "destroy_StackingManager X s e = fold (\<lambda>xid e. snd (request X (DestroyWindow xid) e)) (sm_xids s) e"

definition IsInternalWindow :: "stacking \<Rightarrow> xid \<Rightarrow> bool" where
  "IsInternalWindow s xid \<longleftrightarrow> xid \<in> set (sm_xids s)"

definition GetActorForLayer :: "stacking \<Rightarrow> int \<Rightarrow> actor option" where
  "GetActorForLayer s layer = map_of (layer_to_actor s) layer"

definition GetXidForLayer :: "stacking \<Rightarrow> int \<Rightarrow> xid option" where
  "GetXidForLayer s layer = do {
     xid \<leftarrow> Some (case map_of (layer_to_xid s) layer of None \<Rightarrow> 0 | Some x \<Rightarrow> x);
     CHECK (xid \<noteq> 0);
     Some xid }"

definition StackWindowAtTopOfLayer ::
    "('x, 'c) wmctx_scheme \<Rightarrow> stacking \<Rightarrow> xid \<Rightarrow> int \<Rightarrow> ('x, 'd) desk_scheme \<Rightarrow> (bool \<times> ('x, 'd) desk_scheme) option" where
  "StackWindowAtTopOfLayer C s win layer d = do {
     layer_actor \<leftarrow> GetActorForLayer s layer;
     lower_layer_actor \<leftarrow> GetActorForLayer s (layer + 1);
     d \<leftarrow> on_win win (StackCompositedBelow (Some layer_actor) (Some lower_layer_actor) True) d;
     layer_xid \<leftarrow> GetXidForLayer s layer;
     try_win win (StackClientBelow C layer_xid) d }"

definition StackXidAtTopOfLayer ::
    "('x, 'c) wmctx_scheme \<Rightarrow> stacking \<Rightarrow> xid \<Rightarrow> int \<Rightarrow> ('x, 'd) desk_scheme \<Rightarrow> (bool \<times> ('x, 'd) desk_scheme) option" where
  "StackXidAtTopOfLayer C s xid layer d = do {
     layer_xid \<leftarrow> GetXidForLayer s layer;
     Some (desk_request C (StackWindow xid layer_xid False) d) }"

definition StackActorAtTopOfLayer ::
    "stacking \<Rightarrow> actor \<Rightarrow> int \<Rightarrow> ('x, 'd) desk_scheme \<Rightarrow> ('x, 'd) desk_scheme option" where
  "StackActorAtTopOfLayer s actor layer d = do {
     layer_actor \<leftarrow> GetActorForLayer s layer;
     Some (on_env (call actor (Lower layer_actor)) d) }"

definition StackWindowRelativeToOtherWindow ::
    "('x, 'c) wmctx_scheme \<Rightarrow> stacking \<Rightarrow> xid \<Rightarrow> xid \<Rightarrow> bool \<Rightarrow> int \<Rightarrow> ('x, 'd) desk_scheme \<Rightarrow> (bool \<times> ('x, 'd) desk_scheme) option" where
  "StackWindowRelativeToOtherWindow C s win sibling above_sibling layer d = do {
     lower_layer_actor \<leftarrow> GetActorForLayer s (layer + 1);
     d \<leftarrow> on_win win ((if above_sibling then StackCompositedAbove else StackCompositedBelow)
                       (Some (WindowActor sibling)) (Some lower_layer_actor) True) d;
     try_win win ((if above_sibling then StackClientAbove else StackClientBelow) C sibling) d }"

section \<open>What the layers guarantee\<close>

text \<open>
  The X server keeps its windows in a stack, here from top to bottom. New windows are put on top; a
  successful \<open>StackWindow\<close> puts a window directly above or below another one.
\<close>

definition stacks :: "('x, 'm) xconn_scheme \<Rightarrow> ('x \<Rightarrow> xid list) \<Rightarrow> bool" where
  "stacks X st \<longleftrightarrow>
     (\<forall>x. distinct (st x)) \<and>
     (\<forall>p x0 y w h ov io m x xid x'. CreateWindow X p x0 y w h ov io m x = (xid, x') \<longrightarrow>
        xid \<noteq> 0 \<and> xid \<notin> set (st x) \<and> st x' = xid # st x) \<and>
     (\<forall>a b x x'. x_request X (StackWindow a b False) x = (True, x') \<longrightarrow> a \<noteq> b \<longrightarrow>
        st x' = put_below a b (filter (\<lambda>z. z \<noteq> a) (st x))) \<and>
     (\<forall>a b x x'. x_request X (StackWindow a b True) x = (True, x') \<longrightarrow> a \<noteq> b \<longrightarrow>
        st x' = put_above a b (filter (\<lambda>z. z \<noteq> a) (st x)))"

text \<open>The windows that mark the tops of the layers, from the top layer to the bottom one.\<close>

definition layer_xid :: "stacking \<Rightarrow> nat \<Rightarrow> xid" where
  "layer_xid s l = the (map_of (layer_to_xid s) (int l))"

definition marks :: "stacking \<Rightarrow> xid list" where
  "marks s = map (layer_xid s) [0..<12]"

definition stacking_ok :: "stacking \<Rightarrow> bool" where
  "stacking_ok s \<longleftrightarrow>
     (\<forall>l. map_of (layer_to_actor s) l = (if 0 \<le> l \<and> l < 12 then Some (LayerActor l) else None)) \<and>
     (\<forall>l. (map_of (layer_to_xid s) l \<noteq> None) = (0 \<le> l \<and> l < 12)) \<and>
     (\<forall>l x. map_of (layer_to_xid s) l = Some x \<longrightarrow> x \<noteq> 0) \<and>
     (\<forall>x. IsInternalWindow s x \<longleftrightarrow> x \<in> set (marks s))"

text \<open>The marks are in the stack, in the order of their layers.\<close>

definition layered :: "stacking \<Rightarrow> xid list \<Rightarrow> bool" where
  "layered s st \<longleftrightarrow> subseq (marks s) st"

lemma make_layers_state:
  assumes "stacks X st" "make_layers X r n (s, e) = (s', e')"
  shows "\<exists>xs. length xs = n \<and> st (es_x e') = xs @ st (es_x e) \<and> 0 \<notin> set xs \<and>
    (\<forall>l. map_of (layer_to_xid s') l = (if 0 \<le> l \<and> l < int n then Some (xs ! nat l) else map_of (layer_to_xid s) l)) \<and>
    (\<forall>l. map_of (layer_to_actor s') l = (if 0 \<le> l \<and> l < int n then Some (LayerActor l) else map_of (layer_to_actor s) l)) \<and>
    set (sm_xids s') = set xs \<union> set (sm_xids s)"
  using assms
proof (induction n arbitrary: s e)
  case 0
  then show ?case by auto
next
  case (Suc n)
  obtain xid x1 where cw: "CreateWindow X r (-1) (-1) 1 1 True True 0 (es_x e) = (xid, x1)" by force
  define t where "t = s\<lparr>layer_to_xid := om_put (int n) xid (layer_to_xid s), sm_xids := os_put xid (sm_xids s),
      layer_to_actor := om_put (int n) (LayerActor (int n)) (layer_to_actor s)\<rparr>"
  define e1 where "e1 = calls [(LayerActor (int n), SetName (LayerToName (int n) @ '' layer'')),
      (LayerActor (int n), SetVisibility False), (Stage, AddActor (LayerActor (int n))), (LayerActor (int n), RaiseToTop)]
      (e\<lparr>es_x := x1\<rparr>)"
  have x: "es_x e1 = x1" by (simp add: e1_def calls_def)
  have step: "make_layers X r n (t, e1) = (s', e')"
    using Suc.prems(2) by (simp add: cw t_def e1_def Let_def)
  have new: "xid \<noteq> 0" "st x1 = xid # st (es_x e)" using Suc.prems(1) cw unfolding stacks_def by blast+
  from Suc.IH[OF Suc.prems(1) step] obtain xs where xs: "length xs = n" "st (es_x e') = xs @ st (es_x e1)" "0 \<notin> set xs"
    "\<And>l. map_of (layer_to_xid s') l = (if 0 \<le> l \<and> l < int n then Some (xs ! nat l) else map_of (layer_to_xid t) l)"
    "\<And>l. map_of (layer_to_actor s') l = (if 0 \<le> l \<and> l < int n then Some (LayerActor l) else map_of (layer_to_actor t) l)"
    "set (sm_xids s') = set xs \<union> set (sm_xids t)" by blast
  show ?case
    by (rule exI[of _ "xs @ [xid]"]) (use xs new x in \<open>auto simp: t_def om_get_put os_set_put nth_append\<close>)
qed

lemma new_StackingManager_layers:
  assumes "stacks X st" "new_StackingManager X r e = (s, e')"
  shows "stacking_ok s" "st (es_x e') = marks s @ st (es_x e)" "layered s (st (es_x e'))"
proof -
  obtain xs where xs: "length xs = 12" "st (es_x e') = xs @ st (es_x e)" "0 \<notin> set xs"
    "\<And>l. map_of (layer_to_xid s) l = (if 0 \<le> l \<and> l < 12 then Some (xs ! nat l) else None)"
    "\<And>l. map_of (layer_to_actor s) l = (if 0 \<le> l \<and> l < 12 then Some (LayerActor l) else None)"
    "set (sm_xids s) = set xs"
    using make_layers_state[OF assms(1) assms(2)[unfolded new_StackingManager_def]] by (auto simp: kNumLayers_def)
  have m: "marks s = xs"
    using xs(1,4) by (intro nth_equalityI) (simp_all add: marks_def layer_xid_def del: upt_Suc)
  have "xs ! nat l \<noteq> 0" if "0 \<le> l" "l < 12" for l
    using nth_mem[of "nat l" xs] xs(1,3) that by (metis nat_less_iff of_nat_numeral)
  then show "stacking_ok s" using xs m by (auto simp: stacking_ok_def IsInternalWindow_def)
  show "st (es_x e') = marks s @ st (es_x e)" using xs(2) m by simp
  then show "layered s (st (es_x e'))" by (simp add: layered_def prefix_imp_subseq)
qed

lemma put_split:
  assumes "distinct st" "b \<in> set st" "a \<noteq> b"
  obtains pre post where "filter (\<lambda>z. z \<noteq> a) st = pre @ b # post" "put_below a b (filter (\<lambda>z. z \<noteq> a) st) = pre @ b # a # post"
    "put_above a b (filter (\<lambda>z. z \<noteq> a) st) = pre @ a # b # post"
proof -
  let ?f = "filter (\<lambda>z. z \<noteq> a) st"
  have "b \<in> set ?f" using assms by simp
  then obtain pre post where f: "?f = pre @ b # post" "b \<notin> set pre" by (meson split_list_first)
  show thesis
    by (rule that[of pre post]) (simp_all add: f(1) put_below_split[OF f(2)] put_above_split[OF f(2)])
qed

lemma subseq_insert: "subseq ms (pre @ post) \<Longrightarrow> subseq ms (pre @ a # post)"
  by (meson subseq_order.dual_order.trans subseq_append_iff subseq_order.refl list_emb_Cons subseq_append)

lemma layered_restack:
  assumes "layered s st" "distinct st" "a \<notin> set (marks s)" "b \<in> set st" "a \<noteq> b"
  shows "layered s (put_below a b (filter (\<lambda>z. z \<noteq> a) st))" "layered s (put_above a b (filter (\<lambda>z. z \<noteq> a) st))"
    "filter (\<lambda>z. z \<noteq> a) (put_below a b (filter (\<lambda>z. z \<noteq> a) st)) = filter (\<lambda>z. z \<noteq> a) st"
proof -
  let ?f = "filter (\<lambda>z. z \<noteq> a) st"
  have "filter (\<lambda>z. z \<noteq> a) (marks s) = marks s" using assms(3) by (auto simp: filter_id_conv)
  with assms(1) have sub: "subseq (marks s) ?f" unfolding layered_def by (metis subseq_filter)
  obtain pre post where f: "?f = pre @ b # post" "put_below a b ?f = pre @ b # a # post" "put_above a b ?f = pre @ a # b # post"
    using put_split[OF assms(2,4,5)] by blast
  show "layered s (put_below a b ?f)" "layered s (put_above a b ?f)"
    using sub subseq_insert[of "marks s" "pre @ [b]" post a] subseq_insert[of "marks s" pre "b # post" a]
    unfolding layered_def f(2) f(3) by (simp_all add: f(1))
  have "a \<notin> set (pre @ b # post)" unfolding f(1)[symmetric] by simp
  then have "a \<notin> set pre" "a \<notin> set post" by simp_all
  then show "filter (\<lambda>z. z \<noteq> a) (put_below a b ?f) = ?f"
    unfolding f(2) using assms(5) by (simp add: f(1) filter_notin)
qed

lemma es_x_call [simp]: "es_x (call a c e) = es_x e"
  by (simp add: call_def)

lemma StackWindowAtTopOfLayer_eq:
  assumes "stacking_ok s" "l < 12" "dk_windows d xid = Some win" "GetXidForLayer s (int l) = Some m"
  shows "if l = 11 then StackWindowAtTopOfLayer C s xid (int l) d = None
    else m \<noteq> 0 \<longrightarrow> (\<exists>d'. StackWindowAtTopOfLayer C s xid (int l) d =
      Some (fst (x_request (wm_xconn C) (StackWindow (w_xid win) m False) (es_x (dk_env d))), d')
      \<and> es_x (dk_env d') = snd (x_request (wm_xconn C) (StackWindow (w_xid win) m False) (es_x (dk_env d))))"
proof -
  have a: "GetActorForLayer s (int l) = Some (LayerActor (int l))"
    "GetActorForLayer s (int l + 1) = (if l = 11 then None else Some (LayerActor (int l + 1)))"
    using assms(1,2) by (auto simp: stacking_ok_def GetActorForLayer_def)
  show ?thesis
  proof (cases "l = 11")
    case True
    with a show ?thesis by (cases "GetActorForLayer s 11") (simp_all add: StackWindowAtTopOfLayer_def)
  next
    case False
    then show ?thesis
      by (auto simp: StackWindowAtTopOfLayer_def a assms(3,4) on_win_def try_win_def StackCompositedBelow_def stack_shadow_def
          with_shadow_def StackClientBelow_def request_def Let_def split: prod.splits)
  qed
qed

lemma GetXidForLayer_mark:
  assumes "stacking_ok s" "l < 12"
  shows "GetXidForLayer s (int l) = Some (marks s ! l)" "marks s ! l \<noteq> 0"
proof -
  have m: "marks s ! l = layer_xid s l" using assms(2) by (simp add: marks_def)
  obtain y where y: "map_of (layer_to_xid s) (int l) = Some y" "y \<noteq> 0"
    using assms unfolding stacking_ok_def by fastforce
  then show "GetXidForLayer s (int l) = Some (marks s ! l)" "marks s ! l \<noteq> 0"
    by (simp_all add: GetXidForLayer_def m layer_xid_def)
qed

text \<open>
  C33: layers. With a server that stacks windows as asked, \<open>StackingManager\<close> starts with the marks of its
  twelve layers in order on top of the stack. \<open>StackXidAtTopOfLayer\<close>, for any window that is not a mark, never
  aborts; when the server agrees it puts the window directly under the mark of the layer, so above
  everything of lower layers, keeps the marks in order and does not change the order of other windows.
  \<open>StackWindowAtTopOfLayer\<close> does the same for every layer but the bottom one, for which it aborts.
\<close>

theorem StackingManager_layers:
  assumes "stacks (wm_xconn C) st" "new_StackingManager (wm_xconn C) r e0 = (s, e1)"
    "layered s (st (es_x (dk_env d)))" "xid \<notin> set (marks s)" "l < 12"
  shows "st (es_x e1) = marks s @ st (es_x e0) \<and>
    (\<exists>ok d'. StackXidAtTopOfLayer C s xid (int l) d = Some (ok, d') \<and>
      (ok \<longrightarrow> layered s (st (es_x (dk_env d'))) \<and>
        (\<exists>pre post. st (es_x (dk_env d')) = pre @ marks s ! l # xid # post
          \<and> pre @ marks s ! l # post = filter (\<lambda>z. z \<noteq> xid) (st (es_x (dk_env d)))))) \<and>
    (\<forall>win. dk_windows d xid = Some win \<and> w_xid win = xid \<longrightarrow>
      (if l = 11 then StackWindowAtTopOfLayer C s xid (int l) d = None
       else \<exists>ok d'. StackWindowAtTopOfLayer C s xid (int l) d = Some (ok, d') \<and>
        (ok \<longrightarrow> layered s (st (es_x (dk_env d'))) \<and>
          (\<exists>pre post. st (es_x (dk_env d')) = pre @ marks s ! l # xid # post
            \<and> pre @ marks s ! l # post = filter (\<lambda>z. z \<noteq> xid) (st (es_x (dk_env d)))))))"
proof -
  note new = new_StackingManager_layers[OF assms(1,2)]
  let ?m = "marks s ! l" and ?st = "st (es_x (dk_env d))"
  have g: "GetXidForLayer s (int l) = Some ?m" "?m \<noteq> 0" by (rule GetXidForLayer_mark[OF new(1) assms(5)])+
  have mem: "?m \<in> set (marks s)" using assms(5) by (intro nth_mem) (simp add: marks_def)
  have in_st: "?m \<in> set ?st" using assms(3) mem unfolding layered_def by (metis subseq_conv_nths notin_set_nthsI)
  have ne: "xid \<noteq> ?m" using assms(4) mem by auto
  have dist: "distinct ?st" using assms(1) by (simp add: stacks_def)
  have moved: "layered s (st x') \<and> (\<exists>pre post. st x' = pre @ ?m # xid # post \<and> pre @ ?m # post = filter (\<lambda>z. z \<noteq> xid) ?st)"
    if "x_request (wm_xconn C) (StackWindow xid ?m False) (es_x (dk_env d)) = (True, x')" for x'
  proof -
    have "st x' = put_below xid ?m (filter (\<lambda>z. z \<noteq> xid) ?st)" using assms(1) that ne unfolding stacks_def by blast
    then show ?thesis
      using put_split[OF dist in_st ne] layered_restack(1)[OF assms(3) dist assms(4) in_st ne] by (metis (no_types))
  qed
  have "\<exists>ok d'. StackXidAtTopOfLayer C s xid (int l) d = Some (ok, d') \<and>
      (ok \<longrightarrow> layered s (st (es_x (dk_env d'))) \<and>
        (\<exists>pre post. st (es_x (dk_env d')) = pre @ ?m # xid # post \<and> pre @ ?m # post = filter (\<lambda>z. z \<noteq> xid) ?st))"
    using moved by (cases "x_request (wm_xconn C) (StackWindow xid ?m False) (es_x (dk_env d))")
      (auto simp: StackXidAtTopOfLayer_def g desk_request_def request_def)
  moreover have "if l = 11 then StackWindowAtTopOfLayer C s xid (int l) d = None
       else \<exists>ok d'. StackWindowAtTopOfLayer C s xid (int l) d = Some (ok, d') \<and>
        (ok \<longrightarrow> layered s (st (es_x (dk_env d'))) \<and>
          (\<exists>pre post. st (es_x (dk_env d')) = pre @ ?m # xid # post \<and> pre @ ?m # post = filter (\<lambda>z. z \<noteq> xid) ?st))"
    if "dk_windows d xid = Some win" "w_xid win = xid" for win
    using StackWindowAtTopOfLayer_eq[OF new(1) assms(5) that(1) g(1), of C] g moved that
    by (cases "x_request (wm_xconn C) (StackWindow xid ?m False) (es_x (dk_env d))") auto
  ultimately show ?thesis using new(2) by blast
qed

text \<open>A server whose state is the stack.\<close>

definition fresh_xid :: "xid list \<Rightarrow> xid" where
  "fresh_xid x = Suc (sum_list x)"

definition stack_conn :: "xid list xconn" where
  "stack_conn = \<lparr>GetAtoms = (\<lambda>_ x. (None, x)), GetAtomName = (\<lambda>_ _. None), GetSelectionOwner = (\<lambda>_ _. 0),
     GetIntArrayProperty = (\<lambda>_ _ _. None), SetIntArrayProperty = (\<lambda>_ _ _ _ x. (True, x)),
     SetStringProperty = (\<lambda>_ _ _ x. (True, x)), SendClientMessageEvent = (\<lambda>_ _ _ _ _ x. (True, x)),
     x_request = (\<lambda>r x. case r of
       StackWindow a b abv \<Rightarrow>
         if b \<in> set x \<and> a \<noteq> b
         then (True, (if abv then put_above else put_below) a b (filter (\<lambda>z. z \<noteq> a) (remdups x))) else (False, x)
     | _ \<Rightarrow> (True, x)),
     GetWindowGeometry = (\<lambda>_ _. None), GetMapState = (\<lambda>_ _. None),
     IsWindowShaped = (\<lambda>_ _. False), GetWindowBoundingRegion = (\<lambda>_ _ _. None),
     CreateWindow = (\<lambda>_ _ _ _ _ _ _ _ x. (fresh_xid x, fresh_xid x # x)), WaitForPropertyChange = (\<lambda>_ x. (None, x)),
     QueryPointerPosition = (\<lambda>_. None)\<rparr>"

lemma fresh_xid: "fresh_xid x \<notin> set x"
  using member_le_sum_list[of "Suc (sum_list x)" x] by (auto simp: fresh_xid_def)

lemma stack_conn_stacks: "stacks stack_conn remdups"
proof -
  have "remdups (put_below a b (filter (\<lambda>z. z \<noteq> a) (remdups x))) = put_below a b (filter (\<lambda>z. z \<noteq> a) (remdups x))"
    "remdups (put_above a b (filter (\<lambda>z. z \<noteq> a) (remdups x))) = put_above a b (filter (\<lambda>z. z \<noteq> a) (remdups x))"
    if ab: "b \<in> set x" "a \<noteq> b" for a b x
  proof -
    obtain pre post where f: "filter (\<lambda>z. z \<noteq> a) (remdups x) = pre @ b # post"
      "put_below a b (filter (\<lambda>z. z \<noteq> a) (remdups x)) = pre @ b # a # post"
      "put_above a b (filter (\<lambda>z. z \<noteq> a) (remdups x)) = pre @ a # b # post"
      by (rule put_split[OF distinct_remdups[of x], of b a]) (use ab in simp_all)
    have "distinct (pre @ b # post)" "a \<notin> set (pre @ b # post)" unfolding f(1)[symmetric] by simp_all
    then show "remdups (put_below a b (filter (\<lambda>z. z \<noteq> a) (remdups x))) = put_below a b (filter (\<lambda>z. z \<noteq> a) (remdups x))"
      "remdups (put_above a b (filter (\<lambda>z. z \<noteq> a) (remdups x))) = put_above a b (filter (\<lambda>z. z \<noteq> a) (remdups x))"
      unfolding f(2,3) using ab(2) by (auto simp: distinct_remdups_id)
  qed
  then show ?thesis
    by (auto simp: stacks_def stack_conn_def fresh_xid split: if_splits) (simp add: fresh_xid_def)
qed

definition stack_ctx :: "xid list wmctx" where
  "stack_ctx = \<lparr>wm_xconn = stack_conn, wm_atom = (\<lambda>_. 1),
     wm_ipc_ctx = \<lparr>ipc_cache = \<lparr>atom_to_xatom = (\<lambda>_. Some 1), xatom_to_string = []\<rparr>, ipc_wm_window = 0\<rparr>,
     wm_shadow_dims = \<lparr>kInset = 1, kTopHeight = 2, kBottomHeight = 2, kLeftWidth = 2, kRightWidth = 2\<rparr>,
     FLAGS_window_drop_shadows = False\<rparr>"

definition bare_desk :: "'x env \<Rightarrow> 'x desk" where
  "bare_desk e = \<lparr>dk_env = e, dk_windows = (\<lambda>_. None), dk_width = 1280, dk_height = 800, dk_active_window_xid = 0,
     dk_consumers = \<lparr>window_event_consumers = [], property_change_event_consumers = [], chrome_message_event_consumers = []\<rparr>\<rparr>"

theorem StackingManager_layers_witness:
  "\<exists>s e1 d'. new_StackingManager stack_conn 1 \<lparr>es_x = [50, 60], es_clutter = []\<rparr> = (s, e1)
     \<and> StackXidAtTopOfLayer stack_ctx s 60 5 (bare_desk e1) = Some (True, d')
     \<and> layered s (remdups (es_x (dk_env d')))"
proof -
  let ?e = "\<lparr>es_x = [50, 60], es_clutter = []\<rparr> :: xid list env"
  obtain s e1 where n: "new_StackingManager stack_conn 1 ?e = (s, e1)" by force
  have st: "stacks (wm_xconn stack_ctx) remdups" "wm_xconn stack_ctx = stack_conn"
    using stack_conn_stacks by (simp_all add: stack_ctx_def)
  note l = new_StackingManager_layers[OF stack_conn_stacks n]
  have "distinct (marks s @ [50, 60])" using l(2) distinct_remdups[of "es_x e1"] by simp
  then have m: "60 \<notin> set (marks s)" by simp
  have in_m: "marks s ! 5 \<in> set (marks s)" by (rule nth_mem) (simp add: marks_def)
  have "set (marks s) \<subseteq> set (remdups (es_x e1))" unfolding l(2) by auto
  with in_m m have x: "marks s ! 5 \<in> set (es_x e1)" "60 \<noteq> marks s ! 5" by auto
  have lay: "layered s (remdups (es_x (dk_env (bare_desk e1))))" using l(3) by (simp add: bare_desk_def)
  obtain ok d' where r: "StackXidAtTopOfLayer stack_ctx s 60 5 (bare_desk e1) = Some (ok, d')"
    "ok \<longrightarrow> layered s (remdups (es_x (dk_env d')))"
    using StackingManager_layers[OF st(1), of 1 ?e s e1 "bare_desk e1" 60 5] n m lay st(2) by auto
  have "ok" using r(1) x GetXidForLayer_mark(1)[OF l(1), of 5]
    by (auto simp: StackXidAtTopOfLayer_def desk_request_def request_def st(2) stack_conn_def bare_desk_def)
  with r n show ?thesis by auto
qed

end
