(* ===== verification/WM_Panel.thy ===== *)
theory WM_Panel
  imports WM_Stacking
begin

text \<open>
  \<open>Panel\<close> (\<open>window_manager/panel.h\<close>, \<open>panel.cc\<close>): a content window with a titlebar above it, the
  invisible windows around them that are dragged to resize the panel, and its state.

  A pointer to a \<open>Panel\<close> is its id; the panels are a map in the desk. \<open>ResizeContent\<close> tells the panel
  manager, whose method is an argument here; theory \<open>WM_Panels\<close> supplies it.
\<close>

section \<open>State\<close>

type_synonym pid = nat

record panel =
  pn_content :: xid
  pn_titlebar :: xid
  pn_is_expanded :: bool
  pn_resize_actor :: bool
  pn_coalescer :: coalescer
  pn_top_input :: xid
  pn_top_left_input :: xid
  pn_top_right_input :: xid
  pn_left_input :: xid
  pn_right_input :: xid
  pn_resizable :: bool
  pn_set_up :: bool
  pn_drag_xid :: xid
  pn_drag_gravity :: Gravity
  pn_drag_start_x :: int
  pn_drag_start_y :: int
  pn_drag_orig_width :: int
  pn_drag_orig_height :: int
  pn_drag_last_width :: int
  pn_drag_last_height :: int
  pn_registrar :: registrar

record 'x pdesk = "'x desk" +
  dk_panels :: "pid \<Rightarrow> panel option"

record 'x panelctx = "'x deskctx" +
  pc_stacking :: stacking
  pc_panel_manager :: consumer
  FLAGS_panel_max_width :: int
  FLAGS_panel_max_height :: int
  FLAGS_panel_opaque_resize :: bool

definition kResizeActorOpacityAnimMs :: int where "kResizeActorOpacityAnimMs = 150"
definition kPanelMinWidth :: int where "kPanelMinWidth = 20"
definition kPanelMinHeight :: int where "kPanelMinHeight = 20"
definition kResizeUpdateMs :: int where "kResizeUpdateMs = 25"
definition kResizeBoxOpacity :: double where "kResizeBoxOpacity = rnd (3 / 10)"
definition kResizeBorderWidth :: int where "kResizeBorderWidth = 5"
definition kResizeCornerSize :: int where "kResizeCornerSize = 25"

definition upd_panel :: "pid \<Rightarrow> (panel \<Rightarrow> panel) \<Rightarrow> ('x, 'd) pdesk_scheme \<Rightarrow> ('x, 'd) pdesk_scheme" where
  "upd_panel pid f d = d\<lparr>dk_panels := (dk_panels d)(pid := map_option f (dk_panels d pid))\<rparr>"

text \<open>The panel with its content and titlebar windows, and the accessors of the class.\<close>

definition panel_wins :: "pid \<Rightarrow> ('x, 'd) pdesk_scheme \<Rightarrow> (panel \<times> window \<times> window) option" where
  "panel_wins pid d = do {
     p \<leftarrow> dk_panels d pid;
     c \<leftarrow> dk_windows d (pn_content p);
     t \<leftarrow> dk_windows d (pn_titlebar p);
     Some (p, c, t) }"

definition content_x :: "panel \<times> window \<times> window \<Rightarrow> int" where
  "content_x v = composited_x (fst (snd v))"

definition content_width :: "panel \<times> window \<times> window \<Rightarrow> int" where
  "content_width v = client_width (fst (snd v))"

definition content_height :: "panel \<times> window \<times> window \<Rightarrow> int" where
  "content_height v = client_height (fst (snd v))"

definition titlebar_y :: "panel \<times> window \<times> window \<Rightarrow> int" where
  "titlebar_y v = composited_y (snd (snd v))"

definition titlebar_width :: "panel \<times> window \<times> window \<Rightarrow> int" where
  "titlebar_width v = client_width (snd (snd v))"

definition titlebar_height :: "panel \<times> window \<times> window \<Rightarrow> int" where
  "titlebar_height v = client_height (snd (snd v))"

definition panel_right :: "panel \<times> window \<times> window \<Rightarrow> int" where
  "panel_right v = content_x v + content_width v"

definition panel_width :: "panel \<times> window \<times> window \<Rightarrow> int" where
  "panel_width v = content_width v"

definition content_center :: "panel \<times> window \<times> window \<Rightarrow> int" where
  "content_center v = dbl_to_int (dbl_add (of_int (content_x v)) (dbl_mult (1/2) (of_int (content_width v))))"

definition total_height :: "panel \<times> window \<times> window \<Rightarrow> int" where
  "total_height v = content_height v + titlebar_height v"

section \<open>Input windows\<close>

definition Panel_GetInputWindows :: "panel \<Rightarrow> xid list" where
  "Panel_GetInputWindows p =
     [pn_top_input p, pn_top_left_input p, pn_top_right_input p, pn_left_input p, pn_right_input p]"

definition do_requests :: "('x, 'c) wmctx_scheme \<Rightarrow> xreq list \<Rightarrow> ('x, 'd) desk_scheme \<Rightarrow> ('x, 'd) desk_scheme" where
  "do_requests C rs d = fold (do_request C) rs d"

text \<open>The requests \<open>ConfigureInputWindows\<close> makes.\<close>

definition input_window_requests :: "panel \<times> window \<times> window \<Rightarrow> xreq list" where
  "input_window_requests v = (case v of (p, c, t) \<Rightarrow>
     if \<not> pn_resizable p then map ConfigureWindowOffscreen (Panel_GetInputWindows p)
     else
       (if content_width v + 2 * (kResizeBorderWidth - kResizeCornerSize) \<le> 0
        then ConfigureWindowOffscreen (pn_top_input p)
        else ConfigureWindow (pn_top_input p)
               (content_x v - kResizeBorderWidth + kResizeCornerSize) (client_y t - kResizeBorderWidth)
               (content_width v + 2 * (kResizeBorderWidth - kResizeCornerSize)) kResizeBorderWidth) #
       ConfigureWindow (pn_top_left_input p) (content_x v - kResizeBorderWidth) (client_y t - kResizeBorderWidth)
         kResizeCornerSize kResizeCornerSize #
       ConfigureWindow (pn_top_right_input p) (panel_right v + kResizeBorderWidth - kResizeCornerSize)
         (client_y t - kResizeBorderWidth) kResizeCornerSize kResizeCornerSize #
       (let resize_edge_height = client_height t + client_height c + kResizeBorderWidth - kResizeCornerSize
        in if resize_edge_height \<le> 0
           then [ConfigureWindowOffscreen (pn_left_input p), ConfigureWindowOffscreen (pn_right_input p)]
           else [ConfigureWindow (pn_left_input p) (content_x v - kResizeBorderWidth)
                   (client_y t - kResizeBorderWidth + kResizeCornerSize) kResizeBorderWidth resize_edge_height,
                 ConfigureWindow (pn_right_input p) (panel_right v)
                   (client_y t - kResizeBorderWidth + kResizeCornerSize) kResizeBorderWidth resize_edge_height]))"

definition ConfigureInputWindows ::
    "('x, 'c) wmctx_scheme \<Rightarrow> pid \<Rightarrow> ('x, 'd) pdesk_scheme \<Rightarrow> ('x, 'd) pdesk_scheme option" where
  "ConfigureInputWindows C pid d = do {
     v \<leftarrow> panel_wins pid d;
     Some (do_requests C (input_window_requests v) d) }"

definition StackInputWindows ::
    "('x, 'c) wmctx_scheme \<Rightarrow> pid \<Rightarrow> ('x, 'd) pdesk_scheme \<Rightarrow> ('x, 'd) pdesk_scheme option" where
  "StackInputWindows C pid d = do {
     p \<leftarrow> dk_panels d pid;
     Some (do_requests C (map (\<lambda>xid. StackWindow xid (pn_content p) False) (Panel_GetInputWindows p)) d) }"

section \<open>Moving\<close>

definition move_client_windows ::
    "('x, 'c) wmctx_scheme \<Rightarrow> pid \<Rightarrow> ('x, 'd) pdesk_scheme \<Rightarrow> ('x, 'd) pdesk_scheme option" where
  "move_client_windows C pid d = do {
     p \<leftarrow> dk_panels d pid;
     (_, d) \<leftarrow> ask_win (pn_titlebar p) (MoveClientToComposited C) d;
     (_, d) \<leftarrow> ask_win (pn_content p) (MoveClientToComposited C) d;
     ConfigureInputWindows C pid d }"

definition set_up_window :: "('x, 'c) wmctx_scheme \<Rightarrow> window \<times> 'x env \<Rightarrow> window \<times> 'x env" where
  "set_up_window C we = ShowComposited (SetCompositedOpacity 1 0 (ScaleComposited C 1 1 0 we))"

definition Panel_Move ::
    "('x, 'c) wmctx_scheme \<Rightarrow> pid \<Rightarrow> int \<Rightarrow> int \<Rightarrow> bool \<Rightarrow> int \<Rightarrow> ('x, 'd) pdesk_scheme \<Rightarrow> ('x, 'd) pdesk_scheme option" where
  "Panel_Move C pid right y move_clients anim_ms d = do {
     (p, c, t) \<leftarrow> panel_wins pid d;
     d \<leftarrow> on_win (pn_titlebar p) (MoveComposited (right - client_width t) y anim_ms) d;
     d \<leftarrow> on_win (pn_content p) (MoveComposited (right - client_width c) (y + client_height t) anim_ms) d;
     d \<leftarrow> (if \<not> pn_set_up p then do {
            d \<leftarrow> on_win (pn_titlebar p) (set_up_window C) d;
            d \<leftarrow> on_win (pn_content p) (set_up_window C) d;
            Some (upd_panel pid (\<lambda>p. p\<lparr>pn_set_up := True\<rparr>) d) }
          else Some d);
     if move_clients then move_client_windows C pid d else Some d }"

definition Panel_MoveX ::
    "('x, 'c) wmctx_scheme \<Rightarrow> pid \<Rightarrow> int \<Rightarrow> bool \<Rightarrow> int \<Rightarrow> ('x, 'd) pdesk_scheme \<Rightarrow> ('x, 'd) pdesk_scheme option" where
  "Panel_MoveX C pid right move_clients anim_ms d = do {
     (p, c, t) \<leftarrow> panel_wins pid d;
     d \<leftarrow> on_win (pn_titlebar p) (MoveCompositedX (right - client_width t) anim_ms) d;
     d \<leftarrow> on_win (pn_content p) (MoveCompositedX (right - client_width c) anim_ms) d;
     if move_clients then move_client_windows C pid d else Some d }"

definition Panel_MoveY ::
    "('x, 'c) wmctx_scheme \<Rightarrow> pid \<Rightarrow> int \<Rightarrow> bool \<Rightarrow> int \<Rightarrow> ('x, 'd) pdesk_scheme \<Rightarrow> ('x, 'd) pdesk_scheme option" where
  "Panel_MoveY C pid y move_clients anim_ms d = do {
     (p, c, t) \<leftarrow> panel_wins pid d;
     d \<leftarrow> on_win (pn_titlebar p) (MoveCompositedY y anim_ms) d;
     d \<leftarrow> on_win (pn_content p) (MoveCompositedY (y + client_height t) anim_ms) d;
     if move_clients then move_client_windows C pid d else Some d }"

definition SetTitlebarWidth ::
    "('x, 'c) wmctx_scheme \<Rightarrow> pid \<Rightarrow> int \<Rightarrow> ('x, 'd) pdesk_scheme \<Rightarrow> ('x, 'd) pdesk_scheme option" where
  "SetTitlebarWidth C pid width d = do {
     CHECK (width > 0);
     (p, c, t) \<leftarrow> panel_wins pid d;
     (_, d) \<leftarrow> ask_win (pn_titlebar p) (ResizeClient C width (client_height t) GRAVITY_NORTHEAST) d;
     Some d }"

definition Panel_SetShadowOpacity ::
    "pid \<Rightarrow> double \<Rightarrow> int \<Rightarrow> ('x, 'd) pdesk_scheme \<Rightarrow> ('x, 'd) pdesk_scheme option" where
  "Panel_SetShadowOpacity pid opacity anim_ms d = do {
     p \<leftarrow> dk_panels d pid;
     d \<leftarrow> on_win (pn_titlebar p) (Window_SetShadowOpacity opacity anim_ms) d;
     on_win (pn_content p) (Window_SetShadowOpacity opacity anim_ms) d }"

definition SetResizable ::
    "('x, 'c) wmctx_scheme \<Rightarrow> pid \<Rightarrow> bool \<Rightarrow> ('x, 'd) pdesk_scheme \<Rightarrow> ('x, 'd) pdesk_scheme option" where
  "SetResizable C pid resizable d = do {
     p \<leftarrow> dk_panels d pid;
     if resizable \<noteq> pn_resizable p
     then ConfigureInputWindows C pid (upd_panel pid (\<lambda>p. p\<lparr>pn_resizable := resizable\<rparr>) d)
     else Some d }"

definition StackAtTopOfLayer ::
    "('x, 'c) panelctx_scheme \<Rightarrow> pid \<Rightarrow> int \<Rightarrow> ('x, 'd) pdesk_scheme \<Rightarrow> ('x, 'd) pdesk_scheme option" where
  "StackAtTopOfLayer C pid layer d = do {
     p \<leftarrow> dk_panels d pid;
     (_, d) \<leftarrow> StackWindowAtTopOfLayer C (pc_stacking C) (pn_content p) layer d;
     (_, d) \<leftarrow> StackWindowAtTopOfLayer C (pc_stacking C) (pn_titlebar p) layer d;
     StackInputWindows C pid d }"

definition StackAbovePanel ::
    "('x, 'c) panelctx_scheme \<Rightarrow> pid \<Rightarrow> pid \<Rightarrow> int \<Rightarrow> ('x, 'd) pdesk_scheme \<Rightarrow> ('x, 'd) pdesk_scheme option" where
  "StackAbovePanel C pid sibling layer d = do {
     p \<leftarrow> dk_panels d pid;
     q \<leftarrow> dk_panels d sibling;
     (_, d) \<leftarrow> StackWindowRelativeToOtherWindow C (pc_stacking C) (pn_titlebar p) (pn_titlebar q) True layer d;
     (_, d) \<leftarrow> StackWindowRelativeToOtherWindow C (pc_stacking C) (pn_content p) (pn_titlebar p) False layer d;
     StackInputWindows C pid d }"

section \<open>Expanded state and grabs\<close>

definition Panel_UpdateChromeStateProperty ::
    "('x, 'c) wmctx_scheme \<Rightarrow> pid \<Rightarrow> ('x, 'd) pdesk_scheme \<Rightarrow> (bool \<times> ('x, 'd) pdesk_scheme) option" where
  "Panel_UpdateChromeStateProperty C pid d = do {
     p \<leftarrow> dk_panels d pid;
     let atom = wm_atom C ATOM_CHROME_STATE_COLLAPSED_PANEL;
     ask_win (pn_content p) (ChangeChromeState C [(atom, \<not> pn_is_expanded p)]) d }"

definition SetExpandedState ::
    "('x, 'c) wmctx_scheme \<Rightarrow> pid \<Rightarrow> bool \<Rightarrow> ('x, 'd) pdesk_scheme \<Rightarrow> (bool \<times> ('x, 'd) pdesk_scheme) option" where
  "SetExpandedState C pid expanded d = do {
     p \<leftarrow> dk_panels d pid;
     if expanded = pn_is_expanded p then Some (True, d)
     else do {
       let d = upd_panel pid (\<lambda>p. p\<lparr>pn_is_expanded := expanded\<rparr>) d;
       msg \<leftarrow> set_param 0 (if expanded then 1 else 0) (new_Message CHROME_NOTIFY_PANEL_STATE);
       (success, xs) \<leftarrow> SendMessage (wm_xconn C) (wm_ipc_ctx C) (pn_content p) msg (es_x (dk_env d));
       let d = on_env (\<lambda>e. e\<lparr>es_x := xs\<rparr>) d;
       (ok, d) \<leftarrow> Panel_UpdateChromeStateProperty C pid d;
       Some (success \<and> ok, d) } }"

definition Panel_AddButtonGrab ::
    "('x, 'c) wmctx_scheme \<Rightarrow> pid \<Rightarrow> ('x, 'd) pdesk_scheme \<Rightarrow> ('x, 'd) pdesk_scheme option" where
  "Panel_AddButtonGrab C pid d = do {
     p \<leftarrow> dk_panels d pid;
     (_, d) \<leftarrow> ask_win (pn_content p) (Window_AddButtonGrab C) d;
     Some d }"

definition Panel_RemoveButtonGrab ::
    "('x, 'c) wmctx_scheme \<Rightarrow> pid \<Rightarrow> bool \<Rightarrow> ('x, 'd) pdesk_scheme \<Rightarrow> ('x, 'd) pdesk_scheme option" where
  "Panel_RemoveButtonGrab C pid remove_pointer_grab d = do {
     p \<leftarrow> dk_panels d pid;
     (_, d) \<leftarrow> ask_win (pn_content p) (Window_RemoveButtonGrab C) d;
     Some (if remove_pointer_grab then do_request C (RemovePointerGrab True CurrentTime) d else d) }"

section \<open>Resizing\<close>

text \<open>\<open>resized\<close> stands for \<open>PanelManager::HandlePanelResize\<close>.\<close>

definition ResizeContent ::
    "('x, 'c) wmctx_scheme \<Rightarrow> (pid \<Rightarrow> ('x, 'd) pdesk_scheme \<Rightarrow> ('x, 'd) pdesk_scheme option) \<Rightarrow>
     pid \<Rightarrow> int \<Rightarrow> int \<Rightarrow> Gravity \<Rightarrow> ('x, 'd) pdesk_scheme \<Rightarrow> ('x, 'd) pdesk_scheme option" where
  "ResizeContent C resized pid width height gravity d = do {
     (p, c, t) \<leftarrow> panel_wins pid d;
     let changing_height = (height \<noteq> client_height c);
     (_, d) \<leftarrow> ask_win (pn_content p) (ResizeClient C width height gravity) d;
     (p, c, t) \<leftarrow> panel_wins pid d;
     (_, d) \<leftarrow> ask_win (pn_titlebar p) (ResizeClient C width (client_height t) gravity) d;
     d \<leftarrow> (if changing_height then do {
            (p, c, t) \<leftarrow> panel_wins pid d;
            d \<leftarrow> on_win (pn_titlebar p) (MoveCompositedY (composited_y c - client_height t) 0) d;
            (_, d) \<leftarrow> ask_win (pn_titlebar p) (MoveClientToComposited C) d;
            Some d }
          else Some d);
     d \<leftarrow> ConfigureInputWindows C pid d;
     resized pid d }"

text \<open>The drag's direction: the gravity and what is added to the width and height.\<close>

definition drag_change :: "panel \<Rightarrow> int \<Rightarrow> int \<Rightarrow> Gravity \<times> int \<times> int" where
  "drag_change p dx dy =
     (if pn_drag_xid p = pn_top_input p then (GRAVITY_SOUTHWEST, 0, - dy)
      else if pn_drag_xid p = pn_top_left_input p then (GRAVITY_SOUTHEAST, - dx, - dy)
      else if pn_drag_xid p = pn_top_right_input p then (GRAVITY_SOUTHWEST, dx, - dy)
      else if pn_drag_xid p = pn_left_input p then (GRAVITY_NORTHEAST, - dx, 0)
      else if pn_drag_xid p = pn_right_input p then (GRAVITY_NORTHWEST, dx, 0)
      else (GRAVITY_NORTHWEST, dx, dy))"

definition ApplyResize ::
    "('x, 'c) panelctx_scheme \<Rightarrow> (pid \<Rightarrow> ('x, 'd) pdesk_scheme \<Rightarrow> ('x, 'd) pdesk_scheme option) \<Rightarrow>
     pid \<Rightarrow> ('x, 'd) pdesk_scheme \<Rightarrow> ('x, 'd) pdesk_scheme option" where
  "ApplyResize C resized pid d = do {
     p \<leftarrow> dk_panels d pid;
     let (gravity, dx, dy) =
       drag_change p (mc_x (pn_coalescer p) - pn_drag_start_x p) (mc_y (pn_coalescer p) - pn_drag_start_y p);
     let last_width = max (pn_drag_orig_width p + dx) kPanelMinWidth;
     let last_height = max (pn_drag_orig_height p + dy) kPanelMinHeight;
     let d = upd_panel pid (\<lambda>p. p\<lparr>pn_drag_gravity := gravity, pn_drag_last_width := last_width,
                                  pn_drag_last_height := last_height\<rparr>) d;
     if FLAGS_panel_opaque_resize C then ResizeContent C resized pid last_width last_height gravity d
     else if pn_resize_actor p then do {
       t \<leftarrow> dk_windows d (pn_titlebar p);
       let actor_x = client_x t -
         (if gravity = GRAVITY_SOUTHEAST \<or> gravity = GRAVITY_NORTHEAST then last_width - pn_drag_orig_width p else 0);
       let actor_y = client_y t -
         (if gravity = GRAVITY_SOUTHWEST \<or> gravity = GRAVITY_SOUTHEAST then last_height - pn_drag_orig_height p else 0);
       Some (on_env (calls [(ResizeActor pid, Move actor_x actor_y 0),
                            (ResizeActor pid, SetSize last_width (last_height + client_height t))]) d) }
     else Some d }"

text \<open>An operation of the coalescer, which may run its callback once.\<close>

definition coalesced ::
    "pid \<Rightarrow> (coalescer \<Rightarrow> coalescer) \<Rightarrow> (('x, 'd) pdesk_scheme \<Rightarrow> ('x, 'd) pdesk_scheme option) \<Rightarrow>
     ('x, 'd) pdesk_scheme \<Rightarrow> ('x, 'd) pdesk_scheme option" where
  "coalesced pid f callback d = do {
     p \<leftarrow> dk_panels d pid;
     let c = f ((pn_coalescer p)\<lparr>mc_log := []\<rparr>);
     let d = upd_panel pid (\<lambda>p. p\<lparr>pn_coalescer := c\<rparr>) d;
     if mc_log c \<noteq> [] then callback d else Some d }"

definition add_timeout :: "('x, 'c) deskctx_scheme \<Rightarrow> ('x, 'd) desk_scheme \<Rightarrow> nat \<times> ('x, 'd) desk_scheme" where
  "add_timeout C d = (case g_timeout_add C (es_x (dk_env d)) of (source, xs) \<Rightarrow> (source, on_env (\<lambda>e. e\<lparr>es_x := xs\<rparr>) d))"

definition start_coalescer ::
    "('x, 'c) deskctx_scheme \<Rightarrow> coalescer \<Rightarrow> ('x, 'd) desk_scheme \<Rightarrow> coalescer \<times> ('x, 'd) desk_scheme" where
  "start_coalescer C c d =
     (if mc_timer_id c \<noteq> 0 \<or> mc_synchronous c then (mc_Start 0 c, d)
      else (case add_timeout C d of (source, d) \<Rightarrow> (mc_Start source c, d)))"

definition HandleInputWindowButtonPress ::
    "('x, 'c) panelctx_scheme \<Rightarrow> pid \<Rightarrow> xid \<Rightarrow> int \<Rightarrow> int \<Rightarrow> int \<Rightarrow> ('x, 'd) pdesk_scheme \<Rightarrow> ('x, 'd) pdesk_scheme option" where
  "HandleInputWindowButtonPress C pid xid x y button d =
     (if button \<noteq> 1 then Some d
      else do {
        (p, c, t) \<leftarrow> panel_wins pid d;
        let (co, d) = start_coalescer C (pn_coalescer p) d;
        let d = upd_panel pid (\<lambda>p. p\<lparr>pn_drag_xid := xid, pn_drag_start_x := x, pn_drag_start_y := y,
            pn_drag_orig_width := client_width c, pn_drag_last_width := client_width c,
            pn_drag_orig_height := client_height c, pn_drag_last_height := client_height c, pn_coalescer := co\<rparr>) d;
        if \<not> FLAGS_panel_opaque_resize C then do {
          let a = ResizeActor pid;
          let d = on_env (calls [(Stage, AddActor a), (a, Move (client_x t) (client_y t) 0),
            (a, SetSize (client_width c) (client_height c + client_height t)), (a, SetOpacity 0 0),
            (a, SetOpacity kResizeBoxOpacity kResizeActorOpacityAnimMs)]) d;
          d \<leftarrow> StackActorAtTopOfLayer (pc_stacking C) a LAYER_DRAGGED_PANEL d;
          Some (upd_panel pid (\<lambda>p. p\<lparr>pn_resize_actor := True\<rparr>) (on_env (call a (SetVisibility True)) d)) }
        else Some d })"

definition HandleInputWindowButtonRelease ::
    "('x, 'c) panelctx_scheme \<Rightarrow> (pid \<Rightarrow> ('x, 'd) pdesk_scheme \<Rightarrow> ('x, 'd) pdesk_scheme option) \<Rightarrow>
     pid \<Rightarrow> xid \<Rightarrow> int \<Rightarrow> int \<Rightarrow> int \<Rightarrow> ('x, 'd) pdesk_scheme \<Rightarrow> ('x, 'd) pdesk_scheme option" where
  "HandleInputWindowButtonRelease C resized pid xid x y button d =
     (if button \<noteq> 1 then Some d
      else do {
        p \<leftarrow> dk_panels d pid;
        if xid \<noteq> pn_drag_xid p then Some d
        else do {
          d \<leftarrow> coalesced pid (StorePosition x y) (ApplyResize C resized pid) d;
          d \<leftarrow> coalesced pid mc_Stop (ApplyResize C resized pid) d;
          let d = upd_panel pid (\<lambda>p. p\<lparr>pn_drag_xid := XNone\<rparr>) d;
          if \<not> FLAGS_panel_opaque_resize C then do {
            let d = upd_panel pid (\<lambda>p. p\<lparr>pn_resize_actor := False\<rparr>) d;
            p \<leftarrow> dk_panels d pid;
            ResizeContent C resized pid (pn_drag_last_width p) (pn_drag_last_height p) (pn_drag_gravity p) d }
          else Some d } })"

definition HandleInputWindowPointerMotion ::
    "('x, 'c) panelctx_scheme \<Rightarrow> (pid \<Rightarrow> ('x, 'd) pdesk_scheme \<Rightarrow> ('x, 'd) pdesk_scheme option) \<Rightarrow>
     pid \<Rightarrow> xid \<Rightarrow> int \<Rightarrow> int \<Rightarrow> ('x, 'd) pdesk_scheme \<Rightarrow> ('x, 'd) pdesk_scheme option" where
  "HandleInputWindowPointerMotion C resized pid xid x y d = do {
     p \<leftarrow> dk_panels d pid;
     if xid \<noteq> pn_drag_xid p then Some d
     else coalesced pid (StorePosition x y) (ApplyResize C resized pid) d }"

text \<open>The timer of the coalescer.\<close>

definition panel_resize_timer ::
    "('x, 'c) panelctx_scheme \<Rightarrow> (pid \<Rightarrow> ('x, 'd) pdesk_scheme \<Rightarrow> ('x, 'd) pdesk_scheme option) \<Rightarrow>
     pid \<Rightarrow> ('x, 'd) pdesk_scheme \<Rightarrow> ('x, 'd) pdesk_scheme option" where
  "panel_resize_timer C resized pid d = coalesced pid (\<lambda>c. snd (mc_HandleTimer c)) (ApplyResize C resized pid) d"

definition Panel_HandleWindowConfigureRequest ::
    "('x, 'c) panelctx_scheme \<Rightarrow> (pid \<Rightarrow> ('x, 'd) pdesk_scheme \<Rightarrow> ('x, 'd) pdesk_scheme option) \<Rightarrow>
     pid \<Rightarrow> xid \<Rightarrow> int \<Rightarrow> int \<Rightarrow> ('x, 'd) pdesk_scheme \<Rightarrow> ('x, 'd) pdesk_scheme option" where
  "Panel_HandleWindowConfigureRequest C resized pid win req_width req_height d = do {
     p \<leftarrow> dk_panels d pid;
     if pn_drag_xid p \<noteq> XNone then Some d
     else if win \<noteq> pn_content p then Some d
     else do {
       c \<leftarrow> dk_windows d (pn_content p);
       if req_width \<noteq> client_width c \<or> req_height \<noteq> client_height c
       then ResizeContent C resized pid req_width req_height GRAVITY_SOUTHEAST d
       else Some d } }"

section \<open>Constructor and destructor\<close>

text \<open>The cursors of cursorfont.h.\<close>

definition XC_top_side :: int where "XC_top_side = 138"
definition XC_top_left_corner :: int where "XC_top_left_corner = 134"
definition XC_top_right_corner :: int where "XC_top_right_corner = 136"
definition XC_left_side :: int where "XC_left_side = 70"
definition XC_right_side :: int where "XC_right_side = 96"

definition capped :: "int \<Rightarrow> int \<Rightarrow> int" where
  "capped flag ext = (if flag > 0 then min ext flag else ext)"

text \<open>
  The five input windows are created in the order of the members. \<open>pid\<close> is the address of the new
  object; \<open>junk\<close> is what the memory of \<open>drag_gravity_\<close> held, which the constructor does not set.
\<close>

fun create_input_windows ::
    "('x, 'c) deskctx_scheme \<Rightarrow> nat \<Rightarrow> ('x, 'd) desk_scheme \<Rightarrow> (xid list \<times> ('x, 'd) desk_scheme) option" where
  "create_input_windows C 0 d = Some ([], d)"
| "create_input_windows C (Suc n) d = do {
     (xid, d) \<leftarrow> CreateInputWindow C (-1) (-1) 1 1 0 d;
     (xids, d) \<leftarrow> create_input_windows C n d;
     Some (xid # xids, d) }"

definition register_panel :: "('x, 'c) panelctx_scheme \<Rightarrow> panel \<Rightarrow> event_consumers \<Rightarrow> registrar \<times> event_consumers" where
  "register_panel C p m =
     RegisterForPropertyChanges (pn_content p) (wm_atom C ATOM_WM_HINTS)
       (fold RegisterForWindowEvents (pn_content p # pn_titlebar p # Panel_GetInputWindows p) (pn_registrar p, m))"

definition new_Panel ::
    "('x, 'c) panelctx_scheme \<Rightarrow> Gravity \<Rightarrow> pid \<Rightarrow> xid \<Rightarrow> xid \<Rightarrow> bool \<Rightarrow> ('x, 'd) pdesk_scheme \<Rightarrow> ('x, 'd) pdesk_scheme option" where
  "new_Panel C junk pid content_win titlebar_win is_expanded d = do {
     co \<leftarrow> new_MotionEventCoalescer kResizeUpdateMs;
     (xids, d) \<leftarrow> create_input_windows C 5 d;
     let p = \<lparr>pn_content = content_win, pn_titlebar = titlebar_win, pn_is_expanded = is_expanded,
       pn_resize_actor = False, pn_coalescer = co, pn_top_input = xids ! 0, pn_top_left_input = xids ! 1,
       pn_top_right_input = xids ! 2, pn_left_input = xids ! 3, pn_right_input = xids ! 4, pn_resizable = False,
       pn_set_up = False, pn_drag_xid = XNone, pn_drag_gravity = junk, pn_drag_start_x = 0, pn_drag_start_y = 0,
       pn_drag_orig_width = 1, pn_drag_orig_height = 1, pn_drag_last_width = 1, pn_drag_last_height = 1,
       pn_registrar = new_EventConsumerRegistrar (pc_panel_manager C)\<rparr>;
     let (r, m) = register_panel C p (dk_consumers d);
     let d = d\<lparr>dk_consumers := m, dk_panels := (dk_panels d)(pid \<mapsto> p\<lparr>pn_registrar := r\<rparr>)\<rparr>;
     (p, c, t) \<leftarrow> panel_wins pid d;
     let mask = ButtonPressMask + ButtonReleaseMask + PointerMotionMask;
     let d = do_requests C
       (SelectInputOnWindow titlebar_win EnterWindowMask True #
        map (\<lambda>xid. AddButtonGrabOnWindow xid 1 mask False) (Panel_GetInputWindows p)) d;
     let w = capped (FLAGS_panel_max_width C) (client_width c);
     let h = capped (FLAGS_panel_max_height C) (client_height c);
     d \<leftarrow> (if w \<noteq> client_width c \<or> h \<noteq> client_height c
          then map_option snd (ask_win content_win (ResizeClient C w h GRAVITY_NORTHWEST) d) else Some d);
     let d = do_requests C
       [SetWindowCursor (pn_top_input p) XC_top_side, SetWindowCursor (pn_top_left_input p) XC_top_left_corner,
        SetWindowCursor (pn_top_right_input p) XC_top_right_corner, SetWindowCursor (pn_left_input p) XC_left_side,
        SetWindowCursor (pn_right_input p) XC_right_side] d;
     (_, d) \<leftarrow> Panel_UpdateChromeStateProperty C pid d;
     Some d }"

definition destroy_Panel ::
    "('x, 'c) wmctx_scheme \<Rightarrow> pid \<Rightarrow> ('x, 'd) pdesk_scheme \<Rightarrow> ('x, 'd) pdesk_scheme option" where
  "destroy_Panel C pid d = do {
     p \<leftarrow> dk_panels d pid;
     let d = (if pn_drag_xid p \<noteq> XNone then do_request C (RemovePointerGrab False CurrentTime) d else d);
     t \<leftarrow> dk_windows d (pn_titlebar p);
     let d = do_requests C
       (DeselectInputOnWindow (w_xid t) EnterWindowMask # map DestroyWindow (Panel_GetInputWindows p)) d;
     (_, d) \<leftarrow> ask_win (pn_content p) (Window_RemoveButtonGrab C) d;
     let m = destroy_EventConsumerRegistrar (pn_registrar p, dk_consumers d);
     Some (d\<lparr>dk_consumers := m, dk_panels := (dk_panels d)(pid := None)\<rparr>) }"

end
