(* ===== verification/WM_PanelBar.thy ===== *)
theory WM_PanelBar
  imports WM_Panel
begin

text \<open>
  \<open>PanelBar\<close> (\<open>window_manager/panel_bar.h\<close>, \<open>panel_bar.cc\<close>): the panels at the bottom of the screen, packed
  to the right, expanded or collapsed, reordered as they are dragged, with the anchor under an expanded
  panel and the hiding of collapsed ones.

  \<open>layout\<close>, an argument of some methods, is \<open>LayoutManager::TakeFocus\<close>, which
  \<open>WindowManager::TakeFocus\<close> asks first. The image of the anchor has the size \<open>pc_anchor_size\<close>. That a timer
  of GLib is removed has no effect the code sees.
\<close>

section \<open>State\<close>

record panel_info =
  snapped_right :: int
  is_urgent :: bool

datatype CollapsedPanelState =
    COLLAPSED_PANEL_STATE_SHOWN
  | COLLAPSED_PANEL_STATE_HIDDEN
  | COLLAPSED_PANEL_STATE_WAITING_TO_SHOW
  | COLLAPSED_PANEL_STATE_WAITING_TO_HIDE

datatype PanelSource = PANEL_SOURCE_NEW | PANEL_SOURCE_DRAGGED | PANEL_SOURCE_DROPPED

record panel_bar =
  total_panel_width :: int
  bar_panels :: "pid list"
  panel_infos :: "pid \<Rightarrow> panel_info option"
  dragged_panel :: "pid option"
  dragging_panel_horizontally :: bool
  anchor_input_xid :: xid
  anchor_panel :: "pid option"
  anchor_pointer_watcher :: "watcher option"
  desired_panel_to_focus :: "pid option"
  collapsed_panel_state :: CollapsedPanelState
  show_collapsed_panels_input_xid :: xid
  show_collapsed_panels_timer_id :: nat
  hide_collapsed_panels_pointer_watcher :: "watcher option"
  bar_registrar :: registrar

record 'x bdesk = "'x pdesk" +
  dk_bar :: panel_bar

record 'x barctx = "'x panelctx" +
  pc_anchor_size :: "int \<times> int"

definition kPixelsBetweenPanels :: int where "kPixelsBetweenPanels = 3"
definition kShowCollapsedPanelsDistancePixels :: int where "kShowCollapsedPanelsDistancePixels = 1"
definition kHideCollapsedPanelsDistancePixels :: int where "kHideCollapsedPanelsDistancePixels = 30"
definition kHiddenCollapsedPanelHeightPixels :: int where "kHiddenCollapsedPanelHeightPixels = 3"
definition kPanelArrangeAnimMs :: int where "kPanelArrangeAnimMs = 150"
definition kAnchorFadeAnimMs :: int where "kAnchorFadeAnimMs = 150"
definition kPanelStateAnimMs :: int where "kPanelStateAnimMs = 150"
definition kDroppedPanelAnimMs :: int where "kDroppedPanelAnimMs = 50"
definition kPanelDetachThresholdPixels :: int where "kPanelDetachThresholdPixels = 50"
definition kPanelAttachThresholdPixels :: int where "kPanelAttachThresholdPixels = 20"
definition kHideCollapsedPanelsAnimMs :: int where "kHideCollapsedPanelsAnimMs = 100"
definition kint32max :: int where "kint32max = 2 ^ 31 - 1"

definition upd_bar :: "(panel_bar \<Rightarrow> panel_bar) \<Rightarrow> ('x, 'd) bdesk_scheme \<Rightarrow> ('x, 'd) bdesk_scheme" where
  "upd_bar f d = d\<lparr>dk_bar := f (dk_bar d)\<rparr>"

section \<open>Helpers\<close>

definition CollapsedPanelsAreHidden :: "panel_bar \<Rightarrow> bool" where
  "CollapsedPanelsAreHidden b \<longleftrightarrow>
     collapsed_panel_state b = COLLAPSED_PANEL_STATE_HIDDEN \<or>
     collapsed_panel_state b = COLLAPSED_PANEL_STATE_WAITING_TO_SHOW"

definition GetPanelInfoOrDie :: "pid \<Rightarrow> ('x, 'd) bdesk_scheme \<Rightarrow> panel_info option" where
  "GetPanelInfoOrDie pid d = panel_infos (dk_bar d) pid"

fun count_collapsed :: "(pid \<Rightarrow> panel option) \<Rightarrow> pid list \<Rightarrow> int option" where
  "count_collapsed ps [] = Some 0"
| "count_collapsed ps (pid # pids) = do {
     p \<leftarrow> ps pid;
     n \<leftarrow> count_collapsed ps pids;
     Some (if pn_is_expanded p then n else n + 1) }"

definition GetNumCollapsedPanels :: "('x, 'd) bdesk_scheme \<Rightarrow> int option" where
  "GetNumCollapsedPanels d = count_collapsed (dk_panels d) (bar_panels (dk_bar d))"

definition ComputePanelY :: "pid \<Rightarrow> ('x, 'd) bdesk_scheme \<Rightarrow> int option" where
  "ComputePanelY pid d = do {
     v \<leftarrow> panel_wins pid d;
     info \<leftarrow> GetPanelInfoOrDie pid d;
     Some (if pn_is_expanded (fst v) then dk_height d - total_height v
           else if CollapsedPanelsAreHidden (dk_bar d) \<and> \<not> is_urgent info
           then dk_height d - kHiddenCollapsedPanelHeightPixels
           else dk_height d - titlebar_height v) }"

definition ConfigureShowCollapsedPanelsInputWindow ::
    "('x, 'c) wmctx_scheme \<Rightarrow> bool \<Rightarrow> ('x, 'd) bdesk_scheme \<Rightarrow> ('x, 'd) bdesk_scheme" where
  "ConfigureShowCollapsedPanelsInputWindow C move_onscreen d =
     (let xid = show_collapsed_panels_input_xid (dk_bar d)
      in if move_onscreen
         then snd (ConfigureInputWindow C xid 0 (dk_height d - kShowCollapsedPanelsDistancePixels)
                     (dk_width d) kShowCollapsedPanelsDistancePixels d)
         else do_request C (ConfigureWindowOffscreen xid) d)"

definition DisableShowCollapsedPanelsTimer :: "('x, 'd) bdesk_scheme \<Rightarrow> ('x, 'd) bdesk_scheme" where
  "DisableShowCollapsedPanelsTimer d = upd_bar (\<lambda>b. b\<lparr>show_collapsed_panels_timer_id := 0\<rparr>) d"

definition StartHideCollapsedPanelsWatcher ::
    "('x, 'c) deskctx_scheme \<Rightarrow> ('x, 'd) bdesk_scheme \<Rightarrow> ('x, 'd) bdesk_scheme" where
  "StartHideCollapsedPanelsWatcher C d =
     (case add_timeout C d of (source, d) \<Rightarrow>
        upd_bar (\<lambda>b. b\<lparr>hide_collapsed_panels_pointer_watcher :=
          Some (new_PointerPositionWatcher source False 0 (dk_height d - kHideCollapsedPanelsDistancePixels)
                  (dk_width d) kHideCollapsedPanelsDistancePixels)\<rparr>) d)"

text \<open>The loop of \<open>ShowCollapsedPanels\<close> and \<open>HideCollapsedPanels\<close>.\<close>

fun move_collapsed_panels ::
    "('x, 'c) wmctx_scheme \<Rightarrow> pid list \<Rightarrow> ('x, 'd) bdesk_scheme \<Rightarrow> ('x, 'd) bdesk_scheme option" where
  "move_collapsed_panels C [] d = Some d"
| "move_collapsed_panels C (pid # pids) d = do {
     v \<leftarrow> panel_wins pid d;
     d \<leftarrow> (if pn_is_expanded (fst v) then Some d
          else do {
            computed_y \<leftarrow> ComputePanelY pid d;
            if titlebar_y v \<noteq> computed_y then Panel_MoveY C pid computed_y True kHideCollapsedPanelsAnimMs d
            else Some d });
     move_collapsed_panels C pids d }"

definition ShowCollapsedPanels ::
    "('x, 'c) deskctx_scheme \<Rightarrow> ('x, 'd) bdesk_scheme \<Rightarrow> ('x, 'd) bdesk_scheme option" where
  "ShowCollapsedPanels C d = do {
     let d = DisableShowCollapsedPanelsTimer d;
     let d = upd_bar (\<lambda>b. b\<lparr>collapsed_panel_state := COLLAPSED_PANEL_STATE_SHOWN\<rparr>) d;
     d \<leftarrow> move_collapsed_panels C (bar_panels (dk_bar d)) d;
     let d = ConfigureShowCollapsedPanelsInputWindow C False d;
     Some (StartHideCollapsedPanelsWatcher C d) }"

definition dragged_is_collapsed :: "('x, 'd) bdesk_scheme \<Rightarrow> bool option" where
  "dragged_is_collapsed d =
     (case dragged_panel (dk_bar d) of
        None \<Rightarrow> Some False
      | Some pid \<Rightarrow> map_option (\<lambda>p. \<not> pn_is_expanded p) (dk_panels d pid))"

definition HideCollapsedPanels ::
    "('x, 'c) wmctx_scheme \<Rightarrow> ('x, 'd) bdesk_scheme \<Rightarrow> ('x, 'd) bdesk_scheme option" where
  "HideCollapsedPanels C d = do {
     let d = DisableShowCollapsedPanelsTimer d;
     dragged \<leftarrow> dragged_is_collapsed d;
     if dragged then Some (upd_bar (\<lambda>b. b\<lparr>collapsed_panel_state := COLLAPSED_PANEL_STATE_WAITING_TO_HIDE\<rparr>) d)
     else do {
       let d = upd_bar (\<lambda>b. b\<lparr>collapsed_panel_state := COLLAPSED_PANEL_STATE_HIDDEN\<rparr>) d;
       d \<leftarrow> move_collapsed_panels C (bar_panels (dk_bar d)) d;
       n \<leftarrow> GetNumCollapsedPanels d;
       let d = (if n > 0 then ConfigureShowCollapsedPanelsInputWindow C True d else d);
       Some (upd_bar (\<lambda>b. b\<lparr>hide_collapsed_panels_pointer_watcher := None\<rparr>) d) } }"

definition HandleShowCollapsedPanelsTimer ::
    "('x, 'c) deskctx_scheme \<Rightarrow> ('x, 'd) bdesk_scheme \<Rightarrow> ('x, 'd) bdesk_scheme option" where
  "HandleShowCollapsedPanelsTimer C d =
     ShowCollapsedPanels C (upd_bar (\<lambda>b. b\<lparr>show_collapsed_panels_timer_id := 0\<rparr>) d)"

section \<open>Packing\<close>

text \<open>The loop of \<open>PackPanels\<close>, over the panels from right to left.\<close>

fun pack_panels ::
    "('x, 'c) wmctx_scheme \<Rightarrow> pid option \<Rightarrow> pid list \<Rightarrow> ('x, 'd) bdesk_scheme \<Rightarrow> ('x, 'd) bdesk_scheme option" where
  "pack_panels C fixed [] d = Some d"
| "pack_panels C fixed (pid # pids) d = do {
     info \<leftarrow> GetPanelInfoOrDie pid d;
     let right = dk_width d - total_panel_width (dk_bar d) - kPixelsBetweenPanels;
     let d = upd_bar (\<lambda>b. b\<lparr>panel_infos := (panel_infos b)(pid \<mapsto> info\<lparr>snapped_right := right\<rparr>)\<rparr>) d;
     v \<leftarrow> panel_wins pid d;
     d \<leftarrow> (if Some pid \<noteq> fixed \<and> panel_right v \<noteq> right then Panel_MoveX C pid right True kPanelArrangeAnimMs d
          else Some d);
     v \<leftarrow> panel_wins pid d;
     let d = upd_bar (\<lambda>b. b\<lparr>total_panel_width := total_panel_width b + (panel_width v + kPixelsBetweenPanels)\<rparr>) d;
     pack_panels C fixed pids d }"

definition PackPanels ::
    "('x, 'c) wmctx_scheme \<Rightarrow> pid option \<Rightarrow> ('x, 'd) bdesk_scheme \<Rightarrow> ('x, 'd) bdesk_scheme option" where
  "PackPanels C fixed d =
     pack_panels C fixed (rev (bar_panels (dk_bar d))) (upd_bar (\<lambda>b. b\<lparr>total_panel_width := 0\<rparr>) d)"

text \<open>
  The two loops of \<open>ReorderPanel\<close>: how many panels next to the dragged one its edge has passed. The list
  holds the panels on that side, the nearest first.
\<close>

fun passed :: "(panel \<times> window \<times> window \<Rightarrow> bool) \<Rightarrow> pid list \<Rightarrow> ('x, 'd) pdesk_scheme \<Rightarrow> nat option" where
  "passed beyond [] d = Some 0"
| "passed beyond (pid # pids) d = do {
     v \<leftarrow> panel_wins pid d;
     if beyond v then map_option Suc (passed beyond pids d) else Some 0 }"

text \<open>\<open>std::rotate(first, middle, last)\<close> on positions.\<close>

definition rotate_range :: "nat \<Rightarrow> nat \<Rightarrow> nat \<Rightarrow> 'a list \<Rightarrow> 'a list" where
  "rotate_range first middle stop xs =
     take first xs @ drop middle (take stop xs) @ drop first (take middle xs) @ drop stop xs"

fun find_index :: "'a \<Rightarrow> 'a list \<Rightarrow> nat option" where
  "find_index x [] = None"
| "find_index x (y # ys) = (if x = y then Some 0 else map_option Suc (find_index x ys))"

definition dest_position :: "pid \<Rightarrow> nat \<Rightarrow> ('x, 'd) bdesk_scheme \<Rightarrow> nat option" where
  "dest_position fixed_panel src d = do {
     let panels = bar_panels (dk_bar d);
     v \<leftarrow> panel_wins fixed_panel d;
     info \<leftarrow> GetPanelInfoOrDie fixed_panel d;
     if panel_right v < snapped_right info
     then map_option (\<lambda>n. src - n) (passed (\<lambda>u. content_x v \<le> content_center u) (rev (take src panels)) d)
     else map_option (\<lambda>n. src + n) (passed (\<lambda>u. panel_right v \<ge> content_center u) (drop (Suc src) panels) d) }"

definition ReorderPanel ::
    "('x, 'c) wmctx_scheme \<Rightarrow> pid \<Rightarrow> ('x, 'd) bdesk_scheme \<Rightarrow> ('x, 'd) bdesk_scheme option" where
  "ReorderPanel C fixed_panel d = do {
     src \<leftarrow> find_index fixed_panel (bar_panels (dk_bar d));
     dest \<leftarrow> dest_position fixed_panel src d;
     if dest \<noteq> src then do {
       let d = upd_bar (\<lambda>b. b\<lparr>bar_panels :=
         (if dest > src then rotate_range src (src + 1) (dest + 1) (bar_panels b)
          else rotate_range dest src (src + 1) (bar_panels b))\<rparr>) d;
       PackPanels C (Some fixed_panel) d }
     else Some d }"

section \<open>Anchor and focus\<close>

definition CreateAnchor ::
    "('x, 'c) barctx_scheme \<Rightarrow> pid \<Rightarrow> ('x, 'd) bdesk_scheme \<Rightarrow> ('x, 'd) bdesk_scheme" where
  "CreateAnchor C pid d =
     (let pointer_x = (case QueryPointerPosition (wm_xconn C) (es_x (dk_env d)) of None \<Rightarrow> 0 | Some (x, y) \<Rightarrow> x);
          width = fst (pc_anchor_size C);
          height = snd (pc_anchor_size C);
          x = min (max (dbl_to_int (dbl_sub (of_int pointer_x) (dbl_mult (1/2) (of_int width)))) 0) (dk_width d - width);
          y = dk_height d - height;
          d = snd (ConfigureInputWindow C (anchor_input_xid (dk_bar d)) x y width height d);
          d = upd_bar (\<lambda>b. b\<lparr>anchor_panel := Some pid\<rparr>) d;
          d = on_env (calls [(AnchorActor, Move x y 0), (AnchorActor, SetOpacity 1 kAnchorFadeAnimMs)]) d;
          (source, d) = add_timeout C d
      in upd_bar (\<lambda>b. b\<lparr>anchor_pointer_watcher := Some (new_PointerPositionWatcher source False x y width height)\<rparr>) d)"

definition DestroyAnchor :: "('x, 'c) wmctx_scheme \<Rightarrow> ('x, 'd) bdesk_scheme \<Rightarrow> ('x, 'd) bdesk_scheme" where
  "DestroyAnchor C d =
     (let d = do_request C (ConfigureWindowOffscreen (anchor_input_xid (dk_bar d))) d;
          d = on_env (call AnchorActor (SetOpacity 0 kAnchorFadeAnimMs)) d
      in upd_bar (\<lambda>b. b\<lparr>anchor_panel := None, anchor_pointer_watcher := None\<rparr>) d)"

text \<open>How far \<open>u\<close> is from \<open>v\<close>.\<close>

definition panel_distance :: "panel \<times> window \<times> window \<Rightarrow> panel \<times> window \<times> window \<Rightarrow> int" where
  "panel_distance v u =
     (if panel_right u \<le> content_x v then content_x v - panel_right u
      else if content_x u \<ge> panel_right v then content_x u - panel_right v
      else \<bar>content_center u - content_center v\<bar>)"

fun nearest_loop ::
    "pid \<Rightarrow> panel \<times> window \<times> window \<Rightarrow> pid list \<Rightarrow> ('x, 'd) pdesk_scheme \<Rightarrow> pid option \<times> int \<Rightarrow> (pid option \<times> int) option" where
  "nearest_loop pid v [] d best = Some best"
| "nearest_loop pid v (q # qs) d best = do {
     u \<leftarrow> panel_wins q d;
     let best = (if q = pid \<or> \<not> pn_is_expanded (fst u) then best
                 else if panel_distance v u < snd best then (Some q, panel_distance v u) else best);
     nearest_loop pid v qs d best }"

definition GetNearestExpandedPanel :: "pid option \<Rightarrow> ('x, 'd) bdesk_scheme \<Rightarrow> pid option option" where
  "GetNearestExpandedPanel panel d =
     (case panel of
        None \<Rightarrow> Some None
      | Some pid \<Rightarrow> do {
          v \<leftarrow> panel_wins pid d;
          if \<not> pn_is_expanded (fst v) then Some None
          else map_option fst (nearest_loop pid v (bar_panels (dk_bar d)) d (None, kint32max)) })"

text \<open>\<open>RemoveButtonGrab\<close> is called with true whatever \<open>remove_pointer_grab\<close> is.\<close>

definition Bar_FocusPanel ::
    "('x, 'c) deskctx_scheme \<Rightarrow> pid \<Rightarrow> bool \<Rightarrow> xtime \<Rightarrow> ('x, 'd) bdesk_scheme \<Rightarrow> ('x, 'd) bdesk_scheme option" where
  "Bar_FocusPanel C pid remove_pointer_grab timestamp d = do {
     d \<leftarrow> Panel_RemoveButtonGrab C pid True d;
     (p, c, t) \<leftarrow> panel_wins pid d;
     let (_, d) = SetActiveWindowProperty C (w_xid c) d;
     (_, d) \<leftarrow> ask_win (pn_content p) (Window_TakeFocus C timestamp) d;
     Some (upd_bar (\<lambda>b. b\<lparr>desired_panel_to_focus := Some pid\<rparr>) d) }"

fun first_expanded :: "(pid \<Rightarrow> panel option) \<Rightarrow> pid list \<Rightarrow> pid option option" where
  "first_expanded ps [] = Some None"
| "first_expanded ps (pid # pids) = do {
     p \<leftarrow> ps pid;
     if pn_is_expanded p then Some (Some pid) else first_expanded ps pids }"

definition Bar_TakeFocus ::
    "('x, 'c) deskctx_scheme \<Rightarrow> ('x, 'd) bdesk_scheme \<Rightarrow> (bool \<times> ('x, 'd) bdesk_scheme) option" where
  "Bar_TakeFocus C d = do {
     (timestamp, d) \<leftarrow> GetCurrentTimeFromServer C d;
     case desired_panel_to_focus (dk_bar d) of
       Some pid \<Rightarrow> do {
         d \<leftarrow> Bar_FocusPanel C pid False timestamp d;
         Some (True, d) }
     | None \<Rightarrow> do {
         first \<leftarrow> first_expanded (dk_panels d) (bar_panels (dk_bar d));
         case first of
           None \<Rightarrow> Some (False, d)
         | Some pid \<Rightarrow> do {
             d \<leftarrow> Bar_FocusPanel C pid False timestamp d;
             Some (True, d) } } }"

text \<open>\<open>WindowManager::TakeFocus\<close>\<close>

definition WindowManager_TakeFocus ::
    "('x, 'c) deskctx_scheme \<Rightarrow> (('x, 'd) bdesk_scheme \<Rightarrow> (bool \<times> ('x, 'd) bdesk_scheme) option) \<Rightarrow>
     ('x, 'd) bdesk_scheme \<Rightarrow> ('x, 'd) bdesk_scheme option" where
  "WindowManager_TakeFocus C layout d = do {
     (ok, d) \<leftarrow> layout d;
     if ok then Some d
     else do {
       (ok, d) \<leftarrow> Bar_TakeFocus C d;
       Some (if ok then d else do_request C (FocusWindow (wm_root C) CurrentTime) d) } }"

section \<open>Expanding and collapsing\<close>

definition Bar_ExpandPanel ::
    "('x, 'c) barctx_scheme \<Rightarrow> pid \<Rightarrow> bool \<Rightarrow> int \<Rightarrow> ('x, 'd) bdesk_scheme \<Rightarrow> ('x, 'd) bdesk_scheme option" where
  "Bar_ExpandPanel C pid create_anchor anim_ms d = do {
     p \<leftarrow> dk_panels d pid;
     if pn_is_expanded p then Some d
     else do {
       (_, d) \<leftarrow> SetExpandedState C pid True d;
       y \<leftarrow> ComputePanelY pid d;
       d \<leftarrow> Panel_MoveY C pid y True anim_ms d;
       d \<leftarrow> SetResizable C pid True d;
       let d = (if create_anchor then CreateAnchor C pid d else d);
       n \<leftarrow> GetNumCollapsedPanels d;
       Some (if n = 0 then ConfigureShowCollapsedPanelsInputWindow C False d else d) } }"

definition Bar_CollapsePanel ::
    "('x, 'c) barctx_scheme \<Rightarrow> (('x, 'd) bdesk_scheme \<Rightarrow> (bool \<times> ('x, 'd) bdesk_scheme) option) \<Rightarrow>
     pid \<Rightarrow> int \<Rightarrow> ('x, 'd) bdesk_scheme \<Rightarrow> ('x, 'd) bdesk_scheme option" where
  "Bar_CollapsePanel C layout pid anim_ms d = do {
     p \<leftarrow> dk_panels d pid;
     if \<not> pn_is_expanded p then Some d
     else do {
       panel_to_focus \<leftarrow> GetNearestExpandedPanel (Some pid) d;
       let d = (if anchor_panel (dk_bar d) = Some pid then DestroyAnchor C d else d);
       (_, d) \<leftarrow> SetExpandedState C pid False d;
       y \<leftarrow> ComputePanelY pid d;
       d \<leftarrow> Panel_MoveY C pid y True anim_ms d;
       d \<leftarrow> SetResizable C pid False d;
       (p, c, t) \<leftarrow> panel_wins pid d;
       d \<leftarrow> (if w_focused c then do {
              let d = upd_bar (\<lambda>b. b\<lparr>desired_panel_to_focus := panel_to_focus\<rparr>) d;
              (ok, d) \<leftarrow> Bar_TakeFocus C d;
              if \<not> ok then do {
                let (_, d) = SetActiveWindowProperty C XNone d;
                WindowManager_TakeFocus C layout d }
              else Some d }
            else Some d);
       n \<leftarrow> GetNumCollapsedPanels d;
       Some (if n = 1 then ConfigureShowCollapsedPanelsInputWindow C True d else d) } }"

section \<open>Adding and removing panels\<close>

text \<open>The panel is not in the bar yet, so that \<open>panel_infos_.insert\<close> inserts.\<close>

definition Bar_AddPanel ::
    "('x, 'c) barctx_scheme \<Rightarrow> pid \<Rightarrow> PanelSource \<Rightarrow> ('x, 'd) bdesk_scheme \<Rightarrow> ('x, 'd) bdesk_scheme option" where
  "Bar_AddPanel C pid source d = do {
     (p, c, t) \<leftarrow> panel_wins pid d;
     let right = dk_width d - total_panel_width (dk_bar d) - kPixelsBetweenPanels;
     let d = upd_bar (\<lambda>b. b\<lparr>panel_infos := (panel_infos b)(pid \<mapsto>
         \<lparr>snapped_right = right, is_urgent = wm_hint_urgent c\<rparr>),
       bar_panels := pid # bar_panels b,
       total_panel_width := total_panel_width b + (client_width c + kPixelsBetweenPanels)\<rparr>) d;
     d \<leftarrow> (if source = PANEL_SOURCE_DRAGGED then do {
            d \<leftarrow> ReorderPanel C pid d;
            Some (upd_bar (\<lambda>b. b\<lparr>dragged_panel := Some pid, dragging_panel_horizontally := True\<rparr>) d) }
          else Some d);
     d \<leftarrow> StackAtTopOfLayer C pid
       (if source = PANEL_SOURCE_DRAGGED then LAYER_DRAGGED_PANEL else LAYER_STATIONARY_PANEL_IN_BAR) d;
     final_y \<leftarrow> ComputePanelY pid d;
     info \<leftarrow> GetPanelInfoOrDie pid d;
     d \<leftarrow> (case source of
            PANEL_SOURCE_NEW \<Rightarrow> do {
              d \<leftarrow> Panel_Move C pid (snapped_right info) (dk_height d) False 0 d;
              Panel_MoveY C pid final_y True kPanelStateAnimMs d }
          | PANEL_SOURCE_DRAGGED \<Rightarrow> Panel_MoveY C pid final_y True 0 d
          | PANEL_SOURCE_DROPPED \<Rightarrow> Panel_Move C pid (snapped_right info) final_y True kDroppedPanelAnimMs d);
     d \<leftarrow> SetResizable C pid (pn_is_expanded p) d;
     (p, c, t) \<leftarrow> panel_wins pid d;
     d \<leftarrow> (if pn_is_expanded p \<and> (source = PANEL_SOURCE_NEW \<or> w_focused c) then do {
            (timestamp, d) \<leftarrow> GetCurrentTimeFromServer C d;
            Bar_FocusPanel C pid False timestamp d }
          else Panel_AddButtonGrab C pid d);
     n \<leftarrow> GetNumCollapsedPanels d;
     Some (if \<not> pn_is_expanded p \<and> n = 1 then ConfigureShowCollapsedPanelsInputWindow C True d else d) }"

text \<open>
  \<open>FindPanelInVectorByWindow\<close> with the content window of the panel finds the panel by its windows; it is
  not in the vector when there is no such panel.
\<close>

fun FindPanelInVectorByWindow :: "(pid \<Rightarrow> panel option) \<Rightarrow> pid list \<Rightarrow> xid \<Rightarrow> nat option option" where
  "FindPanelInVectorByWindow ps [] win = Some None"
| "FindPanelInVectorByWindow ps (pid # pids) win = do {
     p \<leftarrow> ps pid;
     if pn_titlebar p = win \<or> pn_content p = win then Some (Some 0)
     else map_option (map_option Suc) (FindPanelInVectorByWindow ps pids win) }"

definition erase_at :: "nat \<Rightarrow> 'a list \<Rightarrow> 'a list" where
  "erase_at i xs = take i xs @ drop (Suc i) xs"

definition Bar_RemovePanel ::
    "('x, 'c) wmctx_scheme \<Rightarrow> pid \<Rightarrow> ('x, 'd) bdesk_scheme \<Rightarrow> ('x, 'd) bdesk_scheme option" where
  "Bar_RemovePanel C pid d = do {
     p \<leftarrow> dk_panels d pid;
     let d = (if anchor_panel (dk_bar d) = Some pid then DestroyAnchor C d else d);
     let d = (if dragged_panel (dk_bar d) = Some pid then upd_bar (\<lambda>b. b\<lparr>dragged_panel := None\<rparr>) d else d);
     d \<leftarrow> (if desired_panel_to_focus (dk_bar d) = Some pid then do {
            nearest \<leftarrow> GetNearestExpandedPanel (Some pid) d;
            Some (upd_bar (\<lambda>b. b\<lparr>desired_panel_to_focus := nearest\<rparr>) d) }
          else Some d);
     CHECK (panel_infos (dk_bar d) pid \<noteq> None);
     let d = upd_bar (\<lambda>b. b\<lparr>panel_infos := (panel_infos b)(pid := None)\<rparr>) d;
     it \<leftarrow> FindPanelInVectorByWindow (dk_panels d) (bar_panels (dk_bar d)) (pn_content p);
     case it of
       None \<Rightarrow> Some d
     | Some i \<Rightarrow> do {
         v \<leftarrow> panel_wins (bar_panels (dk_bar d) ! i) d;
         let d = upd_bar (\<lambda>b. b\<lparr>total_panel_width := total_panel_width b - (panel_width v + kPixelsBetweenPanels),
                                 bar_panels := erase_at i (bar_panels b)\<rparr>) d;
         d \<leftarrow> PackPanels C (dragged_panel (dk_bar d)) d;
         d \<leftarrow> (case dragged_panel (dk_bar d) of None \<Rightarrow> Some d | Some q \<Rightarrow> ReorderPanel C q d);
         n \<leftarrow> GetNumCollapsedPanels d;
         Some (if \<not> pn_is_expanded p \<and> n = 0 then ConfigureShowCollapsedPanelsInputWindow C False d else d) } }"

definition Bar_ShouldAddDraggedPanel :: "pid \<Rightarrow> int \<Rightarrow> int \<Rightarrow> ('x, 'd) bdesk_scheme \<Rightarrow> bool option" where
  "Bar_ShouldAddDraggedPanel pid drag_x drag_y d = do {
     v \<leftarrow> panel_wins pid d;
     Some (drag_y + total_height v > dk_height d - kPanelAttachThresholdPixels) }"

section \<open>Events\<close>

definition Bar_HandleInputWindowButtonPress ::
    "('x, 'c) barctx_scheme \<Rightarrow> (('x, 'd) bdesk_scheme \<Rightarrow> (bool \<times> ('x, 'd) bdesk_scheme) option) \<Rightarrow>
     xid \<Rightarrow> int \<Rightarrow> ('x, 'd) bdesk_scheme \<Rightarrow> ('x, 'd) bdesk_scheme option" where
  "Bar_HandleInputWindowButtonPress C layout xid button d = do {
     CHECK (xid = anchor_input_xid (dk_bar d));
     if button \<noteq> 1 then Some d
     else do {
       let panel = anchor_panel (dk_bar d);
       let d = DestroyAnchor C d;
       case panel of None \<Rightarrow> Some d | Some pid \<Rightarrow> Bar_CollapsePanel C layout pid kPanelStateAnimMs d } }"

definition Bar_HandleInputWindowPointerEnter ::
    "('x, 'c) deskctx_scheme \<Rightarrow> xid \<Rightarrow> int \<Rightarrow> ('x, 'd) bdesk_scheme \<Rightarrow> ('x, 'd) bdesk_scheme option" where
  "Bar_HandleInputWindowPointerEnter C xid x_root d =
     (if xid = show_collapsed_panels_input_xid (dk_bar d) then
        if x_root \<ge> dk_width d - total_panel_width (dk_bar d) then ShowCollapsedPanels C d
        else if collapsed_panel_state (dk_bar d) \<noteq> COLLAPSED_PANEL_STATE_SHOWN \<and>
                collapsed_panel_state (dk_bar d) \<noteq> COLLAPSED_PANEL_STATE_WAITING_TO_SHOW then
          (case add_timeout C d of (source, d) \<Rightarrow>
             Some (upd_bar (\<lambda>b. b\<lparr>collapsed_panel_state := COLLAPSED_PANEL_STATE_WAITING_TO_SHOW,
                                  show_collapsed_panels_timer_id := source\<rparr>) d))
        else Some d
      else Some d)"

definition Bar_HandleInputWindowPointerLeave :: "xid \<Rightarrow> ('x, 'd) bdesk_scheme \<Rightarrow> ('x, 'd) bdesk_scheme" where
  "Bar_HandleInputWindowPointerLeave xid d =
     (if xid = show_collapsed_panels_input_xid (dk_bar d) \<and>
         collapsed_panel_state (dk_bar d) = COLLAPSED_PANEL_STATE_WAITING_TO_SHOW
      then DisableShowCollapsedPanelsTimer
             (upd_bar (\<lambda>b. b\<lparr>collapsed_panel_state := COLLAPSED_PANEL_STATE_HIDDEN\<rparr>) d)
      else d)"

definition Bar_HandlePanelButtonPress ::
    "('x, 'c) deskctx_scheme \<Rightarrow> pid \<Rightarrow> xtime \<Rightarrow> ('x, 'd) bdesk_scheme \<Rightarrow> ('x, 'd) bdesk_scheme option" where
  "Bar_HandlePanelButtonPress C pid timestamp d = Bar_FocusPanel C pid True timestamp d"

definition Bar_HandlePanelTitlebarPointerEnter ::
    "('x, 'c) deskctx_scheme \<Rightarrow> pid \<Rightarrow> ('x, 'd) bdesk_scheme \<Rightarrow> ('x, 'd) bdesk_scheme option" where
  "Bar_HandlePanelTitlebarPointerEnter C pid d = do {
     p \<leftarrow> dk_panels d pid;
     if collapsed_panel_state (dk_bar d) \<noteq> COLLAPSED_PANEL_STATE_SHOWN \<and> \<not> pn_is_expanded p
     then ShowCollapsedPanels C d else Some d }"

definition Bar_HandlePanelFocusChange ::
    "('x, 'c) wmctx_scheme \<Rightarrow> pid \<Rightarrow> bool \<Rightarrow> ('x, 'd) pdesk_scheme \<Rightarrow> ('x, 'd) pdesk_scheme option" where
  "Bar_HandlePanelFocusChange C pid focus_in d = (if \<not> focus_in then Panel_AddButtonGrab C pid d else Some d)"

definition Bar_HandleSetPanelStateMessage ::
    "('x, 'c) barctx_scheme \<Rightarrow> (('x, 'd) bdesk_scheme \<Rightarrow> (bool \<times> ('x, 'd) bdesk_scheme) option) \<Rightarrow>
     pid \<Rightarrow> bool \<Rightarrow> ('x, 'd) bdesk_scheme \<Rightarrow> ('x, 'd) bdesk_scheme option" where
  "Bar_HandleSetPanelStateMessage C layout pid expand d =
     (if expand then Bar_ExpandPanel C pid True kPanelStateAnimMs d
      else Bar_CollapsePanel C layout pid kPanelStateAnimMs d)"

definition Bar_HandlePanelDragComplete ::
    "('x, 'c) barctx_scheme \<Rightarrow> (('x, 'd) bdesk_scheme \<Rightarrow> (bool \<times> ('x, 'd) bdesk_scheme) option) \<Rightarrow>
     pid \<Rightarrow> ('x, 'd) bdesk_scheme \<Rightarrow> ('x, 'd) bdesk_scheme option" where
  "Bar_HandlePanelDragComplete C layout pid d =
     (if dragged_panel (dk_bar d) \<noteq> Some pid then Some d
      else do {
        info \<leftarrow> GetPanelInfoOrDie pid d;
        d \<leftarrow> (if dragging_panel_horizontally (dk_bar d)
             then Panel_MoveX C pid (snapped_right info) True kPanelArrangeAnimMs d
             else do {
               v \<leftarrow> panel_wins pid d;
               let mostly_visible =
                 (of_int (titlebar_y v) < dbl_sub (of_int (dk_height d)) (dbl_mult (1/2) (of_int (total_height v))));
               let anim_ms = dbl_to_int (dbl_mult (1/2) (of_int kPanelStateAnimMs));
               if mostly_visible \<and> \<not> pn_is_expanded (fst v) then do {
                 d \<leftarrow> Bar_ExpandPanel C pid False anim_ms d;
                 (timestamp, d) \<leftarrow> GetCurrentTimeFromServer C d;
                 Bar_FocusPanel C pid False timestamp d }
               else if \<not> mostly_visible \<and> pn_is_expanded (fst v) then Bar_CollapsePanel C layout pid anim_ms d
               else do {
                 y \<leftarrow> ComputePanelY pid d;
                 Panel_MoveY C pid y True anim_ms d } });
        d \<leftarrow> StackAtTopOfLayer C pid LAYER_STATIONARY_PANEL_IN_BAR d;
        let d = upd_bar (\<lambda>b. b\<lparr>dragged_panel := None\<rparr>) d;
        if collapsed_panel_state (dk_bar d) = COLLAPSED_PANEL_STATE_WAITING_TO_HIDE then
          (let pointer_y = (case QueryPointerPosition (wm_xconn C) (es_x (dk_env d)) of None \<Rightarrow> 0 | Some (x, y) \<Rightarrow> y)
           in if pointer_y < dk_height d - kHideCollapsedPanelsDistancePixels then HideCollapsedPanels C d
              else Some (StartHideCollapsedPanelsWatcher C
                     (upd_bar (\<lambda>b. b\<lparr>collapsed_panel_state := COLLAPSED_PANEL_STATE_SHOWN\<rparr>) d)))
        else Some d })"

definition Bar_HandleNotifyPanelDraggedMessage ::
    "('x, 'c) barctx_scheme \<Rightarrow> (('x, 'd) bdesk_scheme \<Rightarrow> (bool \<times> ('x, 'd) bdesk_scheme) option) \<Rightarrow>
     pid \<Rightarrow> int \<Rightarrow> int \<Rightarrow> ('x, 'd) bdesk_scheme \<Rightarrow> (bool \<times> ('x, 'd) bdesk_scheme) option" where
  "Bar_HandleNotifyPanelDraggedMessage C layout pid drag_x drag_y d = do {
     v \<leftarrow> panel_wins pid d;
     if drag_y \<le> dk_height d - total_height v - kPanelDetachThresholdPixels then Some (False, d)
     else do {
       d \<leftarrow> (if dragged_panel (dk_bar d) \<noteq> Some pid then do {
              d \<leftarrow> (case dragged_panel (dk_bar d) of
                     None \<Rightarrow> Some d
                   | Some q \<Rightarrow> Bar_HandlePanelDragComplete C layout q d);
              v \<leftarrow> panel_wins pid d;
              let d = upd_bar (\<lambda>b. b\<lparr>dragged_panel := Some pid,
                dragging_panel_horizontally := \<bar>drag_x - panel_right v\<bar> > \<bar>drag_y - titlebar_y v\<bar>\<rparr>) d;
              StackAtTopOfLayer C pid LAYER_DRAGGED_PANEL d }
            else Some d);
       v \<leftarrow> panel_wins pid d;
       d \<leftarrow> (if dragging_panel_horizontally (dk_bar d) then Panel_MoveX C pid drag_x False 0 d
            else
              (let capped_y = max (min drag_y (dk_height d - titlebar_height v)) (dk_height d - total_height v)
               in Panel_MoveY C pid capped_y False 0 d));
       d \<leftarrow> ReorderPanel C pid d;
       Some (True, d) } }"

definition Bar_HandleNotifyPanelDragCompleteMessage ::
    "('x, 'c) barctx_scheme \<Rightarrow> (('x, 'd) bdesk_scheme \<Rightarrow> (bool \<times> ('x, 'd) bdesk_scheme) option) \<Rightarrow>
     pid \<Rightarrow> ('x, 'd) bdesk_scheme \<Rightarrow> ('x, 'd) bdesk_scheme option" where
  "Bar_HandleNotifyPanelDragCompleteMessage C layout pid d = Bar_HandlePanelDragComplete C layout pid d"

definition Bar_HandleFocusPanelMessage ::
    "('x, 'c) barctx_scheme \<Rightarrow> pid \<Rightarrow> ('x, 'd) bdesk_scheme \<Rightarrow> ('x, 'd) bdesk_scheme option" where
  "Bar_HandleFocusPanelMessage C pid d = do {
     p \<leftarrow> dk_panels d pid;
     d \<leftarrow> (if \<not> pn_is_expanded p then Bar_ExpandPanel C pid False kPanelStateAnimMs d else Some d);
     (timestamp, d) \<leftarrow> GetCurrentTimeFromServer C d;
     Bar_FocusPanel C pid False timestamp d }"

definition Bar_HandlePanelResize ::
    "('x, 'c) wmctx_scheme \<Rightarrow> pid \<Rightarrow> ('x, 'd) bdesk_scheme \<Rightarrow> ('x, 'd) bdesk_scheme option" where
  "Bar_HandlePanelResize C pid d = PackPanels C None d"

fun move_panels_y :: "('x, 'c) wmctx_scheme \<Rightarrow> pid list \<Rightarrow> ('x, 'd) bdesk_scheme \<Rightarrow> ('x, 'd) bdesk_scheme option" where
  "move_panels_y C [] d = Some d"
| "move_panels_y C (pid # pids) d = do {
     y \<leftarrow> ComputePanelY pid d;
     d \<leftarrow> Panel_MoveY C pid y True 0 d;
     move_panels_y C pids d }"

definition Bar_HandleScreenResize ::
    "('x, 'c) wmctx_scheme \<Rightarrow> ('x, 'd) bdesk_scheme \<Rightarrow> ('x, 'd) bdesk_scheme option" where
  "Bar_HandleScreenResize C d = do {
     d \<leftarrow> move_panels_y C (bar_panels (dk_bar d)) d;
     d \<leftarrow> PackPanels C (dragged_panel (dk_bar d)) d;
     case dragged_panel (dk_bar d) of None \<Rightarrow> Some d | Some q \<Rightarrow> ReorderPanel C q d }"

definition Bar_HandlePanelUrgencyChange ::
    "('x, 'c) wmctx_scheme \<Rightarrow> pid \<Rightarrow> ('x, 'd) bdesk_scheme \<Rightarrow> ('x, 'd) bdesk_scheme option" where
  "Bar_HandlePanelUrgencyChange C pid d = do {
     v \<leftarrow> panel_wins pid d;
     let urgent = wm_hint_urgent (fst (snd v));
     info \<leftarrow> GetPanelInfoOrDie pid d;
     if urgent = is_urgent info then Some d
     else do {
       let d = upd_bar (\<lambda>b. b\<lparr>panel_infos := (panel_infos b)(pid \<mapsto> info\<lparr>is_urgent := urgent\<rparr>)\<rparr>) d;
       if \<not> pn_is_expanded (fst v) then do {
         computed_y \<leftarrow> ComputePanelY pid d;
         if titlebar_y v \<noteq> computed_y then Panel_MoveY C pid computed_y True kHideCollapsedPanelsAnimMs d else Some d }
       else Some d } }"

section \<open>Constructor and destructor\<close>

definition empty_bar :: "registrar \<Rightarrow> xid \<Rightarrow> xid \<Rightarrow> panel_bar" where
  "empty_bar r anchor_xid show_xid =
     \<lparr>total_panel_width = 0, bar_panels = [], panel_infos = (\<lambda>_. None), dragged_panel = None,
      dragging_panel_horizontally = False, anchor_input_xid = anchor_xid, anchor_panel = None,
      anchor_pointer_watcher = None, desired_panel_to_focus = None,
      collapsed_panel_state = COLLAPSED_PANEL_STATE_HIDDEN, show_collapsed_panels_input_xid = show_xid,
      show_collapsed_panels_timer_id = 0, hide_collapsed_panels_pointer_watcher = None, bar_registrar = r\<rparr>"

definition new_PanelBar ::
    "('x, 'c) barctx_scheme \<Rightarrow> ('x, 'd) bdesk_scheme \<Rightarrow> ('x, 'd) bdesk_scheme option" where
  "new_PanelBar C d = do {
     (anchor_xid, d) \<leftarrow> CreateInputWindow C (-1) (-1) 1 1 ButtonPressMask d;
     (show_xid, d) \<leftarrow> CreateInputWindow C (-1) (-1) 1 1 (EnterWindowMask + LeaveWindowMask) d;
     let (r, m) = fold RegisterForWindowEvents [anchor_xid, show_xid]
                    (new_EventConsumerRegistrar (pc_panel_manager C), dk_consumers d);
     let d = d\<lparr>dk_consumers := m, dk_bar := empty_bar r anchor_xid show_xid\<rparr>;
     let d = on_env (calls [(AnchorActor, SetName ''panel anchor''), (AnchorActor, SetOpacity 0 0),
                            (Stage, AddActor AnchorActor)]) d;
     d \<leftarrow> StackActorAtTopOfLayer (pc_stacking C) AnchorActor LAYER_PANEL_BAR_INPUT_WINDOW d;
     (_, d) \<leftarrow> StackXidAtTopOfLayer C (pc_stacking C) show_xid LAYER_PANEL_BAR_INPUT_WINDOW d;
     (_, d) \<leftarrow> StackXidAtTopOfLayer C (pc_stacking C) anchor_xid LAYER_PANEL_BAR_INPUT_WINDOW d;
     Some d }"

definition destroy_PanelBar :: "('x, 'c) wmctx_scheme \<Rightarrow> ('x, 'd) bdesk_scheme \<Rightarrow> ('x, 'd) bdesk_scheme" where
  "destroy_PanelBar C d =
     (let d = DisableShowCollapsedPanelsTimer d;
          d = do_requests C [DestroyWindow (anchor_input_xid (dk_bar d)),
                             DestroyWindow (show_collapsed_panels_input_xid (dk_bar d))] d;
          m = destroy_EventConsumerRegistrar (bar_registrar (dk_bar d), dk_consumers d)
      in d\<lparr>dk_consumers := m\<rparr>)"

definition Bar_GetInputWindows :: "panel_bar \<Rightarrow> xid list" where
  "Bar_GetInputWindows b = [anchor_input_xid b, show_collapsed_panels_input_xid b]"

end
