(* ===== verification/WM_Panel_Props.thy ===== *)
theory WM_Panel_Props
  imports WM_PanelBar
begin

text \<open>
  What the operations on panels keep (no window and no panel appears or disappears, the bar is not touched),
  where \<open>Panel::Move\<close>, \<open>MoveX\<close> and \<open>MoveY\<close> put the two windows of a panel, and how \<open>ApplyResize\<close> and
  \<open>ResizeContent\<close> change them.
\<close>

section \<open>What is kept\<close>

named_theorems kview_rules \<open>operations that keep the view of the desk\<close>

text \<open>Which windows exist, which panels with which windows, the screen and everything beside the panels.\<close>

definition kview :: "('x, 'd) pdesk_scheme \<Rightarrow> (xid \<Rightarrow> bool) \<times> (pid \<Rightarrow> (xid \<times> xid) option) \<times> int \<times> int \<times> 'd" where
  "kview d = ((\<lambda>x. dk_windows d x \<noteq> None),
     (\<lambda>p. map_option (\<lambda>p. (pn_content p, pn_titlebar p)) (dk_panels d p)), dk_width d, dk_height d, pdesk.more d)"

lemma kview_on_win [kview_rules]: "on_win x f d = Some d' \<Longrightarrow> kview d' = kview d"
  by (auto simp: on_win_def kview_def fun_eq_iff split: option.splits prod.splits if_splits)

lemma kview_ask_win [kview_rules]: "ask_win x f d = Some (r, d') \<Longrightarrow> kview d' = kview d"
  by (auto simp: ask_win_def kview_def fun_eq_iff split: option.splits prod.splits if_splits)

lemma kview_try_win [kview_rules]: "try_win x f d = Some (r, d') \<Longrightarrow> kview d' = kview d"
  by (auto simp: try_win_def kview_def fun_eq_iff split: option.splits prod.splits if_splits)

lemma kview_on_env [simp]: "kview (on_env f d) = kview d"
  by (simp add: on_env_def kview_def)

lemma kview_request [simp]: "kview (snd (desk_request C r d)) = kview d" "kview (do_request C r d) = kview d"
  by (simp_all add: do_request_def desk_request_def kview_def split: prod.splits)

lemma kview_desk_request: "desk_request C r d = (ok, d') \<Longrightarrow> kview d' = kview d"
  using kview_request(1)[of C r d] by simp

lemma kview_requests [simp]: "kview (do_requests C rs d) = kview d"
  unfolding do_requests_def by (induction rs arbitrary: d) simp_all

lemma kview_upd_panel:
  assumes "\<And>p. pn_content (f p) = pn_content p \<and> pn_titlebar (f p) = pn_titlebar p"
  shows "kview (upd_panel pid f d) = kview d"
  using assms by (auto simp: upd_panel_def kview_def fun_eq_iff option.map_comp o_def intro!: option.map_cong)

lemma kview_SetActiveWindowProperty [simp]: "kview (snd (SetActiveWindowProperty C xid d)) = kview d"
  by (auto simp: SetActiveWindowProperty_def kview_def on_env_def Let_def split: prod.splits)

lemma kview_GetCurrentTimeFromServer [kview_rules]: "GetCurrentTimeFromServer C d = Some (t, d') \<Longrightarrow> kview d' = kview d"
  by (auto simp: GetCurrentTimeFromServer_def Let_def split: prod.splits if_splits)

lemma kview_add_timeout: "add_timeout C d = (n, d') \<Longrightarrow> kview d' = kview d"
  by (auto simp: add_timeout_def split: prod.splits)

lemma kview_start_coalescer: "start_coalescer C c d = (c', d') \<Longrightarrow> kview d' = kview d"
  by (auto simp: start_coalescer_def split: prod.splits if_splits dest: kview_add_timeout)

lemma kview_ConfigureInputWindow [simp]: "kview (snd (ConfigureInputWindow C xid x y w h d)) = kview d"
  by (simp add: ConfigureInputWindow_def)

lemma kview_stack [kview_rules]:
  "StackWindowAtTopOfLayer C s win layer d = Some (ok, d') \<Longrightarrow> kview d' = kview d"
  "StackWindowRelativeToOtherWindow C s win sib abv layer d = Some (ok, d') \<Longrightarrow> kview d' = kview d"
  "StackActorAtTopOfLayer s a layer d = Some d' \<Longrightarrow> kview d' = kview d"
  by (auto simp: StackWindowAtTopOfLayer_def StackWindowRelativeToOtherWindow_def StackActorAtTopOfLayer_def bind_eq_Some_iff
      dest!: kview_try_win kview_on_win)

lemma kview_input_windows [kview_rules]:
  "ConfigureInputWindows C pid d = Some d' \<Longrightarrow> kview d' = kview d"
  "StackInputWindows C pid d = Some d' \<Longrightarrow> kview d' = kview d"
  by (auto simp: ConfigureInputWindows_def StackInputWindows_def bind_eq_Some_iff)

lemma kview_move_client_windows [kview_rules]: "move_client_windows C pid d = Some d' \<Longrightarrow> kview d' = kview d"
  by (auto simp: move_client_windows_def bind_eq_Some_iff dest!: kview_rules)

lemma kview_moves [kview_rules]:
  "Panel_MoveX C pid right mv ms d = Some d' \<Longrightarrow> kview d' = kview d"
  "Panel_MoveY C pid y mv ms d = Some d' \<Longrightarrow> kview d' = kview d"
  by (auto simp: Panel_MoveX_def Panel_MoveY_def bind_eq_Some_iff split: if_splits dest!: kview_rules)

lemma kview_Move [kview_rules]: "Panel_Move C pid right y mv ms d = Some d' \<Longrightarrow> kview d' = kview d"
  by (auto simp: Panel_Move_def bind_eq_Some_iff kview_upd_panel split: if_splits dest!: kview_rules)

lemma kview_panel_ops [kview_rules]:
  "SetTitlebarWidth C pid w d = Some d' \<Longrightarrow> kview d' = kview d"
  "Panel_SetShadowOpacity pid op ms d = Some d' \<Longrightarrow> kview d' = kview d"
  "Panel_AddButtonGrab C pid d = Some d' \<Longrightarrow> kview d' = kview d"
  "Panel_RemoveButtonGrab C pid b d = Some d' \<Longrightarrow> kview d' = kview d"
  by (auto simp: SetTitlebarWidth_def Panel_SetShadowOpacity_def Panel_AddButtonGrab_def Panel_RemoveButtonGrab_def
      bind_eq_Some_iff split: if_splits dest!: kview_rules)

lemma kview_SetResizable [kview_rules]: "SetResizable C pid b d = Some d' \<Longrightarrow> kview d' = kview d"
  by (auto simp: SetResizable_def bind_eq_Some_iff kview_upd_panel split: if_splits dest!: kview_rules)

lemma kview_panel_stack [kview_rules]:
  "StackAtTopOfLayer C pid layer d = Some d' \<Longrightarrow> kview d' = kview d"
  "StackAbovePanel C pid sib layer d = Some d' \<Longrightarrow> kview d' = kview d"
  by (auto simp: StackAtTopOfLayer_def StackAbovePanel_def bind_eq_Some_iff dest!: kview_rules)

lemma kview_expanded [kview_rules]:
  "Panel_UpdateChromeStateProperty C pid d = Some (ok, d') \<Longrightarrow> kview d' = kview d"
  "SetExpandedState C pid b d = Some (ok', d') \<Longrightarrow> kview d' = kview d"
  by (auto simp: Panel_UpdateChromeStateProperty_def SetExpandedState_def bind_eq_Some_iff kview_upd_panel Let_def
      split: if_splits dest!: kview_ask_win)

text \<open>The view determines that a panel and its windows exist.\<close>

lemma kview_panel_wins:
  assumes "kview d' = kview d" "panel_wins pid d = Some (p, c, t)"
  shows "\<exists>p' c' t'. panel_wins pid d' = Some (p', c', t') \<and> pn_content p' = pn_content p \<and> pn_titlebar p' = pn_titlebar p"
proof -
  have w: "dk_windows d' x \<noteq> None \<longleftrightarrow> dk_windows d x \<noteq> None" for x
    using assms(1) by (auto simp: kview_def fun_eq_iff)
  have "map_option (\<lambda>p. (pn_content p, pn_titlebar p)) (dk_panels d' pid) =
      map_option (\<lambda>p. (pn_content p, pn_titlebar p)) (dk_panels d pid)"
    using assms(1) by (auto simp: kview_def fun_eq_iff)
  with assms(2) obtain p' where "dk_panels d' pid = Some p'" "pn_content p' = pn_content p" "pn_titlebar p' = pn_titlebar p"
    by (auto simp: panel_wins_def bind_eq_Some_iff)
  with assms(2) w show ?thesis by (auto simp: panel_wins_def bind_eq_Some_iff)
qed

lemma kview_bar: "kview d' = kview d \<Longrightarrow> dk_bar d' = dk_bar (d :: ('x, 'd) bdesk_scheme)"
  by (cases d; cases d') (simp add: kview_def)

section \<open>Where panels are moved\<close>

text \<open>Same window, but the X server may have been asked to put the client elsewhere.\<close>

definition client_moved :: "window \<Rightarrow> window \<Rightarrow> bool" where
  "client_moved w w' \<longleftrightarrow> (\<exists>x y. w' = w\<lparr>client_x := x, client_y := y\<rparr>)"

lemma client_moved_refl [simp]: "client_moved w w"
  unfolding client_moved_def by (rule exI[of _ "client_x w"], rule exI[of _ "client_y w"]) simp

lemma client_moved_fields:
  assumes "client_moved w w'"
  shows "composited_x w' = composited_x w" "composited_y w' = composited_y w" "client_width w' = client_width w"
    "client_height w' = client_height w" "w_xid w' = w_xid w" "w_focused w' = w_focused w" "wm_hint_urgent w' = wm_hint_urgent w"
  using assms by (auto simp: client_moved_def)

lemma MoveClientToComposited_moved:
  assumes "MoveClientToComposited C (w, e) = (ok, w', e')"
  shows "client_moved w w'"
proof -
  obtain b e1 where "request (wm_xconn C) (MoveWindow (w_xid w) (composited_x w) (composited_y w)) e = (b, e1)" by force
  with assms show ?thesis
    by (cases b) (auto simp: MoveClientToComposited_def MoveClient_def SaveClientPosition_def, auto simp: client_moved_def)
qed

lemma panel_wins_iff:
  "panel_wins pid d = Some (p, c, t) \<longleftrightarrow>
     dk_panels d pid = Some p \<and> dk_windows d (pn_content p) = Some c \<and> dk_windows d (pn_titlebar p) = Some t"
  by (auto simp: panel_wins_def bind_eq_Some_iff)

lemma do_requests_env: "\<exists>e. do_requests C rs d = d\<lparr>dk_env := e\<rparr>"
  unfolding do_requests_def
proof (induction rs arbitrary: d)
  case (Cons r rs)
  obtain e where "do_request C r d = d\<lparr>dk_env := e\<rparr>"
    by (cases "request (wm_xconn C) r (dk_env d)") (simp add: do_request_def desk_request_def)
  with Cons[of "d\<lparr>dk_env := e\<rparr>"] show ?case by auto
next
  case Nil
  show ?case by (rule exI[of _ "dk_env d"]) simp
qed

lemma move_client_windows_result:
  assumes "panel_wins pid d = Some (p, c, t)" "pn_content p \<noteq> pn_titlebar p"
  shows "\<exists>c' t' e. move_client_windows C pid d =
      Some (d\<lparr>dk_windows := (dk_windows d)(pn_titlebar p \<mapsto> t', pn_content p \<mapsto> c'), dk_env := e\<rparr>)
    \<and> client_moved c c' \<and> client_moved t t'"
proof -
  note w = assms(1)[unfolded panel_wins_iff]
  obtain ok1 t' e1 where t': "MoveClientToComposited C (t, dk_env d) = (ok1, t', e1)" by (metis prod_cases3)
  obtain ok2 c' e2 where c': "MoveClientToComposited C (c, e1) = (ok2, c', e2)" by (metis prod_cases3)
  let ?d = "d\<lparr>dk_windows := (dk_windows d)(pn_titlebar p \<mapsto> t', pn_content p \<mapsto> c'), dk_env := e2\<rparr>"
  have v: "panel_wins pid ?d = Some (p, c', t')" using w assms(2) by (auto simp: panel_wins_iff)
  obtain e where e: "do_requests C (input_window_requests (p, c', t')) ?d = ?d\<lparr>dk_env := e\<rparr>" using do_requests_env by blast
  have "move_client_windows C pid d = Some (?d\<lparr>dk_env := e\<rparr>)"
    using w t' c' v assms(2) by (simp add: move_client_windows_def ask_win_def ConfigureInputWindows_def e)
  then show ?thesis
    using MoveClientToComposited_moved[OF t'] MoveClientToComposited_moved[OF c'] by auto
qed

text \<open>The windows of a panel after a move to a new position, with or without the client windows.\<close>

lemma move_result:
  assumes "panel_wins pid d = Some (p, c, t)" "pn_content p \<noteq> pn_titlebar p"
    "d1 = d\<lparr>dk_windows := (dk_windows d)(pn_titlebar p \<mapsto> t1, pn_content p \<mapsto> c1), dk_env := e1\<rparr>"
  shows "\<exists>c' t' e. (if mv then move_client_windows C pid d1 else Some d1) =
      Some (d\<lparr>dk_windows := (dk_windows d)(pn_titlebar p \<mapsto> t', pn_content p \<mapsto> c'), dk_env := e\<rparr>)
    \<and> client_moved c1 c' \<and> client_moved t1 t'"
proof (cases mv)
  case True
  have "panel_wins pid d1 = Some (p, c1, t1)" using assms by (auto simp: panel_wins_iff)
  from move_client_windows_result[OF this assms(2), of C] True assms(2,3) show ?thesis
    by (auto simp: fun_upd_twist)
next
  case False
  then show ?thesis using assms(3) by (intro exI[of _ c1] exI[of _ t1] exI[of _ e1]) simp
qed

lemma Panel_MoveX_result:
  assumes "panel_wins pid d = Some (p, c, t)" "pn_content p \<noteq> pn_titlebar p"
  shows "\<exists>c' t' e. Panel_MoveX C pid right mv ms d =
      Some (d\<lparr>dk_windows := (dk_windows d)(pn_titlebar p \<mapsto> t', pn_content p \<mapsto> c'), dk_env := e\<rparr>)
    \<and> client_moved (c\<lparr>composited_x := right - client_width c\<rparr>) c'
    \<and> client_moved (t\<lparr>composited_x := right - client_width t\<rparr>) t'"
proof -
  have w: "dk_windows d (pn_content p) = Some c" "dk_windows d (pn_titlebar p) = Some t"
    using assms(1) by (simp_all add: panel_wins_iff)
  obtain t1 e1 where t1: "MoveCompositedX (right - client_width t) ms (t, dk_env d) = (t1, e1)" by force
  obtain c1 e2 where c1: "MoveCompositedX (right - client_width c) ms (c, e1) = (c1, e2)" by force
  have eq: "t1 = t\<lparr>composited_x := right - client_width t\<rparr>" "c1 = c\<lparr>composited_x := right - client_width c\<rparr>"
    using t1 c1 by (auto simp: MoveCompositedX_def Let_def)
  let ?d = "d\<lparr>dk_windows := (dk_windows d)(pn_titlebar p \<mapsto> t1, pn_content p \<mapsto> c1), dk_env := e2\<rparr>"
  have "Panel_MoveX C pid right mv ms d = (if mv then move_client_windows C pid ?d else Some ?d)"
    using assms(2) w t1 c1 by (simp add: Panel_MoveX_def assms(1) on_win_def)
  then show ?thesis using move_result[OF assms refl, where mv = mv and C = C and ?t1.0 = t1 and ?c1.0 = c1 and ?e1.0 = e2] eq by simp
qed

lemma Panel_MoveY_result:
  assumes "panel_wins pid d = Some (p, c, t)" "pn_content p \<noteq> pn_titlebar p"
  shows "\<exists>c' t' e. Panel_MoveY C pid y mv ms d =
      Some (d\<lparr>dk_windows := (dk_windows d)(pn_titlebar p \<mapsto> t', pn_content p \<mapsto> c'), dk_env := e\<rparr>)
    \<and> client_moved (c\<lparr>composited_y := y + client_height t\<rparr>) c' \<and> client_moved (t\<lparr>composited_y := y\<rparr>) t'"
proof -
  have w: "dk_windows d (pn_content p) = Some c" "dk_windows d (pn_titlebar p) = Some t"
    using assms(1) by (simp_all add: panel_wins_iff)
  obtain t1 e1 where t1: "MoveCompositedY y ms (t, dk_env d) = (t1, e1)" by force
  obtain c1 e2 where c1: "MoveCompositedY (y + client_height t) ms (c, e1) = (c1, e2)" by force
  have eq: "t1 = t\<lparr>composited_y := y\<rparr>" "c1 = c\<lparr>composited_y := y + client_height t\<rparr>"
    using t1 c1 by (auto simp: MoveCompositedY_def Let_def)
  let ?d = "d\<lparr>dk_windows := (dk_windows d)(pn_titlebar p \<mapsto> t1, pn_content p \<mapsto> c1), dk_env := e2\<rparr>"
  have "Panel_MoveY C pid y mv ms d = (if mv then move_client_windows C pid ?d else Some ?d)"
    using assms(2) w t1 c1 by (simp add: Panel_MoveY_def assms(1) on_win_def)
  then show ?thesis using move_result[OF assms refl, where mv = mv and C = C and ?t1.0 = t1 and ?c1.0 = c1 and ?e1.0 = e2] eq by simp
qed

end
