(* ===== verification/WM_PanelDock.thy ===== *)
theory WM_PanelDock
  imports WM_Panel_Props
begin

text \<open>
  \<open>PanelDock\<close> (\<open>window_manager/panel_dock.h\<close>, \<open>panel_dock.cc\<close>): the panels at the left and right side of the screen,
  packed from the top, with a background that is shown while there are panels.

  The desk has a dock for each side. The methods of \<open>PanelManager\<close> and \<open>WindowManager\<close> that a dock calls are arguments: \<open>visibility\<close> is
  \<open>PanelManager::HandleDockVisibilityChange\<close>, \<open>resized\<close> is \<open>PanelManager::HandlePanelResize\<close>, and \<open>layout\<close> is
  \<open>LayoutManager::TakeFocus\<close>, which \<open>WindowManager::TakeFocus\<close> asks first.
\<close>

section \<open>State\<close>

datatype DockType = DOCK_TYPE_LEFT | DOCK_TYPE_RIGHT

record dock =
  dock_x :: int
  dock_y :: int
  dock_width :: int
  dock_height :: int
  dock_panels :: "pid list"
  dock_dragged_panel :: "pid option"
  dock_shadow :: shadow
  dock_input_xid :: xid
  dock_registrar :: registrar

record 'x ddesk = "'x bdesk" +
  dk_dock :: "DockType \<Rightarrow> dock"

definition kDetachThresholdPixels :: int where "kDetachThresholdPixels = 50"
definition kAttachThresholdPixels :: int where "kAttachThresholdPixels = 20"
definition kBackgroundAnimMs :: int where "kBackgroundAnimMs = 0"
definition kPanelShadowAnimMs :: int where "kPanelShadowAnimMs = 150"
definition kPackPanelsAnimMs :: int where "kPackPanelsAnimMs = 150"

definition upd_dock :: "DockType \<Rightarrow> (dock \<Rightarrow> dock) \<Rightarrow> ('x, 'd) ddesk_scheme \<Rightarrow> ('x, 'd) ddesk_scheme" where
  "upd_dock t f d = d\<lparr>dk_dock := (dk_dock d)(t := f (dk_dock d t))\<rparr>"

abbreviation dock_bg :: "DockType \<Rightarrow> actor" where
  "dock_bg t \<equiv> DockBackground (t = DOCK_TYPE_RIGHT)"

abbreviation dock_sh :: "DockType \<Rightarrow> shadow_owner" where
  "dock_sh t \<equiv> DockShadow (t = DOCK_TYPE_RIGHT)"

text \<open>A method of the dock's shadow.\<close>

definition on_dock_shadow ::
    "DockType \<Rightarrow> (shadow \<times> 'x env \<Rightarrow> shadow \<times> 'x env) \<Rightarrow> ('x, 'd) ddesk_scheme \<Rightarrow> ('x, 'd) ddesk_scheme" where
  "on_dock_shadow t f d =
     (case f (dock_shadow (dk_dock d t), dk_env d) of
        (s, e) \<Rightarrow> upd_dock t (\<lambda>k. k\<lparr>dock_shadow := s\<rparr>) (d\<lparr>dk_env := e\<rparr>))"

text \<open>Where the background is while the dock is hidden.\<close>

definition dock_hidden_x :: "DockType \<Rightarrow> dock \<Rightarrow> int" where
  "dock_hidden_x t k = (if t = DOCK_TYPE_LEFT then dock_x k - dock_width k else dock_x k + dock_width k)"

definition Dock_IsVisible :: "dock \<Rightarrow> bool" where
  "Dock_IsVisible k \<longleftrightarrow> dock_panels k \<noteq> []"

definition Dock_GetInputWindows :: "dock \<Rightarrow> xid list" where
  "Dock_GetInputWindows k = [dock_input_xid k]"

section \<open>Constructor and destructor\<close>

definition new_PanelDock ::
    "('x, 'c) panelctx_scheme \<Rightarrow> DockType \<Rightarrow> int \<Rightarrow> ('x, 'd) ddesk_scheme \<Rightarrow> ('x, 'd) ddesk_scheme option" where
  "new_PanelDock C t width d = do {
     let (s, e) = new_Shadow (wm_shadow_dims C) (dock_sh t) (dk_env d);
     let d = d\<lparr>dk_env := e\<rparr>;
     (xid, d) \<leftarrow> CreateInputWindow C (-1) (-1) 1 1 (ButtonPressMask + ButtonReleaseMask) d;
     let (r, m) = RegisterForWindowEvents xid (new_EventConsumerRegistrar (pc_panel_manager C), dk_consumers d);
     let k = \<lparr>dock_x = (if t = DOCK_TYPE_LEFT then 0 else dk_width d - width), dock_y = 0, dock_width = width,
       dock_height = dk_height d, dock_panels = [], dock_dragged_panel = None, dock_shadow = s, dock_input_xid = xid,
       dock_registrar = r\<rparr>;
     let d = upd_dock t (\<lambda>_. k) (d\<lparr>dk_consumers := m\<rparr>);
     (_, d) \<leftarrow> StackXidAtTopOfLayer C (pc_stacking C) xid LAYER_PANEL_DOCK d;
     let bg_x = dock_hidden_x t k;
     let group = ShadowActor (dock_sh t) Sh_group;
     let d = on_env (calls [(group, SetName ''panel dock background shadow''), (Stage, AddActor group)]) d;
     let d = on_env (Shadow_Resize (wm_shadow_dims C) (dock_sh t) width (dock_height k) 0) d;
     let d = on_env (Shadow_Move (dock_sh t) bg_x (dock_y k) 0) d;
     let d = on_dock_shadow t (Shadow_SetOpacity (dock_sh t) 0 0) d;
     let d = on_dock_shadow t (Shadow_Show (dock_sh t)) d;
     d \<leftarrow> StackActorAtTopOfLayer (pc_stacking C) group LAYER_PANEL_DOCK d;
     let d = on_env (calls [(dock_bg t, SetName ''panel dock background''), (Stage, AddActor (dock_bg t)),
       (dock_bg t, SetSize width (dock_height k)), (dock_bg t, Move bg_x (dock_y k) 0), (dock_bg t, SetVisibility True)]) d;
     StackActorAtTopOfLayer (pc_stacking C) (dock_bg t) LAYER_PANEL_DOCK d }"

definition destroy_PanelDock :: "('x, 'c) wmctx_scheme \<Rightarrow> DockType \<Rightarrow> ('x, 'd) ddesk_scheme \<Rightarrow> ('x, 'd) ddesk_scheme" where
  "destroy_PanelDock C t d =
     (let d = do_request C (DestroyWindow (dock_input_xid (dk_dock d t))) d;
          d = upd_dock t (\<lambda>k. k\<lparr>dock_dragged_panel := None\<rparr>) d
      in d\<lparr>dk_consumers := destroy_EventConsumerRegistrar (dock_registrar (dk_dock d t), dk_consumers d)\<rparr>)"

section \<open>Packing and focus\<close>

text \<open>The loop of \<open>PackPanels\<close>.\<close>

fun dock_pack ::
    "('x, 'c) panelctx_scheme \<Rightarrow> DockType \<Rightarrow> pid option \<Rightarrow> bool \<Rightarrow> int \<Rightarrow> pid option \<Rightarrow> pid list \<Rightarrow>
     ('x, 'd) ddesk_scheme \<Rightarrow> ('x, 'd) ddesk_scheme option" where
  "dock_pack C t starting_panel found height prev_panel [] d = Some d"
| "dock_pack C t starting_panel found height prev_panel (pid # pids) d = do {
     let found = (found \<or> Some pid = starting_panel);
     d \<leftarrow> (if found then do {
            d \<leftarrow> (case prev_panel of
                   None \<Rightarrow> Some d
                 | Some prev \<Rightarrow> StackAbovePanel C pid prev LAYER_STATIONARY_PANEL_IN_DOCK d);
            Panel_MoveY C pid (dock_y (dk_dock d t) + height) True kPackPanelsAnimMs d }
          else Some d);
     v \<leftarrow> panel_wins pid d;
     let height = height + (if pn_is_expanded (fst v) then total_height v else titlebar_height v);
     dock_pack C t starting_panel found height (Some pid) pids d }"

definition Dock_PackPanels ::
    "('x, 'c) panelctx_scheme \<Rightarrow> DockType \<Rightarrow> pid option \<Rightarrow> ('x, 'd) ddesk_scheme \<Rightarrow> ('x, 'd) ddesk_scheme option" where
  "Dock_PackPanels C t starting_panel d = do {
     let panels = dock_panels (dk_dock d t);
     d \<leftarrow> dock_pack C t starting_panel (starting_panel = None) 0 None panels d;
     if length panels = 1 then StackAtTopOfLayer C (panels ! 0) LAYER_STATIONARY_PANEL_IN_DOCK d else Some d }"

definition Dock_FocusPanel ::
    "('x, 'c) deskctx_scheme \<Rightarrow> pid \<Rightarrow> bool \<Rightarrow> xtime \<Rightarrow> ('x, 'd) pdesk_scheme \<Rightarrow> ('x, 'd) pdesk_scheme option" where
  "Dock_FocusPanel C pid remove_pointer_grab timestamp d = do {
     d \<leftarrow> Panel_RemoveButtonGrab C pid remove_pointer_grab d;
     (p, c, t) \<leftarrow> panel_wins pid d;
     let (_, d) = SetActiveWindowProperty C (w_xid c) d;
     (_, d) \<leftarrow> ask_win (pn_content p) (Window_TakeFocus C timestamp) d;
     Some d }"

text \<open>How many panels come before the first expanded one.\<close>

fun expanded_offset :: "(pid \<Rightarrow> panel option) \<Rightarrow> pid list \<Rightarrow> nat option option" where
  "expanded_offset ps [] = Some None"
| "expanded_offset ps (pid # pids) = do {
     p \<leftarrow> ps pid;
     if pn_is_expanded p then Some (Some 0) else map_option (map_option Suc) (expanded_offset ps pids) }"

definition Dock_GetNearestExpandedPanel :: "DockType \<Rightarrow> pid \<Rightarrow> ('x, 'd) ddesk_scheme \<Rightarrow> pid option option" where
  "Dock_GetNearestExpandedPanel t pid d = do {
     let panels = dock_panels (dk_dock d t);
     panel_pos \<leftarrow> find_index pid panels;
     before \<leftarrow> expanded_offset (dk_panels d) (rev (take panel_pos panels));
     after \<leftarrow> expanded_offset (dk_panels d) (drop (Suc panel_pos) panels);
     let nearest_pos = (case before of None \<Rightarrow> -1 | Some k \<Rightarrow> int panel_pos - 1 - int k);
     let nearest_pos = (case after of
         None \<Rightarrow> nearest_pos
       | Some k \<Rightarrow> (let i = int panel_pos + 1 + int k
                  in if nearest_pos < 0 \<or> i - int panel_pos < int panel_pos - nearest_pos then i else nearest_pos));
     Some (if nearest_pos < 0 then None else Some (panels ! nat nearest_pos)) }"

section \<open>Adding and removing panels\<close>

definition fit_y :: "dock \<Rightarrow> int \<Rightarrow> int \<Rightarrow> int" where
  "fit_y k height y =
     (let y = (if y + height > dock_y k + dock_height k then dock_y k + dock_height k - height else y)
      in if y < dock_y k then dock_y k else y)"

definition Dock_AddPanel ::
    "('x, 'c) panelctx_scheme \<Rightarrow> (DockType \<Rightarrow> ('x, 'd) ddesk_scheme \<Rightarrow> ('x, 'd) ddesk_scheme option) \<Rightarrow>
     DockType \<Rightarrow> pid \<Rightarrow> PanelSource \<Rightarrow> ('x, 'd) ddesk_scheme \<Rightarrow> ('x, 'd) ddesk_scheme option" where
  "Dock_AddPanel C visibility t pid source d = do {
     let d = upd_dock t (\<lambda>k. k\<lparr>dock_panels := dock_panels k @ [pid]\<rparr>) d;
     d \<leftarrow> (if length (dock_panels (dk_dock d t)) = 1 then do {
            let k = dk_dock d t;
            let d = snd (ConfigureInputWindow C (dock_input_xid k) (dock_x k) (dock_y k) (dock_width k) (dock_height k) d);
            let d = on_env (call (dock_bg t) (MoveX (dock_x k) kBackgroundAnimMs)) d;
            let d = on_env (Shadow_MoveX (dock_sh t) (dock_x k) kBackgroundAnimMs) d;
            let d = on_dock_shadow t (Shadow_SetOpacity (dock_sh t) 1 kBackgroundAnimMs) d;
            visibility t d }
          else Some d);
     d \<leftarrow> StackAtTopOfLayer C pid
       (if source = PANEL_SOURCE_DRAGGED then LAYER_DRAGGED_PANEL else LAYER_STATIONARY_PANEL_IN_DOCK) d;
     v \<leftarrow> panel_wins pid d;
     let k = dk_dock d t;
     d \<leftarrow> Panel_Move C pid (if t = DOCK_TYPE_RIGHT then dock_x k + dock_width k else dock_x k + panel_width v)
            (fit_y k (total_height v) (titlebar_y v)) True 0 d;
     v \<leftarrow> panel_wins pid d;
     if w_focused (fst (snd v)) then do {
       (timestamp, d) \<leftarrow> GetCurrentTimeFromServer C d;
       Dock_FocusPanel C pid False timestamp d }
     else Panel_AddButtonGrab C pid d }"

definition Dock_RemovePanel ::
    "('x, 'c) panelctx_scheme \<Rightarrow> (DockType \<Rightarrow> ('x, 'd) ddesk_scheme \<Rightarrow> ('x, 'd) ddesk_scheme option) \<Rightarrow>
     DockType \<Rightarrow> pid \<Rightarrow> ('x, 'd) ddesk_scheme \<Rightarrow> ('x, 'd) ddesk_scheme option" where
  "Dock_RemovePanel C visibility t pid d = do {
     let d = (if dock_dragged_panel (dk_dock d t) = Some pid then upd_dock t (\<lambda>k. k\<lparr>dock_dragged_panel := None\<rparr>) d else d);
     panel_pos \<leftarrow> find_index pid (dock_panels (dk_dock d t));
     let d = upd_dock t (\<lambda>k. k\<lparr>dock_panels := erase_at panel_pos (dock_panels k)\<rparr>) d;
     let k = dk_dock d t;
     if dock_panels k = [] then do {
       let bg_x = dock_hidden_x t k;
       let d = do_request C (ConfigureWindowOffscreen (dock_input_xid k)) d;
       let d = on_env (call (dock_bg t) (MoveX bg_x kBackgroundAnimMs)) d;
       let d = on_env (Shadow_MoveX (dock_sh t) bg_x kBackgroundAnimMs) d;
       let d = on_dock_shadow t (Shadow_SetOpacity (dock_sh t) 0 kBackgroundAnimMs) d;
       visibility t d }
     else Dock_PackPanels C t
       (if panel_pos < length (dock_panels k) then Some (dock_panels k ! panel_pos) else None) d }"

definition Dock_ShouldAddDraggedPanel :: "DockType \<Rightarrow> pid \<Rightarrow> int \<Rightarrow> int \<Rightarrow> ('x, 'd) ddesk_scheme \<Rightarrow> bool option" where
  "Dock_ShouldAddDraggedPanel t pid drag_x drag_y d = do {
     v \<leftarrow> panel_wins pid d;
     let k = dk_dock d t;
     Some (if t = DOCK_TYPE_RIGHT then drag_x \<ge> dock_x k + dock_width k - kAttachThresholdPixels
           else drag_x - content_width v \<le> dock_x k + kAttachThresholdPixels) }"

section \<open>Expanding and collapsing\<close>

definition Dock_ExpandPanel ::
    "('x, 'c) panelctx_scheme \<Rightarrow> DockType \<Rightarrow> pid \<Rightarrow> ('x, 'd) ddesk_scheme \<Rightarrow> ('x, 'd) ddesk_scheme option" where
  "Dock_ExpandPanel C t pid d = do {
     p \<leftarrow> dk_panels d pid;
     if pn_is_expanded p then Some d
     else do {
       (_, d) \<leftarrow> SetExpandedState C pid True d;
       Dock_PackPanels C t (Some pid) d } }"

definition Dock_CollapsePanel ::
    "('x, 'c) panelctx_scheme \<Rightarrow> (('x, 'd) ddesk_scheme \<Rightarrow> (bool \<times> ('x, 'd) ddesk_scheme) option) \<Rightarrow>
     DockType \<Rightarrow> pid \<Rightarrow> ('x, 'd) ddesk_scheme \<Rightarrow> ('x, 'd) ddesk_scheme option" where
  "Dock_CollapsePanel C layout t pid d = do {
     p \<leftarrow> dk_panels d pid;
     if \<not> pn_is_expanded p then Some d
     else do {
       CHECK (dock_panels (dk_dock d t) \<noteq> []);
       if pid = last (dock_panels (dk_dock d t)) then Some d
       else do {
         (_, d) \<leftarrow> SetExpandedState C pid False d;
         d \<leftarrow> Dock_PackPanels C t (Some pid) d;
         v \<leftarrow> panel_wins pid d;
         if w_focused (fst (snd v)) then do {
           new_panel_to_focus \<leftarrow> Dock_GetNearestExpandedPanel t pid d;
           case new_panel_to_focus of
             Some q \<Rightarrow> do {
               (timestamp, d) \<leftarrow> GetCurrentTimeFromServer C d;
               Dock_FocusPanel C q True timestamp d }
           | None \<Rightarrow> WindowManager_TakeFocus C layout d }
         else Some d } } }"

section \<open>Events\<close>

definition Dock_HandlePanelButtonPress ::
    "('x, 'c) deskctx_scheme \<Rightarrow> pid \<Rightarrow> xtime \<Rightarrow> ('x, 'd) pdesk_scheme \<Rightarrow> ('x, 'd) pdesk_scheme option" where
  "Dock_HandlePanelButtonPress C pid timestamp d = Dock_FocusPanel C pid True timestamp d"

definition Dock_HandlePanelFocusChange ::
    "('x, 'c) wmctx_scheme \<Rightarrow> pid \<Rightarrow> bool \<Rightarrow> ('x, 'd) pdesk_scheme \<Rightarrow> ('x, 'd) pdesk_scheme option" where
  "Dock_HandlePanelFocusChange C pid focus_in d = (if \<not> focus_in then Panel_AddButtonGrab C pid d else Some d)"

definition Dock_HandleSetPanelStateMessage ::
    "('x, 'c) panelctx_scheme \<Rightarrow> (('x, 'd) ddesk_scheme \<Rightarrow> (bool \<times> ('x, 'd) ddesk_scheme) option) \<Rightarrow>
     DockType \<Rightarrow> pid \<Rightarrow> bool \<Rightarrow> ('x, 'd) ddesk_scheme \<Rightarrow> ('x, 'd) ddesk_scheme option" where
  "Dock_HandleSetPanelStateMessage C layout t pid expand d =
     (if expand then Dock_ExpandPanel C t pid d else Dock_CollapsePanel C layout t pid d)"

definition Dock_HandleNotifyPanelDraggedMessage ::
    "('x, 'c) panelctx_scheme \<Rightarrow> DockType \<Rightarrow> pid \<Rightarrow> int \<Rightarrow> int \<Rightarrow> ('x, 'd) ddesk_scheme \<Rightarrow> (bool \<times> ('x, 'd) ddesk_scheme) option" where
  "Dock_HandleNotifyPanelDraggedMessage C t pid drag_x drag_y d = do {
     v \<leftarrow> panel_wins pid d;
     let k = dk_dock d t;
     if (if t = DOCK_TYPE_RIGHT then drag_x \<le> dock_x k + dock_width k - kDetachThresholdPixels
         else drag_x - content_width v \<ge> dock_x k + kDetachThresholdPixels) then Some (False, d)
     else do {
       d \<leftarrow> (if dock_dragged_panel k \<noteq> Some pid then do {
              let d = upd_dock t (\<lambda>k. k\<lparr>dock_dragged_panel := Some pid\<rparr>) d;
              d \<leftarrow> StackAtTopOfLayer C pid LAYER_DRAGGED_PANEL d;
              Panel_SetShadowOpacity pid 1 kPanelShadowAnimMs d }
            else Some d);
       v \<leftarrow> panel_wins pid d;
       d \<leftarrow> Panel_MoveY C pid (fit_y k (total_height v) drag_y) False 0 d;
       Some (True, d) } }"

definition Dock_HandleNotifyPanelDragCompleteMessage ::
    "('x, 'c) panelctx_scheme \<Rightarrow> (pid \<Rightarrow> ('x, 'd) ddesk_scheme \<Rightarrow> ('x, 'd) ddesk_scheme option) \<Rightarrow>
     DockType \<Rightarrow> pid \<Rightarrow> ('x, 'd) ddesk_scheme \<Rightarrow> ('x, 'd) ddesk_scheme option" where
  "Dock_HandleNotifyPanelDragCompleteMessage C resized t pid d =
     (if dock_dragged_panel (dk_dock d t) \<noteq> Some pid then Some d
      else do {
        v \<leftarrow> panel_wins pid d;
        d \<leftarrow> Panel_Move C pid (panel_right v) (titlebar_y v) True 0 d;
        v \<leftarrow> panel_wins pid d;
        let width = dock_width (dk_dock d t);
        d \<leftarrow> (if panel_width v \<noteq> width
             then ResizeContent C resized pid width (content_height v)
                    (if t = DOCK_TYPE_RIGHT then GRAVITY_NORTHEAST else GRAVITY_NORTHWEST) d
             else Some d);
        d \<leftarrow> Panel_SetShadowOpacity pid 0 kPanelShadowAnimMs d;
        d \<leftarrow> Dock_PackPanels C t (dock_dragged_panel (dk_dock d t)) d;
        Some (upd_dock t (\<lambda>k. k\<lparr>dock_dragged_panel := None\<rparr>) d) })"

definition Dock_HandleFocusPanelMessage ::
    "('x, 'c) deskctx_scheme \<Rightarrow> pid \<Rightarrow> ('x, 'd) pdesk_scheme \<Rightarrow> ('x, 'd) pdesk_scheme option" where
  "Dock_HandleFocusPanelMessage C pid d = do {
     (timestamp, d) \<leftarrow> GetCurrentTimeFromServer C d;
     Dock_FocusPanel C pid False timestamp d }"

fun dock_move_panels_x ::
    "('x, 'c) wmctx_scheme \<Rightarrow> int \<Rightarrow> pid list \<Rightarrow> ('x, 'd) ddesk_scheme \<Rightarrow> ('x, 'd) ddesk_scheme option" where
  "dock_move_panels_x C right [] d = Some d"
| "dock_move_panels_x C right (pid # pids) d = do {
     d \<leftarrow> Panel_MoveX C pid right True 0 d;
     dock_move_panels_x C right pids d }"

definition Dock_HandleScreenResize ::
    "('x, 'c) wmctx_scheme \<Rightarrow> DockType \<Rightarrow> ('x, 'd) ddesk_scheme \<Rightarrow> ('x, 'd) ddesk_scheme option" where
  "Dock_HandleScreenResize C t d = do {
     let d = upd_dock t (\<lambda>k. k\<lparr>dock_height := dk_height d,
         dock_x := (if t = DOCK_TYPE_RIGHT then dk_width d - dock_width k else dock_x k)\<rparr>) d;
     let k = dk_dock d t;
     let hidden = (dock_panels k = []);
     let bg_x = (if hidden then dock_hidden_x t k else dock_x k);
     let d = on_env (calls [(dock_bg t, SetSize (dock_width k) (dock_height k)), (dock_bg t, Move bg_x (dock_y k) 0)]) d;
     let d = on_env (Shadow_Resize (wm_shadow_dims C) (dock_sh t) (dock_width k) (dock_height k) 0) d;
     let d = on_env (Shadow_Move (dock_sh t) bg_x (dock_y k) 0) d;
     let d = (if \<not> hidden
              then snd (ConfigureInputWindow C (dock_input_xid k) (dock_x k) (dock_y k) (dock_width k) (dock_height k) d) else d);
     if t = DOCK_TYPE_RIGHT then dock_move_panels_x C (dock_x k + dock_width k) (dock_panels k) d else Some d }"

end
