(* ===== verification/WM_PanelManager.thy ===== *)
theory WM_PanelManager
  imports WM_PanelDock
begin

text \<open>
  \<open>PanelManager\<close> (\<open>window_manager/panel_manager.h\<close>, \<open>panel_manager.cc\<close>): it makes panels of windows, gives them to the containers (the
  bar and the two docks), routes events to panels and containers, and moves dragged panels between containers.

  A pointer to a \<open>PanelContainer\<close> is one of the three containers, and a virtual method is the case distinction on it. Two methods of
  \<open>WindowManager\<close> are arguments: \<open>layout\<close>, which is \<open>LayoutManager::TakeFocus\<close>, and \<open>area\<close>, which is
  \<open>HandleLayoutManagerAreaChange\<close>.
\<close>

section \<open>State\<close>

datatype container = BarContainer | DockContainer DockType

record panel_manager =
  pm_panels :: "(xid, pid) omap"
  pm_panels_by_titlebar_xid :: "xid \<Rightarrow> pid option"
  pm_dragged_panel :: "pid option"
  pm_coalescer :: coalescer
  pm_container_input_xids :: "xid \<Rightarrow> container option"
  pm_panel_input_xids :: "xid \<Rightarrow> pid option"
  pm_containers :: "container list"
  pm_containers_by_panel :: "pid \<Rightarrow> container option"
  pm_saw_map_request :: bool
  pm_registrar :: registrar

record 'x mdesk = "'x ddesk" +
  dk_pm :: panel_manager
  dk_wm_ipc_version :: int

definition kDraggedPanelUpdateMs :: int where "kDraggedPanelUpdateMs = 25"
definition kDetachPanelAnimMs :: int where "kDetachPanelAnimMs = 100"
definition kPanelDockWidth :: int where "kPanelDockWidth = 256"

definition upd_pm :: "(panel_manager \<Rightarrow> panel_manager) \<Rightarrow> ('x, 'd) mdesk_scheme \<Rightarrow> ('x, 'd) mdesk_scheme" where
  "upd_pm f d = d\<lparr>dk_pm := f (dk_pm d)\<rparr>"

text \<open>\<open>CHECK(map.insert(...).second)\<close> and \<open>CHECK(map.erase(...) == 1)\<close>.\<close>

definition map_insert :: "'k \<Rightarrow> 'v \<Rightarrow> ('k \<Rightarrow> 'v option) \<Rightarrow> ('k \<Rightarrow> 'v option) option" where
  "map_insert k v m = do { CHECK (m k = None); Some (m(k \<mapsto> v)) }"

definition map_erase :: "'k \<Rightarrow> ('k \<Rightarrow> 'v option) \<Rightarrow> ('k \<Rightarrow> 'v option) option" where
  "map_erase k m = do { CHECK (m k \<noteq> None); Some (m(k := None)) }"

definition om_insert :: "'k :: linorder \<Rightarrow> 'v \<Rightarrow> ('k, 'v) omap \<Rightarrow> ('k, 'v) omap option" where
  "om_insert k v m = do { CHECK (map_of m k = None); Some (om_put k v m) }"

definition om_erase :: "'k :: linorder \<Rightarrow> ('k, 'v) omap \<Rightarrow> ('k, 'v) omap option" where
  "om_erase k m = do { CHECK (map_of m k \<noteq> None); Some (om_del k m) }"

fun map_insert_all :: "'k list \<Rightarrow> 'v \<Rightarrow> ('k \<Rightarrow> 'v option) \<Rightarrow> ('k \<Rightarrow> 'v option) option" where
  "map_insert_all [] v m = Some m"
| "map_insert_all (k # ks) v m = do { m \<leftarrow> map_insert k v m; map_insert_all ks v m }"

fun map_erase_all :: "'k list \<Rightarrow> ('k \<Rightarrow> 'v option) \<Rightarrow> ('k \<Rightarrow> 'v option) option" where
  "map_erase_all [] m = Some m"
| "map_erase_all (k # ks) m = do { m \<leftarrow> map_erase k m; map_erase_all ks m }"

section \<open>The windows and containers of a panel\<close>

definition GetPanelByWindow :: "window \<Rightarrow> ('x, 'd) mdesk_scheme \<Rightarrow> pid option" where
  "GetPanelByWindow win d =
     (case map_of (pm_panels (dk_pm d)) (w_xid win) of
        Some pid \<Rightarrow> Some pid
      | None \<Rightarrow> pm_panels_by_titlebar_xid (dk_pm d) (w_xid win))"

definition GetPanelByXid :: "xid \<Rightarrow> ('x, 'd) mdesk_scheme \<Rightarrow> pid option" where
  "GetPanelByXid xid d = (case dk_windows d xid of None \<Rightarrow> None | Some win \<Rightarrow> GetPanelByWindow win d)"

definition GetContainerForPanel :: "pid \<Rightarrow> ('x, 'd) mdesk_scheme \<Rightarrow> container option" where
  "GetContainerForPanel pid d = pm_containers_by_panel (dk_pm d) pid"

definition IsInputWindow :: "xid \<Rightarrow> ('x, 'd) mdesk_scheme \<Rightarrow> bool" where
  "IsInputWindow xid d \<longleftrightarrow> pm_container_input_xids (dk_pm d) xid \<noteq> None \<or> pm_panel_input_xids (dk_pm d) xid \<noteq> None"

definition UpdateAvailableArea ::
    "(int \<Rightarrow> int \<Rightarrow> int \<Rightarrow> int \<Rightarrow> ('x, 'd) ddesk_scheme \<Rightarrow> ('x, 'd) ddesk_scheme option) \<Rightarrow>
     ('x, 'd) ddesk_scheme \<Rightarrow> ('x, 'd) ddesk_scheme option" where
  "UpdateAvailableArea area d =
     (let left = dk_dock d DOCK_TYPE_LEFT;
          right = dk_dock d DOCK_TYPE_RIGHT;
          avail_x = 0;
          avail_width = dk_width d;
          (avail_x, avail_width) =
            (if Dock_IsVisible left then (avail_x + dock_width left, avail_width - dock_width left) else (avail_x, avail_width));
          avail_width = (if Dock_IsVisible right then avail_width - dock_width right else avail_width)
      in area avail_x 0 avail_width (dk_height d) d)"

definition HandleDockVisibilityChange ::
    "(int \<Rightarrow> int \<Rightarrow> int \<Rightarrow> int \<Rightarrow> ('x, 'd) ddesk_scheme \<Rightarrow> ('x, 'd) ddesk_scheme option) \<Rightarrow>
     DockType \<Rightarrow> ('x, 'd) ddesk_scheme \<Rightarrow> ('x, 'd) ddesk_scheme option" where
  "HandleDockVisibilityChange area t d = UpdateAvailableArea area d"

section \<open>PanelContainer\<close>

definition Container_GetInputWindows :: "container \<Rightarrow> ('x, 'd) ddesk_scheme \<Rightarrow> xid list" where
  "Container_GetInputWindows c d =
     (case c of BarContainer \<Rightarrow> Bar_GetInputWindows (dk_bar d) | DockContainer t \<Rightarrow> Dock_GetInputWindows (dk_dock d t))"

definition Container_AddPanel ::
    "('x, 'c) barctx_scheme \<Rightarrow> (int \<Rightarrow> int \<Rightarrow> int \<Rightarrow> int \<Rightarrow> ('x, 'd) ddesk_scheme \<Rightarrow> ('x, 'd) ddesk_scheme option) \<Rightarrow>
     container \<Rightarrow> pid \<Rightarrow> PanelSource \<Rightarrow> ('x, 'd) ddesk_scheme \<Rightarrow> ('x, 'd) ddesk_scheme option" where
  "Container_AddPanel C area c pid source d =
     (case c of
        BarContainer \<Rightarrow> Bar_AddPanel C pid source d
      | DockContainer t \<Rightarrow> Dock_AddPanel C (HandleDockVisibilityChange area) t pid source d)"

definition Container_RemovePanel ::
    "('x, 'c) barctx_scheme \<Rightarrow> (int \<Rightarrow> int \<Rightarrow> int \<Rightarrow> int \<Rightarrow> ('x, 'd) ddesk_scheme \<Rightarrow> ('x, 'd) ddesk_scheme option) \<Rightarrow>
     container \<Rightarrow> pid \<Rightarrow> ('x, 'd) ddesk_scheme \<Rightarrow> ('x, 'd) ddesk_scheme option" where
  "Container_RemovePanel C area c pid d =
     (case c of
        BarContainer \<Rightarrow> Bar_RemovePanel C pid d
      | DockContainer t \<Rightarrow> Dock_RemovePanel C (HandleDockVisibilityChange area) t pid d)"

definition Container_ShouldAddDraggedPanel :: "container \<Rightarrow> pid \<Rightarrow> int \<Rightarrow> int \<Rightarrow> ('x, 'd) ddesk_scheme \<Rightarrow> bool option" where
  "Container_ShouldAddDraggedPanel c pid x y d =
     (case c of BarContainer \<Rightarrow> Bar_ShouldAddDraggedPanel pid x y d | DockContainer t \<Rightarrow> Dock_ShouldAddDraggedPanel t pid x y d)"

definition Container_HandlePanelResize ::
    "('x, 'c) wmctx_scheme \<Rightarrow> container \<Rightarrow> pid \<Rightarrow> ('x, 'd) ddesk_scheme \<Rightarrow> ('x, 'd) ddesk_scheme option" where
  "Container_HandlePanelResize C c pid d = (case c of BarContainer \<Rightarrow> Bar_HandlePanelResize C pid d | DockContainer t \<Rightarrow> Some d)"

text \<open>\<open>PanelManager::HandlePanelResize\<close>, which panels call.\<close>

definition HandlePanelResize ::
    "('x, 'c) wmctx_scheme \<Rightarrow> pid \<Rightarrow> ('x, 'd) mdesk_scheme \<Rightarrow> ('x, 'd) mdesk_scheme option" where
  "HandlePanelResize C pid d =
     (case GetContainerForPanel pid d of None \<Rightarrow> Some d | Some c \<Rightarrow> Container_HandlePanelResize C c pid d)"

definition Container_HandleNotifyPanelDraggedMessage ::
    "('x, 'c) barctx_scheme \<Rightarrow> (('x, 'd) ddesk_scheme \<Rightarrow> (bool \<times> ('x, 'd) ddesk_scheme) option) \<Rightarrow>
     container \<Rightarrow> pid \<Rightarrow> int \<Rightarrow> int \<Rightarrow> ('x, 'd) ddesk_scheme \<Rightarrow> (bool \<times> ('x, 'd) ddesk_scheme) option" where
  "Container_HandleNotifyPanelDraggedMessage C layout c pid x y d =
     (case c of
        BarContainer \<Rightarrow> Bar_HandleNotifyPanelDraggedMessage C layout pid x y d
      | DockContainer t \<Rightarrow> Dock_HandleNotifyPanelDraggedMessage C t pid x y d)"

definition Container_HandleNotifyPanelDragCompleteMessage ::
    "('x, 'c) barctx_scheme \<Rightarrow> (('x, 'd) mdesk_scheme \<Rightarrow> (bool \<times> ('x, 'd) mdesk_scheme) option) \<Rightarrow>
     container \<Rightarrow> pid \<Rightarrow> ('x, 'd) mdesk_scheme \<Rightarrow> ('x, 'd) mdesk_scheme option" where
  "Container_HandleNotifyPanelDragCompleteMessage C layout c pid d =
     (case c of
        BarContainer \<Rightarrow> Bar_HandleNotifyPanelDragCompleteMessage C layout pid d
      | DockContainer t \<Rightarrow> Dock_HandleNotifyPanelDragCompleteMessage C (HandlePanelResize C) t pid d)"

definition Container_HandleScreenResize ::
    "('x, 'c) wmctx_scheme \<Rightarrow> container \<Rightarrow> ('x, 'd) ddesk_scheme \<Rightarrow> ('x, 'd) ddesk_scheme option" where
  "Container_HandleScreenResize C c d =
     (case c of BarContainer \<Rightarrow> Bar_HandleScreenResize C d | DockContainer t \<Rightarrow> Dock_HandleScreenResize C t d)"

section \<open>Adding and removing panels\<close>

definition AddPanelToContainer ::
    "('x, 'c) barctx_scheme \<Rightarrow> (int \<Rightarrow> int \<Rightarrow> int \<Rightarrow> int \<Rightarrow> ('x, 'd) mdesk_scheme \<Rightarrow> ('x, 'd) mdesk_scheme option) \<Rightarrow>
     pid \<Rightarrow> container \<Rightarrow> PanelSource \<Rightarrow> ('x, 'd) mdesk_scheme \<Rightarrow> ('x, 'd) mdesk_scheme option" where
  "AddPanelToContainer C area pid c source d = do {
     m \<leftarrow> map_insert pid c (pm_containers_by_panel (dk_pm d));
     let d = upd_pm (\<lambda>m'. m'\<lparr>pm_containers_by_panel := m\<rparr>) d;
     Container_AddPanel C area c pid source d }"

definition RemovePanelFromContainer ::
    "('x, 'c) barctx_scheme \<Rightarrow> (int \<Rightarrow> int \<Rightarrow> int \<Rightarrow> int \<Rightarrow> ('x, 'd) mdesk_scheme \<Rightarrow> ('x, 'd) mdesk_scheme option) \<Rightarrow>
     pid \<Rightarrow> container \<Rightarrow> ('x, 'd) mdesk_scheme \<Rightarrow> ('x, 'd) mdesk_scheme option" where
  "RemovePanelFromContainer C area pid c d = do {
     m \<leftarrow> map_erase pid (pm_containers_by_panel (dk_pm d));
     let d = upd_pm (\<lambda>m'. m'\<lparr>pm_containers_by_panel := m\<rparr>) d;
     d \<leftarrow> Container_RemovePanel C area c pid d;
     d \<leftarrow> Panel_RemoveButtonGrab C pid False d;
     d \<leftarrow> SetResizable C pid False d;
     d \<leftarrow> Panel_SetShadowOpacity pid 1 kDetachPanelAnimMs d;
     (_, d) \<leftarrow> SetExpandedState C pid True d;
     Some d }"

definition RegisterContainer :: "container \<Rightarrow> ('x, 'd) mdesk_scheme \<Rightarrow> ('x, 'd) mdesk_scheme option" where
  "RegisterContainer c d = do {
     m \<leftarrow> map_insert_all (Container_GetInputWindows c d) c (pm_container_input_xids (dk_pm d));
     Some (upd_pm (\<lambda>m'. m'\<lparr>pm_container_input_xids := m, pm_containers := pm_containers m' @ [c]\<rparr>) d) }"

text \<open>The members are constructed in the order of the class: the bar before the docks.\<close>

definition new_PanelManager ::
    "('x, 'c) barctx_scheme \<Rightarrow> ('x, 'd) mdesk_scheme \<Rightarrow> ('x, 'd) mdesk_scheme option" where
  "new_PanelManager C d = do {
     co \<leftarrow> new_MotionEventCoalescer kDraggedPanelUpdateMs;
     d \<leftarrow> new_PanelBar C d;
     d \<leftarrow> new_PanelDock C DOCK_TYPE_LEFT kPanelDockWidth d;
     d \<leftarrow> new_PanelDock C DOCK_TYPE_RIGHT kPanelDockWidth d;
     let (r, m) = fold RegisterForChromeMessages
       [WM_SET_PANEL_STATE, WM_NOTIFY_PANEL_DRAGGED, WM_NOTIFY_PANEL_DRAG_COMPLETE]
       (new_EventConsumerRegistrar (pc_panel_manager C), dk_consumers d);
     let d = d\<lparr>dk_consumers := m, dk_pm := \<lparr>pm_panels = [], pm_panels_by_titlebar_xid = (\<lambda>_. None),
       pm_dragged_panel = None, pm_coalescer = co, pm_container_input_xids = (\<lambda>_. None), pm_panel_input_xids = (\<lambda>_. None),
       pm_containers = [], pm_containers_by_panel = (\<lambda>_. None), pm_saw_map_request = False, pm_registrar = r\<rparr>\<rparr>;
     d \<leftarrow> RegisterContainer BarContainer d;
     d \<leftarrow> RegisterContainer (DockContainer DOCK_TYPE_LEFT) d;
     RegisterContainer (DockContainer DOCK_TYPE_RIGHT) d }"

text \<open>The members are destroyed in reverse order; the map of panels, which owns them, is the last.\<close>

fun destroy_panels :: "('x, 'c) wmctx_scheme \<Rightarrow> pid list \<Rightarrow> ('x, 'd) pdesk_scheme \<Rightarrow> ('x, 'd) pdesk_scheme option" where
  "destroy_panels C [] d = Some d"
| "destroy_panels C (pid # pids) d = do { d \<leftarrow> destroy_Panel C pid d; destroy_panels C pids d }"

definition destroy_PanelManager ::
    "('x, 'c) wmctx_scheme \<Rightarrow> ('x, 'd) mdesk_scheme \<Rightarrow> ('x, 'd) mdesk_scheme option" where
  "destroy_PanelManager C d = do {
     let d = upd_pm (\<lambda>m. m\<lparr>pm_dragged_panel := None\<rparr>) d;
     let d = d\<lparr>dk_consumers := destroy_EventConsumerRegistrar (pm_registrar (dk_pm d), dk_consumers d)\<rparr>;
     let d = destroy_PanelDock C DOCK_TYPE_RIGHT d;
     let d = destroy_PanelDock C DOCK_TYPE_LEFT d;
     let d = destroy_PanelBar C d;
     let d = upd_pm (\<lambda>m. m\<lparr>pm_coalescer := destroy_MotionEventCoalescer (pm_coalescer m)\<rparr>) d;
     destroy_panels C (map snd (pm_panels (dk_pm d))) d }"

section \<open>Dragging\<close>

text \<open>The containers to which a detached panel is offered: whether one of them took it.\<close>

fun offer_panel ::
    "('x, 'c) barctx_scheme \<Rightarrow> (int \<Rightarrow> int \<Rightarrow> int \<Rightarrow> int \<Rightarrow> ('x, 'd) mdesk_scheme \<Rightarrow> ('x, 'd) mdesk_scheme option) \<Rightarrow>
     (('x, 'd) mdesk_scheme \<Rightarrow> (bool \<times> ('x, 'd) mdesk_scheme) option) \<Rightarrow>
     pid \<Rightarrow> int \<Rightarrow> int \<Rightarrow> container list \<Rightarrow> ('x, 'd) mdesk_scheme \<Rightarrow> (bool \<times> ('x, 'd) mdesk_scheme) option" where
  "offer_panel C area layout pid x y [] d = Some (False, d)"
| "offer_panel C area layout pid x y (c # cs) d = do {
     take \<leftarrow> Container_ShouldAddDraggedPanel c pid x y d;
     if take then do {
       d \<leftarrow> AddPanelToContainer C area pid c PANEL_SOURCE_DRAGGED d;
       (ok, d) \<leftarrow> Container_HandleNotifyPanelDraggedMessage C layout c pid x y d;
       CHECK ok;
       Some (True, d) }
     else offer_panel C area layout pid x y cs d }"

definition HandlePeriodicPanelDragMotion ::
    "('x, 'c) barctx_scheme \<Rightarrow> (int \<Rightarrow> int \<Rightarrow> int \<Rightarrow> int \<Rightarrow> ('x, 'd) mdesk_scheme \<Rightarrow> ('x, 'd) mdesk_scheme option) \<Rightarrow>
     (('x, 'd) mdesk_scheme \<Rightarrow> (bool \<times> ('x, 'd) mdesk_scheme) option) \<Rightarrow> ('x, 'd) mdesk_scheme \<Rightarrow> ('x, 'd) mdesk_scheme option" where
  "HandlePeriodicPanelDragMotion C area layout d =
     (case pm_dragged_panel (dk_pm d) of
        None \<Rightarrow> Some d
      | Some pid \<Rightarrow> do {
          let x = mc_x (pm_coalescer (dk_pm d));
          let y = mc_y (pm_coalescer (dk_pm d));
          (container_handled_drag, panel_was_detached, d) \<leftarrow>
            (case GetContainerForPanel pid d of
               None \<Rightarrow> Some (False, False, d)
             | Some c \<Rightarrow> do {
                 (ok, d) \<leftarrow> Container_HandleNotifyPanelDraggedMessage C layout c pid x y d;
                 if ok then Some (True, False, d)
                 else do {
                   d \<leftarrow> RemovePanelFromContainer C area pid c d;
                   Some (False, True, d) } });
          if container_handled_drag then Some d
          else do {
            d \<leftarrow> (if panel_was_detached then do {
                   v \<leftarrow> panel_wins pid d;
                   d \<leftarrow> SetTitlebarWidth C pid (content_width v) d;
                   StackAtTopOfLayer C pid LAYER_DRAGGED_PANEL d }
                 else Some d);
            (panel_was_reattached, d) \<leftarrow> offer_panel C area layout pid x y (pm_containers (dk_pm d)) d;
            if \<not> panel_was_reattached then Panel_Move C pid x y False (if panel_was_detached then kDetachPanelAnimMs else 0) d
            else Some d } })"

text \<open>An operation of the coalescer, which may run its callback once.\<close>

definition pm_coalesced ::
    "(coalescer \<Rightarrow> coalescer) \<Rightarrow> (('x, 'd) mdesk_scheme \<Rightarrow> ('x, 'd) mdesk_scheme option) \<Rightarrow>
     ('x, 'd) mdesk_scheme \<Rightarrow> ('x, 'd) mdesk_scheme option" where
  "pm_coalesced f callback d =
     (let c = f ((pm_coalescer (dk_pm d))\<lparr>mc_log := []\<rparr>);
          d = upd_pm (\<lambda>m. m\<lparr>pm_coalescer := c\<rparr>) d
      in if mc_log c \<noteq> [] then callback d else Some d)"

definition panel_drag_timer ::
    "('x, 'c) barctx_scheme \<Rightarrow> (int \<Rightarrow> int \<Rightarrow> int \<Rightarrow> int \<Rightarrow> ('x, 'd) mdesk_scheme \<Rightarrow> ('x, 'd) mdesk_scheme option) \<Rightarrow>
     (('x, 'd) mdesk_scheme \<Rightarrow> (bool \<times> ('x, 'd) mdesk_scheme) option) \<Rightarrow> ('x, 'd) mdesk_scheme \<Rightarrow> ('x, 'd) mdesk_scheme option" where
  "panel_drag_timer C area layout d =
     pm_coalesced (\<lambda>c. snd (mc_HandleTimer c)) (HandlePeriodicPanelDragMotion C area layout) d"

definition HandlePanelDragComplete ::
    "('x, 'c) barctx_scheme \<Rightarrow> (int \<Rightarrow> int \<Rightarrow> int \<Rightarrow> int \<Rightarrow> ('x, 'd) mdesk_scheme \<Rightarrow> ('x, 'd) mdesk_scheme option) \<Rightarrow>
     (('x, 'd) mdesk_scheme \<Rightarrow> (bool \<times> ('x, 'd) mdesk_scheme) option) \<Rightarrow>
     pid \<Rightarrow> bool \<Rightarrow> ('x, 'd) mdesk_scheme \<Rightarrow> ('x, 'd) mdesk_scheme option" where
  "HandlePanelDragComplete C area layout pid removed d =
     (if pm_dragged_panel (dk_pm d) \<noteq> Some pid then Some d
      else do {
        d \<leftarrow> (if mc_IsRunning (pm_coalescer (dk_pm d))
             then pm_coalesced mc_Stop (HandlePeriodicPanelDragMotion C area layout) d else Some d);
        let d = upd_pm (\<lambda>m. m\<lparr>pm_dragged_panel := None\<rparr>) d;
        if \<not> removed then
          (case GetContainerForPanel pid d of
             Some c \<Rightarrow> Container_HandleNotifyPanelDragCompleteMessage C layout c pid d
           | None \<Rightarrow> AddPanelToContainer C area pid BarContainer PANEL_SOURCE_DROPPED d)
        else Some d })"

section \<open>Windows\<close>

definition is_panel_window :: "window \<Rightarrow> bool" where
  "is_panel_window w \<longleftrightarrow> w_type w = WINDOW_TYPE_CHROME_PANEL_CONTENT \<or> w_type w = WINDOW_TYPE_CHROME_PANEL_TITLEBAR"

definition DoInitialSetupForWindow :: "('x, 'c) wmctx_scheme \<Rightarrow> xid \<Rightarrow> ('x, 'd) desk_scheme \<Rightarrow> ('x, 'd) desk_scheme option" where
  "DoInitialSetupForWindow C win d = do {
     (_, d) \<leftarrow> ask_win win (MoveClientOffscreen C (dk_width d, dk_height d)) d;
     Some d }"

definition Panels_HandleWindowMapRequest ::
    "('x, 'c) wmctx_scheme \<Rightarrow> xid \<Rightarrow> ('x, 'd) mdesk_scheme \<Rightarrow> (bool \<times> ('x, 'd) mdesk_scheme) option" where
  "Panels_HandleWindowMapRequest C win d = do {
     let d = upd_pm (\<lambda>m. m\<lparr>pm_saw_map_request := True\<rparr>) d;
     w \<leftarrow> dk_windows d win;
     if \<not> is_panel_window w then Some (False, d)
     else do {
       d \<leftarrow> DoInitialSetupForWindow C win d;
       (_, d) \<leftarrow> ask_win win (MapClient C) d;
       Some (True, d) } }"

text \<open>An \<open>XWindow\<close> has 32 bits.\<close>

definition to_xid :: "int \<Rightarrow> xid" where
  "to_xid v = nat (v mod 2 ^ 32)"

text \<open>\<open>pid\<close> is the address of the new panel, \<open>junk\<close> the memory of the member that its constructor does not set.\<close>

definition Panels_HandleWindowMap ::
    "('x, 'c) barctx_scheme \<Rightarrow> (int \<Rightarrow> int \<Rightarrow> int \<Rightarrow> int \<Rightarrow> ('x, 'd) mdesk_scheme \<Rightarrow> ('x, 'd) mdesk_scheme option) \<Rightarrow>
     Gravity \<Rightarrow> pid \<Rightarrow> xid \<Rightarrow> ('x, 'd) mdesk_scheme \<Rightarrow> ('x, 'd) mdesk_scheme option" where
  "Panels_HandleWindowMap C area junk pid win d = do {
     w \<leftarrow> dk_windows d win;
     if \<not> is_panel_window w then Some d
     else do {
       d \<leftarrow> (if \<not> pm_saw_map_request (dk_pm d) then DoInitialSetupForWindow C win d else Some d);
       if w_type w = WINDOW_TYPE_CHROME_PANEL_TITLEBAR then Some d
       else (case w_type_params w of
           [] \<Rightarrow> Some d
         | titlebar # params \<Rightarrow>
             (case dk_windows d (to_xid titlebar) of
                None \<Rightarrow> Some d
              | Some titlebar_win \<Rightarrow> do {
                  let expanded = (case params of [] \<Rightarrow> False | e # _ \<Rightarrow> e \<noteq> 0);
                  d \<leftarrow> new_Panel C junk pid win (to_xid titlebar) expanded d;
                  v \<leftarrow> panel_wins pid d;
                  d \<leftarrow> SetTitlebarWidth C pid (content_width v) d;
                  m \<leftarrow> map_insert_all (Panel_GetInputWindows (fst v)) pid (pm_panel_input_xids (dk_pm d));
                  let d = upd_pm (\<lambda>m'. m'\<lparr>pm_panel_input_xids := m\<rparr>) d;
                  m \<leftarrow> om_insert (w_xid w) pid (pm_panels (dk_pm d));
                  let d = upd_pm (\<lambda>m'. m'\<lparr>pm_panels := m\<rparr>) d;
                  m \<leftarrow> map_insert (w_xid titlebar_win) pid (pm_panels_by_titlebar_xid (dk_pm d));
                  let d = upd_pm (\<lambda>m'. m'\<lparr>pm_panels_by_titlebar_xid := m\<rparr>) d;
                  AddPanelToContainer C area pid BarContainer PANEL_SOURCE_NEW d })) } }"

definition Panels_HandleWindowUnmap ::
    "('x, 'c) barctx_scheme \<Rightarrow> (int \<Rightarrow> int \<Rightarrow> int \<Rightarrow> int \<Rightarrow> ('x, 'd) mdesk_scheme \<Rightarrow> ('x, 'd) mdesk_scheme option) \<Rightarrow>
     (('x, 'd) mdesk_scheme \<Rightarrow> (bool \<times> ('x, 'd) mdesk_scheme) option) \<Rightarrow>
     xid \<Rightarrow> ('x, 'd) mdesk_scheme \<Rightarrow> ('x, 'd) mdesk_scheme option" where
  "Panels_HandleWindowUnmap C area layout win d = do {
     w \<leftarrow> dk_windows d win;
     case GetPanelByWindow w d of
       None \<Rightarrow> Some d
     | Some pid \<Rightarrow> do {
         d \<leftarrow> (case GetContainerForPanel pid d of None \<Rightarrow> Some d | Some c \<Rightarrow> RemovePanelFromContainer C area pid c d);
         d \<leftarrow> (if pm_dragged_panel (dk_pm d) = Some pid then HandlePanelDragComplete C area layout pid True d else Some d);
         v \<leftarrow> panel_wins pid d;
         d \<leftarrow> (if w_focused (fst (snd v)) then do {
                (ok, d) \<leftarrow> Bar_TakeFocus C d;
                if \<not> ok then WindowManager_TakeFocus C layout d else Some d }
              else Some d);
         (p, c, t) \<leftarrow> panel_wins pid d;
         m \<leftarrow> map_erase_all (Panel_GetInputWindows p) (pm_panel_input_xids (dk_pm d));
         let d = upd_pm (\<lambda>m'. m'\<lparr>pm_panel_input_xids := m\<rparr>) d;
         m \<leftarrow> map_erase (w_xid t) (pm_panels_by_titlebar_xid (dk_pm d));
         let d = upd_pm (\<lambda>m'. m'\<lparr>pm_panels_by_titlebar_xid := m\<rparr>) d;
         m \<leftarrow> om_erase (w_xid c) (pm_panels (dk_pm d));
         let d = upd_pm (\<lambda>m'. m'\<lparr>pm_panels := m\<rparr>) d;
         destroy_Panel C pid d } }"

definition Panels_HandleWindowConfigureRequest ::
    "('x, 'c) panelctx_scheme \<Rightarrow> xid \<Rightarrow> int \<Rightarrow> int \<Rightarrow> ('x, 'd) mdesk_scheme \<Rightarrow> ('x, 'd) mdesk_scheme option" where
  "Panels_HandleWindowConfigureRequest C win req_width req_height d = do {
     w \<leftarrow> dk_windows d win;
     case GetPanelByWindow w d of
       None \<Rightarrow> Some d
     | Some pid \<Rightarrow> Panel_HandleWindowConfigureRequest C (HandlePanelResize C) pid win req_width req_height d }"

section \<open>Events\<close>

definition Panels_HandleButtonPress ::
    "('x, 'c) barctx_scheme \<Rightarrow> (('x, 'd) mdesk_scheme \<Rightarrow> (bool \<times> ('x, 'd) mdesk_scheme) option) \<Rightarrow>
     xid \<Rightarrow> int \<Rightarrow> int \<Rightarrow> int \<Rightarrow> xtime \<Rightarrow> ('x, 'd) mdesk_scheme \<Rightarrow> ('x, 'd) mdesk_scheme option" where
  "Panels_HandleButtonPress C layout xid x y button timestamp d =
     (case pm_container_input_xids (dk_pm d) xid of
        Some BarContainer \<Rightarrow> Bar_HandleInputWindowButtonPress C layout xid button d
      | Some (DockContainer t) \<Rightarrow> Some d
      | None \<Rightarrow>
          (case pm_panel_input_xids (dk_pm d) xid of
             Some pid \<Rightarrow> HandleInputWindowButtonPress C pid xid x y button d
           | None \<Rightarrow>
               (case GetPanelByXid xid d of
                  None \<Rightarrow> Some d
                | Some pid \<Rightarrow>
                    (case GetContainerForPanel pid d of
                       None \<Rightarrow> Some d
                     | Some BarContainer \<Rightarrow> Bar_HandlePanelButtonPress C pid timestamp d
                     | Some (DockContainer t) \<Rightarrow> Dock_HandlePanelButtonPress C pid timestamp d))))"

definition Panels_HandleButtonRelease ::
    "('x, 'c) panelctx_scheme \<Rightarrow> xid \<Rightarrow> int \<Rightarrow> int \<Rightarrow> int \<Rightarrow> ('x, 'd) mdesk_scheme \<Rightarrow> ('x, 'd) mdesk_scheme option" where
  "Panels_HandleButtonRelease C xid x y button d =
     (case pm_container_input_xids (dk_pm d) xid of
        Some c \<Rightarrow> Some d
      | None \<Rightarrow>
          (case pm_panel_input_xids (dk_pm d) xid of
             Some pid \<Rightarrow> HandleInputWindowButtonRelease C (HandlePanelResize C) pid xid x y button d
           | None \<Rightarrow> Some d))"

definition Panels_HandlePointerEnter ::
    "('x, 'c) deskctx_scheme \<Rightarrow> xid \<Rightarrow> int \<Rightarrow> ('x, 'd) mdesk_scheme \<Rightarrow> ('x, 'd) mdesk_scheme option" where
  "Panels_HandlePointerEnter C xid x_root d =
     (case pm_container_input_xids (dk_pm d) xid of
        Some BarContainer \<Rightarrow> Bar_HandleInputWindowPointerEnter C xid x_root d
      | Some (DockContainer t) \<Rightarrow> Some d
      | None \<Rightarrow>
          (case GetPanelByXid xid d of
             None \<Rightarrow> Some d
           | Some pid \<Rightarrow> do {
               p \<leftarrow> dk_panels d pid;
               if GetContainerForPanel pid d = Some BarContainer \<and> xid = pn_titlebar p
               then Bar_HandlePanelTitlebarPointerEnter C pid d else Some d }))"

definition Panels_HandlePointerLeave :: "xid \<Rightarrow> ('x, 'd) mdesk_scheme \<Rightarrow> ('x, 'd) mdesk_scheme" where
  "Panels_HandlePointerLeave xid d =
     (if pm_container_input_xids (dk_pm d) xid = Some BarContainer then Bar_HandleInputWindowPointerLeave xid d else d)"

definition Panels_HandlePointerMotion ::
    "('x, 'c) panelctx_scheme \<Rightarrow> xid \<Rightarrow> int \<Rightarrow> int \<Rightarrow> ('x, 'd) mdesk_scheme \<Rightarrow> ('x, 'd) mdesk_scheme option" where
  "Panels_HandlePointerMotion C xid x y d =
     (case pm_panel_input_xids (dk_pm d) xid of
        None \<Rightarrow> Some d
      | Some pid \<Rightarrow> HandleInputWindowPointerMotion C (HandlePanelResize C) pid xid x y d)"

definition handle_panel_dragged ::
    "('x, 'c) barctx_scheme \<Rightarrow> (int \<Rightarrow> int \<Rightarrow> int \<Rightarrow> int \<Rightarrow> ('x, 'd) mdesk_scheme \<Rightarrow> ('x, 'd) mdesk_scheme option) \<Rightarrow>
     (('x, 'd) mdesk_scheme \<Rightarrow> (bool \<times> ('x, 'd) mdesk_scheme) option) \<Rightarrow>
     pid \<Rightarrow> int \<Rightarrow> int \<Rightarrow> ('x, 'd) mdesk_scheme \<Rightarrow> ('x, 'd) mdesk_scheme option" where
  "handle_panel_dragged C area layout pid x y d = do {
     d \<leftarrow> (case pm_dragged_panel (dk_pm d) of
            None \<Rightarrow> Some d
          | Some q \<Rightarrow> if pid \<noteq> q then HandlePanelDragComplete C area layout q False d else Some d);
     let d = upd_pm (\<lambda>m. m\<lparr>pm_dragged_panel := Some pid\<rparr>) d;
     let d = (if \<not> mc_IsRunning (pm_coalescer (dk_pm d))
              then (case start_coalescer C (pm_coalescer (dk_pm d)) d of (co, d) \<Rightarrow> upd_pm (\<lambda>m. m\<lparr>pm_coalescer := co\<rparr>) d) else d);
     v \<leftarrow> panel_wins pid d;
     let drag_x = (if dk_wm_ipc_version d \<ge> 1 then x else x + titlebar_width v);
     pm_coalesced (StorePosition drag_x y) (HandlePeriodicPanelDragMotion C area layout) d }"

definition Panels_HandleChromeMessage ::
    "('x, 'c) barctx_scheme \<Rightarrow> (int \<Rightarrow> int \<Rightarrow> int \<Rightarrow> int \<Rightarrow> ('x, 'd) mdesk_scheme \<Rightarrow> ('x, 'd) mdesk_scheme option) \<Rightarrow>
     (('x, 'd) mdesk_scheme \<Rightarrow> (bool \<times> ('x, 'd) mdesk_scheme) option) \<Rightarrow>
     message \<Rightarrow> ('x, 'd) mdesk_scheme \<Rightarrow> ('x, 'd) mdesk_scheme option" where
  "Panels_HandleChromeMessage C area layout msg d =
     (if msg_type msg \<notin> {WM_SET_PANEL_STATE, WM_NOTIFY_PANEL_DRAGGED, WM_NOTIFY_PANEL_DRAG_COMPLETE} then Some d
      else do {
        xid \<leftarrow> param 0 msg;
        case GetPanelByXid (to_xid xid) d of
          None \<Rightarrow> Some d
        | Some pid \<Rightarrow>
            if msg_type msg = WM_SET_PANEL_STATE then
              (case GetContainerForPanel pid d of
                 None \<Rightarrow> Some d
               | Some c \<Rightarrow> do {
                   state \<leftarrow> param 1 msg;
                   case c of
                     BarContainer \<Rightarrow> Bar_HandleSetPanelStateMessage C layout pid (state \<noteq> 0) d
                   | DockContainer t \<Rightarrow> Dock_HandleSetPanelStateMessage C layout t pid (state \<noteq> 0) d })
            else if msg_type msg = WM_NOTIFY_PANEL_DRAGGED then do {
              x \<leftarrow> param 1 msg;
              y \<leftarrow> param 2 msg;
              handle_panel_dragged C area layout pid x y d }
            else HandlePanelDragComplete C area layout pid False d })"

definition Panels_HandleClientMessage ::
    "('x, 'c) barctx_scheme \<Rightarrow> xid \<Rightarrow> xatom \<Rightarrow> ('x, 'd) mdesk_scheme \<Rightarrow> ('x, 'd) mdesk_scheme option" where
  "Panels_HandleClientMessage C xid message_type d =
     (case GetPanelByXid xid d of
        None \<Rightarrow> Some d
      | Some pid \<Rightarrow>
          if message_type = wm_atom C ATOM_NET_ACTIVE_WINDOW then
            (case GetContainerForPanel pid d of
               None \<Rightarrow> Some d
             | Some BarContainer \<Rightarrow> Bar_HandleFocusPanelMessage C pid d
             | Some (DockContainer t) \<Rightarrow> Dock_HandleFocusPanelMessage C pid d)
          else Some d)"

definition Panels_HandleFocusChange ::
    "('x, 'c) wmctx_scheme \<Rightarrow> xid \<Rightarrow> bool \<Rightarrow> ('x, 'd) mdesk_scheme \<Rightarrow> ('x, 'd) mdesk_scheme option" where
  "Panels_HandleFocusChange C xid focus_in d =
     (case GetPanelByXid xid d of
        None \<Rightarrow> Some d
      | Some pid \<Rightarrow>
          (case GetContainerForPanel pid d of
             None \<Rightarrow> Some d
           | Some BarContainer \<Rightarrow> Bar_HandlePanelFocusChange C pid focus_in d
           | Some (DockContainer t) \<Rightarrow> Dock_HandlePanelFocusChange C pid focus_in d))"

definition Panels_HandleWindowPropertyChange ::
    "('x, 'c) wmctx_scheme \<Rightarrow> xid \<Rightarrow> ('x, 'd) mdesk_scheme \<Rightarrow> ('x, 'd) mdesk_scheme option" where
  "Panels_HandleWindowPropertyChange C xid d =
     (case GetPanelByXid xid d of
        None \<Rightarrow> Some d
      | Some pid \<Rightarrow>
          if GetContainerForPanel pid d = Some BarContainer then Bar_HandlePanelUrgencyChange C pid d else Some d)"

fun resize_containers :: "('x, 'c) wmctx_scheme \<Rightarrow> container list \<Rightarrow> ('x, 'd) ddesk_scheme \<Rightarrow> ('x, 'd) ddesk_scheme option" where
  "resize_containers C [] d = Some d"
| "resize_containers C (c # cs) d = do { d \<leftarrow> Container_HandleScreenResize C c d; resize_containers C cs d }"

definition Panels_HandleScreenResize ::
    "('x, 'c) wmctx_scheme \<Rightarrow> (int \<Rightarrow> int \<Rightarrow> int \<Rightarrow> int \<Rightarrow> ('x, 'd) mdesk_scheme \<Rightarrow> ('x, 'd) mdesk_scheme option) \<Rightarrow>
     ('x, 'd) mdesk_scheme \<Rightarrow> ('x, 'd) mdesk_scheme option" where
  "Panels_HandleScreenResize C area d = do {
     d \<leftarrow> resize_containers C (pm_containers (dk_pm d)) d;
     UpdateAvailableArea area d }"

definition Panels_TakeFocus :: "('x, 'c) deskctx_scheme \<Rightarrow> ('x, 'd) bdesk_scheme \<Rightarrow> (bool \<times> ('x, 'd) bdesk_scheme) option" where
  "Panels_TakeFocus C d = Bar_TakeFocus C d"

end
