(* ===== verification/WM_Toplevel.thy ===== *)
theory WM_Toplevel
  imports WM_PanelManager WM_Keys
begin

text \<open>
  \<open>LayoutManager::ToplevelWindow\<close> (\<open>window_manager/layout_manager.h\<close>, \<open>layout_manager.cc\<close>): a client window that the layout manager
  shows, the invisible window that stands for it in overview mode, and the transient windows that belong to it.

  A pointer to a \<open>ToplevelWindow\<close> is an id; the objects are a map in the layout manager's state. A pointer to a \<open>TransientWindow\<close>
  is the id of its window, the key under which \<open>transients_\<close> holds it.
\<close>

section \<open>State\<close>

type_synonym tid = nat

datatype toplevel_state =
    STATE_NEW
  | STATE_ACTIVE_MODE_ONSCREEN
  | STATE_ACTIVE_MODE_OFFSCREEN
  | STATE_ACTIVE_MODE_IN_FROM_RIGHT
  | STATE_ACTIVE_MODE_IN_FROM_LEFT
  | STATE_ACTIVE_MODE_OUT_TO_LEFT
  | STATE_ACTIVE_MODE_OUT_TO_RIGHT
  | STATE_ACTIVE_MODE_IN_FADE
  | STATE_ACTIVE_MODE_OUT_FADE
  | STATE_OVERVIEW_MODE_NORMAL
  | STATE_OVERVIEW_MODE_MAGNIFIED

record transient_window =
  tr_win :: xid
  x_offset :: int
  y_offset :: int
  centered :: bool

record toplevel =
  tl_win :: xid
  tl_input_xid :: xid
  tl_state :: toplevel_state
  overview_x :: int
  overview_y :: int
  overview_width :: int
  overview_height :: int
  overview_scale :: double
  tl_transients :: "(xid, transient_window) omap"
  stacked_transients :: "xid stacker"
  transient_to_focus :: "xid option"
  tl_registrar :: registrar

datatype layout_mode = MODE_ACTIVE | MODE_OVERVIEW

record lm_metrics =
  overview_by_keystroke_count :: int
  overview_exit_by_mouse_count :: int
  overview_exit_by_keystroke_count :: int
  window_cycle_by_keystroke_count :: int

text \<open>\<open>lm_tops\<close> are the \<open>ToplevelWindow\<close> objects; \<open>lm_static_gradient\<close> says whether the static texture exists.\<close>

record layout_manager =
  lm_mode :: layout_mode
  lm_x :: int
  lm_y :: int
  lm_width :: int
  lm_height :: int
  lm_overview_height :: int
  lm_tops :: "tid \<Rightarrow> toplevel option"
  lm_toplevels :: "tid list"
  lm_input_to_toplevel :: "xid \<Rightarrow> tid option"
  lm_transient_to_toplevel :: "xid \<Rightarrow> tid option"
  lm_magnified :: "tid option"
  lm_active :: "tid option"
  lm_floating_tab :: "xid option"
  lm_under_floating_tab :: "tid option"
  lm_tab_summary :: "xid option"
  lm_create_browser_window :: "xid option"
  lm_panning_offset :: int
  lm_floating_tab_coalescer :: coalescer
  lm_background_coalescer :: coalescer
  lm_drag_last_x :: int
  lm_metrics :: lm_metrics
  lm_saw_map_request :: bool
  lm_registrar :: registrar
  lm_static_gradient :: bool

record 'x ldesk = "'x mdesk" +
  dk_lm :: layout_manager
  dk_key_bindings :: key_bindings
  dk_layout_area :: "int \<times> int \<times> int \<times> int"

text \<open>\<open>lc_gradient_size\<close> is the size that Clutter gives to the gradient's image.\<close>

record 'x layctx = "'x barctx" +
  lc_layout_manager :: consumer
  lc_background_xid :: xid
  FLAGS_lm_honor_window_size_hints :: bool
  FLAGS_lm_new_overview_mode :: bool
  lc_gradient_size :: "int \<times> int"
  lc_keycode :: "32 word \<Rightarrow> nat"
  lc_lower :: "32 word \<Rightarrow> 32 word"

definition kOverviewAnimMs :: int where "kOverviewAnimMs = 100"
definition kWindowAnimMs :: int where "kWindowAnimMs = 200"
definition kWindowFadeSizeFraction :: double where "kWindowFadeSizeFraction = 1 / 2"

definition upd_lm :: "(layout_manager \<Rightarrow> layout_manager) \<Rightarrow> ('x, 'd) ldesk_scheme \<Rightarrow> ('x, 'd) ldesk_scheme" where
  "upd_lm f d = d\<lparr>dk_lm := f (dk_lm d)\<rparr>"

definition get_top :: "tid \<Rightarrow> ('x, 'd) ldesk_scheme \<Rightarrow> toplevel option" where
  "get_top tid d = lm_tops (dk_lm d) tid"

definition upd_top :: "tid \<Rightarrow> (toplevel \<Rightarrow> toplevel) \<Rightarrow> ('x, 'd) ldesk_scheme \<Rightarrow> ('x, 'd) ldesk_scheme" where
  "upd_top tid f d = upd_lm (\<lambda>m. m\<lparr>lm_tops := (lm_tops m)(tid := map_option f (lm_tops m tid))\<rparr>) d"

text \<open>The window of a toplevel, and the place offscreen.\<close>

definition top_win :: "tid \<Rightarrow> ('x, 'd) ldesk_scheme \<Rightarrow> (toplevel \<times> window) option" where
  "top_win tid d = do { t \<leftarrow> get_top tid d; w \<leftarrow> dk_windows d (tl_win t); Some (t, w) }"

definition offscreen :: "('x, 'd) desk_scheme \<Rightarrow> int \<times> int" where
  "offscreen d = (dk_width d, dk_height d)"

section \<open>Places in overview mode\<close>

definition GetAbsoluteOverviewX :: "('x, 'c) layctx_scheme \<Rightarrow> toplevel \<Rightarrow> ('x, 'd) ldesk_scheme \<Rightarrow> int" where
  "GetAbsoluteOverviewX C t d =
     (let offset = (if FLAGS_lm_new_overview_mode C then lm_panning_offset (dk_lm d) else 0)
      in lm_x (dk_lm d) - offset + overview_x t)"

definition GetAbsoluteOverviewY :: "toplevel \<Rightarrow> ('x, 'd) ldesk_scheme \<Rightarrow> int" where
  "GetAbsoluteOverviewY t d = lm_y (dk_lm d) + overview_y t"

definition GetAbsoluteOverviewCenterX :: "toplevel \<Rightarrow> ('x, 'd) ldesk_scheme \<Rightarrow> int" where
  "GetAbsoluteOverviewCenterX t d =
     dbl_to_int (dbl_add (of_int (lm_x (dk_lm d) + overview_x t)) (dbl_mult (1/2) (of_int (overview_width t))))"

definition GetAbsoluteOverviewOffscreenY :: "('x, 'd) ldesk_scheme \<Rightarrow> int" where
  "GetAbsoluteOverviewOffscreenY d = lm_y (dk_lm d) + lm_height (dk_lm d)"

definition OverviewWindowContainsPoint :: "int \<Rightarrow> int \<Rightarrow> toplevel \<Rightarrow> bool" where
  "OverviewWindowContainsPoint x y t \<longleftrightarrow>
     x \<ge> overview_x t \<and> x < overview_x t + overview_width t \<and> y \<ge> overview_y t \<and> y < overview_y t + overview_height t"

definition UpdateOverviewPosition :: "int \<Rightarrow> int \<Rightarrow> toplevel \<Rightarrow> toplevel" where
  "UpdateOverviewPosition x y t = t\<lparr>overview_x := x, overview_y := y\<rparr>"

text \<open>A window is at least one pixel wide and high, so that the quotients are those of numbers.\<close>

definition UpdateOverviewScaling :: "int \<Rightarrow> int \<Rightarrow> window \<Rightarrow> toplevel \<Rightarrow> toplevel" where
  "UpdateOverviewScaling max_width max_height w t =
     (let scale_x = dbl_div (of_int max_width) (of_int (client_width w));
          scale_y = dbl_div (of_int max_height) (of_int (client_height w));
          tmp_scale = min scale_x scale_y
      in t\<lparr>overview_width := dbl_to_int (dbl_mult tmp_scale (of_int (client_width w))),
           overview_height := dbl_to_int (dbl_mult tmp_scale (of_int (client_height w))),
           overview_scale := tmp_scale\<rparr>)"

section \<open>Transient windows\<close>

definition SaveOffsetsRelativeToOwnerWindow :: "window \<Rightarrow> window \<Rightarrow> transient_window \<Rightarrow> transient_window" where
  "SaveOffsetsRelativeToOwnerWindow win owner_win tr =
     tr\<lparr>x_offset := client_x win - client_x owner_win, y_offset := client_y win - client_y owner_win\<rparr>"

definition UpdateOffsetsToCenterOverOwnerWindow :: "window \<Rightarrow> window \<Rightarrow> transient_window \<Rightarrow> transient_window" where
  "UpdateOffsetsToCenterOverOwnerWindow win owner_win tr =
     tr\<lparr>x_offset := dbl_to_int (dbl_mult (1/2) (of_int (client_width owner_win - client_width win))),
        y_offset := dbl_to_int (dbl_mult (1/2) (of_int (client_height owner_win - client_height win)))\<rparr>"

definition GetTransientWindow :: "xid \<Rightarrow> toplevel \<Rightarrow> transient_window option" where
  "GetTransientWindow win t = map_of (tl_transients t) win"

definition upd_transient :: "tid \<Rightarrow> xid \<Rightarrow> (transient_window \<Rightarrow> transient_window) \<Rightarrow> ('x, 'd) ldesk_scheme \<Rightarrow> ('x, 'd) ldesk_scheme" where
  "upd_transient tid win f d =
     upd_top tid (\<lambda>t. case map_of (tl_transients t) win of
       None \<Rightarrow> t | Some tr \<Rightarrow> t\<lparr>tl_transients := om_put win (f tr) (tl_transients t)\<rparr>) d"

definition MoveAndScaleTransientWindow ::
    "('x, 'c) wmctx_scheme \<Rightarrow> tid \<Rightarrow> xid \<Rightarrow> int \<Rightarrow> ('x, 'd) ldesk_scheme \<Rightarrow> ('x, 'd) ldesk_scheme option" where
  "MoveAndScaleTransientWindow C tid win anim_ms d = do {
     (t, w) \<leftarrow> top_win tid d;
     tr \<leftarrow> GetTransientWindow win t;
     (_, d) \<leftarrow> ask_win (tr_win tr) (MoveClient C (client_x w + x_offset tr) (client_y w + y_offset tr)) d;
     (t, w) \<leftarrow> top_win tid d;
     d \<leftarrow> on_win (tr_win tr) (MoveComposited
            (dbl_to_int (dbl_add (of_int (composited_x w)) (dbl_mult (composited_scale_x w) (of_int (x_offset tr)))))
            (dbl_to_int (dbl_add (of_int (composited_y w)) (dbl_mult (composited_scale_y w) (of_int (y_offset tr)))))
            anim_ms) d;
     (t, w) \<leftarrow> top_win tid d;
     on_win (tr_win tr) (ScaleComposited C (composited_scale_x w) (composited_scale_y w) anim_ms) d }"

fun move_transients ::
    "('x, 'c) wmctx_scheme \<Rightarrow> tid \<Rightarrow> xid list \<Rightarrow> int \<Rightarrow> ('x, 'd) ldesk_scheme \<Rightarrow> ('x, 'd) ldesk_scheme option" where
  "move_transients C tid [] anim_ms d = Some d"
| "move_transients C tid (win # wins) anim_ms d = do {
     d \<leftarrow> MoveAndScaleTransientWindow C tid win anim_ms d;
     move_transients C tid wins anim_ms d }"

definition MoveAndScaleAllTransientWindows ::
    "('x, 'c) wmctx_scheme \<Rightarrow> tid \<Rightarrow> int \<Rightarrow> ('x, 'd) ldesk_scheme \<Rightarrow> ('x, 'd) ldesk_scheme option" where
  "MoveAndScaleAllTransientWindows C tid anim_ms d = do {
     t \<leftarrow> get_top tid d;
     move_transients C tid (map fst (tl_transients t)) anim_ms d }"

definition ApplyStackingForTransientWindow ::
    "('x, 'c) panelctx_scheme \<Rightarrow> xid \<Rightarrow> xid option \<Rightarrow> ('x, 'd) ldesk_scheme \<Rightarrow> ('x, 'd) ldesk_scheme option" where
  "ApplyStackingForTransientWindow C win other_win d =
     (case other_win of
        Some other \<Rightarrow> do {
          (_, d) \<leftarrow> try_win win (StackClientAbove C other) d;
          on_win win (StackCompositedAbove (Some (WindowActor other)) None False) d }
      | None \<Rightarrow> do {
          (_, d) \<leftarrow> StackWindowAtTopOfLayer C (pc_stacking C) win LAYER_ACTIVE_TRANSIENT_WINDOW d;
          Some d })"

fun stack_transients ::
    "('x, 'c) panelctx_scheme \<Rightarrow> xid option \<Rightarrow> xid list \<Rightarrow> ('x, 'd) ldesk_scheme \<Rightarrow> ('x, 'd) ldesk_scheme option" where
  "stack_transients C prev [] d = Some d"
| "stack_transients C prev (win # wins) d = do {
     d \<leftarrow> ApplyStackingForTransientWindow C win prev d;
     stack_transients C (Some win) wins d }"

definition ApplyStackingForAllTransientWindows ::
    "('x, 'c) panelctx_scheme \<Rightarrow> tid \<Rightarrow> bool \<Rightarrow> ('x, 'd) ldesk_scheme \<Rightarrow> ('x, 'd) ldesk_scheme option" where
  "ApplyStackingForAllTransientWindows C tid stack_directly_above_toplevel d = do {
     t \<leftarrow> get_top tid d;
     stack_transients C (if stack_directly_above_toplevel then Some (tl_win t) else None) (rev (items (stacked_transients t))) d }"

text \<open>The first of the transient windows that is modal; the windows exist.\<close>

fun first_modal :: "xid list \<Rightarrow> ('x, 'd) desk_scheme \<Rightarrow> xid option option" where
  "first_modal [] d = Some None"
| "first_modal (win # wins) d = do { w \<leftarrow> dk_windows d win; if wm_state_modal w then Some (Some win) else first_modal wins d }"

definition FindTransientWindowToFocus :: "toplevel \<Rightarrow> ('x, 'd) desk_scheme \<Rightarrow> xid option option" where
  "FindTransientWindowToFocus t d =
     (case items (stacked_transients t) of
        [] \<Rightarrow> Some None
      | front # _ \<Rightarrow> do {
          modal \<leftarrow> first_modal (items (stacked_transients t)) d;
          Some (Some (case modal of Some win \<Rightarrow> win | None \<Rightarrow> front)) })"

text \<open>The front of an empty list is undefined.\<close>

definition RestackTransientWindowOnTop ::
    "('x, 'c) panelctx_scheme \<Rightarrow> tid \<Rightarrow> xid \<Rightarrow> ('x, 'd) ldesk_scheme \<Rightarrow> ('x, 'd) ldesk_scheme option" where
  "RestackTransientWindowOnTop C tid win d = do {
     t \<leftarrow> get_top tid d;
     case items (stacked_transients t) of
       [] \<Rightarrow> None
     | front # _ \<Rightarrow>
         if win = front then Some d
         else ApplyStackingForTransientWindow C win (Some front)
                (upd_top tid (\<lambda>t. t\<lparr>stacked_transients := AddOnTop win (Remove win (stacked_transients t))\<rparr>) d) }"

section \<open>Focus\<close>

definition Toplevel_TakeFocus ::
    "('x, 'c) panelctx_scheme \<Rightarrow> tid \<Rightarrow> xtime \<Rightarrow> ('x, 'd) ldesk_scheme \<Rightarrow> ('x, 'd) ldesk_scheme option" where
  "Toplevel_TakeFocus C tid timestamp d = do {
     t \<leftarrow> get_top tid d;
     d \<leftarrow> (case transient_to_focus t of Some win \<Rightarrow> RestackTransientWindowOnTop C tid win d | None \<Rightarrow> Some d);
     let win = (case transient_to_focus t of Some win \<Rightarrow> win | None \<Rightarrow> tl_win t);
     (_, d) \<leftarrow> ask_win win (Window_TakeFocus C timestamp) d;
     Some (snd (SetActiveWindowProperty C win d)) }"

definition is_modal :: "xid \<Rightarrow> ('x, 'd) desk_scheme \<Rightarrow> bool option" where
  "is_modal win d = map_option wm_state_modal (dk_windows d win)"

definition SetPreferredTransientWindowToFocus ::
    "tid \<Rightarrow> xid option \<Rightarrow> ('x, 'd) ldesk_scheme \<Rightarrow> ('x, 'd) ldesk_scheme option" where
  "SetPreferredTransientWindowToFocus tid transient_win d = do {
     t \<leftarrow> get_top tid d;
     case transient_win of
       None \<Rightarrow>
         (case transient_to_focus t of
            None \<Rightarrow> Some d
          | Some cur \<Rightarrow> do {
              modal \<leftarrow> is_modal cur d;
              Some (if \<not> modal then upd_top tid (\<lambda>t. t\<lparr>transient_to_focus := None\<rparr>) d else d) })
     | Some win \<Rightarrow>
         if GetTransientWindow win t = None then Some d
         else if transient_to_focus t = Some win then Some d
         else (case transient_to_focus t of
             None \<Rightarrow> Some (upd_top tid (\<lambda>t. t\<lparr>transient_to_focus := Some win\<rparr>) d)
           | Some cur \<Rightarrow> do {
               cur_modal \<leftarrow> is_modal cur d;
               win_modal \<leftarrow> is_modal win d;
               Some (if \<not> cur_modal \<or> win_modal then upd_top tid (\<lambda>t. t\<lparr>transient_to_focus := Some win\<rparr>) d else d) }) }"

fun any_focused :: "xid list \<Rightarrow> ('x, 'd) desk_scheme \<Rightarrow> bool option" where
  "any_focused [] d = Some False"
| "any_focused (win # wins) d = do { w \<leftarrow> dk_windows d win; if w_focused w then Some True else any_focused wins d }"

definition IsWindowOrTransientFocused :: "tid \<Rightarrow> ('x, 'd) ldesk_scheme \<Rightarrow> bool option" where
  "IsWindowOrTransientFocused tid d = do {
     t \<leftarrow> get_top tid d;
     any_focused (tl_win t # map (tr_win \<circ> snd) (tl_transients t)) d }"

definition Toplevel_HandleFocusChange ::
    "('x, 'c) wmctx_scheme \<Rightarrow> xid \<Rightarrow> bool \<Rightarrow> ('x, 'd) ldesk_scheme \<Rightarrow> ('x, 'd) ldesk_scheme option" where
  "Toplevel_HandleFocusChange C focus_win focus_in d = do {
     (_, d) \<leftarrow> ask_win focus_win (if focus_in then Window_RemoveButtonGrab C else Window_AddButtonGrab C) d;
     Some d }"

definition Toplevel_HandleButtonPress ::
    "('x, 'c) panelctx_scheme \<Rightarrow> tid \<Rightarrow> xid \<Rightarrow> xtime \<Rightarrow> ('x, 'd) ldesk_scheme \<Rightarrow> ('x, 'd) ldesk_scheme option" where
  "Toplevel_HandleButtonPress C tid button_win timestamp d = do {
     t \<leftarrow> get_top tid d;
     d \<leftarrow> SetPreferredTransientWindowToFocus tid (if GetTransientWindow button_win t \<noteq> None then Some button_win else None) d;
     d \<leftarrow> Toplevel_TakeFocus C tid timestamp d;
     Some (do_request C (RemovePointerGrab True timestamp) d) }"

section \<open>Adding and removing transient windows\<close>

text \<open>The transient window above which a new one goes: the top one, or the top one that is not modal.\<close>

fun stack_above :: "bool \<Rightarrow> xid list \<Rightarrow> ('x, 'd) desk_scheme \<Rightarrow> xid option option" where
  "stack_above modal [] d = Some None"
| "stack_above modal (win # wins) d =
     (if modal then Some (Some win)
      else do { w \<leftarrow> dk_windows d win; if \<not> wm_state_modal w then Some (Some win) else stack_above modal wins d })"

definition AddTransientWindow ::
    "('x, 'c) layctx_scheme \<Rightarrow> tid \<Rightarrow> xid \<Rightarrow> bool \<Rightarrow> ('x, 'd) ldesk_scheme \<Rightarrow> ('x, 'd) ldesk_scheme option" where
  "AddTransientWindow C tid transient_win stack_directly_above_toplevel d = do {
     (t, owner) \<leftarrow> top_win tid d;
     w \<leftarrow> dk_windows d transient_win;
     if GetTransientWindow transient_win t \<noteq> None then Some d
     else do {
       let d = d\<lparr>dk_consumers := RegisterEventConsumerForWindowEvents transient_win (lc_layout_manager C) (dk_consumers d)\<rparr>;
       let tr = \<lparr>tr_win = transient_win, x_offset = 0, y_offset = 0, centered = False\<rparr>;
       let tr = (if w_type w = WINDOW_TYPE_CHROME_INFO_BUBBLE
                 then (SaveOffsetsRelativeToOwnerWindow w owner tr)\<lparr>centered := False\<rparr>
                 else (UpdateOffsetsToCenterOverOwnerWindow w owner tr)\<lparr>centered := True\<rparr>);
       above \<leftarrow> stack_above (wm_state_modal w) (items (stacked_transients t)) d;
       let d = upd_top tid (\<lambda>t. t\<lparr>tl_transients := om_put transient_win tr (tl_transients t),
         stacked_transients := (case above of
            Some other \<Rightarrow> AddAbove transient_win other (stacked_transients t)
          | None \<Rightarrow> AddOnBottom transient_win (stacked_transients t))\<rparr>) d;
       d \<leftarrow> SetPreferredTransientWindowToFocus tid (Some transient_win) d;
       d \<leftarrow> MoveAndScaleTransientWindow C tid transient_win 0 d;
       d \<leftarrow> ApplyStackingForTransientWindow C transient_win
              (case above of
                 Some other \<Rightarrow> Some other
               | None \<Rightarrow> if stack_directly_above_toplevel then Some (tl_win t) else None) d;
       d \<leftarrow> on_win transient_win ShowComposited d;
       (_, d) \<leftarrow> ask_win transient_win (Window_AddButtonGrab C) d;
       Some d } }"

definition RemoveTransientWindow ::
    "('x, 'c) layctx_scheme \<Rightarrow> tid \<Rightarrow> xid \<Rightarrow> ('x, 'd) ldesk_scheme \<Rightarrow> ('x, 'd) ldesk_scheme option" where
  "RemoveTransientWindow C tid transient_win d = do {
     t \<leftarrow> get_top tid d;
     if GetTransientWindow transient_win t = None then Some d
     else do {
       let d = d\<lparr>dk_consumers := UnregisterEventConsumerForWindowEvents transient_win (lc_layout_manager C) (dk_consumers d)\<rparr>;
       let d = upd_top tid (\<lambda>t. t\<lparr>stacked_transients := Remove transient_win (stacked_transients t),
         tl_transients := om_del transient_win (tl_transients t)\<rparr>) d;
       (_, d) \<leftarrow> ask_win transient_win (Window_RemoveButtonGrab C) d;
       if transient_to_focus t = Some transient_win then do {
         let d = upd_top tid (\<lambda>t. t\<lparr>transient_to_focus := None\<rparr>) d;
         t \<leftarrow> get_top tid d;
         new_transient \<leftarrow> FindTransientWindowToFocus t d;
         SetPreferredTransientWindowToFocus tid new_transient d }
       else Some d } }"

definition HandleTransientWindowConfigureRequest ::
    "('x, 'c) wmctx_scheme \<Rightarrow> tid \<Rightarrow> xid \<Rightarrow> int \<Rightarrow> int \<Rightarrow> int \<Rightarrow> int \<Rightarrow> ('x, 'd) ldesk_scheme \<Rightarrow> ('x, 'd) ldesk_scheme option" where
  "HandleTransientWindowConfigureRequest C tid transient_win req_x req_y req_width req_height d = do {
     t \<leftarrow> get_top tid d;
     CHECK (GetTransientWindow transient_win t \<noteq> None);
     w \<leftarrow> dk_windows d transient_win;
     (moved, d) \<leftarrow>
       (if req_x \<noteq> client_x w \<or> req_y \<noteq> client_y w then do {
          (_, d) \<leftarrow> ask_win transient_win (MoveClient C req_x req_y) d;
          w \<leftarrow> dk_windows d transient_win;
          owner \<leftarrow> dk_windows d (tl_win t);
          Some (True, upd_transient tid transient_win (\<lambda>tr. (SaveOffsetsRelativeToOwnerWindow w owner tr)\<lparr>centered := False\<rparr>) d) }
        else Some (False, d));
     (moved, d) \<leftarrow>
       (if req_width \<noteq> client_width w \<or> req_height \<noteq> client_height w then do {
          (_, d) \<leftarrow> ask_win transient_win (ResizeClient C req_width req_height GRAVITY_NORTHWEST) d;
          w \<leftarrow> dk_windows d transient_win;
          (t, owner) \<leftarrow> top_win tid d;
          tr \<leftarrow> GetTransientWindow transient_win t;
          Some (if centered tr
                then (True, upd_transient tid transient_win (UpdateOffsetsToCenterOverOwnerWindow w owner) d) else (moved, d)) }
        else Some (moved, d));
     if moved then MoveAndScaleTransientWindow C tid transient_win 0 d else Some d }"

section \<open>Construction and destruction\<close>

definition ask_to_do :: "xid \<Rightarrow> (window \<times> 'x env \<Rightarrow> 'r \<times> window \<times> 'x env) \<Rightarrow> ('x, 'd) desk_scheme \<Rightarrow> ('x, 'd) desk_scheme option" where
  "ask_to_do win f d = map_option snd (ask_win win f d)"

text \<open>\<open>tid\<close> is the address of the new object.\<close>

definition new_ToplevelWindow ::
    "('x, 'c) layctx_scheme \<Rightarrow> tid \<Rightarrow> xid \<Rightarrow> ('x, 'd) ldesk_scheme \<Rightarrow> ('x, 'd) ldesk_scheme option" where
  "new_ToplevelWindow C tid win d = do {
     (input_xid, d) \<leftarrow> CreateInputWindow C (-1) (-1) 1 1 (ButtonPressMask + EnterWindowMask + LeaveWindowMask) d;
     let (r, m) = fold RegisterForWindowEvents [win, input_xid]
                    (new_EventConsumerRegistrar (lc_layout_manager C), dk_consumers d);
     let t = \<lparr>tl_win = win, tl_input_xid = input_xid, tl_state = STATE_NEW, overview_x = 0, overview_y = 0, overview_width = 0,
       overview_height = 0, overview_scale = 1, tl_transients = [], stacked_transients = new_Stacker,
       transient_to_focus = None, tl_registrar = r\<rparr>;
     let d = upd_lm (\<lambda>l. l\<lparr>lm_tops := (lm_tops l)(tid \<mapsto> t)\<rparr>) (d\<lparr>dk_consumers := m\<rparr>);
     let d = (if FLAGS_lm_new_overview_mode C \<and> \<not> lm_static_gradient (dk_lm d)
              then upd_lm (\<lambda>l. l\<lparr>lm_static_gradient := True\<rparr>)
                (on_env (calls [(StaticGradientActor, SetVisibility False), (StaticGradientActor, SetName ''static gradient screen''),
                                (Stage, AddActor StaticGradientActor)]) d)
              else d);
     w \<leftarrow> dk_windows d win;
     (width, height) \<leftarrow> (if FLAGS_lm_honor_window_size_hints C then GetMaxSize (lm_width (dk_lm d)) (lm_height (dk_lm d)) w
                          else Some (lm_width (dk_lm d), lm_height (dk_lm d)));
     d \<leftarrow> ask_to_do win (ResizeClient C width height GRAVITY_NORTHWEST) d;
     (_, d) \<leftarrow> StackXidAtTopOfLayer C (pc_stacking C) input_xid LAYER_TOPLEVEL_WINDOW d;
     d \<leftarrow> ask_to_do win (ChangeWmState C [(wm_atom C ATOM_NET_WM_STATE_MAXIMIZED_HORZ, True),
                                            (wm_atom C ATOM_NET_WM_STATE_MAXIMIZED_VERT, True)]) d;
     d \<leftarrow> ask_to_do win (MoveClientOffscreen C (offscreen d)) d;
     d \<leftarrow> on_win win (SetCompositedOpacity 0 0) d;
     d \<leftarrow> on_win win ShowComposited d;
     d \<leftarrow> ask_to_do win (Window_AddButtonGrab C) d;
     Some (if FLAGS_lm_new_overview_mode C
           then on_env (calls [(GradientActor tid, SetOpacity 0 0), (GradientActor tid, SetVisibility True),
                               (GradientActor tid, SetName ''gradient screen''), (Stage, AddActor (GradientActor tid))]) d
           else d) }"

fun remove_transients ::
    "('x, 'c) layctx_scheme \<Rightarrow> tid \<Rightarrow> xid list \<Rightarrow> ('x, 'd) ldesk_scheme \<Rightarrow> ('x, 'd) ldesk_scheme option" where
  "remove_transients C tid [] d = Some d"
| "remove_transients C tid (win # wins) d = do {
     d \<leftarrow> RemoveTransientWindow C tid win d;
     remove_transients C tid wins d }"

text \<open>Each round of the destructor's loop removes the first of the transient windows.\<close>

definition destroy_ToplevelWindow ::
    "('x, 'c) layctx_scheme \<Rightarrow> tid \<Rightarrow> ('x, 'd) ldesk_scheme \<Rightarrow> ('x, 'd) ldesk_scheme option" where
  "destroy_ToplevelWindow C tid d = do {
     t \<leftarrow> get_top tid d;
     d \<leftarrow> remove_transients C tid (map fst (tl_transients t)) d;
     let d = do_request C (DestroyWindow (tl_input_xid t)) d;
     d \<leftarrow> ask_to_do (tl_win t) (Window_RemoveButtonGrab C) d;
     let m = destroy_EventConsumerRegistrar (tl_registrar t, dk_consumers d);
     Some (upd_lm (\<lambda>l. l\<lparr>lm_tops := (lm_tops l)(tid := None)\<rparr>) (d\<lparr>dk_consumers := m\<rparr>)) }"

section \<open>Active mode\<close>

text \<open>Where the window that becomes active comes from. \<open>win_x\<close> and \<open>win_y\<close> are its final place.\<close>

definition is_coming_in :: "toplevel_state \<Rightarrow> bool" where
  "is_coming_in s \<longleftrightarrow>
     s = STATE_NEW \<or> s = STATE_ACTIVE_MODE_OFFSCREEN \<or> s = STATE_ACTIVE_MODE_IN_FROM_RIGHT \<or> s = STATE_ACTIVE_MODE_IN_FROM_LEFT \<or>
     s = STATE_ACTIVE_MODE_IN_FADE"

text \<open>\<open>coord + 0.5 * kWindowFadeSizeFraction * size\<close> and \<open>coord - 0.5 * kWindowFadeSizeFraction * size\<close>.\<close>

definition fade_shift :: "int \<Rightarrow> double" where
  "fade_shift extent = dbl_mult (dbl_mult (1/2) kWindowFadeSizeFraction) (of_int extent)"

definition place_incoming ::
    "('x, 'c) wmctx_scheme \<Rightarrow> toplevel_state \<Rightarrow> xid \<Rightarrow> int \<Rightarrow> int \<Rightarrow> ('x, 'd) ldesk_scheme \<Rightarrow> ('x, 'd) ldesk_scheme option" where
  "place_incoming C s win win_x win_y d = do {
     let layout_x = lm_x (dk_lm d);
     w \<leftarrow> dk_windows d win;
     if s = STATE_ACTIVE_MODE_IN_FROM_RIGHT then do {
       d \<leftarrow> on_win win (MoveComposited (layout_x + lm_width (dk_lm d)) win_y 0) d;
       d \<leftarrow> on_win win (SetCompositedOpacity 1 0) d;
       on_win win (ScaleComposited C 1 1 0) d }
     else if s = STATE_ACTIVE_MODE_IN_FROM_LEFT then do {
       d \<leftarrow> on_win win (MoveComposited (layout_x - client_width w) win_y 0) d;
       d \<leftarrow> on_win win (SetCompositedOpacity 1 0) d;
       on_win win (ScaleComposited C 1 1 0) d }
     else if s = STATE_ACTIVE_MODE_IN_FADE then do {
       d \<leftarrow> on_win win (SetCompositedOpacity 0 0) d;
       d \<leftarrow> on_win win (MoveComposited
              (dbl_to_int (dbl_sub (of_int layout_x) (fade_shift (client_width w))))
              (dbl_to_int (dbl_sub (of_int (lm_y (dk_lm d))) (fade_shift (client_height w)))) 0) d;
       on_win win (ScaleComposited C (dbl_add 1 kWindowFadeSizeFraction) (dbl_add 1 kWindowFadeSizeFraction) 0) d }
     else do {
       d \<leftarrow> on_win win (MoveComposited win_x (GetAbsoluteOverviewOffscreenY d) 0) d;
       on_win win (ScaleComposited C 1 1 0) d } }"

definition show_active ::
    "('x, 'c) layctx_scheme \<Rightarrow> tid \<Rightarrow> int \<Rightarrow> bool \<Rightarrow> ('x, 'd) ldesk_scheme \<Rightarrow> ('x, 'd) ldesk_scheme option" where
  "show_active C tid win_y update_focus d = do {
     (t, w) \<leftarrow> top_win tid d;
     let win = tl_win t;
     let win_x = lm_x (dk_lm d) + max 0 (lm_width (dk_lm d) - client_width w) sdiv 2;
     d \<leftarrow> (if is_coming_in (tl_state t) then place_incoming C (tl_state t) win win_x win_y d else Some d);
     d \<leftarrow> MoveAndScaleAllTransientWindows C tid 0 d;
     d \<leftarrow> ask_to_do win (MoveClient C win_x win_y) d;
     d \<leftarrow> on_win win (MoveComposited win_x win_y kWindowAnimMs) d;
     d \<leftarrow> on_win win (ScaleComposited C 1 1 kWindowAnimMs) d;
     d \<leftarrow> on_win win (SetCompositedOpacity 1 kWindowAnimMs) d;
     let d = (if FLAGS_lm_new_overview_mode C then on_env (call (GradientActor tid) (SetOpacity 0 0)) d else d);
     d \<leftarrow> (if update_focus then do {
            (timestamp, d) \<leftarrow> GetCurrentTimeFromServer C d;
            Toplevel_TakeFocus C tid timestamp d }
          else Some d);
     Some (upd_top tid (\<lambda>t. t\<lparr>tl_state := STATE_ACTIVE_MODE_ONSCREEN\<rparr>) d) }"

definition hide_inactive ::
    "('x, 'c) layctx_scheme \<Rightarrow> tid \<Rightarrow> int \<Rightarrow> bool \<Rightarrow> ('x, 'd) ldesk_scheme \<Rightarrow> ('x, 'd) ldesk_scheme option" where
  "hide_inactive C tid win_y to_left_of_active d = do {
     (t, w) \<leftarrow> top_win tid d;
     let win = tl_win t;
     let layout_x = lm_x (dk_lm d);
     d \<leftarrow> (if tl_state t = STATE_ACTIVE_MODE_OUT_TO_LEFT
          then on_win win (MoveComposited (layout_x - client_width w) win_y kWindowAnimMs) d
          else if tl_state t = STATE_ACTIVE_MODE_OUT_TO_RIGHT
          then on_win win (MoveComposited (layout_x + lm_width (dk_lm d)) win_y kWindowAnimMs) d
          else if tl_state t = STATE_ACTIVE_MODE_OUT_FADE then do {
            d \<leftarrow> on_win win (SetCompositedOpacity 0 kWindowAnimMs) d;
            d \<leftarrow> on_win win (MoveComposited
                   (dbl_to_int (dbl_add (of_int layout_x) (fade_shift (client_width w))))
                   (dbl_to_int (dbl_add (of_int (lm_y (dk_lm d))) (fade_shift (client_height w)))) kWindowAnimMs) d;
            on_win win (ScaleComposited C kWindowFadeSizeFraction kWindowFadeSizeFraction kWindowAnimMs) d }
          else if tl_state t = STATE_ACTIVE_MODE_OFFSCREEN then Some d
          else do {
            d \<leftarrow> (if FLAGS_lm_new_overview_mode C then do {
                   let x = (if to_left_of_active then 0 - overview_width t else dk_width d);
                   let y = GetAbsoluteOverviewY t d;
                   d \<leftarrow> on_win win (MoveComposited x y kWindowAnimMs) d;
                   Some (on_env (call (GradientActor tid) (Move x y kWindowAnimMs)) d) }
                 else on_win win (MoveComposited (GetAbsoluteOverviewX C t d) (GetAbsoluteOverviewOffscreenY d) kWindowAnimMs) d);
            d \<leftarrow> on_win win (ScaleComposited C (overview_scale t) (overview_scale t) kWindowAnimMs) d;
            on_win win (SetCompositedOpacity (1/2) kWindowAnimMs) d });
     d \<leftarrow> on_win win (Window_SetShadowOpacity 0 kWindowAnimMs) d;
     let d = upd_top tid (\<lambda>t. t\<lparr>tl_state := STATE_ACTIVE_MODE_OFFSCREEN\<rparr>) d;
     ask_to_do win (MoveClientOffscreen C (offscreen d)) d }"

definition ConfigureForActiveMode ::
    "('x, 'c) layctx_scheme \<Rightarrow> tid \<Rightarrow> bool \<Rightarrow> bool \<Rightarrow> bool \<Rightarrow> ('x, 'd) ldesk_scheme \<Rightarrow> ('x, 'd) ldesk_scheme option" where
  "ConfigureForActiveMode C tid window_is_active to_left_of_active update_focus d = do {
     (t, w) \<leftarrow> top_win tid d;
     let win_y = lm_y (dk_lm d) + max 0 (lm_height (dk_lm d) - client_height w) sdiv 2;
     d \<leftarrow> (if window_is_active then show_active C tid win_y update_focus d else hide_inactive C tid win_y to_left_of_active d);
     d \<leftarrow> ApplyStackingForAllTransientWindows C tid False d;
     d \<leftarrow> MoveAndScaleAllTransientWindows C tid kWindowAnimMs d;
     Some (do_request C (ConfigureWindowOffscreen (tl_input_xid t)) d) }"

section \<open>Overview mode\<close>

definition overview_state :: "bool \<Rightarrow> toplevel_state" where
  "overview_state magnified = (if magnified then STATE_OVERVIEW_MODE_MAGNIFIED else STATE_OVERVIEW_MODE_NORMAL)"

definition configure_input ::
    "('x, 'c) layctx_scheme \<Rightarrow> tid \<Rightarrow> ('x, 'd) ldesk_scheme \<Rightarrow> ('x, 'd) ldesk_scheme option" where
  "configure_input C tid d = do {
     t \<leftarrow> get_top tid d;
     Some (snd (ConfigureInputWindow C (tl_input_xid t) (GetAbsoluteOverviewX C t d) (GetAbsoluteOverviewY t d)
                  (overview_width t) (overview_height t) d)) }"

text \<open>The steps of the new overview mode that are left out of an incremental change.\<close>

definition stack_in_overview ::
    "('x, 'c) layctx_scheme \<Rightarrow> tid \<Rightarrow> tid option \<Rightarrow> ('x, 'd) ldesk_scheme \<Rightarrow> ('x, 'd) ldesk_scheme option" where
  "stack_in_overview C tid toplevel_to_stack_under d = do {
     t \<leftarrow> get_top tid d;
     case toplevel_to_stack_under of
       Some other \<Rightarrow> do {
         (u, uw) \<leftarrow> top_win other d;
         d \<leftarrow> on_win (tl_win t) (StackCompositedBelow (Some (GetBottomActor uw)) None False) d;
         (_, d) \<leftarrow> try_win (tl_win t) (StackClientBelow C (tl_win u)) d;
         Some (do_request C (StackWindow (tl_input_xid t) (tl_input_xid u) False) d) }
     | None \<Rightarrow> do {
         (_, d) \<leftarrow> StackWindowAtTopOfLayer C (pc_stacking C) (tl_win t) LAYER_TOPLEVEL_WINDOW d;
         (_, d) \<leftarrow> StackXidAtTopOfLayer C (pc_stacking C) (tl_input_xid t) LAYER_TOPLEVEL_WINDOW d;
         Some d } }"

definition arrange_in_overview ::
    "('x, 'c) layctx_scheme \<Rightarrow> tid \<Rightarrow> bool \<Rightarrow> tid option \<Rightarrow> ('x, 'd) ldesk_scheme \<Rightarrow> ('x, 'd) ldesk_scheme option" where
  "arrange_in_overview C tid window_is_magnified toplevel_to_stack_under d = do {
     d \<leftarrow> stack_in_overview C tid toplevel_to_stack_under d;
     t \<leftarrow> get_top tid d;
     let win = tl_win t;
     let anim_ms = (if tl_state t = STATE_NEW then 0 else kOverviewAnimMs);
     d \<leftarrow> on_win win (ScaleComposited C (overview_scale t) (overview_scale t) anim_ms) d;
     d \<leftarrow> on_win win (SetCompositedOpacity 1 anim_ms) d;
     d \<leftarrow> ask_to_do win (MoveClientOffscreen C (offscreen d)) d;
     d \<leftarrow> configure_input C tid d;
     d \<leftarrow> ApplyStackingForAllTransientWindows C tid True d;
     let d = on_env (calls
       [(GradientActor tid, Raise (case items (stacked_transients t) of front # _ \<Rightarrow> WindowActor front | [] \<Rightarrow> WindowActor win)),
        (GradientActor tid, SetOpacity (if window_is_magnified then 0 else 1) anim_ms)]) d;
     d \<leftarrow> (if tl_state t = STATE_NEW then do {
            let initial_x = lm_x (dk_lm d) + lm_width (dk_lm d);
            let initial_y = GetAbsoluteOverviewY t d;
            d \<leftarrow> on_win win (MoveComposited initial_x initial_y 0) d;
            Some (on_env (call (GradientActor tid) (Move initial_x initial_y 0)) d) }
          else Some d);
     Some (upd_top tid (\<lambda>t. t\<lparr>tl_state := overview_state window_is_magnified\<rparr>) d) }"

text \<open>The gradient covers the window: \<open>overview_scale_ * size / size of the image\<close>.\<close>

definition gradient_scale :: "double \<Rightarrow> int \<Rightarrow> int \<Rightarrow> double" where
  "gradient_scale scale extent image_extent = dbl_div (dbl_mult scale (of_int extent)) (of_int image_extent)"

definition configure_new_overview ::
    "('x, 'c) layctx_scheme \<Rightarrow> tid \<Rightarrow> bool \<Rightarrow> tid option \<Rightarrow> bool \<Rightarrow> ('x, 'd) ldesk_scheme \<Rightarrow> ('x, 'd) ldesk_scheme option" where
  "configure_new_overview C tid window_is_magnified toplevel_to_stack_under incremental d = do {
     d \<leftarrow> (if \<not> incremental then arrange_in_overview C tid window_is_magnified toplevel_to_stack_under d else Some d);
     (t, w) \<leftarrow> top_win tid d;
     let anim_ms = (if incremental then 0 else kOverviewAnimMs);
     let x = GetAbsoluteOverviewX C t d;
     let y = GetAbsoluteOverviewY t d;
     d \<leftarrow> on_win (tl_win t) (MoveComposited x y anim_ms) d;
     d \<leftarrow> MoveAndScaleAllTransientWindows C tid anim_ms d;
     (t, w) \<leftarrow> top_win tid d;
     Some (on_env (calls
       [(GradientActor tid, Move x y anim_ms),
        (GradientActor tid, Scale (gradient_scale (overview_scale t) (client_width w) (fst (lc_gradient_size C)))
                                  (gradient_scale (overview_scale t) (client_height w) (snd (lc_gradient_size C))) anim_ms)]) d) }"

definition configure_old_overview ::
    "('x, 'c) layctx_scheme \<Rightarrow> tid \<Rightarrow> bool \<Rightarrow> bool \<Rightarrow> ('x, 'd) ldesk_scheme \<Rightarrow> ('x, 'd) ldesk_scheme option" where
  "configure_old_overview C tid window_is_magnified dim_if_unmagnified d = do {
     t \<leftarrow> get_top tid d;
     let win = tl_win t;
     let x = GetAbsoluteOverviewX C t d;
     d \<leftarrow> (if tl_state t = STATE_NEW \<or> tl_state t = STATE_ACTIVE_MODE_OFFSCREEN then do {
            d \<leftarrow> on_win win (MoveComposited x (GetAbsoluteOverviewOffscreenY d) 0) d;
            d \<leftarrow> on_win win (ScaleComposited C (overview_scale t) (overview_scale t) 0) d;
            d \<leftarrow> on_win win (SetCompositedOpacity (1/2) 0) d;
            MoveAndScaleAllTransientWindows C tid 0 d }
          else Some d);
     d \<leftarrow> on_win win (MoveComposited x (GetAbsoluteOverviewY t d) kOverviewAnimMs) d;
     d \<leftarrow> on_win win (ScaleComposited C (overview_scale t) (overview_scale t) kOverviewAnimMs) d;
     d \<leftarrow> ask_to_do win (MoveClientOffscreen C (offscreen d)) d;
     d \<leftarrow> configure_input C tid d;
     d \<leftarrow> on_win win (SetCompositedOpacity (if \<not> window_is_magnified \<and> dim_if_unmagnified then 3/4 else 1) kOverviewAnimMs) d;
     d \<leftarrow> ApplyStackingForAllTransientWindows C tid True d;
     d \<leftarrow> MoveAndScaleAllTransientWindows C tid kOverviewAnimMs d;
     Some (upd_top tid (\<lambda>t. t\<lparr>tl_state := overview_state window_is_magnified\<rparr>) d) }"

definition ConfigureForOverviewMode ::
    "('x, 'c) layctx_scheme \<Rightarrow> tid \<Rightarrow> bool \<Rightarrow> bool \<Rightarrow> tid option \<Rightarrow> bool \<Rightarrow> ('x, 'd) ldesk_scheme \<Rightarrow> ('x, 'd) ldesk_scheme option" where
  "ConfigureForOverviewMode C tid window_is_magnified dim_if_unmagnified toplevel_to_stack_under incremental d =
     (if FLAGS_lm_new_overview_mode C then configure_new_overview C tid window_is_magnified toplevel_to_stack_under incremental d
      else configure_old_overview C tid window_is_magnified dim_if_unmagnified d)"

end
