(* ===== verification/WM_Layout.thy ===== *)
theory WM_Layout
  imports WM_Toplevel
begin

text \<open>
  \<open>LayoutManager\<close> (\<open>window_manager/layout_manager.h\<close>, \<open>layout_manager.cc\<close>): the placement of client windows in its two modes.
  In active mode one toplevel window is shown and has the focus, in overview mode all of them are shown at a smaller scale.

  \<open>tid\<close> arguments of operations that make a \<open>ToplevelWindow\<close> are the addresses of the new objects. An event that follows a
  pointer to an object that is gone has no result (\<^term>\<open>None\<close>).
\<close>

section \<open>Constants\<close>

definition kWindowPadding :: int where "kWindowPadding = 10"
definition kOverviewWindowMaxSizeRatio :: double where "kOverviewWindowMaxSizeRatio = 1 / 2"
definition kOverviewExposedWindowRatio :: double where "kOverviewExposedWindowRatio = rnd (1 / 10)"
definition kCreateBrowserWindowVerticalPadding :: int where "kCreateBrowserWindowVerticalPadding = 10"
definition kTabSummaryPadding :: int where "kTabSummaryPadding = 40"
definition kMaxWindowHeightRatio :: double where "kMaxWindowHeightRatio = 3 / 4"
definition kFloatingTabUpdateMs :: int where "kFloatingTabUpdateMs = 50"
definition kOverviewDragUpdateMs :: int where "kOverviewDragUpdateMs = 50"
definition kOverviewHeightFraction :: double where "kOverviewHeightFraction = rnd (3 / 10)"

section \<open>Finding toplevel windows\<close>

definition IsHandledWindowType :: "int \<Rightarrow> bool" where
  "IsHandledWindowType ty \<longleftrightarrow>
     ty = WINDOW_TYPE_CHROME_FLOATING_TAB \<or> ty = WINDOW_TYPE_CHROME_INFO_BUBBLE \<or> ty = WINDOW_TYPE_CHROME_TAB_SUMMARY \<or>
     ty = WINDOW_TYPE_CHROME_TOPLEVEL \<or> ty = WINDOW_TYPE_CREATE_BROWSER_WINDOW \<or> ty = WINDOW_TYPE_UNKNOWN"

definition GetToplevelWindowByInputXid :: "xid \<Rightarrow> ('x, 'd) ldesk_scheme \<Rightarrow> tid option" where
  "GetToplevelWindowByInputXid xid d = lm_input_to_toplevel (dk_lm d) xid"

definition Layout_IsInputWindow :: "xid \<Rightarrow> ('x, 'd) ldesk_scheme \<Rightarrow> bool" where
  "Layout_IsInputWindow xid d \<longleftrightarrow> GetToplevelWindowByInputXid xid d \<noteq> None"

definition GetIndexForToplevelWindow :: "tid \<Rightarrow> ('x, 'd) ldesk_scheme \<Rightarrow> int" where
  "GetIndexForToplevelWindow tid d = index_loop tid 0 (lm_toplevels (dk_lm d))"

fun find_toplevel :: "(toplevel \<Rightarrow> bool) \<Rightarrow> tid list \<Rightarrow> ('x, 'd) ldesk_scheme \<Rightarrow> tid option option" where
  "find_toplevel P [] d = Some None"
| "find_toplevel P (tid # tids) d = do { t \<leftarrow> get_top tid d; if P t then Some (Some tid) else find_toplevel P tids d }"

definition GetToplevelWindowByWindow :: "xid \<Rightarrow> ('x, 'd) ldesk_scheme \<Rightarrow> tid option option" where
  "GetToplevelWindowByWindow win d = find_toplevel (\<lambda>t. tl_win t = win) (lm_toplevels (dk_lm d)) d"

definition GetToplevelWindowByXid :: "xid \<Rightarrow> ('x, 'd) ldesk_scheme \<Rightarrow> tid option option" where
  "GetToplevelWindowByXid xid d = (if dk_windows d xid = None then Some None else GetToplevelWindowByWindow xid d)"

definition GetToplevelWindowOwningTransientWindow :: "xid \<Rightarrow> ('x, 'd) ldesk_scheme \<Rightarrow> tid option" where
  "GetToplevelWindowOwningTransientWindow win d = lm_transient_to_toplevel (dk_lm d) win"

definition GetInputXidForWindow :: "xid \<Rightarrow> ('x, 'd) ldesk_scheme \<Rightarrow> xid option" where
  "GetInputXidForWindow win d = do {
     toplevel \<leftarrow> GetToplevelWindowByWindow win d;
     case toplevel of None \<Rightarrow> Some XNone | Some tid \<Rightarrow> map_option tl_input_xid (get_top tid d) }"

fun chrome_window :: "tid list \<Rightarrow> ('x, 'd) ldesk_scheme \<Rightarrow> xid option option" where
  "chrome_window [] d = Some None"
| "chrome_window (tid # tids) d = do {
     (t, w) \<leftarrow> top_win tid d;
     if w_type w = WINDOW_TYPE_CHROME_TOPLEVEL then Some (Some (tl_win t)) else chrome_window tids d }"

definition GetChromeWindow :: "('x, 'd) ldesk_scheme \<Rightarrow> xid option option" where
  "GetChromeWindow d = chrome_window (lm_toplevels (dk_lm d)) d"

text \<open>The toplevel window at an index, where the deque has one.\<close>

definition toplevel_at :: "int \<Rightarrow> ('x, 'd) ldesk_scheme \<Rightarrow> tid option" where
  "toplevel_at i d =
     (if 0 \<le> i \<and> i < int (length (lm_toplevels (dk_lm d))) then Some (lm_toplevels (dk_lm d) ! nat i) else None)"

section \<open>Messages\<close>

definition send_message ::
    "('x, 'c) wmctx_scheme \<Rightarrow> xid \<Rightarrow> message \<Rightarrow> ('x, 'd) desk_scheme \<Rightarrow> ('x, 'd) desk_scheme option" where
  "send_message C xid msg d = do {
     (_, xs) \<leftarrow> SendMessage (wm_xconn C) (wm_ipc_ctx C) xid msg (es_x (dk_env d));
     Some (on_env (\<lambda>e. e\<lparr>es_x := xs\<rparr>) d) }"

definition SendTabSummaryMessage ::
    "('x, 'c) wmctx_scheme \<Rightarrow> tid option \<Rightarrow> bool \<Rightarrow> ('x, 'd) ldesk_scheme \<Rightarrow> ('x, 'd) ldesk_scheme option" where
  "SendTabSummaryMessage C toplevel show_summary d =
     (case toplevel of
        None \<Rightarrow> Some d
      | Some tid \<Rightarrow> do {
          (t, w) \<leftarrow> top_win tid d;
          if w_type w \<noteq> WINDOW_TYPE_CHROME_TOPLEVEL then Some d
          else do {
            msg \<leftarrow> set_param 0 (if show_summary then 1 else 0) (new_Message CHROME_SET_TAB_SUMMARY_VISIBILITY);
            msg \<leftarrow> (if show_summary then set_param 1 (GetAbsoluteOverviewCenterX t d) msg else Some msg);
            send_message C (tl_win t) msg d } })"

definition SendModeMessage ::
    "('x, 'c) wmctx_scheme \<Rightarrow> tid \<Rightarrow> ('x, 'd) ldesk_scheme \<Rightarrow> ('x, 'd) ldesk_scheme option" where
  "SendModeMessage C tid d = do {
     (t, w) \<leftarrow> top_win tid d;
     if w_type w \<noteq> WINDOW_TYPE_CHROME_TOPLEVEL then Some d
     else do {
       msg \<leftarrow> set_param 0 (case lm_mode (dk_lm d) of MODE_ACTIVE \<Rightarrow> 0 | MODE_OVERVIEW \<Rightarrow> 1) (new_Message CHROME_NOTIFY_LAYOUT_MODE);
       send_message C (tl_win t) msg d } }"

definition SetMagnifiedToplevelWindow ::
    "('x, 'c) layctx_scheme \<Rightarrow> tid option \<Rightarrow> ('x, 'd) ldesk_scheme \<Rightarrow> ('x, 'd) ldesk_scheme option" where
  "SetMagnifiedToplevelWindow C toplevel d =
     (if lm_magnified (dk_lm d) = toplevel then Some d
      else do {
        d \<leftarrow> (if \<not> FLAGS_lm_new_overview_mode C then SendTabSummaryMessage C (lm_magnified (dk_lm d)) False d else Some d);
        Some (upd_lm (\<lambda>m. m\<lparr>lm_magnified := toplevel\<rparr>) d) })"

section \<open>Positions in overview mode\<close>

definition scale_toplevel :: "tid \<Rightarrow> int \<Rightarrow> int \<Rightarrow> ('x, 'd) ldesk_scheme \<Rightarrow> ('x, 'd) ldesk_scheme option" where
  "scale_toplevel tid max_width max_height d = do {
     (t, w) \<leftarrow> top_win tid d;
     Some (upd_top tid (UpdateOverviewScaling max_width max_height w) d) }"

text \<open>The panning offset that puts the magnified window under \<open>magnified_x\<close>, as near to the middle as possible.\<close>

definition panning_for :: "int \<Rightarrow> int \<Rightarrow> toplevel \<Rightarrow> int" where
  "panning_for width magnified_x t =
     (let half = (\<lambda>n. dbl_mult (1/2) (of_int n))
      in if half (width - overview_width t) < of_int magnified_x \<and> half (width + overview_width t) \<ge> of_int magnified_x
         then dbl_to_int (dbl_sub (dbl_add (of_int (overview_x t)) (half (overview_width t))) (half width))
         else if half (width - overview_width t) > of_int magnified_x then overview_x t - magnified_x + 1
         else overview_x t - magnified_x + overview_width t - 1)"

fun place_new_overview ::
    "int \<Rightarrow> int \<Rightarrow> int \<Rightarrow> int \<Rightarrow> tid list \<Rightarrow> ('x, 'd) ldesk_scheme \<Rightarrow> ('x, 'd) ldesk_scheme option" where
  "place_new_overview width_limit height_limit magnified_x running_width [] d = Some d"
| "place_new_overview width_limit height_limit magnified_x running_width (tid # tids) d = do {
     let width = lm_width (dk_lm d);
     let is_magnified = (lm_magnified (dk_lm d) = Some tid);
     d \<leftarrow> scale_toplevel tid width_limit height_limit d;
     t \<leftarrow> get_top tid d;
     let y = dbl_to_int (dbl_mult (1/2) (of_int (lm_height (dk_lm d) - overview_height t)));
     let d = upd_top tid (UpdateOverviewPosition running_width y) d;
     let step = (if is_magnified then of_int (overview_width t)
                 else dbl_mult (dbl_mult kOverviewExposedWindowRatio (of_int width))
                        (dbl_div (of_int width_limit) (dbl_mult kOverviewWindowMaxSizeRatio (of_int width))));
     t \<leftarrow> get_top tid d;
     let d = (if is_magnified \<and> magnified_x \<ge> 0 then upd_lm (\<lambda>m. m\<lparr>lm_panning_offset := panning_for width magnified_x t\<rparr>) d else d);
     place_new_overview width_limit height_limit magnified_x (dbl_to_int (dbl_add (of_int running_width) step)) tids d }"

definition overview_limit :: "nat \<Rightarrow> int \<Rightarrow> int" where
  "overview_limit n extent =
     dbl_to_int (min (dbl_div (of_int extent) (dbl_sqrt n)) (dbl_mult kOverviewWindowMaxSizeRatio (of_int extent)))"

fun scale_unmagnified :: "int \<Rightarrow> int \<Rightarrow> tid list \<Rightarrow> ('x, 'd) ldesk_scheme \<Rightarrow> ('x, 'd) ldesk_scheme option" where
  "scale_unmagnified max_width max_height [] d = Some d"
| "scale_unmagnified max_width max_height (tid # tids) d = do {
     d \<leftarrow> (if lm_magnified (dk_lm d) \<noteq> Some tid then scale_toplevel tid max_width max_height d else Some d);
     scale_unmagnified max_width max_height tids d }"

fun total_overview_width :: "tid list \<Rightarrow> ('x, 'd) ldesk_scheme \<Rightarrow> int option" where
  "total_overview_width [] d = Some 0"
| "total_overview_width (tid # tids) d = do {
     t \<leftarrow> get_top tid d;
     n \<leftarrow> total_overview_width tids d;
     Some (overview_width t + n) }"

fun place_old_overview :: "double \<Rightarrow> double \<Rightarrow> tid list \<Rightarrow> ('x, 'd) ldesk_scheme \<Rightarrow> ('x, 'd) ldesk_scheme option" where
  "place_old_overview padding running_width [] d = Some d"
| "place_old_overview padding running_width (tid # tids) d = do {
     t \<leftarrow> get_top tid d;
     let d = upd_top tid (UpdateOverviewPosition (dbl_round (dbl_add running_width padding)) (lm_height (dk_lm d) - overview_height t)) d;
     place_old_overview padding (dbl_add running_width (dbl_add padding (of_int (overview_width t)))) tids d }"

definition create_browser_width :: "('x, 'd) ldesk_scheme \<Rightarrow> int option option" where
  "create_browser_width d =
     (case lm_create_browser_window (dk_lm d) of
        None \<Rightarrow> Some None
      | Some win \<Rightarrow> map_option (Some \<circ> client_width) (dk_windows d win))"

definition calculate_old_overview :: "('x, 'd) ldesk_scheme \<Rightarrow> ('x, 'd) ldesk_scheme option" where
  "calculate_old_overview d = do {
     let toplevels = lm_toplevels (dk_lm d);
     let n = int (length toplevels);
     let width = lm_width (dk_lm d);
     let overview_height = lm_overview_height (dk_lm d);
     d \<leftarrow> (case lm_magnified (dk_lm d) of Some tid \<Rightarrow> scale_toplevel tid width overview_height d | None \<Rightarrow> Some d);
     create_width \<leftarrow> create_browser_width d;
     let total_unmag_width = width - (n + 1) * kWindowPadding;
     let total_unmag_width = (case create_width of Some cw \<Rightarrow> total_unmag_width - (cw + kWindowPadding) | None \<Rightarrow> total_unmag_width);
     (total_unmag_width, num_unmag_windows) \<leftarrow>
       (case lm_magnified (dk_lm d) of
          Some tid \<Rightarrow> map_option (\<lambda>t. (total_unmag_width - overview_width t, n - 1)) (get_top tid d)
        | None \<Rightarrow> Some (total_unmag_width, n));
     let max_unmag_width = (if num_unmag_windows \<noteq> 0 then total_unmag_width sdiv num_unmag_windows else 0);
     let max_unmag_height = dbl_to_int (dbl_mult kMaxWindowHeightRatio (of_int overview_height));
     d \<leftarrow> scale_unmagnified max_unmag_width max_unmag_height toplevels d;
     total_window_width \<leftarrow> total_overview_width toplevels d;
     let total_window_width = (case create_width of Some cw \<Rightarrow> total_window_width + cw | None \<Rightarrow> total_window_width);
     let total_padding = max 0 (width - total_window_width);
     let padding = dbl_div (of_int total_padding) (of_int (if create_width \<noteq> None then n + 2 else n + 1));
     place_old_overview padding 0 toplevels d }"

definition CalculatePositionsForOverviewMode ::
    "('x, 'c) layctx_scheme \<Rightarrow> int \<Rightarrow> ('x, 'd) ldesk_scheme \<Rightarrow> ('x, 'd) ldesk_scheme option" where
  "CalculatePositionsForOverviewMode C magnified_x d =
     (let toplevels = lm_toplevels (dk_lm d); n = length toplevels
      in if toplevels = [] then Some d
         else if FLAGS_lm_new_overview_mode C
         then place_new_overview (overview_limit n (lm_width (dk_lm d))) (overview_limit n (lm_height (dk_lm d))) magnified_x
                kWindowPadding toplevels d
         else calculate_old_overview d)"

fun configure_overview ::
    "('x, 'c) layctx_scheme \<Rightarrow> bool \<Rightarrow> tid option \<Rightarrow> tid list \<Rightarrow> ('x, 'd) ldesk_scheme \<Rightarrow> ('x, 'd) ldesk_scheme option" where
  "configure_overview C incremental to_right [] d = Some d"
| "configure_overview C incremental to_right (tid # tids) d = do {
     d \<leftarrow> ConfigureForOverviewMode C tid (lm_magnified (dk_lm d) = Some tid) (lm_magnified (dk_lm d) \<noteq> None) to_right incremental d;
     configure_overview C incremental (Some tid) tids d }"

definition ConfigureWindowsForOverviewMode ::
    "('x, 'c) layctx_scheme \<Rightarrow> bool \<Rightarrow> ('x, 'd) ldesk_scheme \<Rightarrow> ('x, 'd) ldesk_scheme option" where
  "ConfigureWindowsForOverviewMode C incremental d = do {
     d \<leftarrow> configure_overview C incremental None (rev (lm_toplevels (dk_lm d))) d;
     case lm_create_browser_window (dk_lm d) of
       Some win \<Rightarrow>
         if incremental then Some d
         else do {
           w \<leftarrow> dk_windows d win;
           d \<leftarrow> on_win win (MoveComposited
                  (lm_x (dk_lm d) + lm_width (dk_lm d) - client_width w - kWindowPadding)
                  (lm_y (dk_lm d) + lm_height (dk_lm d) - client_height w - kCreateBrowserWindowVerticalPadding) 0) d;
           ask_to_do win (MoveClientToComposited C) d }
     | None \<Rightarrow> Some d }"

definition LayoutToplevelWindowsForOverviewMode ::
    "('x, 'c) layctx_scheme \<Rightarrow> int \<Rightarrow> ('x, 'd) ldesk_scheme \<Rightarrow> ('x, 'd) ldesk_scheme option" where
  "LayoutToplevelWindowsForOverviewMode C magnified_x d = do {
     d \<leftarrow> CalculatePositionsForOverviewMode C magnified_x d;
     ConfigureWindowsForOverviewMode C False d }"

text \<open>\<open>0.5 * width_\<close>, converted to an integer.\<close>

definition half_width :: "('x, 'd) ldesk_scheme \<Rightarrow> int" where
  "half_width d = dbl_to_int (dbl_mult (1/2) (of_int (lm_width (dk_lm d))))"

section \<open>Active mode\<close>

fun configure_active ::
    "('x, 'c) layctx_scheme \<Rightarrow> bool \<Rightarrow> bool \<Rightarrow> tid list \<Rightarrow> ('x, 'd) ldesk_scheme \<Rightarrow> ('x, 'd) ldesk_scheme option" where
  "configure_active C update_focus saw_active [] d = Some d"
| "configure_active C update_focus saw_active (tid # tids) d = do {
     let is_active = (lm_active (dk_lm d) = Some tid);
     d \<leftarrow> ConfigureForActiveMode C tid is_active (\<not> saw_active) update_focus d;
     configure_active C update_focus (saw_active \<or> is_active) tids d }"

definition LayoutToplevelWindowsForActiveMode ::
    "('x, 'c) layctx_scheme \<Rightarrow> bool \<Rightarrow> ('x, 'd) ldesk_scheme \<Rightarrow> ('x, 'd) ldesk_scheme option" where
  "LayoutToplevelWindowsForActiveMode C update_focus d =
     (case lm_toplevels (dk_lm d) of
        [] \<Rightarrow> Some d
      | first # _ \<Rightarrow>
          (let d = (if lm_active (dk_lm d) = None then upd_lm (\<lambda>m. m\<lparr>lm_active := Some first\<rparr>) d else d)
           in configure_active C update_focus False (lm_toplevels (dk_lm d)) d))"

definition SetActiveToplevelWindow ::
    "('x, 'c) layctx_scheme \<Rightarrow> tid \<Rightarrow> toplevel_state \<Rightarrow> toplevel_state \<Rightarrow> ('x, 'd) ldesk_scheme \<Rightarrow> ('x, 'd) ldesk_scheme option" where
  "SetActiveToplevelWindow C tid state_for_new_win state_for_old_win d =
     (if lm_mode (dk_lm d) \<noteq> MODE_ACTIVE \<or> lm_active (dk_lm d) = Some tid then Some d
      else do {
        d \<leftarrow> (case lm_active (dk_lm d) of
               None \<Rightarrow> Some d
             | Some old \<Rightarrow> do {
                 _ \<leftarrow> get_top old d;
                 Some (upd_top old (\<lambda>t. t\<lparr>tl_state := state_for_old_win\<rparr>) d) });
        _ \<leftarrow> get_top tid d;
        let d = upd_top tid (\<lambda>t. t\<lparr>tl_state := state_for_new_win\<rparr>) d;
        LayoutToplevelWindowsForActiveMode C True (upd_lm (\<lambda>m. m\<lparr>lm_active := Some tid\<rparr>) d) })"

text \<open>\<open>LayoutManager::TakeFocus\<close>, and \<open>WindowManager::TakeFocus\<close> with it.\<close>

definition Layout_TakeFocus ::
    "('x, 'c) panelctx_scheme \<Rightarrow> ('x, 'd) ldesk_scheme \<Rightarrow> (bool \<times> ('x, 'd) ldesk_scheme) option" where
  "Layout_TakeFocus C d =
     (case lm_active (dk_lm d) of
        None \<Rightarrow> Some (False, d)
      | Some tid \<Rightarrow>
          if lm_mode (dk_lm d) \<noteq> MODE_ACTIVE then Some (False, d)
          else do {
            (timestamp, d) \<leftarrow> GetCurrentTimeFromServer C d;
            d \<leftarrow> Toplevel_TakeFocus C tid timestamp d;
            Some (True, d) })"

definition wm_TakeFocus :: "('x, 'c) layctx_scheme \<Rightarrow> ('x, 'd) ldesk_scheme \<Rightarrow> ('x, 'd) ldesk_scheme option" where
  "wm_TakeFocus C d = WindowManager_TakeFocus C (Layout_TakeFocus C) d"

section \<open>Key bindings\<close>

definition XK_Tab :: "32 word" where "XK_Tab = 0xff09"
definition XK_Return :: "32 word" where "XK_Return = 0xff0d"
definition XK_Escape :: "32 word" where "XK_Escape = 0xff1b"
definition XK_Left :: "32 word" where "XK_Left = 0xff51"
definition XK_Right :: "32 word" where "XK_Right = 0xff53"
definition XK_F1 :: "32 word" where "XK_F1 = 0xffbe"
definition XK_F2 :: "32 word" where "XK_F2 = 0xffbf"
definition XK_F12 :: "32 word" where "XK_F12 = 0xffc9"
definition XK_1 :: "32 word" where "XK_1 = 0x31"
definition XK_9 :: "32 word" where "XK_9 = 0x39"
definition XK_h :: "32 word" where "XK_h = 0x68"
definition XK_l :: "32 word" where "XK_l = 0x6c"
definition XK_w :: "32 word" where "XK_w = 0x77"

text \<open>The methods that the constructor binds to actions, and their names. Each has a closure for the begin of the action only.\<close>

datatype lm_closure =
    SetModeClosure layout_mode
  | SwitchToActiveModeClosure bool
  | CycleActiveClosure bool
  | CycleMagnifiedClosure bool
  | ActivateByIndexClosure int
  | MagnifyByIndexClosure int
  | DeleteActiveClosure
  | PanClosure int

definition indexed :: "string \<Rightarrow> nat \<Rightarrow> string" where
  "indexed stem i = stem @ [''0123456789'' ! i]"

definition layout_actions :: "(string \<times> lm_closure) list" where
  "layout_actions =
     [(''switch-to-overview-mode'', SetModeClosure MODE_OVERVIEW),
      (''switch-to-active-mode'', SwitchToActiveModeClosure False),
      (''cycle-active-forward'', CycleActiveClosure True),
      (''cycle-active-backward'', CycleActiveClosure False),
      (''cycle-magnification-forward'', CycleMagnifiedClosure True),
      (''cycle-magnification-backward'', CycleMagnifiedClosure False),
      (''switch-to-active-mode-for-magnified'', SwitchToActiveModeClosure True)] @
     concat (map (\<lambda>i. [(indexed ''activate-toplevel-with-index-'' i, ActivateByIndexClosure (int i)),
                       (indexed ''magnify-toplevel-with-index-'' i, MagnifyByIndexClosure (int i))]) [0..<8]) @
     [(''activate-last-toplevel'', ActivateByIndexClosure (-1)),
      (''magnify-last-toplevel'', MagnifyByIndexClosure (-1)),
      (''delete-active-window'', DeleteActiveClosure),
      (''pan-overview-mode-left'', PanClosure (-50)),
      (''pan-overview-mode-right'', PanClosure 50)]"

definition mode_bindings :: "layout_mode \<Rightarrow> (32 word \<times> 32 word \<times> string) list" where
  "mode_bindings mode =
     (case mode of
        MODE_ACTIVE \<Rightarrow>
          [(XK_F12, 0, ''switch-to-overview-mode''),
           (XK_Tab, kAltMask, ''cycle-active-forward''),
           (XK_F2, kAltMask, ''cycle-active-forward''),
           (XK_Tab, kAltMask OR kShiftMask, ''cycle-active-backward''),
           (XK_F1, kAltMask, ''cycle-active-backward'')] @
          map (\<lambda>i. (XK_1 + of_nat i, kAltMask, indexed ''activate-toplevel-with-index-'' i)) [0..<8] @
          [(XK_9, kAltMask, ''activate-last-toplevel''),
           (XK_w, kControlMask OR kShiftMask, ''delete-active-window'')]
      | MODE_OVERVIEW \<Rightarrow>
          [(XK_Escape, 0, ''switch-to-active-mode''),
           (XK_F12, 0, ''switch-to-active-mode''),
           (XK_Return, 0, ''switch-to-active-mode-for-magnified''),
           (XK_Right, 0, ''cycle-magnification-forward''),
           (XK_Tab, kAltMask, ''cycle-magnification-forward''),
           (XK_F2, kAltMask, ''cycle-magnification-forward''),
           (XK_Left, 0, ''cycle-magnification-backward''),
           (XK_Tab, kAltMask OR kShiftMask, ''cycle-magnification-backward''),
           (XK_F1, kAltMask, ''cycle-magnification-backward'')] @
          map (\<lambda>i. (XK_1 + of_nat i, kAltMask, indexed ''magnify-toplevel-with-index-'' i)) [0..<8] @
          [(XK_9, kAltMask, ''magnify-last-toplevel''),
           (XK_h, kAltMask, ''pan-overview-mode-left''),
           (XK_l, kAltMask, ''pan-overview-mode-right'')])"

text \<open>The combinations that \<open>RemoveKeyBindingsForMode\<close> repeats.\<close>

definition mode_combos :: "layout_mode \<Rightarrow> (32 word \<times> 32 word) list" where
  "mode_combos mode =
     (case mode of
        MODE_ACTIVE \<Rightarrow>
          [(XK_F12, 0), (XK_Tab, kAltMask), (XK_F2, kAltMask), (XK_Tab, kAltMask OR kShiftMask), (XK_F1, kAltMask)] @
          map (\<lambda>i. (XK_1 + of_nat i, kAltMask)) [0..<9] @ [(XK_w, kControlMask OR kShiftMask)]
      | MODE_OVERVIEW \<Rightarrow>
          [(XK_Escape, 0), (XK_F12, 0), (XK_Return, 0), (XK_Right, 0), (XK_Tab, kAltMask), (XK_F2, kAltMask), (XK_Left, 0),
           (XK_Tab, kAltMask OR kShiftMask), (XK_F1, kAltMask)] @
          map (\<lambda>i. (XK_1 + of_nat i, kAltMask)) [0..<9] @ [(XK_h, kAltMask), (XK_l, kAltMask)])"

fun add_bindings ::
    "('x, 'c) layctx_scheme \<Rightarrow> (32 word \<times> 32 word \<times> string) list \<Rightarrow> key_bindings \<Rightarrow> key_bindings option" where
  "add_bindings C [] k = Some k"
| "add_bindings C ((key, modifiers, name) # bs) k = do {
     (_, k) \<leftarrow> AddBinding (lc_keycode C) (new_KeyCombo (lc_lower C) key modifiers) name k;
     add_bindings C bs k }"

fun remove_combos :: "('x, 'c) layctx_scheme \<Rightarrow> (32 word \<times> 32 word) list \<Rightarrow> key_bindings \<Rightarrow> key_bindings option" where
  "remove_combos C [] k = Some k"
| "remove_combos C ((key, modifiers) # bs) k = do {
     (_, k) \<leftarrow> RemoveBinding (lc_keycode C) (new_KeyCombo (lc_lower C) key modifiers) k;
     remove_combos C bs k }"

definition on_keys :: "(key_bindings \<Rightarrow> key_bindings option) \<Rightarrow> ('x, 'd) ldesk_scheme \<Rightarrow> ('x, 'd) ldesk_scheme option" where
  "on_keys f d = do { k \<leftarrow> f (dk_key_bindings d); Some (d\<lparr>dk_key_bindings := k\<rparr>) }"

definition AddKeyBindingsForMode ::
    "('x, 'c) layctx_scheme \<Rightarrow> layout_mode \<Rightarrow> ('x, 'd) ldesk_scheme \<Rightarrow> ('x, 'd) ldesk_scheme option" where
  "AddKeyBindingsForMode C mode d = on_keys (add_bindings C (mode_bindings mode)) d"

definition RemoveKeyBindingsForMode ::
    "('x, 'c) layctx_scheme \<Rightarrow> layout_mode \<Rightarrow> ('x, 'd) ldesk_scheme \<Rightarrow> ('x, 'd) ldesk_scheme option" where
  "RemoveKeyBindingsForMode C mode d = on_keys (remove_combos C (mode_combos mode)) d"

section \<open>Modes\<close>

fun send_modes :: "('x, 'c) wmctx_scheme \<Rightarrow> tid list \<Rightarrow> ('x, 'd) ldesk_scheme \<Rightarrow> ('x, 'd) ldesk_scheme option" where
  "send_modes C [] d = Some d"
| "send_modes C (tid # tids) d = do { d \<leftarrow> SendModeMessage C tid d; send_modes C tids d }"

definition enter_active_mode :: "('x, 'c) layctx_scheme \<Rightarrow> ('x, 'd) ldesk_scheme \<Rightarrow> ('x, 'd) ldesk_scheme option" where
  "enter_active_mode C d = do {
     d \<leftarrow> (case lm_create_browser_window (dk_lm d) of
            None \<Rightarrow> Some d
          | Some win \<Rightarrow> do {
              d \<leftarrow> on_win win HideComposited d;
              ask_to_do win (MoveClientOffscreen C (offscreen d)) d });
     let d = (if (FLAGS_lm_new_overview_mode C \<or> lm_active (dk_lm d) = None) \<and> lm_magnified (dk_lm d) \<noteq> None
              then upd_lm (\<lambda>m. m\<lparr>lm_active := lm_magnified m\<rparr>) d else d);
     let d = (if lm_active (dk_lm d) = None
              then (case lm_toplevels (dk_lm d) of [] \<Rightarrow> d | first # _ \<Rightarrow> upd_lm (\<lambda>m. m\<lparr>lm_active := Some first\<rparr>) d) else d);
     d \<leftarrow> (if \<not> FLAGS_lm_new_overview_mode C then SetMagnifiedToplevelWindow C None d else Some d);
     LayoutToplevelWindowsForActiveMode C True d }"

definition enter_overview_mode :: "('x, 'c) layctx_scheme \<Rightarrow> ('x, 'd) ldesk_scheme \<Rightarrow> ('x, 'd) ldesk_scheme option" where
  "enter_overview_mode C d = do {
     d \<leftarrow> (case lm_create_browser_window (dk_lm d) of None \<Rightarrow> Some d | Some win \<Rightarrow> on_win win ShowComposited d);
     d \<leftarrow> SetMagnifiedToplevelWindow C (if FLAGS_lm_new_overview_mode C then lm_active (dk_lm d) else None) d;
     focused \<leftarrow> (case lm_active (dk_lm d) of None \<Rightarrow> Some False | Some tid \<Rightarrow> IsWindowOrTransientFocused tid d);
     d \<leftarrow> (if focused then wm_TakeFocus C (snd (SetActiveWindowProperty C XNone d)) else Some d);
     LayoutToplevelWindowsForOverviewMode C (half_width d) d }"

definition SetMode :: "('x, 'c) layctx_scheme \<Rightarrow> layout_mode \<Rightarrow> ('x, 'd) ldesk_scheme \<Rightarrow> ('x, 'd) ldesk_scheme option" where
  "SetMode C mode d = do {
     d \<leftarrow> RemoveKeyBindingsForMode C (lm_mode (dk_lm d)) d;
     let d = upd_lm (\<lambda>m. m\<lparr>lm_mode := mode\<rparr>) d;
     d \<leftarrow> (case mode of MODE_ACTIVE \<Rightarrow> enter_active_mode C d | MODE_OVERVIEW \<Rightarrow> enter_overview_mode C d);
     d \<leftarrow> AddKeyBindingsForMode C mode d;
     send_modes C (lm_toplevels (dk_lm d)) d }"

definition activate :: "('x, 'c) layctx_scheme \<Rightarrow> tid option \<Rightarrow> ('x, 'd) ldesk_scheme \<Rightarrow> ('x, 'd) ldesk_scheme option" where
  "activate C toplevel d = SetMode C MODE_ACTIVE (upd_lm (\<lambda>m. m\<lparr>lm_active := toplevel\<rparr>) d)"

definition SwitchToActiveMode :: "('x, 'c) layctx_scheme \<Rightarrow> bool \<Rightarrow> ('x, 'd) ldesk_scheme \<Rightarrow> ('x, 'd) ldesk_scheme option" where
  "SwitchToActiveMode C activate_magnified_win d =
     (if lm_mode (dk_lm d) = MODE_ACTIVE then Some d
      else activate C (if activate_magnified_win \<and> lm_magnified (dk_lm d) \<noteq> None then lm_magnified (dk_lm d) else lm_active (dk_lm d)) d)"

text \<open>A negative index counts from the end; \<^term>\<open>None\<close> is an index outside the deque.\<close>

definition toplevel_by_index :: "int \<Rightarrow> ('x, 'd) ldesk_scheme \<Rightarrow> tid option" where
  "toplevel_by_index index d =
     toplevel_at (if index < 0 then int (length (lm_toplevels (dk_lm d))) + index else index) d"

definition ActivateToplevelWindowByIndex ::
    "('x, 'c) layctx_scheme \<Rightarrow> int \<Rightarrow> ('x, 'd) ldesk_scheme \<Rightarrow> ('x, 'd) ldesk_scheme option" where
  "ActivateToplevelWindowByIndex C index d =
     (if lm_mode (dk_lm d) \<noteq> MODE_ACTIVE then Some d
      else
        (case toplevel_by_index index d of
           None \<Rightarrow> Some d
         | Some tid \<Rightarrow>
             if lm_active (dk_lm d) = Some tid then Some d
             else SetActiveToplevelWindow C tid STATE_ACTIVE_MODE_IN_FADE STATE_ACTIVE_MODE_OUT_FADE d))"

text \<open>The end of a change of the magnified window: a new layout, and a message to the window.\<close>

definition layout_magnified :: "('x, 'c) layctx_scheme \<Rightarrow> ('x, 'd) ldesk_scheme \<Rightarrow> ('x, 'd) ldesk_scheme option" where
  "layout_magnified C d = do {
     d \<leftarrow> LayoutToplevelWindowsForOverviewMode C (half_width d) d;
     if \<not> FLAGS_lm_new_overview_mode C then SendTabSummaryMessage C (lm_magnified (dk_lm d)) True d else Some d }"

definition MagnifyToplevelWindowByIndex ::
    "('x, 'c) layctx_scheme \<Rightarrow> int \<Rightarrow> ('x, 'd) ldesk_scheme \<Rightarrow> ('x, 'd) ldesk_scheme option" where
  "MagnifyToplevelWindowByIndex C index d =
     (if lm_mode (dk_lm d) \<noteq> MODE_OVERVIEW then Some d
      else
        (case toplevel_by_index index d of
           None \<Rightarrow> Some d
         | Some tid \<Rightarrow>
             if lm_magnified (dk_lm d) = Some tid then Some d
             else do {
               d \<leftarrow> SetMagnifiedToplevelWindow C (Some tid) d;
               layout_magnified C d }))"

text \<open>\<open>(toplevels_.size() + old_index + step) % toplevels_.size()\<close>, in the unsigned 32-bit \<open>size_t\<close>.\<close>

definition cycled_index :: "int \<Rightarrow> bool \<Rightarrow> nat \<Rightarrow> int" where
  "cycled_index old_index forward n = (int n + old_index + (if forward then 1 else -1)) mod 2 ^ 32 mod int n"

definition CycleActiveToplevelWindow ::
    "('x, 'c) layctx_scheme \<Rightarrow> bool \<Rightarrow> ('x, 'd) ldesk_scheme \<Rightarrow> ('x, 'd) ldesk_scheme option" where
  "CycleActiveToplevelWindow C forward d =
     (let toplevels = lm_toplevels (dk_lm d);
          state_for_new = (if forward then STATE_ACTIVE_MODE_IN_FROM_RIGHT else STATE_ACTIVE_MODE_IN_FROM_LEFT);
          state_for_old = (if forward then STATE_ACTIVE_MODE_OUT_TO_LEFT else STATE_ACTIVE_MODE_OUT_TO_RIGHT)
      in if lm_mode (dk_lm d) \<noteq> MODE_ACTIVE \<or> toplevels = [] then Some d
         else
           (case lm_active (dk_lm d) of
              None \<Rightarrow> SetActiveToplevelWindow C (if forward then hd toplevels else last toplevels) state_for_new state_for_old d
            | Some tid \<Rightarrow>
                if length toplevels = 1 then Some d
                else do {
                  new \<leftarrow> toplevel_at (cycled_index (GetIndexForToplevelWindow tid d) forward (length toplevels)) d;
                  SetActiveToplevelWindow C new state_for_new state_for_old d }))"

definition CycleMagnifiedToplevelWindow ::
    "('x, 'c) layctx_scheme \<Rightarrow> bool \<Rightarrow> ('x, 'd) ldesk_scheme \<Rightarrow> ('x, 'd) ldesk_scheme option" where
  "CycleMagnifiedToplevelWindow C forward d =
     (let toplevels = lm_toplevels (dk_lm d)
      in if lm_mode (dk_lm d) \<noteq> MODE_OVERVIEW \<or> toplevels = [] then Some d
         else if lm_magnified (dk_lm d) \<noteq> None \<and> length toplevels = 1 then Some d
         else do {
           d \<leftarrow> (case (if lm_magnified (dk_lm d) = None then lm_active (dk_lm d) else lm_magnified (dk_lm d)) of
                  None \<Rightarrow> SetMagnifiedToplevelWindow C (Some (hd toplevels)) d
                | Some old \<Rightarrow> do {
                    let d = upd_lm (\<lambda>m. m\<lparr>lm_magnified := Some old\<rparr>) d;
                    new \<leftarrow> toplevel_at (cycled_index (GetIndexForToplevelWindow old d) forward (length toplevels)) d;
                    SetMagnifiedToplevelWindow C (Some new) d });
           layout_magnified C d })"

definition SendDeleteRequestToActiveWindow ::
    "('x, 'c) deskctx_scheme \<Rightarrow> ('x, 'd) ldesk_scheme \<Rightarrow> ('x, 'd) ldesk_scheme option" where
  "SendDeleteRequestToActiveWindow C d =
     (case lm_active (dk_lm d) of
        None \<Rightarrow> Some d
      | Some tid \<Rightarrow>
          if lm_mode (dk_lm d) \<noteq> MODE_ACTIVE then Some d
          else do {
            (timestamp, d) \<leftarrow> GetCurrentTimeFromServer C d;
            t \<leftarrow> get_top tid d;
            ask_to_do (tl_win t) (SendDeleteRequest C timestamp) d })"

definition PanOverviewMode :: "('x, 'c) layctx_scheme \<Rightarrow> int \<Rightarrow> ('x, 'd) ldesk_scheme \<Rightarrow> ('x, 'd) ldesk_scheme option" where
  "PanOverviewMode C offset d =
     (let d = upd_lm (\<lambda>m. m\<lparr>lm_panning_offset := lm_panning_offset m + offset\<rparr>) d
      in if lm_mode (dk_lm d) = MODE_OVERVIEW then ConfigureWindowsForOverviewMode C False d else Some d)"

definition UpdateOverviewPanningForMotion ::
    "('x, 'c) layctx_scheme \<Rightarrow> ('x, 'd) ldesk_scheme \<Rightarrow> ('x, 'd) ldesk_scheme option" where
  "UpdateOverviewPanningForMotion C d =
     (let x = mc_x (lm_background_coalescer (dk_lm d));
          d = upd_lm (\<lambda>m. m\<lparr>lm_panning_offset := lm_panning_offset m - (x - lm_drag_last_x m), lm_drag_last_x := x\<rparr>) d
      in ConfigureWindowsForOverviewMode C True d)"

text \<open>What an action's closure does.\<close>

fun run_layout_closure :: "('x, 'c) layctx_scheme \<Rightarrow> lm_closure \<Rightarrow> ('x, 'd) ldesk_scheme \<Rightarrow> ('x, 'd) ldesk_scheme option" where
  "run_layout_closure C (SetModeClosure mode) d = SetMode C mode d"
| "run_layout_closure C (SwitchToActiveModeClosure b) d = SwitchToActiveMode C b d"
| "run_layout_closure C (CycleActiveClosure b) d = CycleActiveToplevelWindow C b d"
| "run_layout_closure C (CycleMagnifiedClosure b) d = CycleMagnifiedToplevelWindow C b d"
| "run_layout_closure C (ActivateByIndexClosure i) d = ActivateToplevelWindowByIndex C i d"
| "run_layout_closure C (MagnifyByIndexClosure i) d = MagnifyToplevelWindowByIndex C i d"
| "run_layout_closure C DeleteActiveClosure d = SendDeleteRequestToActiveWindow C d"
| "run_layout_closure C (PanClosure offset) d = PanOverviewMode C offset d"

end
