(* ===== verification/WM_LayoutEvents.thy ===== *)
theory WM_LayoutEvents
  imports WM_Layout
begin

text \<open>
  The events that \<open>LayoutManager\<close> handles (\<open>window_manager/layout_manager.cc\<close>), its construction and destruction, and the change of
  its area, which \<open>WindowManager::HandleLayoutManagerAreaChange\<close> (\<open>window_manager.cc\<close>) asks for.
\<close>

section \<open>Area\<close>

fun resize_toplevels ::
    "('x, 'c) layctx_scheme \<Rightarrow> Gravity \<Rightarrow> tid list \<Rightarrow> ('x, 'd) ldesk_scheme \<Rightarrow> ('x, 'd) ldesk_scheme option" where
  "resize_toplevels C gravity [] d = Some d"
| "resize_toplevels C gravity (tid # tids) d = do {
     (t, w) \<leftarrow> top_win tid d;
     (width, height) \<leftarrow> (if FLAGS_lm_honor_window_size_hints C then GetMaxSize (lm_width (dk_lm d)) (lm_height (dk_lm d)) w
                          else Some (lm_width (dk_lm d), lm_height (dk_lm d)));
     d \<leftarrow> ask_to_do (tl_win t) (ResizeClient C width height gravity) d;
     resize_toplevels C gravity tids d }"

definition MoveAndResize ::
    "('x, 'c) layctx_scheme \<Rightarrow> int \<Rightarrow> int \<Rightarrow> int \<Rightarrow> int \<Rightarrow> ('x, 'd) ldesk_scheme \<Rightarrow> ('x, 'd) ldesk_scheme option" where
  "MoveAndResize C x y width height d =
     (let m = dk_lm d
      in if x = lm_x m \<and> y = lm_y m \<and> width = lm_width m \<and> height = lm_height m then Some d
         else do {
           let gravity = (if \<bar>x - lm_x m\<bar> > \<bar>x + width - (lm_x m + lm_width m)\<bar> then GRAVITY_NORTHEAST else GRAVITY_NORTHWEST);
           let d = upd_lm (\<lambda>m. m\<lparr>lm_x := x, lm_y := y, lm_width := width, lm_height := height,
             lm_overview_height := dbl_to_int (dbl_mult kOverviewHeightFraction (of_int height))\<rparr>) d;
           d \<leftarrow> resize_toplevels C gravity (lm_toplevels (dk_lm d)) d;
           case lm_mode (dk_lm d) of
             MODE_ACTIVE \<Rightarrow> LayoutToplevelWindowsForActiveMode C False d
           | MODE_OVERVIEW \<Rightarrow> LayoutToplevelWindowsForOverviewMode C (-1) d })"

definition HandleLayoutManagerAreaChange ::
    "('x, 'c) layctx_scheme \<Rightarrow> int \<Rightarrow> int \<Rightarrow> int \<Rightarrow> int \<Rightarrow> ('x, 'd) ldesk_scheme \<Rightarrow> ('x, 'd) ldesk_scheme option" where
  "HandleLayoutManagerAreaChange C x y width height d = MoveAndResize C x y width height (d\<lparr>dk_layout_area := (x, y, width, height)\<rparr>)"

section \<open>The floating tab\<close>

definition PointIsInTabSummary :: "int \<Rightarrow> int \<Rightarrow> ('x, 'd) ldesk_scheme \<Rightarrow> bool option" where
  "PointIsInTabSummary x y d =
     (case lm_tab_summary (dk_lm d) of
        None \<Rightarrow> Some False
      | Some win \<Rightarrow> do {
          w \<leftarrow> dk_windows d win;
          Some (x \<ge> client_x w \<and> y \<ge> client_y w \<and> x < client_x w + client_width w \<and> y < client_y w + client_height w) })"

definition PointIsBetweenMagnifiedToplevelWindowAndTabSummary :: "int \<Rightarrow> int \<Rightarrow> ('x, 'd) ldesk_scheme \<Rightarrow> bool option" where
  "PointIsBetweenMagnifiedToplevelWindowAndTabSummary x y d =
     (case (lm_magnified (dk_lm d), lm_tab_summary (dk_lm d)) of
        (Some tid, Some win) \<Rightarrow>
          if tid \<notin> set (lm_toplevels (dk_lm d)) then Some False
          else do {
            t \<leftarrow> get_top tid d;
            w \<leftarrow> dk_windows d win;
            Some (y \<ge> client_y w + client_height w \<and> y < GetAbsoluteOverviewY t d) }
      | _ \<Rightarrow> Some False)"

definition GetOverviewToplevelWindowAtPoint :: "int \<Rightarrow> int \<Rightarrow> ('x, 'd) ldesk_scheme \<Rightarrow> tid option option" where
  "GetOverviewToplevelWindowAtPoint x y d = find_toplevel (OverviewWindowContainsPoint x y) (lm_toplevels (dk_lm d)) d"

text \<open>The Chrome window that a floating tab at a point is over.\<close>

definition toplevel_under_tab :: "int \<Rightarrow> int \<Rightarrow> ('x, 'd) ldesk_scheme \<Rightarrow> tid option option" where
  "toplevel_under_tab x y d = do {
     toplevel \<leftarrow> GetOverviewToplevelWindowAtPoint x y d;
     toplevel \<leftarrow>
       (if toplevel = None \<and> lm_magnified (dk_lm d) \<noteq> None then do {
          in_summary \<leftarrow> PointIsInTabSummary x y d;
          between \<leftarrow> (if in_summary then Some True else PointIsBetweenMagnifiedToplevelWindowAndTabSummary x y d);
          Some (if between then lm_magnified (dk_lm d) else None) }
        else Some toplevel);
     case toplevel of
       None \<Rightarrow> Some None
     | Some tid \<Rightarrow> do {
         (t, w) \<leftarrow> top_win tid d;
         Some (if w_type w \<noteq> WINDOW_TYPE_CHROME_TOPLEVEL then None else Some tid) } }"

definition notify_over_toplevel ::
    "('x, 'c) wmctx_scheme \<Rightarrow> xid \<Rightarrow> tid option \<Rightarrow> bool \<Rightarrow> ('x, 'd) ldesk_scheme \<Rightarrow> ('x, 'd) ldesk_scheme option" where
  "notify_over_toplevel C tab toplevel entered d =
     (case toplevel of
        None \<Rightarrow> Some d
      | Some tid \<Rightarrow> do {
          t \<leftarrow> get_top tid d;
          msg \<leftarrow> set_param 0 (int tab) (new_Message CHROME_NOTIFY_FLOATING_TAB_OVER_TOPLEVEL);
          msg \<leftarrow> set_param 1 (if entered then 1 else 0) msg;
          send_message C (tl_win t) msg d })"

definition notify_over_tab_summary ::
    "('x, 'c) wmctx_scheme \<Rightarrow> xid \<Rightarrow> int \<Rightarrow> int \<Rightarrow> ('x, 'd) ldesk_scheme \<Rightarrow> ('x, 'd) ldesk_scheme option" where
  "notify_over_tab_summary C tab x y d = do {
     in_summary \<leftarrow> PointIsInTabSummary x y d;
     case lm_tab_summary (dk_lm d) of
       None \<Rightarrow> Some d
     | Some win \<Rightarrow>
         if \<not> in_summary then Some d
         else do {
           w \<leftarrow> dk_windows d win;
           msg \<leftarrow> set_param 0 (int tab) (new_Message CHROME_NOTIFY_FLOATING_TAB_OVER_TAB_SUMMARY);
           msg \<leftarrow> set_param 1 1 msg;
           msg \<leftarrow> set_param 2 (x - client_x w) msg;
           msg \<leftarrow> set_param 3 (y - client_y w) msg;
           send_message C win msg d } }"

definition move_tab_in_overview ::
    "('x, 'c) layctx_scheme \<Rightarrow> xid \<Rightarrow> int \<Rightarrow> int \<Rightarrow> ('x, 'd) ldesk_scheme \<Rightarrow> ('x, 'd) ldesk_scheme option" where
  "move_tab_in_overview C tab x y d = do {
     toplevel \<leftarrow> toplevel_under_tab x y d;
     d \<leftarrow> (if toplevel \<noteq> lm_under_floating_tab (dk_lm d) then do {
            d \<leftarrow> notify_over_toplevel C tab (lm_under_floating_tab (dk_lm d)) False d;
            d \<leftarrow> notify_over_toplevel C tab toplevel True d;
            let d = upd_lm (\<lambda>m. m\<lparr>lm_under_floating_tab := toplevel\<rparr>) d;
            d \<leftarrow> SetMagnifiedToplevelWindow C toplevel d;
            d \<leftarrow> LayoutToplevelWindowsForOverviewMode C (-1) d;
            SendTabSummaryMessage C toplevel True d }
          else Some d);
     notify_over_tab_summary C tab x y d }"

definition in_bottom_area :: "int \<Rightarrow> ('x, 'd) ldesk_scheme \<Rightarrow> bool" where
  "in_bottom_area y d \<longleftrightarrow>
     (let m = dk_lm d; bottom = lm_y m + lm_height m
      in of_int y > dbl_sub (of_int bottom) (dbl_mult kMaxWindowHeightRatio (of_int (lm_overview_height m))) \<and> y < bottom)"

definition MoveFloatingTab :: "('x, 'c) layctx_scheme \<Rightarrow> ('x, 'd) ldesk_scheme \<Rightarrow> ('x, 'd) ldesk_scheme option" where
  "MoveFloatingTab C d =
     (case lm_floating_tab (dk_lm d) of
        None \<Rightarrow> Some d
      | Some tab \<Rightarrow> do {
          let x = mc_x (lm_floating_tab_coalescer (dk_lm d));
          let y = mc_y (lm_floating_tab_coalescer (dk_lm d));
          w \<leftarrow> dk_windows d tab;
          if x = composited_x w \<and> y = composited_y w then Some d
          else do {
            d \<leftarrow> (if \<not> composited_shown w then on_win tab ShowComposited d else Some d);
            let (x_offset, y_offset) =
              (if length (w_type_params w) \<ge> 4 then (w_type_params w ! 2, w_type_params w ! 3) else (0, 0));
            d \<leftarrow> on_win tab (MoveComposited (x - x_offset) (y - y_offset) 0) d;
            case lm_mode (dk_lm d) of
              MODE_OVERVIEW \<Rightarrow> move_tab_in_overview C tab x y d
            | MODE_ACTIVE \<Rightarrow> if in_bottom_area y d then SetMode C MODE_OVERVIEW d else Some d } })"

text \<open>Operations of the two coalescers, which may run their callbacks once.\<close>

definition tab_coalesced ::
    "('x, 'c) layctx_scheme \<Rightarrow> (coalescer \<Rightarrow> coalescer) \<Rightarrow> ('x, 'd) ldesk_scheme \<Rightarrow> ('x, 'd) ldesk_scheme option" where
  "tab_coalesced C f d =
     (let c = f ((lm_floating_tab_coalescer (dk_lm d))\<lparr>mc_log := []\<rparr>);
          d = upd_lm (\<lambda>m. m\<lparr>lm_floating_tab_coalescer := c\<rparr>) d
      in if mc_log c \<noteq> [] then MoveFloatingTab C d else Some d)"

definition background_coalesced ::
    "('x, 'c) layctx_scheme \<Rightarrow> (coalescer \<Rightarrow> coalescer) \<Rightarrow> ('x, 'd) ldesk_scheme \<Rightarrow> ('x, 'd) ldesk_scheme option" where
  "background_coalesced C f d =
     (let c = f ((lm_background_coalescer (dk_lm d))\<lparr>mc_log := []\<rparr>);
          d = upd_lm (\<lambda>m. m\<lparr>lm_background_coalescer := c\<rparr>) d
      in if mc_log c \<noteq> [] then UpdateOverviewPanningForMotion C d else Some d)"

definition floating_tab_timer :: "('x, 'c) layctx_scheme \<Rightarrow> ('x, 'd) ldesk_scheme \<Rightarrow> ('x, 'd) ldesk_scheme option" where
  "floating_tab_timer C d = tab_coalesced C (\<lambda>c. snd (mc_HandleTimer c)) d"

definition background_timer :: "('x, 'c) layctx_scheme \<Rightarrow> ('x, 'd) ldesk_scheme \<Rightarrow> ('x, 'd) ldesk_scheme option" where
  "background_timer C d = background_coalesced C (\<lambda>c. snd (mc_HandleTimer c)) d"

section \<open>Windows\<close>

definition Layout_DoInitialSetupForWindow ::
    "('x, 'c) panelctx_scheme \<Rightarrow> xid \<Rightarrow> ('x, 'd) ldesk_scheme \<Rightarrow> ('x, 'd) ldesk_scheme option" where
  "Layout_DoInitialSetupForWindow C win d = do {
     w \<leftarrow> dk_windows d win;
     d \<leftarrow> (if w_type w \<noteq> WINDOW_TYPE_CHROME_INFO_BUBBLE then ask_to_do win (MoveClientOffscreen C (offscreen d)) d else Some d);
     (_, d) \<leftarrow> StackWindowAtTopOfLayer C (pc_stacking C) win LAYER_TOPLEVEL_WINDOW d;
     Some d }"

definition Layout_HandleWindowMapRequest ::
    "('x, 'c) panelctx_scheme \<Rightarrow> xid \<Rightarrow> ('x, 'd) ldesk_scheme \<Rightarrow> (bool \<times> ('x, 'd) ldesk_scheme) option" where
  "Layout_HandleWindowMapRequest C win d = do {
     let d = upd_lm (\<lambda>m. m\<lparr>lm_saw_map_request := True\<rparr>) d;
     w \<leftarrow> dk_windows d win;
     if \<not> IsHandledWindowType (w_type w) then Some (False, d)
     else do {
       d \<leftarrow> Layout_DoInitialSetupForWindow C win d;
       d \<leftarrow> ask_to_do win (MapClient C) d;
       Some (True, d) } }"

definition map_override_redirect ::
    "('x, 'c) panelctx_scheme \<Rightarrow> xid \<Rightarrow> window \<Rightarrow> ('x, 'd) ldesk_scheme \<Rightarrow> ('x, 'd) ldesk_scheme option" where
  "map_override_redirect C win w d =
     (if w_type w = WINDOW_TYPE_CHROME_TAB_SUMMARY then do {
        (_, d) \<leftarrow> StackWindowAtTopOfLayer C (pc_stacking C) win LAYER_TAB_SUMMARY d;
        d \<leftarrow> on_win win (SetCompositedOpacity 0 0) d;
        d \<leftarrow> on_win win ShowComposited d;
        d \<leftarrow> on_win win (SetCompositedOpacity 1 kWindowAnimMs) d;
        Some (upd_lm (\<lambda>m. m\<lparr>lm_tab_summary := Some win\<rparr>) d) }
      else on_win win ShowComposited d)"

definition map_tab_summary ::
    "('x, 'c) wmctx_scheme \<Rightarrow> xid \<Rightarrow> window \<Rightarrow> ('x, 'd) ldesk_scheme \<Rightarrow> ('x, 'd) ldesk_scheme option" where
  "map_tab_summary C win w d = do {
     let m = dk_lm d;
     let x = (lm_width m - client_width w) sdiv 2;
     let y = lm_y m + lm_height m - lm_overview_height m - client_height w - kTabSummaryPadding;
     d \<leftarrow> on_win win (MoveComposited x y 0) d;
     d \<leftarrow> on_win win (ScaleComposited C 1 1 0) d;
     d \<leftarrow> on_win win (SetCompositedOpacity 0 0) d;
     d \<leftarrow> on_win win ShowComposited d;
     d \<leftarrow> on_win win (SetCompositedOpacity (3/4) kWindowAnimMs) d;
     d \<leftarrow> ask_to_do win (MoveClient C x y) d;
     Some (upd_lm (\<lambda>m. m\<lparr>lm_tab_summary := Some win\<rparr>) d) }"

definition map_floating_tab ::
    "('x, 'c) layctx_scheme \<Rightarrow> xid \<Rightarrow> window \<Rightarrow> ('x, 'd) ldesk_scheme \<Rightarrow> ('x, 'd) ldesk_scheme option" where
  "map_floating_tab C win w d = do {
     (_, d) \<leftarrow> StackWindowAtTopOfLayer C (pc_stacking C) win LAYER_FLOATING_TAB d;
     d \<leftarrow> on_win win (ScaleComposited C 1 1 0) d;
     d \<leftarrow> on_win win (SetCompositedOpacity (3/4) 0) d;
     d \<leftarrow> (case lm_floating_tab (dk_lm d) of None \<Rightarrow> Some d | Some old \<Rightarrow> on_win old HideComposited d);
     let d = upd_lm (\<lambda>m. m\<lparr>lm_floating_tab := Some win\<rparr>) d;
     let d = (if \<not> mc_IsRunning (lm_floating_tab_coalescer (dk_lm d))
              then (case start_coalescer C (lm_floating_tab_coalescer (dk_lm d)) d of
                      (co, d) \<Rightarrow> upd_lm (\<lambda>m. m\<lparr>lm_floating_tab_coalescer := co\<rparr>) d) else d);
     case w_type_params w of
       x # y # _ \<Rightarrow> tab_coalesced C (StorePosition x y) d
     | _ \<Rightarrow> Some d }"

definition map_create_browser_window ::
    "('x, 'c) layctx_scheme \<Rightarrow> xid \<Rightarrow> ('x, 'd) ldesk_scheme \<Rightarrow> ('x, 'd) ldesk_scheme option" where
  "map_create_browser_window C win d = do {
     d \<leftarrow> (case lm_create_browser_window (dk_lm d) of None \<Rightarrow> Some d | Some old \<Rightarrow> on_win old HideComposited d);
     let d = upd_lm (\<lambda>m. m\<lparr>lm_create_browser_window := Some win\<rparr>) d;
     (_, d) \<leftarrow> StackWindowAtTopOfLayer C (pc_stacking C) win LAYER_TOPLEVEL_WINDOW d;
     if lm_mode (dk_lm d) = MODE_OVERVIEW then do {
       d \<leftarrow> on_win win ShowComposited d;
       LayoutToplevelWindowsForOverviewMode C (-1) d }
     else Some d }"

definition map_transient ::
    "('x, 'c) layctx_scheme \<Rightarrow> xid \<Rightarrow> tid \<Rightarrow> ('x, 'd) ldesk_scheme \<Rightarrow> ('x, 'd) ldesk_scheme option" where
  "map_transient C win tid d = do {
     let d = upd_lm (\<lambda>m. m\<lparr>lm_transient_to_toplevel := (lm_transient_to_toplevel m)(win \<mapsto> tid)\<rparr>) d;
     d \<leftarrow> AddTransientWindow C tid win (lm_mode (dk_lm d) = MODE_OVERVIEW) d;
     case lm_active (dk_lm d) of
       None \<Rightarrow> Some d
     | Some active \<Rightarrow>
         if lm_mode (dk_lm d) \<noteq> MODE_ACTIVE then Some d
         else do {
           focused \<leftarrow> IsWindowOrTransientFocused active d;
           if focused then do {
             (timestamp, d) \<leftarrow> GetCurrentTimeFromServer C d;
             Toplevel_TakeFocus C active timestamp d }
           else Some d } }"

definition insert_at :: "nat \<Rightarrow> 'a \<Rightarrow> 'a list \<Rightarrow> 'a list" where
  "insert_at i x xs = take i xs @ x # drop i xs"

definition map_toplevel ::
    "('x, 'c) layctx_scheme \<Rightarrow> tid \<Rightarrow> xid \<Rightarrow> ('x, 'd) ldesk_scheme \<Rightarrow> ('x, 'd) ldesk_scheme option" where
  "map_toplevel C tid win d = do {
     d \<leftarrow> new_ToplevelWindow C tid win d;
     t \<leftarrow> get_top tid d;
     let d = upd_lm (\<lambda>m. m\<lparr>lm_input_to_toplevel := (lm_input_to_toplevel m)(tl_input_xid t \<mapsto> tid)\<rparr>) d;
     case lm_mode (dk_lm d) of
       MODE_ACTIVE \<Rightarrow> do {
         i \<leftarrow> (case lm_active (dk_lm d) of
                None \<Rightarrow> Some (length (lm_toplevels (dk_lm d)))
              | Some active \<Rightarrow> do {
                  let old_index = GetIndexForToplevelWindow active d;
                  CHECK (old_index \<ge> 0);
                  Some (nat old_index + 1) });
         let d = upd_lm (\<lambda>m. m\<lparr>lm_toplevels := insert_at i tid (lm_toplevels m)\<rparr>) d;
         SetActiveToplevelWindow C tid STATE_ACTIVE_MODE_IN_FROM_RIGHT STATE_ACTIVE_MODE_OUT_TO_LEFT d }
     | MODE_OVERVIEW \<Rightarrow>
         LayoutToplevelWindowsForOverviewMode C (-1) (upd_lm (\<lambda>m. m\<lparr>lm_toplevels := lm_toplevels m @ [tid]\<rparr>) d) }"

definition Layout_HandleWindowMap ::
    "('x, 'c) layctx_scheme \<Rightarrow> tid \<Rightarrow> xid \<Rightarrow> ('x, 'd) ldesk_scheme \<Rightarrow> ('x, 'd) ldesk_scheme option" where
  "Layout_HandleWindowMap C tid win d = do {
     w \<leftarrow> dk_windows d win;
     if w_override_redirect w then map_override_redirect C win w d
     else if \<not> IsHandledWindowType (w_type w) then Some d
     else do {
       d \<leftarrow> (if \<not> lm_saw_map_request (dk_lm d) then Layout_DoInitialSetupForWindow C win d else Some d);
       w \<leftarrow> dk_windows d win;
       if w_type w = WINDOW_TYPE_CHROME_TAB_SUMMARY then map_tab_summary C win w d
       else if w_type w = WINDOW_TYPE_CHROME_FLOATING_TAB then map_floating_tab C win w d
       else if w_type w = WINDOW_TYPE_CREATE_BROWSER_WINDOW then map_create_browser_window C win d
       else do {
         owner \<leftarrow> (if w_transient_for_xid w \<noteq> XNone then GetToplevelWindowByXid (w_transient_for_xid w) d else Some None);
         case owner of
           Some toplevel_owner \<Rightarrow> map_transient C win toplevel_owner d
         | None \<Rightarrow> map_toplevel C tid win d } } }"

text \<open>The parts of \<open>HandleWindowUnmap\<close>, in their order.\<close>

definition unmap_special ::
    "('x, 'c) layctx_scheme \<Rightarrow> xid \<Rightarrow> ('x, 'd) ldesk_scheme \<Rightarrow> ('x, 'd) ldesk_scheme option" where
  "unmap_special C win d = do {
     d \<leftarrow> (if lm_floating_tab (dk_lm d) = Some win then do {
            d \<leftarrow> (if mc_IsRunning (lm_floating_tab_coalescer (dk_lm d)) then tab_coalesced C mc_Stop d else Some d);
            Some (upd_lm (\<lambda>m. m\<lparr>lm_floating_tab := None\<rparr>) d) }
          else Some d);
     let d = (if lm_tab_summary (dk_lm d) = Some win then upd_lm (\<lambda>m. m\<lparr>lm_tab_summary := None\<rparr>) d else d);
     if lm_create_browser_window (dk_lm d) = Some win then do {
       let d = upd_lm (\<lambda>m. m\<lparr>lm_create_browser_window := None\<rparr>) d;
       if lm_mode (dk_lm d) = MODE_OVERVIEW then LayoutToplevelWindowsForOverviewMode C (-1) d else Some d }
     else Some d }"

definition unmap_transient ::
    "('x, 'c) layctx_scheme \<Rightarrow> xid \<Rightarrow> ('x, 'd) ldesk_scheme \<Rightarrow> ('x, 'd) ldesk_scheme option" where
  "unmap_transient C win d =
     (case GetToplevelWindowOwningTransientWindow win d of
        None \<Rightarrow> Some d
      | Some owner \<Rightarrow> do {
          w \<leftarrow> dk_windows d win;
          d \<leftarrow> RemoveTransientWindow C owner win d;
          let d = upd_lm (\<lambda>m. m\<lparr>lm_transient_to_toplevel := (lm_transient_to_toplevel m)(win := None)\<rparr>) d;
          if w_focused w then do {
            (timestamp, d) \<leftarrow> GetCurrentTimeFromServer C d;
            Toplevel_TakeFocus C owner timestamp d }
          else Some d })"

text \<open>After \<open>index\<close> a toplevel window has gone.\<close>

definition activate_another ::
    "('x, 'c) layctx_scheme \<Rightarrow> xid \<Rightarrow> int \<Rightarrow> ('x, 'd) ldesk_scheme \<Rightarrow> ('x, 'd) ldesk_scheme option" where
  "activate_another C win index d =
     (let n = int (length (lm_toplevels (dk_lm d)))
      in if lm_active (dk_lm d) \<noteq> None then Some d
         else if n \<noteq> 0 then do {
           new \<leftarrow> toplevel_at ((index + n - 1) mod n) d;
           SetActiveToplevelWindow C new STATE_ACTIVE_MODE_IN_FROM_LEFT STATE_ACTIVE_MODE_OUT_TO_RIGHT d }
         else do {
           w \<leftarrow> dk_windows d win;
           if w_focused w then wm_TakeFocus C (snd (SetActiveWindowProperty C XNone d)) else Some d })"

definition unmap_toplevel ::
    "('x, 'c) layctx_scheme \<Rightarrow> xid \<Rightarrow> tid \<Rightarrow> ('x, 'd) ldesk_scheme \<Rightarrow> ('x, 'd) ldesk_scheme option" where
  "unmap_toplevel C win tid d = do {
     d \<leftarrow> (if lm_magnified (dk_lm d) = Some tid then SetMagnifiedToplevelWindow C None d else Some d);
     let d = upd_lm (\<lambda>m. m\<lparr>lm_active := (if lm_active m = Some tid then None else lm_active m),
       lm_under_floating_tab := (if lm_under_floating_tab m = Some tid then None else lm_under_floating_tab m)\<rparr>) d;
     let index = GetIndexForToplevelWindow tid d;
     t \<leftarrow> get_top tid d;
     input \<leftarrow> map_erase (tl_input_xid t) (lm_input_to_toplevel (dk_lm d));
     let d = upd_lm (\<lambda>m. m\<lparr>lm_input_to_toplevel := input, lm_toplevels := erase_at (nat index) (lm_toplevels m)\<rparr>) d;
     d \<leftarrow> destroy_ToplevelWindow C tid d;
     case lm_mode (dk_lm d) of
       MODE_OVERVIEW \<Rightarrow> LayoutToplevelWindowsForOverviewMode C (-1) d
     | MODE_ACTIVE \<Rightarrow> activate_another C win index d }"

definition Layout_HandleWindowUnmap ::
    "('x, 'c) layctx_scheme \<Rightarrow> xid \<Rightarrow> ('x, 'd) ldesk_scheme \<Rightarrow> ('x, 'd) ldesk_scheme option" where
  "Layout_HandleWindowUnmap C win d = do {
     d \<leftarrow> unmap_special C win d;
     d \<leftarrow> unmap_transient C win d;
     toplevel \<leftarrow> GetToplevelWindowByWindow win d;
     case toplevel of None \<Rightarrow> Some d | Some tid \<Rightarrow> unmap_toplevel C win tid d }"

definition Layout_HandleWindowConfigureRequest ::
    "('x, 'c) wmctx_scheme \<Rightarrow> xid \<Rightarrow> int \<Rightarrow> int \<Rightarrow> int \<Rightarrow> int \<Rightarrow> ('x, 'd) ldesk_scheme \<Rightarrow> ('x, 'd) ldesk_scheme option" where
  "Layout_HandleWindowConfigureRequest C win req_x req_y req_width req_height d =
     (case GetToplevelWindowOwningTransientWindow win d of
        Some owner \<Rightarrow> HandleTransientWindowConfigureRequest C owner win req_x req_y req_width req_height d
      | None \<Rightarrow> do {
          toplevel \<leftarrow> GetToplevelWindowByWindow win d;
          case toplevel of
            None \<Rightarrow> Some d
          | Some tid \<Rightarrow> do {
              (t, w) \<leftarrow> top_win tid d;
              if req_width \<noteq> client_width w \<or> req_height \<noteq> client_height w
              then ask_to_do (tl_win t) (ResizeClient C req_width req_height GRAVITY_NORTHWEST) d else Some d } })"

section \<open>Events\<close>

text \<open>The toplevel window that a window is or belongs to.\<close>

definition toplevel_of :: "xid \<Rightarrow> ('x, 'd) ldesk_scheme \<Rightarrow> tid option option" where
  "toplevel_of win d =
     (case GetToplevelWindowOwningTransientWindow win d of
        Some tid \<Rightarrow> Some (Some tid)
      | None \<Rightarrow> GetToplevelWindowByWindow win d)"

definition Layout_HandleButtonPress ::
    "('x, 'c) layctx_scheme \<Rightarrow> xid \<Rightarrow> int \<Rightarrow> int \<Rightarrow> int \<Rightarrow> xtime \<Rightarrow> ('x, 'd) ldesk_scheme \<Rightarrow> ('x, 'd) ldesk_scheme option" where
  "Layout_HandleButtonPress C xid x x_root button timestamp d =
     (case GetToplevelWindowByInputXid xid d of
        Some tid \<Rightarrow>
          if button \<noteq> 1 \<or> lm_mode (dk_lm d) \<noteq> MODE_OVERVIEW then Some d
          else if FLAGS_lm_new_overview_mode C \<and> lm_magnified (dk_lm d) \<noteq> Some tid then do {
            d \<leftarrow> SetMagnifiedToplevelWindow C (Some tid) d;
            LayoutToplevelWindowsForOverviewMode C (max (x_root - lm_x (dk_lm d)) 0) d }
          else activate C (Some tid) d
      | None \<Rightarrow>
          if xid = lc_background_xid C \<and> button = 1 then
            (let d = upd_lm (\<lambda>m. m\<lparr>lm_drag_last_x := x\<rparr>) d
             in case start_coalescer C (lm_background_coalescer (dk_lm d)) d of
                  (co, d) \<Rightarrow> Some (upd_lm (\<lambda>m. m\<lparr>lm_background_coalescer := co\<rparr>) d))
          else if dk_windows d xid = None then Some d
          else do {
            toplevel \<leftarrow> toplevel_of xid d;
            case toplevel of None \<Rightarrow> Some d | Some tid \<Rightarrow> Toplevel_HandleButtonPress C tid xid timestamp d })"

definition Layout_HandleButtonRelease ::
    "('x, 'c) layctx_scheme \<Rightarrow> xid \<Rightarrow> int \<Rightarrow> ('x, 'd) ldesk_scheme \<Rightarrow> ('x, 'd) ldesk_scheme option" where
  "Layout_HandleButtonRelease C xid button d =
     (if xid \<noteq> lc_background_xid C \<or> button \<noteq> 1 then Some d
      else do {
        d \<leftarrow> background_coalesced C mc_Stop d;
        ConfigureWindowsForOverviewMode C False d })"

definition Layout_HandlePointerEnter ::
    "('x, 'c) layctx_scheme \<Rightarrow> xid \<Rightarrow> ('x, 'd) ldesk_scheme \<Rightarrow> ('x, 'd) ldesk_scheme option" where
  "Layout_HandlePointerEnter C xid d =
     (case GetToplevelWindowByInputXid xid d of
        None \<Rightarrow> Some d
      | Some tid \<Rightarrow>
          if lm_mode (dk_lm d) \<noteq> MODE_OVERVIEW then Some d
          else if \<not> FLAGS_lm_new_overview_mode C \<and> lm_magnified (dk_lm d) \<noteq> Some tid then do {
            d \<leftarrow> SetMagnifiedToplevelWindow C (Some tid) d;
            d \<leftarrow> LayoutToplevelWindowsForOverviewMode C (-1) d;
            SendTabSummaryMessage C (Some tid) True d }
          else Some d)"

definition Layout_HandlePointerMotion ::
    "('x, 'c) layctx_scheme \<Rightarrow> xid \<Rightarrow> int \<Rightarrow> int \<Rightarrow> ('x, 'd) ldesk_scheme \<Rightarrow> ('x, 'd) ldesk_scheme option" where
  "Layout_HandlePointerMotion C xid x y d =
     (if xid = lc_background_xid C then background_coalesced C (StorePosition x y) d else Some d)"

definition Layout_HandleFocusChange ::
    "('x, 'c) deskctx_scheme \<Rightarrow> xid \<Rightarrow> bool \<Rightarrow> ('x, 'd) ldesk_scheme \<Rightarrow> ('x, 'd) ldesk_scheme option" where
  "Layout_HandleFocusChange C xid focus_in d =
     (if dk_windows d xid = None then Some d
      else do {
        toplevel \<leftarrow> toplevel_of xid d;
        case toplevel of
          None \<Rightarrow> Some d
        | Some tid \<Rightarrow> do {
            d \<leftarrow> Toplevel_HandleFocusChange C xid focus_in d;
            Some (if focus_in then snd (SetActiveWindowProperty C xid d) else d) } })"

definition switch_to_overview_message ::
    "('x, 'c) layctx_scheme \<Rightarrow> xid \<Rightarrow> ('x, 'd) ldesk_scheme \<Rightarrow> ('x, 'd) ldesk_scheme option" where
  "switch_to_overview_message C xid d = do {
     d \<leftarrow> SetMode C MODE_OVERVIEW d;
     toplevel \<leftarrow> GetToplevelWindowByXid xid d;
     case toplevel of
       None \<Rightarrow> Some d
     | Some tid \<Rightarrow> do {
         d \<leftarrow> SetMagnifiedToplevelWindow C (Some tid) d;
         if \<not> FLAGS_lm_new_overview_mode C then SendTabSummaryMessage C (Some tid) True d else Some d } }"

definition Layout_HandleChromeMessage ::
    "('x, 'c) layctx_scheme \<Rightarrow> message \<Rightarrow> ('x, 'd) ldesk_scheme \<Rightarrow> ('x, 'd) ldesk_scheme option" where
  "Layout_HandleChromeMessage C msg d =
     (if msg_type msg = WM_MOVE_FLOATING_TAB then do {
        xid \<leftarrow> param 0 msg;
        x \<leftarrow> param 1 msg;
        y \<leftarrow> param 2 msg;
        if lm_floating_tab (dk_lm d) \<noteq> Some (to_xid xid) then Some d else tab_coalesced C (StorePosition x y) d }
      else if msg_type msg = WM_SWITCH_TO_OVERVIEW_MODE then do {
        xid \<leftarrow> param 0 msg;
        switch_to_overview_message C (to_xid xid) d }
      else Some d)"

text \<open>\<open>data\<close> are the five numbers of the message.\<close>

definition Layout_HandleClientMessage ::
    "('x, 'c) layctx_scheme \<Rightarrow> xid \<Rightarrow> xatom \<Rightarrow> int list \<Rightarrow> ('x, 'd) ldesk_scheme \<Rightarrow> ('x, 'd) ldesk_scheme option" where
  "Layout_HandleClientMessage C xid message_type data d =
     (if dk_windows d xid = None then Some d
      else if message_type = wm_atom C ATOM_NET_WM_STATE then ask_to_do xid (HandleWmStateMessage C data) d
      else if message_type \<noteq> wm_atom C ATOM_NET_ACTIVE_WINDOW then Some d
      else do {
        toplevel \<leftarrow> toplevel_of xid d;
        d \<leftarrow> (case GetToplevelWindowOwningTransientWindow xid d of
               Some tid \<Rightarrow> SetPreferredTransientWindowToFocus tid (Some xid) d
             | None \<Rightarrow> Some d);
        case toplevel of
          None \<Rightarrow> Some d
        | Some tid \<Rightarrow>
            if lm_mode (dk_lm d) = MODE_ACTIVE then
              (if lm_active (dk_lm d) \<noteq> Some tid
               then SetActiveToplevelWindow C tid STATE_ACTIVE_MODE_IN_FADE STATE_ACTIVE_MODE_OUT_FADE d
               else Toplevel_TakeFocus C tid (to_xid (data ! 1)) d)
            else activate C (Some tid) d })"

section \<open>Construction and destruction\<close>

fun add_actions :: "string list \<Rightarrow> key_bindings \<Rightarrow> key_bindings option" where
  "add_actions [] k = Some k"
| "add_actions (name # names) k = do { (_, k) \<leftarrow> AddAction name True False False k; add_actions names k }"

fun remove_named_actions :: "('x, 'c) layctx_scheme \<Rightarrow> string list \<Rightarrow> key_bindings \<Rightarrow> key_bindings option" where
  "remove_named_actions C [] k = Some k"
| "remove_named_actions C (name # names) k = do { (_, k) \<leftarrow> RemoveAction (lc_keycode C) name k; remove_named_actions C names k }"

definition empty_layout :: "coalescer \<Rightarrow> coalescer \<Rightarrow> registrar \<Rightarrow> int \<Rightarrow> int \<Rightarrow> bool \<Rightarrow> layout_manager" where
  "empty_layout tab_co background_co r x y gradient =
     \<lparr>lm_mode = MODE_ACTIVE, lm_x = x, lm_y = y, lm_width = -1, lm_height = -1, lm_overview_height = -1, lm_tops = (\<lambda>_. None),
      lm_toplevels = [], lm_input_to_toplevel = (\<lambda>_. None), lm_transient_to_toplevel = (\<lambda>_. None), lm_magnified = None,
      lm_active = None, lm_floating_tab = None, lm_under_floating_tab = None, lm_tab_summary = None,
      lm_create_browser_window = None, lm_panning_offset = 0, lm_floating_tab_coalescer = tab_co,
      lm_background_coalescer = background_co, lm_drag_last_x = -1,
      lm_metrics = \<lparr>overview_by_keystroke_count = 0, overview_exit_by_mouse_count = 0, overview_exit_by_keystroke_count = 0,
        window_cycle_by_keystroke_count = 0\<rparr>,
      lm_saw_map_request = False, lm_registrar = r, lm_static_gradient = gradient\<rparr>"

definition new_LayoutManager ::
    "('x, 'c) layctx_scheme \<Rightarrow> int \<Rightarrow> int \<Rightarrow> int \<Rightarrow> int \<Rightarrow> ('x, 'd) ldesk_scheme \<Rightarrow> ('x, 'd) ldesk_scheme option" where
  "new_LayoutManager C x y width height d = do {
     tab_co \<leftarrow> new_MotionEventCoalescer kFloatingTabUpdateMs;
     background_co \<leftarrow> new_MotionEventCoalescer kOverviewDragUpdateMs;
     let (r, m) = fold RegisterForChromeMessages [WM_MOVE_FLOATING_TAB, WM_SWITCH_TO_OVERVIEW_MODE]
                    (new_EventConsumerRegistrar (lc_layout_manager C), dk_consumers d);
     let d = d\<lparr>dk_consumers := m, dk_lm := empty_layout tab_co background_co r x y (lm_static_gradient (dk_lm d))\<rparr>;
     d \<leftarrow> MoveAndResize C x y width height d;
     let d = (if FLAGS_lm_new_overview_mode C then
                (let mask = ButtonPressMask + ButtonReleaseMask + PointerMotionMask;
                     d = do_request C (AddButtonGrabOnWindow (lc_background_xid C) 1 mask False) d;
                     (r, m) = RegisterForWindowEvents (lc_background_xid C) (lm_registrar (dk_lm d), dk_consumers d)
                 in upd_lm (\<lambda>l. l\<lparr>lm_registrar := r\<rparr>) (d\<lparr>dk_consumers := m\<rparr>))
              else d);
     d \<leftarrow> on_keys (add_actions (map fst layout_actions)) d;
     SetMode C MODE_ACTIVE d }"

fun destroy_toplevels :: "('x, 'c) layctx_scheme \<Rightarrow> tid list \<Rightarrow> ('x, 'd) ldesk_scheme \<Rightarrow> ('x, 'd) ldesk_scheme option" where
  "destroy_toplevels C [] d = Some d"
| "destroy_toplevels C (tid # tids) d = do { d \<leftarrow> destroy_ToplevelWindow C tid d; destroy_toplevels C tids d }"

definition removed_actions :: "string list" where
  "removed_actions =
     [''switch-to-overview-mode'', ''switch-to-active-mode'', ''cycle-active-forward'', ''cycle-active-backward'',
      ''cycle-magnification-forward'', ''cycle-magnification-backward'', ''switch-to-active-mode-for-magnified'',
      ''delete-active-window'', ''pan-overview-mode-left'', ''pan-overview-mode-right'']"

definition destroy_LayoutManager :: "('x, 'c) layctx_scheme \<Rightarrow> ('x, 'd) ldesk_scheme \<Rightarrow> ('x, 'd) ldesk_scheme option" where
  "destroy_LayoutManager C d = do {
     let d = (if FLAGS_lm_new_overview_mode C then do_request C (RemoveButtonGrabOnWindow (lc_background_xid C) 1) d else d);
     d \<leftarrow> on_keys (remove_named_actions C removed_actions) d;
     d \<leftarrow> destroy_toplevels C (lm_toplevels (dk_lm d)) (upd_lm (\<lambda>m. m\<lparr>lm_toplevels := []\<rparr>) d);
     let d = upd_lm (\<lambda>m. m\<lparr>lm_magnified := None, lm_active := None, lm_floating_tab := None, lm_under_floating_tab := None,
       lm_tab_summary := None\<rparr>) d;
     let m = destroy_EventConsumerRegistrar (lm_registrar (dk_lm d), dk_consumers d);
     Some (upd_lm (\<lambda>l. l\<lparr>lm_background_coalescer := destroy_MotionEventCoalescer (lm_background_coalescer l),
       lm_floating_tab_coalescer := destroy_MotionEventCoalescer (lm_floating_tab_coalescer l)\<rparr>) (d\<lparr>dk_consumers := m\<rparr>)) }"

section \<open>Metrics\<close>

text \<open>\<open>LayoutManager::Metrics::Reset\<close>, which the reporter of metrics calls. The code never increments the counters.\<close>

definition Metrics_Reset :: "lm_metrics \<Rightarrow> lm_metrics" where
  "Metrics_Reset m =
     m\<lparr>overview_by_keystroke_count := 0, overview_exit_by_mouse_count := 0, overview_exit_by_keystroke_count := 0,
       window_cycle_by_keystroke_count := 0\<rparr>"

end
