(* ===== verification/WM_PanelManager_Props.thy ===== *)
theory WM_PanelManager_Props
  imports WM_PanelManager "HOL-Library.Multiset"
begin

text \<open>
  The contract of \<open>PanelContainer\<close>, as a locale that the bar and the docks fulfil, and the invariant of
  \<open>PanelManager\<close> that rests on it: in every state that the panel manager reaches, each container holds exactly the panels that
  \<open>containers_by_panel_\<close> gives to it, each once.
\<close>

section \<open>What holds after an operation\<close>

text \<open>
  \<open>ens Q m\<close>: when \<open>m\<close> returns, its result has the property \<open>Q\<close>. The rules follow the structure of a method; \<open>ens_step\<close> and
  \<open>ens_pair\<close> use a fact about a method that is called, and \<open>ens_any\<close> forgets about a result.
\<close>

definition ens :: "('a \<Rightarrow> bool) \<Rightarrow> 'a option \<Rightarrow> bool" where
  "ens Q m \<longleftrightarrow> (\<forall>x. m = Some x \<longrightarrow> Q x)"

lemma ensD: "ens Q m \<Longrightarrow> m = Some x \<Longrightarrow> Q x"
  by (simp add: ens_def)

lemma ens_bind: "ens (\<lambda>x. ens Q (f x)) m \<Longrightarrow> ens Q (m \<bind> f)"
  by (cases m) (simp_all add: ens_def)

lemma ens_Some: "Q x \<Longrightarrow> ens Q (Some x)"
  by (simp add: ens_def)

lemma ens_None: "ens Q None"
  by (simp add: ens_def)

lemma ens_if: "(b \<Longrightarrow> ens Q m) \<Longrightarrow> (\<not> b \<Longrightarrow> ens Q n) \<Longrightarrow> ens Q (if b then m else n)"
  by simp

lemma ens_option:
  "(x = None \<Longrightarrow> ens Q n) \<Longrightarrow> (\<And>y. x = Some y \<Longrightarrow> ens Q (f y)) \<Longrightarrow> ens Q (case x of None \<Rightarrow> n | Some y \<Rightarrow> f y)"
  by (cases x) simp_all

lemma ens_prod: "(\<And>a b. x = (a, b) \<Longrightarrow> ens Q (f a b)) \<Longrightarrow> ens Q (case x of (a, b) \<Rightarrow> f a b)"
  by (cases x) simp

lemma ens_container:
  "(c = BarContainer \<Longrightarrow> ens Q m) \<Longrightarrow> (\<And>t. c = DockContainer t \<Longrightarrow> ens Q (f t)) \<Longrightarrow>
     ens Q (case c of BarContainer \<Rightarrow> m | DockContainer t \<Rightarrow> f t)"
  by (cases c) simp_all

lemmas ens_intros = ens_bind ens_if ens_option ens_prod ens_container ens_Some ens_None

lemma ens_step: "(\<And>x. m = Some x \<Longrightarrow> P x) \<Longrightarrow> (\<And>x. P x \<Longrightarrow> Q x) \<Longrightarrow> ens Q m"
  by (simp add: ens_def)

lemma ens_pair: "(\<And>r d. m = Some (r, d) \<Longrightarrow> P d) \<Longrightarrow> (\<And>r d. P d \<Longrightarrow> Q (r, d)) \<Longrightarrow> ens Q m"
  by (auto simp: ens_def)

lemma ens_any: "(\<And>x. Q x) \<Longrightarrow> ens Q m"
  by (simp add: ens_def)

section \<open>The view of the containers\<close>

named_theorems cview_rules \<open>operations that keep the view of the containers\<close>

text \<open>The windows of the panels.\<close>

definition wview :: "('x, 'd) pdesk_scheme \<Rightarrow> pid \<Rightarrow> (xid \<times> xid) option" where
  "wview d = (\<lambda>p. map_option (\<lambda>p. (pn_content p, pn_titlebar p)) (dk_panels d p))"

text \<open>The panels of the bar, with everything that the bar cannot change.\<close>

definition bview :: "('x, 'd) bdesk_scheme \<Rightarrow> (pid \<Rightarrow> (xid \<times> xid) option) \<times> pid multiset \<times> 'd" where
  "bview d = (wview d, mset (bar_panels (dk_bar d)), bdesk.more d)"

definition panels_in :: "container \<Rightarrow> ('x, 'd) ddesk_scheme \<Rightarrow> pid multiset" where
  "panels_in c d = (case c of BarContainer \<Rightarrow> mset (bar_panels (dk_bar d)) | DockContainer t \<Rightarrow> mset (dock_panels (dk_dock d t)))"

text \<open>The panels of all containers, and what the panel manager knows of them.\<close>

definition cview :: "('x, 'd) mdesk_scheme \<Rightarrow>
    (pid \<Rightarrow> (xid \<times> xid) option) \<times> (container \<Rightarrow> pid multiset) \<times> (pid \<Rightarrow> container option)" where
  "cview d = (wview d, (\<lambda>c. panels_in c d), pm_containers_by_panel (dk_pm d))"

lemma kview_bview: "kview d' = kview d \<Longrightarrow> bview d' = bview (d :: ('x, 'd) bdesk_scheme)"
  by (cases d; cases d') (simp add: kview_def bview_def wview_def)

lemma bview_cview: "bview d' = bview d \<Longrightarrow> cview d' = cview (d :: ('x, 'd) mdesk_scheme)"
  by (cases d; cases d') (auto simp: bview_def cview_def panels_in_def fun_eq_iff wview_def split: container.splits)

lemma bview_keeps [simp]:
  "bview (on_env f d) = bview d" "bview (do_request C r d) = bview d" "bview (snd (ConfigureInputWindow C xid x y w h d)) = bview d"
  "bview (do_requests C rs d) = bview d" "bview (snd (SetActiveWindowProperty C' xid d)) = bview d"
  by (rule kview_bview, simp)+

lemma bview_SetActiveWindowProperty: "SetActiveWindowProperty C xid d = (ok, d') \<Longrightarrow> bview d' = bview d"
  using bview_keeps(5)[of C xid d] by simp

lemma bview_add_timeout: "add_timeout C d = (n, d') \<Longrightarrow> bview d' = bview d"
  by (rule kview_bview) (rule kview_add_timeout)

lemma bview_upd_bar:
  assumes "\<And>b. mset (bar_panels (f b)) = mset (bar_panels b)"
  shows "bview (upd_bar f d) = bview d"
  using assms by (cases d) (simp add: upd_bar_def bview_def wview_def)

named_theorems bview_rules \<open>operations that keep the view of the bar\<close>

lemmas kview_bview_rules = kview_rules[THEN kview_bview]

section \<open>The bar\<close>

lemma bview_ConfigureShow [simp]: "bview (ConfigureShowCollapsedPanelsInputWindow C b d) = bview d"
  by (simp add: ConfigureShowCollapsedPanelsInputWindow_def Let_def)

lemma bview_StartHide [simp]: "bview (StartHideCollapsedPanelsWatcher C d) = bview d"
  by (auto simp: StartHideCollapsedPanelsWatcher_def bview_upd_bar split: prod.splits dest: bview_add_timeout)

lemma bview_move_collapsed [bview_rules]: "move_collapsed_panels C pids d = Some d' \<Longrightarrow> bview d' = bview d"
  by (induction pids arbitrary: d) (auto simp: bind_eq_Some_iff split: if_splits dest!: kview_bview_rules)

lemma bview_ShowHide [bview_rules]:
  "ShowCollapsedPanels C d = Some d' \<Longrightarrow> bview d' = bview d"
  "HideCollapsedPanels C' d = Some d' \<Longrightarrow> bview d' = bview d"
  by (auto simp: ShowCollapsedPanels_def HideCollapsedPanels_def DisableShowCollapsedPanelsTimer_def bind_eq_Some_iff Let_def bview_upd_bar
      split: if_splits dest!: bview_rules)

lemma bview_pack_panels [bview_rules]: "pack_panels C fixed pids d = Some d' \<Longrightarrow> bview d' = bview d"
  by (induction pids arbitrary: d)
    (auto simp: bind_eq_Some_iff Let_def bview_upd_bar split: if_splits dest!: kview_bview_rules)

lemma bview_PackPanels [bview_rules]: "PackPanels C fixed d = Some d' \<Longrightarrow> bview d' = bview d"
  by (auto simp: PackPanels_def bview_upd_bar dest!: bview_pack_panels)

lemma mset_rotate_range: "a \<le> b \<Longrightarrow> b \<le> c \<Longrightarrow> mset (rotate_range a b c xs) = mset xs"
proof -
  assume "a \<le> b" "b \<le> c"
  then have "take a xs @ drop a (take b xs) = take b xs" "take b xs @ drop b (take c xs) = take c xs"
    by (metis append_take_drop_id min.absorb1 take_take)+
  then have "mset xs = mset (take a xs) + mset (drop a (take b xs)) + mset (drop b (take c xs)) + mset (drop c xs)"
    by (metis append_take_drop_id mset_append)
  then show ?thesis by (simp add: rotate_range_def ac_simps)
qed

lemma bview_ReorderPanel [bview_rules]: "ReorderPanel C pid d = Some d' \<Longrightarrow> bview d' = bview d"
  by (auto simp: ReorderPanel_def bind_eq_Some_iff Let_def bview_upd_bar mset_rotate_range split: if_splits dest!: bview_PackPanels)

lemma bview_Anchor [simp]: "bview (CreateAnchor C pid d) = bview d" "bview (DestroyAnchor C' d) = bview d"
  by (auto simp: CreateAnchor_def DestroyAnchor_def Let_def bview_upd_bar split: prod.splits dest!: bview_add_timeout)

lemma bview_FocusPanel [bview_rules]: "Bar_FocusPanel C pid b ts d = Some d' \<Longrightarrow> bview d' = bview d"
  by (auto simp: Bar_FocusPanel_def bind_eq_Some_iff bview_upd_bar case_prod_unfold dest!: kview_bview_rules)

lemma bview_TakeFocus [bview_rules]: "Bar_TakeFocus C d = Some (ok, d') \<Longrightarrow> bview d' = bview d"
  by (auto simp: Bar_TakeFocus_def bind_eq_Some_iff split: option.splits dest!: bview_FocusPanel kview_bview_rules)

lemma bview_ExpandPanel [bview_rules]: "Bar_ExpandPanel C pid anchor ms d = Some d' \<Longrightarrow> bview d' = bview d"
  by (auto simp: Bar_ExpandPanel_def bind_eq_Some_iff Let_def split: if_splits dest!: kview_bview_rules)

text \<open>A method of the layout manager keeps a view that the bar's other operations keep, too.\<close>

definition keeps :: "(('x, 'd) bdesk_scheme \<Rightarrow> 'v) \<Rightarrow> (('x, 'd) bdesk_scheme \<Rightarrow> (bool \<times> ('x, 'd) bdesk_scheme) option) \<Rightarrow> bool" where
  "keeps V layout \<longleftrightarrow> (\<forall>d d'. bview d' = bview d \<longrightarrow> V d' = V d) \<and> (\<forall>d ok d'. layout d = Some (ok, d') \<longrightarrow> V d' = V d)"

lemma keepsD: "bview d' = bview d \<Longrightarrow> keeps V layout \<Longrightarrow> V d' = V d" "layout d = Some (ok, d') \<Longrightarrow> keeps V layout \<Longrightarrow> V d' = V d"
  unfolding keeps_def by blast+

lemmas bview_simps = bview_keeps bview_upd_bar bview_ConfigureShow bview_StartHide bview_Anchor

lemma ens_WindowManager_TakeFocus:
  assumes "keeps V layout"
  shows "ens (\<lambda>d'. V d' = V d) (WindowManager_TakeFocus C layout d)"
proof -
  note K = keepsD(1)[OF _ assms]
  show ?thesis
    unfolding WindowManager_TakeFocus_def
    by (intro ens_intros | (rule ens_pair, erule keepsD(2)[OF _ assms] bview_TakeFocus[THEN K]) | simp add: bview_simps[THEN K])+
qed

lemma ens_CollapsePanel:
  assumes "keeps V layout"
  shows "ens (\<lambda>d'. V d' = V d) (Bar_CollapsePanel C layout pid ms d)"
proof -
  note K = keepsD(1)[OF _ assms]
  show ?thesis
    unfolding Bar_CollapsePanel_def Let_def
    by (intro ens_intros
        | (rule ens_step, erule kview_bview_rules[THEN K] bview_rules[THEN K] ensD[OF ens_WindowManager_TakeFocus[OF assms]])
        | (rule ens_pair, erule kview_bview_rules[THEN K] bview_rules[THEN K]) | rule ens_any
        | simp add: bview_simps[THEN K]
        | (drule bview_SetActiveWindowProperty[THEN K], simp add: bview_simps[THEN K]))+
qed

lemma ens_DragComplete:
  assumes "keeps V layout"
  shows "ens (\<lambda>d'. V d' = V d) (Bar_HandlePanelDragComplete C layout pid d)"
proof -
  note K = keepsD(1)[OF _ assms]
  show ?thesis
    unfolding Bar_HandlePanelDragComplete_def Let_def
    by (intro ens_intros
        | (rule ens_step, erule kview_bview_rules[THEN K] bview_rules[THEN K] ensD[OF ens_CollapsePanel[OF assms]])
        | (rule ens_pair, erule kview_bview_rules[THEN K]) | rule ens_any
        | simp add: bview_simps[THEN K])+
qed

lemma ens_Dragged:
  assumes "keeps V layout"
  shows "ens (\<lambda>(ok, d'). V d' = V d) (Bar_HandleNotifyPanelDraggedMessage C layout pid x y d)"
proof -
  note K = keepsD(1)[OF _ assms]
  show ?thesis
    unfolding Bar_HandleNotifyPanelDraggedMessage_def Let_def
    by (intro ens_intros
        | (rule ens_step, erule kview_bview_rules[THEN K] bview_rules[THEN K] ensD[OF ens_DragComplete[OF assms]])
        | (rule ens_pair, erule kview_bview_rules[THEN K]) | rule ens_any
        | simp add: bview_simps[THEN K])+
qed

lemma ens_bar_layout_events:
  assumes "keeps V layout"
  shows "ens (\<lambda>d'. V d' = V d) (Bar_HandleInputWindowButtonPress C layout xid n d)"
    "ens (\<lambda>d'. V d' = V d) (Bar_HandleSetPanelStateMessage C' layout pid b d)"
proof -
  note K = keepsD(1)[OF _ assms]
  show "ens (\<lambda>d'. V d' = V d) (Bar_HandleInputWindowButtonPress C layout xid n d)"
    "ens (\<lambda>d'. V d' = V d) (Bar_HandleSetPanelStateMessage C' layout pid b d)"
    unfolding Bar_HandleInputWindowButtonPress_def Bar_HandleSetPanelStateMessage_def Let_def
    by (intro ens_intros | (rule ens_step, erule bview_rules[THEN K] ensD[OF ens_CollapsePanel[OF assms]])
        | rule ens_any | simp add: bview_simps[THEN K])+
qed

lemma bview_bar_events [bview_rules]:
  "Bar_HandleInputWindowPointerEnter C2 xid x d = Some d' \<Longrightarrow> bview d' = bview d"
  "Bar_HandlePanelButtonPress C3 pid ts d = Some d' \<Longrightarrow> bview d' = bview d"
  "Bar_HandlePanelTitlebarPointerEnter C4 pid d = Some d' \<Longrightarrow> bview d' = bview d"
  "Bar_HandlePanelFocusChange C5 pid b d = Some d' \<Longrightarrow> bview d' = bview d"
  "Bar_HandleFocusPanelMessage C7 pid d = Some d' \<Longrightarrow> bview d' = bview d"
  "Bar_HandlePanelResize C8 pid d = Some d' \<Longrightarrow> bview d' = bview d"
  by (auto simp: Bar_HandleInputWindowPointerEnter_def Bar_HandlePanelButtonPress_def
      Bar_HandlePanelTitlebarPointerEnter_def Bar_HandlePanelFocusChange_def
      Bar_HandleFocusPanelMessage_def Bar_HandlePanelResize_def bind_eq_Some_iff Let_def bview_upd_bar
      split: if_splits option.splits prod.splits dest!: kview_bview_rules bview_rules bview_add_timeout)

lemma bview_PointerLeave [simp]: "bview (Bar_HandleInputWindowPointerLeave xid d) = bview d"
  by (simp add: Bar_HandleInputWindowPointerLeave_def DisableShowCollapsedPanelsTimer_def bview_upd_bar)

lemma bview_move_panels_y [bview_rules]: "move_panels_y C pids d = Some d' \<Longrightarrow> bview d' = bview d"
  by (induction pids arbitrary: d) (auto simp: bind_eq_Some_iff dest!: kview_bview_rules)

lemma bview_screen [bview_rules]:
  "Bar_HandleScreenResize C1 d = Some d' \<Longrightarrow> bview d' = bview d"
  "Bar_HandlePanelUrgencyChange C2 pid d = Some d' \<Longrightarrow> bview d' = bview d"
  by (auto simp: Bar_HandleScreenResize_def Bar_HandlePanelUrgencyChange_def bind_eq_Some_iff Let_def bview_upd_bar
      split: if_splits option.splits dest!: kview_bview_rules bview_rules)

lemma ens_source:
  "ens Q a \<Longrightarrow> ens Q b \<Longrightarrow> ens Q c \<Longrightarrow>
     ens Q (case s of PANEL_SOURCE_NEW \<Rightarrow> a | PANEL_SOURCE_DRAGGED \<Rightarrow> b | PANEL_SOURCE_DROPPED \<Rightarrow> c)"
  by (cases s) simp_all

lemma bview_upd_bar_add:
  "(\<And>b. bar_panels (f b) = pid # bar_panels b) \<Longrightarrow>
     bview (upd_bar f d) = apsnd (apfst (add_mset pid)) (bview d)"
  by (cases d) (simp add: upd_bar_def bview_def wview_def)

lemma ens_Bar_AddPanel: "ens (\<lambda>d'. bview d' = apsnd (apfst (add_mset pid)) (bview d)) (Bar_AddPanel C pid source d)"
  unfolding Bar_AddPanel_def Let_def
  by (intro ens_intros ens_source | (rule ens_step, erule kview_bview_rules bview_rules)
      | (rule ens_pair, erule kview_bview_rules bview_rules) | rule ens_any
      | simp add: bview_upd_bar bview_upd_bar_add)+

definition wins_ok :: "(pid \<Rightarrow> (xid \<times> xid) option) \<Rightarrow> bool" where
  "wins_ok w \<longleftrightarrow> (\<forall>p q a b a' b'. w p = Some (a, b) \<longrightarrow> w q = Some (a', b') \<longrightarrow> {a, b} \<inter> {a', b'} \<noteq> {} \<longrightarrow> p = q)"

lemma FindPanel_found:
  "FindPanelInVectorByWindow ps pids win = Some (Some i) \<Longrightarrow>
     i < length pids \<and> (\<exists>p. ps (pids ! i) = Some p \<and> (pn_titlebar p = win \<or> pn_content p = win))"
  by (induction pids arbitrary: i) (auto simp: bind_eq_Some_iff split: if_splits)

lemma FindPanel_not_found:
  "FindPanelInVectorByWindow ps pids win = Some None \<Longrightarrow> pid \<in> set pids \<Longrightarrow> ps pid = Some p \<Longrightarrow> pn_content p \<noteq> win"
  by (induction pids) (auto simp: bind_eq_Some_iff split: if_splits)

lemma mset_erase_at: "i < length xs \<Longrightarrow> mset (erase_at i xs) = mset xs - {#xs ! i#}"
  unfolding erase_at_def by (metis add_mset_remove_trivial id_take_nth_drop mset.simps(2) mset_append union_mset_add_mset_right)

text \<open>The panels and their order in the bar.\<close>

definition sview :: "('x, 'd) bdesk_scheme \<Rightarrow> (pid \<Rightarrow> panel option) \<times> pid list \<times> 'd" where
  "sview d = (dk_panels d, bar_panels (dk_bar d), bdesk.more d)"

lemma sview_keeps [simp]: "sview (do_request C r d) = sview d" "sview (on_env f d) = sview d"
  by (cases d; simp add: sview_def do_request_def desk_request_def on_env_def split: prod.splits)+

lemma sview_upd_bar: "(\<And>b. bar_panels (f b) = bar_panels b) \<Longrightarrow> sview (upd_bar f d) = sview d"
  by (cases d) (simp add: upd_bar_def sview_def)

lemma sview_DestroyAnchor [simp]: "sview (DestroyAnchor C d) = sview d"
  by (simp add: DestroyAnchor_def Let_def sview_upd_bar)

lemma sview_bview: "sview d' = sview d \<Longrightarrow> bview d' = bview d"
  by (simp add: sview_def bview_def wview_def)

lemma bview_erase:
  assumes "wins_ok (wview d)" "dk_panels d pid = Some p" "sview d0 = sview d"
    and "FindPanelInVectorByWindow (dk_panels d0) (bar_panels (dk_bar d0)) (pn_content p) = Some (Some i)"
    and "\<And>b. bar_panels (f b) = erase_at i (bar_panels b)"
  shows "bview (upd_bar f d0) = apsnd (apfst (\<lambda>m. m - {#pid#})) (bview d)"
proof -
  from FindPanel_found[OF assms(4)] obtain q where i: "i < length (bar_panels (dk_bar d))"
    and q: "dk_panels d (bar_panels (dk_bar d) ! i) = Some q" "pn_titlebar q = pn_content p \<or> pn_content q = pn_content p"
    using assms(3) by (auto simp: sview_def)
  have "bar_panels (dk_bar d) ! i = pid"
    using assms(1)[unfolded wins_ok_def, rule_format, of "bar_panels (dk_bar d) ! i" "pn_content q" "pn_titlebar q" pid "pn_content p" "pn_titlebar p"]
      q assms(2) by (auto simp: wview_def)
  with mset_erase_at[OF i] assms show ?thesis
    by (cases d; cases d0) (simp add: upd_bar_def bview_def wview_def sview_def)
qed

lemma bview_not_found:
  assumes "dk_panels d pid = Some p" "sview d0 = sview d"
    and "FindPanelInVectorByWindow (dk_panels d0) (bar_panels (dk_bar d0)) (pn_content p) = Some None"
  shows "bview d0 = apsnd (apfst (\<lambda>m. m - {#pid#})) (bview d)"
proof -
  have "pid \<notin> set (bar_panels (dk_bar d))" using FindPanel_not_found[OF assms(3)] assms(1,2) by (auto simp: sview_def)
  then have "mset (bar_panels (dk_bar d)) - {#pid#} = mset (bar_panels (dk_bar d))" by (simp add: diff_single_trivial)
  with sview_bview[OF assms(2)] show ?thesis by (simp add: bview_def)
qed

lemma ens_read: "(\<And>x. m = Some x \<Longrightarrow> Q x) \<Longrightarrow> ens Q m"
  by (simp add: ens_def)

text \<open>The steps before the panel is looked up in the vector.\<close>

lemma remove_first_steps:
  "ens (\<lambda>d'. sview d' = sview d) (let d = (if anchor_panel (dk_bar d) = Some pid then DestroyAnchor C d else d);
       d = (if dragged_panel (dk_bar d) = Some pid then upd_bar (\<lambda>b. b\<lparr>dragged_panel := None\<rparr>) d else d)
     in if desired_panel_to_focus (dk_bar d) = Some pid then do {
          nearest \<leftarrow> GetNearestExpandedPanel (Some pid) d;
          Some (upd_bar (\<lambda>b. b\<lparr>desired_panel_to_focus := nearest\<rparr>) d) }
        else Some d)"
  unfolding Let_def by (intro ens_intros | rule ens_any | simp add: sview_upd_bar)+

lemma ens_Bar_RemovePanel:
  assumes "wins_ok (wview d)"
  shows "ens (\<lambda>d'. bview d' = apsnd (apfst (\<lambda>m. m - {#pid#})) (bview d)) (Bar_RemovePanel C pid d)"
proof -
  show ?thesis
    unfolding Bar_RemovePanel_def
    apply (rule ens_bind, rule ens_read)
    subgoal premises p for p
      unfolding Let_def
      apply (rule ens_bind, rule ens_step, rule ensD[OF remove_first_steps[of d pid C, unfolded Let_def]], assumption)
      subgoal premises d1 for d1
        apply (rule ens_bind, rule ens_any)
        apply (rule ens_bind, rule ens_read)
        subgoal premises it for u it
        proof (cases it)
          case None
          have "sview (upd_bar (\<lambda>b. b\<lparr>panel_infos := (panel_infos b)(pid := None)\<rparr>) d1) = sview d" using d1 by (simp add: sview_upd_bar)
          from bview_not_found[OF p this] it None show ?thesis by (auto intro!: ens_Some)
        next
          case (Some i)
          have "sview (upd_bar (\<lambda>b. b\<lparr>panel_infos := (panel_infos b)(pid := None)\<rparr>) d1) = sview d" using d1 by (simp add: sview_upd_bar)
          note e = bview_erase[OF assms p this it[unfolded Some]]
          show ?thesis
            unfolding Some option.case
            by (intro ens_intros | (rule ens_step, erule bview_rules) | rule ens_any | simp add: e)+
        qed
        done
      done
    done
qed

section \<open>The docks\<close>

lemma kview_dock_pack: "dock_pack C t s found h prev pids d = Some d' \<Longrightarrow> kview d' = kview d"
proof (induction pids arbitrary: found h prev d d')
  case (Cons pid pids)
  have "ens (\<lambda>d'. kview d' = kview d) (dock_pack C t s found h prev (pid # pids) d)"
    unfolding dock_pack.simps Let_def
    by (intro ens_intros | (rule ens_step, erule kview_rules Cons.IH) | rule ens_any | simp)+
  with Cons.prems show ?case by (simp add: ens_def)
qed simp

lemma kview_Dock_PackPanels [kview_rules]: "Dock_PackPanels C t s d = Some d' \<Longrightarrow> kview d' = kview d"
  by (auto simp: Dock_PackPanels_def Let_def bind_eq_Some_iff split: if_splits dest!: kview_dock_pack kview_panel_stack)

lemma kview_Dock_FocusPanel [kview_rules]: "Dock_FocusPanel C pid b ts d = Some d' \<Longrightarrow> kview d' = kview d"
  by (auto simp: Dock_FocusPanel_def bind_eq_Some_iff case_prod_unfold dest!: kview_panel_ops kview_ask_win)

lemma kview_cview: "kview d' = kview d \<Longrightarrow> cview d' = cview (d :: ('x, 'd) mdesk_scheme)"
  by (rule bview_cview, rule kview_bview)

lemmas kview_cview_rules = kview_rules[THEN kview_cview]

lemma cview_keeps [simp]:
  "cview (on_env f d) = cview d" "cview (do_request C r d) = cview d" "cview (snd (ConfigureInputWindow C xid x y w h d)) = cview d"
  by (rule kview_cview, simp)+

definition upd_c :: "container \<Rightarrow> (pid multiset \<Rightarrow> pid multiset) \<Rightarrow> 'w \<times> (container \<Rightarrow> pid multiset) \<times> 'm \<Rightarrow>
    'w \<times> (container \<Rightarrow> pid multiset) \<times> 'm" where
  "upd_c c g v = apsnd (apfst (\<lambda>ps. ps(c := g (ps c)))) v"

lemma bview_upd_c: "bview d' = apsnd (apfst g) (bview d) \<Longrightarrow> cview d' = upd_c BarContainer g (cview (d :: ('x, 'd) mdesk_scheme))"
  by (cases d; cases d') (auto simp: bview_def cview_def upd_c_def panels_in_def fun_eq_iff wview_def split: container.splits)

lemma cview_upd_dock:
  "mset (dock_panels (f (dk_dock d t))) = g (mset (dock_panels (dk_dock d t))) \<Longrightarrow> cview (upd_dock t f d) = upd_c (DockContainer t) g (cview d)"
  by (cases d) (auto simp: upd_dock_def cview_def upd_c_def panels_in_def wview_def fun_eq_iff split: container.splits)

lemma upd_c_id [simp]: "upd_c c (\<lambda>m. m) v = v"
  by (cases v) (simp add: upd_c_def)

lemma cview_upd_dock_same: "(\<And>k. dock_panels (f k) = dock_panels k) \<Longrightarrow> cview (upd_dock t f d) = cview d"
  using cview_upd_dock[of f d t "\<lambda>m. m"] by simp

lemma cview_on_dock_shadow [simp]: "cview (on_dock_shadow t f d) = cview d"
proof -
  have "cview (d\<lparr>dk_env := e\<rparr>) = cview d" for e using cview_keeps(1)[of "\<lambda>_. e" d] by (simp add: on_env_def)
  then show ?thesis by (simp add: on_dock_shadow_def cview_upd_dock_same split: prod.splits)
qed

lemma find_index_Some: "find_index x xs = Some i \<Longrightarrow> i < length xs \<and> xs ! i = x"
  by (induction xs arbitrary: i) (auto split: if_splits)

lemma ens_Dock_AddPanel:
  assumes "\<And>d d'. visibility t d = Some d' \<Longrightarrow> cview d' = cview d"
  shows "ens (\<lambda>d'. cview d' = upd_c (DockContainer t) (add_mset pid) (cview d)) (Dock_AddPanel C visibility t pid source d)"
  unfolding Dock_AddPanel_def Let_def
  by (intro ens_intros | (rule ens_step, erule kview_cview_rules assms)
      | (rule ens_pair, erule kview_cview_rules) | rule ens_any
      | simp add: cview_upd_dock_same cview_upd_dock[where g = "add_mset pid"])+

lemma ens_Dock_RemovePanel:
  assumes "\<And>d d'. visibility t d = Some d' \<Longrightarrow> cview d' = cview d"
  shows "ens (\<lambda>d'. cview d' = upd_c (DockContainer t) (\<lambda>m. m - {#pid#}) (cview d)) (Dock_RemovePanel C visibility t pid d)"
proof -
  let ?d = "if dock_dragged_panel (dk_dock d t) = Some pid then upd_dock t (\<lambda>k. k\<lparr>dock_dragged_panel := None\<rparr>) d else d"
  have v: "cview ?d = cview d" "dock_panels (dk_dock ?d t) = dock_panels (dk_dock d t)"
    by (simp_all add: cview_upd_dock_same) (simp add: upd_dock_def)
  have e: "cview (upd_dock t (\<lambda>k. k\<lparr>dock_panels := erase_at i (dock_panels k)\<rparr>) ?d) = upd_c (DockContainer t) (\<lambda>m. m - {#pid#}) (cview d)"
    if "find_index pid (dock_panels (dk_dock ?d t)) = Some i" for i
    using find_index_Some[OF that] mset_erase_at[of i "dock_panels (dk_dock ?d t)"] v(1)
    by (subst cview_upd_dock[where g = "\<lambda>m. m - {#pid#}"]) auto
  show ?thesis
    unfolding Dock_RemovePanel_def Let_def
    apply (rule ens_bind, rule ens_read, drule e)
    by (intro ens_intros | (rule ens_step, erule kview_cview_rules assms) | rule ens_any | simp)+
qed

lemma ens_Dock_events:
  assumes "keeps cview layout"
  shows "ens (\<lambda>d'. cview d' = cview d) (Dock_HandleSetPanelStateMessage C layout t pid b d)"
proof -
  have *: "ens (\<lambda>d'. cview d' = cview d) (Dock_CollapsePanel C layout t pid d)"
    unfolding Dock_CollapsePanel_def
    by (intro ens_intros | (rule ens_step, erule kview_cview_rules ensD[OF ens_WindowManager_TakeFocus[OF assms]])
        | (rule ens_pair, erule kview_cview_rules) | rule ens_any | simp)+
  show ?thesis
    unfolding Dock_HandleSetPanelStateMessage_def Dock_ExpandPanel_def
    by (intro ens_intros * | (rule ens_step, erule kview_cview_rules) | (rule ens_pair, erule kview_cview_rules) | rule ens_any | simp)+
qed

lemma ens_Dock_Dragged: "ens (\<lambda>(ok, d'). cview d' = cview d) (Dock_HandleNotifyPanelDraggedMessage C t pid x y d)"
  unfolding Dock_HandleNotifyPanelDraggedMessage_def Let_def
  by (intro ens_intros | (rule ens_step, erule kview_cview_rules) | rule ens_any | simp add: cview_upd_dock_same)+

lemma ens_ResizeContent:
  assumes "\<And>d d'. resized pid d = Some d' \<Longrightarrow> cview d' = cview d"
  shows "ens (\<lambda>d'. cview d' = cview d) (ResizeContent C resized pid w h g d)"
  unfolding ResizeContent_def Let_def
  by (intro ens_intros | (rule ens_step, erule kview_cview_rules assms) | (rule ens_pair, erule kview_cview_rules) | rule ens_any | simp)+

lemma ens_Dock_DragComplete:
  assumes "\<And>d d'. resized pid d = Some d' \<Longrightarrow> cview d' = cview d"
  shows "ens (\<lambda>d'. cview d' = cview d) (Dock_HandleNotifyPanelDragCompleteMessage C resized t pid d)"
proof -
  have R: "cview d' = cview d" if "ResizeContent C resized pid w h g d = Some d'" for w h g d d'
    using ensD[OF ens_ResizeContent[of resized pid d C w h g]] assms that by blast
  show ?thesis
    unfolding Dock_HandleNotifyPanelDragCompleteMessage_def Let_def
    by (intro ens_intros | (rule ens_step, erule kview_cview_rules R) | rule ens_any | simp add: cview_upd_dock_same)+
qed

lemma cview_dock_move [cview_rules]: "dock_move_panels_x C r pids d = Some d' \<Longrightarrow> cview d' = cview d"
  by (induction pids arbitrary: d) (auto simp: bind_eq_Some_iff dest!: kview_cview_rules)

lemma ens_Dock_ScreenResize: "ens (\<lambda>d'. cview d' = cview d) (Dock_HandleScreenResize C t d)"
  unfolding Dock_HandleScreenResize_def Let_def
  by (intro ens_intros | (rule ens_step, erule cview_rules) | simp add: cview_upd_dock_same)+

lemma ens_HandlePanelResize: "ens (\<lambda>d'. cview d' = cview d) (HandlePanelResize C pid d)"
  unfolding HandlePanelResize_def Container_HandlePanelResize_def
  by (intro ens_intros | (rule ens_step, erule bview_rules[THEN bview_cview]) | simp)+

lemmas cview_HandlePanelResize [cview_rules] = ensD[OF ens_HandlePanelResize]

end
