(* ===== verification/WM_PanelManager_Inv.thy ===== *)
theory WM_PanelManager_Inv
  imports WM_PanelManager_Props
begin

text \<open>
  The contract of \<open>PanelContainer\<close> as a locale, fulfilled by the bar and the docks, and the invariant of \<open>PanelManager\<close>: each
  container holds exactly the panels that \<open>containers_by_panel_\<close> gives to it, each of them once, after every event.
\<close>

section \<open>The invariant\<close>

definition consistent_view ::
    "(pid \<Rightarrow> (xid \<times> xid) option) \<times> (container \<Rightarrow> pid multiset) \<times> (pid \<Rightarrow> container option) \<Rightarrow> bool" where
  "consistent_view v = (case v of (w, ps, m) \<Rightarrow> wins_ok w \<and> (\<forall>c pid. count (ps c) pid = (if m pid = Some c then 1 else 0)))"

definition consistent :: "('x, 'd) mdesk_scheme \<Rightarrow> bool" where
  "consistent d = consistent_view (cview d)"

lemma consistent_cview: "cview d' = cview d \<Longrightarrow> consistent d' = consistent d"
  by (simp add: consistent_def)

lemma consistent_add:
  "consistent_view (w, ps, m) \<Longrightarrow> m pid = None \<Longrightarrow> consistent_view (upd_c c (add_mset pid) (w, ps, m(pid \<mapsto> c)))"
  by (simp add: consistent_view_def upd_c_def)

lemma consistent_remove:
  "consistent_view (w, ps, m) \<Longrightarrow> m pid = Some c \<Longrightarrow> consistent_view (upd_c c (\<lambda>m. m - {#pid#}) (w, ps, m(pid := None)))"
  by (auto simp: consistent_view_def upd_c_def)

lemma cview_upd_containers: "cview (upd_pm (\<lambda>m. m\<lparr>pm_containers_by_panel := f (pm_containers_by_panel (dk_pm d))\<rparr>) d) = apsnd (apsnd f) (cview d)"
  by (cases d) (auto simp: upd_pm_def cview_def wview_def panels_in_def fun_eq_iff split: container.splits)

lemma cview_upd_pm: "(\<And>m. pm_containers_by_panel (f m) = pm_containers_by_panel m) \<Longrightarrow> cview (upd_pm f d) = cview d"
  by (cases d) (simp add: upd_pm_def cview_def wview_def panels_in_def fun_eq_iff split: container.splits)

lemma ens_mono: "ens P m \<Longrightarrow> (\<And>x. P x \<Longrightarrow> Q x) \<Longrightarrow> ens Q m"
  by (simp add: ens_def)

section \<open>PanelContainer\<close>

locale panel_container =
  fixes c :: container
    and add :: "pid \<Rightarrow> PanelSource \<Rightarrow> ('x, 'd) mdesk_scheme \<Rightarrow> ('x, 'd) mdesk_scheme option"
    and remove :: "pid \<Rightarrow> ('x, 'd) mdesk_scheme \<Rightarrow> ('x, 'd) mdesk_scheme option"
    and dragged :: "pid \<Rightarrow> int \<Rightarrow> int \<Rightarrow> ('x, 'd) mdesk_scheme \<Rightarrow> (bool \<times> ('x, 'd) mdesk_scheme) option"
    and drag_complete :: "pid \<Rightarrow> ('x, 'd) mdesk_scheme \<Rightarrow> ('x, 'd) mdesk_scheme option"
  assumes add_law: "ens (\<lambda>d'. cview d' = upd_c c (add_mset pid) (cview d)) (add pid source d)"
    and remove_law: "wins_ok (wview d) \<Longrightarrow> ens (\<lambda>d'. cview d' = upd_c c (\<lambda>m. m - {#pid#}) (cview d)) (remove pid d)"
    and dragged_law: "ens (\<lambda>(ok, d'). cview d' = cview d) (dragged pid x y d)"
    and drag_complete_law: "ens (\<lambda>d'. cview d' = cview d) (drag_complete pid d)"
begin

lemma attach_consistent:
  assumes "consistent d" "pm_containers_by_panel (dk_pm d) pid = None"
  shows "ens consistent (add pid source (upd_pm (\<lambda>m. m\<lparr>pm_containers_by_panel := (pm_containers_by_panel (dk_pm d))(pid \<mapsto> c)\<rparr>) d))"
proof (rule ens_mono[OF add_law])
  let ?d = "upd_pm (\<lambda>m. m\<lparr>pm_containers_by_panel := (pm_containers_by_panel (dk_pm d))(pid \<mapsto> c)\<rparr>) d"
  obtain w ps m where v: "cview d = (w, ps, m)" "m pid = None" using assms(2) by (simp add: cview_def)
  then have "cview ?d = (w, ps, m(pid \<mapsto> c))" by (simp add: cview_upd_containers[where f = "\<lambda>m. m(pid \<mapsto> c)"])
  then show "consistent d'" if "cview d' = upd_c c (add_mset pid) (cview ?d)" for d'
    using that assms(1) v by (simp add: consistent_def consistent_add)
qed

lemma detach_consistent:
  assumes "consistent d" "pm_containers_by_panel (dk_pm d) pid = Some c"
  shows "ens consistent (remove pid (upd_pm (\<lambda>m. m\<lparr>pm_containers_by_panel := (pm_containers_by_panel (dk_pm d))(pid := None)\<rparr>) d))"
proof (rule ens_mono[OF remove_law])
  let ?d = "upd_pm (\<lambda>m. m\<lparr>pm_containers_by_panel := (pm_containers_by_panel (dk_pm d))(pid := None)\<rparr>) d"
  obtain w ps m where v: "cview d = (w, ps, m)" "m pid = Some c" "w = wview d" using assms(2) by (simp add: cview_def)
  then have d: "cview ?d = (w, ps, m(pid := None))" by (simp add: cview_upd_containers[where f = "\<lambda>m. m(pid := None)"])
  then show "consistent d'" if "cview d' = upd_c c (\<lambda>m. m - {#pid#}) (cview ?d)" for d'
    using that assms(1) v by (simp add: consistent_def consistent_remove)
  show "wins_ok (wview ?d)" using assms(1) v d by (simp add: consistent_def consistent_view_def cview_def)
qed

end

text \<open>What the panel manager relies on: the window manager's reactions keep the panels as they are.\<close>

locale panel_host =
  fixes area :: "int \<Rightarrow> int \<Rightarrow> int \<Rightarrow> int \<Rightarrow> ('x, 'd) mdesk_scheme \<Rightarrow> ('x, 'd) mdesk_scheme option"
    and layout :: "('x, 'd) mdesk_scheme \<Rightarrow> (bool \<times> ('x, 'd) mdesk_scheme) option"
  assumes area_law: "area x y w h d = Some d' \<Longrightarrow> cview d' = cview d"
    and layout_law: "layout d = Some (ok, d') \<Longrightarrow> cview d' = cview d"
begin

lemma layout_keeps: "keeps cview layout"
  unfolding keeps_def using bview_cview layout_law by blast

lemma visibility_law: "HandleDockVisibilityChange area t d = Some d' \<Longrightarrow> cview d' = cview d"
  by (auto simp: HandleDockVisibilityChange_def UpdateAvailableArea_def Let_def split: if_splits dest: area_law)

lemma area_update_law: "UpdateAvailableArea area d = Some d' \<Longrightarrow> cview d' = cview d"
  using visibility_law[of DOCK_TYPE_LEFT d d'] by (simp add: HandleDockVisibilityChange_def)

end

sublocale panel_host \<subseteq> bar: panel_container BarContainer "Bar_AddPanel C" "Bar_RemovePanel C"
    "Bar_HandleNotifyPanelDraggedMessage C layout" "Bar_HandleNotifyPanelDragCompleteMessage C layout" for C :: "('x, 'c) barctx_scheme"
proof unfold_locales
  fix pid source and d :: "('x, 'd) mdesk_scheme"
  show "ens (\<lambda>d'. cview d' = upd_c BarContainer (add_mset pid) (cview d)) (Bar_AddPanel C pid source d)"
    using ens_Bar_AddPanel[of pid d C source] bview_upd_c by (auto simp: ens_def)
  show "ens (\<lambda>(ok, d'). cview d' = cview d) (Bar_HandleNotifyPanelDraggedMessage C layout pid x y d)" for x y
    by (rule ens_Dragged[OF layout_keeps])
  show "ens (\<lambda>d'. cview d' = cview d) (Bar_HandleNotifyPanelDragCompleteMessage C layout pid d)"
    unfolding Bar_HandleNotifyPanelDragCompleteMessage_def by (rule ens_DragComplete[OF layout_keeps])
  assume "wins_ok (wview d)"
  then show "ens (\<lambda>d'. cview d' = upd_c BarContainer (\<lambda>m. m - {#pid#}) (cview d)) (Bar_RemovePanel C pid d)"
    using ens_Bar_RemovePanel[of d pid C] bview_upd_c by (auto simp: ens_def)
qed

sublocale panel_host \<subseteq> dock: panel_container "DockContainer t" "Dock_AddPanel C (HandleDockVisibilityChange area) t"
    "Dock_RemovePanel C (HandleDockVisibilityChange area) t" "Dock_HandleNotifyPanelDraggedMessage C t"
    "Dock_HandleNotifyPanelDragCompleteMessage C (HandlePanelResize C) t" for t and C :: "('x, 'c) barctx_scheme"
  by unfold_locales (rule ens_Dock_AddPanel ens_Dock_RemovePanel ens_Dock_Dragged ens_Dock_DragComplete, (erule visibility_law cview_rules)?)+

section \<open>Operations of the panel manager\<close>

lemmas consistent_simps = consistent_def cview_upd_pm cview_upd_dock_same bview_simps[THEN bview_cview]

lemma ens_CHECK: "(b \<Longrightarrow> Q ()) \<Longrightarrow> ens Q (CHECK b)"
  by (simp add: ens_def CHECK_def)

text \<open>The operations of a panel that tell the panel manager about a new size.\<close>

lemma ens_ResizeContent_manager: "ens (\<lambda>d'. cview d' = cview d) (ResizeContent C (HandlePanelResize C) pid w h g d)"
  by (rule ens_ResizeContent) (rule cview_rules)

lemma cview_upd_panel:
  "(\<And>p. pn_content (f p) = pn_content p \<and> pn_titlebar (f p) = pn_titlebar p) \<Longrightarrow> cview (upd_panel pid f d) = cview d"
  by (rule kview_cview) (rule kview_upd_panel)

lemma ens_ApplyResize: "ens (\<lambda>d'. cview d' = cview d) (ApplyResize C (HandlePanelResize C) pid d)"
  unfolding ApplyResize_def Let_def
  by (intro ens_intros | (rule ens_mono, rule ens_ResizeContent_manager) | rule ens_any | simp add: cview_upd_panel bview_simps[THEN bview_cview])+

lemma ens_coalesced:
  assumes "\<And>d. ens (\<lambda>d'. cview d' = cview d) (callback d)"
  shows "ens (\<lambda>d'. cview d' = cview d) (coalesced pid f callback d)"
  unfolding coalesced_def Let_def
  by (intro ens_intros | (rule ens_mono, rule assms) | rule ens_any | simp add: cview_upd_panel)+

lemma ens_panel_events:
  "ens (\<lambda>d'. cview d' = cview d) (HandleInputWindowButtonRelease C (HandlePanelResize C) pid xid x y b d)"
  "ens (\<lambda>d'. cview d' = cview d) (HandleInputWindowPointerMotion C (HandlePanelResize C) pid xid x y d)"
  "ens (\<lambda>d'. cview d' = cview d) (Panel_HandleWindowConfigureRequest C (HandlePanelResize C) pid win w h d)"
  "ens (\<lambda>d'. cview d' = cview d) (panel_resize_timer C (HandlePanelResize C) pid d)"
  unfolding HandleInputWindowButtonRelease_def HandleInputWindowPointerMotion_def Panel_HandleWindowConfigureRequest_def panel_resize_timer_def Let_def
  by (intro ens_intros | (rule ens_mono, rule ens_coalesced, rule ens_ApplyResize) | (rule ens_mono, rule ens_ResizeContent_manager)
      | rule ens_any | simp add: cview_upd_panel)+

lemma ens_panel_press: "ens (\<lambda>d'. cview d' = cview d) (HandleInputWindowButtonPress C pid xid x y b d)"
  unfolding HandleInputWindowButtonPress_def Let_def
  by (intro ens_intros | (rule ens_step, erule kview_cview_rules) | rule ens_any
      | simp add: cview_upd_panel bview_simps[THEN bview_cview] | (drule kview_start_coalescer[THEN kview_cview], simp add: cview_upd_panel bview_simps[THEN bview_cview]))+

context panel_host
begin

lemma AddPanelToContainer_consistent:
  assumes "consistent d"
  shows "ens consistent (AddPanelToContainer C area pid c source d)"
  unfolding AddPanelToContainer_def map_insert_def Container_AddPanel_def Let_def
  by (cases c) (simp_all add: ens_None bar.attach_consistent[OF assms] dock.attach_consistent[OF assms])

lemma RemovePanelFromContainer_consistent:
  assumes "consistent d" "pm_containers_by_panel (dk_pm d) pid = Some c"
  shows "ens consistent (RemovePanelFromContainer C area pid c d)"
proof -
  have 1: "ens consistent (Container_RemovePanel C area c pid (upd_pm (\<lambda>m. m\<lparr>pm_containers_by_panel := (pm_containers_by_panel (dk_pm d))(pid := None)\<rparr>) d))"
    using assms unfolding Container_RemovePanel_def
    by (cases c) (auto intro: bar.detach_consistent dock.detach_consistent)
  show ?thesis
    unfolding RemovePanelFromContainer_def map_erase_def Let_def
    apply (intro ens_bind ens_CHECK ens_Some)
    apply (rule ens_mono[OF 1])
    by (intro ens_intros | (rule ens_step, erule kview_cview_rules) | (rule ens_pair, erule kview_cview_rules) | simp add: consistent_simps)+
qed

lemma Container_Dragged: "ens (\<lambda>(ok, d'). cview d' = cview d) (Container_HandleNotifyPanelDraggedMessage C layout c pid x y d)"
  unfolding Container_HandleNotifyPanelDraggedMessage_def by (cases c) (simp_all add: bar.dragged_law dock.dragged_law)

lemma Container_DragComplete: "ens (\<lambda>d'. cview d' = cview d) (Container_HandleNotifyPanelDragCompleteMessage C layout c pid d)"
  unfolding Container_HandleNotifyPanelDragCompleteMessage_def by (cases c) (simp_all add: bar.drag_complete_law dock.drag_complete_law)

lemma ens_pair_mono: "ens (\<lambda>(r, d). P d) m \<Longrightarrow> (\<And>r d. P d \<Longrightarrow> Q (r, d)) \<Longrightarrow> ens Q m"
  by (auto simp: ens_def)

lemma offer_panel_consistent: "consistent d \<Longrightarrow> ens (\<lambda>(ok, d'). consistent d') (offer_panel C area layout pid x y cs d)"
proof (induction cs)
  case (Cons c cs)
  show ?case
    unfolding offer_panel.simps
    by (intro ens_intros | (rule ens_mono, rule AddPanelToContainer_consistent) | (rule ens_pair_mono, rule Container_Dragged)
        | rule Cons.IH | rule ens_any | simp add: Cons.prems[unfolded consistent_def] consistent_simps)+
qed (simp add: ens_Some)

lemma containers_cview: "cview d' = cview d \<Longrightarrow> pm_containers_by_panel (dk_pm d) pid = Some c \<Longrightarrow> pm_containers_by_panel (dk_pm d') pid = Some c"
  by (simp add: cview_def)

lemma DragMotion_consistent:
  assumes "consistent d"
  shows "ens consistent (HandlePeriodicPanelDragMotion C area layout d)"
  using assms unfolding HandlePeriodicPanelDragMotion_def Let_def GetContainerForPanel_def
  by - (intro ens_intros | (rule ens_mono, rule RemovePanelFromContainer_consistent)
        | (rule ens_pair_mono, rule Container_Dragged) | (rule ens_pair_mono, rule offer_panel_consistent)
        | (rule ens_step, erule kview_cview_rules) | (erule (1) containers_cview)
        | rule ens_any | simp add: consistent_simps)+

lemma pm_coalesced_consistent:
  assumes "consistent d" "\<And>d. consistent d \<Longrightarrow> ens consistent (callback d)"
  shows "ens consistent (pm_coalesced f callback d)"
  using assms(1) unfolding pm_coalesced_def Let_def by - (intro ens_intros assms(2) | simp add: consistent_simps)+

lemma DragComplete_consistent:
  assumes "consistent d"
  shows "ens consistent (HandlePanelDragComplete C area layout pid removed d)"
  using assms unfolding HandlePanelDragComplete_def Let_def
  by - (intro ens_intros | (rule ens_mono, rule pm_coalesced_consistent) | rule DragMotion_consistent AddPanelToContainer_consistent
        | (rule ens_mono, rule Container_DragComplete) | simp add: consistent_simps)+

lemma HandleButtonPress_keeps: "ens (\<lambda>d'. cview d' = cview d) (Panels_HandleButtonPress C layout xid x y b ts d)"
  unfolding Panels_HandleButtonPress_def Dock_HandlePanelButtonPress_def
  by (intro ens_intros ens_panel_press ens_bar_layout_events(1)[OF layout_keeps]
      | (rule ens_step, erule kview_cview_rules bview_rules[THEN bview_cview]) | simp)+

lemma HandleButtonRelease_keeps: "ens (\<lambda>d'. cview d' = cview d) (Panels_HandleButtonRelease C xid x y b d)"
  unfolding Panels_HandleButtonRelease_def by (intro ens_intros ens_panel_events | simp)+

lemma HandlePointer_keeps:
  "ens (\<lambda>d'. cview d' = cview d) (Panels_HandlePointerEnter C xid x d)"
  "ens (\<lambda>d'. cview d' = cview d) (Panels_HandlePointerMotion C' xid x y d)"
  "cview (Panels_HandlePointerLeave xid d) = cview d"
  unfolding Panels_HandlePointerEnter_def Panels_HandlePointerMotion_def Panels_HandlePointerLeave_def
  by (intro ens_intros ens_panel_events
      | (rule ens_step, erule bview_rules[THEN bview_cview]) | rule ens_any | simp add: bview_PointerLeave[THEN bview_cview])+

lemma HandleMessages_keep:
  "ens (\<lambda>d'. cview d' = cview d) (Panels_HandleClientMessage C xid ty d)"
  "ens (\<lambda>d'. cview d' = cview d) (Panels_HandleFocusChange C1 xid b d)"
  "ens (\<lambda>d'. cview d' = cview d) (Panels_HandleWindowPropertyChange C2 xid d)"
  unfolding Panels_HandleClientMessage_def Panels_HandleFocusChange_def Panels_HandleWindowPropertyChange_def
    Dock_HandlePanelFocusChange_def Dock_HandleFocusPanelMessage_def
  by (intro ens_intros | (rule ens_step, erule bview_rules[THEN bview_cview] kview_cview_rules)
      | (rule ens_pair, erule kview_cview_rules) | simp)+

lemma HandleConfigureRequest_keeps: "ens (\<lambda>d'. cview d' = cview d) (Panels_HandleWindowConfigureRequest C win w h d)"
  unfolding Panels_HandleWindowConfigureRequest_def by (intro ens_intros ens_panel_events | rule ens_any | simp)+

lemma HandleMapRequest_keeps: "ens (\<lambda>(b, d'). cview d' = cview d) (Panels_HandleWindowMapRequest C win d)"
  unfolding Panels_HandleWindowMapRequest_def DoInitialSetupForWindow_def Let_def
  by (intro ens_intros | (rule ens_pair, erule kview_cview_rules) | rule ens_any | simp add: cview_upd_pm)+

lemma resize_containers_keeps: "ens (\<lambda>d'. cview d' = cview d) (resize_containers C cs d)"
proof (induction cs arbitrary: d)
  case (Cons c cs)
  have "ens (\<lambda>d'. cview d' = cview d) (Container_HandleScreenResize C c d)"
    unfolding Container_HandleScreenResize_def
    by (intro ens_intros ens_Dock_ScreenResize | (rule ens_step, erule bview_rules[THEN bview_cview]))+ simp
  then show ?case
    unfolding resize_containers.simps
    by (rule ens_bind[OF ens_mono]) (rule ens_mono[OF Cons.IH], simp)
qed (simp add: ens_Some)

lemma HandleScreenResize_keeps: "ens (\<lambda>d'. cview d' = cview d) (Panels_HandleScreenResize C area d)"
  unfolding Panels_HandleScreenResize_def
  by (intro ens_intros | (rule ens_mono, rule resize_containers_keeps) | (rule ens_step, erule area_update_law) | simp)+

lemma cview_start_coalescer:
  "cview (case start_coalescer C co d of (co, d') \<Rightarrow> upd_pm (\<lambda>m. m\<lparr>pm_coalescer := co\<rparr>) d') = cview d"
  by (cases "start_coalescer C co d") (auto simp: cview_upd_pm dest: kview_start_coalescer[THEN kview_cview])

lemma handle_panel_dragged_consistent:
  assumes "consistent d"
  shows "ens consistent (handle_panel_dragged C area layout pid x y d)"
  using assms unfolding handle_panel_dragged_def Let_def
  by - (intro ens_intros pm_coalesced_consistent DragMotion_consistent | (rule ens_mono, rule DragComplete_consistent)
      | rule ens_any | simp add: consistent_simps cview_start_coalescer)+

lemma HandleChromeMessage_consistent:
  assumes "consistent d"
  shows "ens consistent (Panels_HandleChromeMessage C area layout msg d)"
  using assms unfolding Panels_HandleChromeMessage_def
  by - (intro ens_intros handle_panel_dragged_consistent DragComplete_consistent
      | (rule ens_mono, rule ens_bar_layout_events(2)[OF layout_keeps] ens_Dock_events[OF layout_keeps])
      | rule ens_any | simp add: consistent_simps)+

end

section \<open>Windows that become panels\<close>

lemma kview_CreateInputWindow [kview_rules]: "CreateInputWindow C x y w h m d = Some (xid, d') \<Longrightarrow> kview d' = kview d"
  by (auto simp: CreateInputWindow_def desk_request_def bind_eq_Some_iff Let_def CHECK_def kview_def on_env_def
      split: prod.splits if_splits)

lemma kview_create_input_windows [kview_rules]: "create_input_windows C n d = Some (xids, d') \<Longrightarrow> kview d' = kview d"
  by (induction n arbitrary: d xids d') (auto simp: bind_eq_Some_iff dest!: kview_CreateInputWindow)

lemma cview_consumers: "cview (d\<lparr>dk_consumers := m\<rparr>) = cview d"
  by (cases d) (auto simp: cview_def wview_def panels_in_def fun_eq_iff split: container.splits)

lemma cview_new_panel:
  "cview (d\<lparr>dk_consumers := m, dk_panels := (dk_panels d)(pid \<mapsto> p)\<rparr>) = apfst (\<lambda>w. w(pid \<mapsto> (pn_content p, pn_titlebar p))) (cview d)"
  "cview (d\<lparr>dk_consumers := m, dk_panels := (dk_panels d)(pid := None)\<rparr>) = apfst (\<lambda>w. w(pid := None)) (cview d)"
  by (cases d; auto simp: cview_def wview_def panels_in_def fun_eq_iff split: container.splits)+

lemma cview_do_requests: "cview (do_requests C rs d) = cview d"
  by (rule kview_cview) simp

lemma kview_resize_content: "map_option snd (ask_win x f d) = Some d' \<Longrightarrow> kview d' = kview d"
  by (auto dest!: kview_ask_win)

lemma ens_new_Panel:
  "ens (\<lambda>d'. cview d' = apfst (\<lambda>w. w(pid \<mapsto> (win, titlebar))) (cview d)) (new_Panel C junk pid win titlebar expanded d)"
  unfolding new_Panel_def Let_def
  by (intro ens_intros | (rule ens_pair, erule kview_cview_rules kview_create_input_windows[THEN kview_cview])
      | (rule ens_step, erule kview_resize_content[THEN kview_cview]) | rule ens_any
      | simp add: cview_do_requests cview_new_panel)+

lemma ens_destroy_Panel: "ens (\<lambda>d'. cview d' = apfst (\<lambda>w. w(pid := None)) (cview d)) (destroy_Panel C pid d)"
  unfolding destroy_Panel_def Let_def
  by (intro ens_intros | (rule ens_pair, erule kview_cview_rules) | rule ens_any
      | simp add: cview_do_requests cview_new_panel)+

section \<open>Events\<close>

text \<open>
  What the panel manager hears of: the handlers of \<open>EventConsumer\<close>, with the address and the memory that a new panel gets, and the
  timers of the drag, of the resizing of a panel and of the bar.
\<close>

datatype pm_event =
    WindowMapRequest xid
  | WindowMap Gravity pid xid
  | WindowUnmap xid
  | WindowConfigureRequest xid int int
  | ButtonPress xid int int int xtime
  | ButtonRelease xid int int int
  | PointerEnter xid int
  | PointerLeave xid
  | PointerMotion xid int int
  | ChromeMessage message
  | ClientMessage xid xatom
  | FocusChange xid bool
  | WindowPropertyChange xid
  | ScreenResize
  | DragTimer
  | ResizeTimer pid
  | ShowCollapsedPanelsTimer

fun handle_pm_event ::
    "('x, 'c) barctx_scheme \<Rightarrow> (int \<Rightarrow> int \<Rightarrow> int \<Rightarrow> int \<Rightarrow> ('x, 'd) mdesk_scheme \<Rightarrow> ('x, 'd) mdesk_scheme option) \<Rightarrow>
     (('x, 'd) mdesk_scheme \<Rightarrow> (bool \<times> ('x, 'd) mdesk_scheme) option) \<Rightarrow>
     pm_event \<Rightarrow> ('x, 'd) mdesk_scheme \<Rightarrow> ('x, 'd) mdesk_scheme option" where
  "handle_pm_event C area layout (WindowMapRequest win) d = map_option snd (Panels_HandleWindowMapRequest C win d)"
| "handle_pm_event C area layout (WindowMap junk pid win) d = Panels_HandleWindowMap C area junk pid win d"
| "handle_pm_event C area layout (WindowUnmap win) d = Panels_HandleWindowUnmap C area layout win d"
| "handle_pm_event C area layout (WindowConfigureRequest win w h) d = Panels_HandleWindowConfigureRequest C win w h d"
| "handle_pm_event C area layout (ButtonPress xid x y b ts) d = Panels_HandleButtonPress C layout xid x y b ts d"
| "handle_pm_event C area layout (ButtonRelease xid x y b) d = Panels_HandleButtonRelease C xid x y b d"
| "handle_pm_event C area layout (PointerEnter xid x) d = Panels_HandlePointerEnter C xid x d"
| "handle_pm_event C area layout (PointerLeave xid) d = Some (Panels_HandlePointerLeave xid d)"
| "handle_pm_event C area layout (PointerMotion xid x y) d = Panels_HandlePointerMotion C xid x y d"
| "handle_pm_event C area layout (ChromeMessage msg) d = Panels_HandleChromeMessage C area layout msg d"
| "handle_pm_event C area layout (ClientMessage xid ty) d = Panels_HandleClientMessage C xid ty d"
| "handle_pm_event C area layout (FocusChange xid b) d = Panels_HandleFocusChange C xid b d"
| "handle_pm_event C area layout (WindowPropertyChange xid) d = Panels_HandleWindowPropertyChange C xid d"
| "handle_pm_event C area layout ScreenResize d = Panels_HandleScreenResize C area d"
| "handle_pm_event C area layout DragTimer d = panel_drag_timer C area layout d"
| "handle_pm_event C area layout (ResizeTimer pid) d = panel_resize_timer C (HandlePanelResize C) pid d"
| "handle_pm_event C area layout ShowCollapsedPanelsTimer d = HandleShowCollapsedPanelsTimer C d"

text \<open>
  A new panel gets memory of its own, and its content and titlebar windows are not those of another panel. The code relies on the
  client for the latter.
\<close>

fun event_ok :: "pm_event \<Rightarrow> ('x, 'd) mdesk_scheme \<Rightarrow> bool" where
  "event_ok (WindowMap junk pid win) d \<longleftrightarrow>
     dk_panels d pid = None \<and>
     (\<forall>w titlebar params. dk_windows d win = Some w \<longrightarrow> w_type_params w = titlebar # params \<longrightarrow>
        (\<forall>q p. dk_panels d q = Some p \<longrightarrow> {pn_content p, pn_titlebar p} \<inter> {win, to_xid titlebar} = {}))"
| "event_ok _ d \<longleftrightarrow> True"

lemma consistent_new_panel:
  assumes "consistent_view (w, v)" "w pid = None" "\<And>q a b. w q = Some (a, b) \<Longrightarrow> {a, b} \<inter> {win, t} = {}"
  shows "consistent_view (w(pid \<mapsto> (win, t)), v)"
proof -
  have "wins_ok (w(pid \<mapsto> (win, t)))"
    unfolding wins_ok_def
  proof (intro allI impI)
    fix p q a b a' b'
    assume "(w(pid \<mapsto> (win, t))) p = Some (a, b)" "(w(pid \<mapsto> (win, t))) q = Some (a', b')" "{a, b} \<inter> {a', b'} \<noteq> {}"
    with assms(1) assms(3)[of p a b] assms(3)[of q a' b'] show "p = q"
      unfolding consistent_view_def wins_ok_def by (cases v) (auto split: if_splits)
  qed
  with assms(1) show ?thesis by (cases v) (simp add: consistent_view_def)
qed

lemma consistent_drop_panel: "consistent_view v \<Longrightarrow> consistent_view (apfst (\<lambda>w. w(pid := None)) v)"
  by (cases v) (auto simp: consistent_view_def wins_ok_def)

context panel_host
begin

lemma HandleWindowMap_consistent:
  assumes "consistent d" "event_ok (WindowMap junk pid win) d"
  shows "ens consistent (Panels_HandleWindowMap C area junk pid win d)"
proof -
  have n: "consistent_view (apfst (\<lambda>w. w(pid \<mapsto> (win, to_xid titlebar))) (cview d))"
    if "dk_windows d win = Some w" "w_type_params w = titlebar # params" for w titlebar params
    using assms that unfolding consistent_def cview_def apfst_conv
    by (intro consistent_new_panel) (auto simp: wview_def)
  show ?thesis
    unfolding Panels_HandleWindowMap_def DoInitialSetupForWindow_def Let_def
    apply (rule ens_bind, rule ens_read, rule ens_if)
     apply (rule ens_Some, rule assms)
    apply (rule ens_bind)
    apply (rule ens_mono[where P = "\<lambda>d'. cview d' = cview d"])
     apply (intro ens_intros | (rule ens_pair, erule kview_cview_rules) | simp)+
     apply (simp add: consistent_def assms(1)[unfolded consistent_def])
    by (split list.split, intro conjI impI allI
        | intro ens_intros AddPanelToContainer_consistent | (rule ens_mono, rule ens_new_Panel)
        | (rule ens_step, erule kview_cview_rules) | rule ens_any
        | simp add: consistent_simps n assms(1)[unfolded consistent_def])+
qed

lemma HandleWindowUnmap_consistent:
  assumes "consistent d"
  shows "ens consistent (Panels_HandleWindowUnmap C area layout win d)"
  using assms unfolding Panels_HandleWindowUnmap_def Let_def GetContainerForPanel_def
  by - (intro ens_intros RemovePanelFromContainer_consistent DragComplete_consistent
      | (rule ens_mono, rule RemovePanelFromContainer_consistent) | (rule ens_mono, rule DragComplete_consistent)
      | (rule ens_mono, rule ens_WindowManager_TakeFocus[OF layout_keeps]) | (rule ens_mono, rule ens_destroy_Panel)
      | (rule ens_pair, erule bview_rules[THEN bview_cview])
      | rule ens_any
      | simp add: consistent_simps consistent_drop_panel)+

lemma handle_pm_event_consistent:
  assumes "consistent d" "event_ok ev d"
  shows "ens consistent (handle_pm_event C area layout ev d)"
proof -
  have K: "ens consistent m" if "ens (\<lambda>d'. cview d' = cview d) m" for m
    using that assms(1) by (auto simp: ens_def consistent_def)
  show ?thesis
  proof (cases ev)
    case (WindowMapRequest win)
    then show ?thesis
      using HandleMapRequest_keeps[of d C win] assms(1) by (auto simp: ens_def consistent_def)
  next
    case (PointerLeave xid)
    then show ?thesis using assms(1) by (simp add: ens_def consistent_def HandlePointer_keeps(3))
  next
    case ShowCollapsedPanelsTimer
    have "ens (\<lambda>d'. cview d' = cview d) (HandleShowCollapsedPanelsTimer C d)"
      unfolding HandleShowCollapsedPanelsTimer_def Let_def
      by (intro ens_intros | (rule ens_step, erule bview_rules[THEN bview_cview]) | simp add: bview_simps[THEN bview_cview])+
    with K ShowCollapsedPanelsTimer show ?thesis by simp
  qed (use assms in \<open>auto intro: HandleWindowMap_consistent HandleWindowUnmap_consistent HandleChromeMessage_consistent
      pm_coalesced_consistent DragMotion_consistent K[OF HandleConfigureRequest_keeps] K[OF HandleButtonPress_keeps]
      K[OF HandleButtonRelease_keeps] K[OF HandlePointer_keeps(1)] K[OF HandlePointer_keeps(2)] K[OF HandleMessages_keep(1)]
      K[OF HandleMessages_keep(2)] K[OF HandleMessages_keep(3)] K[OF HandleScreenResize_keeps] K[OF ens_panel_events(4)]
      simp: panel_drag_timer_def simp del: event_ok.simps\<close>)
qed

end

section \<open>States the panel manager reaches\<close>

text \<open>
  The panel manager starts with no panels, and handles events. Between two events, other parts of the window manager may do what
  they like except touch the panels, the containers and the panel manager's map.
\<close>

inductive pm_reaches ::
    "('x, 'c) barctx_scheme \<Rightarrow> (int \<Rightarrow> int \<Rightarrow> int \<Rightarrow> int \<Rightarrow> ('x, 'd) mdesk_scheme \<Rightarrow> ('x, 'd) mdesk_scheme option) \<Rightarrow>
     (('x, 'd) mdesk_scheme \<Rightarrow> (bool \<times> ('x, 'd) mdesk_scheme) option) \<Rightarrow> ('x, 'd) mdesk_scheme \<Rightarrow> bool"
  for C area layout where
  start: "dk_panels d = (\<lambda>_. None) \<Longrightarrow> new_PanelManager C d = Some d' \<Longrightarrow> pm_reaches C area layout d'"
| event: "pm_reaches C area layout d \<Longrightarrow> event_ok ev d \<Longrightarrow> handle_pm_event C area layout ev d = Some d' \<Longrightarrow> pm_reaches C area layout d'"
| other: "pm_reaches C area layout d \<Longrightarrow> cview d' = cview d \<Longrightarrow> pm_reaches C area layout d'"

text \<open>The start: what is known of the panels and of the containers that exist.\<close>

definition pview :: "('x, 'd) ddesk_scheme \<Rightarrow> (pid \<Rightarrow> (xid \<times> xid) option) \<times> (container \<Rightarrow> pid multiset)" where
  "pview d = (wview d, \<lambda>c. panels_in c d)"

lemma kview_pview: "kview d' = kview d \<Longrightarrow> pview d' = pview (d :: ('x, 'd) ddesk_scheme)"
  by (cases d; cases d') (auto simp: kview_def pview_def wview_def panels_in_def fun_eq_iff split: container.splits)

lemma kview_stack_xid: "StackXidAtTopOfLayer C s x l d = Some (ok, d') \<Longrightarrow> kview d' = kview d"
  by (cases "request (wm_xconn C) (StackWindow x (the (GetXidForLayer s l)) False) (dk_env d)")
    (auto simp: StackXidAtTopOfLayer_def desk_request_def bind_eq_Some_iff kview_def)

lemmas pview_start = kview_CreateInputWindow[THEN kview_pview] kview_stack_xid[THEN kview_pview] kview_stack(3)[THEN kview_pview]

lemma ens_new_PanelBar: "ens (\<lambda>d'. pview d' = apsnd (\<lambda>ps. ps(BarContainer := {#})) (pview d)) (new_PanelBar C d)"
proof -
  have b: "pview (on_env f (d\<lparr>dk_consumers := m, dk_bar := empty_bar r a s\<rparr>)) = apsnd (\<lambda>ps. ps(BarContainer := {#})) (pview d)"
    for f m r a s and d :: "('x, 'd) ddesk_scheme"
    by (cases d) (auto simp: pview_def wview_def panels_in_def empty_bar_def on_env_def fun_eq_iff split: container.splits)
  show ?thesis
    unfolding new_PanelBar_def Let_def
    by (intro ens_intros | (rule ens_pair, erule pview_start) | (rule ens_step, erule pview_start) | rule ens_any | simp add: b)+
qed

lemma pview_on_dock_shadow [simp]: "pview (on_dock_shadow t f d) = pview d"
  by (cases d) (auto simp: on_dock_shadow_def upd_dock_def pview_def wview_def panels_in_def fun_eq_iff split: prod.splits container.splits)

lemma pview_on_env [simp]: "pview (on_env f d) = pview (d :: ('x, 'd) ddesk_scheme)"
  by (rule kview_pview) simp

lemma ens_new_PanelDock: "ens (\<lambda>d'. pview d' = apsnd (\<lambda>ps. ps(DockContainer t := {#})) (pview d)) (new_PanelDock C t w d)"
proof -
  have b: "pview (upd_dock t (\<lambda>_. k) (d\<lparr>dk_consumers := m\<rparr>)) = apsnd (\<lambda>ps. ps(DockContainer t := {#})) (pview d)"
    if "dock_panels k = []" for m k and d :: "('x, 'd) ddesk_scheme"
    using that by (cases d) (auto simp: pview_def wview_def panels_in_def upd_dock_def fun_eq_iff split: container.splits)
  have e: "pview (d\<lparr>dk_env := e\<rparr>) = pview d" for e and d :: "('x, 'd) ddesk_scheme"
    using pview_on_env[of "\<lambda>_. e" d] by (simp add: on_env_def)
  show ?thesis
    unfolding new_PanelDock_def Let_def
    by (intro ens_intros | (rule ens_pair, erule pview_start) | (rule ens_step, erule pview_start) | rule ens_any | simp add: b e)+
qed

lemma ens_RegisterContainer: "ens (\<lambda>d'. cview d' = cview d) (RegisterContainer c d)"
  unfolding RegisterContainer_def Let_def by (intro ens_intros | rule ens_any | simp add: cview_upd_pm)+

lemma pview_no_panels:
  assumes "pview d = (\<lambda>_. None, \<lambda>_. {#})" "pm_containers_by_panel p = (\<lambda>_. None)"
  shows "consistent (d\<lparr>dk_consumers := m, dk_pm := p\<rparr>)"
  using assms by (cases d) (auto simp: consistent_def consistent_view_def wins_ok_def cview_def pview_def wview_def panels_in_def fun_eq_iff
      split: container.splits)

lemma new_PanelManager_consistent:
  assumes "dk_panels d = (\<lambda>_. None)"
  shows "ens consistent (new_PanelManager C d)"
proof -
  have all: "ps(BarContainer := {#}, DockContainer DOCK_TYPE_LEFT := {#}, DockContainer DOCK_TYPE_RIGHT := {#}) = (\<lambda>_. {#})"
    for ps :: "container \<Rightarrow> pid multiset"
  proof
    show "(ps(BarContainer := {#}, DockContainer DOCK_TYPE_LEFT := {#}, DockContainer DOCK_TYPE_RIGHT := {#})) c = {#}" for c
      by (cases c rule: container.exhaust; cases "case c of DockContainer t \<Rightarrow> t | _ \<Rightarrow> DOCK_TYPE_LEFT") auto
  qed
  have w: "wview d = (\<lambda>_. None)" using assms by (simp add: wview_def)
  have *: "consistent (d'\<lparr>dk_consumers := m, dk_pm := p\<rparr>)"
    if "pview d' = apsnd (\<lambda>ps. ps(DockContainer DOCK_TYPE_RIGHT := {#})) (apsnd (\<lambda>ps. ps(DockContainer DOCK_TYPE_LEFT := {#}))
        (apsnd (\<lambda>ps. ps(BarContainer := {#})) (pview d)))" "pm_containers_by_panel p = (\<lambda>_. None)" for d' m p
    using pview_no_panels[of d' p m] that w all by (simp add: pview_def)
  have R: "ens consistent (RegisterContainer c d)" if "consistent d" for c and d :: "('x, 'd) mdesk_scheme"
    by (rule ens_mono[OF ens_RegisterContainer]) (use that in \<open>simp add: consistent_def\<close>)
  show ?thesis
    unfolding new_PanelManager_def Let_def
    apply (rule ens_bind, rule ens_any)
    apply (rule ens_bind, rule ens_mono, rule ens_new_PanelBar)
    apply (rule ens_bind, rule ens_mono, rule ens_new_PanelDock)
    apply (rule ens_bind, rule ens_mono, rule ens_new_PanelDock)
    apply (rule ens_prod, rule ens_bind, rule ens_mono, rule R, rule *)
      apply (simp, simp)
    by (rule ens_bind, rule ens_mono, erule R, erule R)
qed

context panel_host
begin

lemma reaches_consistent: "pm_reaches C area layout d \<Longrightarrow> consistent d"
proof (induction rule: pm_reaches.induct)
  case (start d d')
  then show ?case using ensD[OF new_PanelManager_consistent] by blast
next
  case (event d ev d')
  then show ?case using ensD[OF handle_pm_event_consistent] by blast
qed (simp add: consistent_def)

end

end
