(* ===== verification/WM_Layout_Props.thy ===== *)
theory WM_Layout_Props
  imports WM_LayoutEvents WM_PanelManager_Inv
begin

text \<open>
  What the layout manager keeps. It leaves the panels and their containers alone, which is what the panel manager relies on
  (locale \<open>panel_host\<close>), so that the panel manager's invariant holds for the two managers together. Its own invariant: the pointers to
  toplevel windows point to windows it manages, and in active mode exactly the active window is on the screen.
\<close>

section \<open>The view of the layout manager\<close>

record lstate =
  ls_mode :: layout_mode
  ls_tops :: "tid \<Rightarrow> (xid \<times> xid \<times> toplevel_state) option"
  ls_toplevels :: "tid list"
  ls_active :: "tid option"
  ls_magnified :: "tid option"
  ls_under :: "tid option"
  ls_input :: "xid \<Rightarrow> tid option"

definition lstate_of :: "('x, 'd) ldesk_scheme \<Rightarrow> lstate" where
  "lstate_of d = (let m = dk_lm d in
     \<lparr>ls_mode = lm_mode m, ls_tops = (\<lambda>tid. map_option (\<lambda>t. (tl_win t, tl_input_xid t, tl_state t)) (lm_tops m tid)),
      ls_toplevels = lm_toplevels m, ls_active = lm_active m, ls_magnified = lm_magnified m, ls_under = lm_under_floating_tab m,
      ls_input = lm_input_to_toplevel m\<rparr>)"

definition lview :: "('x, 'd) ldesk_scheme \<Rightarrow>
    ((pid \<Rightarrow> (xid \<times> xid) option) \<times> (container \<Rightarrow> pid multiset) \<times> (pid \<Rightarrow> container option)) \<times> lstate" where
  "lview d = (cview d, lstate_of d)"

lemma kview_lm: "kview d' = kview d \<Longrightarrow> dk_lm d' = dk_lm (d :: ('x, 'd) ldesk_scheme)"
  by (cases d; cases d') (simp add: kview_def)

lemma kview_lview: "kview d' = kview d \<Longrightarrow> lview d' = lview (d :: ('x, 'd) ldesk_scheme)"
  using kview_cview[of d' d] kview_lm[of d' d] by (simp add: lview_def lstate_of_def)

lemma cview_upd_lm [simp]: "cview (upd_lm f d) = cview d"
  by (cases d) (auto simp: upd_lm_def cview_def wview_def panels_in_def fun_eq_iff split: container.splits)

lemma cview_keys [simp]: "cview (d\<lparr>dk_key_bindings := k\<rparr>) = cview d" "cview (d\<lparr>dk_layout_area := a\<rparr>) = cview d"
  by (cases d; auto simp: cview_def wview_def panels_in_def fun_eq_iff split: container.splits)+

lemma lview_keys [simp]:
  "lview (d\<lparr>dk_key_bindings := k\<rparr>) = lview d" "lview (d\<lparr>dk_layout_area := a\<rparr>) = lview d" "lview (d\<lparr>dk_consumers := m\<rparr>) = lview d"
  by (simp_all add: lview_def lstate_of_def cview_consumers)

lemma lview_upd_lm:
  "(\<And>m. lm_mode (f m) = lm_mode m \<and> lm_tops (f m) = lm_tops m \<and> lm_toplevels (f m) = lm_toplevels m \<and> lm_active (f m) = lm_active m \<and>
     lm_magnified (f m) = lm_magnified m \<and> lm_under_floating_tab (f m) = lm_under_floating_tab m \<and>
     lm_input_to_toplevel (f m) = lm_input_to_toplevel m) \<Longrightarrow> lview (upd_lm f d) = lview d"
  by (simp add: lview_def lstate_of_def upd_lm_def[of f d] Let_def cview_upd_lm[unfolded upd_lm_def])

definition set_st :: "tid \<Rightarrow> toplevel_state \<Rightarrow> 'c \<times> lstate \<Rightarrow> 'c \<times> lstate" where
  "set_st tid s = apsnd (\<lambda>l. l\<lparr>ls_tops := (ls_tops l)(tid := map_option (\<lambda>(w, i, _). (w, i, s)) (ls_tops l tid))\<rparr>)"

lemma lview_upd_top:
  "(\<And>t. tl_win (f t) = tl_win t \<and> tl_input_xid (f t) = tl_input_xid t \<and> tl_state (f t) = tl_state t) \<Longrightarrow> lview (upd_top tid f d) = lview d"
  by (auto simp: lview_def lstate_of_def upd_top_def Let_def fun_eq_iff option.map_comp o_def) (auto simp: upd_lm_def option.map_comp o_def)

lemma lview_set_state [simp]: "lview (upd_top tid (\<lambda>t. t\<lparr>tl_state := s\<rparr>) d) = set_st tid s (lview d)"
  by (auto simp: lview_def lstate_of_def upd_top_def Let_def set_st_def fun_eq_iff option.map_comp o_def)
    (auto simp: upd_lm_def option.map_comp o_def)

lemma lview_keeps [simp]:
  "lview (on_env f d) = lview d" "lview (do_request C r d) = lview d" "lview (snd (ConfigureInputWindow C' xid x y w h d)) = lview d"
  "lview (snd (SetActiveWindowProperty C'' xid d)) = lview d"
  by (rule kview_lview, simp)+

named_theorems lview_rules \<open>operations that keep the view of the layout manager\<close>

lemmas kview_lview_rules = kview_rules[THEN kview_lview] kview_stack_xid[THEN kview_lview] kview_CreateInputWindow[THEN kview_lview]

lemma ens_list: "(xs = [] \<Longrightarrow> ens Q m) \<Longrightarrow> (\<And>y ys. xs = y # ys \<Longrightarrow> ens Q (f y ys)) \<Longrightarrow> ens Q (case xs of [] \<Rightarrow> m | y # ys \<Rightarrow> f y ys)"
  by (cases xs) simp_all

lemma ens_mode:
  "(b = MODE_ACTIVE \<Longrightarrow> ens Q m) \<Longrightarrow> (b = MODE_OVERVIEW \<Longrightarrow> ens Q n) \<Longrightarrow> ens Q (case b of MODE_ACTIVE \<Rightarrow> m | MODE_OVERVIEW \<Rightarrow> n)"
  by (cases b) simp_all

lemmas lens = ens_intros ens_list ens_mode

lemma lview_ask_to_do [lview_rules]: "ask_to_do win f d = Some d' \<Longrightarrow> lview d' = lview (d :: ('x, 'd) ldesk_scheme)"
  by (auto simp: ask_to_do_def dest!: kview_ask_win[THEN kview_lview])

section \<open>Transient windows and focus\<close>

lemma ens_lview: "ens (\<lambda>d'. lview d' = lview d) m \<Longrightarrow> m = Some d' \<Longrightarrow> lview d' = lview d"
  by (rule ensD)

lemma lview_MoveAndScale [lview_rules]: "MoveAndScaleTransientWindow C tid win ms d = Some d' \<Longrightarrow> lview d' = lview d"
  by (erule ens_lview[rotated], unfold MoveAndScaleTransientWindow_def)
    (intro lens | (rule ens_step, erule kview_lview_rules) | (rule ens_pair, erule kview_lview_rules) | rule ens_any | simp)+

lemma lview_move_transients [lview_rules]: "move_transients C tid wins ms d = Some d' \<Longrightarrow> lview d' = lview d"
  by (induction wins arbitrary: d) (auto simp: bind_eq_Some_iff dest!: lview_MoveAndScale)

lemma lview_MoveAndScaleAll [lview_rules]: "MoveAndScaleAllTransientWindows C tid ms d = Some d' \<Longrightarrow> lview d' = lview d"
  by (auto simp: MoveAndScaleAllTransientWindows_def bind_eq_Some_iff dest!: lview_move_transients)

lemma lview_ApplyStacking [lview_rules]: "ApplyStackingForTransientWindow C win other d = Some d' \<Longrightarrow> lview d' = lview d"
  by (auto simp: ApplyStackingForTransientWindow_def bind_eq_Some_iff split: option.splits dest!: kview_lview_rules)

lemma lview_stack_transients [lview_rules]: "stack_transients C prev wins d = Some d' \<Longrightarrow> lview d' = lview d"
  by (induction wins arbitrary: prev d) (auto simp: bind_eq_Some_iff dest!: lview_ApplyStacking)

lemma lview_ApplyStackingAll [lview_rules]: "ApplyStackingForAllTransientWindows C tid b d = Some d' \<Longrightarrow> lview d' = lview d"
  by (auto simp: ApplyStackingForAllTransientWindows_def bind_eq_Some_iff dest!: lview_stack_transients)

lemma lview_Restack [lview_rules]: "RestackTransientWindowOnTop C tid win d = Some d' \<Longrightarrow> lview d' = lview d"
  by (erule ens_lview[rotated], unfold RestackTransientWindowOnTop_def)
    (intro lens | (rule ens_step, erule lview_rules) | rule ens_any | simp add: lview_upd_top)+

lemma lview_Toplevel_TakeFocus [lview_rules]: "Toplevel_TakeFocus C tid ts d = Some d' \<Longrightarrow> lview d' = lview d"
  by (auto simp: Toplevel_TakeFocus_def bind_eq_Some_iff Let_def split: option.splits dest!: lview_Restack kview_lview_rules)

lemma lview_SetPreferred [lview_rules]: "SetPreferredTransientWindowToFocus tid win d = Some d' \<Longrightarrow> lview d' = lview d"
  by (auto simp: SetPreferredTransientWindowToFocus_def bind_eq_Some_iff lview_upd_top split: option.splits if_splits)

lemma lview_Toplevel_events [lview_rules]:
  "Toplevel_HandleFocusChange C win b d = Some d' \<Longrightarrow> lview d' = lview d"
  "Toplevel_HandleButtonPress C' tid win' ts d = Some d' \<Longrightarrow> lview d' = lview d"
  by (auto simp: Toplevel_HandleFocusChange_def Toplevel_HandleButtonPress_def bind_eq_Some_iff dest!: kview_lview_rules lview_rules)

lemma lview_AddTransient [lview_rules]: "AddTransientWindow C tid win b d = Some d' \<Longrightarrow> lview d' = lview d"
  by (erule ens_lview[rotated], unfold AddTransientWindow_def Let_def)
    (intro lens | (rule ens_step, erule kview_lview_rules lview_rules) | (rule ens_pair, erule kview_lview_rules) | rule ens_any
      | simp add: lview_upd_top)+

lemma lview_RemoveTransient [lview_rules]: "RemoveTransientWindow C tid win d = Some d' \<Longrightarrow> lview d' = lview d"
  by (erule ens_lview[rotated], unfold RemoveTransientWindow_def Let_def)
    (intro lens | (rule ens_step, erule kview_lview_rules lview_rules) | (rule ens_pair, erule kview_lview_rules) | rule ens_any
      | simp add: lview_upd_top)+

lemma lview_remove_transients [lview_rules]: "remove_transients C tid wins d = Some d' \<Longrightarrow> lview d' = lview d"
  by (induction wins arbitrary: d) (auto simp: bind_eq_Some_iff dest!: lview_RemoveTransient)

lemma lview_upd_transient [simp]: "lview (upd_transient tid win f d) = lview d"
  by (auto simp: upd_transient_def intro!: lview_upd_top split: option.splits)

lemma lview_TransientConfigure [lview_rules]: "HandleTransientWindowConfigureRequest C tid win x y w h d = Some d' \<Longrightarrow> lview d' = lview d"
  by (auto simp: HandleTransientWindowConfigureRequest_def bind_eq_Some_iff split: if_splits dest!: kview_lview_rules lview_MoveAndScale)

section \<open>Laying out\<close>

lemma lview_place_incoming [lview_rules]: "place_incoming C s win x y d = Some d' \<Longrightarrow> lview d' = lview d"
  by (erule ens_lview[rotated], unfold place_incoming_def Let_def)
    (intro lens | (rule ens_step, erule kview_lview_rules) | rule ens_any | simp)+

lemma ens_show_active: "ens (\<lambda>d'. lview d' = set_st tid STATE_ACTIVE_MODE_ONSCREEN (lview d)) (show_active C tid y b d)"
  unfolding show_active_def Let_def
  by (intro lens | (rule ens_step, erule kview_lview_rules lview_rules) | (rule ens_pair, erule kview_lview_rules) | rule ens_any | simp)+

lemma ens_hide_inactive: "ens (\<lambda>d'. lview d' = set_st tid STATE_ACTIVE_MODE_OFFSCREEN (lview d)) (hide_inactive C tid y b d)"
  unfolding hide_inactive_def Let_def
  by (intro lens | (rule ens_step, erule kview_lview_rules lview_rules) | rule ens_any | simp)+

definition active_state :: "tid option \<Rightarrow> tid \<Rightarrow> toplevel_state" where
  "active_state active tid = (if active = Some tid then STATE_ACTIVE_MODE_ONSCREEN else STATE_ACTIVE_MODE_OFFSCREEN)"

lemma ens_ConfigureForActiveMode:
  "ens (\<lambda>d'. lview d' = set_st tid (if a then STATE_ACTIVE_MODE_ONSCREEN else STATE_ACTIVE_MODE_OFFSCREEN) (lview d))
     (ConfigureForActiveMode C tid a l f d)"
  unfolding ConfigureForActiveMode_def Let_def
  by (intro lens | (rule ens_mono, rule ens_show_active ens_hide_inactive) | (rule ens_step, erule lview_rules) | rule ens_any | simp)+

definition settle :: "(tid \<Rightarrow> toplevel_state) \<Rightarrow> tid list \<Rightarrow> 'c \<times> lstate \<Rightarrow> 'c \<times> lstate" where
  "settle st tids = fold (\<lambda>tid. set_st tid (st tid)) tids"

lemma settle_simps [simp]: "settle st [] v = v" "settle st (tid # tids) v = settle st tids (set_st tid (st tid) v)"
  by (simp_all add: settle_def)

lemma lview_lm:
  "lview d = v \<Longrightarrow> lm_active (dk_lm d) = ls_active (snd v) \<and> lm_magnified (dk_lm d) = ls_magnified (snd v) \<and> lm_mode (dk_lm d) = ls_mode (snd v) \<and>
     lm_toplevels (dk_lm d) = ls_toplevels (snd v) \<and> lm_under_floating_tab (dk_lm d) = ls_under (snd v) \<and>
     lm_input_to_toplevel (dk_lm d) = ls_input (snd v)"
  by (auto simp: lview_def lstate_of_def Let_def)

lemma ens_configure_active:
  fixes d :: "('x, 'd) ldesk_scheme"
  shows "ens (\<lambda>d'. lview d' = settle (active_state (lm_active (dk_lm d))) tids (lview d)) (configure_active C f saw tids d)"
proof (induction tids arbitrary: saw d)
  case (Cons tid tids)
  show ?case
    unfolding configure_active.simps Let_def
  proof (rule ens_bind, rule ens_mono, rule ens_ConfigureForActiveMode)
    fix x :: "('x, 'd) ldesk_scheme"
    assume x: "lview x = set_st tid (if lm_active (dk_lm d) = Some tid then STATE_ACTIVE_MODE_ONSCREEN else STATE_ACTIVE_MODE_OFFSCREEN) (lview d)"
    then have "lm_active (dk_lm x) = lm_active (dk_lm d)"
      using lview_lm[OF x] lview_lm[of d, OF refl] by (simp add: set_st_def)
    with x Cons.IH[of x "saw \<or> lm_active (dk_lm d) = Some tid"]
    show "ens (\<lambda>d'. lview d' = settle (active_state (lm_active (dk_lm d))) (tid # tids) (lview d))
        (configure_active C f (saw \<or> lm_active (dk_lm d) = Some tid) tids x)"
      by (simp add: active_state_def[of _ tid])
  qed
qed (simp add: ens_Some)

text \<open>The effect of the layout in active mode: there is an active window if there is any, and every window is where it belongs.\<close>

definition choose_active :: "lstate \<Rightarrow> lstate" where
  "choose_active l = (case ls_toplevels l of [] \<Rightarrow> l | first # _ \<Rightarrow> if ls_active l = None then l\<lparr>ls_active := Some first\<rparr> else l)"

definition lay_out :: "'c \<times> lstate \<Rightarrow> 'c \<times> lstate" where
  "lay_out v = (let v = apsnd choose_active v in settle (active_state (ls_active (snd v))) (ls_toplevels (snd v)) v)"

lemma lview_set_active [simp]: "lview (upd_lm (\<lambda>m. m\<lparr>lm_active := a\<rparr>) d) = apsnd (\<lambda>l. l\<lparr>ls_active := a\<rparr>) (lview d)"
  by (simp add: lview_def lstate_of_def Let_def) (simp add: upd_lm_def)

lemma ens_LayoutActive: "ens (\<lambda>d'. lview d' = lay_out (lview d)) (LayoutToplevelWindowsForActiveMode C f d)"
proof (cases "lm_toplevels (dk_lm d)")
  case Nil
  then show ?thesis
    using lview_lm[of d, OF refl] by (simp add: LayoutToplevelWindowsForActiveMode_def lay_out_def choose_active_def ens_Some Let_def prod_eq_iff)
next
  case (Cons first rest)
  let ?d = "if lm_active (dk_lm d) = None then upd_lm (\<lambda>m. m\<lparr>lm_active := Some first\<rparr>) d else d"
  have v: "lview ?d = apsnd choose_active (lview d)"
    using lview_lm[of d, OF refl] Cons by (cases "lview d") (auto simp: choose_active_def split: list.splits)
  note l = lview_lm[OF v]
  have "LayoutToplevelWindowsForActiveMode C f d = configure_active C f False (lm_toplevels (dk_lm ?d)) ?d"
    by (simp add: LayoutToplevelWindowsForActiveMode_def Cons Let_def)
  then show ?thesis
    using ens_configure_active[of ?d "lm_toplevels (dk_lm ?d)" C f False] v l by (simp add: lay_out_def)
qed

lemma ens_stack_in_overview [lview_rules]: "stack_in_overview C tid u d = Some d' \<Longrightarrow> lview d' = lview d"
  by (erule ens_lview[rotated], unfold stack_in_overview_def)
    (intro lens | (rule ens_step, erule kview_lview_rules) | (rule ens_pair, erule kview_lview_rules) | rule ens_any | simp)+

lemma lview_configure_input [lview_rules]: "configure_input C tid d = Some d' \<Longrightarrow> lview d' = lview d"
  by (auto simp: configure_input_def bind_eq_Some_iff)

lemma ens_arrange_in_overview: "ens (\<lambda>d'. lview d' = set_st tid (overview_state m) (lview d)) (arrange_in_overview C tid m u d)"
  unfolding arrange_in_overview_def Let_def
  by (intro lens | (rule ens_step, erule kview_lview_rules lview_rules) | rule ens_any | simp)+

lemma ens_configure_old_overview: "ens (\<lambda>d'. lview d' = set_st tid (overview_state m) (lview d)) (configure_old_overview C tid m dm d)"
  unfolding configure_old_overview_def Let_def
  by (intro lens | (rule ens_step, erule kview_lview_rules lview_rules) | rule ens_any | simp)+

lemma ens_configure_new_overview:
  "ens (\<lambda>d'. lview d' = (if i then lview d else set_st tid (overview_state m) (lview d))) (configure_new_overview C tid m u i d)"
  unfolding configure_new_overview_def Let_def
  by (intro lens | (rule ens_mono, rule ens_arrange_in_overview) | (rule ens_step, erule kview_lview_rules lview_rules) | rule ens_any | simp)+

lemma ens_ConfigureForOverviewMode:
  "ens (\<lambda>d'. lview d' = (if FLAGS_lm_new_overview_mode C \<and> i then lview d else set_st tid (overview_state m) (lview d)))
     (ConfigureForOverviewMode C tid m dm u i d)"
  unfolding ConfigureForOverviewMode_def using ens_configure_new_overview[of i d tid m C u] ens_configure_old_overview[of tid m d C dm]
  by (cases "FLAGS_lm_new_overview_mode C"; cases i) simp_all

definition overview_st :: "tid option \<Rightarrow> tid \<Rightarrow> toplevel_state" where
  "overview_st magnified tid = overview_state (magnified = Some tid)"

lemma ens_configure_overview:
  fixes d :: "('x, 'd) ldesk_scheme"
  shows "ens (\<lambda>d'. lview d' = (if FLAGS_lm_new_overview_mode C \<and> i then lview d else settle (overview_st (lm_magnified (dk_lm d))) tids (lview d)))
     (configure_overview C i u tids d)"
proof (induction tids arbitrary: u d)
  case (Cons tid tids)
  show ?case
    unfolding configure_overview.simps Let_def
  proof (rule ens_bind, rule ens_mono, rule ens_ConfigureForOverviewMode)
    fix x :: "('x, 'd) ldesk_scheme"
    assume x: "lview x = (if FLAGS_lm_new_overview_mode C \<and> i then lview d
        else set_st tid (overview_state (lm_magnified (dk_lm d) = Some tid)) (lview d))"
    then have "lm_magnified (dk_lm x) = lm_magnified (dk_lm d)"
      using lview_lm[OF x] lview_lm[of d, OF refl] by (auto simp: set_st_def)
    with x Cons.IH[of x "Some tid"]
    show "ens (\<lambda>d'. lview d' = (if FLAGS_lm_new_overview_mode C \<and> i then lview d
        else settle (overview_st (lm_magnified (dk_lm d))) (tid # tids) (lview d))) (configure_overview C i (Some tid) tids x)"
      by (cases "FLAGS_lm_new_overview_mode C \<and> i") (auto simp: overview_st_def[of _ tid])
  qed
qed (simp add: ens_Some)

lemma ens_ConfigureWindowsForOverviewMode:
  "ens (\<lambda>d'. lview d' = (if FLAGS_lm_new_overview_mode C \<and> i then lview d
      else settle (overview_st (lm_magnified (dk_lm d))) (rev (lm_toplevels (dk_lm d))) (lview d)))
     (ConfigureWindowsForOverviewMode C i d)"
  unfolding ConfigureWindowsForOverviewMode_def
  by (rule ens_bind, rule ens_mono, rule ens_configure_overview)
    (intro lens | (rule ens_step, erule kview_lview_rules lview_rules) | rule ens_any | simp)+

section \<open>The invariant\<close>

text \<open>Pointers to toplevel windows point to the windows of the list, and the list is the objects that exist, each once.\<close>

definition struct_ok :: "lstate \<Rightarrow> bool" where
  "struct_ok l \<longleftrightarrow>
     distinct (ls_toplevels l) \<and>
     (\<forall>tid. ls_tops l tid \<noteq> None \<longleftrightarrow> tid \<in> set (ls_toplevels l)) \<and>
     (\<forall>tid. ls_active l = Some tid \<or> ls_magnified l = Some tid \<or> ls_under l = Some tid \<longrightarrow> tid \<in> set (ls_toplevels l)) \<and>
     (\<forall>xid tid. ls_input l xid = Some tid \<longrightarrow> (\<exists>w s. ls_tops l tid = Some (w, xid, s)))"

text \<open>In active mode a window is active if there is any, and exactly the active one is on the screen.\<close>

definition layout_ok :: "lstate \<Rightarrow> bool" where
  "layout_ok l \<longleftrightarrow> struct_ok l \<and>
     (ls_mode l = MODE_ACTIVE \<longrightarrow>
        (ls_toplevels l \<noteq> [] \<longrightarrow> ls_active l \<noteq> None) \<and>
        (\<forall>tid w i s. ls_tops l tid = Some (w, i, s) \<longrightarrow> s = active_state (ls_active l) tid))"

text \<open>The invariants of a state in which the panels are as \<open>c\<close> says.\<close>

definition stru :: "_ \<Rightarrow> ('x, 'd) ldesk_scheme \<Rightarrow> bool" where
  "stru c d \<longleftrightarrow> fst (lview d) = c \<and> struct_ok (snd (lview d))"

definition good :: "_ \<Rightarrow> ('x, 'd) ldesk_scheme \<Rightarrow> bool" where
  "good c d \<longleftrightarrow> fst (lview d) = c \<and> layout_ok (snd (lview d))"

lemma good_stru: "good c d \<Longrightarrow> stru c d"
  by (simp add: good_def stru_def layout_ok_def)

lemma stru_good: "stru c d \<Longrightarrow> lm_mode (dk_lm d) = MODE_OVERVIEW \<Longrightarrow> good c d"
  using lview_lm[of d, OF refl] by (simp add: good_def stru_def layout_ok_def)

lemma good_lview: "lview d' = lview d \<Longrightarrow> good c d' = good c d" "lview d' = lview d \<Longrightarrow> stru c d' = stru c d"
  by (simp_all add: good_def stru_def)

lemma set_st_sels [simp]:
  "fst (set_st tid s v) = fst v" "ls_mode (snd (set_st tid s v)) = ls_mode (snd v)" "ls_toplevels (snd (set_st tid s v)) = ls_toplevels (snd v)"
  "ls_active (snd (set_st tid s v)) = ls_active (snd v)" "ls_magnified (snd (set_st tid s v)) = ls_magnified (snd v)"
  "ls_under (snd (set_st tid s v)) = ls_under (snd v)" "ls_input (snd (set_st tid s v)) = ls_input (snd v)"
  by (simp_all add: set_st_def)

lemma set_st_tops [simp]:
  "ls_tops (snd (set_st tid s v)) t = map_option (\<lambda>(w, i, s'). (w, i, if t = tid then s else s')) (ls_tops (snd v) t)"
  by (cases "ls_tops (snd v) t") (auto simp: set_st_def)

lemma settle_sels [simp]:
  "fst (settle st tids v) = fst v" "ls_mode (snd (settle st tids v)) = ls_mode (snd v)" "ls_toplevels (snd (settle st tids v)) = ls_toplevels (snd v)"
  "ls_active (snd (settle st tids v)) = ls_active (snd v)" "ls_magnified (snd (settle st tids v)) = ls_magnified (snd v)"
  "ls_under (snd (settle st tids v)) = ls_under (snd v)" "ls_input (snd (settle st tids v)) = ls_input (snd v)"
  by (induction tids arbitrary: v) simp_all

lemma settle_tops [simp]:
  "ls_tops (snd (settle st tids v)) t = map_option (\<lambda>(w, i, s). (w, i, if t \<in> set tids then st t else s)) (ls_tops (snd v) t)"
proof (induction tids arbitrary: v)
  case Nil
  show ?case by (cases "ls_tops (snd v) t") auto
next
  case (Cons tid tids)
  show ?case by (cases "ls_tops (snd v) t") (auto simp: Cons.IH)
qed

lemma struct_ok_settle: "struct_ok (snd (settle st tids v)) = struct_ok (snd v)"
  unfolding struct_ok_def by (auto simp: case_prod_unfold)

lemma struct_ok_set_st: "struct_ok (snd (set_st tid s v)) = struct_ok (snd v)"
  using struct_ok_settle[of "\<lambda>_. s" "[tid]" v] by simp

lemma choose_active_sels [simp]:
  "ls_mode (choose_active l) = ls_mode l" "ls_toplevels (choose_active l) = ls_toplevels l" "ls_tops (choose_active l) = ls_tops l"
  "ls_magnified (choose_active l) = ls_magnified l" "ls_under (choose_active l) = ls_under l" "ls_input (choose_active l) = ls_input l"
  by (simp_all add: choose_active_def split: list.splits)

lemma choose_active_active:
  "ls_active (choose_active l) = (if ls_active l = None then (case ls_toplevels l of [] \<Rightarrow> None | first # _ \<Rightarrow> Some first) else ls_active l)"
  by (auto simp: choose_active_def split: list.splits)

lemma struct_ok_choose: "struct_ok l \<Longrightarrow> struct_ok (choose_active l)"
  by (auto simp: struct_ok_def choose_active_active split: if_splits list.splits)

lemma lay_out_ok: "struct_ok (snd v) \<Longrightarrow> layout_ok (snd (lay_out v))" "fst (lay_out v) = fst v"
proof -
  assume s: "struct_ok (snd v)"
  let ?v = "apsnd choose_active v"
  have c: "struct_ok (snd ?v)" using s struct_ok_choose[of "snd v"] by (cases v) simp
  moreover have "ls_toplevels (snd ?v) \<noteq> [] \<longrightarrow> ls_active (snd ?v) \<noteq> None"
    by (cases v) (auto simp: choose_active_active split: list.splits)
  moreover have "tid \<in> set (ls_toplevels (snd ?v))" if "ls_tops (snd ?v) tid = Some x" for tid x
    using c that unfolding struct_ok_def by blast
  ultimately show "layout_ok (snd (lay_out v))"
    unfolding layout_ok_def lay_out_def Let_def by (auto simp: struct_ok_settle)
qed (simp add: lay_out_def Let_def)

end
