(* ===== verification/WM_Layout_Inv.thy ===== *)
theory WM_Layout_Inv
  imports WM_Layout_Props
begin

text \<open>
  The invariants of the layout manager over all its events, and the panel manager's invariant for the two managers together.
\<close>

section \<open>Overview mode\<close>

lemma lview_scale_toplevel [lview_rules]: "scale_toplevel tid w h d = Some d' \<Longrightarrow> lview d' = lview d"
  by (auto simp: scale_toplevel_def bind_eq_Some_iff UpdateOverviewScaling_def Let_def intro!: lview_upd_top)

lemma lview_position [simp]: "lview (upd_top tid (UpdateOverviewPosition x y) d) = lview d"
  by (rule lview_upd_top) (simp add: UpdateOverviewPosition_def)

lemma lview_place_new [lview_rules]: "place_new_overview w h mx r tids d = Some d' \<Longrightarrow> lview d' = lview d"
proof (induction tids arbitrary: r d d')
  case (Cons tid tids)
  have "ens (\<lambda>d'. lview d' = lview d) (place_new_overview w h mx r (tid # tids) d)"
    unfolding place_new_overview.simps Let_def
    by (intro lens | (rule ens_step, erule lview_rules Cons.IH) | rule ens_any | simp add: lview_upd_lm split: if_splits)+
  with Cons.prems show ?case by (rule ens_lview[rotated])
qed simp

lemma lview_scale_unmagnified [lview_rules]: "scale_unmagnified w h tids d = Some d' \<Longrightarrow> lview d' = lview d"
  by (induction tids arbitrary: d) (auto simp: bind_eq_Some_iff split: if_splits dest!: lview_scale_toplevel)

lemma lview_place_old [lview_rules]: "place_old_overview p r tids d = Some d' \<Longrightarrow> lview d' = lview d"
  by (induction tids arbitrary: r d) (auto simp: bind_eq_Some_iff Let_def)

lemma lview_calculate_old [lview_rules]: "calculate_old_overview d = Some d' \<Longrightarrow> lview d' = lview d"
  by (erule ens_lview[rotated], unfold calculate_old_overview_def Let_def)
    (intro lens | (rule ens_step, erule lview_rules) | rule ens_any | simp)+

lemma lview_CalculatePositions [lview_rules]: "CalculatePositionsForOverviewMode C mx d = Some d' \<Longrightarrow> lview d' = lview d"
  by (auto simp: CalculatePositionsForOverviewMode_def Let_def split: if_splits dest: lview_rules)

lemma ens_LayoutOverview:
  fixes d :: "('x, 'd) ldesk_scheme"
  shows "ens (\<lambda>d'. lview d' = settle (overview_st (lm_magnified (dk_lm d))) (rev (lm_toplevels (dk_lm d))) (lview d))
     (LayoutToplevelWindowsForOverviewMode C mx d)"
  unfolding LayoutToplevelWindowsForOverviewMode_def
proof (rule ens_bind, rule ens_step, erule lview_CalculatePositions)
  fix x :: "('x, 'd) ldesk_scheme"
  assume x: "lview x = lview d"
  have "lm_magnified (dk_lm x) = lm_magnified (dk_lm d) \<and> lm_toplevels (dk_lm x) = lm_toplevels (dk_lm d)"
    using lview_lm[OF x] lview_lm[of d, OF refl] by simp
  with x ens_ConfigureWindowsForOverviewMode[of C False x]
  show "ens (\<lambda>d'. lview d' = settle (overview_st (lm_magnified (dk_lm d))) (rev (lm_toplevels (dk_lm d))) (lview d))
      (ConfigureWindowsForOverviewMode C False x)" by simp
qed

lemma stru_Configure: "stru c d \<Longrightarrow> ens (\<lambda>d'. stru c d' \<and> lm_mode (dk_lm d') = lm_mode (dk_lm d)) (ConfigureWindowsForOverviewMode C i d)"
  by (rule ens_mono[OF ens_ConfigureWindowsForOverviewMode])
    (auto simp: stru_def struct_ok_settle lview_lm[OF refl] split: if_splits)

lemma stru_LayoutOverview: "stru c d \<Longrightarrow> ens (\<lambda>d'. stru c d' \<and> lm_mode (dk_lm d') = lm_mode (dk_lm d)) (LayoutToplevelWindowsForOverviewMode C mx d)"
  by (rule ens_mono[OF ens_LayoutOverview]) (auto simp: stru_def struct_ok_settle lview_lm[OF refl])

lemma good_LayoutOverview:
  "stru c d \<Longrightarrow> lm_mode (dk_lm d) = MODE_OVERVIEW \<Longrightarrow>
     ens (\<lambda>d'. good c d' \<and> lm_mode (dk_lm d') = MODE_OVERVIEW) (LayoutToplevelWindowsForOverviewMode C mx d)"
  by (rule ens_mono[OF stru_LayoutOverview]) (auto intro: stru_good)

lemma good_LayoutActive: "stru c d \<Longrightarrow> ens (good c) (LayoutToplevelWindowsForActiveMode C f d)"
  by (rule ens_mono[OF ens_LayoutActive]) (simp add: stru_def good_def lay_out_ok)

section \<open>Messages and the magnified window\<close>

lemma lview_send_message [lview_rules]: "send_message C xid msg d = Some d' \<Longrightarrow> lview d' = lview (d :: ('x, 'd) ldesk_scheme)"
  by (auto simp: send_message_def bind_eq_Some_iff)

lemma lview_SendTabSummary [lview_rules]: "SendTabSummaryMessage C t b d = Some d' \<Longrightarrow> lview d' = lview d"
  by (auto simp: SendTabSummaryMessage_def bind_eq_Some_iff split: option.splits if_splits dest!: lview_send_message)

lemma lview_send_modes [lview_rules]: "send_modes C tids d = Some d' \<Longrightarrow> lview d' = lview d"
  by (induction tids arbitrary: d) (auto simp: SendModeMessage_def bind_eq_Some_iff split: if_splits dest!: lview_send_message)

lemma lview_set_magnified [simp]: "lview (upd_lm (\<lambda>m. m\<lparr>lm_magnified := a\<rparr>) d) = apsnd (\<lambda>l. l\<lparr>ls_magnified := a\<rparr>) (lview d)"
  by (simp add: lview_def lstate_of_def Let_def) (simp add: upd_lm_def)

lemma ens_SetMagnified: "ens (\<lambda>d'. lview d' = apsnd (\<lambda>l. l\<lparr>ls_magnified := t\<rparr>) (lview d)) (SetMagnifiedToplevelWindow C t d)"
proof (cases "lm_magnified (dk_lm d) = t")
  case True
  then have "ls_magnified (snd (lview d)) = t" using lview_lm[of d, OF refl] by simp
  then have "apsnd (\<lambda>l. l\<lparr>ls_magnified := t\<rparr>) (lview d) = lview d" by (intro prod_eqI) simp_all
  with True show ?thesis by (simp add: SetMagnifiedToplevelWindow_def ens_Some)
next
  case False
  have "ens (\<lambda>d'. lview d' = lview d) (if \<not> FLAGS_lm_new_overview_mode C then SendTabSummaryMessage C (lm_magnified (dk_lm d)) False d else Some d)"
    by (intro lens | (rule ens_step, erule lview_rules))+ simp_all
  then show ?thesis
    unfolding SetMagnifiedToplevelWindow_def if_not_P[OF False] by (intro ens_bind) (erule ens_mono, simp add: ens_Some)
qed

text \<open>\<open>mgood\<close>: the invariant holds in a given mode. The magnified window plays no part in active mode.\<close>

definition mem :: "tid option \<Rightarrow> ('x, 'd) ldesk_scheme \<Rightarrow> bool" where
  "mem t d \<longleftrightarrow> (\<forall>tid. t = Some tid \<longrightarrow> tid \<in> set (lm_toplevels (dk_lm d)))"

lemma mem_None [simp]: "mem None d"
  by (simp add: mem_def)

lemma struct_ok_upd:
  "struct_ok l \<Longrightarrow> (\<And>tid. t = Some tid \<Longrightarrow> tid \<in> set (ls_toplevels l)) \<Longrightarrow> struct_ok (l\<lparr>ls_magnified := t\<rparr>)"
  "struct_ok l \<Longrightarrow> (\<And>tid. t = Some tid \<Longrightarrow> tid \<in> set (ls_toplevels l)) \<Longrightarrow> struct_ok (l\<lparr>ls_active := t\<rparr>)"
  "struct_ok l \<Longrightarrow> (\<And>tid. t = Some tid \<Longrightarrow> tid \<in> set (ls_toplevels l)) \<Longrightarrow> struct_ok (l\<lparr>ls_under := t\<rparr>)"
  "struct_ok l \<Longrightarrow> struct_ok (l\<lparr>ls_mode := b\<rparr>)"
  by (auto simp: struct_ok_def)

lemma layout_ok_magnified: "layout_ok l \<Longrightarrow> (\<And>tid. t = Some tid \<Longrightarrow> tid \<in> set (ls_toplevels l)) \<Longrightarrow> layout_ok (l\<lparr>ls_magnified := t\<rparr>)"
  by (simp add: layout_ok_def struct_ok_upd)

lemma stru_mem: "stru c d \<Longrightarrow> mem (lm_active (dk_lm d)) d" "stru c d \<Longrightarrow> mem (lm_magnified (dk_lm d)) d"
  "stru c d \<Longrightarrow> mem (lm_input_to_toplevel (dk_lm d) xid) d" "stru c d \<Longrightarrow> get_top tid d \<noteq> None \<Longrightarrow> mem (Some tid) d"
proof -
  note l = lview_lm[of d, OF refl]
  assume s: "stru c d"
  then show "mem (lm_active (dk_lm d)) d" "mem (lm_magnified (dk_lm d)) d" using l by (auto simp: stru_def mem_def struct_ok_def)
  have t: "ls_tops (snd (lview d)) tid \<noteq> None \<longleftrightarrow> tid \<in> set (ls_toplevels (snd (lview d)))" for tid
    using s by (simp add: stru_def struct_ok_def)
  have i: "ls_input (snd (lview d)) xid = Some tid \<Longrightarrow> ls_tops (snd (lview d)) tid \<noteq> None" for tid
    using s by (force simp: stru_def struct_ok_def)
  then show "mem (lm_input_to_toplevel (dk_lm d) xid) d" using t l by (simp add: mem_def)
  have "ls_tops (snd (lview d)) tid \<noteq> None \<longleftrightarrow> get_top tid d \<noteq> None"
    by (simp add: get_top_def lview_def lstate_of_def Let_def)
  then show "mem (Some tid) d" if "get_top tid d \<noteq> None" using that t[of tid] l by (simp add: mem_def)
qed

lemma good_SetMagnified: "good c d \<Longrightarrow> mem t d \<Longrightarrow> ens (\<lambda>d'. good c d' \<and> lm_mode (dk_lm d') = lm_mode (dk_lm d)) (SetMagnifiedToplevelWindow C t d)"
  by (rule ens_mono[OF ens_SetMagnified]) (auto simp: good_def mem_def lview_lm[OF refl] layout_ok_magnified)

lemma stru_SetMagnified:
  "stru c d \<Longrightarrow> mem t d \<Longrightarrow> ens (\<lambda>d'. stru c d' \<and> lm_mode (dk_lm d') = lm_mode (dk_lm d) \<and> lm_active (dk_lm d') = lm_active (dk_lm d))
     (SetMagnifiedToplevelWindow C t d)"
  by (rule ens_mono[OF ens_SetMagnified]) (auto simp: stru_def mem_def lview_lm[OF refl] struct_ok_upd)

section \<open>Active windows and modes\<close>

lemma lview_set_mode [simp]: "lview (upd_lm (\<lambda>m. m\<lparr>lm_mode := a\<rparr>) d) = apsnd (\<lambda>l. l\<lparr>ls_mode := a\<rparr>) (lview d)"
  by (simp add: lview_def lstate_of_def Let_def) (simp add: upd_lm_def)

lemma lview_set_under [simp]: "lview (upd_lm (\<lambda>m. m\<lparr>lm_under_floating_tab := a\<rparr>) d) = apsnd (\<lambda>l. l\<lparr>ls_under := a\<rparr>) (lview d)"
  by (simp add: lview_def lstate_of_def Let_def) (simp add: upd_lm_def)

lemma stru_set_active: "stru c d \<Longrightarrow> mem t d \<Longrightarrow> stru c (upd_lm (\<lambda>m. m\<lparr>lm_active := t\<rparr>) d)"
  by (auto simp: stru_def mem_def lview_lm[OF refl] struct_ok_upd)

lemma mem_upd_lm [simp]: "mem t (upd_lm (\<lambda>m. m\<lparr>lm_active := a\<rparr>) d) = mem t d"
  by (simp add: mem_def upd_lm_def)

lemma stru_set_mode: "stru c d \<Longrightarrow> stru c (upd_lm (\<lambda>m. m\<lparr>lm_mode := b\<rparr>) d)"
  by (simp add: stru_def struct_ok_upd)

lemma good_SetActive_other:
  fixes d :: "('x, 'd) ldesk_scheme" and C :: "('x, 'c) layctx_scheme"
  assumes "stru c d" "mem (Some tid) d" "lm_mode (dk_lm d) = MODE_ACTIVE" "lm_active (dk_lm d) \<noteq> Some tid"
  shows "ens (good c) (SetActiveToplevelWindow C tid new old d)"
proof -
  have s: "stru c (upd_top t (\<lambda>t. t\<lparr>tl_state := s\<rparr>) d) = stru c d" "mem x (upd_top t (\<lambda>t. t\<lparr>tl_state := s\<rparr>) d) = mem x d"
    for t s x and d :: "('x, 'd) ldesk_scheme"
    by (simp add: stru_def struct_ok_set_st) (simp add: mem_def upd_top_def upd_lm_def)
  from assms show ?thesis
    unfolding SetActiveToplevelWindow_def Let_def
    by - (intro lens good_LayoutActive stru_set_active | rule ens_any | simp add: s)+
qed

lemma good_SetActive: "good c d \<Longrightarrow> mem (Some tid) d \<Longrightarrow> ens (good c) (SetActiveToplevelWindow C tid new old d)"
  using good_SetActive_other[OF good_stru, of c d tid C new old] ens_Some[of "good c" d]
  by (cases "lm_mode (dk_lm d) \<noteq> MODE_ACTIVE \<or> lm_active (dk_lm d) = Some tid") (auto simp: SetActiveToplevelWindow_def)

lemma bview_lview: "bview d' = bview d \<Longrightarrow> lview d' = lview (d :: ('x, 'd) ldesk_scheme)"
proof -
  assume b: "bview d' = bview d"
  have "dk_lm d' = dk_lm d" using b by (cases d; cases d') (simp add: bview_def)
  with bview_cview[OF b] show ?thesis by (simp add: lview_def lstate_of_def)
qed

lemma lview_Layout_TakeFocus [lview_rules]: "Layout_TakeFocus C d = Some (ok, d') \<Longrightarrow> lview d' = lview d"
  by (auto simp: Layout_TakeFocus_def bind_eq_Some_iff split: option.splits if_splits dest!: lview_Toplevel_TakeFocus kview_lview_rules)

lemma lview_wm_TakeFocus [lview_rules]: "wm_TakeFocus C d = Some d' \<Longrightarrow> lview d' = lview d"
proof -
  have "keeps lview (Layout_TakeFocus C)" for C :: "('x, 'c) layctx_scheme"
    unfolding keeps_def using bview_lview lview_Layout_TakeFocus by blast
  from ens_WindowManager_TakeFocus[OF this] show "wm_TakeFocus C d = Some d' \<Longrightarrow> lview d' = lview d"
    unfolding wm_TakeFocus_def by (rule ens_lview)
qed

lemma lview_on_keys [lview_rules]: "on_keys f d = Some d' \<Longrightarrow> lview d' = lview d"
  by (auto simp: on_keys_def bind_eq_Some_iff)

lemma lview_mode_keys [lview_rules]:
  "AddKeyBindingsForMode C m d = Some d' \<Longrightarrow> lview d' = lview d"
  "RemoveKeyBindingsForMode C' m' d = Some d' \<Longrightarrow> lview d' = lview d"
  unfolding AddKeyBindingsForMode_def RemoveKeyBindingsForMode_def by (rule lview_on_keys, assumption)+

lemma stru_pair: "(\<And>d'. m = Some d' \<Longrightarrow> lview d' = lview d) \<Longrightarrow> stru c d \<Longrightarrow> ens (stru c) m"
  unfolding ens_def stru_def by simp

lemma enter_active_good:
  fixes d :: "('x, 'd) ldesk_scheme" and C :: "('x, 'c) layctx_scheme"
  assumes "stru c d"
  shows "ens (good c) (enter_active_mode C d)"
proof -
  have s1: "stru c (if (FLAGS_lm_new_overview_mode C \<or> lm_active (dk_lm d) = None) \<and> lm_magnified (dk_lm d) \<noteq> None
      then upd_lm (\<lambda>m. m\<lparr>lm_active := lm_magnified m\<rparr>) d else d)" if "stru c d" for d :: "('x, 'd) ldesk_scheme"
    using stru_set_active[OF that stru_mem(2)[OF that]] that by (simp add: upd_lm_def)
  have s2: "stru c (if lm_active (dk_lm d) = None
      then (case lm_toplevels (dk_lm d) of [] \<Rightarrow> d | first # _ \<Rightarrow> upd_lm (\<lambda>m. m\<lparr>lm_active := Some first\<rparr>) d) else d)"
    if "stru c d" for d :: "('x, 'd) ldesk_scheme"
    using that by (auto intro!: stru_set_active simp: mem_def split: list.splits)
  have b: "ens (stru c) (case lm_create_browser_window (dk_lm d) of None \<Rightarrow> Some d
      | Some win \<Rightarrow> do { d \<leftarrow> on_win win HideComposited d; ask_to_do win (MoveClientOffscreen C (offscreen d)) d })"
    by (rule stru_pair[OF _ assms])
      (auto simp: bind_eq_Some_iff split: option.splits dest!: kview_lview_rules lview_ask_to_do)
  have m: "ens (stru c) (if \<not> FLAGS_lm_new_overview_mode C then SetMagnifiedToplevelWindow C None d else Some d)"
    if "stru c d" for d :: "('x, 'd) ldesk_scheme"
    using ens_mono[OF stru_SetMagnified[OF that mem_None, of C]] that by (auto simp: ens_Some)
  show ?thesis
    unfolding enter_active_mode_def Let_def
    apply (rule ens_bind, rule ens_mono[OF b])
    apply (rule ens_bind, rule ens_mono, rule m, rule s2, erule s1)
    by (erule good_LayoutActive)
qed

lemma stru_lview: "stru c d \<Longrightarrow> lview d' = lview d \<Longrightarrow> stru c d'"
  by (simp add: stru_def)

lemma lm_lview: "lview d' = lview d \<Longrightarrow> lm_mode (dk_lm d') = lm_mode (dk_lm d) \<and> lm_active (dk_lm d') = lm_active (dk_lm d) \<and>
    lm_magnified (dk_lm d') = lm_magnified (dk_lm d) \<and> lm_toplevels (dk_lm d') = lm_toplevels (dk_lm d)"
  by (simp add: lview_lm[OF refl])

lemma enter_overview_good:
  fixes d :: "('x, 'd) ldesk_scheme" and C :: "('x, 'c) layctx_scheme"
  assumes "stru c d" "lm_mode (dk_lm d) = MODE_OVERVIEW"
  shows "ens (good c) (enter_overview_mode C d)"
proof -
  let ?P = "\<lambda>d. stru c d \<and> lm_mode (dk_lm d) = MODE_OVERVIEW"
  have K: "ens ?P m" if "?P d" "\<And>d'. m = Some d' \<Longrightarrow> lview d' = lview d" for m and d :: "('x, 'd) ldesk_scheme"
    unfolding ens_def using that stru_lview lm_lview by metis
  have b: "ens ?P (case lm_create_browser_window (dk_lm d) of None \<Rightarrow> Some d | Some win \<Rightarrow> on_win win ShowComposited d)"
    by (rule K[of d]) (use assms in \<open>auto split: option.splits dest: kview_lview_rules\<close>)
  have m: "ens ?P (SetMagnifiedToplevelWindow C (if FLAGS_lm_new_overview_mode C then lm_active (dk_lm d) else None) d)"
    if "?P d" for d :: "('x, 'd) ldesk_scheme"
    using that by (intro ens_mono[OF stru_SetMagnified]) (auto intro: stru_mem)
  have f: "ens ?P (if focused then wm_TakeFocus C (snd (SetActiveWindowProperty C XNone d)) else Some d)"
    if "?P d" for focused and d :: "('x, 'd) ldesk_scheme"
    by (rule K[OF that]) (auto split: if_splits dest: lview_wm_TakeFocus)
  show ?thesis
    unfolding enter_overview_mode_def
    apply (rule ens_bind, rule ens_mono[OF b])
    apply (rule ens_bind, rule ens_mono, erule m)
    apply (rule ens_bind, rule ens_any)
    apply (rule ens_bind, rule ens_mono, erule f)
    by (rule ens_mono[OF good_LayoutOverview]) auto
qed

lemma ens_keep: "(\<And>d'. m = Some d' \<Longrightarrow> lview d' = lview d) \<Longrightarrow> good c d \<Longrightarrow> ens (good c) m"
  unfolding ens_def good_def by simp

lemma good_SetMode:
  fixes d :: "('x, 'd) ldesk_scheme" and C :: "('x, 'c) layctx_scheme"
  assumes "stru c d"
  shows "ens (good c) (SetMode C mode d)"
proof -
  have e: "ens (good c) (case mode of MODE_ACTIVE \<Rightarrow> enter_active_mode C d | MODE_OVERVIEW \<Rightarrow> enter_overview_mode C d)"
    if "stru c d" "lm_mode (dk_lm d) = mode" for d :: "('x, 'd) ldesk_scheme"
    using that by (cases mode) (auto intro: enter_active_good enter_overview_good)
  show ?thesis
    unfolding SetMode_def Let_def
    apply (rule ens_bind, rule ens_mono, rule stru_pair[OF _ assms], erule lview_rules)
    apply (rule ens_bind, rule ens_mono, rule e, erule stru_set_mode, simp add: upd_lm_def)
    apply (rule ens_bind, rule ens_mono, rule ens_keep, erule lview_rules, assumption)
    by (rule ens_keep, erule lview_send_modes)
qed

lemma good_activate: "stru c d \<Longrightarrow> mem t d \<Longrightarrow> ens (good c) (activate C t d)"
  unfolding activate_def by (rule good_SetMode, rule stru_set_active)

section \<open>The area\<close>

lemma lview_resize_toplevels [lview_rules]: "resize_toplevels C g tids d = Some d' \<Longrightarrow> lview d' = lview d"
  by (induction tids arbitrary: d) (auto simp: bind_eq_Some_iff split: if_splits dest!: lview_ask_to_do)

lemma lview_area: "lview (upd_lm (\<lambda>m. m\<lparr>lm_x := x, lm_y := y, lm_width := w, lm_height := h, lm_overview_height := o'\<rparr>) d) = lview d"
  by (rule lview_upd_lm) simp

lemma fst_MoveAndResize: "ens (\<lambda>d'. fst (lview d') = fst (lview d)) (MoveAndResize C x y w h d)"
  unfolding MoveAndResize_def Let_def
  by (intro lens | (rule ens_step, erule lview_rules) | (rule ens_mono, rule ens_LayoutActive ens_LayoutOverview)
      | simp add: lview_area lay_out_ok(2))+

lemma good_MoveAndResize: "good c d \<Longrightarrow> ens (good c) (MoveAndResize C x y w h d)"
proof -
  assume g: "good c d"
  let ?u = "upd_lm (\<lambda>m. m\<lparr>lm_x := x, lm_y := y, lm_width := w, lm_height := h,
             lm_overview_height := dbl_to_int (dbl_mult kOverviewHeightFraction (of_int h))\<rparr>) d"
  have s: "stru c d'" if "lview d' = lview ?u" for d'
    using good_stru[OF g] that by (simp add: lview_area stru_def)
  have o: "ens (good c) (LayoutToplevelWindowsForOverviewMode C mx d')" if "stru c d'" "lm_mode (dk_lm d') = MODE_OVERVIEW" for mx d'
    by (rule ens_mono[OF good_LayoutOverview[OF that]]) simp
  show ?thesis
    unfolding MoveAndResize_def Let_def
    by (intro lens | (rule ens_step, erule lview_rules) | rule good_LayoutActive o s | simp add: g)+
qed

section \<open>The two managers together\<close>

interpretation managers: panel_host "HandleLayoutManagerAreaChange C" "Layout_TakeFocus C"
  for C :: "('x, 'c) layctx_scheme"
proof
  fix x y w h and d d' :: "('x, 'd) ldesk_scheme"
  assume "HandleLayoutManagerAreaChange C x y w h d = Some d'"
  from ensD[OF fst_MoveAndResize this[unfolded HandleLayoutManagerAreaChange_def]] show "cview d' = cview d"
    by (simp add: lview_def)
next
  fix ok and d d' :: "('x, 'd) ldesk_scheme"
  assume "Layout_TakeFocus C d = Some (ok, d')"
  from lview_Layout_TakeFocus[OF this] show "cview d' = cview d" by (simp add: lview_def)
qed


definition demo_layctx :: "nat layctx" where
  "demo_layctx = \<lparr>wm_xconn = demo_conn, wm_atom = (\<lambda>_. 1), wm_ipc_ctx = wm_ipc_ctx demo_ctx,
     wm_shadow_dims = wm_shadow_dims demo_ctx, FLAGS_window_drop_shadows = False,
     wm_root = 1, wm_xid = 2, wm_top_win = 3, FLAGS_wm_use_compositing = True, g_timeout_add = (\<lambda>x. (x, Suc x)),
     pc_stacking = \<lparr>layer_to_xid = [(0, 10), (1, 11), (2, 12), (3, 13), (4, 14), (5, 15), (6, 16), (7, 17), (8, 18), (9, 19), (10, 20), (11, 21)],
       layer_to_actor = [(0, LayerActor 0), (1, LayerActor 1), (2, LayerActor 2), (3, LayerActor 3), (4, LayerActor 4), (5, LayerActor 5),
         (6, LayerActor 6), (7, LayerActor 7), (8, LayerActor 8), (9, LayerActor 9), (10, LayerActor 10), (11, LayerActor 11)],
       sm_xids = [10, 11, 12, 13, 14, 15, 16, 17, 18, 19, 20, 21]\<rparr>,
     pc_panel_manager = 1,
     FLAGS_panel_max_width = 0, FLAGS_panel_max_height = 0, FLAGS_panel_opaque_resize = False, pc_anchor_size = (64, 16),
     lc_layout_manager = 2, lc_background_xid = 4, FLAGS_lm_honor_window_size_hints = False,
     FLAGS_lm_new_overview_mode = False, lc_gradient_size = (8, 8), lc_keycode = (\<lambda>_. 1), lc_lower = (\<lambda>k. k)\<rparr>"

definition demo_panel_window :: "xid \<Rightarrow> int \<Rightarrow> int list \<Rightarrow> window" where
  "demo_panel_window xid ty params = demo_window\<lparr>w_xid := xid, w_type := ty, w_type_params := params, client_width := 200, client_height := 300\<rparr>"

definition idle_coalescer :: coalescer where
  "idle_coalescer = \<lparr>mc_timer_id = 0, mc_timeout_ms = 1, mc_have_queued_position = False, mc_x = 0, mc_y = 0,
     mc_synchronous = False, mc_log = []\<rparr>"

definition demo_ldesk :: "nat ldesk" where
  "demo_ldesk = \<lparr>dk_env = \<lparr>es_x = 200, es_clutter = []\<rparr>,
     dk_windows = [101 \<mapsto> demo_panel_window 101 WINDOW_TYPE_CHROME_PANEL_CONTENT [102, 1],
                   102 \<mapsto> demo_panel_window 102 WINDOW_TYPE_CHROME_PANEL_TITLEBAR []],
     dk_width = 1024, dk_height = 600, dk_active_window_xid = 0,
     dk_consumers = \<lparr>window_event_consumers = [], property_change_event_consumers = [], chrome_message_event_consumers = []\<rparr>,
     dk_panels = (\<lambda>_. None), dk_bar = empty_bar (new_EventConsumerRegistrar 1) 0 0,
     dk_dock = (\<lambda>_. \<lparr>dock_x = 0, dock_y = 0, dock_width = 0, dock_height = 0, dock_panels = [], dock_dragged_panel = None,
        dock_shadow = \<lparr>sw_is_shown = False, sw_opacity = 0\<rparr>, dock_input_xid = 0, dock_registrar = new_EventConsumerRegistrar 1\<rparr>),
     dk_pm = \<lparr>pm_panels = [], pm_panels_by_titlebar_xid = (\<lambda>_. None), pm_dragged_panel = None, pm_coalescer = idle_coalescer,
        pm_container_input_xids = (\<lambda>_. None), pm_panel_input_xids = (\<lambda>_. None), pm_containers = [],
        pm_containers_by_panel = (\<lambda>_. None), pm_saw_map_request = False, pm_registrar = new_EventConsumerRegistrar 1\<rparr>,
     dk_wm_ipc_version = 1,
     dk_lm = empty_layout idle_coalescer idle_coalescer (new_EventConsumerRegistrar 2) 0 0 False,
     dk_key_bindings = new_KeyBindings, dk_layout_area = (0, 0, 1024, 600)\<rparr>"


lemma demo_layers:
  "GetXidForLayer (pc_stacking demo_layctx) 7 = Some 17" "GetActorForLayer (pc_stacking demo_layctx) 7 = Some (LayerActor 7)"
  "GetXidForLayer (pc_stacking demo_layctx) 4 = Some 14" "GetActorForLayer (pc_stacking demo_layctx) 4 = Some (LayerActor 4)"
  by (simp_all add: demo_layctx_def GetXidForLayer_def GetActorForLayer_def)

lemma demo_fields: "wm_xconn demo_layctx = demo_conn" "FLAGS_wm_use_compositing demo_layctx"
  "CreateWindow demo_conn r x y w h b c m n = (n, Suc n)" "x_request demo_conn q n = (True, Suc n)"
  by (simp_all add: demo_layctx_def demo_conn_def)

lemma demo_desk_request: "desk_request demo_layctx r d = (True, on_env (\<lambda>e. e\<lparr>es_x := Suc (es_x e)\<rparr>) d)"
  by (cases d) (simp add: desk_request_def request_def demo_fields on_env_def)

lemma on_env_on_env: "on_env f (on_env g d) = on_env (\<lambda>e. f (g e)) d"
  by (simp add: on_env_def)

lemma dk_env_on_env: "dk_env (on_env f d) = f (dk_env d)"
  by (simp add: on_env_def)

lemma demo_create:
  "0 < es_x (dk_env d) \<Longrightarrow>
   CreateInputWindow demo_layctx x y w h m d = Some (es_x (dk_env d), on_env (\<lambda>e. e\<lparr>es_x := es_x e + 3\<rparr>) d)"
  by (simp add: CreateInputWindow_def demo_desk_request demo_fields on_env_def)

lemma es_x_calls [simp]:
  "es_x (call a c e) = es_x e" "es_x (calls cs e) = es_x e" "es_x (Shadow_Resize ds s w h ms e) = es_x e"
  by (simp_all add: call_def calls_def Shadow_Resize_def Let_def split: prod.splits)

lemma demo_new_PanelBar:
  assumes "0 < es_x (dk_env d)"
  shows "\<exists>d'. new_PanelBar demo_layctx d = Some d' \<and> es_x (dk_env d') = es_x (dk_env d) + 8
    \<and> Bar_GetInputWindows (dk_bar d') = [es_x (dk_env d), es_x (dk_env d) + 3]"
  using assms
  by (simp add: new_PanelBar_def demo_create demo_layers demo_desk_request on_env_on_env StackXidAtTopOfLayer_def
        StackActorAtTopOfLayer_def split_beta dk_env_on_env)
    (simp add: on_env_def empty_bar_def Bar_GetInputWindows_def)

lemma demo_new_PanelDock:
  assumes "0 < es_x (dk_env d)"
  shows "\<exists>d'. new_PanelDock demo_layctx t width d = Some d' \<and> es_x (dk_env d') = es_x (dk_env d) + 4 \<and> dk_bar d' = dk_bar d
    \<and> dock_input_xid (dk_dock d' t) = es_x (dk_env d) \<and> (\<forall>s. s \<noteq> t \<longrightarrow> dk_dock d' s = dk_dock d s)"
proof -
  obtain s e where s: "new_Shadow (wm_shadow_dims demo_layctx) (dock_sh t) (dk_env d) = (s, e)" by (metis surj_pair)
  have e: "es_x e = es_x (dk_env d)" using s by (auto simp: new_Shadow_def Shadow_Hide_def Shadow_SetOpacity_def Let_def)
  show ?thesis
    using assms
    by (simp add: new_PanelDock_def s demo_create demo_layers demo_desk_request on_env_on_env StackXidAtTopOfLayer_def
          StackActorAtTopOfLayer_def split_beta on_dock_shadow_def upd_dock_def Shadow_SetOpacity_def Shadow_Show_def
          Shadow_Move_def dk_env_on_env e)
      (simp add: on_env_def Let_def e)
qed

lemma demo_new_PanelManager: "\<exists>d. new_PanelManager demo_layctx demo_ldesk = Some d"
proof -
  have x: "es_x (dk_env demo_ldesk) = 200" by (simp add: demo_ldesk_def)
  obtain b where b: "new_PanelBar demo_layctx demo_ldesk = Some b" "es_x (dk_env b) = 208" "Bar_GetInputWindows (dk_bar b) = [200, 203]"
    using demo_new_PanelBar[of demo_ldesk] by (auto simp: x)
  obtain l where l: "new_PanelDock demo_layctx DOCK_TYPE_LEFT kPanelDockWidth b = Some l" "es_x (dk_env l) = 212" "dk_bar l = dk_bar b"
    "dock_input_xid (dk_dock l DOCK_TYPE_LEFT) = 208"
    using demo_new_PanelDock[of b DOCK_TYPE_LEFT kPanelDockWidth] by (auto simp: b)
  obtain r where r: "new_PanelDock demo_layctx DOCK_TYPE_RIGHT kPanelDockWidth l = Some r" "dk_bar r = dk_bar b"
    "dock_input_xid (dk_dock r DOCK_TYPE_RIGHT) = 212" "dock_input_xid (dk_dock r DOCK_TYPE_LEFT) = 208"
    using demo_new_PanelDock[of l DOCK_TYPE_RIGHT kPanelDockWidth] by (auto simp: l)
  show ?thesis
    by (simp add: new_PanelManager_def new_MotionEventCoalescer_def kDraggedPanelUpdateMs_def b l r split_beta RegisterContainer_def
        Container_GetInputWindows_def Dock_GetInputWindows_def map_insert_def upd_pm_def Let_def)
qed


end
