(* ===== verification/VB_Sha.thy ===== *)
theory VB_Sha
  imports Prelude
begin

text \<open>
  The message digests of verified boot (\<open>vboot_reference/crypto/sha1.c\<close>, \<open>sha2.c\<close>, \<open>sha_utility.c\<close>,
  \<open>include/sha.h\<close>).

  SHA-256 and SHA-512 have the same code up to the word size and the constants; the definitions
  with the prefix \<open>SHA2\<close> have these as arguments. Data of \<open>len\<close> bytes is a list of that length, below \<open>2 ^ 31\<close>
  because \<open>len\<close> is an \<open>int\<close>. SHA-1 is the portable version of the code.
\<close>

unbundle bit_operations_syntax

section \<open>Bytes and words\<close>

definition PACK32 :: "byte list \<Rightarrow> 32 word" where
  "PACK32 s = ucast (s ! 3) OR push_bit 8 (ucast (s ! 2)) OR push_bit 16 (ucast (s ! 1)) OR push_bit 24 (ucast (s ! 0))"

definition PACK64 :: "byte list \<Rightarrow> 64 word" where
  "PACK64 s = ucast (s ! 7) OR push_bit 8 (ucast (s ! 6)) OR push_bit 16 (ucast (s ! 5)) OR push_bit 24 (ucast (s ! 4))
     OR push_bit 32 (ucast (s ! 3)) OR push_bit 40 (ucast (s ! 2)) OR push_bit 48 (ucast (s ! 1)) OR push_bit 56 (ucast (s ! 0))"

definition UNPACK32 :: "32 word \<Rightarrow> byte list" where
  "UNPACK32 x = [ucast (drop_bit 24 x), ucast (drop_bit 16 x), ucast (drop_bit 8 x), ucast x]"

definition UNPACK64 :: "64 word \<Rightarrow> byte list" where
  "UNPACK64 x = [ucast (drop_bit 56 x), ucast (drop_bit 48 x), ucast (drop_bit 40 x), ucast (drop_bit 32 x),
     ucast (drop_bit 24 x), ucast (drop_bit 16 x), ucast (drop_bit 8 x), ucast x]"

text \<open>\<open>memcpy(xs + i, ys, length ys)\<close> within the array \<open>xs\<close>.\<close>

definition memcpy_at :: "'a list \<Rightarrow> nat \<Rightarrow> 'a list \<Rightarrow> 'a list" where
  "memcpy_at xs i ys = take i xs @ ys @ drop (i + length ys) xs"

section \<open>The functions of SHA-2\<close>

definition ROTR :: "nat \<Rightarrow> 'a::len word \<Rightarrow> 'a word" where
  "ROTR n x = drop_bit n x OR push_bit (LENGTH('a) - n) x"

definition CH :: "'a::len word \<Rightarrow> 'a word \<Rightarrow> 'a word \<Rightarrow> 'a word" where
  "CH x y z = (x AND y) XOR (NOT x AND z)"

definition MAJ :: "'a::len word \<Rightarrow> 'a word \<Rightarrow> 'a word \<Rightarrow> 'a word" where
  "MAJ x y z = (x AND y) XOR (x AND z) XOR (y AND z)"

definition SHA256_F1 :: "32 word \<Rightarrow> 32 word" where "SHA256_F1 x = ROTR 2 x XOR ROTR 13 x XOR ROTR 22 x"
definition SHA256_F2 :: "32 word \<Rightarrow> 32 word" where "SHA256_F2 x = ROTR 6 x XOR ROTR 11 x XOR ROTR 25 x"
definition SHA256_F3 :: "32 word \<Rightarrow> 32 word" where "SHA256_F3 x = ROTR 7 x XOR ROTR 18 x XOR drop_bit 3 x"
definition SHA256_F4 :: "32 word \<Rightarrow> 32 word" where "SHA256_F4 x = ROTR 17 x XOR ROTR 19 x XOR drop_bit 10 x"

definition SHA512_F1 :: "64 word \<Rightarrow> 64 word" where "SHA512_F1 x = ROTR 28 x XOR ROTR 34 x XOR ROTR 39 x"
definition SHA512_F2 :: "64 word \<Rightarrow> 64 word" where "SHA512_F2 x = ROTR 14 x XOR ROTR 18 x XOR ROTR 41 x"
definition SHA512_F3 :: "64 word \<Rightarrow> 64 word" where "SHA512_F3 x = ROTR 1 x XOR ROTR 8 x XOR drop_bit 7 x"
definition SHA512_F4 :: "64 word \<Rightarrow> 64 word" where "SHA512_F4 x = ROTR 19 x XOR ROTR 61 x XOR drop_bit 6 x"

text \<open>The tables of constants, each constant as its upper and its lower half.\<close>

definition w32 :: "32 word \<Rightarrow> 32 word \<Rightarrow> 32 word" where "w32 hi lo = push_bit 16 hi OR lo"
definition w64 :: "64 word \<Rightarrow> 64 word \<Rightarrow> 64 word" where "w64 hi lo = push_bit 32 hi OR lo"

definition sha256_h0 :: "32 word list" where
  "sha256_h0 = [
   w32 0x6a09 0xe667, w32 0xbb67 0xae85, w32 0x3c6e 0xf372, w32 0xa54f 0xf53a,
   w32 0x510e 0x527f, w32 0x9b05 0x688c, w32 0x1f83 0xd9ab, w32 0x5be0 0xcd19]"

definition sha512_h0 :: "64 word list" where
  "sha512_h0 = [
   w64 0x6a09e667 0xf3bcc908, w64 0xbb67ae85 0x84caa73b, w64 0x3c6ef372 0xfe94f82b, w64 0xa54ff53a 0x5f1d36f1,
   w64 0x510e527f 0xade682d1, w64 0x9b05688c 0x2b3e6c1f, w64 0x1f83d9ab 0xfb41bd6b, w64 0x5be0cd19 0x137e2179]"

definition sha256_k :: "32 word list" where
  "sha256_k = [
   w32 0x428a 0x2f98, w32 0x7137 0x4491, w32 0xb5c0 0xfbcf, w32 0xe9b5 0xdba5,
   w32 0x3956 0xc25b, w32 0x59f1 0x11f1, w32 0x923f 0x82a4, w32 0xab1c 0x5ed5,
   w32 0xd807 0xaa98, w32 0x1283 0x5b01, w32 0x2431 0x85be, w32 0x550c 0x7dc3,
   w32 0x72be 0x5d74, w32 0x80de 0xb1fe, w32 0x9bdc 0x06a7, w32 0xc19b 0xf174,
   w32 0xe49b 0x69c1, w32 0xefbe 0x4786, w32 0x0fc1 0x9dc6, w32 0x240c 0xa1cc,
   w32 0x2de9 0x2c6f, w32 0x4a74 0x84aa, w32 0x5cb0 0xa9dc, w32 0x76f9 0x88da,
   w32 0x983e 0x5152, w32 0xa831 0xc66d, w32 0xb003 0x27c8, w32 0xbf59 0x7fc7,
   w32 0xc6e0 0x0bf3, w32 0xd5a7 0x9147, w32 0x06ca 0x6351, w32 0x1429 0x2967,
   w32 0x27b7 0x0a85, w32 0x2e1b 0x2138, w32 0x4d2c 0x6dfc, w32 0x5338 0x0d13,
   w32 0x650a 0x7354, w32 0x766a 0x0abb, w32 0x81c2 0xc92e, w32 0x9272 0x2c85,
   w32 0xa2bf 0xe8a1, w32 0xa81a 0x664b, w32 0xc24b 0x8b70, w32 0xc76c 0x51a3,
   w32 0xd192 0xe819, w32 0xd699 0x0624, w32 0xf40e 0x3585, w32 0x106a 0xa070,
   w32 0x19a4 0xc116, w32 0x1e37 0x6c08, w32 0x2748 0x774c, w32 0x34b0 0xbcb5,
   w32 0x391c 0x0cb3, w32 0x4ed8 0xaa4a, w32 0x5b9c 0xca4f, w32 0x682e 0x6ff3,
   w32 0x748f 0x82ee, w32 0x78a5 0x636f, w32 0x84c8 0x7814, w32 0x8cc7 0x0208,
   w32 0x90be 0xfffa, w32 0xa450 0x6ceb, w32 0xbef9 0xa3f7, w32 0xc671 0x78f2]"

definition sha512_k :: "64 word list" where
  "sha512_k = [
   w64 0x428a2f98 0xd728ae22, w64 0x71374491 0x23ef65cd, w64 0xb5c0fbcf 0xec4d3b2f, w64 0xe9b5dba5 0x8189dbbc,
   w64 0x3956c25b 0xf348b538, w64 0x59f111f1 0xb605d019, w64 0x923f82a4 0xaf194f9b, w64 0xab1c5ed5 0xda6d8118,
   w64 0xd807aa98 0xa3030242, w64 0x12835b01 0x45706fbe, w64 0x243185be 0x4ee4b28c, w64 0x550c7dc3 0xd5ffb4e2,
   w64 0x72be5d74 0xf27b896f, w64 0x80deb1fe 0x3b1696b1, w64 0x9bdc06a7 0x25c71235, w64 0xc19bf174 0xcf692694,
   w64 0xe49b69c1 0x9ef14ad2, w64 0xefbe4786 0x384f25e3, w64 0x0fc19dc6 0x8b8cd5b5, w64 0x240ca1cc 0x77ac9c65,
   w64 0x2de92c6f 0x592b0275, w64 0x4a7484aa 0x6ea6e483, w64 0x5cb0a9dc 0xbd41fbd4, w64 0x76f988da 0x831153b5,
   w64 0x983e5152 0xee66dfab, w64 0xa831c66d 0x2db43210, w64 0xb00327c8 0x98fb213f, w64 0xbf597fc7 0xbeef0ee4,
   w64 0xc6e00bf3 0x3da88fc2, w64 0xd5a79147 0x930aa725, w64 0x06ca6351 0xe003826f, w64 0x14292967 0x0a0e6e70,
   w64 0x27b70a85 0x46d22ffc, w64 0x2e1b2138 0x5c26c926, w64 0x4d2c6dfc 0x5ac42aed, w64 0x53380d13 0x9d95b3df,
   w64 0x650a7354 0x8baf63de, w64 0x766a0abb 0x3c77b2a8, w64 0x81c2c92e 0x47edaee6, w64 0x92722c85 0x1482353b,
   w64 0xa2bfe8a1 0x4cf10364, w64 0xa81a664b 0xbc423001, w64 0xc24b8b70 0xd0f89791, w64 0xc76c51a3 0x0654be30,
   w64 0xd192e819 0xd6ef5218, w64 0xd6990624 0x5565a910, w64 0xf40e3585 0x5771202a, w64 0x106aa070 0x32bbd1b8,
   w64 0x19a4c116 0xb8d2d0c8, w64 0x1e376c08 0x5141ab53, w64 0x2748774c 0xdf8eeb99, w64 0x34b0bcb5 0xe19b48a8,
   w64 0x391c0cb3 0xc5c95a63, w64 0x4ed8aa4a 0xe3418acb, w64 0x5b9cca4f 0x7763e373, w64 0x682e6ff3 0xd6b2b8a3,
   w64 0x748f82ee 0x5defb2fc, w64 0x78a5636f 0x43172f60, w64 0x84c87814 0xa1f0ab72, w64 0x8cc70208 0x1a6439ec,
   w64 0x90befffa 0x23631e28, w64 0xa4506ceb 0xde82bde9, w64 0xbef9a3f7 0xb2c67915, w64 0xc67178f2 0xe372532b,
   w64 0xca273ece 0xea26619c, w64 0xd186b8c7 0x21c0c207, w64 0xeada7dd6 0xcde0eb1e, w64 0xf57d4f7f 0xee6ed178,
   w64 0x06f067aa 0x72176fba, w64 0x0a637dc5 0xa2c898a6, w64 0x113f9804 0xbef90dae, w64 0x1b710b35 0x131c471b,
   w64 0x28db77f5 0x23047d84, w64 0x32caab7b 0x40c72493, w64 0x3c9ebe0a 0x15c9bebc, w64 0x431d67c4 0x9c100d4c,
   w64 0x4cc5d4be 0xcb3e42b6, w64 0x597f299c 0xfc657e2a, w64 0x5fcb6fab 0x3ad6faec, w64 0x6c44198c 0x4a475817]"

text \<open>What distinguishes SHA-256 and SHA-512; \<open>2 ^ a_lg\<close> is the size of a block.\<close>

record 'w sha2 =
  F1 :: "'w \<Rightarrow> 'w"
  F2 :: "'w \<Rightarrow> 'w"
  F3 :: "'w \<Rightarrow> 'w"
  F4 :: "'w \<Rightarrow> 'w"
  sha_k :: "'w list"
  sha_h0 :: "'w list"
  a_pack :: "byte list \<Rightarrow> 'w"
  a_unpack :: "'w \<Rightarrow> byte list"
  a_lg :: nat

definition sha256 :: "32 word sha2" where
  "sha256 = \<lparr>F1 = SHA256_F1, F2 = SHA256_F2, F3 = SHA256_F3, F4 = SHA256_F4, sha_k = sha256_k, sha_h0 = sha256_h0,
     a_pack = PACK32, a_unpack = UNPACK32, a_lg = 6\<rparr>"

definition sha512 :: "64 word sha2" where
  "sha512 = \<lparr>F1 = SHA512_F1, F2 = SHA512_F2, F3 = SHA512_F3, F4 = SHA512_F4, sha_k = sha512_k, sha_h0 = sha512_h0,
     a_pack = PACK64, a_unpack = UNPACK64, a_lg = 7\<rparr>"

abbreviation a_bs :: "('a::len word, 'b) sha2_scheme \<Rightarrow> nat" where
  "a_bs A \<equiv> 2 ^ a_lg A"

section \<open>Transforming a block\<close>

text \<open>The words of the block and the message schedule, the macro \<open>SCR\<close> appending \<open>w[i]\<close>.\<close>

definition SHA2_SCR :: "('a::len word, 'b) sha2_scheme \<Rightarrow> nat \<Rightarrow> 'a word list \<Rightarrow> 'a word list" where
  "SHA2_SCR A i w = w @ [F4 A (w ! (i - 2)) + w ! (i - 7) + F3 A (w ! (i - 15)) + w ! (i - 16)]"

definition SHA2_schedule :: "('a::len word, 'b) sha2_scheme \<Rightarrow> byte list \<Rightarrow> 'a word list" where
  "SHA2_schedule A sub_block =
     fold (SHA2_SCR A) [16..<length (sha_k A)]
       (map (\<lambda>j. a_pack A (drop (j * (a_bs A div 16)) sub_block)) [0..<16])"

text \<open>One round of the loop, without \<open>UNROLL_LOOPS\<close>.\<close>

definition SHA2_round :: "('a::len word, 'b) sha2_scheme \<Rightarrow> 'a word list \<Rightarrow> nat \<Rightarrow> 'a word list \<Rightarrow> 'a word list" where
  "SHA2_round A w j wv =
     (let t1 = wv ! 7 + F2 A (wv ! 4) + CH (wv ! 4) (wv ! 5) (wv ! 6) + sha_k A ! j + w ! j;
          t2 = F1 A (wv ! 0) + MAJ (wv ! 0) (wv ! 1) (wv ! 2)
      in [t1 + t2, wv ! 0, wv ! 1, wv ! 2, wv ! 3 + t1, wv ! 4, wv ! 5, wv ! 6])"

definition SHA2_block :: "('a::len word, 'b) sha2_scheme \<Rightarrow> 'a word list \<Rightarrow> byte list \<Rightarrow> 'a word list" where
  "SHA2_block A h sub_block =
     map2 (+) h (fold (SHA2_round A (SHA2_schedule A sub_block)) [0..<length (sha_k A)] h)"

text \<open>With \<open>UNROLL_LOOPS\<close>: the variables are not shifted, the macro \<open>EXP\<close> gets them in a rotated order.\<close>

definition SHA2_EXP ::
    "('a::len word, 'b) sha2_scheme \<Rightarrow> 'a word list \<Rightarrow> nat \<Rightarrow> nat \<Rightarrow> nat \<Rightarrow> nat \<Rightarrow> nat \<Rightarrow> nat \<Rightarrow> nat \<Rightarrow> nat \<Rightarrow> nat \<Rightarrow>
     'a word list \<Rightarrow> 'a word list" where
  "SHA2_EXP A w a b c d e f g h j wv =
     (let t1 = wv ! h + F2 A (wv ! e) + CH (wv ! e) (wv ! f) (wv ! g) + sha_k A ! j + w ! j;
          t2 = F1 A (wv ! a) + MAJ (wv ! a) (wv ! b) (wv ! c)
      in wv[d := wv ! d + t1, h := t1 + t2])"

definition SHA2_EXP8 :: "('a::len word, 'b) sha2_scheme \<Rightarrow> 'a word list \<Rightarrow> nat \<Rightarrow> 'a word list \<Rightarrow> 'a word list" where
  "SHA2_EXP8 A w j wv =
     (let wv = SHA2_EXP A w 0 1 2 3 4 5 6 7 j wv;
          wv = SHA2_EXP A w 7 0 1 2 3 4 5 6 (j + 1) wv;
          wv = SHA2_EXP A w 6 7 0 1 2 3 4 5 (j + 2) wv;
          wv = SHA2_EXP A w 5 6 7 0 1 2 3 4 (j + 3) wv;
          wv = SHA2_EXP A w 4 5 6 7 0 1 2 3 (j + 4) wv;
          wv = SHA2_EXP A w 3 4 5 6 7 0 1 2 (j + 5) wv;
          wv = SHA2_EXP A w 2 3 4 5 6 7 0 1 (j + 6) wv
      in SHA2_EXP A w 1 2 3 4 5 6 7 0 (j + 7) wv)"

definition SHA2_block_unrolled :: "('a::len word, 'b) sha2_scheme \<Rightarrow> 'a word list \<Rightarrow> byte list \<Rightarrow> 'a word list" where
  "SHA2_block_unrolled A h sub_block =
     map2 (+) h (fold (SHA2_EXP8 A (SHA2_schedule A sub_block)) (map (\<lambda>i. 8 * i) [0..<length (sha_k A) div 8]) h)"

text \<open>
  \<open>transform\<close> for \<open>block_nb\<close> blocks of a message, with either version of the body.
\<close>

definition SHA2_transform ::
    "('a::len word list \<Rightarrow> byte list \<Rightarrow> 'a word list) \<Rightarrow> nat \<Rightarrow> 'a word list \<Rightarrow> byte list \<Rightarrow> nat \<Rightarrow> 'a word list" where
  "SHA2_transform body lg h message block_nb =
     fold (\<lambda>i h. body h (take (2 ^ lg) (drop (push_bit lg i) message))) [0..<block_nb] h"

section \<open>The context of SHA-2\<close>

record 'w sha2_ctx =
  sh_h :: "'w list"
  sh_tot_len :: "32 word"
  sh_len :: "32 word"
  sh_block :: "byte list"

text \<open>\<open>junk\<close> is what the uninitialised array \<open>block\<close> of two blocks holds.\<close>

definition SHA2_init :: "('a::len word, 'b) sha2_scheme \<Rightarrow> byte list \<Rightarrow> 'a word sha2_ctx" where
  "SHA2_init A junk = \<lparr>sh_h = sha_h0 A, sh_tot_len = 0, sh_len = 0, sh_block = junk\<rparr>"

definition SHA2_update ::
    "('a word list \<Rightarrow> byte list \<Rightarrow> 'a word list) \<Rightarrow> ('a::len word, 'b) sha2_scheme \<Rightarrow> byte list \<Rightarrow> 'a word sha2_ctx \<Rightarrow> 'a word sha2_ctx" where
  "SHA2_update body A data ctx =
     (let len = of_nat (length data);
          bs = 2 ^ a_lg A;
          tmp_len = bs - sh_len ctx;
          rem_len = (if len < tmp_len then len else tmp_len);
          ctx = ctx\<lparr>sh_block := memcpy_at (sh_block ctx) (unat (sh_len ctx)) (take (unat rem_len) data)\<rparr>
      in if sh_len ctx + len < bs then ctx\<lparr>sh_len := sh_len ctx + len\<rparr>
         else
          (let new_len = len - rem_len;
               block_nb = new_len div bs;
               shifted_data = drop (unat rem_len) data;
               ctx = ctx\<lparr>sh_h := SHA2_transform body (a_lg A) (sh_h ctx) (sh_block ctx) 1\<rparr>;
               ctx = ctx\<lparr>sh_h := SHA2_transform body (a_lg A) (sh_h ctx) shifted_data (unat block_nb)\<rparr>;
               rem_len = new_len mod bs
           in ctx\<lparr>sh_block := memcpy_at (sh_block ctx) 0
                    (take (unat rem_len) (drop (unat (push_bit (a_lg A) block_nb)) shifted_data)),
                  sh_len := rem_len,
                  sh_tot_len := sh_tot_len ctx + push_bit (a_lg A) (block_nb + 1)\<rparr>))"

text \<open>
  The digest, and the context with the padded block. A length field of \<open>a_bs A div 8\<close> bytes is reserved,
  of which the last four are set.
\<close>

definition SHA2_final ::
    "('a word list \<Rightarrow> byte list \<Rightarrow> 'a word list) \<Rightarrow> ('a::len word, 'b) sha2_scheme \<Rightarrow> 'a word sha2_ctx \<Rightarrow> byte list \<times> 'a word sha2_ctx" where
  "SHA2_final body A ctx =
     (let bs = 2 ^ a_lg A;
          block_nb = (1 + (if bs - (2 ^ (a_lg A - 3) + 1) < sh_len ctx mod bs then 1 else 0)) :: 32 word;
          len_b = push_bit 3 (sh_tot_len ctx + sh_len ctx);
          pm_len = push_bit (a_lg A) block_nb;
          block = memcpy_at (sh_block ctx) (unat (sh_len ctx)) (replicate (unat (pm_len - sh_len ctx)) 0);
          block = block[unat (sh_len ctx) := 0x80];
          block = memcpy_at block (unat (pm_len - 4)) (UNPACK32 len_b);
          ctx = ctx\<lparr>sh_block := block, sh_h := SHA2_transform body (a_lg A) (sh_h ctx) block (unat block_nb)\<rparr>
      in (concat (map (a_unpack A) (sh_h ctx)), ctx))"

definition SHA256_transform :: "32 word list \<Rightarrow> byte list \<Rightarrow> nat \<Rightarrow> 32 word list" where
  "SHA256_transform = SHA2_transform (SHA2_block sha256) 6"

definition SHA512_transform :: "64 word list \<Rightarrow> byte list \<Rightarrow> nat \<Rightarrow> 64 word list" where
  "SHA512_transform = SHA2_transform (SHA2_block sha512) 7"

definition SHA256_init :: "byte list \<Rightarrow> 32 word sha2_ctx" where "SHA256_init = SHA2_init sha256"
definition SHA256_update :: "byte list \<Rightarrow> 32 word sha2_ctx \<Rightarrow> 32 word sha2_ctx" where
  "SHA256_update = SHA2_update (SHA2_block sha256) sha256"
definition SHA256_final :: "32 word sha2_ctx \<Rightarrow> byte list \<times> 32 word sha2_ctx" where
  "SHA256_final = SHA2_final (SHA2_block sha256) sha256"

definition SHA512_init :: "byte list \<Rightarrow> 64 word sha2_ctx" where "SHA512_init = SHA2_init sha512"
definition SHA512_update :: "byte list \<Rightarrow> 64 word sha2_ctx \<Rightarrow> 64 word sha2_ctx" where
  "SHA512_update = SHA2_update (SHA2_block sha512) sha512"
definition SHA512_final :: "64 word sha2_ctx \<Rightarrow> byte list \<times> 64 word sha2_ctx" where
  "SHA512_final = SHA2_final (SHA2_block sha512) sha512"

text \<open>The contexts are local variables; \<open>mem\<close> is what their memory holds.\<close>

definition uninit :: "(nat \<Rightarrow> byte) \<Rightarrow> nat \<Rightarrow> byte list" where
  "uninit mem n = map mem [0..<n]"

definition SHA256 :: "(nat \<Rightarrow> byte) \<Rightarrow> byte list \<Rightarrow> byte list" where
  "SHA256 mem data = fst (SHA256_final (SHA256_update data (SHA256_init (uninit mem 128))))"

definition SHA512 :: "(nat \<Rightarrow> byte) \<Rightarrow> byte list \<Rightarrow> byte list" where
  "SHA512 mem data = fst (SHA512_final (SHA512_update data (SHA512_init (uninit mem 256))))"

section \<open>SHA-1\<close>

record sha1_ctx =
  s1_count :: "64 word"
  s1_state :: "32 word list"
  s1_buf :: "byte list"

definition rol :: "nat \<Rightarrow> 32 word \<Rightarrow> 32 word" where
  "rol bits value = push_bit bits value OR drop_bit (32 - bits) value"

definition sha1_W :: "byte list \<Rightarrow> 32 word list" where
  "sha1_W buf =
     fold (\<lambda>t W. W @ [rol 1 (W ! (t - 3) XOR W ! (t - 8) XOR W ! (t - 14) XOR W ! (t - 16))]) [16..<80]
       (map (\<lambda>t. PACK32 (drop (4 * t) buf)) [0..<16])"

definition sha1_round :: "32 word list \<Rightarrow> nat \<Rightarrow> 32 word list \<Rightarrow> 32 word list" where
  "sha1_round W t s =
     (let A = s ! 0; B = s ! 1; C = s ! 2; D = s ! 3; E = s ! 4;
          tmp = rol 5 A + E + W ! t;
          tmp = (if t < 20 then tmp + ((D XOR (B AND (C XOR D))) + 0x5A827999)
                 else if t < 40 then tmp + ((B XOR C XOR D) + 0x6ED9EBA1)
                 else if t < 60 then tmp + (((B AND C) OR (D AND (B OR C))) + 0x8F1BBCDC)
                 else tmp + ((B XOR C XOR D) + 0xCA62C1D6))
      in [tmp, A, rol 30 B, C, D])"

definition SHA1_transform :: "sha1_ctx \<Rightarrow> sha1_ctx" where
  "SHA1_transform ctx = ctx\<lparr>s1_state :=
     map2 (+) (s1_state ctx) (fold (sha1_round (sha1_W (s1_buf ctx))) [0..<80] (s1_state ctx))\<rparr>"

fun sha1_update_loop :: "nat \<Rightarrow> byte list \<Rightarrow> sha1_ctx \<Rightarrow> sha1_ctx" where
  "sha1_update_loop i [] ctx = ctx"
| "sha1_update_loop i (b # data) ctx =
     (let ctx = ctx\<lparr>s1_buf := (s1_buf ctx)[i := b]\<rparr>
      in if i + 1 = 64 then sha1_update_loop 0 data (SHA1_transform ctx) else sha1_update_loop (i + 1) data ctx)"

definition SHA1_update :: "byte list \<Rightarrow> sha1_ctx \<Rightarrow> sha1_ctx" where
  "SHA1_update data ctx =
     sha1_update_loop (unat (s1_count ctx mod 64)) data (ctx\<lparr>s1_count := s1_count ctx + of_nat (length data)\<rparr>)"

text \<open>The loop of \<open>SHA1_final\<close> that pads with zeros.\<close>

partial_function (option) sha1_pad_loop :: "sha1_ctx \<Rightarrow> sha1_ctx option" where
  [code]: "sha1_pad_loop ctx = (if s1_count ctx mod 64 \<noteq> 56 then sha1_pad_loop (SHA1_update [0] ctx) else Some ctx)"

definition SHA1_final :: "sha1_ctx \<Rightarrow> (byte list \<times> sha1_ctx) option" where
  "SHA1_final ctx = do {
     let cnt = s1_count ctx * 8;
     let ctx = SHA1_update [0x80] ctx;
     ctx \<leftarrow> sha1_pad_loop ctx;
     let ctx = fold (\<lambda>i. SHA1_update [ucast (drop_bit ((7 - i) * 8) cnt)]) [0..<8] ctx;
     let ctx = ctx\<lparr>s1_buf := memcpy_at (s1_buf ctx) 0 (concat (map UNPACK32 (s1_state ctx)))\<rparr>;
     Some (s1_buf ctx, ctx) }"

definition SHA1_init :: "byte list \<Rightarrow> sha1_ctx" where
  "SHA1_init junk = \<lparr>s1_count = 0, s1_state = [0x67452301, 0xEFCDAB89, 0x98BADCFE, 0x10325476, 0xC3D2E1F0], s1_buf = junk\<rparr>"

definition SHA1 :: "(nat \<Rightarrow> byte) \<Rightarrow> byte list \<Rightarrow> byte list option" where
  "SHA1 mem data = do {
     (p, _) \<leftarrow> SHA1_final (SHA1_update data (SHA1_init (uninit mem 64)));
     Some (take 20 p) }"

section \<open>Digests by algorithm\<close>

text \<open>\<open>DigestContext\<close> with the context of its algorithm.\<close>

datatype digest_ctx = CTX1 sha1_ctx | CTX256 "32 word sha2_ctx" | CTX512 "64 word sha2_ctx"

definition digest_type_map :: "nat list" where
  "digest_type_map = [0, 1, 2, 0, 1, 2, 0, 1, 2, 0, 1, 2]"

definition DigestInit :: "(nat \<Rightarrow> byte) \<Rightarrow> nat \<Rightarrow> digest_ctx option" where
  "DigestInit mem sig_algorithm =
     (if sig_algorithm < length digest_type_map then
        (let a = digest_type_map ! sig_algorithm
         in if a = 0 then Some (CTX1 (SHA1_init (uninit mem 64)))
            else if a = 1 then Some (CTX256 (SHA256_init (uninit mem 128)))
            else Some (CTX512 (SHA512_init (uninit mem 256))))
      else None)"

fun DigestUpdate :: "byte list \<Rightarrow> digest_ctx \<Rightarrow> digest_ctx" where
  "DigestUpdate data (CTX1 c) = CTX1 (SHA1_update data c)"
| "DigestUpdate data (CTX256 c) = CTX256 (SHA256_update data c)"
| "DigestUpdate data (CTX512 c) = CTX512 (SHA512_update data c)"

fun DigestFinal :: "digest_ctx \<Rightarrow> byte list option" where
  "DigestFinal (CTX1 c) = map_option (\<lambda>r. take 20 (fst r)) (SHA1_final c)"
| "DigestFinal (CTX256 c) = Some (fst (SHA256_final c))"
| "DigestFinal (CTX512 c) = Some (fst (SHA512_final c))"

text \<open>
  \<open>DigestFile\<close>, on an opened file: \<open>rd\<close> is \<open>read\<close> with a buffer of 64 bytes, \<^term>\<open>None\<close> its failure.
\<close>

partial_function (option) digest_file_loop ::
    "('x \<Rightarrow> byte list option \<times> 'x) \<Rightarrow> digest_ctx \<Rightarrow> 'x \<Rightarrow> (digest_ctx \<times> 'x) option" where
  [code]: "digest_file_loop rd ctx x =
     (case rd x of
        (None, x) \<Rightarrow> Some (ctx, x)
      | (Some data, x) \<Rightarrow>
          if length data = 64 then digest_file_loop rd (DigestUpdate data ctx) x else Some (DigestUpdate data ctx, x))"

definition DigestFile :: "(nat \<Rightarrow> byte) \<Rightarrow> ('x \<Rightarrow> byte list option \<times> 'x) \<Rightarrow> 'x option \<Rightarrow> nat \<Rightarrow> byte list option option" where
  "DigestFile mem rd opened sig_algorithm =
     (case opened of
        None \<Rightarrow> Some None
      | Some x \<Rightarrow> do {
          ctx \<leftarrow> DigestInit mem sig_algorithm;
          (ctx, x) \<leftarrow> digest_file_loop rd ctx x;
          digest \<leftarrow> DigestFinal ctx;
          Some (Some digest) })"

definition DigestBuf :: "(nat \<Rightarrow> byte) \<Rightarrow> byte list \<Rightarrow> nat \<Rightarrow> byte list option" where
  "DigestBuf mem buf sig_algorithm =
     (if sig_algorithm < 12 then
        ([SHA1 mem, Some \<circ> SHA256 mem, Some \<circ> SHA512 mem, SHA1 mem, Some \<circ> SHA256 mem, Some \<circ> SHA512 mem,
         SHA1 mem, Some \<circ> SHA256 mem, Some \<circ> SHA512 mem, SHA1 mem, Some \<circ> SHA256 mem, Some \<circ> SHA512 mem]
          ! sig_algorithm) buf
      else None)"

end
