(* ===== verification/VB_Rsa.thy ===== *)
theory VB_Rsa
  imports VB_Sha
begin

text \<open>
  The verification of RSA signatures (\<open>vboot_reference/crypto/rsa.c\<close>, \<open>rsa_utility.c\<close>, \<open>padding.c\<close>,
  \<open>common/utility_stub.c\<close>, \<open>include/rsa.h\<close>), on a little-endian machine with a \<open>size_t\<close> of 64 bits.

  A pointer is the list of the bytes that can be read from it on. \<^term>\<open>None\<close> is an abort: a failed allocation, a null
  pointer or a read beyond the memory.
\<close>

section \<open>Montgomery multiplication\<close>

record RSAPublicKey =
  rk_len :: int
  rk_n0inv :: "32 word"
  rk_n :: "32 word list"
  rk_rr :: "32 word list"

text \<open>\<open>a[] -= mod\<close>, with the borrow in a signed word of 64 bits.\<close>

fun subM_loop :: "64 word \<Rightarrow> 32 word list \<Rightarrow> 32 word list \<Rightarrow> 32 word list" where
  "subM_loop A (x # xs) (n # ns) =
     (let A = A + (ucast x - ucast n) in ucast A # subM_loop (signed_drop_bit 32 A) xs ns)"
| "subM_loop A xs ns = []"

definition subM :: "RSAPublicKey \<Rightarrow> 32 word list \<Rightarrow> 32 word list" where
  "subM key a = subM_loop 0 a (rk_n key)"

text \<open>\<open>a[] >= mod\<close>, from the most significant word on.\<close>

fun geM_loop :: "32 word list \<Rightarrow> 32 word list \<Rightarrow> bool" where
  "geM_loop (x # xs) (n # ns) = (if x < n then False else if x > n then True else geM_loop xs ns)"
| "geM_loop xs ns = True"

definition geM :: "RSAPublicKey \<Rightarrow> 32 word list \<Rightarrow> bool" where
  "geM key a = geM_loop (rev a) (rev (rk_n key))"

text \<open>The loop of \<open>montMulAdd\<close>: the words stored in \<open>c\<close>, and \<open>A\<close> and \<open>B\<close> at the end.\<close>

fun montMulAdd_loop ::
    "32 word \<Rightarrow> 32 word \<Rightarrow> 64 word \<Rightarrow> 64 word \<Rightarrow> 32 word list \<Rightarrow> 32 word list \<Rightarrow> 32 word list \<Rightarrow>
     32 word list \<times> 64 word \<times> 64 word" where
  "montMulAdd_loop a d0 A B (b # bs) (c # cs) (n # ns) =
     (let A = drop_bit 32 A + ucast a * ucast b + ucast c;
          B = drop_bit 32 B + ucast d0 * ucast n + ucast (ucast A :: 32 word);
          (r, A', B') = montMulAdd_loop a d0 A B bs cs ns
      in (ucast B # r, A', B'))"
| "montMulAdd_loop a d0 A B bs cs ns = ([], A, B)"

definition montMulAdd :: "RSAPublicKey \<Rightarrow> 32 word list \<Rightarrow> 32 word \<Rightarrow> 32 word list \<Rightarrow> 32 word list" where
  "montMulAdd key c a b =
     (let A = ucast a * ucast (hd b) + ucast (hd c);
          d0 = (ucast A :: 32 word) * rk_n0inv key;
          B = ucast d0 * ucast (hd (rk_n key)) + ucast (ucast A :: 32 word);
          (r, A, B) = montMulAdd_loop a d0 A B (tl b) (tl c) (tl (rk_n key));
          A = drop_bit 32 A + drop_bit 32 B;
          c = r @ [ucast A]
      in if drop_bit 32 A \<noteq> 0 then subM key c else c)"

definition montMul :: "RSAPublicKey \<Rightarrow> 32 word list \<Rightarrow> 32 word list \<Rightarrow> 32 word list" where
  "montMul key a b = fold (\<lambda>ai c. montMulAdd key c ai b) a (replicate (nat (rk_len key)) 0)"

text \<open>Two squarings, the body of the loop of \<open>modpowF4\<close>.\<close>

definition montSquare2 :: "RSAPublicKey \<Rightarrow> 32 word list \<Rightarrow> 32 word list" where
  "montSquare2 key aR = (let aaR = montMul key aR aR in montMul key aaR aaR)"

definition modpowF4 :: "RSAPublicKey \<Rightarrow> byte list \<Rightarrow> byte list" where
  "modpowF4 key inout =
     (let len = nat (rk_len key);
          a = map (\<lambda>i. PACK32 (drop ((len - 1 - i) * 4) inout)) [0..<len];
          aR = montMul key a (rk_rr key);
          aR = (montSquare2 key ^^ 8) aR;
          aaa = montMul key aR a;
          aaa = (if geM key aaa then subM key aaa else aaa)
      in concat (map UNPACK32 (rev aaa)))"

section \<open>Padding\<close>

definition kNumAlgorithms :: nat where "kNumAlgorithms = 12"

definition siglen_map :: "nat list" where
  "siglen_map = [32, 32, 32, 64, 64, 64, 128, 128, 128, 256, 256, 256]"

text \<open>
  The digest infos, in the parts of their encoding: the two sequences, the object identifier, the null and the string of the digest.
\<close>

definition SHA1_digestinfo :: "byte list" where
  "SHA1_digestinfo = [0x30, 0x21] @ [0x30, 0x09] @ [0x06, 0x05, 0x2b, 0x0e, 0x03, 0x02, 0x1a] @ [0x05, 0x00] @ [0x04, 0x14]"

definition SHA256_digestinfo :: "byte list" where
  "SHA256_digestinfo =
     [0x30, 0x31] @ [0x30, 0x0d] @ [0x06, 0x09, 0x60, 0x86, 0x48, 0x01, 0x65, 0x03, 0x04, 0x02, 0x01] @ [0x05, 0x00] @ [0x04, 0x20]"

definition SHA512_digestinfo :: "byte list" where
  "SHA512_digestinfo =
     [0x30, 0x51] @ [0x30, 0x0d] @ [0x06, 0x09, 0x60, 0x86, 0x48, 0x01, 0x65, 0x03, 0x04, 0x02, 0x03] @ [0x05, 0x00] @ [0x04, 0x40]"

text \<open>An array \<open>paddingRSAx_SHAy\<close>: \<open>00 01 ff ... ff 00\<close> and the digest info.\<close>

definition padding :: "nat \<Rightarrow> byte list \<Rightarrow> byte list" where
  "padding ffs info = [0x00, 0x01] @ replicate ffs 0xff @ [0x00] @ info"

definition padding_map :: "byte list list" where
  "padding_map =
     [padding 90 SHA1_digestinfo, padding 74 SHA256_digestinfo, padding 42 SHA512_digestinfo,
      padding 218 SHA1_digestinfo, padding 202 SHA256_digestinfo, padding 170 SHA512_digestinfo,
      padding 474 SHA1_digestinfo, padding 458 SHA256_digestinfo, padding 426 SHA512_digestinfo,
      padding 986 SHA1_digestinfo, padding 970 SHA256_digestinfo, padding 938 SHA512_digestinfo]"

definition padding_size_map :: "nat list" where
  "padding_size_map =
     [128 - 20, 128 - 32, 128 - 64, 256 - 20, 256 - 32, 256 - 64, 512 - 20, 512 - 32, 512 - 64,
      1024 - 20, 1024 - 32, 1024 - 64]"

section \<open>RSA\_verify\<close>

text \<open>A loop that compares \<open>n\<close> bytes and lowers the flag at a difference.\<close>

fun compare_loop :: "nat \<Rightarrow> byte list \<Rightarrow> byte list \<Rightarrow> bool \<Rightarrow> bool option" where
  "compare_loop 0 xs ys success = Some success"
| "compare_loop (Suc n) (x # xs) (y # ys) success = compare_loop n xs ys (if x \<noteq> y then False else success)"
| "compare_loop (Suc n) xs ys success = None"

definition RSA_verify :: "RSAPublicKey \<Rightarrow> byte list \<Rightarrow> nat \<Rightarrow> nat \<Rightarrow> byte list \<Rightarrow> bool option" where
  "RSA_verify key sig sig_len sig_type hash =
     (if int sig_len \<noteq> (rk_len key * 4) mod 2 ^ 64 then Some False
      else if sig_type \<ge> kNumAlgorithms then Some False
      else if rk_len key \<noteq> int (siglen_map ! sig_type) then Some False
      else do {
        CHECK (sig_len \<le> length sig);
        let buf = modpowF4 key (take sig_len sig);
        let n = padding_size_map ! sig_type;
        success \<leftarrow> compare_loop n buf (padding_map ! sig_type) True;
        compare_loop (sig_len - n) (drop n buf) hash success })"

section \<open>Reading keys\<close>

record MemcpyState =
  remaining_buf :: "byte list"
  remaining_len :: int

text \<open>The bytes that are copied, and \<^term>\<open>None\<close> for the result \<open>NULL\<close>.\<close>

definition StatefulMemcpy :: "int \<Rightarrow> MemcpyState \<Rightarrow> (byte list option \<times> MemcpyState) option" where
  "StatefulMemcpy len st =
     (if len > remaining_len st then Some (None, st\<lparr>remaining_len := -1\<rparr>)
      else do {
        CHECK (0 \<le> len \<and> nat len \<le> length (remaining_buf st));
        Some (Some (take (nat len) (remaining_buf st)),
              st\<lparr>remaining_buf := drop (nat len) (remaining_buf st), remaining_len := remaining_len st - len\<rparr>) })"

definition le32 :: "byte list \<Rightarrow> 32 word" where
  "le32 s = ucast (s ! 0) OR push_bit 8 (ucast (s ! 1)) OR push_bit 16 (ucast (s ! 2)) OR push_bit 24 (ucast (s ! 3))"

definition le16 :: "byte list \<Rightarrow> 16 word" where
  "le16 s = ucast (s ! 0) OR push_bit 8 (ucast (s ! 1))"

definition le32s :: "nat \<Rightarrow> byte list \<Rightarrow> 32 word list" where
  "le32s k s = map (\<lambda>i. le32 (drop (4 * i) s)) [0..<k]"

definition RSAProcessedKeySize :: "nat \<Rightarrow> int option" where
  "RSAProcessedKeySize algorithm =
     (if algorithm < length siglen_map then Some (2 * (int (siglen_map ! algorithm) * 4) + 4 + 4) else None)"

text \<open>
  \<open>Some None\<close> is \<open>NULL\<close>. A negative \<open>key_len\<close> makes \<open>Malloc\<close> abort. The members of the key come from the heap, so that a copy that
  failed leaves them undefined, in which case the key is not returned.
\<close>

definition RSAPublicKeyFromBuf :: "byte list \<Rightarrow> int \<Rightarrow> RSAPublicKey option option" where
  "RSAPublicKeyFromBuf buf len = do {
     (l, st) \<leftarrow> StatefulMemcpy 4 \<lparr>remaining_buf = buf, remaining_len = len\<rparr>;
     case l of
       None \<Rightarrow> None
     | Some l \<Rightarrow> do {
         let key_words = sint (le32 l);
         let key_len = sint (of_int (key_words * 4) :: 32 word);
         CHECK (0 \<le> key_len);
         (n0inv, st) \<leftarrow> StatefulMemcpy 4 st;
         (n, st) \<leftarrow> StatefulMemcpy key_len st;
         (rr, st) \<leftarrow> StatefulMemcpy key_len st;
         if remaining_len st \<noteq> 0 then Some None
         else (case (n0inv, n, rr) of
             (Some n0inv, Some n, Some rr) \<Rightarrow>
               Some (Some \<lparr>rk_len = key_words, rk_n0inv = le32 n0inv, rk_n = le32s (nat key_len div 4) n,
                           rk_rr = le32s (nat key_len div 4) rr\<rparr>)
           | _ \<Rightarrow> Some None) } }"

text \<open>
  \<open>key_blob\<close> and \<open>key\<close> may be \<open>NULL\<close>. A key blob that gives no key is a null pointer to \<open>RSA_verify\<close>.
\<close>

definition RSAVerifyBinary_f ::
    "(nat \<Rightarrow> byte) \<Rightarrow> byte list option \<Rightarrow> RSAPublicKey option \<Rightarrow> byte list \<Rightarrow> int \<Rightarrow> byte list \<Rightarrow> nat \<Rightarrow> bool option" where
  "RSAVerifyBinary_f mem key_blob key buf len sig algorithm =
     (if algorithm \<ge> kNumAlgorithms then Some False
      else do {
        key_size \<leftarrow> RSAProcessedKeySize algorithm;
        let sig_size = siglen_map ! algorithm * 4;
        case (key_blob, key) of
          (None, None) \<Rightarrow> Some False
        | (Some _, Some _) \<Rightarrow> Some False
        | _ \<Rightarrow> do {
            verification_key \<leftarrow> (case key_blob of Some blob \<Rightarrow> RSAPublicKeyFromBuf blob key_size | None \<Rightarrow> Some key);
            CHECK (0 \<le> len \<and> nat len \<le> length buf);
            digest \<leftarrow> DigestBuf mem (take (nat len) buf) algorithm;
            key \<leftarrow> verification_key;
            RSA_verify key sig sig_size algorithm digest } })"

end
