(* ===== verification/VB_Firmware.thy ===== *)
theory VB_Firmware
  imports VB_Rsa
begin

text \<open>
  Signed firmware images (\<open>vboot_reference/utils/firmware_image.c\<close>, \<open>file_keys.c\<close>, \<open>signature_digest.c\<close>, \<open>verify_data.c\<close>,
  \<open>common/utility_stub.c\<close>, \<open>include/firmware_image.h\<close>), on the conventions of \<open>VB_Rsa\<close>: a pointer is the list of the bytes
  that can be read from it on, \<open>mem\<close> the contents of fresh memory, \<^term>\<open>None\<close> an abort, a null pointer that is used or a read beyond
  the memory. The variables that a function sets through pointers are part of its result, \<^term>\<open>None\<close> when it has not set them.

  The files are a map from names to contents. \<open>wr\<close> is \<open>write\<close>: the bytes of the buffer that reach the file.
\<close>

section \<open>Memory\<close>

fun SafeMemcmp_loop :: "nat \<Rightarrow> byte list \<Rightarrow> byte list \<Rightarrow> int \<Rightarrow> int option" where
  "SafeMemcmp_loop 0 us1 us2 match = Some match"
| "SafeMemcmp_loop (Suc n) (x # us1) (y # us2) match = SafeMemcmp_loop n us1 us2 (if x \<noteq> y then 1 else match)"
| "SafeMemcmp_loop (Suc n) us1 us2 match = None"

definition SafeMemcmp :: "byte list \<Rightarrow> byte list \<Rightarrow> nat \<Rightarrow> int option" where
  "SafeMemcmp s1 s2 n = SafeMemcmp_loop n s1 s2 0"

fun Memset :: "byte list \<Rightarrow> byte \<Rightarrow> nat \<Rightarrow> byte list option" where
  "Memset dest c 0 = Some dest"
| "Memset (x # dest) c (Suc n) = map_option ((#) c) (Memset dest c n)"
| "Memset [] c (Suc n) = None"

text \<open>The bytes of an integer in memory.\<close>

definition bytes16 :: "16 word \<Rightarrow> byte list" where
  "bytes16 x = [ucast x, ucast (drop_bit 8 x)]"

definition bytes32 :: "32 word \<Rightarrow> byte list" where
  "bytes32 x = [ucast x, ucast (drop_bit 8 x), ucast (drop_bit 16 x), ucast (drop_bit 24 x)]"

text \<open>A copy into a member whose value stays when there is not enough data.\<close>

definition copy_into :: "byte list \<Rightarrow> int \<Rightarrow> MemcpyState \<Rightarrow> (byte list \<times> MemcpyState) option" where
  "copy_into old len st = do {
     (r, st) \<leftarrow> StatefulMemcpy len st;
     Some (case r of None \<Rightarrow> old | Some b \<Rightarrow> b, st) }"

section \<open>FirmwareImage\<close>

definition FIRMWARE_MAGIC :: "byte list" where
  "FIRMWARE_MAGIC = [67, 72, 82, 79, 77, 69, 79, 83]"

abbreviation (input) "FIRMWARE_MAGIC_SIZE \<equiv> 8 :: nat"
abbreviation (input) "FIRMWARE_PREAMBLE_SIZE \<equiv> 8 :: nat"
abbreviation (input) "ROOT_SIGNATURE_ALGORITHM \<equiv> 11 :: nat"
abbreviation (input) "RSA8192NUMBYTES \<equiv> 1024 :: nat"
abbreviation (input) "SHA512_DIGEST_SIZE \<equiv> 64 :: nat"
abbreviation (input) "SHA512_DIGEST_ALGORITHM \<equiv> 2 :: nat"

abbreviation (input) "VERIFY_FIRMWARE_SUCCESS \<equiv> 0 :: int"
abbreviation (input) "VERIFY_FIRMWARE_INVALID_IMAGE \<equiv> 1 :: int"
abbreviation (input) "VERIFY_FIRMWARE_ROOT_SIGNATURE_FAILED \<equiv> 2 :: int"
abbreviation (input) "VERIFY_FIRMWARE_INVALID_ALGORITHM \<equiv> 3 :: int"
abbreviation (input) "VERIFY_FIRMWARE_PREAMBLE_SIGNATURE_FAILED \<equiv> 4 :: int"
abbreviation (input) "VERIFY_FIRMWARE_SIGNATURE_FAILED \<equiv> 5 :: int"
abbreviation (input) "VERIFY_FIRMWARE_WRONG_MAGIC \<equiv> 6 :: int"

record FirmwareImage =
  fi_magic :: "byte list"
  fi_header_len :: "16 word"
  fi_sign_algorithm :: "16 word"
  fi_sign_key :: "byte list"
  fi_key_version :: "16 word"
  fi_header_checksum :: "byte list"
  fi_key_signature :: "byte list"
  fi_firmware_version :: "16 word"
  fi_firmware_len :: "32 word"
  fi_preamble :: "byte list"
  fi_preamble_signature :: "byte list"
  fi_firmware_signature :: "byte list"
  fi_firmware_data :: "byte list"

section \<open>Reading an image\<close>

text \<open>
  The file once it is open: its size from \<open>fstat\<close> and what \<open>read\<close> gives, \<^term>\<open>None\<close> for a failure.
\<close>

record opened_file =
  st_size :: "int option"
  file_read :: "nat \<Rightarrow> byte list option"

text \<open>The members after the header length, read in turn; the last component tells the bytes that remain.\<close>

definition ReadFirmwareImage_rest ::
    "(nat \<Rightarrow> byte) \<Rightarrow> int \<Rightarrow> int \<Rightarrow> FirmwareImage \<Rightarrow> MemcpyState \<Rightarrow> (FirmwareImage \<times> MemcpyState) option" where
  "ReadFirmwareImage_rest mem sign_key_len signature_len img st = do {
     (b, st) \<leftarrow> copy_into (uninit mem (nat sign_key_len)) sign_key_len st;
     let img = img\<lparr>fi_sign_key := b\<rparr>;
     (b, st) \<leftarrow> copy_into (bytes16 (fi_key_version img)) 2 st;
     let img = img\<lparr>fi_key_version := le16 b\<rparr>;
     (b, st) \<leftarrow> copy_into (fi_header_checksum img) (int SHA512_DIGEST_SIZE) st;
     let img = img\<lparr>fi_header_checksum := b\<rparr>;
     (b, st) \<leftarrow> copy_into (fi_key_signature img) (int RSA8192NUMBYTES) st;
     let img = img\<lparr>fi_key_signature := b\<rparr>;
     (b, st) \<leftarrow> copy_into (bytes16 (fi_firmware_version img)) 2 st;
     let img = img\<lparr>fi_firmware_version := le16 b\<rparr>;
     (b, st) \<leftarrow> copy_into (bytes32 (fi_firmware_len img)) 4 st;
     let img = img\<lparr>fi_firmware_len := le32 b\<rparr>;
     (b, st) \<leftarrow> copy_into (fi_preamble img) (int FIRMWARE_PREAMBLE_SIZE) st;
     let img = img\<lparr>fi_preamble := b\<rparr>;
     (b, st) \<leftarrow> copy_into (uninit mem (nat signature_len)) signature_len st;
     let img = img\<lparr>fi_preamble_signature := b\<rparr>;
     (b, st) \<leftarrow> copy_into (uninit mem (nat signature_len)) signature_len st;
     let img = img\<lparr>fi_firmware_signature := b\<rparr>;
     (b, st) \<leftarrow> copy_into (uninit mem (unat (fi_firmware_len img))) (sint (fi_firmware_len img)) st;
     let img = img\<lparr>fi_firmware_data := b\<rparr>;
     Some (img, st) }"

text \<open>Whether the image is returned, and its contents.\<close>

definition ReadFirmwareImage ::
    "(nat \<Rightarrow> byte) \<Rightarrow> opened_file option \<Rightarrow> FirmwareImage option \<Rightarrow> (bool \<times> FirmwareImage option) option" where
  "ReadFirmwareImage mem fd im =
     (case im of
        None \<Rightarrow> Some (False, None)
      | Some img \<Rightarrow>
          (case fd of
             None \<Rightarrow> Some (False, Some img)
           | Some f \<Rightarrow>
               (case st_size f of
                  None \<Rightarrow> Some (False, Some img)
                | Some sz \<Rightarrow> do {
                    let image_len = sint (of_int sz :: 32 word);
                    CHECK (0 \<le> image_len);
                    case file_read f (nat image_len) of
                      None \<Rightarrow> Some (False, Some img)
                    | Some firmware_buf \<Rightarrow>
                        if int (length firmware_buf) \<noteq> image_len then Some (False, Some img)
                        else do {
                          (r, st) \<leftarrow> StatefulMemcpy (int FIRMWARE_MAGIC_SIZE)
                            \<lparr>remaining_buf = firmware_buf, remaining_len = image_len\<rparr>;
                          case r of
                            None \<Rightarrow> Some (False, Some img)
                          | Some b \<Rightarrow> do {
                              let img = img\<lparr>fi_magic := b\<rparr>;
                              ne \<leftarrow> SafeMemcmp (fi_magic img) FIRMWARE_MAGIC FIRMWARE_MAGIC_SIZE;
                              if ne \<noteq> 0 then Some (False, Some img)
                              else do {
                                (b, st) \<leftarrow> copy_into (bytes16 (fi_header_len img)) 2 st;
                                let img = img\<lparr>fi_header_len := le16 b\<rparr>;
                                (b, st) \<leftarrow> copy_into (bytes16 (fi_sign_algorithm img)) 2 st;
                                let img = img\<lparr>fi_sign_algorithm := le16 b\<rparr>;
                                let algorithm = unat (fi_sign_algorithm img);
                                if algorithm > kNumAlgorithms then Some (False, Some img)
                                else do {
                                  CHECK (algorithm < length siglen_map);
                                  let sign_key_len = 2 * int (siglen_map ! algorithm) * 4 + 4 + 4;
                                  let signature_len = int (siglen_map ! algorithm) * 4;
                                  let header_len = 2 + 2 + 2 + int SHA512_DIGEST_SIZE;
                                  if header_len \<noteq> uint (fi_header_len img) then Some (False, Some img)
                                  else do {
                                    (img, st) \<leftarrow> ReadFirmwareImage_rest mem sign_key_len signature_len img st;
                                    Some (remaining_len st = 0, Some img) } } } } } })))"

section \<open>Writing an image\<close>

text \<open>The file that is open grows by each write.\<close>

definition WriteFirmwareHeader :: "(byte list \<Rightarrow> byte list) \<Rightarrow> FirmwareImage \<Rightarrow> byte list \<Rightarrow> byte list option" where
  "WriteFirmwareHeader wr img file = do {
     let file = file @ wr (bytes16 (fi_header_len img));
     let file = file @ wr (bytes16 (fi_sign_algorithm img));
     let sign_key_len = uint (fi_header_len img) - 2 - 2 - 2 - int SHA512_DIGEST_SIZE;
     CHECK (0 \<le> sign_key_len \<and> nat sign_key_len \<le> length (fi_sign_key img));
     let file = file @ wr (take (nat sign_key_len) (fi_sign_key img));
     let file = file @ wr (bytes16 (fi_key_version img));
     Some (file @ wr (fi_header_checksum img)) }"

definition WriteFirmwarePreamble :: "(byte list \<Rightarrow> byte list) \<Rightarrow> FirmwareImage \<Rightarrow> byte list \<Rightarrow> byte list" where
  "WriteFirmwarePreamble wr img file =
     file @ wr (bytes16 (fi_firmware_version img)) @ wr (bytes32 (fi_firmware_len img)) @ wr (fi_preamble img)"

text \<open>The file that is written, \<open>Some None\<close> when it cannot be created.\<close>

definition WriteFirmwareImage ::
    "(byte list \<Rightarrow> byte list) \<Rightarrow> bool \<Rightarrow> FirmwareImage option \<Rightarrow> byte list option option" where
  "WriteFirmwareImage wr created im =
     (case im of
        None \<Rightarrow> Some None
      | Some img \<Rightarrow>
          if \<not> created then Some None
          else do {
            let file = wr (fi_magic img);
            file \<leftarrow> WriteFirmwareHeader wr img file;
            let file = file @ wr (fi_key_signature img);
            CHECK (unat (fi_sign_algorithm img) < length siglen_map);
            let signature_len = siglen_map ! unat (fi_sign_algorithm img) * 4;
            let file = WriteFirmwarePreamble wr img file;
            CHECK (signature_len \<le> length (fi_preamble_signature img));
            let file = file @ wr (take signature_len (fi_preamble_signature img));
            CHECK (signature_len \<le> length (fi_firmware_signature img));
            let file = file @ wr (take signature_len (fi_firmware_signature img));
            CHECK (unat (fi_firmware_len img) \<le> length (fi_firmware_data img));
            Some (Some (file @ wr (take (unat (fi_firmware_len img)) (fi_firmware_data img)))) })"

section \<open>Verifying a blob\<close>

text \<open>The error code, \<open>*algorithm\<close> and \<open>*header_len\<close>.\<close>

definition VerifyFirmwareHeader ::
    "(nat \<Rightarrow> byte) \<Rightarrow> byte list option \<Rightarrow> byte list \<Rightarrow> bool \<Rightarrow> (int \<times> nat option \<times> nat option) option" where
  "VerifyFirmwareHeader mem root_key_blob header_blob dev_mode = do {
     CHECK (4 \<le> length header_blob);
     let hlen = le16 header_blob;
     let algo = unat (le16 (drop 2 header_blob));
     if algo \<ge> kNumAlgorithms then Some (VERIFY_FIRMWARE_INVALID_ALGORITHM, None, None)
     else do {
       sign_key_len \<leftarrow> RSAProcessedKeySize algo;
       if uint hlen \<noteq> (2 + 2 + 2) + sign_key_len + int SHA512_DIGEST_SIZE then
         Some (VERIFY_FIRMWARE_INVALID_IMAGE, Some algo, None)
       else do {
         let header_len = unat hlen;
         CHECK (header_len - SHA512_DIGEST_SIZE \<le> length header_blob);
         header_checksum \<leftarrow> DigestBuf mem (take (header_len - SHA512_DIGEST_SIZE) header_blob) SHA512_DIGEST_ALGORITHM;
         ne \<leftarrow> SafeMemcmp header_checksum (drop (nat ((2 + 2 + 2) + sign_key_len)) header_blob) SHA512_DIGEST_SIZE;
         if ne \<noteq> 0 then Some (VERIFY_FIRMWARE_INVALID_IMAGE, Some algo, Some header_len)
         else if \<not> dev_mode then do {
           ok \<leftarrow> RSAVerifyBinary_f mem root_key_blob None header_blob (int header_len) (drop header_len header_blob)
             ROOT_SIGNATURE_ALGORITHM;
           if \<not> ok then Some (VERIFY_FIRMWARE_ROOT_SIGNATURE_FAILED, Some algo, Some header_len)
           else Some (0, Some algo, Some header_len) }
         else Some (0, Some algo, Some header_len) } } }"

text \<open>The error code and \<open>*firmware_len\<close>.\<close>

definition VerifyFirmwarePreamble ::
    "(nat \<Rightarrow> byte) \<Rightarrow> RSAPublicKey option \<Rightarrow> byte list \<Rightarrow> nat \<Rightarrow> (int \<times> int option) option" where
  "VerifyFirmwarePreamble mem sign_key preamble_blob algorithm = do {
     let preamble_len = 2 + 4 + FIRMWARE_PREAMBLE_SIZE;
     ok \<leftarrow> RSAVerifyBinary_f mem None sign_key preamble_blob (int preamble_len) (drop preamble_len preamble_blob) algorithm;
     if \<not> ok then Some (VERIFY_FIRMWARE_PREAMBLE_SIGNATURE_FAILED, None)
     else Some (0, Some (sint (le32 (drop 2 preamble_blob)))) }"

definition VerifyFirmwareData ::
    "(nat \<Rightarrow> byte) \<Rightarrow> RSAPublicKey option \<Rightarrow> byte list \<Rightarrow> int \<Rightarrow> nat \<Rightarrow> int option" where
  "VerifyFirmwareData mem sign_key firmware_data_start firmware_len algorithm = do {
     CHECK (algorithm < length siglen_map);
     let signature_len = siglen_map ! algorithm * 4;
     ok \<leftarrow> RSAVerifyBinary_f mem None sign_key (drop signature_len firmware_data_start) firmware_len firmware_data_start algorithm;
     if \<not> ok then Some VERIFY_FIRMWARE_SIGNATURE_FAILED else Some 0 }"

definition VerifyFirmware :: "(nat \<Rightarrow> byte) \<Rightarrow> byte list option \<Rightarrow> byte list \<Rightarrow> bool \<Rightarrow> int option" where
  "VerifyFirmware mem root_key_blob firmware_blob dev_mode = do {
     ne \<leftarrow> SafeMemcmp firmware_blob FIRMWARE_MAGIC FIRMWARE_MAGIC_SIZE;
     if ne \<noteq> 0 then Some VERIFY_FIRMWARE_WRONG_MAGIC
     else do {
       let header_ptr = drop FIRMWARE_MAGIC_SIZE firmware_blob;
       (error_code, algorithm, header_len) \<leftarrow> VerifyFirmwareHeader mem root_key_blob header_ptr dev_mode;
       if error_code \<noteq> 0 then Some error_code
       else do {
         algorithm \<leftarrow> algorithm;
         header_len \<leftarrow> header_len;
         sign_key_len \<leftarrow> RSAProcessedKeySize algorithm;
         let sign_key_ptr = drop (2 + 2) header_ptr;
         sign_key \<leftarrow> RSAPublicKeyFromBuf sign_key_ptr sign_key_len;
         CHECK (algorithm < length siglen_map);
         let signature_len = siglen_map ! algorithm * 4;
         let preamble_ptr = drop (header_len + RSA8192NUMBYTES) header_ptr;
         (error_code, firmware_len) \<leftarrow> VerifyFirmwarePreamble mem sign_key preamble_ptr algorithm;
         if error_code \<noteq> 0 then Some error_code
         else do {
           firmware_len \<leftarrow> firmware_len;
           let firmware_ptr = drop (2 + 4 + FIRMWARE_PREAMBLE_SIZE + signature_len) preamble_ptr;
           error_code \<leftarrow> VerifyFirmwareData mem sign_key firmware_ptr firmware_len algorithm;
           if error_code \<noteq> 0 then Some error_code else Some 0 } } } }"

section \<open>Verifying an image\<close>

text \<open>A null key is used by \<open>RSA_verify\<close>.\<close>

definition VerifyFirmwareImage ::
    "(nat \<Rightarrow> byte) \<Rightarrow> RSAPublicKey option \<Rightarrow> FirmwareImage option \<Rightarrow> bool \<Rightarrow> int option" where
  "VerifyFirmwareImage mem root_key im dev_mode =
     (case im of
        None \<Rightarrow> Some VERIFY_FIRMWARE_INVALID_IMAGE
      | Some img \<Rightarrow> do {
          let algorithm = unat (fi_sign_algorithm img);
          root_ok \<leftarrow>
            (if \<not> dev_mode then do {
               ctx \<leftarrow> DigestInit mem ROOT_SIGNATURE_ALGORITHM;
               let ctx = DigestUpdate (bytes16 (fi_header_len img)) ctx;
               let ctx = DigestUpdate (bytes16 (fi_sign_algorithm img)) ctx;
               sz \<leftarrow> RSAProcessedKeySize algorithm;
               CHECK (nat sz \<le> length (fi_sign_key img));
               let ctx = DigestUpdate (take (nat sz) (fi_sign_key img)) ctx;
               let ctx = DigestUpdate (bytes16 (fi_key_version img)) ctx;
               let ctx = DigestUpdate (fi_header_checksum img) ctx;
               header_digest \<leftarrow> DigestFinal ctx;
               key \<leftarrow> root_key;
               RSA_verify key (fi_key_signature img) RSA8192NUMBYTES ROOT_SIGNATURE_ALGORITHM header_digest }
             else Some True);
          if \<not> root_ok then Some VERIFY_FIRMWARE_ROOT_SIGNATURE_FAILED
          else do {
            sign_key_size \<leftarrow> RSAProcessedKeySize algorithm;
            sign_key \<leftarrow> RSAPublicKeyFromBuf (fi_sign_key img) sign_key_size;
            CHECK (algorithm < length siglen_map);
            let signature_size = siglen_map ! algorithm * 4;
            if algorithm \<ge> kNumAlgorithms then Some VERIFY_FIRMWARE_INVALID_ALGORITHM
            else do {
              ctx \<leftarrow> DigestInit mem algorithm;
              let ctx = DigestUpdate (bytes16 (fi_firmware_version img)) ctx;
              let ctx = DigestUpdate (bytes32 (fi_firmware_len img)) ctx;
              let ctx = DigestUpdate (fi_preamble img) ctx;
              preamble_digest \<leftarrow> DigestFinal ctx;
              key \<leftarrow> sign_key;
              ok \<leftarrow> RSA_verify key (fi_preamble_signature img) signature_size algorithm preamble_digest;
              if \<not> ok then Some VERIFY_FIRMWARE_PREAMBLE_SIGNATURE_FAILED
              else do {
                let firmware_len = sint (fi_firmware_len img);
                CHECK (0 \<le> firmware_len \<and> nat firmware_len \<le> length (fi_firmware_data img));
                firmware_digest \<leftarrow> DigestBuf mem (take (nat firmware_len) (fi_firmware_data img)) algorithm;
                ok \<leftarrow> RSA_verify key (fi_firmware_signature img) signature_size algorithm firmware_digest;
                if \<not> ok then Some VERIFY_FIRMWARE_SIGNATURE_FAILED else Some 0 } } } })"

section \<open>Signing an image\<close>

fun decimal :: "nat \<Rightarrow> string" where
  "decimal n = (if n < 10 then [char_of (48 + n)] else decimal (n div 10) @ [char_of (48 + n mod 10)])"

text \<open>\<open>run\<close> is \<open>popen\<close> and what can be read from the command; it sees the files.\<close>

definition SignatureFile ::
    "((string \<rightharpoonup> byte list) \<Rightarrow> string \<Rightarrow> byte list option) \<Rightarrow> (string \<rightharpoonup> byte list) \<Rightarrow> string \<Rightarrow> string \<Rightarrow> nat \<Rightarrow>
     byte list option option" where
  "SignatureFile run files input_file key_file algorithm = do {
     CHECK (algorithm < length siglen_map);
     let sign_utility = ''./sign_data.sh'';
     let signature_size = siglen_map ! algorithm * 4;
     let cmd_len = length sign_utility + 1 + 2 + 1 + length key_file + 1 + length input_file + 1;
     let cmd = take (cmd_len - 1) (sign_utility @ '' '' @ decimal algorithm @ '' '' @ key_file @ '' '' @ input_file);
     case run files cmd of
       None \<Rightarrow> Some None
     | Some out \<Rightarrow> if length out < signature_size then Some None else Some (Some (take signature_size out)) }"

text \<open>The result, the image and the files.\<close>

definition AddKeySignature ::
    "((string \<rightharpoonup> byte list) \<Rightarrow> string \<Rightarrow> byte list option) \<Rightarrow> (byte list \<Rightarrow> byte list) \<Rightarrow> (string \<Rightarrow> bool) \<Rightarrow>
     FirmwareImage \<Rightarrow> string \<Rightarrow> (string \<rightharpoonup> byte list) \<Rightarrow> (int \<times> FirmwareImage \<times> (string \<rightharpoonup> byte list)) option" where
  "AddKeySignature run wr can_create img root_key_file files = do {
     let tmp_hdr_file = ''.tmpHdrFile'';
     if \<not> can_create tmp_hdr_file then Some (0, img, files)
     else do {
       file \<leftarrow> WriteFirmwareHeader wr img [];
       let files = files(tmp_hdr_file \<mapsto> file);
       signature \<leftarrow> SignatureFile run files tmp_hdr_file root_key_file ROOT_SIGNATURE_ALGORITHM;
       case signature of
         None \<Rightarrow> Some (0, img, files)
       | Some signature \<Rightarrow> Some (1, img\<lparr>fi_key_signature := take RSA8192NUMBYTES signature\<rparr>, files) } }"

definition AddFirmwareSignature ::
    "((string \<rightharpoonup> byte list) \<Rightarrow> string \<Rightarrow> byte list option) \<Rightarrow> (byte list \<Rightarrow> byte list) \<Rightarrow> (string \<Rightarrow> bool) \<Rightarrow>
     FirmwareImage \<Rightarrow> string \<Rightarrow> nat \<Rightarrow> (string \<rightharpoonup> byte list) \<Rightarrow> (int \<times> FirmwareImage \<times> (string \<rightharpoonup> byte list)) option" where
  "AddFirmwareSignature run wr can_create img signing_key_file algorithm files = do {
     let tmp_preamble_file = ''.tmpPreambleFile'';
     let tmp_firmware_file = ''.tmpFirmwareFile'';
     CHECK (algorithm < length siglen_map);
     let signature_len = siglen_map ! algorithm * 4;
     if \<not> can_create tmp_preamble_file then Some (0, img, files)
     else do {
       let files = files(tmp_preamble_file \<mapsto> WriteFirmwarePreamble wr img []);
       preamble_signature \<leftarrow> SignatureFile run files tmp_preamble_file signing_key_file algorithm;
       case preamble_signature of
         None \<Rightarrow> Some (0, img, files)
       | Some preamble_signature \<Rightarrow> do {
           let img = img\<lparr>fi_preamble_signature := take signature_len preamble_signature\<rparr>;
           if \<not> can_create tmp_firmware_file then Some (0, img, files)
           else do {
             CHECK (unat (fi_firmware_len img) \<le> length (fi_firmware_data img));
             let files = files(tmp_firmware_file \<mapsto> wr (take (unat (fi_firmware_len img)) (fi_firmware_data img)));
             firmware_signature \<leftarrow> SignatureFile run files tmp_firmware_file signing_key_file algorithm;
             case firmware_signature of
               None \<Rightarrow> Some (0, img, files)
             | Some firmware_signature \<Rightarrow>
                 Some (1, img\<lparr>fi_firmware_signature := take signature_len firmware_signature\<rparr>, files) } } } }"

section \<open>Files, keys and digests\<close>

definition BufferFromFile :: "opened_file option \<Rightarrow> (int \<times> byte list) option option" where
  "BufferFromFile fd =
     (case fd of
        None \<Rightarrow> Some None
      | Some f \<Rightarrow>
          (case st_size f of
             None \<Rightarrow> Some None
           | Some sz \<Rightarrow> do {
               let len = sint (of_int sz :: 32 word);
               CHECK (0 \<le> len);
               Some (case file_read f (nat len) of
                       None \<Rightarrow> None
                     | Some buf \<Rightarrow> if int (length buf) \<noteq> len then None else Some (len, buf)) }))"

text \<open>A buffer that could not be read is a null pointer to \<open>RSAPublicKeyFromBuf\<close>.\<close>

definition RSAPublicKeyFromFile :: "opened_file option \<Rightarrow> RSAPublicKey option option" where
  "RSAPublicKeyFromFile fd = do {
     r \<leftarrow> BufferFromFile fd;
     (len, buf) \<leftarrow> r;
     RSAPublicKeyFromBuf buf len }"

definition hash_size_map :: "nat list" where
  "hash_size_map = [20, 32, 64, 20, 32, 64, 20, 32, 64, 20, 32, 64]"

definition digestinfo_size_map :: "nat list" where
  "digestinfo_size_map = [15, 19, 19, 15, 19, 19, 15, 19, 19, 15, 19, 19]"

definition hash_digestinfo_map :: "byte list list" where
  "hash_digestinfo_map =
     [SHA1_digestinfo, SHA256_digestinfo, SHA512_digestinfo, SHA1_digestinfo, SHA256_digestinfo, SHA512_digestinfo,
      SHA1_digestinfo, SHA256_digestinfo, SHA512_digestinfo, SHA1_digestinfo, SHA256_digestinfo, SHA512_digestinfo]"

definition PrependDigestInfo :: "nat \<Rightarrow> byte list \<Rightarrow> byte list option" where
  "PrependDigestInfo algorithm digest = do {
     CHECK (algorithm < length hash_size_map);
     let digest_size = hash_size_map ! algorithm;
     let digestinfo_size = digestinfo_size_map ! algorithm;
     let digestinfo = hash_digestinfo_map ! algorithm;
     CHECK (digest_size \<le> length digest);
     Some (take digestinfo_size digestinfo @ take digest_size digest) }"

text \<open>
  The program \<open>signature_digest\<close> from its arguments on: what it writes to its output. \<open>algorithm\<close> is the result of \<open>atoi\<close>.
\<close>

definition signature_digest_main ::
    "(nat \<Rightarrow> byte) \<Rightarrow> ('x \<Rightarrow> byte list option \<times> 'x) \<Rightarrow> int \<Rightarrow> 'x option \<Rightarrow> byte list option" where
  "signature_digest_main mem rd algorithm opened =
     (if algorithm \<ge> int kNumAlgorithms then Some []
      else do {
        CHECK (0 \<le> algorithm);
        digest \<leftarrow> DigestFile mem rd opened (nat algorithm);
        case digest of
          None \<Rightarrow> Some []
        | Some digest \<Rightarrow> do {
            info_digest \<leftarrow> PrependDigestInfo (nat algorithm) digest;
            Some (take (hash_size_map ! nat algorithm + digestinfo_size_map ! nat algorithm) info_digest) } })"

definition read_signature :: "(nat \<Rightarrow> byte list option) option \<Rightarrow> nat \<Rightarrow> byte list option" where
  "read_signature fd len =
     (case fd of
        None \<Rightarrow> None
      | Some rd \<Rightarrow> (case rd len of None \<Rightarrow> None | Some signature \<Rightarrow> if length signature \<noteq> len then None else Some signature))"

text \<open>The program \<open>verify_data\<close>: its exit status.\<close>

definition verify_data_main ::
    "(nat \<Rightarrow> byte) \<Rightarrow> ('x \<Rightarrow> byte list option \<times> 'x) \<Rightarrow> int \<Rightarrow> opened_file option \<Rightarrow> (nat \<Rightarrow> byte list option) option \<Rightarrow> 'x option \<Rightarrow>
     int option" where
  "verify_data_main mem rd algorithm key_fd sig_fd input =
     (if algorithm \<ge> int kNumAlgorithms then Some 0
      else do {
        CHECK (0 \<le> algorithm);
        let sig_len = siglen_map ! nat algorithm * 4;
        key \<leftarrow> RSAPublicKeyFromFile key_fd;
        case key of
          None \<Rightarrow> Some 1
        | Some key \<Rightarrow>
            (case read_signature sig_fd sig_len of
               None \<Rightarrow> Some 1
             | Some signature \<Rightarrow> do {
                 digest \<leftarrow> DigestFile mem rd input (nat algorithm);
                 case digest of
                   None \<Rightarrow> Some 1
                 | Some digest \<Rightarrow> do {
                     ok \<leftarrow> RSA_verify key signature sig_len (nat algorithm) digest;
                     Some (if ok then 0 else 1) } }) })"

end
