(* ===== verification/VB_Sha_Props.thy ===== *)
theory VB_Sha_Props
  imports VB_Sha
begin

text \<open>
  The digests against the standard: the functions of FIPS 180-2, to which the code, in both its versions and
  however the message is cut into pieces, is equal for messages shorter than \<open>2 ^ 29\<close> bytes.
\<close>

section \<open>The standard\<close>

text \<open>The message schedule, the working variables after \<open>t\<close> steps and the intermediate hash values.\<close>

fun fips_W :: "('a::len word, 'b) sha2_scheme \<Rightarrow> (nat \<Rightarrow> 'a word) \<Rightarrow> nat \<Rightarrow> 'a word" where
  "fips_W A M t = (if t < 16 then M t
     else F4 A (fips_W A M (t - 2)) + fips_W A M (t - 7) + F3 A (fips_W A M (t - 15)) + fips_W A M (t - 16))"

declare fips_W.simps [simp del]

primrec fips_vars :: "('a::len word, 'b) sha2_scheme \<Rightarrow> (nat \<Rightarrow> 'a word) \<Rightarrow> 'a word list \<Rightarrow> nat \<Rightarrow>
    'a word \<times> 'a word \<times> 'a word \<times> 'a word \<times> 'a word \<times> 'a word \<times> 'a word \<times> 'a word" where
  "fips_vars A W H 0 = (H ! 0, H ! 1, H ! 2, H ! 3, H ! 4, H ! 5, H ! 6, H ! 7)"
| "fips_vars A W H (Suc t) =
     (case fips_vars A W H t of (a, b, c, d, e, f, g, h) \<Rightarrow>
        (let T1 = h + F2 A e + CH e f g + sha_k A ! t + W t;
             T2 = F1 A a + MAJ a b c
         in (T1 + T2, a, b, c, d + T1, e, f, g)))"

definition fips_compress :: "('a::len word, 'b) sha2_scheme \<Rightarrow> 'a word list \<Rightarrow> byte list \<Rightarrow> 'a word list" where
  "fips_compress A H block =
     (case fips_vars A (fips_W A (\<lambda>t. a_pack A (drop (t * (a_bs A div 16)) block))) H (length (sha_k A)) of
        (a, b, c, d, e, f, g, h) \<Rightarrow>
          [H ! 0 + a, H ! 1 + b, H ! 2 + c, H ! 3 + d, H ! 4 + e, H ! 5 + f, H ! 6 + g, H ! 7 + h])"

definition be_bytes :: "nat \<Rightarrow> nat \<Rightarrow> byte list" where
  "be_bytes n x = map (\<lambda>i. of_nat (x div 256 ^ (n - 1 - i))) [0..<n]"

text \<open>Padding to blocks of \<open>bs\<close> bytes, the last \<open>bs div 8\<close> of them the length in bits.\<close>

definition fips_pad :: "nat \<Rightarrow> byte list \<Rightarrow> byte list" where
  "fips_pad bs m = m @ 0x80 # replicate ((bs - (length m + 1 + bs div 8) mod bs) mod bs) 0 @ be_bytes (bs div 8) (8 * length m)"

definition blocks :: "nat \<Rightarrow> byte list \<Rightarrow> byte list list" where
  "blocks bs xs = map (\<lambda>i. take bs (drop (i * bs) xs)) [0..<length xs div bs]"

definition fips_sha2 :: "('a::len word, 'b) sha2_scheme \<Rightarrow> byte list \<Rightarrow> byte list" where
  "fips_sha2 A m =
     concat (map (a_unpack A) (fold (\<lambda>b H. fips_compress A H b) (blocks (a_bs A) (fips_pad (a_bs A) m)) (sha_h0 A)))"

section \<open>The transformation of a block\<close>

lemma octuple:
  obtains a b c d e f g h where "x = (a, b, c, d, e, f, g, h)"
  by (cases x) auto

lemma SHA2_schedule_eq:
  assumes "16 \<le> length (sha_k A)"
  shows "SHA2_schedule A b = map (fips_W A (\<lambda>t. a_pack A (drop (t * (a_bs A div 16)) b))) [0..<length (sha_k A)]"
proof -
  let ?M = "\<lambda>t. a_pack A (drop (t * (a_bs A div 16)) b)"
  have "fold (SHA2_SCR A) [16..<16 + n] (map ?M [0..<16]) = map (fips_W A ?M) [0..<16 + n]" for n
  proof (induction n)
    case 0
    show ?case by (simp add: fips_W.simps)
  next
    case (Suc n)
    have "SHA2_SCR A (16 + n) (map (fips_W A ?M) [0..<16 + n]) = map (fips_W A ?M) [0..<16 + Suc n]"
      using upt_Suc_append[of 0 "16 + n"] by (simp add: SHA2_SCR_def fips_W.simps[of A ?M "16 + n"])
    with Suc upt_Suc_append[of 16 "16 + n"] show ?case by simp
  qed
  from this[of "length (sha_k A) - 16"] show ?thesis using assms by (simp add: SHA2_schedule_def)
qed

lemma rounds_eq:
  assumes "length h = 8" "\<And>t. t < n \<Longrightarrow> w ! t = W t"
  shows "fold (SHA2_round A w) [0..<n] h =
    (case fips_vars A W h n of (a, b, c, d, e, f, g, i) \<Rightarrow> [a, b, c, d, e, f, g, i])"
  using assms(2)
proof (induction n)
  case 0
  obtain a b c d e f g i where "h = [a, b, c, d, e, f, g, i]"
    using assms(1) by (auto simp: length_Suc_conv eval_nat_numeral)
  then show ?case by simp
next
  case (Suc n)
  obtain a b c d e f g i where v: "fips_vars A W h n = (a, b, c, d, e, f, g, i)" by (rule octuple)
  then have f: "fold (SHA2_round A w) [0..<Suc n] h = SHA2_round A w n [a, b, c, d, e, f, g, i]" using Suc by simp
  show ?case unfolding f using v Suc.prems[of n] by (simp add: SHA2_round_def Let_def)
qed

lemma SHA2_block_fips:
  assumes "16 \<le> length (sha_k A)" "length h = 8"
  shows "SHA2_block A h b = fips_compress A h b"
proof -
  let ?W = "fips_W A (\<lambda>t. a_pack A (drop (t * (a_bs A div 16)) b))"
  obtain a c d e f g i j where v: "fips_vars A ?W h (length (sha_k A)) = (a, c, d, e, f, g, i, j)" by (rule octuple)
  have "fold (SHA2_round A (SHA2_schedule A b)) [0..<length (sha_k A)] h = [a, c, d, e, f, g, i, j]"
    using rounds_eq[OF assms(2), of "length (sha_k A)" "SHA2_schedule A b" ?W A] v by (simp add: SHA2_schedule_eq[OF assms(1)])
  moreover obtain h0 h1 h2 h3 h4 h5 h6 h7 where "h = [h0, h1, h2, h3, h4, h5, h6, h7]"
    using assms(2) by (auto simp: length_Suc_conv eval_nat_numeral)
  ultimately show ?thesis using v by (simp add: SHA2_block_def fips_compress_def)
qed

subsection \<open>The unrolled loop\<close>

text \<open>The working variables in the order in which step \<open>r\<close> of the unrolled loop uses them.\<close>

definition rotated :: "nat \<Rightarrow> 'a list \<Rightarrow> 'a list" where
  "rotated r wv = map (\<lambda>i. wv ! ((i + 8 - r) mod 8)) [0..<8]"

lemma rotated_0: "length wv = 8 \<Longrightarrow> rotated 0 wv = wv"
  by (auto simp: rotated_def intro!: nth_equalityI)

lemma upt_8: "[0..<8] = [0, 1, 2, 3, 4, 5, 6, 7 :: nat]"
  by (simp add: upt_rec)

lemma length_EXP [simp]: "length (SHA2_EXP A w a b c d e f g h j wv) = length wv"
  by (simp add: SHA2_EXP_def Let_def)

lemmas rotate_simps = rotated_def SHA2_round_def SHA2_EXP_def Let_def upt_8

lemma EXP_round:
  assumes "length wv = 8"
  shows
    "rotated 1 (SHA2_EXP A w 0 1 2 3 4 5 6 7 j wv) = SHA2_round A w j (rotated 0 wv)"
    "rotated 2 (SHA2_EXP A w 7 0 1 2 3 4 5 6 j wv) = SHA2_round A w j (rotated 1 wv)"
    "rotated 3 (SHA2_EXP A w 6 7 0 1 2 3 4 5 j wv) = SHA2_round A w j (rotated 2 wv)"
    "rotated 4 (SHA2_EXP A w 5 6 7 0 1 2 3 4 j wv) = SHA2_round A w j (rotated 3 wv)"
    "rotated 5 (SHA2_EXP A w 4 5 6 7 0 1 2 3 j wv) = SHA2_round A w j (rotated 4 wv)"
    "rotated 6 (SHA2_EXP A w 3 4 5 6 7 0 1 2 j wv) = SHA2_round A w j (rotated 5 wv)"
    "rotated 7 (SHA2_EXP A w 2 3 4 5 6 7 0 1 j wv) = SHA2_round A w j (rotated 6 wv)"
    "rotated 0 (SHA2_EXP A w 1 2 3 4 5 6 7 0 j wv) = SHA2_round A w j (rotated 7 wv)"
proof -
  obtain a b c d e f g h where "wv = [a, b, c, d, e, f, g, h]"
    using assms by (auto simp: length_Suc_conv eval_nat_numeral)
  then show
    "rotated 1 (SHA2_EXP A w 0 1 2 3 4 5 6 7 j wv) = SHA2_round A w j (rotated 0 wv)"
    "rotated 2 (SHA2_EXP A w 7 0 1 2 3 4 5 6 j wv) = SHA2_round A w j (rotated 1 wv)"
    "rotated 3 (SHA2_EXP A w 6 7 0 1 2 3 4 5 j wv) = SHA2_round A w j (rotated 2 wv)"
    "rotated 4 (SHA2_EXP A w 5 6 7 0 1 2 3 4 j wv) = SHA2_round A w j (rotated 3 wv)"
    "rotated 5 (SHA2_EXP A w 4 5 6 7 0 1 2 3 j wv) = SHA2_round A w j (rotated 4 wv)"
    "rotated 6 (SHA2_EXP A w 3 4 5 6 7 0 1 2 j wv) = SHA2_round A w j (rotated 5 wv)"
    "rotated 7 (SHA2_EXP A w 2 3 4 5 6 7 0 1 j wv) = SHA2_round A w j (rotated 6 wv)"
    "rotated 0 (SHA2_EXP A w 1 2 3 4 5 6 7 0 j wv) = SHA2_round A w j (rotated 7 wv)"
    by (simp_all add: rotate_simps)
qed

lemma EXP8_rounds:
  assumes "length wv = 8"
  shows "SHA2_EXP8 A w j wv = fold (SHA2_round A w) [j..<j + 8] wv \<and> length (SHA2_EXP8 A w j wv) = 8"
proof -
  have u: "[j..<j + 8] = [j, j + 1, j + 2, j + 3, j + 4, j + 5, j + 6, j + 7]" by (simp add: upt_rec)
  have l: "length (SHA2_EXP8 A w j wv) = 8" using assms by (simp add: SHA2_EXP8_def Let_def)
  have "rotated 0 (SHA2_EXP8 A w j wv) = fold (SHA2_round A w) [j..<j + 8] (rotated 0 wv)"
    by (simp only: SHA2_EXP8_def Let_def u fold_simps EXP_round length_EXP assms)
  then show ?thesis using l assms by (simp add: rotated_0)
qed

lemma length_SHA2_round [simp]: "length (SHA2_round A w j wv) = 8"
  by (simp add: SHA2_round_def Let_def)

lemma length_rounds: "length wv = 8 \<Longrightarrow> length (fold (SHA2_round A w) js wv) = 8"
  by (induction js arbitrary: wv) simp_all

lemma unrolled_rounds:
  assumes "length h = 8"
  shows "fold (SHA2_EXP8 A w) (map (\<lambda>i. 8 * i) [0..<n]) h = fold (SHA2_round A w) [0..<8 * n] h"
proof (induction n)
  case (Suc n)
  have "[0..<8 * Suc n] = [0..<8 * n] @ [8 * n..<8 * n + 8]" using upt_add_eq_append[of 0 "8 * n" 8] by (simp add: add.commute)
  then show ?case using Suc EXP8_rounds[of "fold (SHA2_round A w) [0..<8 * n] h" A w "8 * n"] assms
    by (simp add: length_rounds)
qed simp

lemma SHA2_block_unrolled_eq:
  assumes "8 dvd length (sha_k A)" "length h = 8"
  shows "SHA2_block_unrolled A h b = SHA2_block A h b"
  using assms by (simp add: SHA2_block_unrolled_def SHA2_block_def unrolled_rounds)

section \<open>Streaming\<close>

lemma memcpy_at_length [simp]: "i + length ys \<le> length xs \<Longrightarrow> length (memcpy_at xs i ys) = length xs"
  by (simp add: memcpy_at_def)

lemma take_memcpy_at: "i + length ys \<le> length xs \<Longrightarrow> take (i + length ys) (memcpy_at xs i ys) = take i xs @ ys"
  by (simp add: memcpy_at_def)

text \<open>Blocks.\<close>

lemma blocks_append:
  assumes "0 < bs" "bs dvd length xs"
  shows "blocks bs (xs @ ys) = blocks bs xs @ blocks bs ys"
proof -
  obtain q where q: "length xs = bs * q" using assms(2) by blast
  have d: "length (xs @ ys) div bs = q + length ys div bs" "length xs div bs = q" using assms(1) by (simp_all add: q)
  have fst_part: "take bs (drop (i * bs) (xs @ ys)) = take bs (drop (i * bs) xs)" if "i < q" for i
  proof -
    have "i * bs + bs \<le> bs * q" using mult_le_mono1[of "Suc i" q bs] that by (simp add: mult.commute)
    then show ?thesis using q by simp
  qed
  have snd_part: "take bs (drop ((i + q) * bs) (xs @ ys)) = take bs (drop (i * bs) ys)" for i
    by (simp add: q algebra_simps)
  have "[0..<q + length ys div bs] = [0..<q] @ map (\<lambda>i. i + q) [0..<length ys div bs]"
    using upt_add_eq_append[of 0 q "length ys div bs"] map_add_upt[of q "length ys div bs"] by (simp add: add.commute)
  then show ?thesis unfolding blocks_def d by (simp add: fst_part snd_part del: take_append drop_append)
qed

lemma blocks_one: "length b = bs \<Longrightarrow> 0 < bs \<Longrightarrow> blocks bs b = [b]"
  by (simp add: blocks_def)

lemma blocks_short: "length xs < bs \<Longrightarrow> blocks bs xs = []"
  by (simp add: blocks_def)

lemma transform_blocks:
  assumes "n * 2 ^ lg \<le> length msg"
  shows "SHA2_transform body lg h msg n = fold (\<lambda>b h. body h b) (blocks (2 ^ lg) (take (n * 2 ^ lg) msg)) h"
proof -
  have "take (2 ^ lg) (drop (i * 2 ^ lg) (take (n * 2 ^ lg) msg)) = take (2 ^ lg) (drop (i * 2 ^ lg) msg)" if "i < n" for i
  proof -
    have "2 ^ lg \<le> n * 2 ^ lg - i * 2 ^ lg" using that mult_le_mono1[of "Suc i" n "2 ^ lg"] by simp
    then show ?thesis by (simp add: drop_take min_def)
  qed
  then have "blocks (2 ^ lg) (take (n * 2 ^ lg) msg) = map (\<lambda>i. take (2 ^ lg) (drop (i * 2 ^ lg) msg)) [0..<n]"
    using assms by (simp add: blocks_def min_def)
  then show ?thesis by (simp add: SHA2_transform_def push_bit_eq_mult fold_map comp_def)
qed

text \<open>What a context holds after the bytes \<open>m\<close>.\<close>

definition sha2_holds ::
    "('a::len word list \<Rightarrow> byte list \<Rightarrow> 'a word list) \<Rightarrow> ('a word, 'b) sha2_scheme \<Rightarrow> byte list \<Rightarrow> 'a word sha2_ctx \<Rightarrow> bool" where
  "sha2_holds body A m ctx \<longleftrightarrow>
     (let bs = 2 ^ a_lg A; n = length m - length m mod bs
      in length (sh_block ctx) = 2 * bs \<and> unat (sh_len ctx) = length m mod bs \<and> sh_tot_len ctx = of_nat n
         \<and> take (length m mod bs) (sh_block ctx) = drop n m
         \<and> sh_h ctx = fold (\<lambda>b h. body h b) (blocks bs (take n m)) (sha_h0 A))"

lemma sha2_holds_init: "length junk = 2 * 2 ^ a_lg A \<Longrightarrow> sha2_holds body A [] (SHA2_init A junk)"
  by (simp add: sha2_holds_def SHA2_init_def blocks_def)

text \<open>The arithmetic of \<open>update\<close> does not overflow.\<close>

lemma update_unat:
  fixes l d b :: "32 word"
  assumes "unat l < unat b" "unat b \<le> 128" "unat d < 2 ^ 31"
  shows "unat (b - l) = unat b - unat l" "unat (l + d) = unat l + unat d"
    "unat (if d < b - l then d else b - l) = min (unat d) (unat b - unat l)"
proof -
  show "unat (l + d) = unat l + unat d" using assms by (intro unat_add_lem[THEN iffD1]) simp
  have "l \<le> b" using assms(1) by (simp add: word_le_nat_alt)
  then show s: "unat (b - l) = unat b - unat l" by (rule unat_sub)
  show "unat (if d < b - l then d else b - l) = min (unat d) (unat b - unat l)"
    by (auto simp: word_less_nat_alt s min_def)
qed

lemma whole_blocks:
  fixes bs :: nat
  assumes "0 < bs"
  shows "bs dvd n - n mod bs" "n = (n - n mod bs) + n mod bs"
  using assms by (simp_all add: minus_mod_eq_mult_div)

lemma sha2_holds_update:
  assumes "sha2_holds body A m ctx" "length data < 2 ^ 31" "a_lg A = 6 \<or> a_lg A = 7"
  shows "sha2_holds body A (m @ data) (SHA2_update body A data ctx)"
proof -
  define bs where "bs = (2 :: nat) ^ a_lg A"
  define L where "L = length m mod bs"
  define n where "n = length m - L"
  define r where "r = min (length data) (bs - L)"
  let ?b = "2 ^ a_lg A :: 32 word" and ?d = "of_nat (length data) :: 32 word" and ?l = "sh_len ctx"
  have bs: "0 < bs" "bs \<le> 128" "unat ?b = bs" using assms(3) by (auto simp: bs_def)
  have L: "L < bs" "length m = n + L" "bs dvd n"
    using bs(1) whole_blocks[OF bs(1), of "length m"] unfolding L_def n_def by auto
  have h: "length (sh_block ctx) = 2 * bs" "unat ?l = L" "sh_tot_len ctx = of_nat n" "take L (sh_block ctx) = drop n m"
    "sh_h ctx = fold (\<lambda>b h. body h b) (blocks bs (take n m)) (sha_h0 A)"
    using assms(1) by (simp_all add: sha2_holds_def Let_def L_def n_def bs_def)
  have d: "unat ?d = length data" using assms(2) by (simp add: unat_of_nat)
  have u: "unat (?b - ?l) = bs - L" "unat (?l + ?d) = L + length data" "unat (if ?d < ?b - ?l then ?d else ?b - ?l) = r"
    using update_unat[of ?l ?b ?d] L(1) assms(2) bs(2) unfolding bs(3) h(2) d r_def by auto
  define rw where "rw = (if ?d < ?b - ?l then ?d else ?b - ?l)"
  define blk where "blk = memcpy_at (sh_block ctx) L (take r data)"
  have rl: "length (take r data) = r" by (simp add: r_def)
  have lblk: "length blk = 2 * bs" using L(1) h(1) rl unfolding blk_def by (simp add: r_def)
  have tblk: "take (L + r) blk = drop n m @ take r data"
    using take_memcpy_at[of L "take r data" "sh_block ctx"] L(1) h(1,4) rl unfolding blk_def by (simp add: r_def)
  have upd: "SHA2_update body A data ctx =
    (if ?l + ?d < ?b then ctx\<lparr>sh_block := blk, sh_len := ?l + ?d\<rparr>
     else ctx\<lparr>sh_h := SHA2_transform body (a_lg A) (SHA2_transform body (a_lg A) (sh_h ctx) blk 1)
                (drop r data) (unat ((?d - rw) div ?b)),
              sh_block := memcpy_at blk 0 (take (unat ((?d - rw) mod ?b)) (drop (unat (push_bit (a_lg A) ((?d - rw) div ?b))) (drop r data))),
              sh_len := (?d - rw) mod ?b,
              sh_tot_len := sh_tot_len ctx + push_bit (a_lg A) ((?d - rw) div ?b + 1)\<rparr>)"
    using u(3) unfolding SHA2_update_def Let_def rw_def blk_def h(2)[symmetric] by simp
  show ?thesis
  proof (cases "L + length data < bs")
    case True
    then have less: "?l + ?d < ?b" using u(2) bs(3) by (simp add: word_less_nat_alt)
    have r: "r = length data" using True by (simp add: r_def)
    have "(n + L + length data) mod bs = L + length data" using True L(3) by (metis add.assoc dvd_eq_mod_eq_0 mod_add_left_eq mod_less add_0)
    then have "length (m @ data) mod bs = L + length data" "length (m @ data) - (L + length data) = n" using L(2) by simp_all
    then show ?thesis unfolding upd sha2_holds_def Let_def bs_def[symmetric]
      using less lblk tblk u(2) h L(2) r by simp
  next
    case False
    then have nless: "\<not> ?l + ?d < ?b" using u(2) bs(3) by (simp add: word_less_nat_alt)
    have r: "r = bs - L" using False L(1) by (simp add: r_def)
    define e where "e = length data - r"
    have rw: "unat rw = r" using u(3) by (simp add: rw_def)
    have "rw \<le> ?d" using False r L(1) by (simp add: word_le_nat_alt d rw)
    then have e: "unat (?d - rw) = e" by (simp add: unat_sub d rw e_def)
    have q: "unat ((?d - rw) div ?b) = e div bs" "unat ((?d - rw) mod ?b) = e mod bs"
      using e bs(3) by (simp_all add: unat_div unat_mod)
    have "of_nat (unat ((?d - rw) div ?b)) = (?d - rw) div ?b" by simp
    then have qw: "(?d - rw) div ?b = of_nat (e div bs)" "push_bit (a_lg A) w = w * of_nat bs" for w :: "32 word"
      unfolding q by (simp_all add: push_bit_eq_mult bs_def)
    have el: "e div bs * bs \<le> length (drop r data)" by (simp add: e_def)
    have "length data < 2 ^ 31" by (rule assms(2))
    then have "e div bs * bs < 2 ^ 32" using el by simp
    then have pb: "unat (push_bit (a_lg A) ((?d - rw) div ?b)) = e div bs * bs"
      unfolding qw by (simp add: unat_of_nat flip: of_nat_mult)
    have len: "length (m @ data) = n + bs + e" using L(1,2) False r by (simp add: e_def)
    have lmod: "length (m @ data) mod bs = e mod bs" "length (m @ data) - e mod bs = n + bs + e div bs * bs"
      unfolding len using L(3) by (auto simp: mod_add_left_eq[symmetric] minus_mod_eq_div_mult[symmetric] elim!: dvdE)
    have Lr: "L + r = bs" using r L(1) by simp
    have t1: "SHA2_transform body (a_lg A) (sh_h ctx) blk 1 = fold (\<lambda>b h. body h b) (blocks bs (take n m @ drop n m @ take r data)) (sha_h0 A)"
      using transform_blocks[of 1 "a_lg A" blk body "sh_h ctx"] lblk tblk blocks_append[of bs "take n m" "drop n m @ take r data"] bs(1) L
      unfolding h(5) bs_def[symmetric] Lr by simp
    have "length (take n m @ drop n m @ take r data) = n + bs" using L(2) Lr rl by simp
    then have dv: "bs dvd length (take n m @ drop n m @ take r data)" using L(3) by simp
    have t2: "SHA2_transform body (a_lg A) (SHA2_transform body (a_lg A) (sh_h ctx) blk 1) (drop r data) (e div bs) =
        fold (\<lambda>b h. body h b) (blocks bs (take (n + bs + e div bs * bs) (m @ data))) (sha_h0 A)"
    proof -
      have "n + bs + e div bs * bs = length m + (r + e div bs * bs)" using L(2) Lr by simp
      then have "take (n + bs + e div bs * bs) (m @ data) = (take n m @ drop n m @ take r data) @ take (e div bs * bs) (drop r data)"
        by (simp add: take_add flip: append_assoc)
      then show ?thesis
        using transform_blocks[of "e div bs" "a_lg A" "drop r data"] el blocks_append[OF bs(1) dv, of "take (e div bs * bs) (drop r data)"]
        unfolding t1 bs_def[symmetric] by simp
    qed
    have fits: "length (take (e mod bs) (drop (e div bs * bs) (drop r data))) = e mod bs"
      using minus_div_mult_eq_mod[of e bs] by (simp add: e_def)
    have "n + bs + e div bs * bs = length m + (r + e div bs * bs)" using L(2) Lr by simp
    then have "drop (n + bs + e div bs * bs) (m @ data) = drop (e div bs * bs) (drop r data)" by (simp add: add.commute)
    also have "\<dots> = take (e mod bs) (drop (e div bs * bs) (drop r data))"
      using minus_div_mult_eq_mod[of e bs] by (simp add: e_def)
    finally have "drop (n + bs + e div bs * bs) (m @ data) = take (e mod bs) (drop (e div bs * bs) (drop r data))" .
    then show ?thesis unfolding upd sha2_holds_def Let_def bs_def[symmetric] lmod
      using nless lblk t2 q pb h(3) bs(1) fits L(3) mod_less_divisor[OF bs(1), of e]
      by (simp add: memcpy_at_def qw algebra_simps less_imp_le)
  qed
qed

text \<open>The padding of \<open>final\<close> is that of the standard.\<close>

lemma byte_of_drop_bit:
  assumes "x < 2 ^ 32"
  shows "(ucast (drop_bit k (of_nat x :: 32 word)) :: byte) = of_nat (x div 2 ^ k)"
proof -
  have "unat (of_nat x :: 32 word) = x" using assms by (simp add: unat_of_nat)
  then have "unat (drop_bit k (of_nat x :: 32 word)) = x div 2 ^ k" by (simp add: unat_drop_bit_eq drop_bit_eq_div[where 'a = nat])
  then show ?thesis by (metis of_nat_unat)
qed

lemma be_bytes_UNPACK32:
  assumes "x < 2 ^ 32" "f = 8 \<or> f = 16"
  shows "be_bytes f x = replicate (f - 4) 0 @ UNPACK32 (of_nat x)"
proof -
  have z: "x div k = 0" if "4294967296 \<le> k" for k :: nat
    using that assms(1) by (intro div_less) simp
  have p: "x div 256 ^ k = x div 2 ^ (8 * k)" for k by (simp add: power_mult)
  have u: "UNPACK32 (of_nat x) = [of_nat (x div 2 ^ 24), of_nat (x div 2 ^ 16), of_nat (x div 2 ^ 8), of_nat x]"
    using byte_of_drop_bit[OF assms(1), of 0] byte_of_drop_bit[OF assms(1)] by (simp add: UNPACK32_def)
  have l: "[0..<16] = [0, 1, 2, 3, 4, 5, 6, 7, 8, 9, 10, 11, 12, 13, 14, 15 :: nat]" by (simp add: upt_rec)
  have r: "replicate 4 (0 :: byte) = [0, 0, 0, 0]" "replicate 12 (0 :: byte) = [0, 0, 0, 0, 0, 0, 0, 0, 0, 0, 0, 0]"
    by (simp_all add: eval_nat_numeral)
  show ?thesis using assms(2) unfolding u be_bytes_def p by (auto simp: upt_8 l r z)
qed

lemma mod_complement:
  fixes bs s :: nat
  assumes "0 < s" "s < 2 * bs"
  shows "(bs - s mod bs) mod bs = (if s \<le> bs then bs - s else 2 * bs - s)"
proof (cases "s < bs")
  case False
  then have "s mod bs = s - bs" using assms(2) by (simp add: le_mod_geq)
  then show ?thesis using False assms by auto
qed (use assms in auto)

lemma pad_length:
  fixes bs :: nat
  assumes "bs = 64 \<or> bs = 128" "L < bs" "bs dvd n" "pm = (if bs - (bs div 8 + 1) < L then 2 * bs else bs)"
  shows "(bs - (n + L + 1 + bs div 8) mod bs) mod bs = pm - L - 1 - bs div 8" "L + 1 + bs div 8 \<le> pm"
proof -
  have "(n + (L + 1 + bs div 8)) mod bs = (L + 1 + bs div 8) mod bs"
    using assms(3) by (metis mod_add_left_eq dvd_imp_mod_0 add_0)
  moreover have "(bs - (L + 1 + bs div 8) mod bs) mod bs = pm - L - 1 - bs div 8"
    using mod_complement[of "L + 1 + bs div 8" bs] assms(1,2,4) by (elim disjE; simp)
  ultimately show "(bs - (n + L + 1 + bs div 8) mod bs) mod bs = pm - L - 1 - bs div 8" by (simp add: add.assoc)
  show "L + 1 + bs div 8 \<le> pm" using assms(1,2,4) by auto
qed

lemma memcpy_at_append: "length z = length ys \<Longrightarrow> i = length xs \<Longrightarrow> memcpy_at (xs @ z @ zs) i ys = xs @ ys @ zs"
  by (simp add: memcpy_at_def)

lemma padded_block:
  assumes "length xs = 2 * bs" "L + 5 \<le> pm" "pm \<le> 2 * bs" "length ys = 4"
  shows "take pm (memcpy_at ((memcpy_at xs L (replicate (pm - L) 0))[L := a]) (pm - 4) ys) =
    take L xs @ a # replicate (pm - L - 5) (0 :: byte) @ ys"
proof -
  obtain k where pm: "pm = L + Suc (k + 4)" using assms(2) by (auto simp: le_iff_add)
  then have k: "pm - L = Suc (k + 4)" "pm - 4 = L + Suc k" "pm - L - 5 = k" "L + (pm - L) = pm" by simp_all
  have r: "replicate (pm - L) (0 :: byte) = 0 # replicate k 0 @ replicate 4 0" unfolding k(1) by (simp only: replicate_Suc replicate_add)
  have "(memcpy_at xs L (replicate (pm - L) 0))[L := a] = take L xs @ a # replicate k 0 @ replicate 4 0 @ drop pm xs"
    using assms(1,3) k(4) unfolding memcpy_at_def length_replicate r by (simp add: list_update_append pm)
  then have "memcpy_at ((memcpy_at xs L (replicate (pm - L) 0))[L := a]) (pm - 4) ys =
      (take L xs @ a # replicate k 0 @ ys) @ drop pm xs"
    using memcpy_at_append[of "replicate 4 0" ys "pm - 4" "take L xs @ a # replicate k 0" "drop pm xs"] assms(1,3,4) pm k(2) by simp
  moreover have "length (take L xs @ a # replicate k 0 @ ys) = pm" using assms(1,3,4) pm by simp
  ultimately show ?thesis unfolding k(3) by (metis append_eq_conv_conj)
qed

lemma sha2_final:
  assumes "sha2_holds body A m ctx" "length m < 2 ^ 29" "a_lg A = 6 \<or> a_lg A = 7"
  shows "fst (SHA2_final body A ctx) =
    concat (map (a_unpack A) (fold (\<lambda>b h. body h b) (blocks (a_bs A) (fips_pad (a_bs A) m)) (sha_h0 A)))"
proof -
  define bs where "bs = (2 :: nat) ^ a_lg A"
  define L where "L = length m mod bs"
  define n where "n = length m - L"
  define pm where "pm = (if bs - (bs div 8 + 1) < L then 2 * bs else bs)"
  define nb where "nb = (if bs - (bs div 8 + 1) < L then 2 else 1 :: nat)"
  let ?b = "2 ^ a_lg A :: 32 word"
  have bs: "bs = 64 \<or> bs = 128" "unat ?b = bs" "0 < bs" using assms(3) by (auto simp: bs_def)
  have L: "L < bs" "length m = n + L" "bs dvd n"
    using bs(3) whole_blocks[OF bs(3), of "length m"] unfolding L_def n_def by auto
  have h: "length (sh_block ctx) = 2 * bs" "unat (sh_len ctx) = L" "sh_tot_len ctx = of_nat n" "take L (sh_block ctx) = drop n m"
    "sh_h ctx = fold (\<lambda>b h. body h b) (blocks bs (take n m)) (sha_h0 A)"
    using assms(1) by (simp_all add: sha2_holds_def Let_def L_def n_def bs_def)
  have ln: "sh_len ctx = of_nat L" unfolding h(2)[symmetric] by simp
  have nbw: "(1 + (if ?b - (2 ^ (a_lg A - 3) + 1) < sh_len ctx mod ?b then 1 else 0) :: 32 word) = of_nat nb"
  proof -
    have "unat (?b - (2 ^ (a_lg A - 3) + 1)) = bs - (bs div 8 + 1)" using assms(3) by (auto simp: bs_def)
    moreover have "unat (sh_len ctx mod ?b) = L" using L(1) by (simp add: unat_mod h(2) bs(2))
    ultimately show ?thesis by (simp add: word_less_nat_alt nb_def)
  qed
  have bw: "?b = of_nat bs" by (simp add: bs_def)
  have pmw: "push_bit (a_lg A) (of_nat nb :: 32 word) = of_nat pm"
    by (simp add: push_bit_eq_mult nb_def pm_def flip: bw)
  have pm: "pm \<le> 2 * bs" "pm = nb * bs" "L + 1 + bs div 8 \<le> pm"
    using pad_length(2)[OF bs(1) L(1,3) pm_def] by (auto simp: pm_def nb_def)
  have pu: "unat (of_nat pm :: 32 word) = pm" "unat (of_nat nb :: 32 word) = nb"
    using bs(1) by (auto simp: pm_def nb_def unat_of_nat)
  have "sh_len ctx \<le> of_nat pm" "(4 :: 32 word) \<le> of_nat pm" using pm(3) bs(1) by (auto simp: word_le_nat_alt h(2) pu)
  then have sub: "unat (of_nat pm - sh_len ctx) = pm - L" "unat (of_nat pm - 4 :: 32 word) = pm - 4"
    by (simp_all add: unat_sub h(2) pu)
  have lb: "push_bit 3 (sh_tot_len ctx + sh_len ctx) = of_nat (8 * length m)"
    using L(2) by (simp add: push_bit_eq_mult h(3) ln algebra_simps)
  define blk where "blk = memcpy_at ((memcpy_at (sh_block ctx) L (replicate (pm - L) 0))[L := 0x80]) (pm - 4) (UNPACK32 (of_nat (8 * length m)))"
  have blk: "take pm blk = drop n m @ 0x80 # replicate (pm - L - 5) 0 @ UNPACK32 (of_nat (8 * length m))"
    unfolding blk_def using pm bs(1) h(1,4) by (subst padded_block[where bs = bs]) (auto simp: UNPACK32_def)
  have fin: "fst (SHA2_final body A ctx) = concat (map (a_unpack A) (SHA2_transform body (a_lg A) (sh_h ctx) blk nb))"
    unfolding SHA2_final_def Let_def nbw pmw sub lb h(2) pu blk_def by simp
  have pad: "fips_pad bs m = take n m @ take pm blk"
  proof -
    have "be_bytes (bs div 8) (8 * length m) = replicate (bs div 8 - 4) 0 @ UNPACK32 (of_nat (8 * length m))"
      using assms(2) bs(1) by (intro be_bytes_UNPACK32) auto
    moreover have "replicate (pm - L - 5) (0 :: byte) = replicate (pm - L - 1 - bs div 8) 0 @ replicate (bs div 8 - 4) 0"
      using pm(3) bs(1) by (auto simp flip: replicate_add)
    ultimately show ?thesis
      unfolding fips_pad_def blk L(2) pad_length(1)[OF bs(1) L(1,3) pm_def] by (simp flip: append_assoc)
  qed
  have "length (memcpy_at (sh_block ctx) L (replicate (pm - L) 0)) = 2 * bs"
    using pm bs(1) h(1) by (subst memcpy_at_length) auto
  then have "length blk = 2 * bs" unfolding blk_def using pm bs(1) by (subst memcpy_at_length) (auto simp: UNPACK32_def)
  then have "nb * 2 ^ a_lg A \<le> length blk" using pm(1,2) by (simp add: bs_def[symmetric])
  then have "SHA2_transform body (a_lg A) (sh_h ctx) blk nb = fold (\<lambda>b h. body h b) (blocks bs (take pm blk)) (sh_h ctx)"
    using transform_blocks[of nb "a_lg A" blk] pm(2) by (simp add: bs_def)
  then show ?thesis unfolding fin h(5) bs_def[symmetric] pad using blocks_append[OF bs(3), of "take n m" "take pm blk"] L by simp
qed

lemma sha2_holds_updates:
  assumes "sha2_holds body A m ctx" "\<forall>d\<in>set ds. length d < 2 ^ 31" "a_lg A = 6 \<or> a_lg A = 7"
  shows "sha2_holds body A (m @ concat ds) (fold (SHA2_update body A) ds ctx)"
  using assms(1,2)
proof (induction ds arbitrary: m ctx)
  case (Cons d ds)
  then show ?case using Cons.IH[OF sha2_holds_update[OF Cons.prems(1) _ assms(3), of d]] by simp
qed simp

text \<open>A body that agrees with the standard on eight words, as both do.\<close>

lemma fold_body_fips:
  assumes "\<And>h b. length h = 8 \<Longrightarrow> body h b = fips_compress A h b" "length h = 8"
  shows "fold (\<lambda>b h. body h b) bs h = fold (\<lambda>b h. fips_compress A h b) bs h"
proof -
  have "length (fips_compress A h b) = 8" for h b
    by (rule octuple[of "fips_vars A (fips_W A (\<lambda>t. a_pack A (drop (t * (a_bs A div 16)) b))) h (length (sha_k A))"])
       (simp add: fips_compress_def)
  then show ?thesis using assms(2) by (induction bs arbitrary: h) (simp_all add: assms(1))
qed

lemma SHA2_stream:
  assumes "\<And>h b. length h = 8 \<Longrightarrow> body h b = fips_compress A h b" "length (sha_h0 A) = 8" "a_lg A = 6 \<or> a_lg A = 7"
    "length junk = 2 * 2 ^ a_lg A" "length (concat ds) < 2 ^ 29"
  shows "fst (SHA2_final body A (fold (SHA2_update body A) ds (SHA2_init A junk))) = fips_sha2 A (concat ds)"
proof -
  have "\<forall>d\<in>set ds. length d < 2 ^ 31"
  proof
    fix d assume "d \<in> set ds"
    then obtain xs ys where "ds = xs @ d # ys" by (meson split_list)
    then show "length d < 2 ^ 31" using assms(5) by simp
  qed
  from sha2_holds_updates[OF sha2_holds_init[OF assms(4), of body] this assms(3)]
  show ?thesis using sha2_final[of body A "concat ds"] assms(3,5) fold_body_fips[OF assms(1,2)] by (simp add: fips_sha2_def)
qed

lemma sha2_parameters [simp]:
  "length (sha_k sha256) = 64" "length (sha_k sha512) = 80" "length (sha_h0 sha256) = 8" "length (sha_h0 sha512) = 8"
  "a_lg sha256 = 6" "a_lg sha512 = 7"
  by (simp_all add: sha256_def sha512_def sha256_k_def sha512_k_def sha256_h0_def sha512_h0_def)

lemma SHA2_streaming_lemma:
  assumes "length (concat ds) < 2 ^ 29"
  shows "fst (SHA256_final (fold SHA256_update ds (SHA256_init (uninit mem 128)))) = fips_sha2 sha256 (concat ds)"
    "fst (SHA512_final (fold SHA512_update ds (SHA512_init (uninit mem 256)))) = fips_sha2 sha512 (concat ds)"
    "SHA256 mem (concat ds) = fips_sha2 sha256 (concat ds)" "SHA512 mem (concat ds) = fips_sha2 sha512 (concat ds)"
proof -
  have "fst (SHA256_final (fold SHA256_update ds (SHA256_init (uninit mem 128)))) = fips_sha2 sha256 (concat ds)"
    "fst (SHA512_final (fold SHA512_update ds (SHA512_init (uninit mem 256)))) = fips_sha2 sha512 (concat ds)"
    if "length (concat ds) < 2 ^ 29" for ds
    unfolding SHA256_final_def SHA256_update_def SHA256_init_def SHA512_final_def SHA512_update_def SHA512_init_def
    using that by (auto intro!: SHA2_stream SHA2_block_fips simp: uninit_def)
  from this[of ds] this[of "[concat ds]"]
  show "fst (SHA256_final (fold SHA256_update ds (SHA256_init (uninit mem 128)))) = fips_sha2 sha256 (concat ds)"
    "fst (SHA512_final (fold SHA512_update ds (SHA512_init (uninit mem 256)))) = fips_sha2 sha512 (concat ds)"
    "SHA256 mem (concat ds) = fips_sha2 sha256 (concat ds)" "SHA512 mem (concat ds) = fips_sha2 sha512 (concat ds)"
    using assms by (simp_all add: SHA256_def SHA512_def)
qed

text \<open>
  C5: SHA-256 and SHA-512 compute the function of the standard. Whatever pieces of together less than \<open>2 ^ 29\<close> bytes
  a message is given to \<open>update\<close> in, and whatever the context's memory held before, \<open>final\<close> returns the
  digest of FIPS 180-2 of the whole message.
\<close>

theorem SHA2_streaming_correct:
  assumes "length (concat ds) < 2 ^ 29"
  shows "fst (SHA256_final (fold SHA256_update ds (SHA256_init (uninit mem 128)))) = fips_sha2 sha256 (concat ds) \<and>
    fst (SHA512_final (fold SHA512_update ds (SHA512_init (uninit mem 256)))) = fips_sha2 sha512 (concat ds) \<and>
    SHA256 mem (concat ds) = fips_sha2 sha256 (concat ds) \<and> SHA512 mem (concat ds) = fips_sha2 sha512 (concat ds)"
  using SHA2_streaming_lemma[OF assms, of mem] by simp

theorem SHA2_streaming_correct_witness:
  "fst (SHA256_final (fold SHA256_update [[1, 2], [], [3]] (SHA256_init (uninit (\<lambda>_. 7) 128)))) = fips_sha2 sha256 [1, 2, 3]"
  using SHA2_streaming_correct[of "[[1, 2], [], [3]]" "\<lambda>_. 7"] by simp

text \<open>
  C24: compiled with \<open>UNROLL_LOOPS\<close>, where the working variables stay in place and the steps use them
  in rotated order, the transformation of a block is the same as compiled without.
\<close>

theorem SHA2_unrolled_equivalent:
  assumes "length h = 8" "length h' = 8"
  shows "SHA2_block_unrolled sha256 h b = SHA2_block sha256 h b \<and> SHA2_block_unrolled sha512 h' b = SHA2_block sha512 h' b
    \<and> SHA2_block sha256 h b = fips_compress sha256 h b \<and> SHA2_block sha512 h' b = fips_compress sha512 h' b"
  using assms by (simp add: SHA2_block_unrolled_eq SHA2_block_fips)

theorem SHA2_unrolled_equivalent_witness:
  "SHA2_block_unrolled sha256 sha256_h0 (replicate 64 5) = SHA2_block sha256 sha256_h0 (replicate 64 5)
    \<and> SHA2_block_unrolled sha512 sha512_h0 (replicate 64 5) = SHA2_block sha512 sha512_h0 (replicate 64 5)"
  using SHA2_unrolled_equivalent[of sha256_h0 sha512_h0 "replicate 64 5"] by (simp add: sha256_h0_def sha512_h0_def)

section \<open>SHA-1\<close>

subsection \<open>The standard\<close>

fun fips1_W :: "(nat \<Rightarrow> 32 word) \<Rightarrow> nat \<Rightarrow> 32 word" where
  "fips1_W M t = (if t < 16 then M t
     else rol 1 (fips1_W M (t - 3) XOR fips1_W M (t - 8) XOR fips1_W M (t - 14) XOR fips1_W M (t - 16)))"

declare fips1_W.simps [simp del]

definition fips1_f :: "nat \<Rightarrow> 32 word \<Rightarrow> 32 word \<Rightarrow> 32 word \<Rightarrow> 32 word" where
  "fips1_f t = (if t < 20 then CH else if t < 40 then (\<lambda>x y z. x XOR y XOR z) else if t < 60 then MAJ else (\<lambda>x y z. x XOR y XOR z))"

definition fips1_K :: "nat \<Rightarrow> 32 word" where
  "fips1_K t = (if t < 20 then 0x5A827999 else if t < 40 then 0x6ED9EBA1 else if t < 60 then 0x8F1BBCDC else 0xCA62C1D6)"

primrec fips1_vars :: "(nat \<Rightarrow> 32 word) \<Rightarrow> 32 word list \<Rightarrow> nat \<Rightarrow> 32 word \<times> 32 word \<times> 32 word \<times> 32 word \<times> 32 word" where
  "fips1_vars W H 0 = (H ! 0, H ! 1, H ! 2, H ! 3, H ! 4)"
| "fips1_vars W H (Suc t) =
     (case fips1_vars W H t of (a, b, c, d, e) \<Rightarrow> (rol 5 a + fips1_f t b c d + e + fips1_K t + W t, a, rol 30 b, c, d))"

definition fips1_compress :: "32 word list \<Rightarrow> byte list \<Rightarrow> 32 word list" where
  "fips1_compress H block =
     (case fips1_vars (fips1_W (\<lambda>t. PACK32 (drop (4 * t) block))) H 80 of
        (a, b, c, d, e) \<Rightarrow> [H ! 0 + a, H ! 1 + b, H ! 2 + c, H ! 3 + d, H ! 4 + e])"

definition fips_sha1 :: "byte list \<Rightarrow> byte list" where
  "fips_sha1 m = concat (map UNPACK32 (fold (\<lambda>b H. fips1_compress H b) (blocks 64 (fips_pad 64 m))
     [0x67452301, 0xEFCDAB89, 0x98BADCFE, 0x10325476, 0xC3D2E1F0]))"

subsection \<open>The transformation\<close>

lemma choose_eq: "d XOR (b AND (c XOR d)) = CH b c d"
  by (rule bit_word_eqI) (auto simp: CH_def bit_simps)

lemma majority_eq: "(b AND c) OR (d AND (b OR c)) = MAJ b c d"
  by (rule bit_word_eqI) (auto simp: MAJ_def bit_simps)

lemma sha1_W_eq: "sha1_W b = map (fips1_W (\<lambda>t. PACK32 (drop (4 * t) b))) [0..<80]"
proof -
  let ?M = "\<lambda>t. PACK32 (drop (4 * t) b)"
  let ?g = "\<lambda>t W. W @ [rol 1 (W ! (t - 3) XOR W ! (t - 8) XOR W ! (t - 14) XOR W ! (t - 16))]"
  have "fold ?g [16..<16 + n] (map ?M [0..<16]) = map (fips1_W ?M) [0..<16 + n]" for n
  proof (induction n)
    case 0
    show ?case by (simp add: fips1_W.simps)
  next
    case (Suc n)
    have "?g (16 + n) (map (fips1_W ?M) [0..<16 + n]) = map (fips1_W ?M) [0..<16 + Suc n]"
      using upt_Suc_append[of 0 "16 + n"] by (simp add: fips1_W.simps[of ?M "16 + n"])
    with Suc upt_Suc_append[of 16 "16 + n"] show ?case by simp
  qed
  note W = this
  have e: "(80 :: nat) = 16 + 64" by simp
  show ?thesis unfolding sha1_W_def e by (rule W)
qed

lemma sha1_round_list:
  "sha1_round w n [a, b, c, d, e] = [rol 5 a + e + w ! n + (fips1_f n b c d + fips1_K n), a, rol 30 b, c, d]"
  by (simp add: sha1_round_def Let_def choose_eq majority_eq fips1_f_def fips1_K_def)

lemma sha1_rounds_eq:
  assumes "length h = 5" "\<And>t. t < n \<Longrightarrow> w ! t = W t"
  shows "fold (sha1_round w) [0..<n] h = (case fips1_vars W h n of (a, b, c, d, e) \<Rightarrow> [a, b, c, d, e])"
  using assms(2)
proof (induction n)
  case 0
  obtain a b c d e where "h = [a, b, c, d, e]" using assms(1) by (auto simp: length_Suc_conv eval_nat_numeral)
  then show ?case by simp
next
  case (Suc n)
  obtain a b c d e where v: "fips1_vars W h n = (a, b, c, d, e)" by (rule prod_cases5)
  then have f: "fold (sha1_round w) [0..<Suc n] h = sha1_round w n [a, b, c, d, e]" using Suc by simp
  show ?case unfolding f sha1_round_list using v Suc.prems[of n] by (simp add: ac_simps)
qed

lemma sha1_transform_fips:
  assumes "length (s1_state ctx) = 5"
  shows "SHA1_transform ctx = ctx\<lparr>s1_state := fips1_compress (s1_state ctx) (s1_buf ctx)\<rparr>"
proof -
  let ?W = "fips1_W (\<lambda>t. PACK32 (drop (4 * t) (s1_buf ctx)))"
  obtain a b c d e where v: "fips1_vars ?W (s1_state ctx) 80 = (a, b, c, d, e)" by (rule prod_cases5)
  have "fold (sha1_round (sha1_W (s1_buf ctx))) [0..<80] (s1_state ctx) = [a, b, c, d, e]"
    using sha1_rounds_eq[OF assms, of 80 "sha1_W (s1_buf ctx)" ?W] v by (simp add: sha1_W_eq)
  moreover obtain h0 h1 h2 h3 h4 where "s1_state ctx = [h0, h1, h2, h3, h4]"
    using assms by (auto simp: length_Suc_conv eval_nat_numeral)
  ultimately show ?thesis using v by (simp add: SHA1_transform_def fips1_compress_def)
qed

lemma length_fips1_compress [simp]: "length (fips1_compress h b) = 5"
  by (rule prod_cases5[of "fips1_vars (fips1_W (\<lambda>t. PACK32 (drop (4 * t) b))) h 80"]) (simp add: fips1_compress_def)

subsection \<open>Streaming\<close>

definition sha1_h0 :: "32 word list" where
  "sha1_h0 = [0x67452301, 0xEFCDAB89, 0x98BADCFE, 0x10325476, 0xC3D2E1F0]"

text \<open>The buffer and the state after the bytes \<open>m\<close>.\<close>

definition sha1_fed :: "byte list \<Rightarrow> sha1_ctx \<Rightarrow> bool" where
  "sha1_fed m ctx \<longleftrightarrow> length (s1_buf ctx) = 64
     \<and> take (length m mod 64) (s1_buf ctx) = drop (length m - length m mod 64) m
     \<and> s1_state ctx = fold (\<lambda>b H. fips1_compress H b) (blocks 64 (take (length m - length m mod 64) m)) sha1_h0"

lemma length_fold_compress: "length h = 5 \<Longrightarrow> length (fold (\<lambda>b H. fips1_compress H b) bs h) = 5"
  by (induction bs arbitrary: h) simp_all

lemma sha1_fed_byte:
  assumes "sha1_fed m ctx" "i = length m mod 64"
  shows "i + 1 = 64 \<Longrightarrow> sha1_fed (m @ [b]) (SHA1_transform (ctx\<lparr>s1_buf := (s1_buf ctx)[i := b]\<rparr>))"
    "i + 1 \<noteq> 64 \<Longrightarrow> sha1_fed (m @ [b]) (ctx\<lparr>s1_buf := (s1_buf ctx)[i := b]\<rparr>)"
proof -
  define n where "n = length m - i"
  have n: "length m = n + i" "i < 64" "64 dvd n"
    using whole_blocks[of 64 "length m"] assms(2) unfolding n_def by auto
  have h: "length (s1_buf ctx) = 64" "take i (s1_buf ctx) = drop n m"
    "s1_state ctx = fold (\<lambda>b H. fips1_compress H b) (blocks 64 (take n m)) sha1_h0"
    using assms by (simp_all add: sha1_fed_def n_def)
  have l5: "length (s1_state ctx) = 5" unfolding h(3) by (rule length_fold_compress) (simp add: sha1_h0_def)
  have t: "take (Suc i) ((s1_buf ctx)[i := b]) = drop n m @ [b]"
    using h(1,2) n(2) by (simp add: take_Suc_conv_app_nth take_update_cancel)
  show "sha1_fed (m @ [b]) (SHA1_transform (ctx\<lparr>s1_buf := (s1_buf ctx)[i := b]\<rparr>))" if "i + 1 = 64"
  proof -
    have m64: "length (m @ [b]) mod 64 = 0" "length (m @ [b]) = n + 64" using n(3) that n(1) by auto
    have "(s1_buf ctx)[i := b] = drop n m @ [b]" using t h(1) that by simp
    moreover have "blocks 64 (m @ [b]) = blocks 64 (take n m) @ [drop n m @ [b]]"
      using blocks_append[of 64 "take n m" "drop n m @ [b]"] n that by (simp add: blocks_one flip: append_assoc)
    ultimately show ?thesis using m64 h l5 by (simp add: sha1_fed_def sha1_transform_fips)
  qed
  show "sha1_fed (m @ [b]) (ctx\<lparr>s1_buf := (s1_buf ctx)[i := b]\<rparr>)" if "i + 1 \<noteq> 64"
  proof -
    have "length (m @ [b]) mod 64 = Suc i" using n that by (simp add: mod_Suc assms(2))
    then show ?thesis using h t n by (simp add: sha1_fed_def)
  qed
qed

lemma sha1_update_loop_fed:
  assumes "sha1_fed m ctx" "i = length m mod 64"
  shows "sha1_fed (m @ data) (sha1_update_loop i data ctx)"
  using assms
proof (induction data arbitrary: m ctx i)
  case (Cons b data)
  show ?case
  proof (cases "i + 1 = 64")
    case True
    then have "0 = length (m @ [b]) mod 64" using Cons.prems(2) by (simp add: mod_Suc)
    with Cons.IH[OF sha1_fed_byte(1)[OF Cons.prems True, of b]] True show ?thesis by (simp add: Let_def)
  next
    case False
    then have "i + 1 = length (m @ [b]) mod 64" using Cons.prems(2) by (simp add: mod_Suc)
    with Cons.IH[OF sha1_fed_byte(2)[OF Cons.prems False, of b]] False show ?thesis by (simp add: Let_def)
  qed
qed simp

lemma count_update_loop [simp]: "s1_count (sha1_update_loop i data ctx) = s1_count ctx"
  by (induction i data ctx rule: sha1_update_loop.induct) (simp_all add: Let_def SHA1_transform_def)

lemma count_SHA1_update [simp]: "s1_count (SHA1_update data ctx) = s1_count ctx + of_nat (length data)"
  by (simp add: SHA1_update_def)

text \<open>The counter of 64 bits wraps to a multiple of the block size, so that it is right modulo 64.\<close>

lemma count_mod: "unat ((of_nat n :: 64 word) mod 64) = n mod 64"
  by (simp add: unat_mod unat_of_nat mod_mod_cancel)

definition sha1_holds :: "byte list \<Rightarrow> sha1_ctx \<Rightarrow> bool" where
  "sha1_holds m ctx \<longleftrightarrow> sha1_fed m ctx \<and> s1_count ctx = of_nat (length m)"

lemma sha1_holds_update: "sha1_holds m ctx \<Longrightarrow> sha1_holds (m @ data) (SHA1_update data ctx)"
  unfolding sha1_holds_def
  by (simp add: SHA1_update_def) (rule sha1_update_loop_fed; simp add: sha1_fed_def count_mod)

lemma sha1_holds_updates: "sha1_holds m ctx \<Longrightarrow> sha1_holds (m @ concat ds) (fold SHA1_update ds ctx)"
  by (induction ds arbitrary: m ctx) (simp, metis append_assoc concat.simps(2) fold_simps(2) sha1_holds_update)

subsection \<open>Termination and result\<close>

text \<open>The number of zero bytes that the loop adds to \<open>k\<close> bytes.\<close>

definition zeros :: "nat \<Rightarrow> nat" where
  "zeros k = (if k mod 64 \<le> 56 then 56 - k mod 64 else 120 - k mod 64)"

lemma zeros_step: "k mod 64 \<noteq> 56 \<Longrightarrow> zeros k = Suc (zeros (Suc k))" "k mod 64 = 56 \<Longrightarrow> zeros k = 0" "zeros k < 64"
proof -
  have "k mod 64 < 64" by simp
  then show "k mod 64 \<noteq> 56 \<Longrightarrow> zeros k = Suc (zeros (Suc k))" "k mod 64 = 56 \<Longrightarrow> zeros k = 0" "zeros k < 64"
    by (auto simp: zeros_def mod_Suc)
qed

lemma sha1_pad_loop_eq:
  "sha1_pad_loop ctx = Some ((SHA1_update [0] ^^ zeros (unat (s1_count ctx))) ctx)"
proof (induction "zeros (unat (s1_count ctx))" arbitrary: ctx)
  case 0
  then have "unat (s1_count ctx mod 64) = 56" using zeros_step(1)[of "unat (s1_count ctx)"] by (auto simp: unat_mod)
  then have "s1_count ctx mod 64 = 56" by (simp add: word_unat_eq_iff)
  with 0 show ?case by (simp add: sha1_pad_loop.simps[of ctx])
next
  case (Suc k)
  let ?ctx = "SHA1_update [0] ctx"
  have "unat (s1_count ctx) mod 64 \<noteq> 56" using Suc.hyps(2) zeros_step(2) by fastforce
  then have ne: "s1_count ctx mod 64 \<noteq> 56" and z: "k = zeros (Suc (unat (s1_count ctx)))"
    using Suc.hyps(2) zeros_step(1) by (auto simp: unat_mod dest: arg_cong[where f = unat])
  have "unat (s1_count ?ctx) mod 64 = Suc (unat (s1_count ctx)) mod 64"
    by (simp add: unat_word_ariths mod_mod_cancel)
  then have k: "k = zeros (unat (s1_count ?ctx))" using z by (simp add: zeros_def)
  have "sha1_pad_loop ctx = sha1_pad_loop ?ctx" using ne by (simp add: sha1_pad_loop.simps[of ctx])
  then have "sha1_pad_loop ctx = Some ((SHA1_update [0] ^^ k) ?ctx)" using Suc.hyps(1)[OF k] unfolding k[symmetric] by simp
  then show ?case unfolding Suc.hyps(2)[symmetric] by (simp add: funpow_swap1)
qed

text \<open>The result of \<open>SHA1_final\<close>: the state after the padded message.\<close>

lemma SHA1_final_eq:
  fixes ctx defines "z \<equiv> zeros (unat (s1_count ctx + 1))"
  defines "c \<equiv> fold (\<lambda>i. SHA1_update [ucast (drop_bit ((7 - i) * 8) (s1_count ctx * 8))]) [0..<8]
    ((SHA1_update [0] ^^ z) (SHA1_update [0x80] ctx))"
  shows "\<exists>c'. SHA1_final ctx = Some (memcpy_at (s1_buf c) 0 (concat (map UNPACK32 (s1_state c))), c')"
  by (simp add: SHA1_final_def sha1_pad_loop_eq Let_def c_def z_def)

text \<open>
  C25: \<open>SHA1_final\<close> returns for every context: the loop that pads with zero bytes ends after less than 64 rounds,
  wherever the counter stands, also when it wraps.
\<close>

theorem SHA1_final_terminates:
  "(\<exists>z<64. sha1_pad_loop ctx = Some ((SHA1_update [0] ^^ z) ctx)) \<and> (\<exists>r. SHA1_final ctx = Some r)"
  using sha1_pad_loop_eq[of ctx] zeros_step(3) SHA1_final_eq[of ctx] by blast

lemma sha1_holds_zeros: "sha1_holds m ctx \<Longrightarrow> sha1_holds (m @ replicate z 0) ((SHA1_update [0] ^^ z) ctx)"
proof (induction z)
  case (Suc z)
  from sha1_holds_update[OF Suc.IH[OF Suc.prems], of "[0]"] show ?case by (simp add: replicate_append_same)
qed simp

lemma be_bytes_8:
  assumes "x < 2 ^ 64"
  shows "map (\<lambda>i. ucast (drop_bit ((7 - i) * 8) (of_nat x :: 64 word))) [0..<8] = be_bytes 8 x"
proof -
  have "(ucast (drop_bit k (of_nat x :: 64 word)) :: byte) = of_nat (x div 2 ^ k)" for k
  proof -
    have "unat (drop_bit k (of_nat x :: 64 word)) = x div 2 ^ k"
      using assms by (simp add: unat_drop_bit_eq drop_bit_eq_div[where 'a = nat] unat_of_nat)
    then show ?thesis by (metis of_nat_unat)
  qed
  then show ?thesis by (simp add: be_bytes_def power_mult mult.commute)
qed

lemma zeros_pad: "zeros (Suc k) = (64 - (k + 1 + 8) mod 64) mod 64"
proof -
  have e: "(k + 1 + 8) mod 64 = (Suc k mod 64 + 8) mod 64" using mod_add_left_eq[of "Suc k" 64 8] by (simp add: add.commute[of k])
  have "Suc k mod 64 < 64" by simp
  then show ?thesis unfolding e using mod_complement[of "Suc k mod 64 + 8" 64] by (auto simp: zeros_def)
qed

lemma unat_count:
  assumes "n < 2 ^ 61"
  shows "unat (of_nat n + 1 :: 64 word) = Suc n"
proof -
  have "(of_nat n + 1 :: 64 word) = of_nat (Suc n)" by simp
  then have "unat (of_nat n + 1 :: 64 word) = Suc n mod 2 ^ 64" by (simp only: unat_of_nat) simp
  also have "\<dots> = Suc n" using assms by (intro mod_less) simp
  finally show ?thesis .
qed

lemma mod_complement_sum: "0 < b \<Longrightarrow> (x + (b - x mod b) mod b) mod b = (0 :: nat)"
proof -
  assume "0 < b"
  then have "x + (b - x mod b) = x div b * b + b" using div_mult_mod_eq[of x b] mod_less_divisor[of b x] by linarith
  then show ?thesis unfolding mod_add_right_eq by simp
qed

lemma length_fips_pad: "length (fips_pad 64 m) mod 64 = 0"
  using mod_complement_sum[of 64 "length m + 9"] by (simp add: fips_pad_def be_bytes_def algebra_simps)

lemma SHA1_streaming_correct_lemma:
  assumes "length (concat ds) < 2 ^ 61"
  shows "map_option (\<lambda>r. take 20 (fst r)) (SHA1_final (fold SHA1_update ds (SHA1_init (uninit mem 64)))) = Some (fips_sha1 (concat ds))
    \<and> SHA1 mem (concat ds) = Some (fips_sha1 (concat ds))"
proof -
  have "map_option (\<lambda>r. take 20 (fst r)) (SHA1_final (fold SHA1_update ds (SHA1_init (uninit mem 64)))) = Some (fips_sha1 (concat ds))"
    if "length (concat ds) < 2 ^ 61" for ds
  proof -
    let ?m = "concat ds" and ?ctx = "fold SHA1_update ds (SHA1_init (uninit mem 64))"
    have h: "sha1_holds ?m ?ctx"
      using sha1_holds_updates[of "[]" "SHA1_init (uninit mem 64)" ds]
      by (simp add: sha1_holds_def sha1_fed_def SHA1_init_def uninit_def blocks_def sha1_h0_def)
    have cnt: "s1_count ?ctx = of_nat (length ?m)" using h by (simp add: sha1_holds_def)
    have cu: "unat (s1_count ?ctx + 1) = Suc (length ?m)"
      unfolding cnt using that by (rule unat_count)
    have z: "zeros (unat (s1_count ?ctx + 1)) = (64 - (length ?m + 1 + 8) mod 64) mod 64" unfolding cu by (rule zeros_pad)
    let ?z = "zeros (unat (s1_count ?ctx + 1))"
    let ?bs = "map (\<lambda>i. ucast (drop_bit ((7 - i) * 8) (s1_count ?ctx * 8)) :: byte) [0..<8]"
    let ?c = "fold (\<lambda>i. SHA1_update [ucast (drop_bit ((7 - i) * 8) (s1_count ?ctx * 8))]) [0..<8]
      ((SHA1_update [0] ^^ ?z) (SHA1_update [0x80] ?ctx))"
    have "s1_count ?ctx * 8 = of_nat (8 * length ?m)" by (simp add: cnt mult.commute)
    then have b: "?bs = be_bytes 8 (8 * length ?m)" using be_bytes_8[of "8 * length ?m"] that by simp
    have "sha1_holds (((?m @ [0x80]) @ replicate ?z 0) @ concat (map (\<lambda>b. [b]) ?bs)) ?c"
      using sha1_holds_updates[OF sha1_holds_zeros[OF sha1_holds_update[OF h, of "[0x80]"], of ?z], of "map (\<lambda>b. [b]) ?bs"]
      by (simp add: fold_map comp_def)
    moreover have "concat (map (\<lambda>b. [b]) xs) = xs" for xs :: "byte list" by (induction xs) simp_all
    ultimately have "sha1_holds (fips_pad 64 ?m) ?c" unfolding b fips_pad_def using z by simp
    with length_fips_pad[of ?m] have st: "s1_state ?c = fold (\<lambda>b H. fips1_compress H b) (blocks 64 (fips_pad 64 ?m)) sha1_h0"
      and lb: "length (s1_buf ?c) = 64" by (simp_all add: sha1_holds_def sha1_fed_def)
    have "length (s1_state ?c) = 5" unfolding st by (rule length_fold_compress) (simp add: sha1_h0_def)
    then have "length (concat (map UNPACK32 (s1_state ?c))) = 20"
      by (auto simp: length_Suc_conv eval_nat_numeral UNPACK32_def)
    then show ?thesis using SHA1_final_eq[of ?ctx] st lb by (auto simp: fips_sha1_def sha1_h0_def memcpy_at_def)
  qed
  from this[of ds] this[of "[concat ds]"] show ?thesis using assms
    by (auto simp: SHA1_def split: option.splits)
qed

text \<open>
  C23: SHA-1, in whatever pieces of together less than \<open>2 ^ 61\<close> bytes the message arrives, gives the digest of
  FIPS 180-2 of the whole message in the first 20 bytes.
\<close>

theorem SHA1_streaming_correct:
  assumes "length (concat ds) < 2 ^ 61"
  shows "map_option (\<lambda>r. take 20 (fst r)) (SHA1_final (fold SHA1_update ds (SHA1_init (uninit mem 64)))) = Some (fips_sha1 (concat ds))
    \<and> SHA1 mem (concat ds) = Some (fips_sha1 (concat ds))"
  by (rule SHA1_streaming_correct_lemma[OF assms])

theorem SHA1_streaming_correct_witness:
  "SHA1 (\<lambda>_. 9) [1, 2, 3] = Some (fips_sha1 [1, 2, 3])"
  using SHA1_streaming_correct[of "[[1, 2], [3]]" "\<lambda>_. 9"] by simp

section \<open>Digests by algorithm\<close>

text \<open>The digest that goes with a signature algorithm.\<close>

definition fips_digest :: "nat \<Rightarrow> byte list \<Rightarrow> byte list" where
  "fips_digest alg m = (if alg mod 3 = 0 then fips_sha1 m else if alg mod 3 = 1 then fips_sha2 sha256 m else fips_sha2 sha512 m)"

lemma less_12_cases: "a < 12 \<Longrightarrow> a \<in> {0, 1, 2, 3, 4, 5, 6, 7, 8, 9, 10, 11 :: nat}"
  by simp presburger

lemma DigestBuf_fips:
  assumes "alg < 12" "length m < 2 ^ 29"
  shows "DigestBuf mem m alg = Some (fips_digest alg m)"
proof -
  have "SHA1 mem m = Some (fips_sha1 m)" "SHA256 mem m = fips_sha2 sha256 m" "SHA512 mem m = fips_sha2 sha512 m"
    using assms(2) SHA1_streaming_correct_lemma[of "[m]" mem] SHA2_streaming_lemma[of "[m]" mem] by simp_all
  then show ?thesis using less_12_cases[OF assms(1)] by (auto simp: DigestBuf_def fips_digest_def)
qed

lemma DigestUpdate_fold:
  "fold DigestUpdate ds (CTX1 c1) = CTX1 (fold SHA1_update ds c1)"
  "fold DigestUpdate ds (CTX256 c2) = CTX256 (fold SHA256_update ds c2)"
  "fold DigestUpdate ds (CTX512 c5) = CTX512 (fold SHA512_update ds c5)"
  by (induction ds arbitrary: c1 c2 c5) simp_all

lemma Digest_pieces:
  assumes "alg < 12" "length (concat ds) < 2 ^ 29"
  shows "\<exists>ctx. DigestInit mem alg = Some ctx \<and> DigestFinal (fold DigestUpdate ds ctx) = Some (fips_digest alg (concat ds))"
proof -
  have "alg mod 3 = 0 \<or> alg mod 3 = 1 \<or> alg mod 3 = 2" by auto
  moreover have "digest_type_map ! alg = alg mod 3" using less_12_cases[OF assms(1)] by (auto simp: digest_type_map_def)
  ultimately show ?thesis
    using assms SHA1_streaming_correct_lemma[of ds mem] SHA2_streaming_lemma[of ds mem]
    by (auto simp: DigestInit_def digest_type_map_def DigestUpdate_fold fips_digest_def)
qed

text \<open>Reading a file that gives full buffers until its end.\<close>

definition read_64 :: "byte list \<Rightarrow> byte list option \<times> byte list" where
  "read_64 xs = (Some (take 64 xs), drop 64 xs)"

lemma digest_file_loop_eq:
  "\<exists>ds. concat ds = xs \<and> digest_file_loop read_64 ctx xs = Some (fold DigestUpdate ds ctx, [])"
proof (induction "length xs" arbitrary: xs ctx rule: less_induct)
  case less
  show ?case
  proof (cases "length (take 64 xs) = 64")
    case True
    then have "length (drop 64 xs) < length xs" by (simp add: min_def split: if_splits)
    then obtain ds where "concat ds = drop 64 xs"
      "digest_file_loop read_64 (DigestUpdate (take 64 xs) ctx) (drop 64 xs) = Some (fold DigestUpdate ds (DigestUpdate (take 64 xs) ctx), [])"
      using less[of "drop 64 xs" "DigestUpdate (take 64 xs) ctx"] by auto
    with True show ?thesis
      by (intro exI[of _ "take 64 xs # ds"]) (simp add: digest_file_loop.simps[of read_64 ctx] read_64_def)
  next
    case False
    then have "length xs < 64" by auto
    then show ?thesis
      by (intro exI[of _ "[xs]"]) (simp add: digest_file_loop.simps[of read_64 ctx] read_64_def min_def)
  qed
qed

text \<open>
  C26: the three ways to compute a digest agree. For each of the twelve algorithms and less than \<open>2 ^ 29\<close> bytes,
  \<open>DigestBuf\<close> on a buffer, \<open>DigestInit\<close>, \<open>DigestUpdate\<close> and \<open>DigestFinal\<close> on its pieces, and \<open>DigestFile\<close> on a file
  with these bytes return the digest of FIPS 180-2 of the kind that goes with the algorithm.
\<close>

theorem digests_agree:
  assumes "alg < 12" "length (concat ds) < 2 ^ 29"
  shows "DigestBuf mem (concat ds) alg = Some (fips_digest alg (concat ds)) \<and>
    Option.bind (DigestInit mem alg) (\<lambda>ctx. DigestFinal (fold DigestUpdate ds ctx)) = Some (fips_digest alg (concat ds)) \<and>
    DigestFile mem read_64 (Some (concat ds)) alg = Some (Some (fips_digest alg (concat ds)))"
proof -
  obtain ctx where c: "DigestInit mem alg = Some ctx" "DigestFinal (fold DigestUpdate ds ctx) = Some (fips_digest alg (concat ds))"
    using Digest_pieces[OF assms] by blast
  obtain ds' where d: "concat ds' = concat ds" "digest_file_loop read_64 ctx (concat ds) = Some (fold DigestUpdate ds' ctx, [])"
    using digest_file_loop_eq[of "concat ds" ctx] by blast
  have "DigestFinal (fold DigestUpdate ds' ctx) = Some (fips_digest alg (concat ds))"
    using Digest_pieces[of alg ds' mem] assms c(1) d(1) by auto
  then show ?thesis using DigestBuf_fips[OF assms] c d(2) by (simp add: DigestFile_def)
qed

theorem digests_agree_witness:
  "DigestFile (\<lambda>_. 0) read_64 (Some [1, 2, 3]) 4 = Some (Some (fips_sha2 sha256 [1, 2, 3]))"
  using digests_agree[of 4 "[[1, 2, 3]]" "\<lambda>_. 0"] by (simp add: fips_digest_def)

end
