(* ===== verification/VB_Rsa_Props.thy ===== *)
theory VB_Rsa_Props
  imports VB_Rsa VB_Sha_Props
begin

text \<open>
  The arithmetic of \<open>rsa.c\<close>: the Montgomery multiplication on arrays of words multiplies modulo the key's modulus, so
  that \<open>modpowF4\<close> is the public RSA operation with exponent 65537, and \<open>RSA_verify\<close> accepts exactly the
  signatures of PKCS1.
\<close>

section \<open>Arrays as numbers\<close>

definition W :: int where "W = 2 ^ 32"

lemma W_pos [simp]: "0 < W" "0 \<le> W" "W \<noteq> 0" "1 \<le> W"
  by (simp_all add: W_def)

lemma uint_W [simp]: "uint (x :: 32 word) < W"
  using uint_lt2p[of x] by (simp add: W_def)

fun num_of :: "32 word list \<Rightarrow> int" where
  "num_of [] = 0"
| "num_of (x # xs) = uint x + W * num_of xs"

lemma num_of_range: "0 \<le> num_of xs" "num_of xs < W ^ length xs"
proof (induction xs)
  case (Cons x xs)
  { case 1 show ?case using Cons by simp }
  { case 2
    have "num_of xs + 1 \<le> W ^ length xs" using Cons by simp
    then have "W * (num_of xs + 1) \<le> W * W ^ length xs" by (intro mult_left_mono) simp_all
    moreover have "uint x + W * num_of xs < W * (num_of xs + 1)" by (simp add: algebra_simps)
    ultimately have "uint x + W * num_of xs < W * W ^ length xs" by (rule order_less_le_trans[rotated])
    then show ?case by simp }
qed simp_all

lemma num_of_append: "num_of (xs @ ys) = num_of xs + W ^ length xs * num_of ys"
  by (induction xs) (simp_all add: algebra_simps)

lemma num_of_zeros [simp]: "num_of (replicate k 0) = 0"
  by (induction k) simp_all

lemma num_of_inject: "length xs = length ys \<Longrightarrow> num_of xs = num_of ys \<longleftrightarrow> xs = ys"
proof (induction xs ys rule: list_induct2)
  case (Cons x xs y ys)
  show ?case
  proof
    assume "num_of (x # xs) = num_of (y # ys)"
    then have e: "uint x + W * num_of xs = uint y + W * num_of ys" by simp
    then have "(uint x + W * num_of xs) mod W = (uint y + W * num_of ys) mod W" by simp
    then have "uint x = uint y" by simp
    with e Cons show "x # xs = y # ys" by (simp add: word_uint_eq_iff)
  qed simp
qed simp

section \<open>Subtraction and comparison\<close>

text \<open>The borrow is 0 or -1; the words are the difference modulo the size of the array.\<close>

lemma borrow_step:
  fixes A :: "64 word" and x n :: "32 word"
  assumes "sint A = 0 \<or> sint A = -1"
  defines "s \<equiv> sint A + uint x - uint n"
  shows "sint (A + (ucast x - ucast n)) = s" "uint (ucast (A + (ucast x - ucast n)) :: 32 word) = s mod W"
    "sint (signed_drop_bit 32 (A + (ucast x - ucast n))) = s div W" "s div W = 0 \<or> s div W = -1"
proof -
  have b: "0 \<le> uint x" "uint x < W" "0 \<le> uint n" "uint n < W" by simp_all
  have r: "- W \<le> s" "s < W" unfolding s_def using assms(1) b by linarith+
  then have s: "- (2 ^ 63) \<le> s" "s < 2 ^ 63" by (simp_all add: W_def)
  have "of_int s = A + (ucast x - ucast n)" by (simp add: s_def)
  then have e: "A + (ucast x - ucast n) = of_int s" by simp
  show sg: "sint (A + (ucast x - ucast n)) = s" unfolding e using s
    by (simp add: signed_of_int signed_take_bit_int_eq_self)
  show "uint (ucast (A + (ucast x - ucast n)) :: 32 word) = s mod W" unfolding e
    by (simp add: unsigned_ucast_eq unsigned_of_int take_bit_eq_mod W_def mod_mod_cancel)
  show "sint (signed_drop_bit 32 (A + (ucast x - ucast n))) = s div W"
    using sg by (simp add: sint_signed_drop_bit_eq drop_bit_eq_div W_def)
  show "s div W = 0 \<or> s div W = -1"
  proof (cases "0 \<le> s")
    case False
    then have "s div W = -1" using r by (intro int_div_pos_eq[of _ _ _ "s + W"]) simp_all
    then show ?thesis ..
  qed (use r in simp)
qed

lemma subM_loop_eq:
  assumes "length xs = length ns" "sint A = 0 \<or> sint A = -1"
  shows "length (subM_loop A xs ns) = length xs"
    "num_of (subM_loop A xs ns) = (sint A + num_of xs - num_of ns) mod W ^ length xs"
proof -
  have "length (subM_loop A xs ns) = length xs \<and> num_of (subM_loop A xs ns) = (sint A + num_of xs - num_of ns) mod W ^ length xs"
    using assms
  proof (induction xs ns arbitrary: A rule: list_induct2)
    case (Cons x xs n ns)
    define s where "s = sint A + uint x - uint n"
    note b = borrow_step[OF Cons.prems, of x n, folded s_def]
    have "sint A + num_of (x # xs) - num_of (n # ns) = s + W * (num_of xs - num_of ns)"
      by (simp add: s_def algebra_simps)
    also have "\<dots> = s mod W + W * (s div W + num_of xs - num_of ns)" by (simp add: algebra_simps)
    finally have e: "sint A + num_of (x # xs) - num_of (n # ns) = s mod W + W * (s div W + num_of xs - num_of ns)" .
    have "(s mod W + W * t) mod (W * W ^ k) = s mod W + W * (t mod W ^ k)" for t k
      by (subst zmod_zmult2_eq) simp_all
    then show ?case using Cons.IH[of "signed_drop_bit 32 (A + (ucast x - ucast n))"] b(2-4)
      unfolding e by (simp add: Let_def)
  qed simp
  then show "length (subM_loop A xs ns) = length xs"
    "num_of (subM_loop A xs ns) = (sint A + num_of xs - num_of ns) mod W ^ length xs" by simp_all
qed

lemma subM_eq:
  assumes "length a = length (rk_n key)"
  shows "length (subM key a) = length a" "num_of (subM key a) = (num_of a - num_of (rk_n key)) mod W ^ length a"
  using subM_loop_eq[OF assms, of 0] by (simp_all add: subM_def)

lemma geM_loop_eq:
  assumes "length xs = length ns"
  shows "geM_loop xs ns = (num_of (rev xs) \<ge> num_of (rev ns))"
  using assms
proof (induction xs ns rule: list_induct2)
  case (Cons x xs n ns)
  let ?k = "W ^ length xs"
  have b: "0 \<le> num_of (rev xs)" "num_of (rev xs) < ?k" "0 \<le> num_of (rev ns)" "num_of (rev ns) < ?k"
    using num_of_range[of "rev xs"] num_of_range[of "rev ns"] Cons.hyps by simp_all
  have v: "num_of (rev (x # xs)) = num_of (rev xs) + ?k * uint x" "num_of (rev (n # ns)) = num_of (rev ns) + ?k * uint n"
    using Cons.hyps by (simp_all add: num_of_append)
  have lt: "num_of (rev (x # xs)) < num_of (rev (n # ns))" if "uint x < uint n"
    unfolding v using b mult_left_mono[of "uint x + 1" "uint n" ?k] that by (simp add: algebra_simps)
  have gt: "num_of (rev (x # xs)) > num_of (rev (n # ns))" if "uint x > uint n"
    unfolding v using b mult_left_mono[of "uint n + 1" "uint x" ?k] that by (simp add: algebra_simps)
  show ?case
  proof (cases x n rule: linorder_cases)
    case equal
    then show ?thesis using Cons.IH v by simp
  qed (use lt gt in \<open>auto simp: word_less_def\<close>)
qed simp

lemma geM_eq: "length a = length (rk_n key) \<Longrightarrow> geM key a = (num_of a \<ge> num_of (rk_n key))"
  by (simp add: geM_def geM_loop_eq)

section \<open>Montgomery multiplication\<close>

lemma uint_ucast_64 [simp]: "uint (ucast (x :: 32 word) :: 64 word) = uint x"
  using uint_lt2p[of x] by (simp add: unsigned_ucast_eq take_bit_int_eq_self)

lemma uint_high: "uint (drop_bit 32 (h :: 64 word)) = uint h div W"
  using uint_lt2p[of h] by (simp add: unsigned_drop_bit_eq drop_bit_eq_div[where 'a = int] take_bit_int_eq_self W_def)

lemma uint_low: "uint (ucast (w :: 64 word) :: 32 word) = uint w mod W"
  by (simp add: unsigned_ucast_eq take_bit_eq_mod W_def)

lemma uint_64_mac:
  fixes h :: "64 word" and a b c :: "32 word"
  shows "uint (drop_bit 32 h + ucast a * ucast b + ucast c) = uint h div W + uint a * uint b + uint c"
proof -
  have "uint a * uint b \<le> (W - 1) * (W - 1)" by (intro mult_mono) (simp_all flip: int_one_le_iff_zero_less)
  moreover have "uint h div W \<le> W - 1" using uint_lt2p[of h] by (simp add: W_def)
  moreover have "uint c \<le> W - 1" using uint_W[of c] by linarith
  ultimately have "uint h div W + uint a * uint b + uint c < 2 ^ 64" by (simp add: W_def)
  moreover have "0 \<le> uint h div W" by (simp add: pos_imp_zdiv_nonneg_iff)
  ultimately show ?thesis by (simp add: uint_word_ariths uint_high mod_add_left_eq mod_add_right_eq)
qed

text \<open>
  What the loop computes: the words stored and the two carries together are the sum of the carries before, \<open>a\<close> times
  \<open>b\<close>, \<open>c\<close> and \<open>d0\<close> times the modulus.
\<close>

lemma montMulAdd_loop_eq:
  assumes "length bs = length cs" "length cs = length ns" "montMulAdd_loop a d0 A B bs cs ns = (r, A', B')"
  shows "length r = length bs \<and> num_of r + W ^ length bs * (uint A' div W + uint B' div W) =
    uint A div W + uint B div W + uint a * num_of bs + num_of cs + uint d0 * num_of ns"
  using assms
proof (induction bs cs ns arbitrary: A B r rule: list_induct3)
  case (Cons b bs c cs n ns)
  define A1 where "A1 = drop_bit 32 A + ucast a * ucast b + ucast c"
  define B1 where "B1 = drop_bit 32 B + ucast d0 * ucast n + ucast (ucast A1 :: 32 word)"
  obtain r1 where r1: "montMulAdd_loop a d0 A1 B1 bs cs ns = (r1, A', B')" "r = ucast B1 # r1"
    using Cons.prems by (auto simp: Let_def A1_def B1_def split: prod.splits)
  have v: "uint A1 = uint A div W + uint a * uint b + uint c" "uint B1 = uint B div W + uint d0 * uint n + uint A1 mod W"
    unfolding A1_def B1_def uint_64_mac uint_low by simp_all
  note IH = Cons.IH[OF r1(1)]
  have "num_of r + W ^ length (b # bs) * (uint A' div W + uint B' div W) =
      uint B1 mod W + W * (num_of r1 + W ^ length bs * (uint A' div W + uint B' div W))"
    by (simp add: r1(2) uint_low algebra_simps)
  also have "\<dots> = (uint B1 mod W + W * (uint B1 div W)) + W * (uint A1 div W) + W * (uint a * num_of bs + num_of cs + uint d0 * num_of ns)"
    using IH by (simp add: algebra_simps)
  also have "\<dots> = uint B div W + uint d0 * uint n + (uint A1 mod W + W * (uint A1 div W)) + W * (uint a * num_of bs + num_of cs + uint d0 * num_of ns)"
    by (simp add: v(2))
  also have "\<dots> = uint A div W + uint B div W + uint a * num_of (b # bs) + num_of (c # cs) + uint d0 * num_of (n # ns)"
    by (simp add: v(1) algebra_simps)
  finally show ?case using IH r1(2) by simp
qed simp

text \<open>
  A usable key: the arrays have \<open>len\<close> words, \<open>n0inv\<close> and \<open>rr\<close> are as the comments of \<open>rsa.h\<close> say and the
  modulus has the full length.
\<close>

definition R_of :: "RSAPublicKey \<Rightarrow> int" where
  "R_of key = W ^ length (rk_n key)"

definition key_ok :: "RSAPublicKey \<Rightarrow> bool" where
  "key_ok key \<longleftrightarrow> 0 < rk_len key \<and> length (rk_n key) = nat (rk_len key) \<and> length (rk_rr key) = nat (rk_len key)
     \<and> rk_n0inv key * hd (rk_n key) = -1
     \<and> num_of (rk_rr key) mod num_of (rk_n key) = (R_of key)\<^sup>2 mod num_of (rk_n key)
     \<and> R_of key \<le> 2 * num_of (rk_n key)"

lemma n0inv_cancels:
  fixes n0 ninv :: "32 word" and A :: "64 word"
  assumes "ninv * n0 = -1"
  defines "d0 \<equiv> (ucast A :: 32 word) * ninv"
  defines "B \<equiv> ucast d0 * ucast n0 + ucast (ucast A :: 32 word) :: 64 word"
  shows "uint B = uint d0 * uint n0 + uint A mod W" "uint B mod W = 0"
proof -
  show b: "uint B = uint d0 * uint n0 + uint A mod W"
    using uint_64_mac[of 0 d0 n0 "ucast A"] by (simp add: B_def uint_low)
  have "d0 * n0 + ucast A = ucast A * (ninv * n0) + (ucast A :: 32 word)" by (simp add: d0_def algebra_simps)
  then have "d0 * n0 + (ucast A :: 32 word) = 0" by (simp add: assms(1))
  then have "uint (d0 * n0 + (ucast A :: 32 word)) = 0" by simp
  moreover have "uint (d0 * n0 + (ucast A :: 32 word)) = (uint d0 * uint n0 + uint A mod W) mod W"
    by (simp add: uint_word_ariths uint_low mod_add_left_eq W_def)
  ultimately show "uint B mod W = 0" using b by simp
qed

lemma montMulAdd_eq:
  assumes "key_ok key" "length c = length (rk_n key)" "length b = length (rk_n key)"
  shows "length (montMulAdd key c a b) = length (rk_n key)"
    "\<exists>k. W * num_of (montMulAdd key c a b) = uint a * num_of b + num_of c + k * num_of (rk_n key)"
proof -
  let ?n = "rk_n key" and ?N = "num_of (rk_n key)" and ?R = "R_of key"
  define l where "l = length ?n"
  have l: "0 < l" using assms(1) by (auto simp: key_ok_def l_def)
  obtain n0 ns where n: "?n = n0 # ns" using l by (cases ?n) (simp_all add: l_def)
  obtain b0 bs where b: "b = b0 # bs" using l assms(3) by (cases b) (simp_all add: l_def)
  obtain c0 cs where c: "c = c0 # cs" using l assms(2) by (cases c) (simp_all add: l_def)
  define A where "A = ucast a * ucast b0 + (ucast c0 :: 64 word)"
  define d0 where "d0 = (ucast A :: 32 word) * rk_n0inv key"
  define B where "B = ucast d0 * ucast n0 + (ucast (ucast A :: 32 word) :: 64 word)"
  have "rk_n0inv key * n0 = -1" using assms(1) by (simp add: key_ok_def n)
  from n0inv_cancels[OF this, of A] have B: "uint B = uint d0 * uint n0 + uint A mod W" "uint B mod W = 0"
    by (simp_all only: d0_def B_def)
  have A: "uint A = uint a * uint b0 + uint c0" using uint_64_mac[of 0 a b0 c0] by (simp add: A_def)
  obtain r A' B' where loop: "montMulAdd_loop a d0 A B bs cs ns = (r, A', B')" by (metis prod_cases3)
  have len: "length bs = length cs" "length cs = length ns" "l = Suc (length bs)" using assms(2,3) n b c by (simp_all add: l_def)
  note L = montMulAdd_loop_eq[OF len(1,2) loop]
  define C where "C = drop_bit 32 A' + drop_bit 32 B'"
  have C: "uint C = uint A' div W + uint B' div W"
  proof -
    have "uint A' div W < W" "uint B' div W < W" using uint_lt2p[of A'] uint_lt2p[of B'] by (simp_all add: W_def)
    then have "uint A' div W + uint B' div W < 2 ^ 64" by (simp add: W_def)
    moreover have "0 \<le> uint A' div W" "0 \<le> uint B' div W" by (simp_all add: pos_imp_zdiv_nonneg_iff)
    ultimately show ?thesis by (simp add: C_def uint_word_ariths uint_high)
  qed
  define T where "T = num_of r + W ^ (l - 1) * uint C"
  have "W * (uint B div W) = uint B" using mult_div_mod_eq[of W "uint B"] B(2) by simp
  moreover have "W * (uint A div W) + uint A mod W = uint A" by simp
  ultimately have T: "W * T = uint a * num_of b + num_of c + uint d0 * ?N"
    using L A B(1) len(3) unfolding T_def C by (simp add: b c n algebra_simps)
  define c1 where "c1 = r @ [ucast C]"
  have c1: "length c1 = l" "num_of c1 = T - ?R * (uint C div W)"
  proof -
    have R: "?R = W ^ (l - 1) * W" using l by (simp add: R_of_def l_def flip: power_Suc2)
    have "W ^ (l - 1) * (uint C mod W) = W ^ (l - 1) * (uint C - W * (uint C div W))" by (simp add: minus_mult_div_eq_mod)
    also have "\<dots> = W ^ (l - 1) * uint C - ?R * (uint C div W)" unfolding R by (simp add: algebra_simps)
    finally have "W ^ (l - 1) * (uint C mod W) = W ^ (l - 1) * uint C - ?R * (uint C div W)" .
    then show "num_of c1 = T - ?R * (uint C div W)" using L len(3) by (simp add: c1_def num_of_append uint_low T_def)
  qed (use L len(3) in \<open>simp add: c1_def\<close>)
  have res: "montMulAdd key c a b = (if drop_bit 32 C \<noteq> 0 then subM key c1 else c1)"
    unfolding montMulAdd_def b c n list.sel A_def[symmetric] d0_def[symmetric] B_def[symmetric] Let_def loop
    by (simp add: C_def c1_def A_def[symmetric] d0_def[symmetric] B_def[symmetric] loop)
  have bnd: "T < ?R + ?N" "0 \<le> T" "?N < ?R" "0 \<le> ?N"
  proof -
    have "num_of b \<le> ?R - 1" "num_of c \<le> ?R - 1" "0 \<le> num_of b" "0 \<le> num_of c"
      using num_of_range[of b] num_of_range[of c] assms(2,3) by (simp_all add: R_of_def)
    moreover show N: "?N < ?R" "0 \<le> ?N" using num_of_range[of ?n] by (simp_all add: R_of_def)
    moreover have "uint a \<le> W - 1" "uint d0 \<le> W - 1" using uint_W[of a] uint_W[of d0] by linarith+
    ultimately have "uint a * num_of b \<le> (W - 1) * (?R - 1)" "uint d0 * ?N \<le> (W - 1) * ?N"
      by (auto intro!: mult_mono mult_right_mono)
    then have "W * T \<le> W * (?R - 1) + W * ?N - ?N" unfolding T using \<open>num_of c \<le> ?R - 1\<close> by (simp add: algebra_simps)
    also have "\<dots> < W * (?R + ?N)" using N by (simp add: algebra_simps W_def)
    finally show "T < ?R + ?N" by simp
    show "0 \<le> T" using num_of_range(1)[of r] by (simp add: T_def)
  qed
  have z: "uint C div W = 0 \<longleftrightarrow> drop_bit 32 C = 0" unfolding uint_high[symmetric] by (rule uint_0_iff)
  have "0 \<le> uint C div W" by (simp add: pos_imp_zdiv_nonneg_iff)
  then consider "drop_bit 32 C = 0" "uint C div W = 0" | "drop_bit 32 C \<noteq> 0" "1 \<le> uint C div W" using z by linarith
  then have "length (montMulAdd key c a b) = l \<and> (\<exists>k. W * num_of (montMulAdd key c a b) = uint a * num_of b + num_of c + k * ?N)"
  proof cases
    case 1
    then show ?thesis using res c1 T by (auto intro!: exI[of _ "uint d0"])
  next
    case 2
    have "0 \<le> num_of c1" by (rule num_of_range)
    then have "?R * (uint C div W) \<le> T" using c1(2) by simp
    moreover have "?R * 1 \<le> ?R * (uint C div W)" using 2(2) by (intro mult_left_mono) (simp_all add: R_of_def)
    ultimately have TR: "?R \<le> T" by simp
    have "num_of (subM key c1) = (T - ?R * (uint C div W) - ?N) mod ?R"
      using subM_eq(2)[of c1 key] c1 by (simp add: R_of_def l_def)
    also have "\<dots> = (T - ?N) mod ?R" by (metis diff_right_commute mod_diff_right_eq mod_mult_self1_is_0 diff_zero)
    also have "\<dots> = T - ?N" using bnd TR by (intro mod_pos_pos_trivial) simp_all
    finally have "W * num_of (subM key c1) = W * T - W * ?N" by (simp add: right_diff_distrib)
    then have "W * num_of (subM key c1) = uint a * num_of b + num_of c + (uint d0 - W) * ?N" using T by (simp add: algebra_simps)
    then show ?thesis using 2 res subM_eq(1)[of c1 key] c1(1) by (auto simp: l_def)
  qed
  then show "length (montMulAdd key c a b) = length ?n"
    "\<exists>k. W * num_of (montMulAdd key c a b) = uint a * num_of b + num_of c + k * ?N" by (simp_all add: l_def)
qed

text \<open>After the words \<open>a\<close>, the array \<open>c\<close> times \<open>R\<close> is \<open>a\<close> times \<open>b\<close>, modulo the key's modulus.\<close>

lemma montMul_loop:
  assumes "key_ok key" "length b = length (rk_n key)" "length c = length (rk_n key)"
  shows "length (fold (\<lambda>ai c. montMulAdd key c ai b) a c) = length (rk_n key) \<and>
    (\<exists>k. W ^ length a * num_of (fold (\<lambda>ai c. montMulAdd key c ai b) a c) = num_of a * num_of b + num_of c + k * num_of (rk_n key))"
  using assms(3)
proof (induction a arbitrary: c)
  case Nil
  then show ?case by (auto intro!: exI[of _ 0])
next
  case (Cons x xs)
  let ?c = "montMulAdd key c x b"
  note m = montMulAdd_eq[OF assms(1) Cons.prems assms(2), of x]
  obtain k1 where k1: "W * num_of ?c = uint x * num_of b + num_of c + k1 * num_of (rk_n key)" using m(2) by blast
  obtain k2 where k2: "W ^ length xs * num_of (fold (\<lambda>ai c. montMulAdd key c ai b) xs ?c) =
      num_of xs * num_of b + num_of ?c + k2 * num_of (rk_n key)" using Cons.IH[OF m(1)] by blast
  have "W ^ length (x # xs) * num_of (fold (\<lambda>ai c. montMulAdd key c ai b) (x # xs) c) =
      W * (num_of xs * num_of b) + W * num_of ?c + W * k2 * num_of (rk_n key)"
    using arg_cong[OF k2, of "\<lambda>v. W * v"] by (simp add: algebra_simps)
  also have "\<dots> = num_of (x # xs) * num_of b + num_of c + (W * k2 + k1) * num_of (rk_n key)"
    unfolding k1 by (simp add: algebra_simps)
  finally show ?case using Cons.IH[OF m(1)] by auto
qed

lemma montMul_eq:
  assumes "key_ok key" "length a = length (rk_n key)" "length b = length (rk_n key)"
  shows "length (montMul key a b) = length (rk_n key)"
    "(R_of key * num_of (montMul key a b)) mod num_of (rk_n key) = (num_of a * num_of b) mod num_of (rk_n key)"
proof -
  have "length (replicate (nat (rk_len key)) (0 :: 32 word)) = length (rk_n key)" using assms(1) by (simp add: key_ok_def)
  from montMul_loop[OF assms(1,3) this, of a] assms(2)
  show "length (montMul key a b) = length (rk_n key)"
    "(R_of key * num_of (montMul key a b)) mod num_of (rk_n key) = (num_of a * num_of b) mod num_of (rk_n key)"
    by (auto simp: montMul_def R_of_def)
qed

section \<open>The public operation\<close>

lemma key_odd: "key_ok key \<Longrightarrow> odd (num_of (rk_n key))"
proof -
  assume k: "key_ok key"
  then obtain n0 ns where n: "rk_n key = n0 # ns" by (cases "rk_n key") (auto simp: key_ok_def)
  have "rk_n0inv key * n0 = -1" using k by (simp add: key_ok_def n)
  then have "odd (rk_n0inv key * n0)" by simp
  then have "bit n0 0" by (simp add: bit_0 even_mult_iff)
  then have "bit (uint n0) 0" by (simp add: bit_unsigned_iff del: bit_0)
  then have "odd (uint n0)" by (simp add: bit_0)
  then show ?thesis by (simp add: n W_def)
qed

lemma cancel_R:
  assumes "key_ok key" "(R_of key * x) mod num_of (rk_n key) = (R_of key * y) mod num_of (rk_n key)"
  shows "x mod num_of (rk_n key) = y mod num_of (rk_n key)"
proof -
  have "coprime (num_of (rk_n key)) 2" using key_odd[OF assms(1)] by (simp add: coprime_right_2_iff_odd)
  moreover have "R_of key = 2 ^ (32 * length (rk_n key))" unfolding R_of_def W_def by (simp only: power_mult)
  ultimately have "coprime (num_of (rk_n key)) (R_of key)" by simp
  moreover have "num_of (rk_n key) dvd R_of key * (x - y)"
    using assms(2) by (simp add: mod_eq_dvd_iff right_diff_distrib)
  ultimately show ?thesis by (simp add: coprime_dvd_mult_right_iff mod_eq_dvd_iff)
qed

text \<open>Montgomery form: a number times \<open>R\<close>.\<close>

lemma montMul_form:
  assumes "key_ok key" "length a = length (rk_n key)" "length b = length (rk_n key)"
    "num_of a mod num_of (rk_n key) = (R_of key * x) mod num_of (rk_n key)"
  shows "num_of (montMul key a b) mod num_of (rk_n key) = (x * num_of b) mod num_of (rk_n key)"
proof -
  have "(R_of key * num_of (montMul key a b)) mod num_of (rk_n key) = (num_of a * num_of b) mod num_of (rk_n key)"
    by (rule montMul_eq(2)[OF assms(1-3)])
  also have "\<dots> = (R_of key * (x * num_of b)) mod num_of (rk_n key)"
    using assms(4) by (metis mod_mult_left_eq mult.assoc)
  finally show ?thesis by (rule cancel_R[OF assms(1)])
qed

lemma montSquare:
  assumes "key_ok key" "length a = length (rk_n key)" "num_of a mod num_of (rk_n key) = (R_of key * x) mod num_of (rk_n key)"
  shows "length (montMul key a a) = length (rk_n key)"
    "num_of (montMul key a a) mod num_of (rk_n key) = (R_of key * x\<^sup>2) mod num_of (rk_n key)"
proof -
  have "num_of (montMul key a a) mod num_of (rk_n key) = (x * num_of a) mod num_of (rk_n key)"
    by (rule montMul_form[OF assms(1,2,2,3)])
  also have "\<dots> = (x * (R_of key * x)) mod num_of (rk_n key)" using assms(3) by (metis mod_mult_right_eq)
  finally show "num_of (montMul key a a) mod num_of (rk_n key) = (R_of key * x\<^sup>2) mod num_of (rk_n key)"
    by (simp add: power2_eq_square algebra_simps)
qed (rule montMul_eq(1)[OF assms(1,2,2)])

lemma montSquare2_iter:
  assumes "key_ok key" "length a = length (rk_n key)" "num_of a mod num_of (rk_n key) = (R_of key * x) mod num_of (rk_n key)"
  shows "length ((montSquare2 key ^^ k) a) = length (rk_n key) \<and>
    num_of ((montSquare2 key ^^ k) a) mod num_of (rk_n key) = (R_of key * x ^ (4 ^ k)) mod num_of (rk_n key)"
proof (induction k)
  case (Suc k)
  let ?a = "(montSquare2 key ^^ k) a"
  note s1 = montSquare[OF assms(1) Suc[THEN conjunct1] Suc[THEN conjunct2]]
  note s2 = montSquare[OF assms(1) s1]
  have "((x ^ 4 ^ k)\<^sup>2)\<^sup>2 = x ^ 4 ^ Suc k" by (simp flip: power_mult add: mult.commute)
  then show ?case using s2 by (simp add: montSquare2_def Let_def)
qed (use assms in simp)

subsection \<open>Big-endian bytes\<close>

fun be_num :: "byte list \<Rightarrow> int" where
  "be_num [] = 0"
| "be_num (b # bs) = uint b * 256 ^ length bs + be_num bs"

lemma be_num_append: "be_num (xs @ ys) = be_num xs * 256 ^ length ys + be_num ys"
  by (induction xs) (simp_all add: algebra_simps power_add)

lemma PACK32_sum:
  "PACK32 (a # b # c # d # s) = ucast d + push_bit 8 (ucast c) + push_bit 16 (ucast b) + push_bit 24 (ucast a)"
proof -
  have "ucast d + push_bit 8 (ucast c) = (ucast d OR push_bit 8 (ucast c) :: 32 word)"
    by (rule disjunctive_add) (auto simp: bit_simps dest: bit_imp_le_length)
  moreover have "(ucast d OR push_bit 8 (ucast c)) + push_bit 16 (ucast b) = (ucast d OR push_bit 8 (ucast c) OR push_bit 16 (ucast b) :: 32 word)"
    by (subst disjunctive_add) (auto simp: bit_simps or.assoc dest!: bit_imp_le_length)
  moreover have "(ucast d OR push_bit 8 (ucast c) OR push_bit 16 (ucast b)) + push_bit 24 (ucast a) =
      (ucast d OR push_bit 8 (ucast c) OR push_bit 16 (ucast b) OR push_bit 24 (ucast a) :: 32 word)"
    by (subst disjunctive_add) (auto simp: bit_simps or.assoc dest!: bit_imp_le_length)
  ultimately show ?thesis by (simp add: PACK32_def)
qed

lemma uint_PACK32: "uint (PACK32 (a # b # c # d # s)) = be_num [a, b, c, d]"
proof -
  have u: "uint (ucast x :: 32 word) = uint x" "uint x < 256" for x :: byte
    using uint_lt2p[of x] by (simp_all add: unsigned_ucast_eq take_bit_int_eq_self)
  have "PACK32 (a # b # c # d # s) = of_int (be_num [a, b, c, d])"
    unfolding PACK32_sum by (simp add: push_bit_eq_mult algebra_simps)
  moreover have "0 \<le> be_num [a, b, c, d]" "be_num [a, b, c, d] < 2 ^ 32" using u(2)[of a] u(2)[of b] u(2)[of c] u(2)[of d] by simp_all
  ultimately show ?thesis by (simp only: unsigned_of_int take_bit_int_eq_self len_of_numeral_defs) (simp add: take_bit_int_eq_self)
qed

lemma PACK32_UNPACK32: "PACK32 (UNPACK32 x) = x"
proof (rule bit_word_eqI)
  fix n assume "n < LENGTH(32)"
  then show "bit (PACK32 (UNPACK32 x)) n \<longleftrightarrow> bit x n"
    by (cases "n < 8"; cases "n < 16"; cases "n < 24") (auto simp: PACK32_def UNPACK32_def bit_simps)
qed

lemma be_num_UNPACK32: "be_num (UNPACK32 x) = uint x"
  using uint_PACK32[of "UNPACK32 x ! 0" "UNPACK32 x ! 1" "UNPACK32 x ! 2" "UNPACK32 x ! 3" "[]"] PACK32_UNPACK32[of x]
  by (simp add: UNPACK32_def)

lemma be_num_words: "be_num (concat (map UNPACK32 (rev ws))) = num_of ws"
proof (induction ws)
  case (Cons w ws)
  have "length (concat (map UNPACK32 xs)) = 4 * length xs" for xs by (induction xs) (simp_all add: UNPACK32_def)
  with Cons show ?case by (simp add: be_num_append be_num_UNPACK32) (simp add: UNPACK32_def W_def)
qed simp

lemma list_four:
  obtains a b c d s where "xs = a # b # c # d # s" | "length xs < 4"
  by (cases xs; cases "tl xs"; cases "tl (tl xs)"; cases "tl (tl (tl xs))") auto

lemma num_of_bytes:
  assumes "length bs = 4 * k"
  shows "num_of (map (\<lambda>i. PACK32 (drop ((k - 1 - i) * 4) bs)) [0..<k]) = be_num bs"
  using assms
proof (induction k arbitrary: bs)
  case (Suc k)
  obtain a b c d s where bs: "bs = a # b # c # d # s" "length s = 4 * k"
    using Suc.prems by (cases bs rule: list_four) auto
  have "(\<lambda>i. PACK32 (drop ((Suc k - 1 - i) * 4) bs)) i = PACK32 (drop ((k - 1 - i) * 4) s)" if "i < k" for i
  proof -
    have "(Suc k - 1 - i) * 4 = Suc (Suc (Suc (Suc ((k - 1 - i) * 4))))" using that by (simp add: Suc_diff_Suc)
    then show ?thesis by (simp add: bs(1))
  qed
  then have "map (\<lambda>i. PACK32 (drop ((Suc k - 1 - i) * 4) bs)) [0..<k] = map (\<lambda>i. PACK32 (drop ((k - 1 - i) * 4) s)) [0..<k]"
    by simp
  then have "num_of (map (\<lambda>i. PACK32 (drop ((Suc k - 1 - i) * 4) bs)) [0..<Suc k]) = be_num s + W ^ k * uint (PACK32 bs)"
    using Suc.IH[OF bs(2)] by (simp add: num_of_append del: map_eq_conv)
  also have "W ^ k = 256 ^ length s" unfolding bs(2) power_mult by (simp add: W_def)
  also have "be_num s + 256 ^ length s * uint (PACK32 bs) = be_num bs" unfolding bs(1) uint_PACK32 by (simp add: algebra_simps)
  finally show ?case .
qed simp

lemma be_num_inject: "length xs = length ys \<Longrightarrow> be_num xs = be_num ys \<longleftrightarrow> xs = ys"
proof (induction xs ys rule: list_induct2)
  case (Cons x xs y ys)
  have r: "0 \<le> be_num zs" "be_num zs < 256 ^ length zs" for zs
  proof (induction zs)
    case (Cons z zs)
    { case 1 show ?case using Cons by simp }
    { case 2
      have "uint z + 1 \<le> 256" using uint_lt2p[of z] by simp
      then have "(uint z + 1) * 256 ^ length zs \<le> 256 * 256 ^ length zs" by (intro mult_right_mono) simp_all
      moreover have "be_num (z # zs) < (uint z + 1) * 256 ^ length zs" using Cons by (simp add: algebra_simps)
      ultimately have "be_num (z # zs) < 256 * 256 ^ length zs" by linarith
      then show ?case by simp }
  qed simp_all
  have d: "be_num (z # zs) div 256 ^ length zs = uint z" for z zs using r[of zs] by simp
  show ?case
  proof
    assume e: "be_num (x # xs) = be_num (y # ys)"
    then have "uint x = uint y" using d[of x xs] d[of y ys] Cons.hyps by metis
    with e Cons show "x # xs = y # ys" by (simp add: word_uint_eq_iff)
  qed simp
qed simp

section \<open>Signatures\<close>

lemma length_UNPACKs: "length (concat (map UNPACK32 xs)) = 4 * length xs"
  by (induction xs) (simp_all add: UNPACK32_def)

lemma modpowF4_eq:
  assumes "key_ok key" "length inout = 4 * nat (rk_len key)"
  shows "length (modpowF4 key inout) = length inout" "be_num (modpowF4 key inout) = be_num inout ^ 65537 mod num_of (rk_n key)"
proof -
  let ?N = "num_of (rk_n key)" and ?l = "length (rk_n key)"
  define a where "a = map (\<lambda>i. PACK32 (drop ((nat (rk_len key) - 1 - i) * 4) inout)) [0..<nat (rk_len key)]"
  have k: "nat (rk_len key) = ?l" "length (rk_rr key) = ?l" "num_of (rk_rr key) mod ?N = (R_of key)\<^sup>2 mod ?N" "R_of key \<le> 2 * ?N"
    using assms(1) by (simp_all add: key_ok_def)
  have a: "length a = ?l" "num_of a = be_num inout" using num_of_bytes[OF assms(2)] k(1) by (simp_all add: a_def)
  define x where "x = be_num inout"
  define aR where "aR = montMul key a (rk_rr key)"
  have "(R_of key * num_of aR) mod ?N = (x * num_of (rk_rr key)) mod ?N"
    using montMul_eq(2)[OF assms(1) a(1) k(2)] by (simp add: aR_def a(2) x_def)
  also have "\<dots> = (x * (R_of key)\<^sup>2) mod ?N" using k(3) by (metis mod_mult_right_eq)
  also have "\<dots> = (R_of key * (R_of key * x)) mod ?N" by (simp add: power2_eq_square algebra_simps)
  finally have "num_of aR mod ?N = (R_of key * x) mod ?N" by (rule cancel_R[OF assms(1)])
  from montSquare2_iter[OF assms(1) _ this, of 8]
  have s: "length ((montSquare2 key ^^ 8) aR) = ?l" "num_of ((montSquare2 key ^^ 8) aR) mod ?N = (R_of key * x ^ 65536) mod ?N"
    using montMul_eq(1)[OF assms(1) a(1) k(2)] by (simp_all add: aR_def)
  define aaa where "aaa = montMul key ((montSquare2 key ^^ 8) aR) a"
  have aaa: "length aaa = ?l" "num_of aaa mod ?N = x ^ 65537 mod ?N"
    using montMul_eq(1)[OF assms(1) s(1) a(1)] montMul_form[OF assms(1) s(1) a(1) s(2)] power_Suc2[of x 65536]
    by (simp_all add: aaa_def a(2) x_def)
  have r: "0 \<le> num_of aaa" "num_of aaa < R_of key" "0 < ?N"
    using num_of_range[of aaa] aaa(1) key_odd[OF assms(1)] num_of_range(1)[of "rk_n key"]
    by (simp_all add: R_of_def order_less_le) (metis even_zero)
  let ?r = "if geM key aaa then subM key aaa else aaa"
  have res: "modpowF4 key inout = concat (map UNPACK32 (rev ?r))"
    by (simp add: modpowF4_def Let_def a_def aR_def aaa_def)
  have len: "length ?r = ?l" using aaa(1) subM_eq(1)[of aaa key] by simp
  have "num_of ?r = num_of aaa mod ?N"
  proof (cases "geM key aaa")
    case True
    then have ge: "?N \<le> num_of aaa" using geM_eq aaa(1) by blast
    have lt: "num_of aaa - ?N < ?N" using r k(4) by simp
    have "?N < R_of key" using num_of_range(2)[of "rk_n key"] by (simp add: R_of_def)
    then have "num_of (subM key aaa) = num_of aaa - ?N"
      using subM_eq(2)[of aaa key] aaa(1) ge r by (simp add: R_of_def mod_pos_pos_trivial)
    also have "\<dots> = (num_of aaa - ?N) mod ?N" using ge lt by (intro mod_pos_pos_trivial[symmetric]) simp_all
    also have "\<dots> = num_of aaa mod ?N" by simp
    finally show ?thesis using True by simp
  next
    case False
    then show ?thesis using geM_eq[of aaa key] aaa(1) r by simp
  qed
  then show "be_num (modpowF4 key inout) = be_num inout ^ 65537 mod ?N"
    unfolding res be_num_words using aaa(2) by (simp add: x_def)
  show "length (modpowF4 key inout) = length inout" unfolding res length_UNPACKs using len assms(2) k(1) by simp
qed

lemma compare_loop_eq:
  "n \<le> length xs \<Longrightarrow> n \<le> length ys \<Longrightarrow> compare_loop n xs ys b = Some (b \<and> take n xs = take n ys)"
proof (induction n xs ys b rule: compare_loop.induct)
  case (2 n x xs y ys success)
  then show ?case by auto
qed auto

lemma padding_lengths:
  assumes "t < 12"
  shows "length (padding_map ! t) = padding_size_map ! t" "padding_size_map ! t < siglen_map ! t * 4"
  using less_12_cases[OF assms]
  by (auto simp: padding_map_def padding_size_map_def siglen_map_def padding_def SHA1_digestinfo_def SHA256_digestinfo_def
      SHA512_digestinfo_def)

lemma RSA_verify_eq:
  assumes "key_ok key" "t < 12" "rk_len key = int (siglen_map ! t)" "siglen_map ! t * 4 \<le> length sig"
    "length hash = siglen_map ! t * 4 - padding_size_map ! t"
  shows "RSA_verify key sig (siglen_map ! t * 4) t hash =
    Some (be_num (take (siglen_map ! t * 4) sig) ^ 65537 mod num_of (rk_n key) = be_num (padding_map ! t @ hash))"
proof -
  let ?l = "siglen_map ! t * 4" and ?p = "padding_size_map ! t"
  let ?buf = "modpowF4 key (take ?l sig)"
  have "length (take ?l sig) = 4 * nat (rk_len key)" using assms(3,4) by simp
  note m = modpowF4_eq[OF assms(1) this]
  have lb: "length ?buf = ?l" using m(1) assms(4) by simp
  have "siglen_map ! t < 2 ^ 62" using less_12_cases[OF assms(2)] by (auto simp: siglen_map_def)
  then have "int ?l = (rk_len key * 4) mod 2 ^ 64" using assms(3) by simp
  then have "RSA_verify key sig ?l t hash = Some (take ?p ?buf = padding_map ! t \<and> drop ?p ?buf = hash)"
    using assms(2-5) lb padding_lengths[OF assms(2)] by (simp add: RSA_verify_def kNumAlgorithms_def compare_loop_eq Let_def)
  also have "(take ?p ?buf = padding_map ! t \<and> drop ?p ?buf = hash) = (?buf = padding_map ! t @ hash)"
    using padding_lengths(1)[OF assms(2)] lb assms(5) by (metis append_eq_conv_conj append_take_drop_id)
  also have "\<dots> = (be_num ?buf = be_num (padding_map ! t @ hash))"
    using padding_lengths[OF assms(2)] lb assms(5) by (intro be_num_inject[symmetric]) simp
  finally show ?thesis unfolding m(2) .
qed

text \<open>
  C4: \<open>RSA_verify\<close> is the verification of PKCS1 signatures. For a usable key of the algorithm's length and a signature and digest
  of the right lengths, it accepts exactly when the signature, read as a number in big-endian order and raised to 65537 modulo
  the key's modulus, is the number of the padding of the algorithm followed by the digest.
\<close>

theorem RSA_verify_correct:
  assumes "key_ok key" "t < 12" "rk_len key = int (siglen_map ! t)" "length sig = siglen_map ! t * 4"
    "length hash = siglen_map ! t * 4 - padding_size_map ! t"
  shows "be_num (modpowF4 key sig) = be_num sig ^ 65537 mod num_of (rk_n key) \<and>
    RSA_verify key sig (length sig) t hash =
      Some (be_num sig ^ 65537 mod num_of (rk_n key) = be_num (padding_map ! t @ hash))"
  using RSA_verify_eq[OF assms(1-3) _ assms(5), of sig] modpowF4_eq(2)[OF assms(1), of sig] assms(3,4) by simp

text \<open>
  A key of 1024 bits: its modulus is \<open>(e + 1) * 16661\<close> for the padded digest \<open>e\<close> below, which is 1 modulo 16661, so
  that \<open>e\<close> squared is 1 and \<open>e\<close> is its own signature.
\<close>

lemma be_num_replicate: "be_num (replicate k 0) = 0" "be_num (replicate k 0xff) = 256 ^ k - 1"
  by (induction k) simp_all

lemma self_inverse_power:
  fixes x n :: int
  assumes "x\<^sup>2 mod n = 1"
  shows "x ^ 65537 mod n = x mod n"
proof -
  have "x ^ 65537 = (x\<^sup>2) ^ 32768 * x" using power_add[of x 65536 1] power_mult[of x 2 32768] by simp
  moreover have "(x\<^sup>2) ^ 32768 mod n = 1 mod n" using assms by (metis power_mod power_one mod_mod_trivial)
  ultimately show ?thesis by (metis mod_mult_left_eq mult_1)
qed

definition demo_hash :: "byte list" where
  "demo_hash = replicate 19 0 @ [116]"

definition demo_key :: RSAPublicKey where
  "demo_key = \<lparr>rk_len = 32, rk_n0inv = 0x7eac4a57,
     rk_n = [
     0x1dbe99, 0x0, 0x0, 0x0, 0x0, 0x6a0969a4, 0xe9c7c767, 0x44ce5b16,
     0x3c5feb3b, 0xffffbef7, 0xffffffff, 0xffffffff, 0xffffffff, 0xffffffff, 0xffffffff, 0xffffffff,
     0xffffffff, 0xffffffff, 0xffffffff, 0xffffffff, 0xffffffff, 0xffffffff, 0xffffffff, 0xffffffff,
     0xffffffff, 0xffffffff, 0xffffffff, 0xffffffff, 0xffffffff, 0xffffffff, 0xffffffff, 0x8229ffff],
     rk_rr = [
     0x401a4ed0, 0xd5e, 0x0, 0x0, 0x0, 0xd0eabf40, 0xb1a9e851, 0x1e397948,
     0xe2568b5e, 0x8aff5bf4, 0xffffffc5, 0x32042863, 0xd328890e, 0x4b11abf8, 0x4a7f3e3f, 0x3223abe,
     0xb101eccc, 0x191130d0, 0x3fe7f1ab, 0x0, 0x0, 0x0, 0x0, 0x0,
     0x0, 0x0, 0x0, 0x0, 0x0, 0x0, 0x0, 0x73200000]\<rparr>"

lemma demo_key_ok: "key_ok demo_key"
proof -
  have n: "num_of (rk_n demo_key) = 91404313110171647151727153881030093648709455707268584620136065129668704577497910972718992329975340504390936808854287253782748301337188578715616792049691112861877162852529414373427468285411412784552240449972176547687138586592264035742174195138186895470059020011568389402877263528508142830498716245062439517849" by (simp add: demo_key_def W_def)
  have rr: "num_of (rk_rr demo_key) = 80843524277743796436459476597494715803816249883098845385170461301890524617610540549426029108367842126685363712578883438673704062580477024278098342549815298231039582802840391819434122514238965883328869597662876709597722727492100044125546596934488323220282988996486834792858794403025447820628879540672926469840" by (simp add: demo_key_def W_def)
  have R: "R_of demo_key = 179769313486231590772930519078902473361797697894230657273430081157732675805500963132708477322407536021120113879871393357658789768814416622492847430639474124377767893424865485276302219601246094119453082952085005768838150682342462881473913110540827237163350510684586298239947245938479716304835356329624224137216" by (simp add: R_of_def demo_key_def W_def)
  have "(179769313486231590772930519078902473361797697894230657273430081157732675805500963132708477322407536021120113879871393357658789768814416622492847430639474124377767893424865485276302219601246094119453082952085005768838150682342462881473913110540827237163350510684586298239947245938479716304835356329624224137216 :: int)\<^sup>2 = 80843524277743796436459476597494715803816249883098845385170461301890524617610540549426029108367842126685363712578883438673704062580477024278098342549815298231039582802840391819434122514238965883328869597662876709597722727492100044125546596934488323220282988996486834792858794403025447820628879540672926469840 + 353561062620301108363686888492736105102898203264999110349664299824535401284115933013179964281894852670311739488363592674134999288428713995909346654294117286333995458360602138018958713876335874923848425795205658065739694806049431458788544223271967496903164577958151201632660884686936400977588054460461485713584 * 91404313110171647151727153881030093648709455707268584620136065129668704577497910972718992329975340504390936808854287253782748301337188578715616792049691112861877162852529414373427468285411412784552240449972176547687138586592264035742174195138186895470059020011568389402877263528508142830498716245062439517849" by simp
  then have "(R_of demo_key)\<^sup>2 mod num_of (rk_n demo_key) = num_of (rk_rr demo_key) mod num_of (rk_n demo_key)"
    unfolding R n rr by (simp only: mod_mult_self1)
  moreover have "R_of demo_key \<le> 2 * num_of (rk_n demo_key)" unfolding R n by simp
  ultimately show ?thesis by (simp add: key_ok_def) (simp add: demo_key_def)
qed

theorem RSA_verify_correct_witness:
  "RSA_verify demo_key (padding_map ! 0 @ demo_hash) 128 0 demo_hash = Some True"
proof -
  let ?s = "padding_map ! 0 @ demo_hash"
  have n: "num_of (rk_n demo_key) = 91404313110171647151727153881030093648709455707268584620136065129668704577497910972718992329975340504390936808854287253782748301337188578715616792049691112861877162852529414373427468285411412784552240449972176547687138586592264035742174195138186895470059020011568389402877263528508142830498716245062439517849" by (simp add: demo_key_def W_def)
  have e: "be_num ?s = 5486124068793688683255936251187209270074392635932332070112001988456197381759672947165175699536362793613284725337872111744958183862744647903224103718245670299614498700710006264535590197791934024641512541262359795191593456970905950167587431434979106624455856191799315131317283688164464487755759933080993908" 
    by (simp add: padding_map_def padding_def SHA1_digestinfo_def demo_hash_def be_num_append be_num_replicate)
  have "(5486124068793688683255936251187209270074392635932332070112001988456197381759672947165175699536362793613284725337872111744958183862744647903224103718245670299614498700710006264535590197791934024641512541262359795191593456970905950167587431434979106624455856191799315131317283688164464487755759933080993908 :: int) * 5486124068793688683255936251187209270074392635932332070112001988456197381759672947165175699536362793613284725337872111744958183862744647903224103718245670299614498700710006264535590197791934024641512541262359795191593456970905950167587431434979106624455856191799315131317283688164464487755759933080993908 = 1 + 329279399123323250900662400287330248488949801088309949589580576703451016251105752785857733601606313763476665586571761103472671740156332027082654325565432465014975013547206426056994790096148732047386864009504819350074632793404114408954290344815983831970221246731847736109314188113826570299247340080487 * 91404313110171647151727153881030093648709455707268584620136065129668704577497910972718992329975340504390936808854287253782748301337188578715616792049691112861877162852529414373427468285411412784552240449972176547687138586592264035742174195138186895470059020011568389402877263528508142830498716245062439517849"
    by (simp only: numeral_times_numeral add_numeral_special num.inject mult_num_simps add_num_simps one_plus_numeral)
  then have "(5486124068793688683255936251187209270074392635932332070112001988456197381759672947165175699536362793613284725337872111744958183862744647903224103718245670299614498700710006264535590197791934024641512541262359795191593456970905950167587431434979106624455856191799315131317283688164464487755759933080993908 :: int)\<^sup>2 mod 91404313110171647151727153881030093648709455707268584620136065129668704577497910972718992329975340504390936808854287253782748301337188578715616792049691112861877162852529414373427468285411412784552240449972176547687138586592264035742174195138186895470059020011568389402877263528508142830498716245062439517849 = 1 mod 91404313110171647151727153881030093648709455707268584620136065129668704577497910972718992329975340504390936808854287253782748301337188578715616792049691112861877162852529414373427468285411412784552240449972176547687138586592264035742174195138186895470059020011568389402877263528508142830498716245062439517849"
    by (simp only: power2_eq_square mod_mult_self1)
  also have "1 mod 91404313110171647151727153881030093648709455707268584620136065129668704577497910972718992329975340504390936808854287253782748301337188578715616792049691112861877162852529414373427468285411412784552240449972176547687138586592264035742174195138186895470059020011568389402877263528508142830498716245062439517849 = (1 :: int)" by (simp only: mod_pos_pos_trivial zero_le_one one_less_numeral_iff semiring_norm)
  finally have sq: "(5486124068793688683255936251187209270074392635932332070112001988456197381759672947165175699536362793613284725337872111744958183862744647903224103718245670299614498700710006264535590197791934024641512541262359795191593456970905950167587431434979106624455856191799315131317283688164464487755759933080993908 :: int)\<^sup>2 mod 91404313110171647151727153881030093648709455707268584620136065129668704577497910972718992329975340504390936808854287253782748301337188578715616792049691112861877162852529414373427468285411412784552240449972176547687138586592264035742174195138186895470059020011568389402877263528508142830498716245062439517849 = 1" .
  from sq have "be_num ?s ^ 65537 mod num_of (rk_n demo_key) = be_num ?s mod num_of (rk_n demo_key)"
    by (intro self_inverse_power) (simp only: e n)
  also have "\<dots> = be_num ?s" unfolding e n by simp
  finally have "be_num ?s ^ 65537 mod num_of (rk_n demo_key) = be_num ?s" .
  moreover have "length demo_hash = 20" "length (padding_map ! 0) = 108" using padding_lengths(1)[of 0]
    by (simp_all add: demo_hash_def padding_size_map_def)
  ultimately show ?thesis
    using RSA_verify_correct[OF demo_key_ok, of 0 ?s demo_hash] by (simp add: siglen_map_def padding_size_map_def demo_key_def)
qed

end
