(* ===== verification/VB_Firmware_Props.thy ===== *)
theory VB_Firmware_Props
  imports VB_Firmware VB_Rsa_Props
begin

text \<open>
  The verification of firmware: \<open>VerifyFirmware\<close> accepts exactly the blobs whose parts are signed along the chain root key,
  signing key, preamble and data; \<open>VerifyFirmwareImage\<close> gives the same answer on an image as \<open>VerifyFirmware\<close> on the file that
  \<open>WriteFirmwareImage\<close> makes of it.
\<close>

section \<open>Memory\<close>

lemma SafeMemcmp_loop_Some:
  "SafeMemcmp_loop n s1 s2 m = Some k \<longleftrightarrow>
     n \<le> length s1 \<and> n \<le> length s2 \<and> k = (if take n s1 = take n s2 then m else 1)"
proof (induction n s1 s2 m rule: SafeMemcmp_loop.induct)
  case (2 n x us1 y us2 match)
  then show ?case by auto
qed auto

lemma SafeMemcmp_0: "SafeMemcmp s1 s2 n = Some 0 \<longleftrightarrow> n \<le> length s1 \<and> n \<le> length s2 \<and> take n s1 = take n s2"
  by (auto simp: SafeMemcmp_def SafeMemcmp_loop_Some)

lemma SafeMemcmp_Some:
  "n \<le> length s1 \<Longrightarrow> n \<le> length s2 \<Longrightarrow> SafeMemcmp s1 s2 n = Some (if take n s1 = take n s2 then 0 else 1)"
  by (simp add: SafeMemcmp_def SafeMemcmp_loop_Some)

text \<open>A key is read when the announced length is that of its number of words.\<close>

lemma RSAPublicKeyFromBuf_eq:
  assumes "8 \<le> len" "len \<le> int (length buf)"
  shows "RSAPublicKeyFromBuf buf len =
    (let words = sint (le32 (take 4 buf)); l = sint (of_int (words * 4) :: 32 word)
     in if l < 0 then None
        else if 8 + 2 * l = len then
          Some (Some \<lparr>rk_len = words, rk_n0inv = le32 (take 4 (drop 4 buf)), rk_n = le32s (nat l div 4) (take (nat l) (drop 8 buf)),
                      rk_rr = le32s (nat l div 4) (take (nat l) (drop (nat l + 8) buf))\<rparr>)
        else Some None)"
proof -
  define l where "l = sint (le32 (take 4 buf) * 4)"
  have b: "4 \<le> length buf" "8 \<le> length buf" using assms by linarith+
  consider "l < 0" | "0 \<le> l" "8 + l > len" | "0 \<le> l" "8 + l \<le> len" "8 + 2 * l > len" | "0 \<le> l" "8 + 2 * l \<le> len" by linarith
  then show ?thesis
  proof cases
    case 1
    then show ?thesis using assms b
      by (simp add: RSAPublicKeyFromBuf_def StatefulMemcpy_def Let_def flip: l_def)
  next
    case 2
    then show ?thesis using assms b
      by (simp add: RSAPublicKeyFromBuf_def StatefulMemcpy_def Let_def flip: l_def)
  next
    case 3
    then have "nat l \<le> length buf - 8" "4 \<le> length buf - 4" using assms b by linarith+
    with 3 show ?thesis using assms b
      by (simp add: RSAPublicKeyFromBuf_def StatefulMemcpy_def Let_def flip: l_def)
  next
    case 4
    then have "nat l \<le> length buf - 8" "nat l \<le> length buf - (nat l + 8)" "4 \<le> length buf - 4" using assms b by linarith+
    with 4 show ?thesis using assms b
      by (simp add: RSAPublicKeyFromBuf_def StatefulMemcpy_def Let_def add.commute flip: l_def)
  qed
qed

lemma RSAPublicKeyFromBuf_take:
  assumes "8 \<le> len" "len \<le> int (length buf)"
  shows "RSAPublicKeyFromBuf (take (nat len) buf) len = RSAPublicKeyFromBuf buf len"
proof -
  define l where "l = sint (le32 (take 4 buf) * 4)"
  have m: "min 4 (nat len) = 4" "min 8 (nat len) = 8" "min 4 (nat len - 4) = 4" using assms by linarith+
  have "min (nat l) (nat len - 8) = nat l" "min (nat l) (nat len - (nat l + 8)) = nat l" if "8 + 2 * l = len" "0 \<le> l"
    using that by linarith+
  with assms m show ?thesis
    by (simp add: RSAPublicKeyFromBuf_eq drop_take Let_def flip: l_def)
qed

section \<open>Signatures\<close>

text \<open>A signature of the algorithm's length that \<open>RSA_verify\<close> accepts for the digest of the message.\<close>

definition sig_ok :: "(nat \<Rightarrow> byte) \<Rightarrow> RSAPublicKey \<Rightarrow> nat \<Rightarrow> byte list \<Rightarrow> byte list \<Rightarrow> bool" where
  "sig_ok mem key alg msg sig \<longleftrightarrow>
     length sig = siglen_map ! alg * 4 \<and> Option.bind (DigestBuf mem msg alg) (RSA_verify key sig (length sig) alg) = Some True"

lemma RSA_verify_take: "n \<le> length sig \<Longrightarrow> RSA_verify key (take n sig) n t h = RSA_verify key sig n t h"
  by (simp add: RSA_verify_def)

lemma RSA_verify_True_length: "RSA_verify key sig n t h = Some True \<Longrightarrow> n \<le> length sig"
  by (auto simp: RSA_verify_def CHECK_def Let_def split: if_splits)

lemma sig_ok_take:
  "sig_ok mem key alg msg (take (siglen_map ! alg * 4) sig) \<longleftrightarrow>
     Option.bind (DigestBuf mem msg alg) (RSA_verify key sig (siglen_map ! alg * 4) alg) = Some True"
proof (cases "siglen_map ! alg * 4 \<le> length sig")
  case True
  then show ?thesis by (simp add: sig_ok_def RSA_verify_take cong: bind_option_cong)
next
  case False
  then show ?thesis using RSA_verify_True_length by (fastforce simp: sig_ok_def bind_eq_Some_conv)
qed

lemma lengths_12: "length siglen_map = 12" "kNumAlgorithms = 12"
  by (simp_all add: siglen_map_def kNumAlgorithms_def)

lemma RSAVerifyBinary_f_key:
  "RSAVerifyBinary_f mem None key buf len sig alg = Some True \<longleftrightarrow>
     (\<exists>k. key = Some k \<and> alg < 12 \<and> 0 \<le> len \<and> nat len \<le> length buf \<and>
          sig_ok mem k alg (take (nat len) buf) (take (siglen_map ! alg * 4) sig))"
  by (cases key)
    (auto simp: RSAVerifyBinary_f_def RSAProcessedKeySize_def lengths_12 sig_ok_take CHECK_def Let_def)

lemma RSAVerifyBinary_f_blob:
  "RSAVerifyBinary_f mem blob None buf len sig alg = Some True \<longleftrightarrow>
     (\<exists>b k. blob = Some b \<and> RSAPublicKeyFromBuf b (int (siglen_map ! alg * 8 + 8)) = Some (Some k) \<and> alg < 12 \<and>
          0 \<le> len \<and> nat len \<le> length buf \<and> sig_ok mem k alg (take (nat len) buf) (take (siglen_map ! alg * 4) sig))"
proof -
  have *: "2 * (int (siglen_map ! alg) * 4) + 4 + 4 = int (siglen_map ! alg * 8 + 8)" by simp
  show ?thesis
    unfolding RSAVerifyBinary_f_def RSAProcessedKeySize_def *
    by (cases blob) (auto simp: lengths_12 sig_ok_take CHECK_def Let_def bind_eq_Some_conv)
qed

lemma RSAProcessedKeySize_12: "alg < 12 \<Longrightarrow> RSAProcessedKeySize alg = Some (int (siglen_map ! alg * 8 + 8))"
  by (simp add: RSAProcessedKeySize_def lengths_12)

lemma siglen_map_bounds: "alg < 12 \<Longrightarrow> 32 \<le> siglen_map ! alg \<and> siglen_map ! alg \<le> 256"
  using less_12_cases[of alg] by (auto simp: siglen_map_def)

section \<open>VerifyFirmware\<close>

lemma VerifyFirmwarePreamble_0:
  "VerifyFirmwarePreamble mem key p alg = Some (0, l) \<longleftrightarrow>
     (\<exists>k. key = Some k \<and> alg < 12 \<and> 14 \<le> length p \<and> sig_ok mem k alg (take 14 p) (take (siglen_map ! alg * 4) (drop 14 p)) \<and>
        l = Some (sint (le32 (drop 2 p))))"
proof -
  have "VerifyFirmwarePreamble mem key p alg = Some (0, l) \<longleftrightarrow>
    RSAVerifyBinary_f mem None key p 14 (drop 14 p) alg = Some True \<and> l = Some (sint (le32 (drop 2 p)))"
    by (auto simp: VerifyFirmwarePreamble_def bind_eq_Some_conv)
  then show ?thesis by (auto simp: RSAVerifyBinary_f_key)
qed

lemma VerifyFirmwareData_0:
  "VerifyFirmwareData mem key d len alg = Some 0 \<longleftrightarrow>
     (\<exists>k. key = Some k \<and> alg < 12 \<and> 0 \<le> len \<and> nat len \<le> length (drop (siglen_map ! alg * 4) d) \<and>
        sig_ok mem k alg (take (nat len) (drop (siglen_map ! alg * 4) d)) (take (siglen_map ! alg * 4) d))"
proof -
  have "VerifyFirmwareData mem key d len alg = Some 0 \<longleftrightarrow>
    alg < 12 \<and> RSAVerifyBinary_f mem None key (drop (siglen_map ! alg * 4) d) len d alg = Some True"
    by (auto simp: VerifyFirmwareData_def bind_eq_Some_conv lengths_12 CHECK_def)
  then show ?thesis by (auto simp: RSAVerifyBinary_f_key)
qed

lemma length_fips_compress: "length (fips_compress A h b) = 8"
  by (rule octuple[of "fips_vars A (fips_W A (\<lambda>t. a_pack A (drop (t * (a_bs A div 16)) b))) h (length (sha_k A))"])
    (simp add: fips_compress_def)

lemma length_fips_fold: "length h = 8 \<Longrightarrow> length (fold (\<lambda>b h. fips_compress A h b) bs h) = 8"
  by (induction bs arbitrary: h) (simp_all add: length_fips_compress)

lemma length_concat_UNPACK64: "length (concat (map UNPACK64 ws)) = 8 * length ws"
  by (induction ws) (simp_all add: UNPACK64_def)

lemma length_fips_digest_2: "length (fips_digest 2 m) = 64"
proof -
  have "a_unpack sha512 = UNPACK64" "length (sha_h0 sha512) = 8" by (simp_all add: sha512_def sha512_h0_def)
  then show ?thesis by (simp add: fips_digest_def fips_sha2_def length_concat_UNPACK64 length_fips_fold)
qed

text \<open>What \<open>VerifyFirmwareHeader\<close> checks of a header for an algorithm.\<close>

definition header_ok :: "(nat \<Rightarrow> byte) \<Rightarrow> byte list option \<Rightarrow> bool \<Rightarrow> byte list \<Rightarrow> nat \<Rightarrow> nat \<Rightarrow> bool" where
  "header_ok mem root dev h alg hl \<longleftrightarrow>
     alg = unat (le16 (drop 2 h)) \<and> alg < 12 \<and> hl = unat (le16 h) \<and> hl = siglen_map ! alg * 8 + 78 \<and> hl \<le> length h \<and>
     take 64 (drop (hl - 64) h) = fips_digest 2 (take (hl - 64) h) \<and>
     (dev \<or> (\<exists>b k. root = Some b \<and> RSAPublicKeyFromBuf b 2056 = Some (Some k) \<and> sig_ok mem k 11 (take hl h) (take 1024 (drop hl h))))"

lemma header_ok_D:
  assumes "header_ok mem root dev h alg hl"
  shows "alg = unat (le16 (drop 2 h))" "alg < 12" "hl = unat (le16 h)" "hl = siglen_map ! alg * 8 + 78" "hl \<le> length h"
  using assms unfolding header_ok_def by blast+

lemma VerifyFirmwareHeader_0:
  "VerifyFirmwareHeader mem root h dev = Some (0, a, l) \<longleftrightarrow>
     (\<exists>alg hl. a = Some alg \<and> l = Some hl \<and> header_ok mem root dev h alg hl)"
proof (cases "4 \<le> length h \<and> unat (le16 (drop 2 h)) < 12 \<and> unat (le16 h) = siglen_map ! unat (le16 (drop 2 h)) * 8 + 78")
  case True
  define alg hl where "alg = unat (le16 (drop 2 h))" and "hl = unat (le16 h)"
  have u: "uint (le16 h) = int hl" by (simp add: hl_def)
  have T: "4 \<le> length h" "alg < 12" "hl = siglen_map ! alg * 8 + 78" using True by (auto simp: alg_def hl_def)
  have n: "nat (14 + int x * 8) = 14 + x * 8" "nat (int x * 8 + 78) = x * 8 + 78" for x by linarith+
  have s11: "siglen_map ! 11 = 256" by (simp add: siglen_map_def)
  have d: "DigestBuf mem (take (hl - 64) h) 2 = Some (fips_digest 2 (take (hl - 64) h))"
    using T siglen_map_bounds[OF T(2)] by (intro DigestBuf_fips) (auto simp: min_def)
  have checksum: "hl - 64 \<le> length h \<and> SafeMemcmp (fips_digest 2 (take (hl - 64) h)) (drop (hl - 64) h) 64 = Some 0 \<longleftrightarrow>
      hl \<le> length h \<and> take 64 (drop (hl - 64) h) = fips_digest 2 (take (hl - 64) h)"
    using T(3) by (auto simp: SafeMemcmp_0 length_fips_digest_2)
  have root: "hl \<le> length h \<and> take 64 (drop (hl - 64) h) = fips_digest 2 (take (hl - 64) h) \<and>
        (dev \<or> RSAVerifyBinary_f mem root None h (int hl) (drop hl h) 11 = Some True) \<longleftrightarrow>
      hl \<le> length h \<and> take 64 (drop (hl - 64) h) = fips_digest 2 (take (hl - 64) h) \<and>
        (dev \<or> (\<exists>b k. root = Some b \<and> RSAPublicKeyFromBuf b 2056 = Some (Some k) \<and> sig_ok mem k 11 (take hl h) (take 1024 (drop hl h))))"
    by (auto simp: RSAVerifyBinary_f_blob s11)
  have ok: "header_ok mem root dev h alg hl \<longleftrightarrow>
      hl \<le> length h \<and> take 64 (drop (hl - 64) h) = fips_digest 2 (take (hl - 64) h) \<and>
        (dev \<or> (\<exists>b k. root = Some b \<and> RSAPublicKeyFromBuf b 2056 = Some (Some k) \<and> sig_ok mem k 11 (take hl h) (take 1024 (drop hl h))))"
    using T(2,3) by (simp add: header_ok_def flip: alg_def hl_def)
  have "VerifyFirmwareHeader mem root h dev = Some (0, a, l) \<longleftrightarrow>
      a = Some alg \<and> l = Some hl \<and> (hl - 64 \<le> length h \<and> SafeMemcmp (fips_digest 2 (take (hl - 64) h)) (drop (hl - 64) h) 64 = Some 0) \<and>
      (dev \<or> RSAVerifyBinary_f mem root None h (int hl) (drop hl h) 11 = Some True)"
    using T d by (auto simp: VerifyFirmwareHeader_def lengths_12 RSAProcessedKeySize_12 u n CHECK_def bind_eq_Some_conv Let_def
        simp flip: alg_def hl_def)
  also have "\<dots> \<longleftrightarrow> a = Some alg \<and> l = Some hl \<and> header_ok mem root dev h alg hl"
    unfolding ok checksum root[symmetric] by blast
  finally show ?thesis using header_ok_D(1,3)[of mem root dev h] unfolding alg_def hl_def by blast
next
  case False
  have "\<not> header_ok mem root dev h alg hl" for alg hl
  proof
    assume "header_ok mem root dev h alg hl"
    note D = header_ok_D[OF this]
    then have "4 \<le> length h" by linarith
    with D False show False by (elim notE) (simp flip: D(1) D(3))
  qed
  moreover have "VerifyFirmwareHeader mem root h dev \<noteq> Some (0, a, l)"
  proof (cases "4 \<le> length h \<and> unat (le16 (drop 2 h)) < 12")
    case True
    then have "unat (le16 h) \<noteq> siglen_map ! unat (le16 (drop 2 h)) * 8 + 78" using False by blast
    moreover have "int (unat (le16 h)) = uint (le16 h)" by simp
    ultimately have "uint (le16 h) \<noteq> 70 + int (siglen_map ! unat (le16 (drop 2 h)) * 8 + 8)" by linarith
    with True show ?thesis by (simp add: VerifyFirmwareHeader_def lengths_12 RSAProcessedKeySize_12 Let_def)
  qed (auto simp: VerifyFirmwareHeader_def CHECK_def lengths_12 Let_def split: if_splits)
  ultimately show ?thesis by simp
qed

lemma VerifyFirmware_0:
  "VerifyFirmware mem root blob dev = Some 0 \<longleftrightarrow>
     8 \<le> length blob \<and> take 8 blob = FIRMWARE_MAGIC \<and>
     (\<exists>alg hl k. header_ok mem root dev (drop 8 blob) alg hl \<and>
        RSAPublicKeyFromBuf (drop 12 blob) (int (siglen_map ! alg * 8 + 8)) = Some (Some k) \<and>
        VerifyFirmwarePreamble mem (Some k) (drop (hl + 1032) blob) alg = Some (0, Some (sint (le32 (drop (hl + 1034) blob)))) \<and>
        VerifyFirmwareData mem (Some k) (drop (hl + 1046 + siglen_map ! alg * 4) blob) (sint (le32 (drop (hl + 1034) blob))) alg = Some 0)"
  (is "?L \<longleftrightarrow> ?R")
proof
  assume ?L
  then have s: "SafeMemcmp blob FIRMWARE_MAGIC 8 = Some 0"
    by (cases "SafeMemcmp blob FIRMWARE_MAGIC 8") (auto simp: VerifyFirmware_def split: if_splits)
  obtain e a l where h: "VerifyFirmwareHeader mem root (drop 8 blob) dev = Some (e, a, l)" and e: "e = 0"
    using \<open>?L\<close> s by (auto simp: VerifyFirmware_def bind_eq_Some_conv Let_def split: if_splits)
  obtain alg hl where H: "a = Some alg" "l = Some hl" "header_ok mem root dev (drop 8 blob) alg hl"
    using h[unfolded e VerifyFirmwareHeader_0] by blast
  then have "alg < 12" by (simp add: header_ok_def)
  then have R: "RSAPublicKeyFromBuf (drop 12 blob) (int (siglen_map ! alg * 8 + 8)) \<bind> (\<lambda>sign_key.
      VerifyFirmwarePreamble mem sign_key (drop (hl + 1032) blob) alg \<bind> (\<lambda>(e, fl).
        if e \<noteq> 0 then Some e else fl \<bind> (\<lambda>fl.
          VerifyFirmwareData mem sign_key (drop (2 + 4 + 8 + siglen_map ! alg * 4) (drop (hl + 1024) (drop 8 blob))) fl alg \<bind>
            (\<lambda>e. if e \<noteq> 0 then Some e else Some 0)))) = Some 0"
    using \<open>?L\<close> s h e H(1,2) unfolding VerifyFirmware_def Let_def by (simp add: RSAProcessedKeySize_12 lengths_12 add_ac)
  then obtain key fl where K: "RSAPublicKeyFromBuf (drop 12 blob) (int (siglen_map ! alg * 8 + 8)) = Some key"
      "VerifyFirmwarePreamble mem key (drop (hl + 1032) blob) alg = Some (0, fl)"
      "fl \<bind> (\<lambda>fl. VerifyFirmwareData mem key (drop (hl + 1046 + siglen_map ! alg * 4) blob) fl alg) = Some 0"
    by (auto simp: bind_eq_Some_conv add_ac split: if_splits)
  obtain k where "key = Some k" "fl = Some (sint (le32 (drop (hl + 1034) blob)))"
    using K(2) by (auto simp: VerifyFirmwarePreamble_0 add_ac)
  with K s H(3) show ?R by (auto simp: SafeMemcmp_0 FIRMWARE_MAGIC_def)
next
  assume ?R
  then obtain alg hl k where H: "header_ok mem root dev (drop 8 blob) alg hl"
        "RSAPublicKeyFromBuf (drop 12 blob) (int (siglen_map ! alg * 8 + 8)) = Some (Some k)"
        "VerifyFirmwarePreamble mem (Some k) (drop (hl + 1032) blob) alg = Some (0, Some (sint (le32 (drop (hl + 1034) blob))))"
        "VerifyFirmwareData mem (Some k) (drop (hl + 1046 + siglen_map ! alg * 4) blob) (sint (le32 (drop (hl + 1034) blob))) alg = Some 0"
    by blast
  have "VerifyFirmwareHeader mem root (drop 8 blob) dev = Some (0, Some alg, Some hl)" using H(1) by (simp add: VerifyFirmwareHeader_0)
  moreover have "SafeMemcmp blob FIRMWARE_MAGIC 8 = Some 0" using \<open>?R\<close> by (simp add: SafeMemcmp_0 FIRMWARE_MAGIC_def)
  moreover have "alg < 12" using H(1) by (simp add: header_ok_def)
  ultimately show ?L using H(2-4) by (simp add: VerifyFirmware_def RSAProcessedKeySize_12 lengths_12 Let_def add_ac)
qed

lemma split_length: "n \<le> length xs \<Longrightarrow> \<exists>a b. xs = a @ b \<and> length a = n"
  by (intro exI[of _ "take n xs"] exI[of _ "drop n xs"]) simp

lemma le16_append: "length a = 2 \<Longrightarrow> le16 (a @ b) = le16 a"
  by (simp add: le16_def nth_append)

lemma le32_append: "length a = 4 \<Longrightarrow> le32 (a @ b) = le32 a"
  by (simp add: le32_def nth_append)

lemma le32_take: "4 \<le> length a \<Longrightarrow> le32 (take 4 a) = le32 a"
  by (simp add: le32_def)

lemma VerifyFirmware_parts:
  assumes "blob = FIRMWARE_MAGIC @ hlb @ algb @ skey @ ver @ csum @ ksig @ pre @ psig @ fsig @ dat @ rest"
    "length hlb = 2" "length algb = 2" "alg < 12" "unat (le16 algb) = alg" "length skey = siglen_map ! alg * 8 + 8" "length ver = 2"
    "length csum = 64" "length ksig = 1024" "length pre = 14" "length psig = siglen_map ! alg * 4" "length fsig = siglen_map ! alg * 4"
    "int (length dat) = sint (le32 (drop 2 pre))"
  shows "VerifyFirmware mem root blob dev = Some 0 \<longleftrightarrow>
    unat (le16 hlb) = siglen_map ! alg * 8 + 78 \<and>
    csum = fips_digest 2 (hlb @ algb @ skey @ ver) \<and>
    (dev \<or> (\<exists>b k. root = Some b \<and> RSAPublicKeyFromBuf b 2056 = Some (Some k) \<and> sig_ok mem k 11 (hlb @ algb @ skey @ ver @ csum) ksig)) \<and>
    (\<exists>k. RSAPublicKeyFromBuf skey (int (length skey)) = Some (Some k) \<and> sig_ok mem k alg pre psig \<and> sig_ok mem k alg dat fsig)"
proof -
  let ?n = "siglen_map ! alg"
  have m: "length FIRMWARE_MAGIC = 8" by (simp add: FIRMWARE_MAGIC_def)
  have h: "header_ok mem root dev (drop 8 blob) a hl \<longleftrightarrow> a = alg \<and> hl = ?n * 8 + 78 \<and> unat (le16 hlb) = ?n * 8 + 78 \<and>
      csum = fips_digest 2 (hlb @ algb @ skey @ ver) \<and>
      (dev \<or> (\<exists>b k. root = Some b \<and> RSAPublicKeyFromBuf b 2056 = Some (Some k) \<and> sig_ok mem k 11 (hlb @ algb @ skey @ ver @ csum) ksig))"
    for a hl
    unfolding header_ok_def using assms(2-12) by (auto simp: assms(1) m le16_append)
  have k: "RSAPublicKeyFromBuf (drop 12 blob) (int (?n * 8 + 8)) = RSAPublicKeyFromBuf skey (int (length skey))"
    using RSAPublicKeyFromBuf_take[of "int (?n * 8 + 8)" "drop 12 blob"] assms(2-12) by (simp add: assms(1) m)
  have d: "drop (?n * 8 + 78 + 1032) blob = pre @ psig @ fsig @ dat @ rest"
    "drop (?n * 8 + 78 + 1046 + ?n * 4) blob = fsig @ dat @ rest"
    using assms(2-12) by (simp_all add: assms(1) m)
  have l: "le32 (drop (?n * 8 + 78 + 1034) blob) = le32 (drop 2 pre)"
    using assms(2-12) by (simp add: assms(1) m le32_def nth_append)
  have b: "(8 \<le> length blob) = True" "(take 8 blob = FIRMWARE_MAGIC) = True" by (simp_all add: assms(1) m)
  have "VerifyFirmware mem root blob dev = Some 0 \<longleftrightarrow>
    unat (le16 hlb) = ?n * 8 + 78 \<and> csum = fips_digest 2 (hlb @ algb @ skey @ ver) \<and>
    (dev \<or> (\<exists>b k. root = Some b \<and> RSAPublicKeyFromBuf b 2056 = Some (Some k) \<and> sig_ok mem k 11 (hlb @ algb @ skey @ ver @ csum) ksig)) \<and>
    (\<exists>key. RSAPublicKeyFromBuf skey (int (length skey)) = Some (Some key) \<and>
      VerifyFirmwarePreamble mem (Some key) (pre @ psig @ fsig @ dat @ rest) alg = Some (0, Some (sint (le32 (drop 2 pre)))) \<and>
      VerifyFirmwareData mem (Some key) (fsig @ dat @ rest) (sint (le32 (drop 2 pre))) alg = Some 0)"
    unfolding VerifyFirmware_0 h by (simp only: conj_assoc ex_simps simp_thms d k l b)
  moreover have "VerifyFirmwarePreamble mem (Some key) (pre @ psig @ fsig @ dat @ rest) alg = Some (0, Some (sint (le32 (drop 2 pre)))) \<longleftrightarrow>
      sig_ok mem key alg pre psig" for key
    using assms(4,10,11) by (simp add: VerifyFirmwarePreamble_0 le32_def nth_append)
  moreover have "VerifyFirmwareData mem (Some key) (fsig @ dat @ rest) (sint (le32 (drop 2 pre))) alg = Some 0 \<longleftrightarrow> sig_ok mem key alg dat fsig" for key
    using assms(4,12) by (simp add: VerifyFirmwareData_0 flip: assms(13))
  ultimately show ?thesis by simp
qed

lemma le16_bytes16 [simp]: "le16 (bytes16 x) = x" "length (bytes16 x) = 2"
proof -
  show "le16 (bytes16 x) = x"
    by (rule bit_word_eqI) (auto simp: le16_def bytes16_def bit_simps)
qed (simp add: bytes16_def)

lemma le32_bytes32 [simp]: "le32 (bytes32 x) = x" "length (bytes32 x) = 4"
proof -
  show "le32 (bytes32 x) = x"
  proof (rule bit_word_eqI)
    fix n assume "n < LENGTH(32)"
    then show "bit (le32 (bytes32 x)) n = bit x n"
      by (cases "24 \<le> n"; cases "16 \<le> n") (auto simp: le32_def bytes32_def bit_simps)
  qed
qed (simp add: bytes32_def)

lemma uint_int_unat: "uint w = int (unat w)"
  by simp

lemma unat_of_nat_16: "m < 65536 \<Longrightarrow> unat (of_nat m :: 16 word) = m"
  by (simp add: unat_of_nat)

lemma bytes16_le16: "length xs = 2 \<Longrightarrow> bytes16 (le16 xs) = xs"
  by (auto simp: bytes16_def le16_def length_Suc_conv numeral_2_eq_2 intro!: bit_word_eqI) (auto simp: bit_simps dest: bit_imp_le_length)

lemma VerifyFirmware_split:
  assumes "VerifyFirmware mem root blob dev = Some 0"
  obtains alg hlb algb skey ver csum ksig pre psig fsig dat rest where
    "blob = FIRMWARE_MAGIC @ hlb @ algb @ skey @ ver @ csum @ ksig @ pre @ psig @ fsig @ dat @ rest"
    "length hlb = 2" "length algb = 2" "alg < 12" "unat (le16 algb) = alg" "length skey = siglen_map ! alg * 8 + 8" "length ver = 2"
    "length csum = 64" "length ksig = 1024" "length pre = 14" "length psig = siglen_map ! alg * 4" "length fsig = siglen_map ! alg * 4"
    "int (length dat) = sint (le32 (drop 2 pre))"
proof -
  obtain alg hl k where V: "8 \<le> length blob" "take 8 blob = FIRMWARE_MAGIC" "header_ok mem root dev (drop 8 blob) alg hl"
      "VerifyFirmwarePreamble mem (Some k) (drop (hl + 1032) blob) alg = Some (0, Some (sint (le32 (drop (hl + 1034) blob))))"
      "VerifyFirmwareData mem (Some k) (drop (hl + 1046 + siglen_map ! alg * 4) blob) (sint (le32 (drop (hl + 1034) blob))) alg = Some 0"
    using assms unfolding VerifyFirmware_0 by blast
  note H = header_ok_D[OF V(3)]
  define n fl where "n = siglen_map ! alg" and "fl = sint (le32 (drop (hl + 1034) blob))"
  have P: "14 \<le> length (drop (hl + 1032) blob)" using V(4) unfolding VerifyFirmwarePreamble_0 by blast
  have D: "0 \<le> fl" "nat fl \<le> length (drop (n * 4) (drop (hl + 1046 + n * 4) blob))"
      "length (take (n * 4) (drop (hl + 1046 + n * 4) blob)) = n * 4"
    using V(5) unfolding VerifyFirmwareData_0 sig_ok_def n_def fl_def by blast+
  have n: "0 < n" using siglen_map_bounds[OF H(2)] by (simp add: n_def)
  have L: "hl + 1046 + n * 4 + n * 4 + nat fl \<le> length blob" using D P n by (simp split: if_splits)
  have hl: "hl = n * 8 + 78" using H(4) by (simp add: n_def)
  define cut where "cut i j = take (j - i) (drop i blob)" for i j
  have cut: "length (cut i j) = j - i" "drop i blob = cut i j @ drop j blob" if "i \<le> j" "j \<le> length blob" for i j
    using that by (simp_all add: cut_def) (metis append_take_drop_id drop_drop le_add_diff_inverse2)
  define e where "e = hl + 1046 + n * 4 + n * 4"
  have "blob = FIRMWARE_MAGIC @ cut 8 10 @ cut 10 12 @ cut 12 (n * 8 + 20) @ cut (n * 8 + 20) (n * 8 + 22) @ cut (n * 8 + 22) (n * 8 + 86) @
      cut (n * 8 + 86) (n * 8 + 1110) @ cut (n * 8 + 1110) (n * 8 + 1124) @ cut (n * 8 + 1124) (n * 12 + 1124) @
      cut (n * 12 + 1124) (n * 16 + 1124) @ cut (n * 16 + 1124) (n * 16 + 1124 + nat fl) @ drop (n * 16 + 1124 + nat fl) blob"
    using append_take_drop_id[of 8 blob] V(2) cut(2)[of 8 10] cut(2)[of 10 12] cut(2)[of 12 "n * 8 + 20"]
      cut(2)[of "n * 8 + 20" "n * 8 + 22"] cut(2)[of "n * 8 + 22" "n * 8 + 86"] cut(2)[of "n * 8 + 86" "n * 8 + 1110"]
      cut(2)[of "n * 8 + 1110" "n * 8 + 1124"] cut(2)[of "n * 8 + 1124" "n * 12 + 1124"] cut(2)[of "n * 12 + 1124" "n * 16 + 1124"]
      cut(2)[of "n * 16 + 1124" "n * 16 + 1124 + nat fl"] L hl by simp
  moreover have "unat (le16 (cut 10 12)) = alg" using H(1) L hl by (simp add: cut_def le16_def)
  moreover have "fl = sint (le32 (drop 2 (cut (n * 8 + 1110) (n * 8 + 1124))))"
    using L hl by (simp add: fl_def cut_def le32_def add_ac)
  ultimately show thesis
    using that[of "cut 8 10" "cut 10 12" "cut 12 (n * 8 + 20)" "cut (n * 8 + 20) (n * 8 + 22)" "cut (n * 8 + 22) (n * 8 + 86)"
      "cut (n * 8 + 86) (n * 8 + 1110)" "cut (n * 8 + 1110) (n * 8 + 1124)" "cut (n * 8 + 1124) (n * 12 + 1124)"
      "cut (n * 12 + 1124) (n * 16 + 1124)" "cut (n * 16 + 1124) (n * 16 + 1124 + nat fl)" "drop (n * 16 + 1124 + nat fl) blob"]
      H(2) cut(1) L hl D(1) by (simp flip: n_def)
qed

text \<open>
  C2: \<open>VerifyFirmware\<close> accepts exactly the signed firmware. It returns success for a blob if and only if the blob is the magic
  bytes, a header with its own length, one of the twelve algorithms, a key of that algorithm and a version, the SHA-512 digest of
  these, 1024 bytes that are the root key's signature of header and digest unless the developer mode is on, a preamble signed
  with the key of the header, the signatures of preamble and data, and as much data as the preamble says, signed with that key.
\<close>

theorem VerifyFirmware_accepts_exactly:
  "VerifyFirmware mem root blob dev = Some 0 \<longleftrightarrow>
     (\<exists>alg hdr skey ver ksig pre psig fsig dat rest key.
        blob = FIRMWARE_MAGIC @ hdr @ fips_digest 2 hdr @ ksig @ pre @ psig @ fsig @ dat @ rest \<and> alg < 12 \<and>
        hdr = bytes16 (of_nat (siglen_map ! alg * 8 + 78)) @ bytes16 (of_nat alg) @ skey @ ver \<and>
        length skey = siglen_map ! alg * 8 + 8 \<and> length ver = 2 \<and> length ksig = 1024 \<and> length pre = 14 \<and>
        (dev \<or> (\<exists>b k. root = Some b \<and> RSAPublicKeyFromBuf b 2056 = Some (Some k) \<and> sig_ok mem k 11 (hdr @ fips_digest 2 hdr) ksig)) \<and>
        RSAPublicKeyFromBuf skey (int (length skey)) = Some (Some key) \<and> sig_ok mem key alg pre psig \<and>
        int (length dat) = sint (le32 (drop 2 pre)) \<and> sig_ok mem key alg dat fsig)"
  (is "_ \<longleftrightarrow> (\<exists>alg hdr skey ver ksig pre psig fsig dat rest key. ?P alg hdr skey ver ksig pre psig fsig dat rest key)")
proof
  assume v: "VerifyFirmware mem root blob dev = Some 0"
  then obtain alg hlb algb skey ver csum ksig pre psig fsig dat rest where s:
    "blob = FIRMWARE_MAGIC @ hlb @ algb @ skey @ ver @ csum @ ksig @ pre @ psig @ fsig @ dat @ rest"
    "length hlb = 2" "length algb = 2" "alg < 12" "unat (le16 algb) = alg" "length skey = siglen_map ! alg * 8 + 8" "length ver = 2"
    "length csum = 64" "length ksig = 1024" "length pre = 14" "length psig = siglen_map ! alg * 4" "length fsig = siglen_map ! alg * 4"
    "int (length dat) = sint (le32 (drop 2 pre))"
    by (rule VerifyFirmware_split)
  note p = v[unfolded VerifyFirmware_parts[OF s]]
  have w: "of_nat (unat x) = x" for x :: "16 word" by simp
  have "hlb = bytes16 (of_nat (siglen_map ! alg * 8 + 78))" using p bytes16_le16[OF s(2)] by (metis w)
  moreover have "algb = bytes16 (of_nat alg)" using s(5) bytes16_le16[OF s(3)] by (metis w)
  moreover obtain key where "RSAPublicKeyFromBuf skey (int (length skey)) = Some (Some key)" "sig_ok mem key alg pre psig" "sig_ok mem key alg dat fsig"
    using p by blast
  ultimately have "?P alg (hlb @ algb @ skey @ ver) skey ver ksig pre psig fsig dat rest key" using p s by force
  then show "\<exists>alg hdr skey ver ksig pre psig fsig dat rest key. ?P alg hdr skey ver ksig pre psig fsig dat rest key" by blast
next
  assume "\<exists>alg hdr skey ver ksig pre psig fsig dat rest key. ?P alg hdr skey ver ksig pre psig fsig dat rest key"
  then obtain alg hdr skey ver ksig pre psig fsig dat rest key where P: "?P alg hdr skey ver ksig pre psig fsig dat rest key" by blast
  have u: "unat (of_nat alg :: 16 word) = alg" "unat (of_nat (siglen_map ! alg * 8 + 78) :: 16 word) = siglen_map ! alg * 8 + 78"
    using P siglen_map_bounds[of alg] by (intro unat_of_nat_16; simp)+
  have "length psig = siglen_map ! alg * 4" "length fsig = siglen_map ! alg * 4" using P by (auto simp: sig_ok_def)
  with P u show "VerifyFirmware mem root blob dev = Some 0"
    by (subst VerifyFirmware_parts[where alg = alg and hlb = "bytes16 (of_nat (siglen_map ! alg * 8 + 78))" and algb = "bytes16 (of_nat alg)"
          and skey = skey and ver = ver and csum = "fips_digest 2 hdr" and ksig = ksig and pre = pre and psig = psig and fsig = fsig
          and dat = dat and rest = rest]) (auto simp: length_fips_digest_2)
qed

section \<open>VerifyFirmwareImage\<close>

text \<open>The chain of signatures, on digests.\<close>

definition verify_chain ::
    "bool \<Rightarrow> RSAPublicKey option \<Rightarrow> RSAPublicKey \<Rightarrow> nat \<Rightarrow> byte list \<Rightarrow> byte list \<Rightarrow> byte list \<Rightarrow> byte list \<Rightarrow> byte list \<Rightarrow> byte list \<Rightarrow>
     int option" where
  "verify_chain dev root key alg hdr ksig pre psig dat fsig = do {
     ok \<leftarrow> (if dev then Some True else root \<bind> (\<lambda>k. RSA_verify k ksig 1024 11 (fips_digest 11 hdr)));
     if \<not> ok then Some 2
     else do {
       ok \<leftarrow> RSA_verify key psig (siglen_map ! alg * 4) alg (fips_digest alg pre);
       if \<not> ok then Some 4
       else do {
         ok \<leftarrow> RSA_verify key fsig (siglen_map ! alg * 4) alg (fips_digest alg dat);
         if \<not> ok then Some 5 else Some 0 } } }"

text \<open>An image that is consistent in itself; its signatures can be any.\<close>

definition header_bytes :: "FirmwareImage \<Rightarrow> byte list" where
  "header_bytes img = bytes16 (fi_header_len img) @ bytes16 (fi_sign_algorithm img) @ fi_sign_key img @ bytes16 (fi_key_version img)"

definition preamble_bytes :: "FirmwareImage \<Rightarrow> byte list" where
  "preamble_bytes img = bytes16 (fi_firmware_version img) @ bytes32 (fi_firmware_len img) @ fi_preamble img"

definition image_ok :: "FirmwareImage \<Rightarrow> bool" where
  "image_ok img \<longleftrightarrow>
     (let n = siglen_map ! unat (fi_sign_algorithm img)
      in unat (fi_sign_algorithm img) < 12 \<and> fi_magic img = FIRMWARE_MAGIC \<and> unat (fi_header_len img) = n * 8 + 78 \<and>
         length (fi_sign_key img) = n * 8 + 8 \<and> fi_header_checksum img = fips_digest 2 (header_bytes img) \<and>
         length (fi_key_signature img) = 1024 \<and> length (fi_preamble img) = 8 \<and>
         length (fi_preamble_signature img) = n * 4 \<and> length (fi_firmware_signature img) = n * 4 \<and>
         unat (fi_firmware_len img) = length (fi_firmware_data img) \<and> length (fi_firmware_data img) < 2 ^ 29)"

lemma image_okD:
  assumes "image_ok img"
  shows "unat (fi_sign_algorithm img) < 12" "fi_magic img = FIRMWARE_MAGIC"
    "unat (fi_header_len img) = siglen_map ! unat (fi_sign_algorithm img) * 8 + 78"
    "length (fi_sign_key img) = siglen_map ! unat (fi_sign_algorithm img) * 8 + 8"
    "fi_header_checksum img = fips_digest 2 (header_bytes img)"
    "length (fi_key_signature img) = 1024" "length (fi_preamble img) = 8"
    "length (fi_preamble_signature img) = siglen_map ! unat (fi_sign_algorithm img) * 4"
    "length (fi_firmware_signature img) = siglen_map ! unat (fi_sign_algorithm img) * 4"
    "unat (fi_firmware_len img) = length (fi_firmware_data img)" "length (fi_firmware_data img) < 2 ^ 29"
  using assms by (simp_all add: image_ok_def Let_def)

lemma sint_firmware_len:
  assumes "image_ok img"
  shows "sint (fi_firmware_len img) = int (length (fi_firmware_data img))"
proof -
  have "uint (fi_firmware_len img) = int (length (fi_firmware_data img))" using image_okD(10)[OF assms] by (metis uint_int_unat)
  moreover have "uint (fi_firmware_len img) < 2 ^ 31" using calculation image_okD(11)[OF assms] by simp
  ultimately show ?thesis by (simp add: sint_uint signed_take_bit_int_eq_self)
qed

text \<open>The file that is written.\<close>

lemma WriteFirmwareImage_eq:
  assumes "image_ok img"
  shows "WriteFirmwareImage (\<lambda>b. b) True (Some img) =
    Some (Some (FIRMWARE_MAGIC @ header_bytes img @ fi_header_checksum img @ fi_key_signature img @ preamble_bytes img @
      fi_preamble_signature img @ fi_firmware_signature img @ fi_firmware_data img))"
proof -
  have "uint (fi_header_len img) = int (siglen_map ! unat (fi_sign_algorithm img)) * 8 + 78"
    using image_okD(3)[OF assms] by (metis of_nat_add of_nat_mult of_nat_numeral uint_int_unat)
  moreover have "nat (8 + int x * 8) = x * 8 + 8" for x by linarith
  ultimately show ?thesis using image_okD[OF assms]
    by (simp add: WriteFirmwareImage_def WriteFirmwareHeader_def WriteFirmwarePreamble_def lengths_12 header_bytes_def preamble_bytes_def)
qed

lemma RSAVerifyBinary_f_key_eq:
  assumes "alg < 12" "0 \<le> len" "nat len \<le> length buf" "nat len < 2 ^ 29"
  shows "RSAVerifyBinary_f mem None (Some k) buf len sig alg =
    RSA_verify k sig (siglen_map ! alg * 4) alg (fips_digest alg (take (nat len) buf))"
  using assms DigestBuf_fips[of alg "take (nat len) buf" mem]
  by (simp add: RSAVerifyBinary_f_def RSAProcessedKeySize_def lengths_12)

lemma RSAVerifyBinary_f_blob_eq:
  assumes "alg < 12" "0 \<le> len" "nat len \<le> length buf" "nat len < 2 ^ 29" "RSAPublicKeyFromBuf b (int (siglen_map ! alg * 8 + 8)) = Some key"
  shows "RSAVerifyBinary_f mem (Some b) None buf len sig alg =
    key \<bind> (\<lambda>k. RSA_verify k sig (siglen_map ! alg * 4) alg (fips_digest alg (take (nat len) buf)))"
  using assms DigestBuf_fips[of alg "take (nat len) buf" mem]
  by (simp add: RSAVerifyBinary_f_def RSAProcessedKeySize_12 lengths_12)

lemma RSA_verify_append: "length sig = n \<Longrightarrow> RSA_verify key (sig @ ys) n t h = RSA_verify key sig n t h"
  using RSA_verify_take[of n "sig @ ys" key t h] by simp

lemma VerifyFirmware_written:
  assumes "image_ok img" "RSAPublicKeyFromBuf (fi_sign_key img) (int (length (fi_sign_key img))) = Some (Some key)"
    "RSAPublicKeyFromBuf b 2056 = Some root"
    "file = FIRMWARE_MAGIC @ header_bytes img @ fi_header_checksum img @ fi_key_signature img @ preamble_bytes img @
      fi_preamble_signature img @ fi_firmware_signature img @ fi_firmware_data img"
  shows "VerifyFirmware mem (Some b) file dev =
    verify_chain dev root key (unat (fi_sign_algorithm img)) (header_bytes img @ fi_header_checksum img) (fi_key_signature img)
      (preamble_bytes img) (fi_preamble_signature img) (fi_firmware_data img) (fi_firmware_signature img)"
proof -
  note ok = image_okD[OF assms(1)]
  let ?alg = "unat (fi_sign_algorithm img)" and ?n = "siglen_map ! unat (fi_sign_algorithm img)"
  have m: "length FIRMWARE_MAGIC = 8" by (simp add: FIRMWARE_MAGIC_def)
  have lh: "length (header_bytes img) = ?n * 8 + 14" "length (preamble_bytes img) = 14" "length (fi_header_checksum img) = 64"
    using ok by (simp_all add: header_bytes_def preamble_bytes_def length_fips_digest_2)
  define h where "h = drop 8 file"
  have h: "h = header_bytes img @ fi_header_checksum img @ fi_key_signature img @ preamble_bytes img @
      fi_preamble_signature img @ fi_firmware_signature img @ fi_firmware_data img" by (simp add: h_def assms(4) m)
  have lim: "?n * 8 + 78 < 2 ^ 29" using siglen_map_bounds[OF ok(1)] by simp
  have le: "le16 h = fi_header_len img" "le16 (drop 2 h) = fi_sign_algorithm img"
    by (simp_all add: h header_bytes_def le16_append)
  have d: "DigestBuf mem (take (?n * 8 + 14) h) 2 = Some (fi_header_checksum img)"
    using lim DigestBuf_fips[of 2 "take (?n * 8 + 14) h" mem] lh(1) ok(5) by (simp add: h)
  have u: "uint (fi_header_len img) = 70 + int (?n * 8 + 8)" using ok(3) uint_int_unat[of "fi_header_len img"] by simp
  have n: "nat (6 + int (?n * 8 + 8)) = ?n * 8 + 14" by linarith
  have s: "SafeMemcmp (fi_header_checksum img) (drop (?n * 8 + 14) h) 64 = Some 0"
    using lh by (simp add: SafeMemcmp_0 h)
  have r: "RSAVerifyBinary_f mem (Some b) None h (int (?n * 8 + 78)) (drop (?n * 8 + 78) h) 11 =
      root \<bind> (\<lambda>k. RSA_verify k (fi_key_signature img) 1024 11 (fips_digest 11 (header_bytes img @ fi_header_checksum img)))"
    using RSAVerifyBinary_f_blob_eq[of 11 "int (?n * 8 + 78)" h b root mem "drop (?n * 8 + 78) h"] lim lh ok(6) assms(3)
    by (simp add: h siglen_map_def RSA_verify_append del: of_nat_add of_nat_mult)
  have lens: "4 \<le> length h" "?n * 8 + 14 \<le> length h" using lh by (simp_all add: h)
  have hdr: "VerifyFirmwareHeader mem (Some b) h dev =
      (if dev then Some True else root \<bind> (\<lambda>k. RSA_verify k (fi_key_signature img) 1024 11 (fips_digest 11 (header_bytes img @ fi_header_checksum img)))) \<bind>
      (\<lambda>ok. if \<not> ok then Some (2, Some ?alg, Some (?n * 8 + 78)) else Some (0, Some ?alg, Some (?n * 8 + 78)))"
    using ok(1,3) lens by (simp add: VerifyFirmwareHeader_def le lengths_12 RSAProcessedKeySize_12 u n d[unfolded add.commute[of _ 14]] s r Let_def del: of_nat_add of_nat_mult)
  have magic: "SafeMemcmp file FIRMWARE_MAGIC 8 = Some 0" by (simp add: SafeMemcmp_0 assms(4) m)
  have k: "RSAPublicKeyFromBuf (drop 4 h) (int (?n * 8 + 8)) = Some (Some key)"
    using RSAPublicKeyFromBuf_take[of "int (?n * 8 + 8)" "drop 4 h"] assms(2) ok(4) by (simp add: h header_bytes_def)
  have p: "drop (?n * 8 + 78 + 1024) h = preamble_bytes img @ fi_preamble_signature img @ fi_firmware_signature img @ fi_firmware_data img"
    using lh ok(6) by (simp add: h)
  have fl: "sint (le32 (drop 2 (preamble_bytes img @ xs))) = int (length (fi_firmware_data img))" for xs
    using sint_firmware_len[OF assms(1)] by (simp add: preamble_bytes_def le32_append)
  have P: "VerifyFirmwarePreamble mem (Some key) (preamble_bytes img @ fi_preamble_signature img @ xs) ?alg =
      RSA_verify key (fi_preamble_signature img) (?n * 4) ?alg (fips_digest ?alg (preamble_bytes img)) \<bind>
      (\<lambda>ok. if \<not> ok then Some (4, None) else Some (0, Some (int (length (fi_firmware_data img)))))" for xs
    using RSAVerifyBinary_f_key_eq[of ?alg 14 "preamble_bytes img @ fi_preamble_signature img @ xs" mem key] ok(1,8) lh
    unfolding VerifyFirmwarePreamble_def Let_def fl by (simp add: RSA_verify_append)
  have D: "VerifyFirmwareData mem (Some key) (fi_firmware_signature img @ fi_firmware_data img) (int (length (fi_firmware_data img))) ?alg =
      RSA_verify key (fi_firmware_signature img) (?n * 4) ?alg (fips_digest ?alg (fi_firmware_data img)) \<bind>
      (\<lambda>ok. if \<not> ok then Some 5 else Some 0)"
    using RSAVerifyBinary_f_key_eq[of ?alg "int (length (fi_firmware_data img))" "fi_firmware_data img" mem key] ok(1,9,11) lh
    by (simp add: VerifyFirmwareData_def RSA_verify_append lengths_12 cong: bind_option_cong)
  have f: "drop (14 + ?n * 4) (preamble_bytes img @ fi_preamble_signature img @ fi_firmware_signature img @ fi_firmware_data img) =
      fi_firmware_signature img @ fi_firmware_data img" using lh ok(8) by simp
  define R where "R = (if dev then Some True
    else root \<bind> (\<lambda>k. RSA_verify k (fi_key_signature img) 1024 11 (fips_digest 11 (header_bytes img @ fi_header_checksum img))))"
  define A where "A = RSA_verify key (fi_preamble_signature img) (?n * 4) ?alg (fips_digest ?alg (preamble_bytes img))"
  define B where "B = RSA_verify key (fi_firmware_signature img) (?n * 4) ?alg (fips_digest ?alg (fi_firmware_data img))"
  have "VerifyFirmware mem (Some b) file dev =
      R \<bind> (\<lambda>ok. if \<not> ok then Some 2 else A \<bind> (\<lambda>ok. if \<not> ok then Some 4 else B \<bind> (\<lambda>ok. if \<not> ok then Some 5 else Some 0)))"
    using k p f unfolding VerifyFirmware_def magic
    by (cases R; cases A; cases B)
      (simp_all add: RSAProcessedKeySize_12[OF ok(1)] ok(1) lengths_12 P[folded A_def] D[folded B_def] hdr[folded R_def] Let_def flip: h_def del: of_nat_add of_nat_mult drop_append drop_drop)
  then show ?thesis unfolding verify_chain_def R_def A_def B_def .
qed

lemma VerifyFirmwareImage_chain:
  assumes "image_ok img" "RSAPublicKeyFromBuf (fi_sign_key img) (int (length (fi_sign_key img))) = Some (Some key)"
  shows "VerifyFirmwareImage mem root (Some img) dev =
    verify_chain dev root key (unat (fi_sign_algorithm img)) (header_bytes img @ fi_header_checksum img) (fi_key_signature img)
      (preamble_bytes img) (fi_preamble_signature img) (fi_firmware_data img) (fi_firmware_signature img)"
proof -
  note ok = image_okD[OF assms(1)]
  let ?alg = "unat (fi_sign_algorithm img)" and ?n = "siglen_map ! unat (fi_sign_algorithm img)"
  let ?h = "[bytes16 (fi_header_len img), bytes16 (fi_sign_algorithm img), fi_sign_key img, bytes16 (fi_key_version img), fi_header_checksum img]"
  let ?p = "[bytes16 (fi_firmware_version img), bytes32 (fi_firmware_len img), fi_preamble img]"
  have c: "concat ?h = header_bytes img @ fi_header_checksum img" "concat ?p = preamble_bytes img"
    by (simp_all add: header_bytes_def preamble_bytes_def)
  have "length (concat ?h) < 2 ^ 29" "length (concat ?p) < 2 ^ 29"
    using ok(4,5,7) siglen_map_bounds[OF ok(1)] by (simp_all add: length_fips_digest_2)
  then obtain hc pc where d: "DigestInit mem 11 = Some hc" "DigestFinal (fold DigestUpdate ?h hc) = Some (fips_digest 11 (concat ?h))"
      "DigestInit mem ?alg = Some pc" "DigestFinal (fold DigestUpdate ?p pc) = Some (fips_digest ?alg (concat ?p))"
    using Digest_pieces[of 11 ?h mem] Digest_pieces[of ?alg ?p mem] ok(1) by auto
  have b: "DigestBuf mem (fi_firmware_data img) ?alg = Some (fips_digest ?alg (fi_firmware_data img))"
    using ok(1,11) by (rule DigestBuf_fips)
  have k: "RSAPublicKeyFromBuf (fi_sign_key img) (int (?n * 8 + 8)) = Some (Some key)" using assms(2) ok(4) by simp
  have "nat (int (?n * 8 + 8)) = ?n * 8 + 8" by (rule nat_int)
  then show ?thesis
    using d ok(1,4) b k sint_firmware_len[OF assms(1)] unfolding VerifyFirmwareImage_def verify_chain_def c
    by (simp add: RSAProcessedKeySize_12[OF ok(1)] lengths_12 Let_def cong: if_cong del: of_nat_add of_nat_mult)
qed

text \<open>
  C7: the two verifiers agree. For an image that is consistent in itself (header length, header digest and the lengths of its
  parts are right, less than \<open>2 ^ 29\<close> bytes of data) with a signing key that can be read, \<open>WriteFirmwareImage\<close> writes a file on
  which \<open>VerifyFirmware\<close> gives the code that \<open>VerifyFirmwareImage\<close> gives on the image, in both modes and whichever of the
  signatures are good: it is that of the first link of the chain that fails.
\<close>

theorem VerifyFirmware_Image_agree:
  assumes "image_ok img" "RSAPublicKeyFromBuf (fi_sign_key img) (int (length (fi_sign_key img))) = Some (Some key)"
    "RSAPublicKeyFromBuf root_blob 2056 = Some root_key"
  shows "\<exists>file. WriteFirmwareImage (\<lambda>b. b) True (Some img) = Some (Some file) \<and>
    VerifyFirmware mem (Some root_blob) file dev = VerifyFirmwareImage mem root_key (Some img) dev \<and>
    VerifyFirmwareImage mem root_key (Some img) dev =
      verify_chain dev root_key key (unat (fi_sign_algorithm img)) (header_bytes img @ fi_header_checksum img) (fi_key_signature img)
        (preamble_bytes img) (fi_preamble_signature img) (fi_firmware_data img) (fi_firmware_signature img)"
  using WriteFirmwareImage_eq[OF assms(1)] VerifyFirmware_written[OF assms refl] VerifyFirmwareImage_chain[OF assms(1,2)] by simp

definition demo_image :: FirmwareImage where
  "demo_image =
     (let key = [32, 0, 0, 0] @ replicate 260 1; hdr = bytes16 334 @ bytes16 0 @ key @ bytes16 1
      in \<lparr>fi_magic = FIRMWARE_MAGIC, fi_header_len = 334, fi_sign_algorithm = 0, fi_sign_key = key, fi_key_version = 1,
          fi_header_checksum = fips_digest 2 hdr, fi_key_signature = replicate 1024 0, fi_firmware_version = 1,
          fi_firmware_len = 3, fi_preamble = replicate 8 80, fi_preamble_signature = replicate 128 0,
          fi_firmware_signature = replicate 128 0, fi_firmware_data = [70, 70, 70]\<rparr>)"

theorem VerifyFirmware_Image_agree_witness:
  "\<exists>file. WriteFirmwareImage (\<lambda>b. b) True (Some demo_image) = Some (Some file) \<and>
     VerifyFirmware (\<lambda>_. 0) (Some (replicate 2056 0)) file True = VerifyFirmwareImage (\<lambda>_. 0) None (Some demo_image) True"
proof -
  have i: "image_ok demo_image" by (simp add: image_ok_def demo_image_def siglen_map_def header_bytes_def Let_def)
  have "\<exists>key. RSAPublicKeyFromBuf (fi_sign_key demo_image) (int (length (fi_sign_key demo_image))) = Some (Some key)"
    by (simp add: RSAPublicKeyFromBuf_eq demo_image_def le32_def Let_def)
  moreover have "RSAPublicKeyFromBuf (replicate 2056 0) 2056 = Some None"
    by (simp add: RSAPublicKeyFromBuf_eq le32_def Let_def)
  ultimately show ?thesis using VerifyFirmware_Image_agree[OF i] by blast
qed

section \<open>Reading a file that was written\<close>

text \<open>A regular file that can be read as a whole.\<close>

definition plain_file :: "byte list \<Rightarrow> opened_file" where
  "plain_file bs = \<lparr>st_size = Some (int (length bs)), file_read = (\<lambda>n. Some (take n bs))\<rparr>"

lemma plain_file_simps [simp]:
  "st_size (plain_file bs) = Some (int (length bs))" "file_read (plain_file bs) n = Some (take n bs)"
  by (simp_all add: plain_file_def)

lemma sint_of_int_32: "0 \<le> x \<Longrightarrow> x < 2 ^ 31 \<Longrightarrow> sint (of_int x :: 32 word) = x"
  by (simp add: sint_uint uint_word_of_int take_bit_int_eq_self signed_take_bit_int_eq_self)

text \<open>
  C36: \<open>ReadFirmwareImage\<close> rejects the files of \<open>WriteFirmwareImage\<close>. It expects a header length without the length of the
  signing key, so that it returns \<open>NULL\<close> for every file that is written from an image consistent in itself, although
  \<open>VerifyFirmware\<close> requires the length with the key.
\<close>

theorem ReadFirmwareImage_rejects_written:
  assumes "image_ok img"
  shows "\<exists>file read. WriteFirmwareImage (\<lambda>b. b) True (Some img) = Some (Some file) \<and>
    ReadFirmwareImage mem (Some (plain_file file)) (Some old) = Some (False, Some read)"
proof -
  note ok = image_okD[OF assms]
  let ?n = "siglen_map ! unat (fi_sign_algorithm img)"
  define tail where "tail = fi_sign_key img @ bytes16 (fi_key_version img) @ fi_header_checksum img @ fi_key_signature img @ preamble_bytes img @
      fi_preamble_signature img @ fi_firmware_signature img @ fi_firmware_data img"
  define written where "written = FIRMWARE_MAGIC @ bytes16 (fi_header_len img) @ bytes16 (fi_sign_algorithm img) @ tail"
  have m: "length FIRMWARE_MAGIC = 8" by (simp add: FIRMWARE_MAGIC_def)
  have "length written < 2 ^ 30"
    using ok siglen_map_bounds[OF ok(1)] by (simp add: written_def tail_def m preamble_bytes_def length_fips_digest_2)
  then have s: "sint (of_int (int (length written)) :: 32 word) = int (length written)" by (intro sint_of_int_32) simp_all
  have l: "length written = 12 + length tail" by (simp add: written_def m)
  have d: "take 8 written = FIRMWARE_MAGIC" "take 2 (drop 8 written) = bytes16 (fi_header_len img)" "take 2 (drop 10 written) = bytes16 (fi_sign_algorithm img)"
    by (simp_all add: written_def m)
  have c: "SafeMemcmp FIRMWARE_MAGIC FIRMWARE_MAGIC 8 = Some 0" by (simp add: SafeMemcmp_0 m)
  have u: "uint (fi_header_len img) \<noteq> 70" using ok(3) uint_int_unat[of "fi_header_len img"] siglen_map_bounds[OF ok(1)] by simp
  have "WriteFirmwareImage (\<lambda>b. b) True (Some img) = Some (Some written)"
    using WriteFirmwareImage_eq[OF assms] by (simp add: written_def tail_def header_bytes_def)
  moreover have "\<exists>read. ReadFirmwareImage mem (Some (plain_file written)) (Some old) = Some (False, Some read)"
    using ok(1) s l d c u
    by (simp add: ReadFirmwareImage_def StatefulMemcpy_def copy_into_def lengths_12 Let_def)
  ultimately show ?thesis by blast
qed

theorem ReadFirmwareImage_rejects_written_witness:
  "\<exists>file read. WriteFirmwareImage (\<lambda>b. b) True (Some demo_image) = Some (Some file) \<and>
     ReadFirmwareImage (\<lambda>_. 0) (Some (plain_file file)) (Some demo_image) = Some (False, Some read)"
  by (rule ReadFirmwareImage_rejects_written) (simp add: image_ok_def demo_image_def siglen_map_def header_bytes_def Let_def)

section \<open>What is signed\<close>

lemma length_fips_digest: "alg < 12 \<Longrightarrow> length (fips_digest alg m) = hash_size_map ! alg"
proof -
  assume "alg < 12"
  moreover have "length (fold (\<lambda>b H. fips1_compress H b) bs h) = 5" if "length h = 5" for bs h
    using that by (induction bs arbitrary: h) simp_all
  then have "length (fips_sha1 m) = 20" by (simp add: fips_sha1_def length_UNPACKs)
  moreover have "a_unpack sha256 = UNPACK32" "length (sha_h0 sha256) = 8" by (simp_all add: sha256_def sha256_h0_def)
  then have "length (fips_sha2 sha256 m) = 32" by (simp add: fips_sha2_def length_UNPACKs length_fips_fold)
  moreover have "length (fips_sha2 sha512 m) = 64" using length_fips_digest_2[of m] by (simp add: fips_digest_def)
  ultimately show ?thesis using less_12_cases[of alg] by (auto simp: fips_digest_def hash_size_map_def)
qed

lemma DigestFile_fips:
  assumes "alg < 12" "length m < 2 ^ 29"
  shows "DigestFile mem read_64 (Some m) alg = Some (Some (fips_digest alg m))"
proof -
  obtain ctx where c: "DigestInit mem alg = Some ctx" using Digest_pieces[of alg "[m]" mem] assms by auto
  obtain ds where d: "concat ds = m" "digest_file_loop read_64 ctx m = Some (fold DigestUpdate ds ctx, [])"
    using digest_file_loop_eq[of m ctx] by blast
  have "DigestFinal (fold DigestUpdate ds ctx) = Some (fips_digest alg m)"
    using Digest_pieces[of alg ds mem] assms c d(1) by auto
  then show ?thesis using c d(2) by (simp add: DigestFile_def)
qed

text \<open>
  the program \<open>signature_digest\<close> writes what \<open>RSA_verify\<close> expects behind the padding of PKCS1: the bytes \<open>00 01\<close>, \<open>ff\<close> up to the
  length of the signature, \<open>00\<close> and the output are the padding of the algorithm and the digest of the file.
\<close>

theorem signature_digest_pkcs1:
  assumes "0 \<le> algorithm" "algorithm < 12" "length m < 2 ^ 29"
  shows "\<exists>out. signature_digest_main mem read_64 algorithm (Some m) = Some out \<and>
    [0x00, 0x01] @ replicate (siglen_map ! nat algorithm * 4 - 3 - length out) 0xff @ [0x00] @ out =
      padding_map ! nat algorithm @ fips_digest (nat algorithm) m"
proof -
  define alg d where "alg = nat algorithm" and "d = fips_digest (nat algorithm) m"
  have a: "alg < 12" "int alg = algorithm" using assms by (simp_all add: alg_def)
  have l: "length d = hash_size_map ! alg" using length_fips_digest[OF a(1)] by (simp add: d_def alg_def)
  have "signature_digest_main mem read_64 algorithm (Some m) = Some (hash_digestinfo_map ! alg @ d)"
    using DigestFile_fips[OF a(1) assms(3), of mem] l less_12_cases[OF a(1)] assms(1,2)
    by (auto simp: signature_digest_main_def lengths_12 PrependDigestInfo_def hash_size_map_def digestinfo_size_map_def hash_digestinfo_map_def
        SHA1_digestinfo_def SHA256_digestinfo_def SHA512_digestinfo_def alg_def d_def)
  moreover have "[0x00, 0x01] @ replicate (siglen_map ! alg * 4 - 3 - length (hash_digestinfo_map ! alg @ d)) 0xff @ [0x00] @ hash_digestinfo_map ! alg =
      padding_map ! alg"
    using less_12_cases[OF a(1)] l
    by (auto simp: siglen_map_def hash_digestinfo_map_def hash_size_map_def padding_map_def padding_def
        SHA1_digestinfo_def SHA256_digestinfo_def SHA512_digestinfo_def)
  ultimately show ?thesis by (auto simp: alg_def d_def)
qed

theorem signature_digest_pkcs1_witness:
  "\<exists>out. signature_digest_main (\<lambda>_. 0) read_64 4 (Some [1, 2, 3]) = Some out \<and>
     [0x00, 0x01] @ replicate (siglen_map ! nat 4 * 4 - 3 - length out) 0xff @ [0x00] @ out = padding_map ! nat 4 @ fips_digest (nat 4) [1, 2, 3]"
  by (rule signature_digest_pkcs1) simp_all

end
