(* ===== verification/VB_Keys.thy ===== *)
theory VB_Keys
  imports VB_Firmware_Props
begin

text \<open>
  The tool that makes the keys (\<open>vboot_reference/utils/dumpRSAPublicKey.c\<close>). OpenSSL is a parameter: the record of the functions on
  numbers that the tool calls, and the modulus and exponent that it finds in the certificate. \<open>wr\<close> is \<open>write\<close> as in \<open>VB_Firmware\<close>.

  The theorem connects the tool with the code that uses the keys: \<open>RSAPublicKeyFromBuf\<close> reads the output back as a key for which
  the Montgomery arithmetic of \<open>rsa.c\<close> is correct.
\<close>

record bn_lib =
  BN_num_bits :: "int \<Rightarrow> int"
  BN_get_word :: "int \<Rightarrow> int"
  BN_sub :: "int \<Rightarrow> int \<Rightarrow> int"
  BN_mul :: "int \<Rightarrow> int \<Rightarrow> int"
  BN_exp :: "int \<Rightarrow> int \<Rightarrow> int"
  BN_mod :: "int \<Rightarrow> int \<Rightarrow> int"
  BN_rshift :: "int \<Rightarrow> int \<Rightarrow> int"
  BN_mod_inverse :: "int \<Rightarrow> int \<Rightarrow> int"

record RSA =
  rsa_n :: int
  rsa_e :: int

text \<open>The exponent is only compared for a warning.\<close>

definition check :: "bn_lib \<Rightarrow> RSA \<Rightarrow> bool" where
  "check bn key =
     (let modulus = BN_num_bits bn (rsa_n key)
      in \<not> (modulus \<noteq> 1024 \<and> modulus \<noteq> 2048 \<and> modulus \<noteq> 4096 \<and> modulus \<noteq> 8192))"

text \<open>A loop that writes a number in words of 32 bits, the lowest first.\<close>

fun output_loop :: "bn_lib \<Rightarrow> (byte list \<Rightarrow> byte list) \<Rightarrow> int \<Rightarrow> nat \<Rightarrow> int \<Rightarrow> byte list" where
  "output_loop bn wr B 0 N = []"
| "output_loop bn wr B (Suc k) N =
     wr (bytes32 (of_int (BN_get_word bn (BN_mod bn N B)))) @ output_loop bn wr B k (BN_rshift bn N 32)"

definition output_key :: "bn_lib \<Rightarrow> (byte list \<Rightarrow> byte list) \<Rightarrow> RSA \<Rightarrow> byte list" where
  "output_key bn wr key =
     (let N = rsa_n key;
          nwords = BN_num_bits bn N div 32;
          B = BN_exp bn 2 32;
          N0inv = BN_sub bn B (BN_mod_inverse bn N B);
          R = BN_exp bn 2 (BN_num_bits bn N);
          RR = BN_mod bn (BN_mul bn R R) N
      in wr (bytes32 (of_int nwords)) @ wr (bytes32 (of_int (BN_get_word bn N0inv))) @
         output_loop bn wr B (nat nwords) N @ output_loop bn wr B (nat nwords) RR)"

text \<open>What the program writes, given the key of the certificate if it has one.\<close>

definition dump_main :: "bn_lib \<Rightarrow> (byte list \<Rightarrow> byte list) \<Rightarrow> RSA option \<Rightarrow> byte list" where
  "dump_main bn wr pubkey =
     (case pubkey of None \<Rightarrow> [] | Some key \<Rightarrow> if check bn key then output_key bn wr key else [])"

section \<open>The documented behaviour of OpenSSL\<close>

definition bn_ok :: "bn_lib \<Rightarrow> bool" where
  "bn_ok bn \<longleftrightarrow>
     (\<forall>a. 0 < a \<longrightarrow> 0 < BN_num_bits bn a \<and> 2 ^ nat (BN_num_bits bn a - 1) \<le> a \<and> a < 2 ^ nat (BN_num_bits bn a)) \<and>
     (\<forall>a. 0 \<le> a \<and> a < 2 ^ 32 \<longrightarrow> BN_get_word bn a = a) \<and>
     (\<forall>a b. BN_sub bn a b = a - b) \<and> (\<forall>a b. BN_mul bn a b = a * b) \<and> (\<forall>a b. 0 \<le> b \<longrightarrow> BN_exp bn a b = a ^ nat b) \<and>
     (\<forall>a b. 0 \<le> a \<and> 0 < b \<longrightarrow> BN_mod bn a b = a mod b) \<and> (\<forall>a k. 0 \<le> a \<and> 0 \<le> k \<longrightarrow> BN_rshift bn a k = a div 2 ^ nat k) \<and>
     (\<forall>a n. 0 < n \<and> coprime a n \<longrightarrow> 0 \<le> BN_mod_inverse bn a n \<and> BN_mod_inverse bn a n < n \<and> (a * BN_mod_inverse bn a n) mod n = 1 mod n)"

lemma bn_okD:
  assumes "bn_ok bn"
  shows "0 < a \<Longrightarrow> 0 < BN_num_bits bn a" "0 < a \<Longrightarrow> 2 ^ nat (BN_num_bits bn a - 1) \<le> a" "0 < a \<Longrightarrow> a < 2 ^ nat (BN_num_bits bn a)"
    "0 \<le> a \<Longrightarrow> a < 2 ^ 32 \<Longrightarrow> BN_get_word bn a = a" "BN_sub bn a b = a - b" "BN_mul bn a b = a * b"
    "0 \<le> b \<Longrightarrow> BN_exp bn a b = a ^ nat b" "0 \<le> a \<Longrightarrow> 0 < b \<Longrightarrow> BN_mod bn a b = a mod b"
    "0 \<le> a \<Longrightarrow> 0 \<le> k \<Longrightarrow> BN_rshift bn a k = a div 2 ^ nat k"
    "0 < n \<Longrightarrow> coprime a n \<Longrightarrow> 0 \<le> BN_mod_inverse bn a n" "0 < n \<Longrightarrow> coprime a n \<Longrightarrow> BN_mod_inverse bn a n < n"
    "0 < n \<Longrightarrow> coprime a n \<Longrightarrow> (a * BN_mod_inverse bn a n) mod n = 1 mod n"
  using assms by (simp_all add: bn_ok_def)

section \<open>The key that is written\<close>

text \<open>The words of a number, the lowest first.\<close>

fun words_of :: "nat \<Rightarrow> int \<Rightarrow> 32 word list" where
  "words_of 0 N = []"
| "words_of (Suc k) N = of_int N # words_of k (N div 2 ^ 32)"

lemma length_words_of [simp]: "length (words_of k N) = k"
  by (induction k arbitrary: N) simp_all

lemma num_of_words_of: "num_of (words_of k N) = N mod W ^ k"
proof (induction k arbitrary: N)
  case (Suc k)
  have "N mod (W * W ^ k) = W * (N div W mod W ^ k) + N mod W" by (rule zmod_zmult2_eq) (simp add: W_def)
  moreover have "uint (of_int N :: 32 word) = N mod W" by (simp add: W_def uint_word_of_int)
  ultimately show ?case using Suc[of "N div 2 ^ 32"] by (simp add: W_def)
qed simp

lemma of_int_mod_32: "of_int (N mod 2 ^ 32) = (of_int N :: 32 word)"
  unfolding take_bit_eq_mod[symmetric] by (rule bit_word_eqI) (simp add: bit_simps)

lemma output_loop_words:
  assumes "bn_ok bn" "0 \<le> N"
  shows "output_loop bn (\<lambda>b. b) (2 ^ 32) k N = concat (map bytes32 (words_of k N))"
  using assms(2)
proof (induction k arbitrary: N)
  case (Suc k)
  then show ?case using bn_okD(4,8,9)[OF assms(1)] of_int_mod_32[of N] by simp
qed simp

lemma le32s_words: "le32s (length ws) (concat (map bytes32 ws) @ ys) = ws"
proof (induction ws)
  case (Cons w ws)
  have "le32s (Suc k) s = le32 s # le32s k (drop 4 s)" for k s
    by (simp add: le32s_def upt_conv_Cons map_Suc_upt[symmetric] add.commute[of 4] del: upt_Suc map_Suc_upt)
  with Cons show ?case by (simp add: le32_append)
qed (simp add: le32s_def)

lemma length_concat_bytes32 [simp]: "length (concat (map bytes32 ws)) = 4 * length ws"
  by (induction ws) simp_all

lemma W_power: "W ^ k = 2 ^ (32 * k)"
  by (simp add: W_def power_mult)

lemma key_bits_dvd: "check bn key \<Longrightarrow> BN_num_bits bn (rsa_n key) = 32 * (BN_num_bits bn (rsa_n key) div 32) \<and>
    BN_num_bits bn (rsa_n key) div 32 \<in> {32, 64, 128, 256}"
  by (auto simp: check_def Let_def)

lemma dump_key_lemma:
  assumes "bn_ok bn" "check bn key" "0 < rsa_n key" "odd (rsa_n key)"
  defines "k \<equiv> BN_num_bits bn (rsa_n key) div 32"
  shows "length (output_key bn (\<lambda>b. b) key) = nat (8 * k + 8)"
    "\<exists>pk. RSAPublicKeyFromBuf (output_key bn (\<lambda>b. b) key) (8 * k + 8) = Some (Some pk) \<and> key_ok pk \<and> rk_len pk = k \<and>
      num_of (rk_n pk) = rsa_n key"
proof -
  let ?N = "rsa_n key"
  note bn = bn_okD[OF assms(1)]
  have K: "BN_num_bits bn ?N = 32 * k" "k \<in> {32, 64, 128, 256}" using key_bits_dvd[OF assms(2)] by (simp_all add: k_def)
  define m where "m = nat k"
  have m: "k = int m" "0 < m" "m \<le> 256" using K(2) by (auto simp: m_def)
  have R: "(2::int) ^ nat (32 * k) = W ^ m" using m by (simp add: W_power nat_mult_distrib)
  define inv where "inv = BN_mod_inverse bn ?N (2 ^ 32)"
  have inv_eq: "BN_mod_inverse bn ?N 4294967296 = inv" by (simp add: inv_def)
  have "coprime ?N (2 ^ 32)" using assms(4) by (simp only: coprime_power_right_iff coprime_right_2_iff_odd) simp
  then have inv: "0 \<le> inv" "inv < 2 ^ 32" "?N * inv mod 2 ^ 32 = 1" using bn(10-12)[of "2 ^ 32" ?N] by (simp_all add: inv_def)
  then have "0 < inv" by (cases "inv = 0") auto
  define rr where "rr = (W ^ m * W ^ m) mod ?N"
  have rr: "0 \<le> rr" "rr < ?N" using assms(3) by (simp_all add: rr_def)
  define bs where "bs = concat (map bytes32 (words_of m ?N))"
  define rs where "rs = concat (map bytes32 (words_of m rr))"
  define n0 :: "32 word" where "n0 = of_int (2 ^ 32 - inv)"
  have out: "output_key bn (\<lambda>b. b) key = bytes32 (of_int k) @ bytes32 n0 @ bs @ rs"
    unfolding output_key_def Let_def
    using K(1) R m inv \<open>0 < inv\<close> assms(3) rr(1) bn(4)[of "2 ^ 32 - inv"] bn(5,6) bn(7)[of 32 2] bn(7)[of "32 * k" 2] bn(8)[of "W ^ m * W ^ m" ?N]
      output_loop_words[OF assms(1), of ?N m] output_loop_words[OF assms(1) rr(1), of m]
    by (simp add: n0_def bs_def rs_def inv_eq flip: rr_def)
  show "length (output_key bn (\<lambda>b. b) key) = nat (8 * k + 8)" unfolding out using m by (simp add: bs_def rs_def nat_add_distrib nat_mult_distrib)
  define pk where "pk = \<lparr>rk_len = k, rk_n0inv = n0, rk_n = words_of m ?N, rk_rr = words_of m rr\<rparr>"
  have "RSAPublicKeyFromBuf (output_key bn (\<lambda>b. b) key) (8 * k + 8) = Some (Some pk)"
  proof -
    have w: "sint (of_int k :: 32 word) = k" "sint (of_int (k * 4) :: 32 word) = k * 4"
      using m by (intro sint_of_int_32; simp)+
    have l: "length bs = 4 * m" "length rs = 4 * m" by (simp_all add: bs_def rs_def)
    have "nat (k * 4) = 4 * m" using m by simp
    moreover have "le32s m bs = words_of m ?N" "le32s m rs = words_of m rr"
      using le32s_words[of "words_of m ?N" "[]"] le32s_words[of "words_of m rr" "[]"] by (simp_all add: bs_def rs_def)
    ultimately show ?thesis
      using m l w unfolding out pk_def by (subst RSAPublicKeyFromBuf_eq) (simp_all add: Let_def)
  qed
  moreover have N: "num_of (words_of m ?N) = ?N" "num_of (words_of m rr) = rr"
    using bn(3)[OF assms(3)] K(1) R assms(3) rr by (simp_all add: num_of_words_of)
  moreover have "key_ok pk"
  proof -
    have "(of_int (?N * inv) :: 32 word) = 1" using of_int_mod_32[of "?N * inv"] inv(3) by simp
    moreover have "(of_int (2 ^ 32) :: 32 word) = 0" using of_int_mod_32[of "2 ^ 32"] by (simp only: mod_self of_int_0)
    then have "n0 = - of_int inv" unfolding n0_def of_int_diff by simp
    ultimately have "n0 * of_int ?N = - 1" by (simp add: mult.commute)
    moreover have "hd (words_of m ?N) = of_int ?N" using m(2) by (cases m) simp_all
    ultimately have "n0 * hd (words_of m ?N) = - 1" by simp
    moreover have "W ^ m \<le> 2 * ?N"
    proof -
      have "nat (32 * k) = Suc (nat (32 * k - 1))" using m by linarith
      then have "W ^ m = 2 * 2 ^ nat (32 * k - 1)" unfolding R[symmetric] by simp
      then show ?thesis using bn(2)[OF assms(3)] K(1) by simp
    qed
    ultimately show ?thesis using m N by (simp add: key_ok_def pk_def R_of_def rr_def power2_eq_square)
  qed
  ultimately show "\<exists>pk. RSAPublicKeyFromBuf (output_key bn (\<lambda>b. b) key) (8 * k + 8) = Some (Some pk) \<and> key_ok pk \<and> rk_len pk = k \<and>
      num_of (rk_n pk) = rsa_n key"
    by (auto simp: pk_def)
qed

text \<open>
  C13: the keys that \<open>dumpRSAPublicKey\<close> writes are good for \<open>rsa.c\<close>. For an odd modulus of 1024, 2048, 4096 or 8192 bits the
  output has the length that \<open>RSAProcessedKeySize\<close> tells for the algorithms of this size, \<open>RSAPublicKeyFromBuf\<close> reads from it a key
  of this modulus, and \<open>modpowF4\<close> with this key raises a number to 65537 modulo the modulus.
\<close>

theorem dump_key_roundtrip:
  assumes "bn_ok bn" "0 < rsa_n key" "odd (rsa_n key)" "alg < 12" "BN_num_bits bn (rsa_n key) = 32 * int (siglen_map ! alg)"
    "length inout = 4 * siglen_map ! alg"
  shows "\<exists>pk. RSAProcessedKeySize alg = Some (int (length (dump_main bn (\<lambda>b. b) (Some key)))) \<and>
    RSAPublicKeyFromBuf (dump_main bn (\<lambda>b. b) (Some key)) (int (length (dump_main bn (\<lambda>b. b) (Some key)))) = Some (Some pk) \<and>
    rk_len pk = int (siglen_map ! alg) \<and> num_of (rk_n pk) = rsa_n key \<and>
    be_num (modpowF4 pk inout) = be_num inout ^ 65537 mod rsa_n key"
proof -
  let ?out = "dump_main bn (\<lambda>b. b) (Some key)"
  have c: "check bn key" using assms(5) less_12_cases[OF assms(4)] by (auto simp: check_def siglen_map_def)
  have k: "BN_num_bits bn (rsa_n key) div 32 = int (siglen_map ! alg)" using assms(5) by simp
  have o: "?out = output_key bn (\<lambda>b. b) key" using c by (simp add: dump_main_def)
  have l: "int (length ?out) = 8 * int (siglen_map ! alg) + 8"
    using dump_key_lemma(1)[OF assms(1) c assms(2,3)] k o by simp
  obtain pk where pk: "RSAPublicKeyFromBuf ?out (8 * int (siglen_map ! alg) + 8) = Some (Some pk)" "key_ok pk"
      "rk_len pk = int (siglen_map ! alg)" "num_of (rk_n pk) = rsa_n key"
    using dump_key_lemma(2)[OF assms(1) c assms(2,3)] k o by auto
  have "be_num (modpowF4 pk inout) = be_num inout ^ 65537 mod rsa_n key"
    using modpowF4_eq(2)[OF pk(2), of inout] pk(3,4) assms(6) by simp
  with pk l assms(4) show ?thesis by (auto simp: RSAProcessedKeySize_12)
qed

text \<open>An implementation of the numbers, to show that the assumptions can hold.\<close>

function num_bits :: "int \<Rightarrow> int" where
  "num_bits a = (if a \<le> 0 then 0 else num_bits (a div 2) + 1)"
  by auto
termination by (relation "measure nat") auto

declare num_bits.simps [simp del]

function egcd :: "int \<Rightarrow> int \<Rightarrow> int \<times> int" where
  "egcd a b = (if b \<le> 0 then (1, 0) else (case egcd b (a mod b) of (x, y) \<Rightarrow> (y, x - a div b * y)))"
  by auto
termination by (relation "measure (\<lambda>(a, b). nat b)") auto

declare egcd.simps [simp del]

definition int_bn :: bn_lib where
  "int_bn = \<lparr>BN_num_bits = num_bits, BN_get_word = (\<lambda>a. a), BN_sub = (-), BN_mul = (*), BN_exp = (\<lambda>a b. a ^ nat b), BN_mod = (mod),
     BN_rshift = (\<lambda>a k. a div 2 ^ nat k), BN_mod_inverse = (\<lambda>a n. fst (egcd (a mod n) n) mod n)\<rparr>"

lemma num_bits_eq: "2 ^ n \<le> a \<Longrightarrow> a < 2 ^ Suc n \<Longrightarrow> num_bits a = int n + 1"
proof (induction n arbitrary: a)
  case (Suc n)
  then have "0 < a" using order_less_le_trans[of 0 "2 ^ Suc n" a] by simp
  with Suc show ?case by (subst num_bits.simps) simp
next
  case 0
  then have "a = 1" by simp
  then show ?case by (simp add: num_bits.simps[of 1] num_bits.simps[of 0])
qed

lemma num_bits_ex: "0 < a \<Longrightarrow> \<exists>n. num_bits a = int n + 1 \<and> 2 ^ n \<le> a \<and> a < 2 ^ Suc n"
proof (induction a rule: num_bits.induct)
  case (1 a)
  show ?case
  proof (cases "a = 1")
    case True
    then show ?thesis by (intro exI[of _ 0]) (simp add: num_bits.simps[of 1] num_bits.simps[of 0])
  next
    case False
    then obtain n where n: "num_bits (a div 2) = int n + 1" "2 ^ n \<le> a div 2" "a div 2 < 2 ^ Suc n" using 1 by force
    moreover have "2 * 2 ^ n \<le> a" "a < 4 * 2 ^ n" using n(2,3) by simp_all
    ultimately show ?thesis using 1(2) by (intro exI[of _ "Suc n"]) (simp add: num_bits.simps[of a])
  qed
qed

lemma num_bits_bounds: "0 < a \<Longrightarrow> 0 < num_bits a \<and> 2 ^ nat (num_bits a - 1) \<le> a \<and> a < 2 ^ nat (num_bits a)"
  using num_bits_ex[of a] by (auto simp: nat_add_distrib)

lemma egcd_gcd: "0 \<le> b \<Longrightarrow> 0 \<le> a \<Longrightarrow> case egcd a b of (x, y) \<Rightarrow> a * x + b * y = gcd a b"
proof (induction a b rule: egcd.induct)
  case (1 a b)
  show ?case
  proof (cases "b \<le> 0")
    case True
    with 1 show ?thesis by (subst egcd.simps) simp
  next
    case False
    obtain x y where e: "egcd b (a mod b) = (x, y)" by fastforce
    have "b * x + a mod b * y = gcd b (a mod b)" using 1(1)[OF False] False e by simp
    moreover have "gcd b (a mod b) = gcd a b" by (simp add: gcd.commute flip: gcd_red_int)
    moreover have "a * y + b * (x - a div b * y) = b * x + (a - b * (a div b)) * y" by (simp add: algebra_simps)
    ultimately show ?thesis using False e by (simp add: egcd.simps[of a b] minus_mult_div_eq_mod)
  qed
qed

lemma int_bn_ok: "bn_ok int_bn"
proof -
  have "(a * (fst (egcd (a mod n) n) mod n)) mod n = 1 mod n" if "0 < n" "coprime a n" for a n
  proof -
    obtain x y where e: "egcd (a mod n) n = (x, y)" by fastforce
    have "a mod n * x + n * y = gcd (a mod n) n" using egcd_gcd[of n "a mod n"] e that(1) by simp
    moreover have "gcd (a mod n) n = 1" using that by (simp add: gcd_red_int[symmetric] gcd.commute)
    ultimately have "(a mod n * x + n * y) mod n = 1 mod n" by simp
    then show ?thesis using e by (simp add: mod_simps)
  qed
  then show ?thesis using num_bits_bounds by (simp add: bn_ok_def int_bn_def)
qed

theorem dump_key_roundtrip_witness:
  "\<exists>pk. RSAProcessedKeySize 1 = Some (int (length (dump_main int_bn (\<lambda>b. b) (Some \<lparr>rsa_n = 2 ^ 1024 - 1, rsa_e = 65537\<rparr>)))) \<and>
     be_num (modpowF4 pk (replicate 128 2)) = be_num (replicate 128 2) ^ 65537 mod (2 ^ 1024 - 1)"
proof -
  let ?key = "\<lparr>rsa_n = 2 ^ 1024 - 1, rsa_e = 65537\<rparr>"
  have "num_bits (2 ^ 1024 - 1) = int 1023 + 1" by (rule num_bits_eq) simp_all
  then have "BN_num_bits int_bn (rsa_n ?key) = 32 * int (siglen_map ! 1)" by (simp add: int_bn_def siglen_map_def)
  moreover have "odd (rsa_n ?key)" "0 < rsa_n ?key" by simp_all
  ultimately show ?thesis using dump_key_roundtrip[OF int_bn_ok, of ?key 1 "replicate 128 2"] by (auto simp: siglen_map_def)
qed

end
