(* ===== verification/MJ_Jail.thy ===== *)
theory MJ_Jail
  imports Prelude
begin

text \<open>
  The jail (\<open>minijail/env.cc\<close>, \<open>minijail.cc\<close>, \<open>options.cc\<close>, \<open>options.h\<close>, \<open>interface.cc\<close>, \<open>minijail_main.cc\<close>).

  The kernel and libcap are a parameter: a record of the system calls on an arbitrary state. A call returns its result, as
  in C. \<^term>\<open>None\<close> is the end of the process: \<open>LOG(FATAL)\<close>, \<open>_exit\<close> and \<open>exit\<close>. \<open>Env\<close> has only virtual
  methods, which \<open>MiniJail\<close> calls through the interface; the record \<open>env\<close> is this interface.
\<close>

unbundle bit_operations_syntax

section \<open>System calls\<close>

datatype cap_flag = CAP_EFFECTIVE | CAP_PERMITTED | CAP_INHERITABLE

type_synonym caps = "cap_flag \<Rightarrow> nat set"

record 'x kernel =
  k_prctl :: "int \<Rightarrow> int \<Rightarrow> 'x \<Rightarrow> int \<times> 'x"
  k_getpwuid :: "int \<Rightarrow> 'x \<Rightarrow> (string \<times> int) option"
  k_setgroups :: "int list \<Rightarrow> 'x \<Rightarrow> int \<times> 'x"
  k_initgroups :: "string \<Rightarrow> int \<Rightarrow> 'x \<Rightarrow> int \<times> 'x"
  k_setresgid :: "int \<Rightarrow> int \<Rightarrow> int \<Rightarrow> 'x \<Rightarrow> int \<times> 'x"
  k_setresuid :: "int \<Rightarrow> int \<Rightarrow> int \<Rightarrow> 'x \<Rightarrow> int \<times> 'x"
  k_cap_get_proc :: "'x \<Rightarrow> caps option"
  k_cap_clear_flag :: "cap_flag \<Rightarrow> caps \<Rightarrow> int \<times> caps"
  k_cap_set_flag :: "cap_flag \<Rightarrow> nat \<Rightarrow> caps \<Rightarrow> int \<times> caps"
  k_cap_set_proc :: "caps \<Rightarrow> 'x \<Rightarrow> int \<times> 'x"
  k_clone :: "32 word \<Rightarrow> 'x \<Rightarrow> int \<times> 'x"
  k_mount :: "string \<Rightarrow> string \<Rightarrow> string \<Rightarrow> 32 word \<Rightarrow> 'x \<Rightarrow> int \<times> 'x"
  k_getuid :: "'x \<Rightarrow> int"
  k_getgid :: "'x \<Rightarrow> int"
  k_execve :: "string \<Rightarrow> string list \<Rightarrow> string list \<Rightarrow> 'x \<Rightarrow> 'x option"

abbreviation (input) "PR_GET_DUMPABLE \<equiv> 3 :: int"
abbreviation (input) "PR_SET_DUMPABLE \<equiv> 4 :: int"
abbreviation (input) "PR_GET_KEEPCAPS \<equiv> 7 :: int"
abbreviation (input) "PR_SET_KEEPCAPS \<equiv> 8 :: int"
abbreviation (input) "PR_SET_SECCOMP \<equiv> 22 :: int"
abbreviation (input) "PR_CAPBSET_READ \<equiv> 23 :: int"
abbreviation (input) "PR_CAPBSET_DROP \<equiv> 24 :: int"
abbreviation (input) "PR_SET_SECUREBITS \<equiv> 28 :: int"
abbreviation (input) "kSecureBitsAllLocked \<equiv> 0x3f :: int"
abbreviation (input) "CAP_SETPCAP \<equiv> 8 :: nat"
abbreviation (input) "SIGCHLD \<equiv> 17 :: 32 word"
abbreviation (input) "CLONE_VFORK \<equiv> 0x4000 :: 32 word"
abbreviation (input) "CLONE_NEWNS \<equiv> 0x20000 :: 32 word"
abbreviation (input) "CLONE_NEWPID \<equiv> 0x20000000 :: 32 word"
abbreviation (input) "MS_RDONLY \<equiv> 1 :: 32 word"
abbreviation (input) "MS_NOSUID \<equiv> 2 :: 32 word"
abbreviation (input) "MS_NODEV \<equiv> 4 :: 32 word"
abbreviation (input) "MS_NOEXEC \<equiv> 8 :: 32 word"

section \<open>Env\<close>

type_synonym 'x op = "'x \<Rightarrow> (bool \<times> 'x) option"

definition DisableTracing :: "'x kernel \<Rightarrow> 'x op" where
  "DisableTracing K x = do {
     let (r, x) = k_prctl K PR_SET_DUMPABLE 0 x;
     CHECK (r = 0);
     let (r, x) = k_prctl K PR_GET_DUMPABLE 0 x;
     CHECK (r = 0);
     Some (True, x) }"

definition KeepRootCapabilities :: "'x kernel \<Rightarrow> 'x op" where
  "KeepRootCapabilities K x = do {
     let (r, x) = k_prctl K PR_SET_KEEPCAPS 1 x;
     CHECK (\<not> r < 0);
     let (r, x) = k_prctl K PR_GET_KEEPCAPS 0 x;
     CHECK (r = 1);
     Some (True, x) }"

definition DisableDefaultRootPrivileges :: "'x kernel \<Rightarrow> 'x op" where
  "DisableDefaultRootPrivileges K x = do {
     let (r, x) = k_prctl K PR_SET_SECUREBITS kSecureBitsAllLocked x;
     CHECK (r = 0);
     Some (True, x) }"

definition ChangeUser :: "'x kernel \<Rightarrow> int \<Rightarrow> int \<Rightarrow> 'x op" where
  "ChangeUser K uid gid x = do {
     let (r, x) = (case k_getpwuid K uid x of
         None \<Rightarrow> k_setgroups K [] x
       | Some (pw_name, pw_gid) \<Rightarrow> k_initgroups K pw_name pw_gid x);
     CHECK (r = 0);
     let (r, x) = k_setresgid K gid gid gid x;
     CHECK (r = 0);
     let (r, x) = k_setresuid K uid uid uid x;
     CHECK (r = 0);
     Some (True, x) }"

text \<open>The loop from \<open>cap\<close> on; \<open>n\<close> counts the capabilities up to \<open>kMaxCaps\<close> that remain.\<close>

fun bounding_set_loop :: "'x kernel \<Rightarrow> 64 word \<Rightarrow> nat \<Rightarrow> nat \<Rightarrow> 'x \<Rightarrow> 'x option" where
  "bounding_set_loop K cap_mask 0 cap x = Some x"
| "bounding_set_loop K cap_mask (Suc n) cap x =
     (case k_prctl K PR_CAPBSET_READ (int cap) x of
        (r, x) \<Rightarrow>
          if \<not> r \<ge> 0 then Some x
          else if cap = CAP_SETPCAP then bounding_set_loop K cap_mask n (Suc cap) x
          else if bit cap_mask cap then bounding_set_loop K cap_mask n (Suc cap) x
          else do {
            let (r, x) = k_prctl K PR_CAPBSET_DROP (int cap) x;
            CHECK (r = 0);
            bounding_set_loop K cap_mask n (Suc cap) x })"

definition SanitizeBoundingSet :: "'x kernel \<Rightarrow> 64 word \<Rightarrow> 'x op" where
  "SanitizeBoundingSet K cap_mask x = do {
     x \<leftarrow> bounding_set_loop K cap_mask 64 0 x;
     Some (True, x) }"

text \<open>\<open>1 << cap\<close> is an \<open>int\<close>; the processor takes the shift count modulo 32, and the result is extended by its sign.\<close>

definition shifted_1 :: "nat \<Rightarrow> 64 word" where
  "shifted_1 cap = of_int (sint (push_bit (cap mod 32) 1 :: 32 word))"

fun raise_loop :: "'x kernel \<Rightarrow> 64 word \<Rightarrow> nat \<Rightarrow> nat \<Rightarrow> caps \<Rightarrow> caps option" where
  "raise_loop K effective_capmask 0 cap c = Some c"
| "raise_loop K effective_capmask (Suc n) cap c =
     (if cap = CAP_SETPCAP \<or> effective_capmask AND shifted_1 cap \<noteq> 0 then do {
        let (r, c) = k_cap_set_flag K CAP_EFFECTIVE cap c;
        CHECK (r = 0);
        let (r, c) = k_cap_set_flag K CAP_PERMITTED cap c;
        CHECK (r = 0);
        let (r, c) = k_cap_set_flag K CAP_INHERITABLE cap c;
        CHECK (r = 0);
        raise_loop K effective_capmask n (Suc cap) c }
      else raise_loop K effective_capmask n (Suc cap) c)"

definition SanitizeCapabilities :: "'x kernel \<Rightarrow> 64 word \<Rightarrow> 'x op" where
  "SanitizeCapabilities K effective_capmask x = do {
     c \<leftarrow> k_cap_get_proc K x;
     let (r, c) = k_cap_clear_flag K CAP_INHERITABLE c;
     CHECK (r = 0);
     let (r, c) = k_cap_clear_flag K CAP_EFFECTIVE c;
     CHECK (r = 0);
     let (r, c) = k_cap_clear_flag K CAP_PERMITTED c;
     CHECK (r = 0);
     c \<leftarrow> raise_loop K effective_capmask 64 0 c;
     let (r, x) = k_cap_set_proc K c x;
     CHECK (r = 0);
     Some (True, x) }"

definition FilterSyscallsBySource :: "'x kernel \<Rightarrow> 'x op" where
  "FilterSyscallsBySource K x = do {
     let (r, x) = k_prctl K PR_SET_SECCOMP 2 x;
     CHECK (r = 0);
     Some (True, x) }"

definition FilterSyscallsBenchmarkOnly :: "'x kernel \<Rightarrow> 'x op" where
  "FilterSyscallsBenchmarkOnly K x = do {
     let (r, x) = k_prctl K PR_SET_SECCOMP 3 x;
     CHECK (r = 0);
     Some (True, x) }"

text \<open>The process that called \<open>clone\<close> ends; the child goes on.\<close>

definition EnterNamespace :: "'x kernel \<Rightarrow> 32 word \<Rightarrow> 'x op" where
  "EnterNamespace K namespaces x =
     (if namespaces = 0 then Some (True, x)
      else do {
        let (pid, x) = k_clone K (namespaces OR CLONE_VFORK OR SIGCHLD) x;
        CHECK (pid \<noteq> -1);
        CHECK (\<not> pid \<noteq> 0);
        Some (True, x) })"

definition Env_Mount :: "'x kernel \<Rightarrow> 'x op" where
  "Env_Mount K x = do {
     let (r, x) = k_mount K ''proc'' ''/proc'' ''proc'' (MS_NODEV OR MS_NOEXEC OR MS_NOSUID OR MS_RDONLY) x;
     CHECK (r = 0);
     Some (True, x) }"

text \<open>The state in which the program runs.\<close>

definition Env_Run :: "'x kernel \<Rightarrow> string \<Rightarrow> string list \<Rightarrow> string list \<Rightarrow> 'x \<Rightarrow> 'x option" where
  "Env_Run K path argv envp x = k_execve K path argv envp x"

record 'x env =
  env_DisableTracing :: "'x op"
  env_KeepRootCapabilities :: "'x op"
  env_DisableDefaultRootPrivileges :: "'x op"
  env_ChangeUser :: "int \<Rightarrow> int \<Rightarrow> 'x op"
  env_SanitizeBoundingSet :: "64 word \<Rightarrow> 'x op"
  env_SanitizeCapabilities :: "64 word \<Rightarrow> 'x op"
  env_FilterSyscallsBySource :: "'x op"
  env_FilterSyscallsBenchmarkOnly :: "'x op"
  env_EnterNamespace :: "32 word \<Rightarrow> 'x op"
  env_Mount :: "'x op"
  env_Run :: "string \<Rightarrow> string list \<Rightarrow> string list \<Rightarrow> 'x \<Rightarrow> 'x option"

definition Env :: "'x kernel \<Rightarrow> 'x env" where
  "Env K = \<lparr>env_DisableTracing = DisableTracing K, env_KeepRootCapabilities = KeepRootCapabilities K,
     env_DisableDefaultRootPrivileges = DisableDefaultRootPrivileges K, env_ChangeUser = ChangeUser K,
     env_SanitizeBoundingSet = SanitizeBoundingSet K, env_SanitizeCapabilities = SanitizeCapabilities K,
     env_FilterSyscallsBySource = FilterSyscallsBySource K, env_FilterSyscallsBenchmarkOnly = FilterSyscallsBenchmarkOnly K,
     env_EnterNamespace = EnterNamespace K, env_Mount = Env_Mount K, env_Run = Env_Run K\<rparr>"

section \<open>Options\<close>

record Options =
  o_executable_path :: "string option"
  o_argument_count :: nat
  o_arguments :: "string list"
  o_environment :: "string list"
  o_add_readonly_mounts :: bool
  o_change_gid :: bool
  o_change_uid :: bool
  o_disable_tracing :: bool
  o_enforce_syscalls_benchmark :: bool
  o_enforce_syscalls_by_source :: bool
  o_gid :: int
  o_namespace_vfs :: bool
  o_namespace_pid :: bool
  o_sanitize_environment :: bool
  o_uid :: int
  o_use_capabilities :: bool

definition new_Options :: Options where
  "new_Options = \<lparr>o_executable_path = None, o_argument_count = 0, o_arguments = [], o_environment = [], o_add_readonly_mounts = False,
     o_change_gid = False, o_change_uid = False, o_disable_tracing = False, o_enforce_syscalls_benchmark = False,
     o_enforce_syscalls_by_source = False, o_gid = 0, o_namespace_vfs = False, o_namespace_pid = False,
     o_sanitize_environment = False, o_uid = 0, o_use_capabilities = False\<rparr>"

definition set_gid :: "int \<Rightarrow> Options \<Rightarrow> Options" where
  "set_gid val opts = opts\<lparr>o_gid := val, o_change_gid := True\<rparr>"

definition set_uid :: "int \<Rightarrow> Options \<Rightarrow> Options" where
  "set_uid val opts = opts\<lparr>o_uid := val, o_change_uid := True\<rparr>"

definition change_uid :: "Options \<Rightarrow> bool" where
  "change_uid opts = o_change_uid opts"

definition change_gid :: "Options \<Rightarrow> bool" where
  "change_gid opts = o_change_uid opts"

definition FixUpDependencies :: "Options \<Rightarrow> bool \<times> Options" where
  "FixUpDependencies opts =
     (let opts = (if o_add_readonly_mounts opts \<and> \<not> o_namespace_vfs opts then opts\<lparr>o_namespace_vfs := True\<rparr> else opts)
      in if o_enforce_syscalls_benchmark opts \<and> o_enforce_syscalls_by_source opts then (False, opts) else (True, opts))"

section \<open>MiniJail\<close>

text \<open>A step that is taken under a condition; the jail goes on only when it succeeds.\<close>

definition step_if :: "bool \<Rightarrow> 'x op \<Rightarrow> bool \<times> 'x \<Rightarrow> (bool \<times> 'x) option" where
  "step_if c f s = (case s of (ok, x) \<Rightarrow> if ok \<and> c then f x else Some (ok, x))"

definition Jail :: "'x env \<Rightarrow> ('x \<Rightarrow> int) \<Rightarrow> ('x \<Rightarrow> int) \<Rightarrow> Options option \<Rightarrow> 'x op" where
  "Jail env getuid getgid options x =
     (case options of
        None \<Rightarrow> Some (False, x)
      | Some opts \<Rightarrow> do {
          let namespaces = (if o_namespace_pid opts then CLONE_NEWPID else 0) OR (if o_namespace_vfs opts then CLONE_NEWNS else 0);
          s \<leftarrow> step_if (namespaces \<noteq> 0) (env_EnterNamespace env namespaces) (True, x);
          s \<leftarrow> step_if (o_namespace_vfs opts \<and> o_add_readonly_mounts opts) (env_Mount env) s;
          s \<leftarrow> step_if (o_use_capabilities opts) (env_KeepRootCapabilities env) s;
          s \<leftarrow> step_if (o_use_capabilities opts) (env_DisableDefaultRootPrivileges env) s;
          s \<leftarrow> step_if (o_disable_tracing opts) (env_DisableTracing env) s;
          let uid = (if change_uid opts then o_uid opts else getuid (snd s));
          let gid = (if change_gid opts then o_gid opts else getgid (snd s));
          s \<leftarrow> step_if (change_uid opts \<or> change_gid opts) (env_ChangeUser env uid gid) s;
          s \<leftarrow> (if o_enforce_syscalls_by_source opts then step_if True (env_FilterSyscallsBySource env) s
               else step_if (o_enforce_syscalls_benchmark opts) (env_FilterSyscallsBenchmarkOnly env) s);
          s \<leftarrow> step_if (o_use_capabilities opts) (env_SanitizeCapabilities env 0) s;
          step_if (o_use_capabilities opts) (env_SanitizeBoundingSet env 0) s })"

text \<open>\<open>Interface::Run\<close>: the state in which the program runs, or \<open>Inl\<close> for the result \<open>false\<close>.\<close>

definition Interface_Run :: "'x env \<Rightarrow> Options option \<Rightarrow> 'x \<Rightarrow> ('x + 'x) option" where
  "Interface_Run env options x =
     (case options of
        None \<Rightarrow> Some (Inl x)
      | Some opts \<Rightarrow>
          (case o_executable_path opts of
             None \<Rightarrow> Some (Inl x)
           | Some path \<Rightarrow> map_option Inr (env_Run env path (o_arguments opts) (o_environment opts) x)))"

section \<open>The command line\<close>

record command_line =
  cl_switches :: "string \<rightharpoonup> string"
  cl_loose :: "string list"

abbreviation HasSwitch :: "command_line \<Rightarrow> string \<Rightarrow> bool" where
  "HasSwitch cl s \<equiv> cl_switches cl s \<noteq> None"

definition GetSwitchValueASCII :: "command_line \<Rightarrow> string \<Rightarrow> string" where
  "GetSwitchValueASCII cl s = (case cl_switches cl s of None \<Rightarrow> [] | Some v \<Rightarrow> v)"

text \<open>\<open>strtol\<close> in base 0: white space, a sign, a prefix that chooses the base, digits; the result stays within 64 bits.\<close>

definition digit_value :: "char \<Rightarrow> nat" where
  "digit_value c =
     (let n = of_char c :: nat
      in if 48 \<le> n \<and> n \<le> 57 then n - 48 else if 65 \<le> n \<and> n \<le> 90 then n - 55 else if 97 \<le> n \<and> n \<le> 122 then n - 87 else 36)"

fun digits :: "nat \<Rightarrow> int \<Rightarrow> string \<Rightarrow> int" where
  "digits base acc [] = acc"
| "digits base acc (c # cs) = (if digit_value c < base then digits base (acc * int base + int (digit_value c)) cs else acc)"

definition unsigned_value :: "string \<Rightarrow> int" where
  "unsigned_value s =
     (case s of
        c # d # e # cs \<Rightarrow>
          if c = CHR ''0'' \<and> (d = CHR ''x'' \<or> d = CHR ''X'') \<and> digit_value e < 16 then digits 16 0 (e # cs)
          else if c = CHR ''0'' then digits 8 0 s else digits 10 0 s
      | CHR ''0'' # cs \<Rightarrow> digits 8 0 cs
      | _ \<Rightarrow> digits 10 0 s)"

definition strtol :: "string \<Rightarrow> int" where
  "strtol s =
     (let s = dropWhile (\<lambda>c. of_char c \<in> {9, 10, 11, 12, 13, 32 :: nat}) s;
          v = (case s of CHR ''-'' # cs \<Rightarrow> - unsigned_value cs | CHR ''+'' # cs \<Rightarrow> unsigned_value cs | _ \<Rightarrow> unsigned_value s)
      in max (- (2 ^ 63)) (min (2 ^ 63 - 1) v))"

text \<open>The options, \<^term>\<open>None\<close> when the process ends.\<close>

definition ProcessSwitches :: "command_line \<Rightarrow> Options \<Rightarrow> Options option" where
  "ProcessSwitches cl opts = do {
     CHECK (\<not> HasSwitch cl ''help'');
     let opts = opts\<lparr>o_namespace_pid := HasSwitch cl ''namespace-pid'', o_namespace_vfs := HasSwitch cl ''namespace-vfs'',
       o_add_readonly_mounts := HasSwitch cl ''add-readonly-mounts'', o_disable_tracing := HasSwitch cl ''disable-tracing'',
       o_enforce_syscalls_benchmark := HasSwitch cl ''enforce-syscall-benchmark'',
       o_enforce_syscalls_by_source := HasSwitch cl ''enforce-syscall-by-source'',
       o_use_capabilities := HasSwitch cl ''use-capabilities'', o_sanitize_environment := HasSwitch cl ''sanitize-environment''\<rparr>;
     let uid_string = GetSwitchValueASCII cl ''uid'';
     let opts = (if uid_string \<noteq> [] then set_uid (uint (of_int (strtol uid_string) :: 32 word)) opts else opts);
     let gid_string = GetSwitchValueASCII cl ''gid'';
     let opts = (if gid_string \<noteq> [] then set_gid (uint (of_int (strtol gid_string) :: 32 word)) opts else opts);
     let (ok, opts) = FixUpDependencies opts;
     CHECK ok;
     let loose_args = replicate (length (cl_loose cl)) [] @ cl_loose cl;
     Some (opts\<lparr>o_executable_path := (case cl_loose cl of [] \<Rightarrow> None | p # _ \<Rightarrow> Some p),
                 o_arguments := cl_loose cl, o_argument_count := length loose_args\<rparr>) }"

text \<open>\<open>main\<close>: the state in which the program runs, or the exit status.\<close>

definition jail_main :: "'x kernel \<Rightarrow> command_line \<Rightarrow> string list \<Rightarrow> 'x \<Rightarrow> (int + 'x) option" where
  "jail_main K cl envp x = do {
     opts \<leftarrow> ProcessSwitches cl new_Options;
     let opts = opts\<lparr>o_environment := envp\<rparr>;
     CHECK (o_executable_path opts \<noteq> None);
     (ok, x) \<leftarrow> Jail (Env K) (k_getuid K) (k_getgid K) (Some opts) x;
     if ok then do {
       r \<leftarrow> Interface_Run (Env K) (Some opts) x;
       Some (case r of Inl x \<Rightarrow> Inl 1 | Inr x \<Rightarrow> Inr x) }
     else Some (Inl 1) }"

end
