(* ===== verification/MJ_Jail_Props.thy ===== *)
theory MJ_Jail_Props
  imports MJ_Jail
begin

text \<open>
  What a process is after \<open>MiniJail::Jail\<close>. The locale \<open>linux_kernel\<close> states what the manual pages say of the system
  calls that the jail makes, in terms of the attributes of the calling process; the locale \<open>jail_env\<close> is the contract of the interface
  \<open>Env\<close>, which the methods of \<open>Env\<close> fulfil on such a kernel. A small kernel shows that the contract can be met.
\<close>

section \<open>Processes\<close>

record proc =
  p_uid :: int
  p_gid :: int
  p_groups :: "int list"
  p_caps :: caps
  p_bset :: "nat set"
  p_securebits :: int
  p_keepcaps :: int
  p_dumpable :: int
  p_seccomp :: int
  p_pid_ns :: bool
  p_vfs_ns :: bool
  p_proc_ro :: bool

section \<open>The contract of Env\<close>

locale jail_env =
  fixes env :: "'x env" and view :: "'x \<Rightarrow> proc" and suid_dumpable :: int
  assumes tracing: "env_DisableTracing env x = Some (True, x') \<Longrightarrow> view x' = (view x)\<lparr>p_dumpable := 0\<rparr>"
    and keep_root: "env_KeepRootCapabilities env x = Some (True, x') \<Longrightarrow> view x' = (view x)\<lparr>p_keepcaps := 1\<rparr>"
    and no_root: "env_DisableDefaultRootPrivileges env x = Some (True, x') \<Longrightarrow> view x' = (view x)\<lparr>p_securebits := 0x3f\<rparr>"
    and change_user: "env_ChangeUser env u g x = Some (True, x') \<Longrightarrow>
      \<exists>gs d c. view x' = (view x)\<lparr>p_uid := u, p_gid := g, p_groups := gs, p_caps := c, p_dumpable := d\<rparr> \<and>
        (d = p_dumpable (view x) \<or> d = suid_dumpable)"
    and drop_caps: "env_SanitizeCapabilities env 0 x = Some (True, x') \<Longrightarrow> view x' = (view x)\<lparr>p_caps := (\<lambda>_. {CAP_SETPCAP})\<rparr>"
    and drop_bset: "env_SanitizeBoundingSet env 0 x = Some (True, x') \<Longrightarrow> view x' = (view x)\<lparr>p_bset := p_bset (view x) \<inter> {CAP_SETPCAP}\<rparr>"
    and by_source: "env_FilterSyscallsBySource env x = Some (True, x') \<Longrightarrow> view x' = (view x)\<lparr>p_seccomp := 2\<rparr>"
    and benchmark: "env_FilterSyscallsBenchmarkOnly env x = Some (True, x') \<Longrightarrow> view x' = (view x)\<lparr>p_seccomp := 3\<rparr>"
    and namespaces: "n \<noteq> 0 \<Longrightarrow> env_EnterNamespace env n x = Some (True, x') \<Longrightarrow>
      view x' = (view x)\<lparr>p_pid_ns := p_pid_ns (view x) \<or> n AND CLONE_NEWPID \<noteq> 0, p_vfs_ns := p_vfs_ns (view x) \<or> n AND CLONE_NEWNS \<noteq> 0\<rparr>"
    and mounts: "env_Mount env x = Some (True, x') \<Longrightarrow> view x' = (view x)\<lparr>p_proc_ro := True\<rparr>"
begin

lemma step_if_False [simp]: "step_if c f (False, y) = Some (False, y)"
  by (simp add: step_if_def)

lemma step_if_True: "step_if c f (True, x) = Some (True, x') \<longleftrightarrow> (if c then f x = Some (True, x') else x' = x)"
  by (auto simp: step_if_def)

lemma step_if_runE:
  assumes "step_if c f (True, x) \<bind> k = Some (True, x'')" "\<And>y. k (False, y) = Some (False, y)"
    "\<And>x'. (if c then f x = Some (True, x') else x' = x) \<Longrightarrow> k (True, x') = Some (True, x'') \<Longrightarrow> P"
  shows P
proof -
  obtain b x' where "step_if c f (True, x) = Some (b, x')" "k (b, x') = Some (True, x'')"
    using assms(1) by (cases "step_if c f (True, x)") auto
  with assms(2,3) show ?thesis by (cases b) (auto simp: step_if_True)
qed

lemma step_if_if: "(if b then step_if True f s else step_if c g s) = step_if (b \<or> c) (if b then f else g) s"
  by simp

text \<open>The process after the jail; the identity is left as it is unless a user is given.\<close>

lemma Jail_effect:
  assumes "Jail env getuid getgid (Some opts) x = Some (True, x')"
  shows "\<exists>gs d c. view x' = \<lparr>
      p_uid = (if o_change_uid opts then o_uid opts else p_uid (view x)),
      p_gid = (if o_change_uid opts then o_gid opts else p_gid (view x)),
      p_groups = (if o_change_uid opts then gs else p_groups (view x)),
      p_caps = (if o_use_capabilities opts then (\<lambda>_. {CAP_SETPCAP}) else if o_change_uid opts then c else p_caps (view x)),
      p_bset = (if o_use_capabilities opts then p_bset (view x) \<inter> {CAP_SETPCAP} else p_bset (view x)),
      p_securebits = (if o_use_capabilities opts then 0x3f else p_securebits (view x)),
      p_keepcaps = (if o_use_capabilities opts then 1 else p_keepcaps (view x)),
      p_dumpable = (if o_change_uid opts then d else if o_disable_tracing opts then 0 else p_dumpable (view x)),
      p_seccomp = (if o_enforce_syscalls_by_source opts then 2 else if o_enforce_syscalls_benchmark opts then 3 else p_seccomp (view x)),
      p_pid_ns = (p_pid_ns (view x) \<or> o_namespace_pid opts),
      p_vfs_ns = (p_vfs_ns (view x) \<or> o_namespace_vfs opts),
      p_proc_ro = (p_proc_ro (view x) \<or> o_namespace_vfs opts \<and> o_add_readonly_mounts opts)\<rparr> \<and>
    (d = (if o_disable_tracing opts then 0 else p_dumpable (view x)) \<or> d = suid_dumpable)"
proof -
  define n :: "32 word" where
    "n = (if o_namespace_pid opts then CLONE_NEWPID else 0) OR (if o_namespace_vfs opts then CLONE_NEWNS else 0)"
  have n: "n AND CLONE_NEWPID \<noteq> 0 \<longleftrightarrow> o_namespace_pid opts" "n AND CLONE_NEWNS \<noteq> 0 \<longleftrightarrow> o_namespace_vfs opts"
    "n \<noteq> 0 \<longleftrightarrow> o_namespace_pid opts \<or> o_namespace_vfs opts"
    by (auto simp: n_def)
  note J = assms[unfolded Jail_def option.case Let_def change_uid_def change_gid_def, folded n_def]
  obtain x1 x2 x3 x4 x5 x6 x7 x8 where s:
      "if n \<noteq> 0 then env_EnterNamespace env n x = Some (True, x1) else x1 = x"
      "if o_namespace_vfs opts \<and> o_add_readonly_mounts opts then env_Mount env x1 = Some (True, x2) else x2 = x1"
      "if o_use_capabilities opts then env_KeepRootCapabilities env x2 = Some (True, x3) else x3 = x2"
      "if o_use_capabilities opts then env_DisableDefaultRootPrivileges env x3 = Some (True, x4) else x4 = x3"
      "if o_disable_tracing opts then env_DisableTracing env x4 = Some (True, x5) else x5 = x4"
      "if o_change_uid opts then env_ChangeUser env (if o_change_uid opts then o_uid opts else getuid (snd (True, x5)))
         (if o_change_uid opts then o_gid opts else getgid (snd (True, x5))) x5 = Some (True, x6) else x6 = x5"
      "if o_enforce_syscalls_by_source opts \<or> o_enforce_syscalls_benchmark opts
       then (if o_enforce_syscalls_by_source opts then env_FilterSyscallsBySource env else env_FilterSyscallsBenchmarkOnly env) x6 = Some (True, x7)
       else x7 = x6"
      "if o_use_capabilities opts then env_SanitizeCapabilities env 0 x7 = Some (True, x8) else x8 = x7"
      "step_if (o_use_capabilities opts) (env_SanitizeBoundingSet env 0) (True, x8) = Some (True, x')"
    using J unfolding step_if_if disj_absorb
    apply -
    apply (erule step_if_runE, simp)+
    apply (rule that, assumption+)
    done
  have v1: "view x1 = (view x)\<lparr>p_pid_ns := p_pid_ns (view x) \<or> o_namespace_pid opts, p_vfs_ns := p_vfs_ns (view x) \<or> o_namespace_vfs opts\<rparr>"
    using s(1) namespaces[of n x x1] n by (auto split: if_splits)
  have v2: "view x2 = (view x1)\<lparr>p_proc_ro := p_proc_ro (view x1) \<or> o_namespace_vfs opts \<and> o_add_readonly_mounts opts\<rparr>"
    using s(2) mounts[of x1 x2] by (auto split: if_splits)
  have v4: "view x4 = (view x2)\<lparr>p_securebits := (if o_use_capabilities opts then 0x3f else p_securebits (view x2)),
      p_keepcaps := (if o_use_capabilities opts then 1 else p_keepcaps (view x2))\<rparr>"
    using s(3,4) keep_root[of x2 x3] no_root[of x3 x4] by (auto split: if_splits)
  have v5: "view x5 = (view x4)\<lparr>p_dumpable := (if o_disable_tracing opts then 0 else p_dumpable (view x4))\<rparr>"
    using s(5) tracing[of x4 x5] by (auto split: if_splits)
  obtain gs d c where v6: "view x6 = (if o_change_uid opts
        then (view x5)\<lparr>p_uid := o_uid opts, p_gid := o_gid opts, p_groups := gs, p_caps := c, p_dumpable := d\<rparr> else view x5)"
      "d = p_dumpable (view x5) \<or> d = suid_dumpable"
    using s(6) change_user[of "o_uid opts" "o_gid opts" x5 x6] by (auto split: if_splits)
  have v7: "view x7 = (view x6)\<lparr>p_seccomp :=
      (if o_enforce_syscalls_by_source opts then 2 else if o_enforce_syscalls_benchmark opts then 3 else p_seccomp (view x6))\<rparr>"
    using s(7) by_source[of x6 x7] benchmark[of x6 x7] by (auto split: if_splits)
  have v9: "view x' = (view x7)\<lparr>p_caps := (if o_use_capabilities opts then (\<lambda>_. {CAP_SETPCAP}) else p_caps (view x7)),
      p_bset := (if o_use_capabilities opts then p_bset (view x7) \<inter> {CAP_SETPCAP} else p_bset (view x7))\<rparr>"
    using s(8,9) drop_caps[of x7 x8] drop_bset[of x8 x'] by (auto simp: step_if_True split: if_splits)
  have "p_dumpable (view x4) = p_dumpable (view x)" by (simp add: v1 v2 v4)
  then have d: "d = (if o_disable_tracing opts then 0 else p_dumpable (view x)) \<or> d = suid_dumpable"
    using v6(2) by (auto simp: v5 split: if_splits)
  show ?thesis
    by (intro exI[of _ gs] exI[of _ d] exI[of _ c] conjI proc.equality d) (simp_all add: v1 v2 v4 v5 v6(1) v7 v9)
qed

end

section \<open>Linux\<close>

text \<open>
  The documented effects of successful calls on the calling process. A change of the user or group may set the attribute
  \<open>dumpable\<close> to the value of \<open>/proc/sys/fs/suid_dumpable\<close>; a change of the user may change the capabilities.
\<close>

locale linux_kernel =
  fixes K :: "'x kernel" and view :: "'x \<Rightarrow> proc" and last_cap :: nat and suid_dumpable :: int
  assumes prctl_dumpable: "k_prctl K PR_SET_DUMPABLE d x = (0, x') \<Longrightarrow> view x' = (view x)\<lparr>p_dumpable := d\<rparr>"
    and prctl_get_dumpable: "k_prctl K PR_GET_DUMPABLE a x = (r, x') \<Longrightarrow> view x' = view x"
    and prctl_keepcaps: "k_prctl K PR_SET_KEEPCAPS v x = (r, x') \<Longrightarrow> 0 \<le> r \<Longrightarrow> view x' = (view x)\<lparr>p_keepcaps := v\<rparr>"
    and prctl_get_keepcaps: "k_prctl K PR_GET_KEEPCAPS a x = (r, x') \<Longrightarrow> view x' = view x"
    and prctl_securebits: "k_prctl K PR_SET_SECUREBITS v x = (0, x') \<Longrightarrow> view x' = (view x)\<lparr>p_securebits := v\<rparr>"
    and prctl_seccomp: "k_prctl K PR_SET_SECCOMP v x = (0, x') \<Longrightarrow> view x' = (view x)\<lparr>p_seccomp := v\<rparr>"
    and prctl_bset_read: "k_prctl K PR_CAPBSET_READ (int c) x = (r, x') \<Longrightarrow> view x' = view x \<and> (0 \<le> r \<longleftrightarrow> c \<le> last_cap)"
    and prctl_bset_drop: "k_prctl K PR_CAPBSET_DROP (int c) x = (0, x') \<Longrightarrow> view x' = (view x)\<lparr>p_bset := p_bset (view x) - {c}\<rparr>"
    and bset_known: "p_bset (view x) \<subseteq> {..last_cap}" "last_cap < 64"
    and setgroups: "k_setgroups K gs x = (0, x') \<Longrightarrow> view x' = (view x)\<lparr>p_groups := gs\<rparr>"
    and initgroups: "k_initgroups K name g x = (0, x') \<Longrightarrow> \<exists>gs. view x' = (view x)\<lparr>p_groups := gs\<rparr>"
    and setresgid: "k_setresgid K g g g x = (0, x') \<Longrightarrow>
      \<exists>d. view x' = (view x)\<lparr>p_gid := g, p_dumpable := d\<rparr> \<and> (d = p_dumpable (view x) \<or> d = suid_dumpable)"
    and setresuid: "k_setresuid K u u u x = (0, x') \<Longrightarrow>
      \<exists>d c. view x' = (view x)\<lparr>p_uid := u, p_caps := c, p_dumpable := d\<rparr> \<and> (d = p_dumpable (view x) \<or> d = suid_dumpable)"
    and cap_clear: "k_cap_clear_flag K f cs = (0, cs') \<Longrightarrow> cs' = cs(f := {})"
    and cap_set: "k_cap_set_flag K f c cs = (0, cs') \<Longrightarrow> cs' = cs(f := insert c (cs f))"
    and cap_set_proc: "k_cap_set_proc K cs x = (0, x') \<Longrightarrow> view x' = (view x)\<lparr>p_caps := cs\<rparr>"
    and clone: "k_clone K n x = (0, x') \<Longrightarrow>
      view x' = (view x)\<lparr>p_pid_ns := p_pid_ns (view x) \<or> n AND CLONE_NEWPID \<noteq> 0, p_vfs_ns := p_vfs_ns (view x) \<or> n AND CLONE_NEWNS \<noteq> 0\<rparr>"
    and mount_proc: "k_mount K ''proc'' ''/proc'' ''proc'' fl x = (0, x') \<Longrightarrow> bit fl 0 \<Longrightarrow> view x' = (view x)\<lparr>p_proc_ro := True\<rparr>"
begin

lemma bounding_set_loop_effect:
  "bounding_set_loop K 0 n cap x = Some x' \<Longrightarrow> cap + n = 64 \<Longrightarrow>
     view x' = (view x)\<lparr>p_bset := p_bset (view x) - {c. cap \<le> c \<and> c \<noteq> CAP_SETPCAP}\<rparr>"
proof (induction n arbitrary: cap x)
  case 0
  then have "p_bset (view x) - {c. cap \<le> c \<and> c \<noteq> CAP_SETPCAP} = p_bset (view x)" using bset_known(1)[of x] bset_known(2) by auto
  then show ?case using 0 by simp
next
  case (Suc n)
  obtain r x1 where r: "k_prctl K PR_CAPBSET_READ (int cap) x = (r, x1)" by fastforce
  note v1 = prctl_bset_read[OF r]
  consider "r < 0" | "0 \<le> r" "cap = CAP_SETPCAP" | "0 \<le> r" "cap \<noteq> CAP_SETPCAP" by linarith
  then show ?case
  proof cases
    case 1
    then have "p_bset (view x) - {c. cap \<le> c \<and> c \<noteq> CAP_SETPCAP} = p_bset (view x)" using v1 bset_known(1)[of x] by force
    then show ?thesis using Suc.prems(1) r v1 1 by simp
  next
    case 2
    moreover have "{c. cap \<le> c \<and> c \<noteq> CAP_SETPCAP} = {c. Suc cap \<le> c \<and> c \<noteq> CAP_SETPCAP}" using 2 by auto
    ultimately show ?thesis using Suc.IH[of "Suc cap" x1] Suc.prems r v1 by simp
  next
    case 3
    obtain r2 x2 where r2: "k_prctl K PR_CAPBSET_DROP (int cap) x1 = (r2, x2)" by fastforce
    have L: "r2 = 0" "bounding_set_loop K 0 n (Suc cap) x2 = Some x'" using Suc.prems(1) r r2 3 by (auto simp: CHECK_def split: if_splits)
    have "view x2 = (view x)\<lparr>p_bset := p_bset (view x) - {cap}\<rparr>" using prctl_bset_drop[of cap x1 x2] r2 L(1) v1 by simp
    moreover have "p_bset (view x) - {cap} - {c. Suc cap \<le> c \<and> c \<noteq> CAP_SETPCAP} = p_bset (view x) - {c. cap \<le> c \<and> c \<noteq> CAP_SETPCAP}"
      using 3 by auto
    ultimately show ?thesis using Suc.IH[OF L(2)] Suc.prems(2) by simp
  qed
qed

lemma raise_loop_effect:
  "raise_loop K 0 n cap c = Some c' \<Longrightarrow> c' = (\<lambda>f. c f \<union> (if cap \<le> CAP_SETPCAP \<and> CAP_SETPCAP < cap + n then {CAP_SETPCAP} else {}))"
proof (induction n arbitrary: cap c)
  case (Suc n)
  show ?case
  proof (cases "cap = CAP_SETPCAP")
    case True
    obtain r1 c1 where c1: "k_cap_set_flag K CAP_EFFECTIVE cap c = (r1, c1)" by fastforce
    obtain r2 c2 where c2: "k_cap_set_flag K CAP_PERMITTED cap c1 = (r2, c2)" by fastforce
    obtain r3 c3 where c3: "k_cap_set_flag K CAP_INHERITABLE cap c2 = (r3, c3)" by fastforce
    have r: "r1 = 0" "r2 = 0" "r3 = 0" and L: "raise_loop K 0 n (Suc cap) c3 = Some c'"
      using Suc.prems True c1 c2 c3 by (auto simp: CHECK_def split: if_splits)
    have "c3 f = c f \<union> {cap}" for f
      using cap_set[of CAP_EFFECTIVE cap c c1] cap_set[of CAP_PERMITTED cap c1 c2] cap_set[of CAP_INHERITABLE cap c2 c3] c1 c2 c3 r
      by (cases f) simp_all
    then show ?thesis using Suc.IH[OF L] True by (auto simp: fun_eq_iff)
  next
    case False
    then have "raise_loop K 0 n (Suc cap) c = Some c'" using Suc.prems by simp
    from Suc.IH[OF this] False show ?thesis by (auto simp: fun_eq_iff)
  qed
qed auto

lemma DisableTracing_effect: "DisableTracing K x = Some (True, x') \<Longrightarrow> view x' = (view x)\<lparr>p_dumpable := 0\<rparr>"
  by (auto simp: DisableTracing_def CHECK_def split: prod.splits if_splits dest!: prctl_dumpable prctl_get_dumpable)

lemma KeepRootCapabilities_effect: "KeepRootCapabilities K x = Some (True, x') \<Longrightarrow> view x' = (view x)\<lparr>p_keepcaps := 1\<rparr>"
  by (auto simp: KeepRootCapabilities_def CHECK_def split: prod.splits if_splits dest!: prctl_keepcaps prctl_get_keepcaps)

lemma DisableDefaultRootPrivileges_effect:
  "DisableDefaultRootPrivileges K x = Some (True, x') \<Longrightarrow> view x' = (view x)\<lparr>p_securebits := 0x3f\<rparr>"
  by (auto simp: DisableDefaultRootPrivileges_def CHECK_def split: prod.splits if_splits dest!: prctl_securebits)

lemma FilterSyscalls_effect:
  "FilterSyscallsBySource K x = Some (True, x') \<Longrightarrow> view x' = (view x)\<lparr>p_seccomp := 2\<rparr>"
  "FilterSyscallsBenchmarkOnly K x = Some (True, x') \<Longrightarrow> view x' = (view x)\<lparr>p_seccomp := 3\<rparr>"
  by (auto simp: FilterSyscallsBySource_def FilterSyscallsBenchmarkOnly_def CHECK_def split: prod.splits if_splits dest!: prctl_seccomp)

lemma ChangeUser_effect:
  assumes "ChangeUser K u g x = Some (True, x')"
  shows "\<exists>gs d c. view x' = (view x)\<lparr>p_uid := u, p_gid := g, p_groups := gs, p_caps := c, p_dumpable := d\<rparr> \<and>
    (d = p_dumpable (view x) \<or> d = suid_dumpable)"
proof -
  obtain r1 x1 where 1: "(case k_getpwuid K u x of None \<Rightarrow> k_setgroups K [] x | Some (n, g) \<Rightarrow> k_initgroups K n g x) = (r1, x1)" by fastforce
  obtain r2 x2 where 2: "k_setresgid K g g g x1 = (r2, x2)" by fastforce
  obtain r3 x3 where 3: "k_setresuid K u u u x2 = (r3, x3)" by fastforce
  have r: "r1 = 0" "r2 = 0" "r3 = 0" "x' = x3" using assms 1 2 3 by (auto simp: ChangeUser_def CHECK_def split: if_splits)
  obtain gs where v1: "view x1 = (view x)\<lparr>p_groups := gs\<rparr>"
    using 1 r(1) by (auto split: option.splits prod.splits dest!: setgroups initgroups)
  obtain d where v2: "view x2 = (view x1)\<lparr>p_gid := g, p_dumpable := d\<rparr>" "d = p_dumpable (view x1) \<or> d = suid_dumpable"
    using setresgid[of g x1 x2] 2 r(2) by auto
  obtain d' c where v3: "view x3 = (view x2)\<lparr>p_uid := u, p_caps := c, p_dumpable := d'\<rparr>" "d' = p_dumpable (view x2) \<or> d' = suid_dumpable"
    using setresuid[of u x2 x3] 3 r(3) by auto
  show ?thesis
    by (intro exI[of _ gs] exI[of _ d'] exI[of _ c] conjI proc.equality) (use v1 v2 v3 r(4) in auto)
qed

lemma SanitizeCapabilities_effect:
  assumes "SanitizeCapabilities K 0 x = Some (True, x')"
  shows "view x' = (view x)\<lparr>p_caps := (\<lambda>_. {CAP_SETPCAP})\<rparr>"
proof -
  obtain c where c: "k_cap_get_proc K x = Some c" using assms by (cases "k_cap_get_proc K x") (auto simp: SanitizeCapabilities_def)
  obtain r1 c1 where 1: "k_cap_clear_flag K CAP_INHERITABLE c = (r1, c1)" by fastforce
  obtain r2 c2 where 2: "k_cap_clear_flag K CAP_EFFECTIVE c1 = (r2, c2)" by fastforce
  obtain r3 c3 where 3: "k_cap_clear_flag K CAP_PERMITTED c2 = (r3, c3)" by fastforce
  obtain c4 where 4: "raise_loop K 0 64 0 c3 = Some c4"
    using assms c 1 2 3 by (cases "raise_loop K 0 64 0 c3") (auto simp: SanitizeCapabilities_def CHECK_def split: if_splits)
  obtain r5 x5 where 5: "k_cap_set_proc K c4 x = (r5, x5)" by fastforce
  have r: "r1 = 0" "r2 = 0" "r3 = 0" "r5 = 0" "x' = x5"
    using assms c 1 2 3 4 5 by (auto simp: SanitizeCapabilities_def CHECK_def split: if_splits)
  have "c3 f = {}" for f
    using cap_clear[of CAP_INHERITABLE c c1] cap_clear[of CAP_EFFECTIVE c1 c2] cap_clear[of CAP_PERMITTED c2 c3] 1 2 3 r
    by (cases f) simp_all
  then have "c4 = (\<lambda>_. {CAP_SETPCAP})" using raise_loop_effect[OF 4] by simp
  then show ?thesis using cap_set_proc[of c4 x x5] 5 r by simp
qed

lemma SanitizeBoundingSet_effect:
  assumes "SanitizeBoundingSet K 0 x = Some (True, x')"
  shows "view x' = (view x)\<lparr>p_bset := p_bset (view x) \<inter> {CAP_SETPCAP}\<rparr>"
proof -
  have "bounding_set_loop K 0 64 0 x = Some x'" using assms by (auto simp: SanitizeBoundingSet_def split: bind_splits)
  moreover have "p_bset (view x) - {c. 0 \<le> c \<and> c \<noteq> CAP_SETPCAP} = p_bset (view x) \<inter> {CAP_SETPCAP}" by auto
  ultimately show ?thesis using bounding_set_loop_effect[of 64 0 x x'] by simp
qed

lemma EnterNamespace_effect:
  assumes "n \<noteq> 0" "EnterNamespace K n x = Some (True, x')"
  shows "view x' = (view x)\<lparr>p_pid_ns := p_pid_ns (view x) \<or> n AND CLONE_NEWPID \<noteq> 0,
    p_vfs_ns := p_vfs_ns (view x) \<or> n AND CLONE_NEWNS \<noteq> 0\<rparr>"
proof -
  have m: "(n OR CLONE_VFORK OR SIGCHLD) AND CLONE_NEWPID = n AND CLONE_NEWPID"
    "(n OR CLONE_VFORK OR SIGCHLD) AND CLONE_NEWNS = n AND CLONE_NEWNS"
    by (simp_all add: bit.conj_disj_distrib2)
  have "k_clone K (n OR CLONE_VFORK OR SIGCHLD) x = (0, x')"
    using assms by (auto simp: EnterNamespace_def CHECK_def split: prod.splits if_splits)
  from clone[OF this] show ?thesis unfolding m .
qed

lemma Mount_effect: "Env_Mount K x = Some (True, x') \<Longrightarrow> view x' = (view x)\<lparr>p_proc_ro := True\<rparr>"
  by (auto simp: Env_Mount_def CHECK_def split: prod.splits if_splits dest!: mount_proc)

lemmas Env_effects = DisableTracing_effect KeepRootCapabilities_effect DisableDefaultRootPrivileges_effect FilterSyscalls_effect
  ChangeUser_effect SanitizeCapabilities_effect SanitizeBoundingSet_effect EnterNamespace_effect Mount_effect

end

sublocale linux_kernel \<subseteq> jail_env "Env K" view suid_dumpable
  by unfold_locales (simp_all add: Env_def Env_effects del: ex_simps)

context linux_kernel
begin

lemmas kernel_Jail_effect = Jail_effect

end

section \<open>A kernel\<close>

text \<open>A kernel with 34 capabilities in which every call succeeds and the state is the process itself.\<close>

definition linux_prctl :: "int \<Rightarrow> int \<Rightarrow> proc \<Rightarrow> int \<times> proc" where
  "linux_prctl op a x =
     (if op = PR_SET_DUMPABLE then (0, x\<lparr>p_dumpable := a\<rparr>)
      else if op = PR_GET_DUMPABLE then (p_dumpable x, x)
      else if op = PR_SET_KEEPCAPS then (0, x\<lparr>p_keepcaps := a\<rparr>)
      else if op = PR_GET_KEEPCAPS then (p_keepcaps x, x)
      else if op = PR_SET_SECUREBITS then (0, x\<lparr>p_securebits := a\<rparr>)
      else if op = PR_SET_SECCOMP then (0, x\<lparr>p_seccomp := a\<rparr>)
      else if op = PR_CAPBSET_READ then (if a > 33 then -1 else if nat a \<in> p_bset x then 1 else 0, x)
      else if op = PR_CAPBSET_DROP then (0, x\<lparr>p_bset := p_bset x - {nat a}\<rparr>)
      else (-1, x))"

definition linux_model :: "int \<Rightarrow> proc kernel" where
  "linux_model suid_dumpable = \<lparr>k_prctl = linux_prctl,
     k_getpwuid = (\<lambda>u x. if u = 1000 then Some (''chronos'', 1000) else None),
     k_setgroups = (\<lambda>gs x. (0, x\<lparr>p_groups := gs\<rparr>)),
     k_initgroups = (\<lambda>n g x. (0, x\<lparr>p_groups := [g]\<rparr>)),
     k_setresgid = (\<lambda>g _ _ x. (0, x\<lparr>p_gid := g, p_dumpable := suid_dumpable\<rparr>)),
     k_setresuid = (\<lambda>u _ _ x. (0, x\<lparr>p_uid := u, p_dumpable := suid_dumpable,
       p_caps := (if p_keepcaps x = 1 then (p_caps x)(CAP_EFFECTIVE := {}) else (\<lambda>_. {}))\<rparr>)),
     k_cap_get_proc = (\<lambda>x. Some (p_caps x)),
     k_cap_clear_flag = (\<lambda>f cs. (0, cs(f := {}))),
     k_cap_set_flag = (\<lambda>f c cs. (0, cs(f := insert c (cs f)))),
     k_cap_set_proc = (\<lambda>cs x. (0, x\<lparr>p_caps := cs\<rparr>)),
     k_clone = (\<lambda>n x. (0, x\<lparr>p_pid_ns := p_pid_ns x \<or> n AND CLONE_NEWPID \<noteq> 0, p_vfs_ns := p_vfs_ns x \<or> n AND CLONE_NEWNS \<noteq> 0\<rparr>)),
     k_mount = (\<lambda>s t ty fl x. (0, x\<lparr>p_proc_ro := bit fl 0\<rparr>)),
     k_getuid = p_uid, k_getgid = p_gid,
     k_execve = (\<lambda>p a e x. Some x)\<rparr>"

lemma linux_calls:
  "k_prctl (linux_model s) = linux_prctl" "k_getpwuid (linux_model s) 1000 x = Some (''chronos'', 1000)"
  "k_initgroups (linux_model s) n g x = (0, x\<lparr>p_groups := [g]\<rparr>)"
  "k_setresgid (linux_model s) g g g x = (0, x\<lparr>p_gid := g, p_dumpable := s\<rparr>)" "fst (k_setresuid (linux_model s) u u u x) = 0"
  "fst (k_clone (linux_model s) f x) = 0" "fst (k_mount (linux_model s) a b c f x) = 0"
  "k_getuid (linux_model s) = p_uid" "k_getgid (linux_model s) = p_gid"
  by (simp_all add: linux_model_def)

definition linux_view :: "proc \<Rightarrow> proc" where
  "linux_view x = x\<lparr>p_bset := p_bset x \<inter> {..33}\<rparr>"

lemma linux_setresuid:
  assumes "k_setresuid (linux_model s) u u u x = (0, x')"
  shows "\<exists>d c. linux_view x' = (linux_view x)\<lparr>p_uid := u, p_caps := c, p_dumpable := d\<rparr> \<and> (d = p_dumpable (linux_view x) \<or> d = s)"
  by (intro exI[of _ s] exI[of _ "p_caps x'"]) (use assms in \<open>auto simp: linux_model_def linux_view_def\<close>)

interpretation linux: linux_kernel "linux_model suid_dumpable" linux_view 33 suid_dumpable for suid_dumpable
  by unfold_locales (rule linux_setresuid, assumption |
    (auto simp: linux_model_def linux_prctl_def linux_view_def split: if_splits intro!: proc.equality)[1])+

lemma linux_loops_return:
  "\<exists>x'. bounding_set_loop (linux_model s) m n cap x = Some x'"
  "\<exists>c'. raise_loop (linux_model s) m n cap c = Some c'"
  by (induction n arbitrary: cap x c) (auto simp: linux_model_def linux_prctl_def CHECK_def)

lemma linux_sanitize_returns:
  "\<exists>x'. SanitizeBoundingSet (linux_model s) m x = Some (True, x')"
  "\<exists>x'. SanitizeCapabilities (linux_model s) m x = Some (True, x')"
proof -
  show "\<exists>x'. SanitizeBoundingSet (linux_model s) m x = Some (True, x')"
    using linux_loops_return(1)[of s m 64 0 x] by (auto simp: SanitizeBoundingSet_def)
  obtain c where "raise_loop (linux_model s) m 64 0 ((p_caps x)(CAP_INHERITABLE := {}, CAP_EFFECTIVE := {}, CAP_PERMITTED := {})) = Some c"
    using linux_loops_return(2) by blast
  then show "\<exists>x'. SanitizeCapabilities (linux_model s) m x = Some (True, x')"
    by (simp add: SanitizeCapabilities_def CHECK_def linux_model_def)
qed

text \<open>On this kernel a jail for a user, with capabilities, name spaces and a filter, is entered.\<close>

definition jail_options :: Options where
  "jail_options = set_gid 1000 (set_uid 1000 (new_Options\<lparr>o_namespace_pid := True, o_namespace_vfs := True,
     o_add_readonly_mounts := True, o_disable_tracing := True, o_use_capabilities := True, o_enforce_syscalls_by_source := True\<rparr>))"

lemma linux_Jail_returns: "\<exists>x'. Jail (Env (linux_model s)) g h (Some jail_options) x = Some (True, x')"
proof -
  obtain F where F: "\<And>x. SanitizeCapabilities (linux_model s) 0 x = Some (True, F x)"
    using linux_sanitize_returns(2) by metis
  obtain G where G: "\<And>x. SanitizeBoundingSet (linux_model s) 0 x = Some (True, G x)"
    using linux_sanitize_returns(1) by metis
  show ?thesis
    by (simp add: Jail_def jail_options_def step_if_def Env_def F G set_uid_def set_gid_def new_Options_def change_uid_def change_gid_def
        EnterNamespace_def Env_Mount_def KeepRootCapabilities_def DisableDefaultRootPrivileges_def DisableTracing_def ChangeUser_def
        FilterSyscallsBySource_def CHECK_def case_prod_unfold linux_calls linux_prctl_def)
qed

section \<open>Properties\<close>

text \<open>
  C9: a process that has gone through \<open>MiniJail::Jail\<close> has every attribute its options ask for. With a user, it has that
  user and the group of the options; with \<open>use_capabilities\<close> it has exactly the capability \<open>CAP_SETPCAP\<close> in each of its sets, at most
  this one in its bounding set, and the locked secure bits; it is in the name spaces, under the filter and with the read-only
  \<open>/proc\<close> that are asked for. Tracing is off when it is to be disabled, except that a change of the user may set the
  attribute again, to the system's value for such processes.
\<close>

theorem Jail_confines:
  assumes "linux_kernel K view last_cap suid_dumpable"
    and "Jail (Env K) (k_getuid K) (k_getgid K) (Some opts) x = Some (True, x')"
  shows "(change_uid opts \<longrightarrow> p_uid (view x') = o_uid opts \<and> p_gid (view x') = o_gid opts) \<and>
    (o_use_capabilities opts \<longrightarrow> p_caps (view x') = (\<lambda>_. {CAP_SETPCAP}) \<and> p_bset (view x') \<subseteq> {CAP_SETPCAP} \<and> p_securebits (view x') = 0x3f) \<and>
    (o_namespace_pid opts \<longrightarrow> p_pid_ns (view x')) \<and> (o_namespace_vfs opts \<longrightarrow> p_vfs_ns (view x')) \<and>
    (o_namespace_vfs opts \<and> o_add_readonly_mounts opts \<longrightarrow> p_proc_ro (view x')) \<and>
    (o_enforce_syscalls_by_source opts \<longrightarrow> p_seccomp (view x') = 2) \<and>
    (o_enforce_syscalls_benchmark opts \<and> \<not> o_enforce_syscalls_by_source opts \<longrightarrow> p_seccomp (view x') = 3) \<and>
    (o_disable_tracing opts \<longrightarrow> p_dumpable (view x') = 0 \<or> change_uid opts \<and> p_dumpable (view x') = suid_dumpable)"
  using linux_kernel.kernel_Jail_effect[OF assms] by (auto simp: change_uid_def split: if_splits)

theorem Jail_confines_witness:
  "\<exists>x'. Jail (Env (linux_model 2)) p_uid p_gid (Some jail_options) \<lparr>p_uid = 0, p_gid = 0, p_groups = [0], p_caps = (\<lambda>_. {0..33}), p_bset = {0..33},
      p_securebits = 0, p_keepcaps = 0, p_dumpable = 1, p_seccomp = 0, p_pid_ns = False, p_vfs_ns = False, p_proc_ro = False\<rparr> = Some (True, x') \<and>
    p_uid (linux_view x') = 1000 \<and> p_caps (linux_view x') = (\<lambda>_. {8}) \<and> p_seccomp (linux_view x') = 2"
proof -
  obtain x' where x': "Jail (Env (linux_model 2)) p_uid p_gid (Some jail_options) \<lparr>p_uid = 0, p_gid = 0, p_groups = [0], p_caps = (\<lambda>_. {0..33}), p_bset = {0..33},
      p_securebits = 0, p_keepcaps = 0, p_dumpable = 1, p_seccomp = 0, p_pid_ns = False, p_vfs_ns = False, p_proc_ro = False\<rparr> = Some (True, x')"
    using linux_Jail_returns by blast
  from Jail_confines[OF linux.linux_kernel_axioms, of 2 jail_options, of _ x'] x' show ?thesis
    unfolding linux_calls by (intro exI[of _ x'] conjI) (auto simp: jail_options_def set_uid_def set_gid_def new_Options_def change_uid_def)
qed

text \<open>
  C38: \<open>Options::change_gid()\<close> returns the flag of the user. A jail with only a group given leaves user and group of the
  process as they are, and one with only a user given moves it into group 0.
\<close>

theorem Jail_gid_option:
  assumes "linux_kernel K view last_cap suid_dumpable"
    and "Jail (Env K) (k_getuid K) (k_getgid K) (Some opts) x = Some (True, x')"
  shows "(opts = set_gid g new_Options \<longrightarrow> p_uid (view x') = p_uid (view x) \<and> p_gid (view x') = p_gid (view x)) \<and>
    (opts = set_uid u new_Options \<longrightarrow> p_uid (view x') = u \<and> p_gid (view x') = 0)"
  using linux_kernel.kernel_Jail_effect[OF assms] by (auto simp: set_gid_def set_uid_def new_Options_def)

theorem Jail_gid_option_witness:
  "\<exists>x'. Jail (Env (linux_model 0)) p_uid p_gid (Some (set_uid 1000 new_Options)) \<lparr>p_uid = 0, p_gid = 5, p_groups = [], p_caps = (\<lambda>_. {}), p_bset = {},
      p_securebits = 0, p_keepcaps = 0, p_dumpable = 1, p_seccomp = 0, p_pid_ns = False, p_vfs_ns = False, p_proc_ro = False\<rparr> = Some (True, x') \<and>
    p_uid (linux_view x') = 1000 \<and> p_gid (linux_view x') = 0"
proof -
  obtain x' where x': "Jail (Env (linux_model 0)) p_uid p_gid (Some (set_uid 1000 new_Options)) \<lparr>p_uid = 0, p_gid = 5, p_groups = [], p_caps = (\<lambda>_. {}), p_bset = {},
      p_securebits = 0, p_keepcaps = 0, p_dumpable = 1, p_seccomp = 0, p_pid_ns = False, p_vfs_ns = False, p_proc_ro = False\<rparr> = Some (True, x')"
    by (simp add: Jail_def step_if_def Env_def set_uid_def new_Options_def change_uid_def change_gid_def ChangeUser_def CHECK_def linux_model_def)
  from Jail_gid_option[OF linux.linux_kernel_axioms, of 0 "set_uid 1000 new_Options" _ x' _ 1000] x' show ?thesis
    unfolding linux_calls by (intro exI[of _ x'] conjI) auto
qed

end
