(* ===== verification/PO_Auth.thy ===== *)
theory PO_Auth
  imports Prelude
begin

text \<open>
  The offline authentication module (\<open>pam_offline/utils.cc\<close>, \<open>username_password.cc\<close>, \<open>authenticator.cc\<close>,
  \<open>pam_prompt_wrapper.cc\<close>, \<open>username_password_fetcher.cc\<close>, \<open>pam_offline.cc\<close>).

  OpenSSL, the PAM framework and the file system are parameters. \<^term>\<open>None\<close> stands for a failed \<open>CHECK\<close>, for an
  access outside of an array and for an exception, and in the search for a master key for a loop that does not end.
  The clearing and freeing of memory is modelled for the credentials only.
\<close>

unbundle bit_operations_syntax

section \<open>utils\<close>

type_synonym blob = "byte list"

definition to_blob :: "string \<Rightarrow> blob" where
  "to_blob s = map of_char s"

definition to_lower :: "nat \<Rightarrow> nat" where
  "to_lower n = (if 65 \<le> n \<and> n \<le> 90 then n + 32 else n)"

text \<open>A byte above 127 is a negative \<open>char\<close> and fails the first check, as an unsigned one would fail the second.\<close>

definition DecodeChar :: "char \<Rightarrow> byte option" where
  "DecodeChar c =
     (let ch = to_lower (of_char c)
      in if ch \<le> 57 \<and> ch \<ge> 48 then Some (of_nat (ch - 48))
         else do { CHECK (ch \<ge> 97); CHECK (ch \<le> 102); Some (of_nat (ch - 97 + 10)) })"

definition hex_digits :: string where
  "hex_digits = ''0123456789abcdef''"

fun encode_loop :: "blob \<Rightarrow> string \<Rightarrow> string" where
  "encode_loop [] out = out"
| "encode_loop (b # bs) out =
     encode_loop bs (out @ [hex_digits ! unat (drop_bit 4 b AND 0xf)] @ [hex_digits ! unat (b AND 0xf)])"

definition AsciiEncode :: "blob \<Rightarrow> string option" where
  "AsciiEncode blob = do {
     let out = encode_loop blob [];
     CHECK (length blob * 2 = length out);
     Some out }"

fun decode_loop :: "string \<Rightarrow> blob \<Rightarrow> blob option" where
  "decode_loop [] out = Some out"
| "decode_loop [c] out = None"
| "decode_loop (c # d # cs) out = do {
     append \<leftarrow> DecodeChar c;
     let append = push_bit 4 append;
     low \<leftarrow> DecodeChar d;
     decode_loop cs (out @ [append OR low]) }"

definition AsciiDecode :: "string \<Rightarrow> blob option" where
  "AsciiDecode str =
     (if length str mod 2 \<noteq> 0 then Some []
      else do {
        out \<leftarrow> decode_loop str [];
        CHECK (length out * 2 = length str);
        Some out })"

text \<open>The last character of an empty base path does not exist.\<close>

definition PathAppend :: "string \<Rightarrow> string \<Rightarrow> string option" where
  "PathAppend base_path leaf =
     (if base_path = [] then None
      else Some ((if last base_path \<noteq> CHR ''/'' then base_path @ ''/'' else base_path) @ leaf))"

text \<open>Files by their path: whether they can be opened and read, the size that \<open>fstat\<close> reports, and what a \<open>read\<close> of a number of bytes gives.\<close>

record fsys =
  f_open :: "string \<Rightarrow> bool"
  f_fstat :: "string \<Rightarrow> nat option"
  f_read :: "string \<Rightarrow> nat \<Rightarrow> blob option"
  f_access :: "string \<Rightarrow> bool"

text \<open>The bytes, or \<^term>\<open>None\<close> for the result \<open>false\<close>.\<close>

definition LoadFileBytes :: "fsys \<Rightarrow> string \<Rightarrow> blob option" where
  "LoadFileBytes F filename =
     (if \<not> f_open F filename then None
      else case f_fstat F filename of
        None \<Rightarrow> None
      | Some file_size \<Rightarrow>
          (case f_read F filename file_size of
             None \<Rightarrow> None
           | Some buf \<Rightarrow> if length buf \<noteq> file_size then None else Some buf))"

definition LoadFileString :: "fsys \<Rightarrow> string \<Rightarrow> blob option" where
  "LoadFileString F filename = LoadFileBytes F filename"

section \<open>OpenSSL and C strings\<close>

text \<open>\<open>o_BytesToKey\<close> is \<open>EVP_BytesToKey\<close> for AES-256-CBC, SHA1 and one iteration; the cipher is AES-256-ECB.\<close>

record 'c openssl =
  o_SHA1 :: "blob \<Rightarrow> blob"
  o_SHA256 :: "blob \<Rightarrow> blob"
  o_BytesToKey :: "blob \<Rightarrow> blob \<Rightarrow> int \<times> blob \<times> blob"
  o_DecryptInit :: "blob \<Rightarrow> blob \<Rightarrow> 'c"
  o_DecryptUpdate :: "'c \<Rightarrow> blob \<Rightarrow> 'c"
  o_DecryptFinal :: "'c \<Rightarrow> int"

abbreviation (input) "EVP_MAX_KEY_LENGTH \<equiv> 32 :: int"
abbreviation (input) "PKCS5_SALT_LEN \<equiv> 8 :: nat"
abbreviation (input) "NUL \<equiv> CHR 0x00"

text \<open>Arrays of characters; the string in an array ends before its first zero.\<close>

definition cstr :: "string \<Rightarrow> string" where
  "cstr buf = takeWhile (\<lambda>c. c \<noteq> NUL) buf"

definition strlen :: "string \<Rightarrow> nat option" where
  "strlen buf = (if NUL \<in> set buf then Some (length (cstr buf)) else None)"

definition strncpy :: "string \<Rightarrow> string \<Rightarrow> nat \<Rightarrow> string option" where
  "strncpy dst src n = (if n \<le> length dst then Some (take n (cstr src @ replicate n NUL) @ drop n dst) else None)"

section \<open>UsernamePassword\<close>

record UsernamePassword =
  up_username :: string
  up_password :: string

text \<open>The constructor, with the arrays that \<open>Init\<close> allocates and fills.\<close>

definition UP_Init :: "string \<Rightarrow> nat \<Rightarrow> string \<Rightarrow> nat \<Rightarrow> UsernamePassword option" where
  "UP_Init username username_length password password_length = do {
     u \<leftarrow> strncpy (replicate (username_length + 1) (CHR ''?'')) username username_length;
     p \<leftarrow> strncpy (replicate (password_length + 1) (CHR ''?'')) password password_length;
     Some \<lparr>up_username = u[username_length := NUL], up_password = p[password_length := NUL]\<rparr> }"

definition clear_string :: "string \<Rightarrow> string" where
  "clear_string buf = replicate (length (cstr buf)) NUL @ drop (length (cstr buf)) buf"

definition destroy_UsernamePassword :: "UsernamePassword \<Rightarrow> UsernamePassword" where
  "destroy_UsernamePassword up = \<lparr>up_username = clear_string (up_username up), up_password = clear_string (up_password up)\<rparr>"

definition IsLocalAccount :: "string \<Rightarrow> UsernamePassword \<Rightarrow> bool" where
  "IsLocalAccount kLocalAccount up = prefix kLocalAccount (cstr (up_username up))"

definition GetFullUsername :: "UsernamePassword \<Rightarrow> string \<Rightarrow> nat \<Rightarrow> string option" where
  "GetFullUsername up name_buffer len = strncpy name_buffer (up_username up) len"

definition GetPartialUsername :: "UsernamePassword \<Rightarrow> string \<Rightarrow> nat \<Rightarrow> string option" where
  "GetPartialUsername up name_buffer len =
     (let at_ptr = str_rfind (cstr (up_username up)) (CHR ''@'')
      in if at_ptr = npos then None
         else strncpy name_buffer ((up_username up)[at_ptr := NUL]) len)"

definition GetObfuscatedUsername :: "'c openssl \<Rightarrow> UsernamePassword \<Rightarrow> blob \<Rightarrow> string option" where
  "GetObfuscatedUsername L up system_salt = AsciiEncode (o_SHA1 L (system_salt @ to_blob (cstr (up_username up))))"

definition GetPasswordWeakHash :: "'c openssl \<Rightarrow> UsernamePassword \<Rightarrow> blob \<Rightarrow> string option" where
  "GetPasswordWeakHash L up system_salt = do {
     system_salt_ascii \<leftarrow> AsciiEncode system_salt;
     let md_value = o_SHA256 L (to_blob system_salt_ascii @ to_blob (cstr (up_password up)));
     AsciiEncode (take 16 md_value) }"

section \<open>Authenticator\<close>

record Authenticator =
  au_shadow_root :: string
  au_system_salt :: blob

definition kDefaultShadowRoot :: string where
  "kDefaultShadowRoot = ''/home/.shadow/''"

definition kOpenSSLMagic :: string where
  "kOpenSSLMagic = ''Salted__''"

definition new_Authenticator :: "string \<Rightarrow> Authenticator" where
  "new_Authenticator shadow_root = \<lparr>au_shadow_root = shadow_root, au_system_salt = []\<rparr>"

definition Auth_Init :: "fsys \<Rightarrow> Authenticator \<Rightarrow> (bool \<times> Authenticator) option" where
  "Auth_Init F auth = do {
     path \<leftarrow> PathAppend (au_shadow_root auth) ''salt'';
     Some (case LoadFileBytes F path of
         None \<Rightarrow> (False, auth)
       | Some salt \<Rightarrow> (True, auth\<lparr>au_system_salt := salt\<rparr>)) }"

definition GetSystemSalt :: "Authenticator \<Rightarrow> blob" where
  "GetSystemSalt auth = au_system_salt auth"

fun wrap_loop :: "'c openssl \<Rightarrow> blob \<Rightarrow> nat \<Rightarrow> blob \<Rightarrow> blob" where
  "wrap_loop L master_salt 0 blob = blob"
| "wrap_loop L master_salt (Suc n) blob = wrap_loop L master_salt n (o_SHA1 L (master_salt @ blob))"

text \<open>Without a salt \<open>return false\<close> makes a string from a null pointer.\<close>

definition IteratedWrapHashedPassword :: "'c openssl \<Rightarrow> fsys \<Rightarrow> string \<Rightarrow> string \<Rightarrow> nat \<Rightarrow> string option" where
  "IteratedWrapHashedPassword L F master_salt_file hashed_password iters =
     (case LoadFileString F master_salt_file of
        None \<Rightarrow> None
      | Some master_salt \<Rightarrow> AsciiEncode (wrap_loop L master_salt iters (to_blob hashed_password)))"

definition WrapHashedPassword :: "'c openssl \<Rightarrow> fsys \<Rightarrow> string \<Rightarrow> string \<Rightarrow> string option" where
  "WrapHashedPassword L F master_salt_file hashed_password = IteratedWrapHashedPassword L F master_salt_file hashed_password 1"

definition TestDecrypt :: "'c openssl \<Rightarrow> string \<Rightarrow> blob \<Rightarrow> blob \<Rightarrow> bool" where
  "TestDecrypt L passphrase salt cipher_text =
     (if length salt < PKCS5_SALT_LEN then False
      else case o_BytesToKey L salt (to_blob passphrase) of
        (rv, key, iv) \<Rightarrow>
          if rv \<noteq> EVP_MAX_KEY_LENGTH then False
          else let d_ctx = o_DecryptInit L key iv;
                   d_ctx = o_DecryptUpdate L d_ctx cipher_text;
                   rv = o_DecryptFinal L d_ctx
               in if rv \<noteq> 1 then False else True)"

definition TestOneMasterKey :: "'c openssl \<Rightarrow> fsys \<Rightarrow> Authenticator \<Rightarrow> string \<Rightarrow> string \<Rightarrow> bool option" where
  "TestOneMasterKey L F auth master_key_file hashed_password =
     (if au_system_salt auth = [] then Some False
      else case LoadFileBytes F master_key_file of
        None \<Rightarrow> Some False
      | Some cipher_text \<Rightarrow>
          (let header_size = length kOpenSSLMagic + PKCS5_SALT_LEN
           in if length cipher_text \<le> header_size then Some False
              else if take (length kOpenSSLMagic) cipher_text \<noteq> to_blob kOpenSSLMagic then Some False
              else do {
                let salt = take PKCS5_SALT_LEN (drop (length kOpenSSLMagic) cipher_text);
                passphrase \<leftarrow> WrapHashedPassword L F (master_key_file @ ''.salt'') hashed_password;
                Some (TestDecrypt L passphrase salt (drop header_size cipher_text)) }))"

text \<open>\<open>"%i"\<close> of a number that is not negative.\<close>

fun decimal :: "nat \<Rightarrow> string" where
  "decimal n = (if n < 10 then [hex_digits ! n] else decimal (n div 10) @ [hex_digits ! (n mod 10)])"

declare decimal.simps [simp del]

text \<open>The array for the index holds four characters and the terminating zero.\<close>

definition index_str :: "nat \<Rightarrow> string" where
  "index_str i = take 4 (decimal i)"

partial_function (option) key_loop :: "'c openssl \<Rightarrow> fsys \<Rightarrow> Authenticator \<Rightarrow> string \<Rightarrow> string \<Rightarrow> nat \<Rightarrow> bool option" where
  "key_loop L F auth user_path weak_hash i = do {
     master_key_file \<leftarrow> PathAppend user_path ''master.'';
     let master_key_file = master_key_file @ index_str i;
     if \<not> f_access F master_key_file then Some False
     else do {
       ok \<leftarrow> TestOneMasterKey L F auth master_key_file weak_hash;
       if ok then Some True else key_loop L F auth user_path weak_hash (Suc i) } }"

text \<open>\<open>local\<close> is the name of the local account in a build that has one.\<close>

definition TestAllMasterKeys :: "string option \<Rightarrow> 'c openssl \<Rightarrow> fsys \<Rightarrow> Authenticator \<Rightarrow> UsernamePassword \<Rightarrow> bool option" where
  "TestAllMasterKeys local L F auth credentials =
     (if (case local of None \<Rightarrow> False | Some kLocalAccount \<Rightarrow> IsLocalAccount kLocalAccount credentials) then Some True
      else if au_system_salt auth = [] then Some False
      else do {
        name \<leftarrow> GetObfuscatedUsername L credentials (au_system_salt auth);
        user_path \<leftarrow> PathAppend (au_shadow_root auth) name;
        weak_hash \<leftarrow> GetPasswordWeakHash L credentials (au_system_salt auth);
        key_loop L F auth user_path weak_hash 0 })"

section \<open>The conversation with the user\<close>

text \<open>The PAM framework; a handle is its state.\<close>

record 'p pam =
  pam_getenv :: "string \<Rightarrow> 'p \<Rightarrow> string option"
  pam_prompt :: "int \<Rightarrow> string \<Rightarrow> 'p \<Rightarrow> int \<times> string option \<times> 'p"
  pam_set_item :: "int \<Rightarrow> string \<Rightarrow> 'p \<Rightarrow> 'p"
  pam_set_data :: "string \<Rightarrow> int option \<Rightarrow> 'p \<Rightarrow> 'p"
  pam_get_data :: "string \<Rightarrow> 'p \<Rightarrow> int \<times> int option"

abbreviation (input) "PAM_SUCCESS \<equiv> 0 :: int"
abbreviation (input) "PAM_BUF_ERR \<equiv> 5 :: int"
abbreviation (input) "PAM_AUTH_ERR \<equiv> 7 :: int"
abbreviation (input) "PAM_ABORT \<equiv> 26 :: int"
abbreviation (input) "PAM_PROMPT_ECHO_OFF \<equiv> 1 :: int"
abbreviation (input) "PAM_PROMPT_ECHO_ON \<equiv> 2 :: int"
abbreviation (input) "PAM_USER \<equiv> 2 :: int"
abbreviation (input) "PAM_AUTHTOK \<equiv> 6 :: int"

text \<open>What was prompted for, copied to the response when the call succeeded; \<open>strncpy\<close> from a null pointer does not return.\<close>

definition copy_response :: "int \<Rightarrow> string option \<Rightarrow> string \<Rightarrow> nat \<Rightarrow> string option" where
  "copy_response r resp response response_len =
     (if r = PAM_SUCCESS then (case resp of None \<Rightarrow> None | Some s \<Rightarrow> strncpy response s response_len) else Some response)"

definition GetUsername :: "'p pam \<Rightarrow> 'p option \<Rightarrow> string option \<Rightarrow> nat \<Rightarrow> (int \<times> string option \<times> 'p option) option" where
  "GetUsername P pamh response response_len =
     (case pamh of
        None \<Rightarrow> Some (PAM_ABORT, response, pamh)
      | Some p \<Rightarrow>
          (case response of
             None \<Rightarrow> Some (PAM_BUF_ERR, response, pamh)
           | Some response \<Rightarrow>
               (case pam_getenv P ''CHROMEOS_USER'' p of
                  Some (c # cs) \<Rightarrow> do {
                    response \<leftarrow> strncpy response (c # cs) (length (c # cs));
                    Some (PAM_SUCCESS, Some response, Some p) }
                | _ \<Rightarrow> do {
                    let (r, resp, p) = pam_prompt P PAM_PROMPT_ECHO_ON ''Username: '' p;
                    response \<leftarrow> copy_response r resp response response_len;
                    Some (r, Some response, Some p) })))"

definition GetPassword :: "'p pam \<Rightarrow> 'p option \<Rightarrow> string option \<Rightarrow> nat \<Rightarrow> (int \<times> string option \<times> 'p option) option" where
  "GetPassword P pamh response response_len =
     (case pamh of
        None \<Rightarrow> Some (PAM_ABORT, response, pamh)
      | Some p \<Rightarrow>
          (case response of
             None \<Rightarrow> Some (PAM_BUF_ERR, response, pamh)
           | Some response \<Rightarrow> do {
               let (r, resp, p) = pam_prompt P PAM_PROMPT_ECHO_OFF ''Password: '' p;
               response \<leftarrow> copy_response r resp response response_len;
               let p = pam_set_item P PAM_AUTHTOK [] p;
               Some (r, Some response, Some p) }))"

definition FetchCredentials :: "'p pam \<Rightarrow> 'p option \<Rightarrow> (UsernamePassword option \<times> 'p option) option" where
  "FetchCredentials P pamh =
     (if pamh = None then Some (None, pamh)
      else do {
        (r, username, pamh) \<leftarrow> GetUsername P pamh (Some (replicate 320 NUL)) 320;
        if r \<noteq> PAM_SUCCESS then Some (None, pamh)
        else do {
          (r, password, pamh) \<leftarrow> GetPassword P pamh (Some (replicate 50 NUL)) 50;
          if r \<noteq> PAM_SUCCESS then Some (None, pamh)
          else do {
            u \<leftarrow> strlen (the username);
            p \<leftarrow> strlen (the password);
            cred \<leftarrow> UP_Init (the username) u (the password) p;
            Some (Some cred, pamh) } } })"

section \<open>The entry points\<close>

definition pam_sm_authenticate ::
  "string option \<Rightarrow> 'c openssl \<Rightarrow> fsys \<Rightarrow> 'p pam \<Rightarrow> 'p option \<Rightarrow> (int \<times> 'p option) option" where
  "pam_sm_authenticate local L F P pamh = do {
     (credentials, pamh) \<leftarrow> FetchCredentials P pamh;
     (retval, pamh) \<leftarrow>
       (case credentials of
          None \<Rightarrow> Some (PAM_AUTH_ERR, pamh)
        | Some credentials \<Rightarrow> do {
            (ok, auth) \<leftarrow> Auth_Init F (new_Authenticator kDefaultShadowRoot);
            if ok then do {
              ok \<leftarrow> TestAllMasterKeys local L F auth credentials;
              Some (if ok then (PAM_SUCCESS, map_option (pam_set_item P PAM_USER ''chronos'') pamh) else (PAM_AUTH_ERR, pamh)) }
            else Some (PAM_AUTH_ERR, pamh) });
     let pamh = map_option (pam_set_data P ''unix_setcred_return'' (Some retval)) pamh;
     Some (retval, pamh) }"

definition pam_sm_setcred :: "'p pam \<Rightarrow> 'p \<Rightarrow> int \<times> 'p" where
  "pam_sm_setcred P pamh =
     (case pam_get_data P ''unix_setcred_return'' pamh of
        (r, pretval) \<Rightarrow>
          if r = PAM_SUCCESS \<and> pretval \<noteq> None
          then (the pretval, pam_set_data P ''unix_setcred_return'' None pamh)
          else (PAM_SUCCESS, pamh))"

end
