(* ===== verification/PO_Auth_Props.thy ===== *)
theory PO_Auth_Props
  imports PO_Auth
begin

text \<open>
  What the offline authentication promises: the encoding of binary data in hexadecimal digits can be undone, the search
  for a master key ends at the first one that cannot be read and finds a key exactly when one of those before it can be
  decrypted, and the two entry points of the module agree on the result.
\<close>

section \<open>Hexadecimal digits\<close>

definition hex :: "blob \<Rightarrow> string" where
  "hex bs = concat (map (\<lambda>b. [hex_digits ! unat (drop_bit 4 b AND 0xf), hex_digits ! unat (b AND 0xf)]) bs)"

lemma hex_simps [simp]:
  "hex [] = []" "hex (b # bs) = hex_digits ! unat (drop_bit 4 b AND 0xf) # hex_digits ! unat (b AND 0xf) # hex bs"
  by (simp_all add: hex_def)

lemma length_hex [simp]: "length (hex bs) = 2 * length bs"
  by (induction bs) simp_all

lemma encode_loop_hex: "encode_loop bs out = out @ hex bs"
  by (induction bs arbitrary: out) simp_all

lemma AsciiEncode_hex [simp]: "AsciiEncode bs = Some (hex bs)"
  by (simp add: AsciiEncode_def encode_loop_hex)

lemma less_16_cases: "n < 16 \<Longrightarrow> n \<in> set [0..<16]" for n :: nat
  by simp

lemma DecodeChar_digit: "n < 16 \<Longrightarrow> DecodeChar (hex_digits ! n) = Some (of_nat n)"
  by (drule less_16_cases, simp add: upt_rec, elim disjE; simp add: DecodeChar_def hex_digits_def to_lower_def Let_def)

lemma and_15: "b AND 0xf = take_bit 4 b" for b :: byte
  by (simp add: take_bit_eq_mask mask_eq_exp_minus_1)

lemma take_4_less: "unat (take_bit 4 b) < 16" for b :: byte
  using take_bit_nat_less_exp[of 4 "unat b"] by (simp add: unsigned_take_bit_eq)

lemma nibbles: "push_bit 4 (take_bit 4 (drop_bit 4 b)) OR take_bit 4 b = b" for b :: byte
  by (rule bit_word_eqI) (auto simp: bit_simps)

lemma decode_loop_hex: "decode_loop (hex bs) out = Some (out @ bs)"
  by (induction bs arbitrary: out) (simp_all add: DecodeChar_digit and_15 take_4_less nibbles del: push_bit_take_bit)

text \<open>\<open>AsciiEncode\<close> writes two characters for each byte, and \<open>AsciiDecode\<close> gives the bytes back.\<close>

theorem Ascii_roundtrip:
  "\<exists>s. AsciiEncode bs = Some s \<and> length s = 2 * length bs \<and> AsciiDecode s = Some bs"
  by (simp add: AsciiDecode_def decode_loop_hex)

section \<open>Master keys\<close>

lemma decimal_short: "n < 10 ^ k \<Longrightarrow> 0 < k \<Longrightarrow> length (decimal n) \<le> k"
proof (induction k arbitrary: n)
  case (Suc k)
  show ?case
  proof (cases "n < 10")
    case False
    then have "0 < k" using Suc.prems by (cases k) auto
    moreover have "n div 10 < 10 ^ k" using Suc.prems by (simp add: less_mult_imp_div_less mult.commute)
    ultimately have "length (decimal (n div 10)) \<le> k" using Suc.IH by blast
    then show ?thesis using False by (subst decimal.simps) simp
  qed (subst decimal.simps, simp)
qed simp

lemma index_str_decimal: "i < 10000 \<Longrightarrow> index_str i = decimal i"
  using decimal_short[of i 4] by (simp add: index_str_def)

text \<open>The passphrase for a key, and when it opens the key: the file is a salted OpenSSL file whose text decrypts with correct padding.\<close>

definition key_opens :: "'c openssl \<Rightarrow> fsys \<Rightarrow> string \<Rightarrow> string \<Rightarrow> bool" where
  "key_opens L F key_file weak_hash \<longleftrightarrow>
     (\<exists>salt enc master_salt.
        LoadFileBytes F key_file = Some (to_blob ''Salted__'' @ salt @ enc) \<and> length salt = 8 \<and> enc \<noteq> [] \<and>
        LoadFileBytes F (key_file @ ''.salt'') = Some master_salt \<and>
        (case o_BytesToKey L salt (to_blob (hex (o_SHA1 L (master_salt @ to_blob weak_hash)))) of
           (n, key, iv) \<Rightarrow> n = 32 \<and> o_DecryptFinal L (o_DecryptUpdate L (o_DecryptInit L key iv) enc) = 1))"

lemma TestOneMasterKey_opens:
  assumes "au_system_salt auth \<noteq> []" "LoadFileBytes F (key_file @ ''.salt'') = Some master_salt"
  shows "TestOneMasterKey L F auth key_file weak_hash = Some (key_opens L F key_file weak_hash)"
proof (cases "LoadFileBytes F key_file")
  case None
  then show ?thesis using assms by (simp add: TestOneMasterKey_def key_opens_def)
next
  case (Some ct)
  have magic: "length kOpenSSLMagic = 8" "length (to_blob ''Salted__'') = 8" "to_blob kOpenSSLMagic = to_blob ''Salted__''"
    by (simp_all add: kOpenSSLMagic_def to_blob_def)
  show ?thesis
  proof (cases "16 < length ct \<and> take 8 ct = to_blob ''Salted__''")
    case True
    have ct: "LoadFileBytes F key_file = Some (to_blob ''Salted__'' @ take 8 (drop 8 ct) @ drop 16 ct)"
      using True Some by (metis append_take_drop_id drop_drop numeral_Bit0)
    have len: "length (take 8 (drop 8 ct)) = 8" "drop 16 ct \<noteq> []" using True by auto
    have uniq: "LoadFileBytes F key_file = Some (to_blob ''Salted__'' @ salt @ enc) \<and> length salt = 8 \<and> enc \<noteq> [] \<longleftrightarrow>
      salt = take 8 (drop 8 ct) \<and> enc = drop 16 ct" for salt enc
      using ct len magic Some by auto
    have "key_opens L F key_file weak_hash \<longleftrightarrow>
        (case o_BytesToKey L (take 8 (drop 8 ct)) (to_blob (hex (o_SHA1 L (master_salt @ to_blob weak_hash)))) of
           (n, key, iv) \<Rightarrow> n = 32 \<and> o_DecryptFinal L (o_DecryptUpdate L (o_DecryptInit L key iv) (drop 16 ct)) = 1)"
      unfolding key_opens_def conj_assoc[symmetric] unfolding conj_assoc[of "LoadFileBytes F key_file = _"] uniq by (simp add: assms(2))
    moreover have "min (length ct - 8) 8 = 8" using True by auto
    ultimately show ?thesis
      using True Some assms magic
      by (simp add: TestOneMasterKey_def WrapHashedPassword_def IteratedWrapHashedPassword_def LoadFileString_def TestDecrypt_def
          case_prod_unfold Let_def)
  next
    case False
    then have "\<not> key_opens L F key_file weak_hash" using Some magic by (auto simp: key_opens_def)
    then show ?thesis using False Some assms magic by (auto simp: TestOneMasterKey_def)
  qed
qed

lemma key_loop_finds:
  assumes "PathAppend user_path ''master.'' = Some base" "au_system_salt auth \<noteq> []"
    and "\<And>j. j < N \<Longrightarrow> f_access F (base @ index_str j) \<and> LoadFileBytes F (base @ index_str j @ ''.salt'') \<noteq> None"
    and "\<not> f_access F (base @ index_str N)" "i \<le> N"
  shows "key_loop L F auth user_path weak_hash i = Some (\<exists>j. i \<le> j \<and> j < N \<and> key_opens L F (base @ index_str j) weak_hash)"
  using assms(5)
proof (induction "N - i" arbitrary: i)
  case 0
  then show ?case using assms(1,4) by (subst key_loop.simps) auto
next
  case (Suc n)
  then have "i < N" by simp
  with assms(3) obtain ms where "LoadFileBytes F ((base @ index_str i) @ ''.salt'') = Some ms" by (metis append.assoc not_Some_eq)
  from TestOneMasterKey_opens[OF assms(2) this]
  have one: "TestOneMasterKey L F auth (base @ index_str i) weak_hash = Some (key_opens L F (base @ index_str i) weak_hash)" .
  have "key_loop L F auth user_path weak_hash (Suc i) = Some (\<exists>j. Suc i \<le> j \<and> j < N \<and> key_opens L F (base @ index_str j) weak_hash)"
    using Suc.hyps \<open>i < N\<close> by simp
  moreover have ex: "(\<exists>j. i \<le> j \<and> j < N \<and> key_opens L F (base @ index_str j) weak_hash) \<longleftrightarrow>
      key_opens L F (base @ index_str i) weak_hash \<or> (\<exists>j. Suc i \<le> j \<and> j < N \<and> key_opens L F (base @ index_str j) weak_hash)"
    using \<open>i < N\<close> by (metis Suc_leD le_refl not_less_eq_eq order_antisym)
  ultimately show ?case
    using assms(1) assms(3)[OF \<open>i < N\<close>] one ex by (subst key_loop.simps) simp
qed

text \<open>The name of the file for 10000 is that for 1000: with 10000 keys that can be read and do not fit, the search does not end.\<close>

lemma key_loop_endless:
  assumes "PathAppend user_path ''master.'' = Some base"
    and "\<And>j. f_access F (base @ index_str j) \<and> TestOneMasterKey L F auth (base @ index_str j) weak_hash = Some False"
  shows "key_loop L F auth user_path weak_hash i = None"
proof -
  have "PathAppend user_path ''master.'' = Some base \<longrightarrow>
      \<not> (\<forall>j. f_access F (base @ index_str j) \<and> TestOneMasterKey L F auth (base @ index_str j) weak_hash = Some False)"
    if "key_loop L F auth user_path weak_hash i = Some b" for b
    by (rule key_loop.raw_induct[OF _ that]) (fastforce simp: Let_def split: bind_splits if_splits)
  then show ?thesis using assms by (cases "key_loop L F auth user_path weak_hash i") auto
qed

section \<open>Credentials\<close>

lemma cstr_terminated [simp]: "NUL \<notin> set s \<Longrightarrow> cstr (s @ NUL # r) = s" "NUL \<notin> set s \<Longrightarrow> cstr s = s"
  unfolding cstr_def by (subst takeWhile_append2, auto simp: takeWhile_eq_all_conv)

lemma strncpy_zeros: "NUL \<notin> set s \<Longrightarrow> length s \<le> k \<Longrightarrow> strncpy (replicate k NUL) s k = Some (s @ replicate (k - length s) NUL)"
  by (simp add: strncpy_def)

lemma strlen_zeros: "NUL \<notin> set s \<Longrightarrow> 0 < m \<Longrightarrow> strlen (s @ replicate m NUL) = Some (length s)"
  by (cases m) (simp_all add: strlen_def)

lemma cstr_zeros: "NUL \<notin> set s \<Longrightarrow> 0 < m \<Longrightarrow> cstr (s @ replicate m NUL) = s"
  by (cases m) simp_all

lemma drop_replicate_1 [simp]: "drop n (c # replicate n c) = [c]"
  by (simp only: replicate_Suc[symmetric] drop_replicate) simp

lemma UP_Init_exact:
  assumes "NUL \<notin> set u" "NUL \<notin> set w" "0 < m" "0 < n"
  shows "UP_Init (u @ replicate m NUL) (length u) (w @ replicate n NUL) (length w) = Some \<lparr>up_username = u @ [NUL], up_password = w @ [NUL]\<rparr>"
  using assms by (simp add: UP_Init_def strncpy_def cstr_zeros list_update_append)

lemma FetchCredentials_prompted:
  assumes "pam_getenv P ''CHROMEOS_USER'' p = None"
    and "pam_prompt P PAM_PROMPT_ECHO_ON ''Username: '' p = (0, Some u, q)" "NUL \<notin> set u" "length u < 320"
    and "pam_prompt P PAM_PROMPT_ECHO_OFF ''Password: '' q = (0, Some w, q')" "NUL \<notin> set w" "length w < 50"
  shows "FetchCredentials P (Some p) =
    Some (Some \<lparr>up_username = u @ [NUL], up_password = w @ [NUL]\<rparr>, Some (pam_set_item P PAM_AUTHTOK [] q'))"
  using assms
  by (simp add: FetchCredentials_def GetUsername_def GetPassword_def copy_response_def strncpy_zeros strlen_zeros UP_Init_exact)

text \<open>The destructor leaves nothing of the two strings in memory.\<close>

lemma destroy_clears:
  assumes "NUL \<notin> set u" "NUL \<notin> set w"
  shows "set (up_username (destroy_UsernamePassword \<lparr>up_username = u @ [NUL], up_password = w @ [NUL]\<rparr>)) = {NUL}"
    "set (up_password (destroy_UsernamePassword \<lparr>up_username = u @ [NUL], up_password = w @ [NUL]\<rparr>)) = {NUL}"
  using assms by (auto simp: destroy_UsernamePassword_def clear_string_def)

section \<open>The entry points\<close>

text \<open>What \<open>pam_get_data\<close> returns after \<open>pam_set_data\<close>, as the manual of Linux-PAM says.\<close>

definition pam_data_ok :: "'p pam \<Rightarrow> bool" where
  "pam_data_ok P \<longleftrightarrow> (\<forall>n v p. pam_get_data P n (pam_set_data P n v p) = (PAM_SUCCESS, v))"

lemma PathAppend_slash: "PathAppend (b @ ''/'') s = Some (b @ ''/'' @ s)"
  by (simp add: PathAppend_def)

definition user_key :: "'c openssl \<Rightarrow> blob \<Rightarrow> string \<Rightarrow> nat \<Rightarrow> string" where
  "user_key L salt user i = ''/home/.shadow/'' @ hex (o_SHA1 L (salt @ to_blob user)) @ ''/master.'' @ decimal i"

definition weak_hash :: "'c openssl \<Rightarrow> blob \<Rightarrow> string \<Rightarrow> string" where
  "weak_hash L salt password = hex (take 16 (o_SHA256 L (to_blob (hex salt) @ to_blob password)))"

lemma hex_last: "s \<in> set (hex bs) \<Longrightarrow> s \<noteq> CHR ''/''"
proof (induction bs)
  case (Cons b bs)
  have "hex_digits ! unat (take_bit 4 x) \<noteq> CHR ''/''" for x :: byte
    using nth_mem[of "unat (take_bit 4 x)" hex_digits] take_4_less[of x] by (auto simp: hex_digits_def)
  then have "CHR ''/'' \<noteq> hex_digits ! unat (take_bit 4 x)" for x :: byte by metis
  with Cons show ?case by (cases "s \<in> set (hex bs)") (auto simp: and_15)
qed simp

lemma user_path:
  assumes "o_SHA1 L (salt @ to_blob u) \<noteq> []"
  shows "PathAppend (''/home/.shadow/'' @ hex (o_SHA1 L (salt @ to_blob u))) ''master.'' =
    Some (''/home/.shadow/'' @ hex (o_SHA1 L (salt @ to_blob u)) @ ''/master.'')"
proof -
  have "hex (o_SHA1 L (salt @ to_blob u)) \<noteq> []" using assms length_hex by (metis length_0_conv mult_eq_0_iff zero_neq_numeral)
  then have "last (''/home/.shadow/'' @ hex (o_SHA1 L (salt @ to_blob u))) \<noteq> CHR ''/''" using hex_last by (metis last_appendR last_in_set)
  then show ?thesis by (simp add: PathAppend_def)
qed

lemma TestAllMasterKeys_finds:
  assumes "salt \<noteq> []" "NUL \<notin> set u" "NUL \<notin> set w" "o_SHA1 L (salt @ to_blob u) \<noteq> []" "N < 10000"
    and "\<And>i. i < N \<Longrightarrow> f_access F (user_key L salt u i) \<and> LoadFileBytes F (user_key L salt u i @ ''.salt'') \<noteq> None"
    and "\<not> f_access F (user_key L salt u N)"
  shows "TestAllMasterKeys None L F \<lparr>au_shadow_root = kDefaultShadowRoot, au_system_salt = salt\<rparr> \<lparr>up_username = u @ [NUL], up_password = w @ [NUL]\<rparr> =
    Some (\<exists>i<N. key_opens L F (user_key L salt u i) (weak_hash L salt w))"
proof -
  let ?base = "''/home/.shadow/'' @ hex (o_SHA1 L (salt @ to_blob u)) @ ''/master.''"
  let ?auth = "\<lparr>au_shadow_root = kDefaultShadowRoot, au_system_salt = salt\<rparr>"
  have k: "?base @ index_str i = user_key L salt u i" if "i \<le> N" for i
    using that assms(5) by (simp add: user_key_def index_str_decimal)
  have "key_loop L F ?auth (''/home/.shadow/'' @ hex (o_SHA1 L (salt @ to_blob u))) (weak_hash L salt w) 0 =
      Some (\<exists>j. 0 \<le> j \<and> j < N \<and> key_opens L F (?base @ index_str j) (weak_hash L salt w))"
    by (rule key_loop_finds[OF user_path[OF assms(4)]])
      (use assms(1,6,7) k in \<open>auto simp flip: append_assoc simp: less_imp_le\<close>)
  moreover have "(\<exists>j. 0 \<le> j \<and> j < N \<and> key_opens L F (?base @ index_str j) (weak_hash L salt w)) \<longleftrightarrow>
      (\<exists>i<N. key_opens L F (user_key L salt u i) (weak_hash L salt w))"
    using k by (metis less_imp_le zero_le)
  ultimately show ?thesis
    using assms(1-3)
    by (simp add: TestAllMasterKeys_def GetObfuscatedUsername_def GetPasswordWeakHash_def weak_hash_def kDefaultShadowRoot_def
        PathAppend_slash[of "''/home/.shadow''", simplified])
qed

text \<open>
  C10: with a system salt and master keys up to an index that cannot be read, \<open>pam_sm_authenticate\<close> returns, for the user name and password
  that were entered, \<open>PAM_SUCCESS\<close> when one of the user's master keys opens with the password and \<open>PAM_AUTH_ERR\<close> otherwise; \<open>pam_sm_setcred\<close>
  returns the same result afterwards, and \<open>PAM_SUCCESS\<close> from then on.
\<close>

theorem pam_authenticates:
  assumes "pam_data_ok P"
    and "pam_getenv P ''CHROMEOS_USER'' p = None"
    and "pam_prompt P PAM_PROMPT_ECHO_ON ''Username: '' p = (0, Some u, q)" "NUL \<notin> set u" "length u < 320"
    and "pam_prompt P PAM_PROMPT_ECHO_OFF ''Password: '' q = (0, Some w, q')" "NUL \<notin> set w" "length w < 50"
    and "LoadFileBytes F ''/home/.shadow/salt'' = Some salt" "salt \<noteq> []" "o_SHA1 L (salt @ to_blob u) \<noteq> []"
    and "\<And>i. i < N \<Longrightarrow> f_access F (user_key L salt u i) \<and> LoadFileBytes F (user_key L salt u i @ ''.salt'') \<noteq> None"
    and "\<not> f_access F (user_key L salt u N)" "N < 10000"
  shows "\<exists>r p'. pam_sm_authenticate None L F P (Some p) = Some (r, Some p') \<and>
    r = (if \<exists>i<N. key_opens L F (user_key L salt u i) (weak_hash L salt w) then PAM_SUCCESS else PAM_AUTH_ERR) \<and>
    fst (pam_sm_setcred P p') = r \<and> fst (pam_sm_setcred P (snd (pam_sm_setcred P p'))) = PAM_SUCCESS"
proof -
  have init: "Auth_Init F (new_Authenticator kDefaultShadowRoot) = Some (True, \<lparr>au_shadow_root = kDefaultShadowRoot, au_system_salt = salt\<rparr>)"
    using assms(9) by (simp add: Auth_Init_def new_Authenticator_def kDefaultShadowRoot_def PathAppend_def)
  show ?thesis
    using assms(1) FetchCredentials_prompted[OF assms(2-8)] init
      TestAllMasterKeys_finds[OF assms(10,4,7,11,14,12,13)]
    by (simp add: pam_sm_authenticate_def pam_sm_setcred_def pam_data_ok_def)
qed

definition sample_pam :: "(string \<Rightarrow> int option) pam" where
  "sample_pam = \<lparr>pam_getenv = (\<lambda>n p. None),
     pam_prompt = (\<lambda>style s p. (0, Some (if style = PAM_PROMPT_ECHO_ON then ''u@x'' else ''pw''), p)),
     pam_set_item = (\<lambda>i s p. p), pam_set_data = (\<lambda>n v p. p(n := v)), pam_get_data = (\<lambda>n p. (0, p n))\<rparr>"

definition sample_openssl :: "blob openssl" where
  "sample_openssl = \<lparr>o_SHA1 = (\<lambda>bs. [of_nat (length bs)]), o_SHA256 = (\<lambda>bs. [of_nat (length bs)]), o_BytesToKey = (\<lambda>s p. (32, p, [])),
     o_DecryptInit = (\<lambda>k iv. k), o_DecryptUpdate = (\<lambda>k bs. k @ bs), o_DecryptFinal = (\<lambda>c. if last c = 1 then 1 else 0)\<rparr>"

definition sample_files :: fsys where
  "sample_files =
     (let m = [(''/home/.shadow/salt'', [7]), (''/home/.shadow/04/master.0.salt'', [8]),
               (''/home/.shadow/04/master.0'', to_blob ''Salted__12345678'' @ [1])] :: (string \<times> blob) list
      in \<lparr>f_open = (\<lambda>s. map_of m s \<noteq> None), f_fstat = (\<lambda>s. map_option length (map_of m s)),
          f_read = (\<lambda>s n. map_option (take n) (map_of m s)), f_access = (\<lambda>s. map_of m s \<noteq> None)\<rparr>)"

lemma sample_keys:
  "user_key sample_openssl [7] ''u@x'' 0 = ''/home/.shadow/04/master.0''" "user_key sample_openssl [7] ''u@x'' (Suc 0) = ''/home/.shadow/04/master.1''"
  by (simp_all add: user_key_def sample_openssl_def to_blob_def hex_digits_def decimal.simps)

lemma sample_opens: "key_opens sample_openssl sample_files ''/home/.shadow/04/master.0'' h"
  unfolding key_opens_def
  by (intro exI[of _ "to_blob ''12345678''"] exI[of _ "[1]"] exI[of _ "[8]"])
    (simp add: LoadFileBytes_def sample_files_def sample_openssl_def to_blob_def)

theorem pam_authenticates_witness:
  "\<exists>p'. pam_sm_authenticate None sample_openssl sample_files sample_pam (Some (\<lambda>_. None)) = Some (PAM_SUCCESS, Some p') \<and>
     fst (pam_sm_setcred sample_pam p') = PAM_SUCCESS"
proof -
  have "\<exists>i<1. key_opens sample_openssl sample_files (user_key sample_openssl [7] ''u@x'' i) (weak_hash sample_openssl [7] ''pw'')"
    using sample_opens sample_keys(1) by auto
  moreover have "\<exists>r p'. pam_sm_authenticate None sample_openssl sample_files sample_pam (Some (\<lambda>_. None)) = Some (r, Some p') \<and>
    r = (if \<exists>i<1. key_opens sample_openssl sample_files (user_key sample_openssl [7] ''u@x'' i) (weak_hash sample_openssl [7] ''pw'')
         then PAM_SUCCESS else PAM_AUTH_ERR) \<and>
    fst (pam_sm_setcred sample_pam p') = r \<and> fst (pam_sm_setcred sample_pam (snd (pam_sm_setcred sample_pam p'))) = PAM_SUCCESS"
    by (rule pam_authenticates[where u = "''u@x''" and w = "''pw''" and salt = "[7]" and N = 1 and
          q = "\<lambda>_. None" and q' = "\<lambda>_. None"])
      (simp_all add: sample_keys, simp_all add: sample_pam_def pam_data_ok_def LoadFileBytes_def sample_files_def sample_openssl_def)
  ultimately show ?thesis by auto
qed

end
