(* ===== verification/Spec2Isabelle.thy ===== *)
theory Spec2Isabelle
  imports UE_Attempter WM_Util WM_Keys WM_Layout_Inv VB_Keys MJ_Jail_Props PO_Auth_Props
begin

text \<open>
  A verification of the core programs of Chromium OS: the update engine (\<open>src/src/platform/update_engine\<close>),
  the window manager (\<open>src/src/platform/window_manager\<close>) and the verified boot reference code
  (\<open>src/src/platform/vboot_reference\<close>).

  \<^bold>\<open>Conventions.\<close> A class is a record of its members, a method a function from the state before to the state
  after. A failed CHECK, an out-of-bounds access and every other abort is \<open>None\<close>; a function that the
  code lets fail returns a Boolean or an option beside its state. DCHECK and logging do nothing, as in a release
  build. Machine integers are words where the width matters; elsewhere an \<open>int\<close> of C++ is an \<open>int\<close>, and
  the bounds that exclude an overflow are hypotheses or are proved. \<open>double\<close> is modelled by the rationals with every result
  rounded to 53 bits (theory \<open>Doubles\<close>). Code outside the repository (system calls, libcurl, zlib, libbz2,
  OpenSSL, libxml2, GLib, the X server, Clutter) is a parameter: a record of functions on an arbitrary state. What a
  theorem needs of it is a named predicate that states its documented behaviour, and the witness of the
  theorem has an instance of it. Objects that others point to have an identity (a number) and live in a store.

  \<^bold>\<open>Shared theories.\<close> \<open>Prelude\<close> has the error checks, the state machines with their reachable states and the
  lemmas on lists and words that several components use; \<open>Containers\<close> the sorted maps and sets; \<open>Doubles\<close> the
  floating point arithmetic.

  \<^bold>\<open>The update engine\<close> runs a queue of actions that are joined by pipes: prepare an Omaha request, check for
  an update, make a plan from the answer, copy the file system, download, run the post-installation script, set
  the bootable flag.
  \<^item> \<open>UE_Processor\<close> (\<open>action_processor.cc\<close>, \<open>action.h\<close>): the queue, its delegate and the ownership of actions; an
    invariant of all reachable states, the run of a queue, destruction.
  \<^item> \<open>UE_Pipes\<close> (\<open>action_pipe.h\<close>, \<open>action.h\<close>): what a bonded action receives.
  \<^item> \<open>UE_Writers\<close>, \<open>UE_Extents\<close> (\<open>file_writer.cc\<close>, \<open>extent_writer.cc\<close>, \<open>extent_mapper.cc\<close>): writers to a device, with
    partial writes, extents and padding; they refine an abstract device, and the extents of a file are its
    blocks.
  \<^item> \<open>UE_Codecs\<close> (\<open>gzip.cc\<close>, \<open>bzip_extent_writer.cc\<close>, \<open>decompressing_file_writer.cc\<close>,
    \<open>omaha_hash_calculator.cc\<close>): streaming codecs and hashes; decompression gives back what was compressed, however
    the stream is cut into pieces.
  \<^item> \<open>UE_Fetch\<close> (\<open>libcurl_http_fetcher.cc\<close>, \<open>mock_http_fetcher.cc\<close>): transfers that break and are resumed deliver
    a prefix of the document.
  \<^item> \<open>UE_Download\<close> (\<open>download_action.cc\<close>), \<open>UE_Omaha\<close> (the request, check and response actions), \<open>UE_Boot\<close>
    (\<open>postinstall_runner_action.cc\<close>, \<open>set_bootable_flag_action.cc\<close>), \<open>UE_Files\<close> and \<open>UE_Strings\<close> (\<open>utils.cc\<close>,
    \<open>filesystem_iterator.cc\<close>, \<open>subprocess.cc\<close>, \<open>filesystem_copier_action.cc\<close>): the behaviour of each action on
    every branch.
  \<^item> \<open>UE_Attempter\<close> (\<open>main.cc\<close>): the composition of all actions; the engine always quits its main loop and
    retries at most once.

  \<^bold>\<open>The window manager\<close> draws the windows of X clients as Clutter actors and arranges them.
  \<^item> \<open>WM_Util\<close> (\<open>util.cc\<close>, \<open>util.h\<close>): the stacker, which refines a list of distinct items, and byte maps.
  \<^item> \<open>WM_Keys\<close> (\<open>key_bindings.cc\<close>): the three tables of key bindings agree in every reachable state.
  \<^item> \<open>WM_Ipc\<close> (\<open>atom_cache.cc\<close>, \<open>wm_ipc.cc\<close>): messages to Chrome are decoded as they were sent.
  \<^item> \<open>WM_Events\<close> (\<open>motion_event_coalescer.cc\<close>, \<open>pointer_position_watcher.cc\<close>, \<open>event_consumer_registrar.cc\<close>, the
    registrations of \<open>window_manager.cc\<close>).
  \<^item> \<open>WM_Actors\<close> (\<open>shadow.cc\<close>, \<open>clutter_interface.h\<close>, the property decoding of \<open>x_connection.cc\<close> and
    \<open>real_x_connection.cc\<close>), \<open>WM_Window\<close>, \<open>WM_Window_Props\<close> (\<open>window.cc\<close>): geometry, size hints, state properties and
    shadows of a window.
  \<^item> \<open>WM_Stacking\<close> (\<open>stacking_manager.cc\<close>, services of \<open>window_manager.cc\<close>): the order of the layers.
  \<^item> \<open>WM_Panel\<close>, \<open>WM_PanelBar\<close>, \<open>WM_Panel_Props\<close> (\<open>panel.cc\<close>, \<open>panel_bar.cc\<close>): panels and the bar they stand in.

  \<^bold>\<open>Verified boot\<close> checks the firmware before it runs: a root key signs the key of the firmware's header, this key the
  preamble and the data.
  \<^item> \<open>VB_Sha\<close>, \<open>VB_Sha_Props\<close> (\<open>sha1.c\<close>, \<open>sha2.c\<close>, \<open>sha_utility.c\<close>): the digests, with the buffering of the streaming
    interface, loops and unrolled code; they are those of FIPS 180-2 below \<open>2 ^ 29\<close> bytes, where the 32 bit counters
    overflow.
  \<^item> \<open>VB_Rsa\<close>, \<open>VB_Rsa_Props\<close> (\<open>rsa.c\<close>, \<open>rsa_utility.c\<close>, \<open>padding.c\<close>): Montgomery multiplication on words of 32 bits, the
    power of 65537, the comparison with the padding of PKCS1; \<open>RSA_verify\<close> is stated on integers.
  \<^item> \<open>VB_Firmware\<close>, \<open>VB_Firmware_Props\<close> (\<open>firmware_image.c\<close>, \<open>file_keys.c\<close>, \<open>signature_digest.c\<close>, \<open>verify_data.c\<close>,
    \<open>utility_stub.c\<close>): reading, writing, signing and verifying images. \<open>VerifyFirmware\<close> accepts exactly the blobs of the
    documented layout whose chain of signatures holds, and agrees with \<open>VerifyFirmwareImage\<close>.
  \<^item> \<open>VB_Keys\<close> (\<open>dumpRSAPublicKey.c\<close>): the keys that the tool writes are good for \<open>rsa.c\<close>.

  \<^bold>\<open>Fuel.\<close> Loops that read from the environment take fuel and give \<open>None\<close> without it. The theorems about them show
  that fuel linear in the size of the data is enough (for the growing buffers of \<open>gzip.cc\<close>, in the logarithm of
  their size).

  \<^bold>\<open>Not modelled.\<close> The delta generator (its bodies are commented out in this revision), the OpenGL and
  Clutter back ends, the requests of \<open>real_x_connection.cc\<close>, mocks and tests, the program starts, the GTK theme,
  and the daemons that only forward D-Bus signals.
\<close>

end
